(* ===== verification/ISCP_Prelude.thy ===== *)
theory ISCP_Prelude
  imports Main "HOL-Library.Word" "HOL-Library.Char_ord" "HOL-Library.List_Lexorder"
    "HOL-Library.Multiset"
begin

text \<open>
  Shared vocabulary of the development: the Go types the components use (byte
  strings, results with an error, one-place clock and random readers), the part of
  the Go \<^verbatim>\<open>strings\<close> package the sources call, and the generic lemmas on results,
  association lists and sorted lists that the component proofs rest on.

  A Go \<^verbatim>\<open>string\<close> and a \<^verbatim>\<open>[]byte\<close> are both sequences of bytes; Isabelle's \<^typ>\<open>char\<close> is
  exactly an 8-bit byte, so both are \<^typ>\<open>string\<close>. The order on strings (from
  \<^verbatim>\<open>Char_ord\<close> and \<^verbatim>\<open>List_Lexorder\<close>) is byte-wise lexicographic, as Go's \<open><\<close> on strings.
\<close>

type_synonym bytes = string

named_theorems go_simps \<open>unfolding equations of the small Go helpers\<close>
named_theorems result_simps \<open>inversion of results (\<open>Inl\<close> error, \<open>Inr\<close> value)\<close>

section \<open>Results\<close>

text \<open>
  \<^verbatim>\<open>x, err := f(); if err != nil { return err }; k(x)\<close> is \<open>and_then f k\<close>: the error is the
  left summand and stops the computation.
\<close>

definition and_then :: "'e + 'a \<Rightarrow> ('a \<Rightarrow> 'e + 'b) \<Rightarrow> 'e + 'b" where
  "and_then r k = (case r of Inl e \<Rightarrow> Inl e | Inr x \<Rightarrow> k x)"

text \<open>\<^verbatim>\<open>if bad { return err }; rest\<close>\<close>

definition fail_if :: "bool \<Rightarrow> 'e \<Rightarrow> 'e + 'a \<Rightarrow> 'e + 'a" where
  "fail_if b e rest = (if b then Inl e else rest)"

definition is_ok :: "'e + 'a \<Rightarrow> bool" where
  "is_ok r = (case r of Inl e \<Rightarrow> False | Inr x \<Rightarrow> True)"

section \<open>The Go strings package\<close>

text \<open>
  \<^verbatim>\<open>unicode.IsSpace\<close> on the UTF-8 encodings of its code points: the six ASCII ones, then
  U+0085, U+00A0, U+1680, U+2000 to U+200A, U+2028, U+2029, U+202F, U+205F, U+3000.
\<close>

definition ascii_space :: "char \<Rightarrow> bool" where
  "ascii_space c \<longleftrightarrow> c \<in> {CHR 0x09, CHR 0x0A, CHR 0x0B, CHR 0x0C, CHR 0x0D, CHR '' ''}"

definition space2 :: "char \<Rightarrow> char \<Rightarrow> bool" where
  "space2 a b \<longleftrightarrow> a = CHR 0xC2 \<and> (b = CHR 0x85 \<or> b = CHR 0xA0)"

definition space3 :: "char \<Rightarrow> char \<Rightarrow> char \<Rightarrow> bool" where
  "space3 a b c \<longleftrightarrow>
     (a = CHR 0xE1 \<and> b = CHR 0x9A \<and> c = CHR 0x80) \<or>
     (a = CHR 0xE2 \<and> b = CHR 0x80 \<and>
        c \<in> {CHR 0x80, CHR 0x81, CHR 0x82, CHR 0x83, CHR 0x84, CHR 0x85, CHR 0x86, CHR 0x87,
             CHR 0x88, CHR 0x89, CHR 0x8A, CHR 0xA8, CHR 0xA9, CHR 0xAF}) \<or>
     (a = CHR 0xE2 \<and> b = CHR 0x81 \<and> c = CHR 0x9F) \<or>
     (a = CHR 0xE3 \<and> b = CHR 0x80 \<and> c = CHR 0x80)"

fun trim_left :: "string \<Rightarrow> string" where
  "trim_left [] = []"
| "trim_left (a # s) =
     (if ascii_space a then trim_left s
      else case s of
        [] \<Rightarrow> [a]
      | b # s' \<Rightarrow>
          if space2 a b then trim_left s'
          else (case s' of
                  [] \<Rightarrow> [a, b]
                | c # s'' \<Rightarrow> if space3 a b c then trim_left s'' else a # s))"

text \<open>The same from the other end, on the reversed string.\<close>

fun trim_rev :: "string \<Rightarrow> string" where
  "trim_rev [] = []"
| "trim_rev (c # s) =
     (if ascii_space c then trim_rev s
      else case s of
        [] \<Rightarrow> [c]
      | b # s' \<Rightarrow>
          if space2 b c then trim_rev s'
          else (case s' of
                  [] \<Rightarrow> [c, b]
                | a # s'' \<Rightarrow> if space3 a b c then trim_rev s'' else c # s))"

definition TrimSpace :: "string \<Rightarrow> string" where
  "TrimSpace s = rev (trim_rev (rev (trim_left s)))"

definition blank :: "string \<Rightarrow> bool" where
  "blank s \<longleftrightarrow> TrimSpace s = []"

text \<open>
  ASCII case mapping, the part of \<^verbatim>\<open>strings.ToUpper\<close> and \<^verbatim>\<open>strings.EqualFold\<close> that is reached: the source folds only against
  the prefix \<^verbatim>\<open>Bearer\<close>, and of the ASCII letters only k and s have a partner outside ASCII. (Member names of JSON objects are
  matched by \<open>fold_name\<close>, which has these two.) Methods and hosts are mapped as ASCII.
\<close>

definition upper_char :: "char \<Rightarrow> char" where
  "upper_char c = (if CHR ''a'' \<le> c \<and> c \<le> CHR ''z'' then char_of (of_char c - 32 :: nat) else c)"

definition lower_char :: "char \<Rightarrow> char" where
  "lower_char c = (if CHR ''A'' \<le> c \<and> c \<le> CHR ''Z'' then char_of (of_char c + 32 :: nat) else c)"

definition to_upper :: "string \<Rightarrow> string" where
  "to_upper s = map upper_char s"

definition to_lower :: "string \<Rightarrow> string" where
  "to_lower s = map lower_char s"

definition equal_fold :: "string \<Rightarrow> string \<Rightarrow> bool" where
  "equal_fold s t \<longleftrightarrow> to_lower s = to_lower t"

text \<open>\<^verbatim>\<open>strings.Contains\<close> and \<^verbatim>\<open>strings.Join(parts, "\x00")\<close>.\<close>

fun starts_with :: "string \<Rightarrow> string \<Rightarrow> bool" where
  "starts_with [] s = True"
| "starts_with (p # ps) [] = False"
| "starts_with (p # ps) (c # s) = (p = c \<and> starts_with ps s)"

fun contains_sub :: "string \<Rightarrow> string \<Rightarrow> bool" where
  "contains_sub p [] = starts_with p []"
| "contains_sub p (c # s) = (starts_with p (c # s) \<or> contains_sub p s)"

abbreviation NUL :: char where
  "NUL \<equiv> CHR 0x00"

fun join_nul :: "string list \<Rightarrow> string" where
  "join_nul [] = []"
| "join_nul [x] = x"
| "join_nul (x # y # r) = x @ NUL # join_nul (y # r)"

section \<open>Go maps as association lists with distinct keys\<close>

text \<open>
  A Go map whose contents are iterated is kept as an association list; \<open>al_put\<close> is
  \<^verbatim>\<open>m[k] = v\<close> (in place when the key is present).
\<close>

fun al_put :: "'k \<Rightarrow> 'v \<Rightarrow> ('k \<times> 'v) list \<Rightarrow> ('k \<times> 'v) list" where
  "al_put k v [] = [(k, v)]"
| "al_put k v ((k', v') # r) = (if k' = k then (k, v) # r else (k', v') # al_put k v r)"

definition al_remove :: "'k \<Rightarrow> ('k \<times> 'v) list \<Rightarrow> ('k \<times> 'v) list" where
  "al_remove k m = filter (\<lambda>(k', v). k' \<noteq> k) m"

section \<open>Byte order\<close>

text \<open>\<^verbatim>\<open>binary.BigEndian\<close>\<close>

fun big_endian :: "nat \<Rightarrow> nat \<Rightarrow> bytes" where
  "big_endian 0 n = []"
| "big_endian (Suc k) n = big_endian k (n div 256) @ [char_of (n mod 256)]"

section \<open>Generic lemmas\<close>

lemma length_big_endian [simp]: "length (big_endian k n) = k"
  by (induction k arbitrary: n) simp_all

lemma char_of_eq: "(char_of (m mod 256) :: char) = char_of (n mod 256) \<Longrightarrow> m mod 256 = (n mod 256 :: nat)"
  by (drule arg_cong[where f = "of_char :: char \<Rightarrow> nat"]) simp

lemma big_endian_inject: "big_endian k m = big_endian k n \<Longrightarrow> m < 256 ^ k \<Longrightarrow> n < 256 ^ k \<Longrightarrow> m = n"
proof (induction k arbitrary: m n)
  case (Suc k)
  have "m div 256 < 256 ^ k" "n div 256 < 256 ^ k" using Suc.prems(2,3) by (simp_all add: less_mult_imp_div_less mult.commute)
  moreover have "big_endian k (m div 256) = big_endian k (n div 256)" "m mod 256 = n mod 256"
    using Suc.prems(1) char_of_eq by simp_all
  ultimately have "m div 256 = n div 256" "m mod 256 = n mod 256" using Suc.IH by blast+
  then show ?case by (metis div_mult_mod_eq)
qed simp

lemma and_then_simps [simp]:
  "and_then (Inl e) k = Inl e"
  "and_then (Inr x) k = k x"
  by (simp_all add: and_then_def)

lemma and_then_Inr_iff [result_simps]:
  "and_then r k = Inr y \<longleftrightarrow> (\<exists>x. r = Inr x \<and> k x = Inr y)"
  by (cases r) auto

lemma and_then_Inl_iff:
  "and_then r k = Inl e \<longleftrightarrow> r = Inl e \<or> (\<exists>x. r = Inr x \<and> k x = Inl e)"
  by (cases r) auto

lemma and_then_ok: "\<exists>x. r = Inr x \<Longrightarrow> (\<And>x. \<exists>y. k x = Inr y) \<Longrightarrow> \<exists>y. and_then r k = Inr y"
  by auto

lemma and_then_assoc: "and_then (and_then r f) g = and_then r (\<lambda>x. and_then (f x) g)"
  by (cases r) auto

lemma and_then_cong [fundef_cong]:
  "r = r' \<Longrightarrow> (\<And>x. r' = Inr x \<Longrightarrow> f x = g x) \<Longrightarrow> and_then r f = and_then r' g"
  by (cases r') auto

lemma fail_if_simps [simp]:
  "fail_if True e r = Inl e"
  "fail_if False e r = r"
  by (simp_all add: fail_if_def)

lemma fail_if_Inr_iff [result_simps]:
  "fail_if b e r = Inr y \<longleftrightarrow> \<not> b \<and> r = Inr y"
  by (simp add: fail_if_def)

lemma fail_if_Inl_iff:
  "fail_if b e r = Inl e' \<longleftrightarrow> (b \<and> e' = e) \<or> (\<not> b \<and> r = Inl e')"
  by (auto simp: fail_if_def)

lemma is_ok_simps [simp]: "is_ok (Inr x)" "\<not> is_ok (Inl e)"
  by (simp_all add: is_ok_def)

lemma is_ok_iff: "is_ok r \<longleftrightarrow> (\<exists>x. r = Inr x)"
  by (cases r) auto

lemma map_of_al_put [simp]: "map_of (al_put k v m) = (map_of m)(k \<mapsto> v)"
  by (induction m) auto

lemma keys_al_put: "fst ` set (al_put k v m) = insert k (fst ` set m)"
  by (induction k v m rule: al_put.induct) auto

lemma distinct_al_put [simp]: "distinct (map fst m) \<Longrightarrow> distinct (map fst (al_put k v m))"
proof (induction m)
  case (Cons p m)
  then show ?case
    using keys_al_put[of k v m] by (cases p) (auto simp: image_iff)
qed simp

lemma map_of_al_remove [simp]: "map_of (al_remove k m) = (map_of m)(k := None)"
  by (induction m) (auto simp: al_remove_def)

lemma distinct_al_remove [simp]:
  "distinct (map fst m) \<Longrightarrow> distinct (map fst (al_remove k m))"
  by (auto simp: al_remove_def distinct_map_filter)

lemma join_nul_append_first: "ys \<noteq> [] \<Longrightarrow> join_nul (x # ys) = x @ NUL # join_nul ys"
  by (cases ys) auto

text \<open>A separator that occurs in no part makes the join injective.\<close>

lemma append_sep_inject:
  assumes "x @ c # r = y @ c # s" and "c \<notin> set x" and "c \<notin> set y"
  shows "x = y \<and> r = s"
  using assms
proof (induction x arbitrary: y)
  case Nil
  then show ?case by (cases y) auto
next
  case (Cons a x)
  then show ?case by (cases y) auto
qed

lemma join_nul_inject:
  assumes "length xs = length ys" and "\<forall>x\<in>set xs. NUL \<notin> set x" and "\<forall>y\<in>set ys. NUL \<notin> set y"
    and "join_nul xs = join_nul ys"
  shows "xs = ys"
  using assms
proof (induction xs ys rule: list_induct2)
  case (Cons x xs y ys)
  show ?case
  proof (cases xs)
    case Nil
    with Cons show ?thesis by simp
  next
    case xs: (Cons x' xs')
    with Cons.hyps obtain y' ys' where ys: "ys = y' # ys'" by (cases ys) auto
    from Cons.prems xs ys have "x @ NUL # join_nul xs = y @ NUL # join_nul ys" by simp
    with Cons.prems have "x = y" "join_nul xs = join_nul ys"
      by (auto dest: append_sep_inject)
    with Cons show ?thesis by simp
  qed
qed simp

text \<open>A list sorted by distinct keys is determined by its contents.\<close>

lemma sort_key_distinct_unique:
  fixes f :: "'a \<Rightarrow> 'k::linorder"
  assumes "mset xs = mset ys" and "distinct (map f xs)"
  shows "sort_key f xs = sort_key f ys"
  using assms
  by (intro sort_key_inj_key_eq) (auto simp: distinct_map)

lemma map_fst_sort_key: "map fst (sort_key fst xs) = sort (map fst (xs :: ('k::linorder \<times> 'v) list))"
  by (rule properties_for_sort[symmetric]) simp_all

lemma insort_key_map: "(\<And>x. h (g x) = h' x) \<Longrightarrow> insort_key h (g x) (map g xs) = map g (insort_key h' x xs)"
  by (induction xs) auto

lemma sort_key_map: "(\<And>x. h (g x) = h' x) \<Longrightarrow> sort_key h (map g xs) = map g (sort_key h' xs)"
  by (induction xs) (simp_all add: insort_key_map)

text \<open>Looking up the sorted keys of a map lists its sorted entries.\<close>

lemma sort_key_lookup:
  fixes es :: "('k::linorder \<times> 'v) list"
  assumes "distinct (map fst es)"
  shows "map (\<lambda>k. (k, the (map_of es k))) (sort (map fst es)) = sort_key fst es"
proof -
  have "map ((\<lambda>k. (k, the (map_of es k))) \<circ> fst) (sort_key fst es) = sort_key fst es"
    using assms by (intro map_idI) auto
  then show ?thesis by (simp flip: map_fst_sort_key)
qed

end
