(* ===== verification/Errors.thy ===== *)
theory Errors
  imports ISCP_Prelude
begin

text \<open>
  The error type of \<^verbatim>\<open>pkg/iscp/errors/errors.go\<close>. A Go \<^verbatim>\<open>error\<close> is one of: an
  \<^verbatim>\<open>*ISCPError\<close> with its code, message, retry flag, details and wrapped cause; an error of
  the standard library, known by its text; \<^verbatim>\<open>pgx.ErrNoRows\<close>; a PostgreSQL server error,
  known by its SQLSTATE. \<^verbatim>\<open>nil\<close> is the right summand of a result.
\<close>

datatype Code =
    CodeCanonicalInvalid | CodeSchemaInvalid | CodeSignatureInvalid | CodeKeyInvalid
  | CodeTrustInvalid | CodeSessionInvalid | CodeEnvelopeInvalid | CodeReplayDetected
  | CodeAccessInvalid | CodeProvisionInvalid | CodeConfigInvalid | CodeStorageInvalid

fun code_text :: "Code \<Rightarrow> string" where
  "code_text CodeCanonicalInvalid = ''ISCPCAN001''"
| "code_text CodeSchemaInvalid = ''ISCPCAN002''"
| "code_text CodeSignatureInvalid = ''ISCPSIG001''"
| "code_text CodeKeyInvalid = ''ISCPKEY001''"
| "code_text CodeTrustInvalid = ''ISCPTRUST001''"
| "code_text CodeSessionInvalid = ''ISCPSESSION001''"
| "code_text CodeEnvelopeInvalid = ''ISCPENV001''"
| "code_text CodeReplayDetected = ''ISCPENV002''"
| "code_text CodeAccessInvalid = ''ISCPACCESS001''"
| "code_text CodeProvisionInvalid = ''ISCPPROV001''"
| "code_text CodeConfigInvalid = ''ISCPCFG001''"
| "code_text CodeStorageInvalid = ''ISCPDB001''"

datatype go_error =
    ISCPError (err_code: Code) (err_message: string) (err_retryable: bool)
      (err_details: "(string \<times> string) list") (err_cause: "go_error option")
  | StdError string
  | ErrNoRows
  | PgError string

type_synonym 'a result = "go_error + 'a"

definition errors_New :: "Code \<Rightarrow> string \<Rightarrow> go_error" where
  "errors_New code message = ISCPError code message False [] None"

definition errors_Wrap :: "Code \<Rightarrow> string \<Rightarrow> go_error \<Rightarrow> go_error" where
  "errors_Wrap code message err = ISCPError code message False [] (Some err)"

definition errors_Retryable :: "Code \<Rightarrow> string \<Rightarrow> go_error" where
  "errors_Retryable code message = ISCPError code message True [] None"

fun error_text :: "go_error \<Rightarrow> string" where
  "error_text (ISCPError code message retryable details None) = code_text code @ '': '' @ message"
| "error_text (ISCPError code message retryable details (Some err)) =
     code_text code @ '': '' @ message @ '': '' @ error_text err"
| "error_text (StdError s) = s"
| "error_text ErrNoRows = ''no rows in result set''"
| "error_text (PgError code) = ''SQLSTATE '' @ code"

fun errors_Unwrap :: "go_error \<Rightarrow> go_error option" where
  "errors_Unwrap (ISCPError code message retryable details err) = err"
| "errors_Unwrap _ = None"

text \<open>Shorthand used throughout: \<^verbatim>\<open>return iscperrors.New(code, message)\<close>.\<close>

abbreviation reject :: "Code \<Rightarrow> string \<Rightarrow> 'a result" where
  "reject code message \<equiv> Inl (errors_New code message)"

lemma code_text_inject: "code_text a = code_text b \<longleftrightarrow> a = b"
  by (cases a; cases b) simp_all

lemma errors_New_inject [simp]: "errors_New c m = errors_New c' m' \<longleftrightarrow> c = c' \<and> m = m'"
  by (simp add: errors_New_def)

lemma err_code_simps [simp]:
  "err_code (errors_New c m) = c"
  "err_code (errors_Wrap c m e) = c"
  "err_code (errors_Retryable c m) = c"
  by (simp_all add: errors_New_def errors_Wrap_def errors_Retryable_def)

end
