(* ===== verification/Config.thy ===== *)
theory Config
  imports Errors
begin

text \<open>
  \<^verbatim>\<open>pkg/iscp/config/config.go\<close>: the deployment profile and the security gate. A \<^verbatim>\<open>Profile\<close> is a Go
  string; the environment variable of \<^verbatim>\<open>LoadProfileFromEnv\<close> is an argument.
\<close>

type_synonym Profile = string

definition ProfileProduction :: Profile where "ProfileProduction = ''production''"
definition ProfileStaging :: Profile where "ProfileStaging = ''staging''"
definition ProfileLocalLab :: Profile where "ProfileLocalLab = ''local-lab''"

record Gate =
  G_Profile :: Profile
  G_AllowUnsignedDescriptor :: bool
  G_AllowBearerOnlyAccess :: bool
  G_AllowPlaintextDebug :: bool
  G_AllowDebugSecrets :: bool
  G_RequireSignedDescriptors :: bool
  G_RequireProofOfPossession :: bool
  G_RequireSessionReadyBefore :: bool

definition DefaultGate :: "Profile \<Rightarrow> Gate" where
  "DefaultGate profile = \<lparr>G_Profile = profile, G_AllowUnsignedDescriptor = False,
     G_AllowBearerOnlyAccess = False, G_AllowPlaintextDebug = False, G_AllowDebugSecrets = False,
     G_RequireSignedDescriptors = (profile \<noteq> ProfileLocalLab), G_RequireProofOfPossession = True,
     G_RequireSessionReadyBefore = True\<rparr>"

definition LoadProfileFromEnv :: "string \<Rightarrow> Profile \<Rightarrow> Profile" where
  "LoadProfileFromEnv env defaultProfile = (if blank env then defaultProfile else TrimSpace env)"

definition ValidateGate :: "Gate \<Rightarrow> unit result" where
  "ValidateGate g =
     (if G_Profile g = ProfileProduction \<or> G_Profile g = ProfileStaging then
        (if G_AllowUnsignedDescriptor g
           then reject CodeConfigInvalid ''profile forbids unsigned descriptors''
         else if G_AllowBearerOnlyAccess g
           then reject CodeConfigInvalid ''profile forbids bearer-only relay access''
         else if G_AllowPlaintextDebug g \<or> G_AllowDebugSecrets g
           then reject CodeConfigInvalid ''profile forbids plaintext debug secrets''
         else Inr ())
      else if G_Profile g = ProfileLocalLab then
        (if G_AllowPlaintextDebug g \<and> \<not> G_AllowDebugSecrets g
           then reject CodeConfigInvalid ''plaintext debug requires allow_debug_secrets''
         else Inr ())
      else reject CodeConfigInvalid ''unknown profile'')"

lemma ValidateGate_Inr:
  "ValidateGate g = Inr () \<longleftrightarrow>
     ((G_Profile g = ProfileProduction \<or> G_Profile g = ProfileStaging) \<and> \<not> G_AllowUnsignedDescriptor g \<and>
        \<not> G_AllowBearerOnlyAccess g \<and> \<not> G_AllowPlaintextDebug g \<and> \<not> G_AllowDebugSecrets g) \<or>
     (G_Profile g = ProfileLocalLab \<and> (G_AllowPlaintextDebug g \<longrightarrow> G_AllowDebugSecrets g))"
  by (auto simp: ValidateGate_def ProfileLocalLab_def ProfileProduction_def ProfileStaging_def)

lemma DefaultGate_valid:
  "ValidateGate (DefaultGate p) = Inr () \<longleftrightarrow> p \<in> {ProfileProduction, ProfileStaging, ProfileLocalLab}"
  by (auto simp: ValidateGate_Inr DefaultGate_def)

end
