(* ===== verification/Utf8.thy ===== *)
theory Utf8
  imports ISCP_Prelude
begin

text \<open>
  Go's \<^verbatim>\<open>unicode/utf8\<close>: decoding the first rune of a byte string and encoding a rune, as
  \<^verbatim>\<open>encoding/json\<close> uses them. An ill-formed prefix decodes to U+FFFD with size 1.
\<close>

abbreviation RuneError :: nat where "RuneError \<equiv> 65533"

abbreviation byte_val :: "char \<Rightarrow> nat" where "byte_val \<equiv> of_char"

definition cont :: "char \<Rightarrow> bool" where
  "cont c \<longleftrightarrow> 128 \<le> byte_val c \<and> byte_val c < 192"

text \<open>The range of the second byte of a three-byte and of a four-byte sequence.\<close>

definition second3 :: "nat \<Rightarrow> char \<Rightarrow> bool" where
  "second3 x b \<longleftrightarrow> cont b \<and> (x = 224 \<longrightarrow> 160 \<le> byte_val b) \<and> (x = 237 \<longrightarrow> byte_val b < 160)"

definition second4 :: "nat \<Rightarrow> char \<Rightarrow> bool" where
  "second4 x b \<longleftrightarrow> cont b \<and> (x = 240 \<longrightarrow> 144 \<le> byte_val b) \<and> (x = 244 \<longrightarrow> byte_val b < 144)"

fun decode2 :: "nat \<Rightarrow> bytes \<Rightarrow> nat \<times> nat" where
  "decode2 x (b1 # r) =
     (if cont b1 then ((x - 192) * 64 + (byte_val b1 - 128), 2) else (RuneError, 1))"
| "decode2 x [] = (RuneError, 1)"

fun decode3 :: "nat \<Rightarrow> bytes \<Rightarrow> nat \<times> nat" where
  "decode3 x (b1 # b2 # r) =
     (if second3 x b1 \<and> cont b2
      then (((x - 224) * 64 + (byte_val b1 - 128)) * 64 + (byte_val b2 - 128), 3)
      else (RuneError, 1))"
| "decode3 x _ = (RuneError, 1)"

fun decode4 :: "nat \<Rightarrow> bytes \<Rightarrow> nat \<times> nat" where
  "decode4 x (b1 # b2 # b3 # r) =
     (if second4 x b1 \<and> cont b2 \<and> cont b3
      then ((((x - 240) * 64 + (byte_val b1 - 128)) * 64 + (byte_val b2 - 128)) * 64
              + (byte_val b3 - 128), 4)
      else (RuneError, 1))"
| "decode4 x _ = (RuneError, 1)"

fun DecodeRune :: "bytes \<Rightarrow> nat \<times> nat" where
  "DecodeRune [] = (RuneError, 0)"
| "DecodeRune (b0 # r) =
     (let x = byte_val b0 in
      if x < 128 then (x, 1)
      else if x < 194 then (RuneError, 1)
      else if x < 224 then decode2 x r
      else if x < 240 then decode3 x r
      else if x < 245 then decode4 x r
      else (RuneError, 1))"

definition EncodeRune :: "nat \<Rightarrow> bytes" where
  "EncodeRune n =
     (if n < 128 then [char_of n]
      else if n < 2048 then [char_of (192 + n div 64), char_of (128 + n mod 64)]
      else if (55296 \<le> n \<and> n \<le> 57343) \<or> 1114111 < n
        then [CHR 0xEF, CHR 0xBF, CHR 0xBD]
      else if n < 65536
        then [char_of (224 + n div 4096), char_of (128 + n div 64 mod 64), char_of (128 + n mod 64)]
      else [char_of (240 + n div 262144), char_of (128 + n div 4096 mod 64),
            char_of (128 + n div 64 mod 64), char_of (128 + n mod 64)])"

definition bad_rune :: "nat \<times> nat \<Rightarrow> bool" where
  "bad_rune p \<longleftrightarrow> p = (RuneError, 1)"

lemma decode2_size: "1 \<le> snd (decode2 x r)"
  by (induction x r rule: decode2.induct) simp_all

lemma decode3_size: "1 \<le> snd (decode3 x r)"
  by (induction x r rule: decode3.induct) simp_all

lemma decode4_size: "1 \<le> snd (decode4 x r)"
  by (induction x r rule: decode4.induct) simp_all

lemma DecodeRune_size: "1 \<le> snd (DecodeRune (b # r))"
  using decode2_size decode3_size decode4_size by (simp add: Let_def)

declare DecodeRune.simps(2) [simp del]

function valid_utf8 :: "bytes \<Rightarrow> bool" where
  "valid_utf8 [] = True"
| "valid_utf8 (b # r) =
     (\<not> bad_rune (DecodeRune (b # r)) \<and> valid_utf8 (drop (snd (DecodeRune (b # r))) (b # r)))"
  by pat_completeness auto
termination
  by (relation "measure length") (use DecodeRune_size in \<open>auto simp: Suc_le_eq\<close>)

text \<open>\<^verbatim>\<open>strings.ToValidUTF8\<close> with U+FFFD per ill-formed byte: what a JSON round trip does to a string.\<close>

function to_valid :: "bytes \<Rightarrow> bytes" where
  "to_valid [] = []"
| "to_valid (b # r) =
     (if bad_rune (DecodeRune (b # r)) then [CHR 0xEF, CHR 0xBF, CHR 0xBD] @ to_valid r
      else take (snd (DecodeRune (b # r))) (b # r) @ to_valid (drop (snd (DecodeRune (b # r))) (b # r)))"
  by pat_completeness auto
termination
  by (relation "measure length") (use DecodeRune_size in \<open>auto simp: Suc_le_eq\<close>)

section \<open>Well-formed runes\<close>

text \<open>The four shapes of a well-formed prefix.\<close>

lemma DecodeRune_cases:
  assumes "\<not> bad_rune (DecodeRune (b # r))"
  obtains
    (ascii) "byte_val b < 128" "DecodeRune (b # r) = (byte_val b, 1)"
  | (two) b1 r' where "r = b1 # r'" "194 \<le> byte_val b" "byte_val b < 224" "cont b1"
  | (three) b1 b2 r' where "r = b1 # b2 # r'" "224 \<le> byte_val b" "byte_val b < 240"
      "second3 (byte_val b) b1" "cont b2"
  | (four) b1 b2 b3 r' where "r = b1 # b2 # b3 # r'" "240 \<le> byte_val b" "byte_val b < 245"
      "second4 (byte_val b) b1" "cont b2" "cont b3"
proof -
  let ?x = "byte_val b"
  consider "?x < 128" | "128 \<le> ?x" "?x < 194" | "194 \<le> ?x" "?x < 224" | "224 \<le> ?x" "?x < 240"
    | "240 \<le> ?x" "?x < 245" | "245 \<le> ?x" by linarith
  then show thesis
  proof cases
    case 1
    then show ?thesis by (intro ascii) (simp_all add: DecodeRune.simps)
  next
    case 2
    with assms show ?thesis by (simp add: DecodeRune.simps bad_rune_def)
  next
    case 3
    then have "\<not> bad_rune (decode2 ?x r)" using assms by (simp add: DecodeRune.simps Let_def)
    with 3 show ?thesis
      by (cases "(?x, r)" rule: decode2.cases) (auto simp: bad_rune_def split: if_splits intro: two)
  next
    case 4
    then have "\<not> bad_rune (decode3 ?x r)" using assms by (simp add: DecodeRune.simps Let_def)
    with 4 show ?thesis
      by (cases "(?x, r)" rule: decode3.cases) (auto simp: bad_rune_def split: if_splits intro: three)
  next
    case 5
    then have "\<not> bad_rune (decode4 ?x r)" using assms by (simp add: DecodeRune.simps Let_def)
    with 5 show ?thesis
      by (cases "(?x, r)" rule: decode4.cases) (auto simp: bad_rune_def split: if_splits intro: four)
  next
    case 6
    with assms show ?thesis by (simp add: DecodeRune.simps bad_rune_def)
  qed
qed

lemma DecodeRune_two:
  "194 \<le> byte_val b \<Longrightarrow> byte_val b < 224 \<Longrightarrow> cont b1 \<Longrightarrow>
     DecodeRune (b # b1 # r) = ((byte_val b - 192) * 64 + (byte_val b1 - 128), 2)"
  by (simp add: DecodeRune.simps)

lemma DecodeRune_three:
  "224 \<le> byte_val b \<Longrightarrow> byte_val b < 240 \<Longrightarrow> second3 (byte_val b) b1 \<Longrightarrow> cont b2 \<Longrightarrow>
     DecodeRune (b # b1 # b2 # r) =
       (((byte_val b - 224) * 64 + (byte_val b1 - 128)) * 64 + (byte_val b2 - 128), 3)"
  by (simp add: DecodeRune.simps)

lemma DecodeRune_four:
  "240 \<le> byte_val b \<Longrightarrow> byte_val b < 245 \<Longrightarrow> second4 (byte_val b) b1 \<Longrightarrow> cont b2 \<Longrightarrow> cont b3 \<Longrightarrow>
     DecodeRune (b # b1 # b2 # b3 # r) =
       ((((byte_val b - 240) * 64 + (byte_val b1 - 128)) * 64 + (byte_val b2 - 128)) * 64
          + (byte_val b3 - 128), 4)"
  by (simp add: DecodeRune.simps)

lemma char_of_byte_val: "n = byte_val c \<Longrightarrow> char_of n = c"
  by simp

lemma split64: "y < 64 \<Longrightarrow> (a * 64 + y) div 64 = a" "y < 64 \<Longrightarrow> (a * 64 + y) mod 64 = (y :: nat)"
  by simp_all

lemma EncodeRune_two:
  assumes "194 \<le> byte_val b" "byte_val b < 224" "cont b1"
  shows "EncodeRune ((byte_val b - 192) * 64 + (byte_val b1 - 128)) = [b, b1]"
proof -
  obtain x y where x: "byte_val b = 192 + x" and y: "byte_val b1 = 128 + y"
    using assms by (auto simp: cont_def le_iff_add)
  have "2 \<le> x" "x < 32" "y < 64" using assms x y by (simp_all add: cont_def)
  then have "EncodeRune (x * 64 + y) = [char_of (192 + x), char_of (128 + y)]"
    by (simp add: EncodeRune_def split64)
  moreover have "char_of (192 + x) = b" "char_of (128 + y) = b1"
    using x y by (simp_all flip: x y)
  ultimately show ?thesis by (simp add: x y)
qed

lemma EncodeRune_three:
  assumes "224 \<le> byte_val b" "byte_val b < 240" "second3 (byte_val b) b1" "cont b2"
  shows "EncodeRune (((byte_val b - 224) * 64 + (byte_val b1 - 128)) * 64 + (byte_val b2 - 128))
    = [b, b1, b2]"
proof -
  obtain x y z where x: "byte_val b = 224 + x" and y: "byte_val b1 = 128 + y"
    and z: "byte_val b2 = 128 + z"
    using assms by (auto simp: cont_def second3_def le_iff_add)
  have b: "x < 16" "y < 64" "z < 64" "x = 0 \<longrightarrow> 32 \<le> y" "x = 13 \<longrightarrow> y < 32"
    using assms x y z by (auto simp: cont_def second3_def)
  define n where "n = (x * 64 + y) * 64 + z"
  have n: "2048 \<le> n" "n < 65536" "\<not> (55296 \<le> n \<and> n \<le> 57343)"
    using b unfolding n_def by (cases "x = 0"; cases "x = 13"; force)+
  have d: "n div 64 = x * 64 + y" "n mod 64 = z" unfolding n_def by (rule split64, rule b)+
  have "n div 4096 = n div 64 div 64" by (simp flip: div_mult2_eq)
  then have d': "n div 4096 = x" "n div 64 mod 64 = y"
    unfolding d by (simp_all only: split64[OF b(2)])
  have "EncodeRune n = [char_of (224 + x), char_of (128 + y), char_of (128 + z)]"
    unfolding EncodeRune_def d' d(2) using n by auto
  moreover have "char_of (224 + x) = b" "char_of (128 + y) = b1" "char_of (128 + z) = b2"
    using x y z by (simp_all flip: x y z)
  ultimately have "EncodeRune n = [b, b1, b2]" by simp
  then show ?thesis unfolding n_def x y z diff_add_inverse .
qed

lemma EncodeRune_four:
  assumes "240 \<le> byte_val b" "byte_val b < 245" "second4 (byte_val b) b1" "cont b2" "cont b3"
  shows "EncodeRune ((((byte_val b - 240) * 64 + (byte_val b1 - 128)) * 64 + (byte_val b2 - 128)) * 64
          + (byte_val b3 - 128)) = [b, b1, b2, b3]"
proof -
  obtain x y z w where x: "byte_val b = 240 + x" and y: "byte_val b1 = 128 + y"
    and z: "byte_val b2 = 128 + z" and w: "byte_val b3 = 128 + w"
    using assms by (auto simp: cont_def second4_def le_iff_add)
  have b: "x < 5" "y < 64" "z < 64" "w < 64" "x = 0 \<longrightarrow> 16 \<le> y" "x = 4 \<longrightarrow> y < 16"
    using assms x y z w by (auto simp: cont_def second4_def)
  define n where "n = ((x * 64 + y) * 64 + z) * 64 + w"
  have n: "65536 \<le> n" "n \<le> 1114111"
    using b unfolding n_def by (cases "x = 0"; cases "x = 4"; force)+
  have d: "n div 64 = (x * 64 + y) * 64 + z" "n mod 64 = w"
    unfolding n_def by (rule split64, rule b)+
  have "n div 4096 = n div 64 div 64" "n div 262144 = n div 64 div 64 div 64"
    by (simp_all flip: div_mult2_eq)
  then have d': "n div 64 mod 64 = z" "n div 4096 mod 64 = y" "n div 262144 = x"
    unfolding d by (simp_all only: split64[OF b(2)] split64[OF b(3)])
  have "EncodeRune n = [char_of (240 + x), char_of (128 + y), char_of (128 + z), char_of (128 + w)]"
    unfolding EncodeRune_def d' d(2) using n by auto
  moreover have "char_of (240 + x) = b" "char_of (128 + y) = b1" "char_of (128 + z) = b2"
    "char_of (128 + w) = b3"
    unfolding x[symmetric] y[symmetric] z[symmetric] w[symmetric] by simp_all
  ultimately have "EncodeRune n = [b, b1, b2, b3]" by simp
  then show ?thesis unfolding n_def x y z w diff_add_inverse .
qed

text \<open>Decoding reads only the bytes it consumes, and encoding gives them back.\<close>

lemma DecodeRune_one: "byte_val b < 128 \<Longrightarrow> DecodeRune (b # r) = (byte_val b, 1)"
  by (simp add: DecodeRune.simps)

lemma EncodeRune_one: "byte_val b < 128 \<Longrightarrow> EncodeRune (byte_val b) = [b]"
  by (simp add: EncodeRune_def)

lemma DecodeRune_consumes:
  assumes "\<not> bad_rune (DecodeRune (b # r))"
  defines "k \<equiv> snd (DecodeRune (b # r))"
  shows "k \<le> length (b # r) \<and> DecodeRune (take k (b # r) @ t) = DecodeRune (b # r) \<and>
    EncodeRune (fst (DecodeRune (b # r))) = take k (b # r)"
  using assms(1)
proof (cases rule: DecodeRune_cases)
  case ascii
  then show ?thesis unfolding k_def ascii(2) by (simp add: DecodeRune_one EncodeRune_one)
next
  case (two b1 r')
  note d = DecodeRune_two[OF two(2-4)]
  show ?thesis unfolding k_def two(1) d fst_conv snd_conv EncodeRune_two[OF two(2-4)]
    by (simp add: d)
next
  case (three b1 b2 r')
  note d = DecodeRune_three[OF three(2-5)]
  show ?thesis unfolding k_def three(1) d fst_conv snd_conv EncodeRune_three[OF three(2-5)]
    by (simp add: d numeral_3_eq_3)
next
  case (four b1 b2 b3 r')
  note d = DecodeRune_four[OF four(2-6)]
  have "take 4 (b # b1 # b2 # b3 # r') = [b, b1, b2, b3]" by simp
  then show ?thesis unfolding k_def four(1) d fst_conv snd_conv EncodeRune_four[OF four(2-6)]
    by (simp add: d)
qed

lemma DecodeRune_high: "128 \<le> byte_val b \<Longrightarrow> \<not> bad_rune (DecodeRune (b # r)) \<Longrightarrow> 2 \<le> snd (DecodeRune (b # r))"
  by (erule DecodeRune_cases) (auto simp: DecodeRune_two DecodeRune_three DecodeRune_four)

lemma valid_utf8_ascii: "byte_val b < 128 \<Longrightarrow> valid_utf8 (b # r) = valid_utf8 r"
  by (simp add: DecodeRune.simps bad_rune_def)

lemma valid_ascii: "\<forall>c\<in>set s. byte_val c < 128 \<Longrightarrow> valid_utf8 s"
  by (induction s) (simp_all add: valid_utf8_ascii del: valid_utf8.simps(2))

lemma to_valid_id: "valid_utf8 s \<Longrightarrow> to_valid s = s"
  by (induction s rule: to_valid.induct) auto

lemma to_valid_ascii: "\<forall>c\<in>set s. byte_val c < 128 \<Longrightarrow> to_valid s = s"
  by (simp add: to_valid_id valid_ascii)

lemma take_ne_Nil: "take (snd (DecodeRune (b # r))) (b # r) \<noteq> []"
  using DecodeRune_size[of b r] by simp

lemma valid_take_append:
  assumes "\<not> bad_rune (DecodeRune (b # r))"
  shows "valid_utf8 (take (snd (DecodeRune (b # r))) (b # r) @ t) = valid_utf8 t"
proof -
  define k where "k = snd (DecodeRune (b # r))"
  note c = DecodeRune_consumes[OF assms, of t, folded k_def]
  obtain c' r' where cr: "take k (b # r) @ t = c' # r'"
    using take_ne_Nil[of b r] unfolding k_def by (cases "take (snd (DecodeRune (b # r))) (b # r) @ t") auto
  have "DecodeRune (c' # r') = DecodeRune (b # r)" using c cr by simp
  moreover have "drop k (c' # r') = t" using c unfolding cr[symmetric] by simp
  ultimately show ?thesis using assms unfolding k_def[symmetric] cr by (simp add: k_def)
qed

lemma replacement_ok: "\<not> bad_rune (DecodeRune (CHR 0xEF # CHR 0xBF # CHR 0xBD # r))"
  "DecodeRune (CHR 0xEF # CHR 0xBF # CHR 0xBD # r) = (RuneError, 3)"
  by (simp_all add: DecodeRune_three bad_rune_def second3_def cont_def)

lemma valid_replacement: "valid_utf8 ([CHR 0xEF, CHR 0xBF, CHR 0xBD] @ r) = valid_utf8 r"
  by (simp add: replacement_ok bad_rune_def)

lemma valid_to_valid: "valid_utf8 (to_valid s)"
  by (induction s rule: to_valid.induct) (simp_all add: valid_replacement valid_take_append
      del: valid_utf8.simps(2) append.simps)

section \<open>Encoded runes are well-formed\<close>

lemma valid_piece:
  assumes "p = b # q" and "DecodeRune (p @ t) = (r, length p)" and "r \<noteq> RuneError \<or> 1 < length p"
  shows "valid_utf8 (p @ t) = valid_utf8 t"
proof -
  have "\<not> bad_rune (DecodeRune (b # q @ t))" "drop (snd (DecodeRune (b # q @ t))) (b # q @ t) = t"
    using assms by (auto simp: bad_rune_def)
  then show ?thesis using assms(1) by simp
qed

lemma byte_val_char_of: "n < 256 \<Longrightarrow> byte_val (char_of n) = (n :: nat)"
  by simp

lemma cont_char: "(n :: nat) < 64 \<Longrightarrow> cont (char_of (128 + n))"
  by (simp add: cont_def)

lemma valid_two:
  fixes n :: nat
  assumes "128 \<le> n" "n < 2048"
  shows "valid_utf8 ([char_of (192 + n div 64), char_of (128 + n mod 64)] @ t) = valid_utf8 t"
proof -
  have "2 \<le> n div 64" "n div 64 < 32" using assms by linarith+
  then have b: "194 \<le> byte_val (char_of (192 + n div 64))" "byte_val (char_of (192 + n div 64)) < 224" by simp_all
  show ?thesis using DecodeRune_two[OF b cont_char[of "n mod 64"], of t]
    by (intro valid_piece) simp_all
qed

lemma valid_three:
  fixes n :: nat
  assumes "2048 \<le> n" "n < 65536" "\<not> (55296 \<le> n \<and> n \<le> 57343)"
  shows "valid_utf8 ([char_of (224 + n div 4096), char_of (128 + n div 64 mod 64), char_of (128 + n mod 64)] @ t)
    = valid_utf8 t"
proof -
  have d: "n div 4096 = n div 64 div 64" by (simp flip: div_mult2_eq)
  have m: "n div 64 = n div 64 div 64 * 64 + n div 64 mod 64" by simp
  have q: "32 \<le> n div 64" "n div 64 < 1024" "n div 64 < 864 \<or> 896 \<le> n div 64" using assms by linarith+
  have x: "n div 4096 < 16" using assms by linarith
  then have b: "224 \<le> byte_val (char_of (224 + n div 4096))" "byte_val (char_of (224 + n div 4096)) < 240"
    by simp_all
  have y: "n div 64 mod 64 < 64" by simp
  have "second3 (224 + n div 4096) (char_of (128 + n div 64 mod 64))"
  proof -
    have "n div 4096 = 0 \<Longrightarrow> 32 \<le> n div 64 mod 64" using q(1) m unfolding d by linarith
    moreover have "n div 4096 = 13 \<Longrightarrow> n div 64 mod 64 < 32" using q(3) m y unfolding d by linarith
    ultimately show ?thesis using y by (auto simp: second3_def cont_def)
  qed
  then have "second3 (byte_val (char_of (224 + n div 4096))) (char_of (128 + n div 64 mod 64))" using x by simp
  from DecodeRune_three[OF b this cont_char[of "n mod 64"], of t] show ?thesis
    by (intro valid_piece) simp_all
qed

lemma valid_four:
  fixes n :: nat
  assumes "65536 \<le> n" "n \<le> 1114111"
  shows "valid_utf8 ([char_of (240 + n div 262144), char_of (128 + n div 4096 mod 64),
      char_of (128 + n div 64 mod 64), char_of (128 + n mod 64)] @ t) = valid_utf8 t"
proof -
  have d: "n div 262144 = n div 4096 div 64" by (simp flip: div_mult2_eq)
  have m: "n div 4096 = n div 4096 div 64 * 64 + n div 4096 mod 64" by simp
  have q: "16 \<le> n div 4096" "n div 4096 < 272" using assms by linarith+
  have x: "n div 262144 < 5" using assms by linarith
  then have b: "240 \<le> byte_val (char_of (240 + n div 262144))" "byte_val (char_of (240 + n div 262144)) < 245"
    by simp_all
  have y: "n div 4096 mod 64 < 64" by simp
  have "second4 (240 + n div 262144) (char_of (128 + n div 4096 mod 64))"
  proof -
    have "n div 262144 = 0 \<Longrightarrow> 16 \<le> n div 4096 mod 64" using q(1) m unfolding d by linarith
    moreover have "n div 262144 = 4 \<Longrightarrow> n div 4096 mod 64 < 16" using q(2) m y unfolding d by linarith
    ultimately show ?thesis using y by (auto simp: second4_def cont_def)
  qed
  then have "second4 (byte_val (char_of (240 + n div 262144))) (char_of (128 + n div 4096 mod 64))" using x by simp
  from DecodeRune_four[OF b this cont_char[of "n div 64 mod 64"] cont_char[of "n mod 64"], of t] show ?thesis
    by (intro valid_piece) simp_all
qed

lemma valid_EncodeRune: "valid_utf8 (EncodeRune n @ t) = valid_utf8 t"
proof -
  consider "n < 128" | "128 \<le> n" "n < 2048" | "2048 \<le> n" "(55296 \<le> n \<and> n \<le> 57343) \<or> 1114111 < n"
    | "2048 \<le> n" "n < 65536" "\<not> (55296 \<le> n \<and> n \<le> 57343)" | "65536 \<le> n" "n \<le> 1114111" by linarith
  then show ?thesis
  proof cases
    case 1
    then show ?thesis by (simp add: EncodeRune_def valid_utf8_ascii del: valid_utf8.simps(2))
  next
    case 2
    then show ?thesis using valid_two[of n t] by (simp add: EncodeRune_def del: valid_utf8.simps(2))
  next
    case 3
    then have "EncodeRune n = [CHR 0xEF, CHR 0xBF, CHR 0xBD]" by (auto simp: EncodeRune_def)
    then show ?thesis by (simp only: valid_replacement)
  next
    case 4
    then have "EncodeRune n = [char_of (224 + n div 4096), char_of (128 + n div 64 mod 64), char_of (128 + n mod 64)]"
      by (auto simp: EncodeRune_def)
    with valid_three[OF 4] show ?thesis by (simp only:)
  next
    case 5
    then have "EncodeRune n = [char_of (240 + n div 262144), char_of (128 + n div 4096 mod 64),
        char_of (128 + n div 64 mod 64), char_of (128 + n mod 64)]" by (auto simp: EncodeRune_def)
    with valid_four[OF 5] show ?thesis by (simp only:)
  qed
qed

end
