(* ===== verification/Json_Text.thy ===== *)
theory Json_Text
  imports Utf8 Errors
begin

text \<open>
  The text level of Go's \<^verbatim>\<open>encoding/json\<close>, as the sources use it: quoting of strings
  (\<^verbatim>\<open>json.Marshal\<close> with HTML escaping), scanning and unquoting of string literals, the
  number grammar of the scanner, decimal integers (\<^verbatim>\<open>strconv.FormatInt\<close>,
  \<^verbatim>\<open>strconv.ParseInt\<close>), and the documents \<^verbatim>\<open>json.Marshal\<close> writes: \<open>jdoc\<close> is the
  tree of what is written, in the order it is written, and \<open>encode\<close> its compact text.
\<close>

section \<open>String literals\<close>

definition hex_digit :: "nat \<Rightarrow> char" where
  "hex_digit n = (if n < 10 then char_of (48 + n) else char_of (87 + n))"

definition hex_value :: "char \<Rightarrow> nat option" where
  "hex_value c =
     (let n = byte_val c in
      if 48 \<le> n \<and> n \<le> 57 then Some (n - 48)
      else if 97 \<le> n \<and> n \<le> 102 then Some (n - 87)
      else if 65 \<le> n \<and> n \<le> 70 then Some (n - 55)
      else None)"

abbreviation DQUOTE :: char where "DQUOTE \<equiv> CHR 0x22"
abbreviation BSLASH :: char where "BSLASH \<equiv> CHR 0x5C"

text \<open>\<^verbatim>\<open>appendString\<close> with \<^verbatim>\<open>escapeHTML\<close>: one ASCII byte.\<close>

definition quote_ascii :: "char \<Rightarrow> bytes" where
  "quote_ascii b =
     (if b = BSLASH \<or> b = DQUOTE then [BSLASH, b]
      else if b = CHR 0x08 then [BSLASH, CHR ''b'']
      else if b = CHR 0x0C then [BSLASH, CHR ''f'']
      else if b = CHR 0x0A then [BSLASH, CHR ''n'']
      else if b = CHR 0x0D then [BSLASH, CHR ''r'']
      else if b = CHR 0x09 then [BSLASH, CHR ''t'']
      else if byte_val b < 32 \<or> b = CHR ''<'' \<or> b = CHR ''>'' \<or> b = CHR ''&''
        then [BSLASH, CHR ''u'', CHR ''0'', CHR ''0'', hex_digit (byte_val b div 16), hex_digit (byte_val b mod 16)]
      else [b])"

text \<open>One rune starting with a byte of 128 or more.\<close>

definition quote_rune :: "bytes \<Rightarrow> bytes" where
  "quote_rune s =
     (let (r, k) = DecodeRune s in
      if bad_rune (r, k) then [BSLASH, CHR ''u'', CHR ''f'', CHR ''f'', CHR ''f'', CHR ''d'']
      else if r = 8232 \<or> r = 8233
        then [BSLASH, CHR ''u'', CHR ''2'', CHR ''0'', CHR ''2'', hex_digit (r mod 16)]
      else take k s)"

function quote_body :: "bytes \<Rightarrow> bytes" where
  "quote_body [] = []"
| "quote_body (b # s) =
     (if byte_val b < 128 then quote_ascii b @ quote_body s
      else quote_rune (b # s) @ quote_body (drop (snd (DecodeRune (b # s))) (b # s)))"
  by pat_completeness auto
termination
  by (relation "measure length") (use DecodeRune_size in \<open>auto simp: Suc_le_eq\<close>)

definition quote :: "bytes \<Rightarrow> bytes" where
  "quote s = DQUOTE # quote_body s @ [DQUOTE]"

text \<open>Reading: \<^verbatim>\<open>getu4\<close> (four hexadecimal digits after \<^verbatim>\<open>\u\<close>) and the escapes.\<close>

fun hex4 :: "bytes \<Rightarrow> (nat \<times> bytes) option" where
  "hex4 (a # b # c # d # r) =
     (case (hex_value a, hex_value b, hex_value c, hex_value d) of
        (Some w, Some x, Some y, Some z) \<Rightarrow> Some (((w * 16 + x) * 16 + y) * 16 + z, r)
      | _ \<Rightarrow> None)"
| "hex4 _ = None"

fun getu4 :: "bytes \<Rightarrow> (nat \<times> bytes) option" where
  "getu4 (a # b # r) = (if a = BSLASH \<and> b = CHR ''u'' then hex4 r else None)"
| "getu4 _ = None"

definition is_surrogate :: "nat \<Rightarrow> bool" where
  "is_surrogate n \<longleftrightarrow> 55296 \<le> n \<and> n < 57344"

text \<open>\<^verbatim>\<open>utf16.DecodeRune\<close>\<close>

definition decode_utf16 :: "nat \<Rightarrow> nat \<Rightarrow> nat" where
  "decode_utf16 r1 r2 =
     (if 55296 \<le> r1 \<and> r1 < 56320 \<and> 56320 \<le> r2 \<and> r2 < 57344
      then (r1 - 55296) * 1024 + (r2 - 56320) + 65536 else RuneError)"

definition unescape_u :: "bytes \<Rightarrow> (bytes \<times> bytes) option" where
  "unescape_u s =
     (case hex4 s of
        None \<Rightarrow> None
      | Some (r1, rest) \<Rightarrow>
          if is_surrogate r1 then
            (case getu4 rest of
               Some (r2, rest') \<Rightarrow>
                 if decode_utf16 r1 r2 \<noteq> RuneError then Some (EncodeRune (decode_utf16 r1 r2), rest')
                 else Some (EncodeRune RuneError, rest)
             | None \<Rightarrow> Some (EncodeRune RuneError, rest))
          else Some (EncodeRune r1, rest))"

fun unescape :: "bytes \<Rightarrow> (bytes \<times> bytes) option" where
  "unescape [] = None"
| "unescape (c # r) =
     (if c = DQUOTE \<or> c = BSLASH \<or> c = CHR ''/'' then Some ([c], r)
      else if c = CHR ''b'' then Some ([CHR 0x08], r)
      else if c = CHR ''f'' then Some ([CHR 0x0C], r)
      else if c = CHR ''n'' then Some ([CHR 0x0A], r)
      else if c = CHR ''r'' then Some ([CHR 0x0D], r)
      else if c = CHR ''t'' then Some ([CHR 0x09], r)
      else if c = CHR ''u'' then unescape_u r
      else None)"

text \<open>One character of a literal: what it denotes and the rest of the input.\<close>

fun lex_char :: "bytes \<Rightarrow> (bytes \<times> bytes) option" where
  "lex_char [] = None"
| "lex_char (c # r) =
     (if c = BSLASH then unescape r
      else if byte_val c < 32 then None
      else if byte_val c < 128 then Some ([c], r)
      else Some (EncodeRune (fst (DecodeRune (c # r))), drop (snd (DecodeRune (c # r))) (c # r)))"

lemma hex4_length: "hex4 s = Some (n, r) \<Longrightarrow> length s = length r + 4"
  by (induction s rule: hex4.induct) (auto split: option.splits)

lemma getu4_length: "getu4 s = Some (n, r) \<Longrightarrow> length r < length s"
  by (cases s rule: getu4.cases) (auto dest!: hex4_length split: if_splits)

lemma unescape_u_length: "unescape_u s = Some (o', r) \<Longrightarrow> length r < length s"
  by (auto simp: unescape_u_def dest!: hex4_length getu4_length split: option.splits if_splits)

lemma unescape_length: "unescape s = Some (o', r) \<Longrightarrow> length r < length s"
  by (cases s) (auto dest: unescape_u_length split: if_splits)

lemma lex_char_length: "lex_char s = Some (o', r) \<Longrightarrow> length r < length s"
  using DecodeRune_size
  by (cases s) (auto dest: unescape_length split: if_splits simp: Suc_le_eq)

text \<open>The literal after its opening quote: its value and what follows the closing quote.\<close>

function lex_string :: "bytes \<Rightarrow> (bytes \<times> bytes) option" where
  "lex_string s =
     (case s of
        [] \<Rightarrow> None
      | c # r \<Rightarrow>
          if c = DQUOTE then Some ([], r)
          else (case lex_char s of
                  None \<Rightarrow> None
                | Some (out, rest) \<Rightarrow> map_option (\<lambda>(t, r). (out @ t, r)) (lex_string rest)))"
  by pat_completeness auto
termination
  by (relation "measure length") (auto dest: lex_char_length simp del: lex_char.simps)

declare lex_string.simps [simp del]

section \<open>Numbers\<close>

definition is_digit :: "char \<Rightarrow> bool" where
  "is_digit c \<longleftrightarrow> 48 \<le> byte_val c \<and> byte_val c \<le> 57"

text \<open>The digits at the front of the input.\<close>

fun digits :: "bytes \<Rightarrow> bytes \<times> bytes" where
  "digits [] = ([], [])"
| "digits (c # s) = (if is_digit c then (let (d, r) = digits s in (c # d, r)) else ([], c # s))"

definition lex_int_part :: "bytes \<Rightarrow> (bytes \<times> bytes) option" where
  "lex_int_part s =
     (case s of
        [] \<Rightarrow> None
      | c # r \<Rightarrow> if c = CHR ''0'' then Some ([c], r)
                 else if is_digit c then Some (digits s) else None)"

definition lex_frac :: "bytes \<Rightarrow> (bytes \<times> bytes) option" where
  "lex_frac s =
     (case s of
        [] \<Rightarrow> Some ([], [])
      | c # r \<Rightarrow> if c \<noteq> CHR ''.'' then Some ([], s)
                 else (let (d, r') = digits r in if d = [] then None else Some (c # d, r')))"

definition lex_exp_sign :: "bytes \<Rightarrow> bytes \<times> bytes" where
  "lex_exp_sign r =
     (case r of
        [] \<Rightarrow> ([], [])
      | x # r' \<Rightarrow> if x = CHR ''+'' \<or> x = CHR ''-'' then ([x], r') else ([], r))"

definition lex_exp :: "bytes \<Rightarrow> (bytes \<times> bytes) option" where
  "lex_exp s =
     (case s of
        [] \<Rightarrow> Some ([], [])
      | c # r \<Rightarrow>
          if c \<noteq> CHR ''e'' \<and> c \<noteq> CHR ''E'' then Some ([], s)
          else (let (sign, r1) = lex_exp_sign r; (d, r2) = digits r1 in if d = [] then None else Some (c # sign @ d, r2)))"

definition lex_sign :: "bytes \<Rightarrow> bytes \<times> bytes" where
  "lex_sign s = (case s of [] \<Rightarrow> ([], []) | c # r \<Rightarrow> if c = CHR ''-'' then ([c], r) else ([], s))"

definition lex_number :: "bytes \<Rightarrow> (bytes \<times> bytes) option" where
  "lex_number s =
     (let (sign, s1) = lex_sign s in
      case lex_int_part s1 of
        None \<Rightarrow> None
      | Some (i, s2) \<Rightarrow>
          (case lex_frac s2 of
             None \<Rightarrow> None
           | Some (f, s3) \<Rightarrow>
               (case lex_exp s3 of
                  None \<Rightarrow> None
                | Some (e, s4) \<Rightarrow> Some (sign @ i @ f @ e, s4))))"

text \<open>\<^verbatim>\<open>strconv.FormatInt(i, 10)\<close> and \<^verbatim>\<open>strconv.ParseInt(s, 10, 64)\<close>.\<close>

fun show_nat :: "nat \<Rightarrow> string" where
  "show_nat n = (if n < 10 then [char_of (48 + n)] else show_nat (n div 10) @ [char_of (48 + n mod 10)])"

declare show_nat.simps [simp del]

definition show_int :: "int \<Rightarrow> string" where
  "show_int i = (if i < 0 then CHR ''-'' # show_nat (nat (- i)) else show_nat (nat i))"

definition digits_value :: "bytes \<Rightarrow> int" where
  "digits_value s = foldl (\<lambda>n c. n * 10 + (int (byte_val c) - 48)) 0 s"

definition int64_ok :: "int \<Rightarrow> bool" where
  "int64_ok i \<longleftrightarrow> - 9223372036854775808 \<le> i \<and> i \<le> 9223372036854775807"

definition ParseInt :: "bytes \<Rightarrow> int result" where
  "ParseInt s =
     (let (neg, body) = (case s of [] \<Rightarrow> (False, []) | c # r \<Rightarrow>
            if c = CHR ''-'' then (True, r) else if c = CHR ''+'' then (False, r) else (False, s));
          v = (if neg then - digits_value body else digits_value body)
      in if body = [] \<or> \<not> list_all is_digit body then Inl (StdError ''invalid syntax'')
         else if int64_ok v then Inr v
         else Inl (StdError ''value out of range''))"

section \<open>Documents\<close>

datatype jdoc =
    DNull
  | DBool bool
  | DStr string
  | DNum string
  | DArr "jdoc list"
  | DObj "(string \<times> jdoc) list"

fun commas :: "bytes list \<Rightarrow> bytes" where
  "commas [] = []"
| "commas [x] = x"
| "commas (x # y # r) = x @ '','' @ commas (y # r)"

fun encode :: "jdoc \<Rightarrow> bytes" where
  "encode DNull = ''null''"
| "encode (DBool b) = (if b then ''true'' else ''false'')"
| "encode (DStr s) = quote s"
| "encode (DNum s) = s"
| "encode (DArr ds) = ''['' @ commas (map encode ds) @ '']''"
| "encode (DObj ms) = ''{'' @ commas (map (\<lambda>(k, d). quote k @ '':'' @ encode d) ms) @ ''}''"

definition DInt :: "int \<Rightarrow> jdoc" where
  "DInt i = DNum (show_int i)"

definition DStrs :: "string list \<Rightarrow> jdoc" where
  "DStrs ss = DArr (map DStr ss)"

text \<open>Every number of the document is a JSON number.\<close>

fun doc_ok :: "jdoc \<Rightarrow> bool" where
  "doc_ok (DNum s) = (lex_number s = Some (s, []))"
| "doc_ok (DArr ds) = (\<forall>d\<in>set ds. doc_ok d)"
| "doc_ok (DObj ms) = (\<forall>p\<in>set ms. doc_ok (snd p))"
| "doc_ok _ = True"

section \<open>Reading a quoted string\<close>

lemma lex_string_quote [simp]: "lex_string (DQUOTE # r) = Some ([], r)"
  by (simp add: lex_string.simps)

lemma lex_string_step:
  "lex_char (c # r) = Some (out, rest) \<Longrightarrow> c \<noteq> DQUOTE \<Longrightarrow>
     lex_string (c # r) = map_option (\<lambda>(t, r). (out @ t, r)) (lex_string rest)"
  by (subst lex_string.simps) (simp del: lex_char.simps)

lemma hex_value_digit: "n < 16 \<Longrightarrow> hex_value (hex_digit n) = Some n"
  by (auto simp: hex_value_def hex_digit_def Let_def)

lemma EncodeRune_error: "EncodeRune RuneError = [CHR 0xEF, CHR 0xBF, CHR 0xBD]"
  using DecodeRune_consumes[OF replacement_ok(1)[of "[]"]]
  by (simp add: replacement_ok(2) numeral_3_eq_3)

lemma lex_quote_ascii:
  assumes "byte_val b < 128"
  obtains c q where "quote_ascii b = c # q" "c \<noteq> DQUOTE" "\<And>t. lex_char (c # q @ t) = Some ([b], t)"
proof (cases "quote_ascii b = [b]")
  case True
  then have "b \<noteq> BSLASH" "b \<noteq> DQUOTE" "\<not> byte_val b < 32"
    by (auto simp: quote_ascii_def split: if_splits)
  with True assms that[of b "[]"] show ?thesis by simp
next
  case False
  have hex: "hex_value (CHR ''0'') = Some 0" "hex_value (hex_digit (byte_val b div 16)) = Some (byte_val b div 16)"
    "hex_value (hex_digit (byte_val b mod 16)) = Some (byte_val b mod 16)"
    using assms by (simp_all add: hex_value_digit) (simp add: hex_value_def)
  have val: "byte_val b div 16 * 16 + byte_val b mod 16 = byte_val b" by simp
  have sur: "\<not> is_surrogate (byte_val b)" using assms by (simp add: is_surrogate_def)
  show ?thesis
  proof (rule that[of BSLASH "tl (quote_ascii b)"])
    show "quote_ascii b = BSLASH # tl (quote_ascii b)"
      using False by (auto simp: quote_ascii_def split: if_splits)
    show "lex_char (BSLASH # tl (quote_ascii b) @ t) = Some ([b], t)" for t
      using False hex val sur assms
      by (auto simp: quote_ascii_def unescape_u_def EncodeRune_one)
  qed simp
qed

text \<open>Quoting and reading back replaces each ill-formed byte by U+FFFD and changes nothing else.\<close>

lemma lex_quote_rune:
  fixes s
  assumes "128 \<le> byte_val b"
  defines "v \<equiv> (if bad_rune (DecodeRune (b # s)) then [CHR 0xEF, CHR 0xBF, CHR 0xBD]
                 else take (snd (DecodeRune (b # s))) (b # s))"
  obtains c q where "quote_rune (b # s) = c # q" "c \<noteq> DQUOTE" "\<And>t. lex_char (c # q @ t) = Some (v, t)"
proof -
  obtain r k where rk: "DecodeRune (b # s) = (r, k)" by force
  show thesis
  proof (cases "bad_rune (r, k)")
    case True
    have "lex_char (BSLASH # ''ufffd'' @ t) = Some ([CHR 0xEF, CHR 0xBF, CHR 0xBD], t)" for t
      by (simp add: unescape_u_def hex_value_def is_surrogate_def EncodeRune_error)
    with True rk that[of BSLASH "''ufffd''"] show thesis by (simp add: quote_rune_def v_def)
  next
    case good: False
    note c = DecodeRune_consumes[of b s, unfolded rk fst_conv snd_conv, OF good]
    have v: "v = take k (b # s)" "EncodeRune r = v" using good c by (simp_all add: v_def rk)
    show thesis
    proof (cases "r = 8232 \<or> r = 8233")
      case True
      then have q: "quote_rune (b # s) = BSLASH # [CHR ''u'', CHR ''2'', CHR ''0'', CHR ''2'', hex_digit (r mod 16)]"
        using good by (auto simp: quote_rune_def rk)
      have h: "hex_value (hex_digit (r mod 16)) = Some (r mod 16)" by (simp add: hex_value_digit)
      have "lex_char (BSLASH # [CHR ''u'', CHR ''2'', CHR ''0'', CHR ''2'', hex_digit (r mod 16)] @ t)
          = Some (EncodeRune r, t)" for t
        using h True by (auto simp: unescape_u_def hex_value_def[of "CHR ''0''"] hex_value_def[of "CHR ''2''"]
            is_surrogate_def)
      with q v that show thesis by simp
    next
      case False
      then have q: "quote_rune (b # s) = take k (b # s)" using good by (simp add: quote_rune_def rk)
      have "1 \<le> k" using DecodeRune_size[of b s] rk by simp
      then obtain k' where k: "k = Suc k'" by (cases k) auto
      have l: "lex_char (b # take k' s @ t) = Some (v, t)" for t
      proof -
        have b: "b \<noteq> BSLASH" "\<not> byte_val b < 128" "\<not> byte_val b < 32" using assms(1) by auto
        have "DecodeRune (b # take k' s @ t) = (r, k)"
          using DecodeRune_consumes[of b s t, unfolded rk fst_conv snd_conv, OF good] k by simp
        moreover have "drop k (b # take k' s @ t) = t" using c k by simp
        ultimately show ?thesis using b v by simp
      qed
      have "b \<noteq> DQUOTE" using assms(1) by auto
      with q k l that[of b "take k' s"] show thesis by simp
    qed
  qed
qed

lemma lex_string_piece:
  assumes "q = c # q'" and "c \<noteq> DQUOTE" and "lex_char (c # q' @ t) = Some (v, t)"
    and "lex_string t = Some (w, rest)"
  shows "lex_string (q @ t) = Some (v @ w, rest)"
  using lex_string_step[of c "q' @ t" v t] assms by (simp del: lex_char.simps)

theorem lex_quote_body: "lex_string (quote_body s @ DQUOTE # rest) = Some (to_valid s, rest)"
proof (induction s rule: quote_body.induct)
  case (2 b s)
  show ?case
  proof (cases "byte_val b < 128")
    case True
    obtain c q where q: "quote_ascii b = c # q" "c \<noteq> DQUOTE"
      "\<And>t. lex_char (c # q @ t) = Some ([b], t)" using lex_quote_ascii[OF True] by blast
    have tv: "to_valid (b # s) = [b] @ to_valid s"
      using DecodeRune_one[OF True, of s] True by (simp add: bad_rune_def)
    show ?thesis
      using lex_string_piece[OF q(1,2,3) 2(1)[OF True]] True tv by (simp del: to_valid.simps)
  next
    case False
    then have hi: "128 \<le> byte_val b" by simp
    let ?v = "if bad_rune (DecodeRune (b # s)) then [CHR 0xEF, CHR 0xBF, CHR 0xBD]
                 else take (snd (DecodeRune (b # s))) (b # s)"
    obtain c q where q: "quote_rune (b # s) = c # q" "c \<noteq> DQUOTE"
      "\<And>t. lex_char (c # q @ t) = Some (?v, t)"
      using lex_quote_rune[OF hi, of s] by blast
    have tv: "to_valid (b # s) = ?v @ to_valid (drop (snd (DecodeRune (b # s))) (b # s))"
      by (auto simp: bad_rune_def)
    show ?thesis
      using lex_string_piece[OF q(1,2,3) 2(2)[OF False]] False tv by (simp del: to_valid.simps)
  qed
qed simp

section \<open>Reading a number\<close>

text \<open>What may follow a number: no digit, point or exponent.\<close>

definition num_end :: "bytes \<Rightarrow> bool" where
  "num_end r \<longleftrightarrow> (case r of [] \<Rightarrow> True | c # _ \<Rightarrow>
     \<not> is_digit c \<and> c \<noteq> CHR ''.'' \<and> c \<noteq> CHR ''e'' \<and> c \<noteq> CHR ''E'')"

lemma num_end_simps [simp]:
  "num_end []"
  "num_end (CHR '','' # r)" "num_end (CHR '']'' # r)" "num_end (CHR ''}'' # r)"
  by (simp_all add: num_end_def is_digit_def)

lemma digits_append: "digits s = (d, r) \<Longrightarrow> num_end rest \<Longrightarrow> digits (s @ rest) = (d, r @ rest)"
proof (induction s arbitrary: d r)
  case Nil
  then show ?case by (cases rest) (auto simp: num_end_def)
qed (auto split: if_splits prod.splits)

lemma lex_int_part_append:
  "lex_int_part s = Some (d, r) \<Longrightarrow> num_end rest \<Longrightarrow> lex_int_part (s @ rest) = Some (d, r @ rest)"
  using digits_append[of s]
  by (cases s) (auto simp: lex_int_part_def simp del: digits.simps split: if_splits)

lemma lex_frac_append:
  "lex_frac s = Some (d, r) \<Longrightarrow> num_end rest \<Longrightarrow> lex_frac (s @ rest) = Some (d, r @ rest)"
proof (cases s)
  case Nil
  assume "lex_frac s = Some (d, r)" "num_end rest"
  with Nil show ?thesis by (cases rest) (auto simp: lex_frac_def num_end_def)
qed (auto simp: lex_frac_def digits_append split: if_splits prod.splits)

lemma lex_exp_append:
  assumes "lex_exp s = Some (d, r)" and "num_end rest"
  shows "lex_exp (s @ rest) = Some (d, r @ rest)"
proof (cases s)
  case Nil
  with assms show ?thesis by (cases rest) (auto simp: lex_exp_def num_end_def)
next
  case (Cons c s')
  show ?thesis
  proof (cases "c = CHR ''e'' \<or> c = CHR ''E''")
    case False
    with assms Cons show ?thesis by (auto simp: lex_exp_def)
  next
    case True
    obtain g r1 d' r2 where p: "lex_exp_sign s' = (g, r1)" "digits r1 = (d', r2)" by fastforce
    with assms Cons True have q: "d' \<noteq> []" "d = c # g @ d'" "r = r2"
      by (auto simp: lex_exp_def split: if_splits)
    have "s' \<noteq> []" using p q by (auto simp: lex_exp_sign_def)
    then have "lex_exp_sign (s' @ rest) = (g, r1 @ rest)"
      using p(1) by (cases s') (auto simp: lex_exp_sign_def split: if_splits)
    with digits_append[OF p(2) assms(2)] q True show ?thesis by (auto simp: lex_exp_def Cons)
  qed
qed

lemma lex_number_append:
  assumes "lex_number s = Some (d, r)" and "num_end rest"
  shows "lex_number (s @ rest) = Some (d, r @ rest)"
proof -
  obtain g s1 where g: "lex_sign s = (g, s1)" by force
  from assms(1) g obtain i s2 f s3 e where p: "lex_int_part s1 = Some (i, s2)"
    "lex_frac s2 = Some (f, s3)" "lex_exp s3 = Some (e, r)" "d = g @ i @ f @ e"
    by (auto simp: lex_number_def split: option.splits prod.splits)
  have "s \<noteq> []" using g p(1) by (auto simp: lex_sign_def lex_int_part_def)
  then have "lex_sign (s @ rest) = (g, s1 @ rest)"
    using g by (cases s) (auto simp: lex_sign_def split: if_splits)
  with p assms(2) show ?thesis
    by (simp add: lex_number_def lex_int_part_append lex_frac_append lex_exp_append)
qed

lemma lex_number_first:
  assumes "lex_number s = Some (d, r)"
  obtains c t where "s = c # t" "c = CHR ''-'' \<or> is_digit c"
proof (cases s)
  case (Cons c t)
  with assms have "c = CHR ''-'' \<or> is_digit c"
    by (auto simp: lex_number_def lex_sign_def lex_int_part_def is_digit_def split: if_splits option.splits)
  with Cons that show ?thesis by blast
qed (use assms in \<open>auto simp: lex_number_def lex_sign_def lex_int_part_def\<close>)

lemma is_digit_char: "(n :: nat) < 10 \<Longrightarrow> is_digit (char_of (48 + n))"
  by (simp add: is_digit_def)

lemma show_nat_digits: "list_all is_digit (show_nat n)"
proof (induction n rule: show_nat.induct)
  case (1 n)
  show ?case
  proof (cases "n < 10")
    case True
    then show ?thesis by (simp add: show_nat.simps[of n] is_digit_char)
  next
    case False
    with 1 show ?thesis by (simp add: show_nat.simps[of n] is_digit_char)
  qed
qed

lemma show_nat_Nil: "show_nat n \<noteq> []"
  by (subst show_nat.simps) simp

lemma show_nat_zero: "0 < n \<Longrightarrow> hd (show_nat n) \<noteq> CHR ''0''"
proof (induction n rule: show_nat.induct)
  case (1 n)
  show ?case
  proof (cases "n < 10")
    case True
    then have "byte_val (hd (show_nat n)) = 48 + n" by (simp add: show_nat.simps[of n])
    with 1 show ?thesis by auto
  next
    case False
    with 1 show ?thesis by (simp add: show_nat.simps[of n] show_nat_Nil hd_append)
  qed
qed

lemma show_nat_0: "show_nat 0 = ''0''"
  by code_simp

lemma digits_all: "list_all is_digit s \<Longrightarrow> digits s = (s, [])"
  by (induction s) auto

lemma lex_int_part_show: "lex_int_part (show_nat n) = Some (show_nat n, [])"
proof (cases "n = 0")
  case True
  then show ?thesis by (simp add: show_nat_0 lex_int_part_def)
next
  case False
  obtain c s where s: "show_nat n = c # s" using show_nat_Nil by (cases "show_nat n") auto
  then have "c \<noteq> CHR ''0''" "is_digit c" "list_all is_digit (c # s)"
    using False show_nat_zero[of n] show_nat_digits[of n] by simp_all
  with s digits_all[of "c # s"] show ?thesis by (simp add: lex_int_part_def)
qed

lemma show_nat_not_minus: "show_nat n = c # s \<Longrightarrow> is_digit c \<and> c \<noteq> CHR ''-'' \<and> c \<noteq> CHR ''+''"
  using show_nat_digits[of n] by (auto simp: is_digit_def)

lemma lex_sign_show: "lex_sign (show_nat n) = ([], show_nat n)"
  using show_nat_not_minus[of n] show_nat_Nil[of n] by (cases "show_nat n") (auto simp: lex_sign_def)

lemma lex_number_show_int: "lex_number (show_int i) = Some (show_int i, [])"
proof (cases "i < 0")
  case True
  then show ?thesis
    by (simp add: show_int_def lex_number_def lex_sign_def lex_int_part_show lex_frac_def lex_exp_def)
next
  case False
  then show ?thesis
    by (simp add: show_int_def lex_number_def lex_sign_show lex_int_part_show lex_frac_def lex_exp_def)
qed

lemma doc_ok_DInt [simp]: "doc_ok (DInt i)"
  by (simp add: DInt_def lex_number_show_int)

lemma doc_ok_DStrs [simp]: "doc_ok (DStrs ss)"
  by (simp add: DStrs_def)

lemma digits_value_snoc: "digits_value (s @ [c]) = digits_value s * 10 + (int (byte_val c) - 48)"
  by (simp add: digits_value_def)

lemma digits_value_show: "digits_value (show_nat n) = int n"
proof (induction n rule: show_nat.induct)
  case (1 n)
  show ?case
  proof (cases "n < 10")
    case True
    then show ?thesis by (simp add: show_nat.simps[of n] digits_value_def)
  next
    case False
    then have "digits_value (show_nat n) = int (n div 10) * 10 + int (n mod 10)"
      using 1 by (simp add: show_nat.simps[of n] digits_value_snoc)
    then show ?thesis by (metis div_mult_mod_eq of_nat_add of_nat_mult of_nat_numeral)
  qed
qed

theorem ParseInt_show_int:
  "ParseInt (show_int i) = (if int64_ok i then Inr i else Inl (StdError ''value out of range''))"
proof (cases "i < 0")
  case True
  then show ?thesis
    by (simp add: show_int_def ParseInt_def show_nat_Nil show_nat_digits digits_value_show)
next
  case False
  obtain c s where s: "show_nat (nat i) = c # s" using show_nat_Nil by (cases "show_nat (nat i)") auto
  have c: "c \<noteq> CHR ''-''" "c \<noteq> CHR ''+''" using show_nat_not_minus[OF s] by auto
  have "list_all is_digit (c # s)" "digits_value (c # s) = i"
    using show_nat_digits[of "nat i"] digits_value_show[of "nat i"] False by (simp_all add: s)
  with c False show ?thesis by (simp add: show_int_def ParseInt_def s)
qed

end
