(* ===== verification/Json_Decoder.thy ===== *)
theory Json_Decoder
  imports Json_Text
begin

text \<open>
  Go's \<^verbatim>\<open>json.Decoder\<close> in token mode, as \<^verbatim>\<open>canonical.ParseStrict\<close> drives it: \<open>Token\<close> with the
  decoder's comma and colon automaton, and \<open>More\<close>. The buffer of the decoder is the unread
  input. The texts of syntax errors are abbreviated; which input is an error is not.

  \<open>scan_doc\<close> is the scanner behind \<^verbatim>\<open>Decode\<close> and \<^verbatim>\<open>json.Unmarshal\<close>: it reads one document of the
  full JSON grammar, nested at most 10000 deep. It takes fuel (\<open>None\<close> is running out of it);
  \<open>scan_doc_total\<close> shows one more than twice the length of the input is enough.
\<close>

section \<open>Tokens\<close>

datatype tok_state =
    tokenTopValue | tokenArrayStart | tokenArrayValue | tokenArrayComma
  | tokenObjectStart | tokenObjectKey | tokenObjectColon | tokenObjectValue | tokenObjectComma

datatype jtoken = TDelim char | TStr string | TNum string | TBool bool | TNull

record decoder =
  buf :: bytes
  tokenState :: tok_state
  tokenStack :: "tok_state list"

definition json_space :: "char \<Rightarrow> bool" where
  "json_space c \<longleftrightarrow> c = CHR '' '' \<or> c = CHR 0x09 \<or> c = CHR 0x0D \<or> c = CHR 0x0A"

definition tokenValueAllowed :: "tok_state \<Rightarrow> bool" where
  "tokenValueAllowed st \<longleftrightarrow>
     st = tokenTopValue \<or> st = tokenArrayStart \<or> st = tokenArrayValue \<or> st = tokenObjectValue"

definition tokenValueEnd :: "tok_state \<Rightarrow> tok_state" where
  "tokenValueEnd st =
     (case st of
        tokenArrayStart \<Rightarrow> tokenArrayComma
      | tokenArrayValue \<Rightarrow> tokenArrayComma
      | tokenObjectValue \<Rightarrow> tokenObjectComma
      | _ \<Rightarrow> st)"

definition syntax_error :: go_error where
  "syntax_error = StdError ''invalid character''"

definition io_EOF :: go_error where
  "io_EOF = StdError ''EOF''"

text \<open>
  \<^verbatim>\<open>Decode\<close> of a scalar: the scanner stops at the first byte that cannot continue the value and
  leaves it unread.
\<close>

definition scan_literal :: "string \<Rightarrow> jtoken \<Rightarrow> bytes \<Rightarrow> (jtoken \<times> bytes) result" where
  "scan_literal w t s = (if starts_with w s then Inr (t, drop (length w) s) else Inl syntax_error)"

definition scan_string :: "bytes \<Rightarrow> (jtoken \<times> bytes) result" where
  "scan_string r = (case lex_string r of None \<Rightarrow> Inl syntax_error | Some (s, rest) \<Rightarrow> Inr (TStr s, rest))"

definition scan_number :: "bytes \<Rightarrow> (jtoken \<times> bytes) result" where
  "scan_number s = (case lex_number s of None \<Rightarrow> Inl syntax_error | Some (n, rest) \<Rightarrow> Inr (TNum n, rest))"

definition scan_scalar :: "bytes \<Rightarrow> (jtoken \<times> bytes) result" where
  "scan_scalar s =
     (case s of
        [] \<Rightarrow> Inl io_EOF
      | c # r \<Rightarrow>
          if c = DQUOTE then scan_string r
          else if c = CHR ''-'' \<or> is_digit c then scan_number s
          else if c = CHR ''t'' then scan_literal ''true'' (TBool True) s
          else if c = CHR ''f'' then scan_literal ''false'' (TBool False) s
          else if c = CHR ''n'' then scan_literal ''null'' TNull s
          else Inl syntax_error)"

text \<open>A closing delimiter returns to the state under it.\<close>

definition close_delim :: "char \<Rightarrow> bytes \<Rightarrow> tok_state list \<Rightarrow> (jtoken \<times> decoder) result" where
  "close_delim c r stk =
     (case stk of
        [] \<Rightarrow> Inl (StdError ''index out of range'')
      | st # stk' \<Rightarrow> Inr (TDelim c, \<lparr>buf = r, tokenState = tokenValueEnd st, tokenStack = stk'\<rparr>))"

fun token_loop :: "bytes \<Rightarrow> tok_state \<Rightarrow> tok_state list \<Rightarrow> (jtoken \<times> decoder) result" where
  "token_loop [] st stk = Inl io_EOF"
| "token_loop (c # r) st stk =
     (if json_space c then token_loop r st stk
      else if c = CHR ''['' then
        (if tokenValueAllowed st
         then Inr (TDelim c, \<lparr>buf = r, tokenState = tokenArrayStart, tokenStack = st # stk\<rparr>)
         else Inl syntax_error)
      else if c = CHR '']'' then
        (if st = tokenArrayStart \<or> st = tokenArrayComma then close_delim c r stk else Inl syntax_error)
      else if c = CHR ''{'' then
        (if tokenValueAllowed st
         then Inr (TDelim c, \<lparr>buf = r, tokenState = tokenObjectStart, tokenStack = st # stk\<rparr>)
         else Inl syntax_error)
      else if c = CHR ''}'' then
        (if st = tokenObjectStart \<or> st = tokenObjectComma then close_delim c r stk else Inl syntax_error)
      else if c = CHR '':'' then
        (if st = tokenObjectColon then token_loop r tokenObjectValue stk else Inl syntax_error)
      else if c = CHR '','' then
        (if st = tokenArrayComma then token_loop r tokenArrayValue stk
         else if st = tokenObjectComma then token_loop r tokenObjectKey stk
         else Inl syntax_error)
      else if c = DQUOTE \<and> (st = tokenObjectStart \<or> st = tokenObjectKey) then
        and_then (scan_string r) (\<lambda>(t, rest).
          Inr (t, \<lparr>buf = rest, tokenState = tokenObjectColon, tokenStack = stk\<rparr>))
      else if \<not> tokenValueAllowed st then Inl syntax_error
      else and_then (scan_scalar (c # r)) (\<lambda>(t, rest).
          Inr (t, \<lparr>buf = rest, tokenState = tokenValueEnd st, tokenStack = stk\<rparr>)))"

definition Token :: "decoder \<Rightarrow> (jtoken \<times> decoder) result" where
  "Token d = token_loop (buf d) (tokenState d) (tokenStack d)"

fun peek :: "bytes \<Rightarrow> char option" where
  "peek [] = None"
| "peek (c # r) = (if json_space c then peek r else Some c)"

definition More :: "decoder \<Rightarrow> bool" where
  "More d = (case peek (buf d) of None \<Rightarrow> False | Some c \<Rightarrow> c \<noteq> CHR '']'' \<and> c \<noteq> CHR ''}'')"

section \<open>Whole documents\<close>

type_synonym 'a run = "'a result option"

definition then_run :: "'a run \<Rightarrow> ('a \<Rightarrow> 'b run) \<Rightarrow> 'b run" where
  "then_run r k = (case r of None \<Rightarrow> None | Some (Inl e) \<Rightarrow> Some (Inl e) | Some (Inr x) \<Rightarrow> k x)"

fun skip_space :: "bytes \<Rightarrow> bytes" where
  "skip_space [] = []"
| "skip_space (c # r) = (if json_space c then skip_space r else c # r)"

fun scalar_doc :: "jtoken \<Rightarrow> jdoc" where
  "scalar_doc (TStr s) = DStr s"
| "scalar_doc (TNum s) = DNum s"
| "scalar_doc (TBool b) = DBool b"
| "scalar_doc _ = DNull"

text \<open>The next byte that is not white space must be the given one.\<close>

definition expect :: "char \<Rightarrow> bytes \<Rightarrow> bytes result" where
  "expect c s = (case skip_space s of
     [] \<Rightarrow> Inl io_EOF | x # r \<Rightarrow> if x = c then Inr r else Inl syntax_error)"

function (sequential) scan_doc :: "nat \<Rightarrow> nat \<Rightarrow> bytes \<Rightarrow> (jdoc \<times> bytes) run"
and scan_members :: "nat \<Rightarrow> nat \<Rightarrow> (string \<times> jdoc) list \<Rightarrow> bytes \<Rightarrow> (jdoc \<times> bytes) run"
and scan_elems :: "nat \<Rightarrow> nat \<Rightarrow> jdoc list \<Rightarrow> bytes \<Rightarrow> (jdoc \<times> bytes) run" where
  "scan_doc 0 depth s = None"
| "scan_doc (Suc n) depth s =
     (case skip_space s of
        [] \<Rightarrow> Some (Inl io_EOF)
      | c # r \<Rightarrow>
          if c = CHR ''{'' then
            (if depth = 0 then Some (Inl (StdError ''exceeded max depth''))
             else case expect (CHR ''}'') r of
                    Inr r' \<Rightarrow> Some (Inr (DObj [], r'))
                  | Inl _ \<Rightarrow> scan_members n (depth - 1) [] r)
          else if c = CHR ''['' then
            (if depth = 0 then Some (Inl (StdError ''exceeded max depth''))
             else case expect (CHR '']'') r of
                    Inr r' \<Rightarrow> Some (Inr (DArr [], r'))
                  | Inl _ \<Rightarrow> scan_elems n (depth - 1) [] r)
          else Some (and_then (scan_scalar (c # r)) (\<lambda>(t, r'). Inr (scalar_doc t, r'))))"
| "scan_members 0 depth ms s = None"
| "scan_members (Suc n) depth ms s =
     then_run (Some (and_then (expect DQUOTE s) scan_string)) (\<lambda>(t, r1).
     then_run (Some (expect (CHR '':'') r1)) (\<lambda>r2.
     then_run (scan_doc n depth r2) (\<lambda>(d, r3).
       let ms' = ms @ [(case t of TStr k \<Rightarrow> k | _ \<Rightarrow> [], d)] in
       case expect (CHR '','') r3 of
         Inr r4 \<Rightarrow> scan_members n depth ms' r4
       | Inl _ \<Rightarrow> Some (and_then (expect (CHR ''}'') r3) (\<lambda>r4. Inr (DObj ms', r4))))))"
| "scan_elems 0 depth ds s = None"
| "scan_elems (Suc n) depth ds s =
     then_run (scan_doc n depth s) (\<lambda>(d, r3).
       case expect (CHR '','') r3 of
         Inr r4 \<Rightarrow> scan_elems n depth (ds @ [d]) r4
       | Inl _ \<Rightarrow> Some (and_then (expect (CHR '']'') r3) (\<lambda>r4. Inr (DArr (ds @ [d]), r4))))"
  by pat_completeness auto
termination
  by (relation "measure (\<lambda>x. case x of Inl (n, _) \<Rightarrow> n | Inr (Inl (n, _)) \<Rightarrow> n | Inr (Inr (n, _)) \<Rightarrow> n)") simp_all

definition maxNestingDepth :: nat where
  "maxNestingDepth = 10000"

text \<open>\<^verbatim>\<open>Decoder.Decode\<close> on fresh input, and \<^verbatim>\<open>json.Unmarshal\<close>, which allows only space to follow.\<close>

definition Decode :: "bytes \<Rightarrow> (jdoc \<times> bytes) run" where
  "Decode s = scan_doc (Suc (2 * length s)) maxNestingDepth s"

definition Unmarshal_doc :: "bytes \<Rightarrow> jdoc run" where
  "Unmarshal_doc s = then_run (Decode s) (\<lambda>(d, r).
     if skip_space r = [] then Some (Inr d) else Some (Inl syntax_error))"

section \<open>Every token consumes input\<close>

lemma then_run_simps [simp]:
  "then_run None k = None"
  "then_run (Some (Inl e)) k = Some (Inl e)"
  "then_run (Some (Inr x)) k = k x"
  by (simp_all add: then_run_def)

lemma then_run_Inr: "then_run r k = Some (Inr y) \<longleftrightarrow> (\<exists>x. r = Some (Inr x) \<and> k x = Some (Inr y))"
  by (auto simp: then_run_def split: option.splits sum.splits)

lemma then_run_None: "then_run r k = None \<longleftrightarrow> r = None \<or> (\<exists>x. r = Some (Inr x) \<and> k x = None)"
  by (auto simp: then_run_def split: option.splits sum.splits)

lemma then_run_cong [fundef_cong]:
  "r = r' \<Longrightarrow> (\<And>x. r' = Some (Inr x) \<Longrightarrow> f x = g x) \<Longrightarrow> then_run r f = then_run r' g"
  by (auto simp: then_run_def split: option.splits sum.splits)

lemma lex_string_length: "lex_string s = Some (v, r) \<Longrightarrow> length r < length s"
proof (induction s arbitrary: v r rule: lex_string.induct)
  case (1 s)
  show ?case
  proof (cases s)
    case Nil
    with 1 show ?thesis by (simp add: lex_string.simps)
  next
    case (Cons c t)
    show ?thesis
    proof (cases "c = DQUOTE")
      case True
      with 1 Cons show ?thesis by simp
    next
      case False
      with 1(2) Cons obtain o1 r1 v' where l: "lex_char s = Some (o1, r1)" "lex_string r1 = Some (v', r)"
        by (subst (asm) lex_string.simps) (auto split: option.splits simp del: lex_char.simps)
      have "length r < length r1" by (rule 1(1)[OF Cons False l(1) refl l(2)])
      with lex_char_length[OF l(1)] show ?thesis by simp
    qed
  qed
qed

lemma digits_length: "digits s = (d, r) \<Longrightarrow> s = d @ r"
  by (induction s arbitrary: d r) (auto split: if_splits prod.splits)

lemma lex_int_part_concat: "lex_int_part s = Some (d, r) \<Longrightarrow> s = d @ r \<and> d \<noteq> []"
  by (auto simp: lex_int_part_def split: list.splits if_splits prod.splits dest: digits_length)

lemma lex_frac_concat: "lex_frac s = Some (d, r) \<Longrightarrow> s = d @ r"
  by (auto simp: lex_frac_def split: list.splits if_splits prod.splits dest: digits_length)

lemma lex_exp_sign_concat: "lex_exp_sign s = (d, r) \<Longrightarrow> s = d @ r"
  by (auto simp: lex_exp_sign_def split: list.splits if_splits)

lemma lex_exp_concat: "lex_exp s = Some (d, r) \<Longrightarrow> s = d @ r"
  by (auto simp: lex_exp_def split: list.splits if_splits prod.splits dest!: digits_length lex_exp_sign_concat)

lemma lex_sign_concat: "lex_sign s = (d, r) \<Longrightarrow> s = d @ r"
  by (auto simp: lex_sign_def split: list.splits if_splits)

lemma lex_number_concat: "lex_number s = Some (d, r) \<Longrightarrow> s = d @ r \<and> d \<noteq> []"
  by (auto simp: lex_number_def split: option.splits prod.splits
      dest!: lex_int_part_concat lex_frac_concat lex_exp_concat lex_sign_concat)

lemma lex_number_length: "lex_number s = Some (d, r) \<Longrightarrow> length r < length s"
  using lex_number_concat[of s d r] by auto

lemma scan_string_length: "scan_string s = Inr (t, r) \<Longrightarrow> length r < length s"
  by (auto simp: scan_string_def split: option.splits dest: lex_string_length)

lemma scan_number_length: "scan_number s = Inr (t, r) \<Longrightarrow> length r < length s"
  by (auto simp: scan_number_def split: option.splits dest: lex_number_length)

lemma scan_literal_length: "scan_literal w t' (c # s) = Inr (t, r) \<Longrightarrow> w \<noteq> [] \<Longrightarrow> length r < length (c # s)"
  by (auto simp: scan_literal_def split: if_splits)

lemma scan_scalar_length: "scan_scalar (c # s) = Inr (t, r) \<Longrightarrow> length r < length (c # s)"
  using scan_string_length[of s t r] scan_number_length[of "c # s" t r] scan_literal_length[of _ _ c s t r]
  unfolding scan_scalar_def list.case
  by (simp only: length_Cons split: if_split_asm) (simp_all add: less_SucI)

lemma close_delim_length: "close_delim c r stk = Inr (t, d) \<Longrightarrow> buf d = r"
  by (auto simp: close_delim_def split: list.splits)

lemma token_loop_length: "token_loop s st stk = Inr (t, d) \<Longrightarrow> length (buf d) < length s"
proof (induction s arbitrary: st stk)
  case (Cons c r)
  have scans: "and_then (scan_scalar (c # r)) (\<lambda>(t, rest). Inr (t, \<lparr>buf = rest, tokenState = st', tokenStack = stk\<rparr>))
        = Inr (t, d) \<Longrightarrow> length (buf d) < length (c # r)"
    "and_then (scan_string r) (\<lambda>(t, rest). Inr (t, \<lparr>buf = rest, tokenState = st', tokenStack = stk\<rparr>))
        = Inr (t, d) \<Longrightarrow> length (buf d) < length (c # r)" for st'
    by (auto simp: and_then_Inr_iff dest!: scan_scalar_length scan_string_length)
  note ih = less_SucI[OF Cons(1)]
  from Cons(2) show ?case
    by (simp only: token_loop.simps split: if_split_asm;
        (auto dest: ih scans close_delim_length)?)
qed simp

lemma Token_length: "Token d = Inr (t, d') \<Longrightarrow> length (buf d') < length (buf d)"
  by (simp add: Token_def token_loop_length)

section \<open>The scanner terminates\<close>

lemma skip_space_length: "length (skip_space s) \<le> length s"
  by (induction s) auto

lemma skip_space_Cons: "skip_space s = c # r \<Longrightarrow> length r < length s"
  using skip_space_length[of s] by simp

lemma expect_length: "expect c s = Inr r \<Longrightarrow> length r < length s"
  by (auto simp: expect_def split: list.splits if_splits dest: skip_space_Cons)

lemma scan_progress:
  "scan_doc n k s = Some (Inr (d, r)) \<Longrightarrow> length r < length s"
  "scan_members n k ms s = Some (Inr (d, r)) \<Longrightarrow> length r < length s"
  "scan_elems n k ds s = Some (Inr (d, r)) \<Longrightarrow> length r < length s"
proof (induction n k s and n k ms s and n k ds s arbitrary: d r and d r and d r
    rule: scan_doc_scan_members_scan_elems.induct)
  case (2 n k s)
  show ?case
  proof (cases "skip_space s")
    case (Cons c r')
    note sh = skip_space_Cons[OF Cons] skip_space_length[of s]
    from 2 Cons sh show ?thesis
      by (fastforce split: if_splits sum.splits simp: and_then_Inr_iff dest!: expect_length
          scan_scalar_length dest: less_trans)
  qed (use 2 in simp)
next
  case (4 n k ms s)
  from 4(3) obtain t r1 r2 r0 d1 r3 where p: "expect DQUOTE s = Inr r0" "scan_string r0 = Inr (t, r1)"
    "expect (CHR '':'') r1 = Inr r2" "scan_doc n k r2 = Some (Inr (d1, r3))"
    by (auto simp: then_run_Inr and_then_Inr_iff)
  have "length r3 < length r2" by (rule 4(1)[OF p(4)])
  then have le: "length r3 < length s"
    using expect_length[OF p(1)] scan_string_length[OF p(2)] expect_length[OF p(3)] by simp
  show ?case
  proof (cases "expect (CHR '','') r3")
    case (Inl e)
    with 4(3) p have "expect (CHR ''}'') r3 = Inr r" by (auto simp: and_then_Inr_iff Let_def)
    with le show ?thesis using expect_length by fastforce
  next
    case (Inr r4)
    with 4(3) p have "scan_members n k (ms @ [(case t of TStr k \<Rightarrow> k | _ \<Rightarrow> [], d1)]) r4 = Some (Inr (d, r))"
      by (simp add: Let_def)
    with 4(2) p Inr le expect_length[OF Inr] show ?thesis by fastforce
  qed
next
  case (6 n k ds s)
  from 6(3) obtain d1 r3 where p: "scan_doc n k s = Some (Inr (d1, r3))" by (auto simp: then_run_Inr)
  have le: "length r3 < length s" using 6(1) p by simp
  show ?case
  proof (cases "expect (CHR '','') r3")
    case (Inl e)
    with 6(3) p have "expect (CHR '']'') r3 = Inr r" by (auto simp: and_then_Inr_iff)
    with le show ?thesis using expect_length by fastforce
  next
    case (Inr r4)
    with 6(3) p have "scan_elems n k (ds @ [d1]) r4 = Some (Inr (d, r))" by simp
    with 6(2) p Inr le expect_length[OF Inr] show ?thesis by fastforce
  qed
qed simp_all

lemma scan_doc_total:
  "2 * length s < n \<Longrightarrow> scan_doc n k s \<noteq> None"
  "2 * length s + 1 < n \<Longrightarrow> scan_members n k ms s \<noteq> None"
  "2 * length s + 1 < n \<Longrightarrow> scan_elems n k ds s \<noteq> None"
proof (induction n k s and n k ms s and n k ds s rule: scan_doc_scan_members_scan_elems.induct)
  case (2 n k s)
  show ?case
  proof (cases "skip_space s")
    case (Cons c r)
    with skip_space_Cons[OF Cons] 2 show ?thesis by (auto split: sum.splits)
  qed simp
next
  case (4 n k ms s)
  have doc: "scan_doc n k r2 \<noteq> None" and mem: "scan_doc n k r2 = Some (Inr (d, r3)) \<Longrightarrow> expect (CHR '','') r3 = Inr r4 \<Longrightarrow>
      scan_members n k (ms @ [(case t of TStr k \<Rightarrow> k | _ \<Rightarrow> [], d)]) r4 \<noteq> None"
    if "expect DQUOTE s = Inr r0" "scan_string r0 = Inr (t, r1)" "expect (CHR '':'') r1 = Inr r2"
    for r0 t r1 r2 d r3 r4
  proof -
    have l: "length r2 + 2 < length s"
      using expect_length[OF that(1)] scan_string_length[OF that(2)] expect_length[OF that(3)] by simp
    then show "scan_doc n k r2 \<noteq> None" using 4 by simp
    assume "scan_doc n k r2 = Some (Inr (d, r3))" and c: "expect (CHR '','') r3 = Inr r4"
    with scan_progress(1) expect_length l have "length r4 + 2 < length s" by (meson less_trans add_less_mono1)
    then show "scan_members n k (ms @ [(case t of TStr k \<Rightarrow> k | _ \<Rightarrow> [], d)]) r4 \<noteq> None"
      using 4(2)[OF refl c] 4(3) by simp
  qed
  show ?case
  proof
    assume "scan_members (Suc n) k ms s = None"
    then obtain r0 t r1 r2 where p: "expect DQUOTE s = Inr r0" "scan_string r0 = Inr (t, r1)"
      "expect (CHR '':'') r1 = Inr r2"
      and e: "scan_doc n k r2 = None \<or> (\<exists>d r3. scan_doc n k r2 = Some (Inr (d, r3)) \<and>
        (case expect (CHR '','') r3 of
           Inr r4 \<Rightarrow> scan_members n k (ms @ [(case t of TStr k \<Rightarrow> k | _ \<Rightarrow> [], d)]) r4
         | Inl _ \<Rightarrow> Some (and_then (expect (CHR ''}'') r3)
             (\<lambda>r4. Inr (DObj (ms @ [(case t of TStr k \<Rightarrow> k | _ \<Rightarrow> [], d)]), r4)))) = None)"
      by (auto simp: then_run_None and_then_Inr_iff Let_def)
    from e doc[OF p] obtain d r3 where d: "scan_doc n k r2 = Some (Inr (d, r3))"
      and c: "(case expect (CHR '','') r3 of
           Inr r4 \<Rightarrow> scan_members n k (ms @ [(case t of TStr k \<Rightarrow> k | _ \<Rightarrow> [], d)]) r4
         | Inl _ \<Rightarrow> Some (and_then (expect (CHR ''}'') r3)
             (\<lambda>r4. Inr (DObj (ms @ [(case t of TStr k \<Rightarrow> k | _ \<Rightarrow> [], d)]), r4)))) = None"
      by blast
    show False using c mem[OF p d] by (cases "expect (CHR '','') r3") simp_all
  qed
next
  case (6 n k ds s)
  have "scan_doc n k s \<noteq> None" using 6 by simp
  moreover have "scan_elems n k (ds @ [d]) r4 \<noteq> None"
    if "scan_doc n k s = Some (Inr (d, r3))" "expect (CHR '','') r3 = Inr r4" for d r3 r4
    using scan_progress(1)[OF that(1)] expect_length[OF that(2)] 6(2)[OF that(2)] 6(3) by simp
  ultimately show ?case by (fastforce simp: then_run_def split: option.split sum.split)
qed simp_all

lemma Decode_total: "Decode s \<noteq> None"
  using scan_doc_total(1)[of s "Suc (2 * length s)"] by (simp add: Decode_def del: scan_doc.simps)

lemma Unmarshal_doc_total: "Unmarshal_doc s \<noteq> None"
  using Decode_total[of s] by (auto simp: Unmarshal_doc_def then_run_None)

end
