(* ===== verification/Canonical.thy ===== *)
theory Canonical
  imports Json_Decoder
begin

text \<open>
  \<^verbatim>\<open>pkg/iscp/canonical/canonical.go\<close>: the strict parser (\<^verbatim>\<open>ParseStrict\<close>, \<^verbatim>\<open>parseValue\<close>), the
  canonical writer (\<^verbatim>\<open>writeCanonical\<close>, \<^verbatim>\<open>Marshal\<close>, \<^verbatim>\<open>MarshalValue\<close>), the signature input and
  the unknown-field check. A parsed \<^verbatim>\<open>any\<close> is a \<open>jvalue\<close>; a Go map is an association list
  with distinct keys, kept in insertion order. \<open>JOther\<close> stands for a Go value the writer has no
  case for, with its type name.

  \<^verbatim>\<open>parseValue\<close> recurses on the decoder, so the model takes fuel; \<open>None\<close> is running out of it.
  \<open>parseValue_total\<close> shows that one more than twice the length of the input is enough, and
  \<open>parse_value_eq\<close>, \<open>parse_members_eq\<close> and \<open>parse_elems_eq\<close> are the equations without fuel.
\<close>

section \<open>Values\<close>

datatype jvalue =
    JNull
  | JBool bool
  | JStr string
  | JInt int
  | JArr "jvalue list"
  | JObj "(string \<times> jvalue) list"
  | JOther string

definition signaturePrefix :: bytes where
  "signaturePrefix = ''ISCP-V2-SIGNATURE'' @ [NUL]"

section \<open>The strict parser\<close>

definition parse_number :: "string \<Rightarrow> int result" where
  "parse_number s =
     (if list_ex (\<lambda>c. c = CHR ''.'' \<or> c = CHR ''e'' \<or> c = CHR ''E'') s
        then Inl (StdError ''float values are not allowed'')
      else if 1 < length s \<and> hd s = CHR ''0''
        then Inl (StdError ''leading zero integer is not allowed'')
      else if starts_with ''-0'' s
        then Inl (StdError ''negative leading zero integer is not allowed'')
      else ParseInt s)"

definition duplicate_field :: go_error where
  "duplicate_field = StdError ''duplicate object field''"

definition expect_end :: "char \<Rightarrow> string \<Rightarrow> jvalue \<Rightarrow> decoder \<Rightarrow> (jvalue \<times> decoder) result" where
  "expect_end c msg v d =
     and_then (Token d) (\<lambda>(t, d'). if t = TDelim c then Inr (v, d') else Inl (StdError msg))"

fun parseValue :: "nat \<Rightarrow> decoder \<Rightarrow> (jvalue \<times> decoder) run"
and parse_members :: "nat \<Rightarrow> (string \<times> jvalue) list \<Rightarrow> decoder \<Rightarrow> ((string \<times> jvalue) list \<times> decoder) run"
and parse_elems :: "nat \<Rightarrow> jvalue list \<Rightarrow> decoder \<Rightarrow> (jvalue list \<times> decoder) run" where
  "parseValue 0 dec = None"
| "parseValue (Suc n) dec =
     then_run (Some (Token dec)) (\<lambda>(tok, d1).
       case tok of
         TDelim c \<Rightarrow>
           if c = CHR ''{'' then
             then_run (parse_members n [] d1) (\<lambda>(obj, d2).
               Some (expect_end (CHR ''}'') ''object not closed'' (JObj obj) d2))
           else if c = CHR ''['' then
             then_run (parse_elems n [] d1) (\<lambda>(arr, d2).
               Some (expect_end (CHR '']'') ''array not closed'' (JArr arr) d2))
           else Some (Inl (StdError ''unexpected delimiter''))
       | TNum s \<Rightarrow> Some (and_then (parse_number s) (\<lambda>i. Inr (JInt i, d1)))
       | TStr s \<Rightarrow> Some (Inr (JStr s, d1))
       | TBool b \<Rightarrow> Some (Inr (JBool b, d1))
       | TNull \<Rightarrow> Some (Inr (JNull, d1)))"
| "parse_members 0 obj dec = None"
| "parse_members (Suc n) obj dec =
     (if \<not> More dec then Some (Inr (obj, dec))
      else then_run (Some (Token dec)) (\<lambda>(keyTok, d1).
        case keyTok of
          TStr key \<Rightarrow>
            if key \<in> fst ` set obj then Some (Inl duplicate_field)
            else then_run (parseValue n d1) (\<lambda>(v, d2). parse_members n (obj @ [(key, v)]) d2)
        | _ \<Rightarrow> Some (Inl (StdError ''object key is not string''))))"
| "parse_elems 0 arr dec = None"
| "parse_elems (Suc n) arr dec =
     (if \<not> More dec then Some (Inr (arr, dec))
      else then_run (parseValue n dec) (\<lambda>(v, d2). parse_elems n (arr @ [v]) d2))"

definition fuel_for :: "decoder \<Rightarrow> nat" where
  "fuel_for d = Suc (2 * length (buf d))"

definition invalid_input :: "go_error \<Rightarrow> go_error" where
  "invalid_input err = errors_Wrap CodeCanonicalInvalid ''invalid canonical json input'' err"

text \<open>
  After the value: \<^verbatim>\<open>dec.More()\<close>, then \<^verbatim>\<open>dec.Decode(&trailing)\<close>, which succeeds when a complete
  document follows.
\<close>

definition trailing_decodes :: "decoder \<Rightarrow> bool" where
  "trailing_decodes d \<longleftrightarrow>
     (case Decode (buf d) of Some (Inr _) \<Rightarrow> True | _ \<Rightarrow> False)"

definition ParseStrict :: "bytes \<Rightarrow> jvalue result" where
  "ParseStrict input =
     (let dec = \<lparr>buf = input, tokenState = tokenTopValue, tokenStack = []\<rparr> in
      case parseValue (fuel_for dec) dec of
        None \<Rightarrow> Inl (StdError ''out of fuel'')
      | Some (Inl err) \<Rightarrow> Inl (invalid_input err)
      | Some (Inr (value, dec')) \<Rightarrow>
          if More dec' then reject CodeCanonicalInvalid ''unexpected trailing json value''
          else if trailing_decodes dec' then reject CodeCanonicalInvalid ''unexpected trailing json value''
          else Inr value)"

section \<open>The canonical writer\<close>

fun collect :: "'a result list \<Rightarrow> 'a list result" where
  "collect [] = Inr []"
| "collect (r # rs) = and_then r (\<lambda>x. and_then (collect rs) (\<lambda>xs. Inr (x # xs)))"

fun writeCanonical :: "jvalue \<Rightarrow> bytes result" where
  "writeCanonical JNull = Inr ''null''"
| "writeCanonical (JBool v) = Inr (if v then ''true'' else ''false'')"
| "writeCanonical (JStr v) = Inr (quote v)"
| "writeCanonical (JInt v) = Inr (show_int v)"
| "writeCanonical (JObj v) =
     (let entries = map (\<lambda>(k, x). (k, writeCanonical x)) v; keys = sort (map fst v) in
      and_then (collect (map (\<lambda>k. and_then (the (map_of entries k)) (\<lambda>b. Inr (quote k @ '':'' @ b))) keys))
        (\<lambda>parts. Inr (''{'' @ commas parts @ ''}'')))"
| "writeCanonical (JArr v) =
     and_then (collect (map writeCanonical v)) (\<lambda>parts. Inr (''['' @ commas parts @ '']''))"
| "writeCanonical (JOther t) = reject CodeCanonicalInvalid (''unsupported canonical type '' @ t)"

definition Marshal :: "bytes \<Rightarrow> bytes result" where
  "Marshal input = and_then (ParseStrict input) writeCanonical"

definition MarshalValue :: "jvalue \<Rightarrow> bytes result" where
  "MarshalValue value = writeCanonical value"

definition SignatureInput :: "string \<Rightarrow> bytes \<Rightarrow> bytes result" where
  "SignatureInput objectType input =
     and_then (ParseStrict input) (\<lambda>value.
       case value of
         JObj obj \<Rightarrow>
           and_then (MarshalValue (JObj (al_remove ''signature'' obj))) (\<lambda>canon.
             Inr (signaturePrefix @ objectType @ [NUL] @ canon))
       | _ \<Rightarrow> reject CodeCanonicalInvalid ''signed object must be a json object'')"

text \<open>The range over the map stops at some unknown key; the model reports the first one.\<close>

definition RejectUnknownTopLevel :: "bytes \<Rightarrow> string list \<Rightarrow> unit result" where
  "RejectUnknownTopLevel input allowed =
     and_then (ParseStrict input) (\<lambda>value.
       case value of
         JObj obj \<Rightarrow>
           (case filter (\<lambda>(key, v). key \<notin> set allowed) obj of
              [] \<Rightarrow> Inr ()
            | (key, v) # _ \<Rightarrow> reject CodeCanonicalInvalid (''unknown top-level field: '' @ key))
       | _ \<Rightarrow> reject CodeCanonicalInvalid ''top-level value must be an object'')"

section \<open>Progress and termination of the parser\<close>

lemma expect_end_length: "expect_end c msg v d = Inr (v', d') \<Longrightarrow> length (buf d') < length (buf d)"
  by (auto simp: expect_end_def and_then_Inr_iff split: if_splits dest: Token_length)

lemma parse_progress:
  "parseValue n dec = Some (Inr (v, d')) \<Longrightarrow> length (buf d') < length (buf dec)"
  "parse_members n obj dec = Some (Inr (m, d')) \<Longrightarrow> length (buf d') \<le> length (buf dec)"
  "parse_elems n arr dec = Some (Inr (vs, d')) \<Longrightarrow> length (buf d') \<le> length (buf dec)"
proof (induction n dec and n obj dec and n arr dec arbitrary: v d' and m d' and vs d'
    rule: parseValue_parse_members_parse_elems.induct)
  case (2 n dec)
  then obtain tok d1 where t: "Token dec = Inr (tok, d1)" by (auto simp: then_run_Inr)
  note d1 = Token_length[OF t]
  show ?case
  proof (cases tok)
    case (TDelim c)
    with 2 t d1 show ?thesis
      by (fastforce simp: then_run_Inr split: if_splits dest!: expect_end_length)
  qed (use 2 t d1 in \<open>auto simp: and_then_Inr_iff\<close>)
next
  case (4 n obj dec)
  show ?case
  proof (cases "More dec")
    case True
    with 4(3) obtain tok d1 where t: "Token dec = Inr (tok, d1)" by (auto simp: then_run_Inr)
    with 4(3) True obtain key v d2 where k: "tok = TStr key" "key \<notin> fst ` set obj"
      "parseValue n d1 = Some (Inr (v, d2))" "parse_members n (obj @ [(key, v)]) d2 = Some (Inr (m, d'))"
      by (cases tok) (auto simp: then_run_Inr split: if_splits)
    have "length (buf d2) < length (buf d1)" "length (buf d') \<le> length (buf d2)"
      using 4 True t k by auto
    with Token_length[OF t] show ?thesis by simp
  qed (use 4 in simp)
next
  case (6 n arr dec)
  show ?case
  proof (cases "More dec")
    case True
    with 6(3) obtain v d2 where v: "parseValue n dec = Some (Inr (v, d2))"
      "parse_elems n (arr @ [v]) d2 = Some (Inr (vs, d'))" by (auto simp: then_run_Inr)
    with 6(1)[OF _ v(1)] 6(2) True show ?thesis by fastforce
  qed (use 6 in simp)
qed simp_all

lemma parse_total_aux:
  "(2 * length (buf dec) < n \<longrightarrow> parseValue n dec \<noteq> None) \<and>
   (2 * length (buf dec) + 1 < n \<longrightarrow> parse_members n obj dec \<noteq> None) \<and>
   (2 * length (buf dec) + 1 < n \<longrightarrow> parse_elems n arr dec \<noteq> None)"
proof (induction n arbitrary: dec obj arr)
  case (Suc n)
  note V = Suc[THEN conjunct1, rule_format] and M = Suc[THEN conjunct2, THEN conjunct1, rule_format]
    and E = Suc[THEN conjunct2, THEN conjunct2, rule_format]
  have "parseValue (Suc n) dec \<noteq> None" if l: "2 * length (buf dec) < Suc n"
  proof (cases "Token dec")
    case (Inr p)
    then obtain tok d1 where t: "Token dec = Inr (tok, d1)" by (cases p) auto
    have "parse_members n [] d1 \<noteq> None" "parse_elems n [] d1 \<noteq> None"
      using M[of d1 "[]"] E[of d1 "[]"] l Token_length[OF t] by simp_all
    with t show ?thesis by (cases tok) (auto simp: then_run_None simp del: not_None_eq)
  qed simp
  moreover have "parse_members (Suc n) obj dec \<noteq> None" if l: "2 * length (buf dec) + 1 < Suc n"
  proof (cases "Token dec")
    case (Inr p)
    then obtain tok d1 where t: "Token dec = Inr (tok, d1)" by (cases p) auto
    have "parseValue n d1 \<noteq> None" using V[of d1] l Token_length[OF t] by simp
    moreover have "parse_members n obj' d2 \<noteq> None" if "parseValue n d1 = Some (Inr (v, d2))" for v d2 obj'
      using M[of d2 obj'] l Token_length[OF t] parse_progress(1)[OF that] by simp
    ultimately show ?thesis using t by (cases tok) (auto simp: then_run_None simp del: not_None_eq)
  qed simp
  moreover have "parse_elems (Suc n) arr dec \<noteq> None" if l: "2 * length (buf dec) + 1 < Suc n"
  proof -
    have "parseValue n dec \<noteq> None" using V[of dec] l by simp
    moreover have "parse_elems n arr' d2 \<noteq> None" if "parseValue n dec = Some (Inr (v, d2))" for v d2 arr'
      using E[of d2 arr'] l parse_progress(1)[OF that] by simp
    ultimately show ?thesis by (auto simp: then_run_None simp del: not_None_eq)
  qed
  ultimately show ?case by blast
qed simp

lemmas parseValue_total = parse_total_aux[THEN conjunct1, rule_format]
lemmas parse_members_total = parse_total_aux[THEN conjunct2, THEN conjunct1, rule_format]
lemmas parse_elems_total = parse_total_aux[THEN conjunct2, THEN conjunct2, rule_format]

lemma then_run_Some:
  "then_run r k = Some y \<Longrightarrow> (\<And>z. r = Some z \<Longrightarrow> r' = Some z) \<Longrightarrow>
     (\<And>x z. r = Some (Inr x) \<Longrightarrow> k x = Some z \<Longrightarrow> k' x = Some z) \<Longrightarrow> then_run r' k' = Some y"
  by (auto simp: then_run_def split: option.splits sum.splits)

lemma parse_mono_aux:
  "(parseValue n dec = Some r \<longrightarrow> parseValue (Suc n) dec = Some r) \<and>
   (parse_members n obj dec = Some rm \<longrightarrow> parse_members (Suc n) obj dec = Some rm) \<and>
   (parse_elems n arr dec = Some re \<longrightarrow> parse_elems (Suc n) arr dec = Some re)"
proof (induction n arbitrary: dec obj arr r rm re)
  case (Suc n)
  note V = Suc[THEN conjunct1, rule_format] and M = Suc[THEN conjunct2, THEN conjunct1, rule_format]
    and E = Suc[THEN conjunct2, THEN conjunct2, rule_format]
  have "parseValue (Suc (Suc n)) dec = Some r" if "parseValue (Suc n) dec = Some r"
    using that unfolding parseValue.simps(2)
    by (rule then_run_Some) (auto elim!: then_run_Some M E split: jtoken.splits if_splits
        simp del: parseValue.simps parse_members.simps parse_elems.simps)
  moreover have "parse_members (Suc (Suc n)) obj dec = Some rm" if "parse_members (Suc n) obj dec = Some rm"
    using that unfolding parse_members.simps(2)[of _ obj dec]
    by (auto elim!: then_run_Some V M split: jtoken.splits if_splits intro: rev_image_eqI
        simp del: parseValue.simps parse_members.simps parse_elems.simps)
  moreover have "parse_elems (Suc (Suc n)) arr dec = Some re" if "parse_elems (Suc n) arr dec = Some re"
    using that unfolding parse_elems.simps(2)[of _ arr dec]
    by (auto elim!: then_run_Some V E split: jtoken.splits if_splits
        simp del: parseValue.simps parse_members.simps parse_elems.simps)
  ultimately show ?case by blast
qed simp

lemma parse_mono:
  assumes "n \<le> n'"
  shows "parseValue n dec = Some r \<Longrightarrow> parseValue n' dec = Some r"
    and "parse_members n obj dec = Some rm \<Longrightarrow> parse_members n' obj dec = Some rm"
    and "parse_elems n arr dec = Some re \<Longrightarrow> parse_elems n' arr dec = Some re"
  using assms by (induction n' rule: dec_induct) (simp_all only: parse_mono_aux)

section \<open>The parser without fuel\<close>

declare parseValue.simps [simp del] parse_members.simps [simp del] parse_elems.simps [simp del]

definition parse_value :: "decoder \<Rightarrow> (jvalue \<times> decoder) result" where
  "parse_value d = the (parseValue (fuel_for d) d)"

definition parse_object :: "(string \<times> jvalue) list \<Rightarrow> decoder \<Rightarrow> ((string \<times> jvalue) list \<times> decoder) result" where
  "parse_object obj d = the (parse_members (Suc (fuel_for d)) obj d)"

definition parse_array :: "jvalue list \<Rightarrow> decoder \<Rightarrow> (jvalue list \<times> decoder) result" where
  "parse_array arr d = the (parse_elems (Suc (fuel_for d)) arr d)"

lemma parse_enough:
  "2 * length (buf d) < n \<Longrightarrow> parseValue n d = Some (parse_value d)"
  "2 * length (buf d) + 1 < n \<Longrightarrow> parse_members n obj d = Some (parse_object obj d)"
  "2 * length (buf d) + 1 < n \<Longrightarrow> parse_elems n arr d = Some (parse_array arr d)"
proof -
  assume n: "2 * length (buf d) < n"
  obtain r where r: "parseValue (fuel_for d) d = Some r"
    using parseValue_total[of d "fuel_for d"] by (auto simp: fuel_for_def)
  with n parse_mono(1)[of "fuel_for d" n d r] show "parseValue n d = Some (parse_value d)"
    by (simp add: parse_value_def fuel_for_def)
next
  assume n: "2 * length (buf d) + 1 < n"
  obtain r where r: "parse_members (Suc (fuel_for d)) obj d = Some r"
    using parse_members_total[of d "Suc (fuel_for d)" obj] by (auto simp: fuel_for_def)
  with n parse_mono(2)[of "Suc (fuel_for d)" n obj d r] show "parse_members n obj d = Some (parse_object obj d)"
    by (simp add: parse_object_def fuel_for_def)
next
  assume n: "2 * length (buf d) + 1 < n"
  obtain r where r: "parse_elems (Suc (fuel_for d)) arr d = Some r"
    using parse_elems_total[of d "Suc (fuel_for d)" arr] by (auto simp: fuel_for_def)
  with n parse_mono(3)[of "Suc (fuel_for d)" n arr d r] show "parse_elems n arr d = Some (parse_array arr d)"
    by (simp add: parse_array_def fuel_for_def)
qed

lemma then_run_lift:
  "r = Some a \<Longrightarrow> (\<And>x. a = Inr x \<Longrightarrow> k x = Some (k' x)) \<Longrightarrow> then_run r k = Some (and_then a k')"
  by (cases a) auto

lemma parse_value_eq:
  "parse_value dec = and_then (Token dec) (\<lambda>(tok, d1).
       case tok of
         TDelim c \<Rightarrow>
           if c = CHR ''{'' then and_then (parse_object [] d1) (\<lambda>(obj, d2).
               expect_end (CHR ''}'') ''object not closed'' (JObj obj) d2)
           else if c = CHR ''['' then and_then (parse_array [] d1) (\<lambda>(arr, d2).
               expect_end (CHR '']'') ''array not closed'' (JArr arr) d2)
           else Inl (StdError ''unexpected delimiter'')
       | TNum s \<Rightarrow> and_then (parse_number s) (\<lambda>i. Inr (JInt i, d1))
       | TStr s \<Rightarrow> Inr (JStr s, d1)
       | TBool b \<Rightarrow> Inr (JBool b, d1)
       | TNull \<Rightarrow> Inr (JNull, d1))" (is "_ = ?rhs")
proof -
  let ?n = "2 * length (buf dec)"
  have "parseValue (Suc ?n) dec = Some ?rhs"
    unfolding parseValue.simps
  proof (rule then_run_lift[OF refl], goal_cases)
    case (1 x)
    then obtain tok d1 where x: "x = (tok, d1)" "Token dec = Inr (tok, d1)" by (cases x) auto
    then have l: "2 * length (buf d1) + 1 < ?n" using Token_length[OF x(2)] by simp
    then show ?case
      by (auto simp: x parse_enough split: jtoken.split intro!: then_run_lift)
  qed
  moreover have "parseValue (Suc ?n) dec = Some (parse_value dec)" by (rule parse_enough) simp
  ultimately show ?thesis by simp
qed

lemma parse_object_eq:
  "parse_object obj dec =
     (if \<not> More dec then Inr (obj, dec)
      else and_then (Token dec) (\<lambda>(keyTok, d1).
        case keyTok of
          TStr key \<Rightarrow>
            if key \<in> fst ` set obj then Inl duplicate_field
            else and_then (parse_value d1) (\<lambda>(v, d2). parse_object (obj @ [(key, v)]) d2)
        | _ \<Rightarrow> Inl (StdError ''object key is not string'')))" (is "_ = (if _ then _ else ?rhs)")
proof (cases "More dec")
  case True
  let ?n = "Suc (2 * length (buf dec))"
  have "then_run (Some (Token dec)) (\<lambda>(keyTok, d1).
        case keyTok of
          TStr key \<Rightarrow>
            if key \<in> fst ` set obj then Some (Inl duplicate_field)
            else then_run (parseValue ?n d1) (\<lambda>(v, d2). parse_members ?n (obj @ [(key, v)]) d2)
        | _ \<Rightarrow> Some (Inl (StdError ''object key is not string''))) = Some ?rhs"
  proof (rule then_run_lift[OF refl], goal_cases)
    case (1 x)
    then obtain tok d1 where x: "x = (tok, d1)" "Token dec = Inr (tok, d1)" by (cases x) auto
    have l: "2 * length (buf d1) < ?n" using Token_length[OF x(2)] by simp
    have "2 * length (buf d2) + 1 < ?n" if "parse_value d1 = Inr (v, d2)" for v d2
      using parse_progress(1)[of ?n d1 v d2] parse_enough(1)[OF l] that Token_length[OF x(2)] by simp
    with l show ?case
      by (auto simp: x parse_enough split: jtoken.split intro!: then_run_lift)
  qed
  moreover have "parse_members (Suc ?n) obj dec = Some (parse_object obj dec)" by (rule parse_enough) simp
  ultimately show ?thesis using True by (simp add: parse_members.simps(2)[of ?n])
next
  case False
  have "parse_members (Suc (fuel_for dec)) obj dec = Some (Inr (obj, dec))" using False by (simp add: parse_members.simps)
  with False show ?thesis by (simp add: parse_object_def)
qed

lemma parse_array_eq:
  "parse_array arr dec =
     (if \<not> More dec then Inr (arr, dec)
      else and_then (parse_value dec) (\<lambda>(v, d2). parse_array (arr @ [v]) d2))" (is "_ = (if _ then _ else ?rhs)")
proof (cases "More dec")
  case True
  let ?n = "Suc (2 * length (buf dec))"
  have l: "2 * length (buf dec) < ?n" by simp
  have "then_run (parseValue ?n dec) (\<lambda>(v, d2). parse_elems ?n (arr @ [v]) d2) = Some ?rhs"
  proof (rule then_run_lift[OF parse_enough(1)[OF l]], goal_cases)
    case (1 x)
    then obtain v d2 where x: "x = (v, d2)" "parse_value dec = Inr (v, d2)" by (cases x) auto
    have "2 * length (buf d2) + 1 < ?n"
      using parse_progress(1)[of ?n dec v d2] parse_enough(1)[OF l] x by simp
    then show ?case by (simp add: x parse_enough)
  qed
  moreover have "parse_elems (Suc ?n) arr dec = Some (parse_array arr dec)" by (rule parse_enough) simp
  ultimately show ?thesis using True by (simp add: parse_elems.simps(2)[of ?n])
next
  case False
  have "parse_elems (Suc (fuel_for dec)) arr dec = Some (Inr (arr, dec))" using False by (simp add: parse_elems.simps)
  with False show ?thesis by (simp add: parse_array_def)
qed

lemma peek_skip_space: "peek s = (case skip_space s of [] \<Rightarrow> None | c # _ \<Rightarrow> Some c)"
  by (induction s) auto

text \<open>What \<^verbatim>\<open>More\<close> lets through is no document: the check after it never rejects anything.\<close>

lemma trailing_after_value:
  assumes "\<not> More d"
  shows "\<not> trailing_decodes d"
proof (cases "skip_space (buf d)")
  case Nil
  then have "scan_doc (Suc n) k (buf d) = Some (Inl io_EOF)" for n k by simp
  then show ?thesis unfolding trailing_decodes_def Decode_def by simp
next
  case (Cons c r)
  with assms have c: "c = CHR '']'' \<or> c = CHR ''}''" by (simp add: More_def peek_skip_space)
  then have "scan_scalar (c # r) = Inl syntax_error"
    by (elim disjE) (simp_all add: scan_scalar_def is_digit_def)
  with Cons c have "scan_doc (Suc n) k (buf d) = Some (Inl syntax_error)" for n k
    by (elim disjE) simp_all
  then show ?thesis unfolding trailing_decodes_def Decode_def by simp
qed

lemma ParseStrict_eq:
  "ParseStrict input =
     (case parse_value \<lparr>buf = input, tokenState = tokenTopValue, tokenStack = []\<rparr> of
        Inl err \<Rightarrow> Inl (invalid_input err)
      | Inr (value, dec') \<Rightarrow>
          if More dec' then reject CodeCanonicalInvalid ''unexpected trailing json value'' else Inr value)"
proof -
  let ?d = "\<lparr>buf = input, tokenState = tokenTopValue, tokenStack = []\<rparr>"
  have "parseValue (fuel_for ?d) ?d = Some (parse_value ?d)"
    by (rule parse_enough) (simp add: fuel_for_def)
  then show ?thesis
    by (auto simp: ParseStrict_def Let_def trailing_after_value split: sum.split prod.split)
qed

end
