(* ===== verification/Canonical_Laws.thy ===== *)
theory Canonical_Laws
  imports Canonical
begin

text \<open>
  What \<^verbatim>\<open>ParseStrict\<close> makes of a text written by \<^verbatim>\<open>json.Marshal\<close> (\<open>ParseStrict_encode\<close>: exactly
  the value of the document, with the same errors), and the laws of the canonical form that
  follow: the writer's output parses back to the same value, canonicalisation is idempotent, and
  equal canonical texts mean equal values up to the order of object members.
\<close>

section \<open>The value of a document\<close>

fun put_members :: "(string \<times> jvalue) list \<Rightarrow> (string \<times> jvalue result) list \<Rightarrow> (string \<times> jvalue) list result" where
  "put_members obj [] = Inr obj"
| "put_members obj ((k, r) # ms) =
     (if k \<in> fst ` set obj then Inl duplicate_field
      else and_then r (\<lambda>v. put_members (obj @ [(k, v)]) ms))"

fun doc_value :: "jdoc \<Rightarrow> jvalue result" where
  "doc_value DNull = Inr JNull"
| "doc_value (DBool b) = Inr (JBool b)"
| "doc_value (DStr s) = Inr (JStr (to_valid s))"
| "doc_value (DNum s) = and_then (parse_number s) (\<lambda>i. Inr (JInt i))"
| "doc_value (DArr ds) = and_then (collect (map doc_value ds)) (\<lambda>vs. Inr (JArr vs))"
| "doc_value (DObj ms) =
     and_then (put_members [] (map (\<lambda>(k, d). (to_valid k, doc_value d)) ms)) (\<lambda>m. Inr (JObj m))"

section \<open>Tokens of encoded text\<close>

abbreviation at :: "bytes \<Rightarrow> tok_state \<Rightarrow> tok_state list \<Rightarrow> decoder" where
  "at s st stk \<equiv> \<lparr>buf = s, tokenState = st, tokenStack = stk\<rparr>"

lemma allowed_simps [simp]:
  "tokenValueAllowed tokenTopValue" "tokenValueAllowed tokenArrayStart"
  "tokenValueAllowed tokenArrayValue" "tokenValueAllowed tokenObjectValue"
  by (simp_all add: tokenValueAllowed_def)

lemma value_end_simps [simp]:
  "tokenValueEnd tokenArrayStart = tokenArrayComma" "tokenValueEnd tokenArrayValue = tokenArrayComma"
  "tokenValueEnd tokenObjectValue = tokenObjectComma" "tokenValueEnd tokenTopValue = tokenTopValue"
  by (simp_all add: tokenValueEnd_def)

lemma Token_open:
  "tokenValueAllowed st \<Longrightarrow> Token (at (CHR ''['' # r) st stk) = Inr (TDelim (CHR ''[''), at r tokenArrayStart (st # stk))"
  "tokenValueAllowed st \<Longrightarrow> Token (at (CHR ''{'' # r) st stk) = Inr (TDelim (CHR ''{''), at r tokenObjectStart (st # stk))"
  by (simp_all add: Token_def json_space_def)

lemma expect_end_array:
  "st = tokenArrayStart \<or> st = tokenArrayComma \<Longrightarrow>
     expect_end (CHR '']'') msg v (at (CHR '']'' # r) st (st' # stk)) = Inr (v, at r (tokenValueEnd st') stk)"
  by (auto simp: expect_end_def Token_def json_space_def close_delim_def)

lemma expect_end_object:
  "st = tokenObjectStart \<or> st = tokenObjectComma \<Longrightarrow>
     expect_end (CHR ''}'') msg v (at (CHR ''}'' # r) st (st' # stk)) = Inr (v, at r (tokenValueEnd st') stk)"
  by (auto simp: expect_end_def Token_def json_space_def close_delim_def)

lemma Token_key:
  assumes "st = tokenObjectStart \<or> st = tokenObjectKey"
  shows "Token (at (quote k @ r) st stk) = Inr (TStr (to_valid k), at r tokenObjectColon stk)"
  using assms lex_quote_body[of k r]
  by (auto simp: Token_def json_space_def quote_def scan_string_def)

lemma Token_separators:
  "Token (at (CHR '','' # r) tokenArrayComma stk) = Token (at r tokenArrayValue stk)"
  "Token (at (CHR '','' # r) tokenObjectComma stk) = Token (at r tokenObjectKey stk)"
  "Token (at (CHR '':'' # r) tokenObjectColon stk) = Token (at r tokenObjectValue stk)"
  by (simp_all add: Token_def json_space_def)

lemma parse_value_separators:
  "parse_value (at (CHR '','' # r) tokenArrayComma stk) = parse_value (at r tokenArrayValue stk)"
  "parse_value (at (CHR '':'' # r) tokenObjectColon stk) = parse_value (at r tokenObjectValue stk)"
  by (simp_all add: parse_value_eq Token_separators)

definition plain_start :: "char \<Rightarrow> bool" where
  "plain_start c \<longleftrightarrow> \<not> json_space c \<and> c \<notin> {CHR ''['', CHR '']'', CHR ''{'', CHR ''}'', CHR '':'', CHR '',''}"

lemma Token_scalar:
  assumes "plain_start c" and "tokenValueAllowed st" and "scan_scalar (c # r) = Inr (t, rest)"
    and "st \<noteq> tokenObjectStart" "st \<noteq> tokenObjectKey"
  shows "Token (at (c # r) st stk) = Inr (t, at rest (tokenValueEnd st) stk)"
  using assms by (simp add: Token_def plain_start_def)

lemma allowed_not_key: "tokenValueAllowed st \<Longrightarrow> st \<noteq> tokenObjectStart \<and> st \<noteq> tokenObjectKey"
  by (auto simp: tokenValueAllowed_def)

lemma digit_plain: "is_digit c \<Longrightarrow> plain_start c \<and> c \<noteq> DQUOTE \<and> c \<noteq> CHR ''-''"
  by (auto simp: is_digit_def plain_start_def json_space_def)

lemma scan_number_doc:
  assumes "lex_number s = Some (s, [])" and "num_end rest"
  obtains c r where "s = c # r" "plain_start c" "scan_scalar (s @ rest) = Inr (TNum s, rest)"
proof -
  obtain c r where s: "s = c # r" and c: "c = CHR ''-'' \<or> is_digit c"
    using lex_number_first[OF assms(1)] by blast
  have "plain_start (CHR ''-'')" by (simp add: plain_start_def json_space_def)
  with c digit_plain[of c] have "plain_start c" by blast
  moreover have "scan_scalar (s @ rest) = Inr (TNum s, rest)"
    using c digit_plain[of c] lex_number_append[OF assms]
    by (auto simp: s scan_scalar_def scan_number_def)
  ultimately show thesis using s that by blast
qed

section \<open>Parsing an encoded document\<close>

lemma commas_Cons: "commas (x # xs) = x @ concat (map (\<lambda>y. CHR '','' # y) xs)"
  by (induction xs arbitrary: x) auto

lemma encode_first:
  assumes "doc_ok d"
  obtains c t where "encode d = c # t" "\<not> json_space c" "c \<noteq> CHR '']''" "c \<noteq> CHR ''}''"
proof (cases d)
  case (DNum s)
  with assms have "lex_number s = Some (s, [])" by simp
  then obtain c r where "s = c # r" "plain_start c" by (rule scan_number_doc[OF _ num_end_simps(1)])
  with DNum that[of c r] show ?thesis by (simp add: plain_start_def)
next
  case (DBool b)
  then show ?thesis by (cases b) (simp_all add: that json_space_def)
qed (simp_all add: quote_def json_space_def that)

lemma More_simps [simp]:
  "\<not> More (at (CHR '']'' # r) st stk)" "\<not> More (at (CHR ''}'' # r) st stk)"
  "More (at (CHR '','' # r) st stk)" "More (at (quote k @ r) st stk)"
  "\<not> More (at [] st stk)"
  by (simp_all add: More_def json_space_def quote_def)

lemma More_encode: "doc_ok d \<Longrightarrow> More (at (encode d @ r) st stk)"
  by (erule encode_first) (simp add: More_def)

text \<open>The array loop after its first element, and the member loop, given the law for the parts.\<close>

definition parses :: "jdoc \<Rightarrow> bool" where
  "parses d \<longleftrightarrow> (\<forall>st stk rest. tokenValueAllowed st \<longrightarrow> num_end rest \<longrightarrow>
     parse_value (at (encode d @ rest) st stk) =
       and_then (doc_value d) (\<lambda>v. Inr (v, at rest (tokenValueEnd st) stk)))"

lemma parse_array_tail:
  assumes "\<forall>d\<in>set ds. parses d"
  shows "parse_array arr (at (concat (map (\<lambda>d. CHR '','' # encode d) ds) @ CHR '']'' # rest) tokenArrayComma stk) =
    and_then (collect (map doc_value ds)) (\<lambda>vs. Inr (arr @ vs, at (CHR '']'' # rest) tokenArrayComma stk))"
  using assms
proof (induction ds arbitrary: arr)
  case Nil
  then show ?case by (subst parse_array_eq) simp
next
  case (Cons d ds)
  let ?r = "concat (map (\<lambda>d. CHR '','' # encode d) ds) @ CHR '']'' # rest"
  have "num_end ?r" by (cases ds) simp_all
  then have "parse_value (at (CHR '','' # encode d @ ?r) tokenArrayComma stk) =
      and_then (doc_value d) (\<lambda>v. Inr (v, at ?r tokenArrayComma stk))"
    using Cons.prems by (simp add: parse_value_separators parses_def)
  then show ?case
    using Cons by (subst parse_array_eq) (cases "doc_value d"; simp add: and_then_assoc)
qed

lemma parse_object_step:
  assumes "parses d" and "num_end r"
    and "Token (at s st stk) = Inr (TStr (to_valid k), at (CHR '':'' # encode d @ r) tokenObjectColon stk)"
    and "More (at s st stk)"
  shows "parse_object obj (at s st stk) =
    (if to_valid k \<in> fst ` set obj then Inl duplicate_field
     else and_then (doc_value d) (\<lambda>v. parse_object (obj @ [(to_valid k, v)]) (at r tokenObjectComma stk)))"
proof -
  have "parse_value (at (CHR '':'' # encode d @ r) tokenObjectColon stk) =
      and_then (doc_value d) (\<lambda>v. Inr (v, at r tokenObjectComma stk))"
    using assms(1,2) by (simp add: parse_value_separators parses_def)
  with assms(3,4) show ?thesis
    by (subst parse_object_eq) (simp add: and_then_assoc)
qed

definition member_text :: "string \<times> jdoc \<Rightarrow> bytes" where
  "member_text m = quote (fst m) @ '':'' @ encode (snd m)"

lemma parse_object_tail:
  assumes "\<forall>m\<in>set ms. parses (snd m)"
  shows "parse_object obj (at (concat (map (\<lambda>m. CHR '','' # member_text m) ms) @ CHR ''}'' # rest) tokenObjectComma stk) =
    and_then (put_members obj (map (\<lambda>(k, d). (to_valid k, doc_value d)) ms))
      (\<lambda>m. Inr (m, at (CHR ''}'' # rest) tokenObjectComma stk))"
  using assms
proof (induction ms arbitrary: obj)
  case Nil
  then show ?case by (subst parse_object_eq) simp
next
  case (Cons m ms)
  obtain k d where m: "m = (k, d)" by force
  let ?r = "concat (map (\<lambda>m. CHR '','' # member_text m) ms) @ CHR ''}'' # rest"
  have e: "num_end ?r" by (cases ms) simp_all
  have p: "parses d" using Cons.prems by (simp add: m)
  have t: "Token (at (CHR '','' # quote k @ CHR '':'' # encode d @ ?r) tokenObjectComma stk) =
      Inr (TStr (to_valid k), at (CHR '':'' # encode d @ ?r) tokenObjectColon stk)"
    by (simp add: Token_separators Token_key)
  show ?case
    using parse_object_step[OF p e t] Cons by (simp add: m member_text_def and_then_assoc)
qed

lemma parses_scalar:
  assumes "plain_start c" and "encode d = c # r" and "\<And>rest. num_end rest \<Longrightarrow> scan_scalar (c # r @ rest) = Inr (t, rest)"
    and "\<And>d1 :: decoder. (case t of
         TNum s \<Rightarrow> and_then (parse_number s) (\<lambda>i. Inr (JInt i, d1))
       | TStr s \<Rightarrow> Inr (JStr s, d1)
       | TBool b \<Rightarrow> Inr (JBool b, d1)
       | TNull \<Rightarrow> Inr (JNull, d1)) = and_then (doc_value d) (\<lambda>v. Inr (v, d1))"
    and "\<forall>x. t \<noteq> TDelim x"
  shows "parses d"
  unfolding parses_def
proof (intro allI impI)
  fix st stk rest
  assume st: "tokenValueAllowed st" and "num_end rest"
  with assms allowed_not_key[OF st] have "Token (at (encode d @ rest) st stk) = Inr (t, at rest (tokenValueEnd st) stk)"
    by (simp add: Token_scalar)
  with assms(4,5) show "parse_value (at (encode d @ rest) st stk) =
      and_then (doc_value d) (\<lambda>v. Inr (v, at rest (tokenValueEnd st) stk))"
    by (subst parse_value_eq) (cases t; simp)
qed

lemma starts_with_append [simp]: "starts_with w (w @ s)"
  by (induction w) auto

lemma parses_array:
  assumes "\<forall>d\<in>set ds. parses d \<and> doc_ok d"
  shows "parses (DArr ds)"
  unfolding parses_def
proof (intro allI impI)
  fix st stk rest
  assume st: "tokenValueAllowed st" and "num_end rest"
  have "parse_array [] (at (commas (map encode ds) @ CHR '']'' # rest) tokenArrayStart (st # stk)) =
      and_then (collect (map doc_value ds)) (\<lambda>vs. Inr (vs,
        at (CHR '']'' # rest) (if ds = [] then tokenArrayStart else tokenArrayComma) (st # stk)))"
  proof (cases ds)
    case Nil
    then show ?thesis by (subst parse_array_eq) simp
  next
    case (Cons d ds')
    let ?r = "concat (map (\<lambda>d. CHR '','' # encode d) ds') @ CHR '']'' # rest"
    have "num_end ?r" by (cases ds') simp_all
    then have v: "parse_value (at (encode d @ ?r) tokenArrayStart (st # stk)) =
        and_then (doc_value d) (\<lambda>v. Inr (v, at ?r tokenArrayComma (st # stk)))"
      using assms by (simp add: Cons parses_def)
    have c: "commas (map encode ds) @ CHR '']'' # rest = encode d @ ?r"
      by (simp add: Cons commas_Cons comp_def)
    have m: "More (at (encode d @ ?r) tokenArrayStart (st # stk))"
      using assms by (intro More_encode) (simp add: Cons)
    show ?thesis unfolding c
      using parse_array_tail[of ds'] assms
      by (subst parse_array_eq) (simp add: m v and_then_assoc Cons)
  qed
  then show "parse_value (at (encode (DArr ds) @ rest) st stk) =
      and_then (doc_value (DArr ds)) (\<lambda>v. Inr (v, at rest (tokenValueEnd st) stk))"
    using st by (subst parse_value_eq) (simp add: Token_open and_then_assoc expect_end_array)
qed

lemma parses_object:
  assumes "\<forall>m\<in>set ms. parses (snd m)"
  shows "parses (DObj ms)"
  unfolding parses_def
proof (intro allI impI)
  fix st stk rest
  assume st: "tokenValueAllowed st" and "num_end rest"
  have mt: "(\<lambda>(k, d). quote k @ CHR '':'' # encode d) = member_text"
    by (auto simp: member_text_def)
  have "parse_object [] (at (commas (map member_text ms) @ CHR ''}'' # rest) tokenObjectStart (st # stk)) =
      and_then (put_members [] (map (\<lambda>(k, d). (to_valid k, doc_value d)) ms)) (\<lambda>m. Inr (m,
        at (CHR ''}'' # rest) (if ms = [] then tokenObjectStart else tokenObjectComma) (st # stk)))"
  proof (cases ms)
    case Nil
    then show ?thesis by (subst parse_object_eq) simp
  next
    case (Cons m ms')
    obtain k d where m: "m = (k, d)" by force
    let ?r = "concat (map (\<lambda>m. CHR '','' # member_text m) ms') @ CHR ''}'' # rest"
    have e: "num_end ?r" by (cases ms') simp_all
    have p: "parses d" using assms by (simp add: Cons m)
    have t: "Token (at (quote k @ CHR '':'' # encode d @ ?r) tokenObjectStart (st # stk)) =
        Inr (TStr (to_valid k), at (CHR '':'' # encode d @ ?r) tokenObjectColon (st # stk))"
      by (simp add: Token_key)
    have c: "commas (map member_text ms) @ CHR ''}'' # rest = quote k @ CHR '':'' # encode d @ ?r"
      by (simp add: Cons commas_Cons comp_def m member_text_def)
    show ?thesis unfolding c
      using parse_object_step[OF p e t] parse_object_tail[of ms'] assms
      by (simp add: Cons m and_then_assoc)
  qed
  then show "parse_value (at (encode (DObj ms) @ rest) st stk) =
      and_then (doc_value (DObj ms)) (\<lambda>v. Inr (v, at rest (tokenValueEnd st) stk))"
    using st by (subst parse_value_eq) (simp add: Token_open and_then_assoc expect_end_object mt)
qed

lemma parses_doc: "doc_ok d \<Longrightarrow> parses d"
proof (induction d)
  case DNull
  show ?case by (rule parses_scalar[of "CHR ''n''" _ "''ull''" TNull])
      (simp_all add: plain_start_def json_space_def scan_scalar_def scan_literal_def is_digit_def)
next
  case (DBool b)
  show ?case
  proof (cases b)
    case True
    then show ?thesis by (intro parses_scalar[of "CHR ''t''" _ "''rue''" "TBool True"])
      (simp_all add: plain_start_def json_space_def scan_scalar_def scan_literal_def is_digit_def)
  next
    case False
    then show ?thesis by (intro parses_scalar[of "CHR ''f''" _ "''alse''" "TBool False"])
      (simp_all add: plain_start_def json_space_def scan_scalar_def scan_literal_def is_digit_def)
  qed
next
  case (DStr s)
  show ?case by (rule parses_scalar[of DQUOTE _ "quote_body s @ [DQUOTE]" "TStr (to_valid s)"])
      (simp_all add: plain_start_def json_space_def scan_scalar_def scan_string_def lex_quote_body quote_def)
next
  case (DNum s)
  then have s: "lex_number s = Some (s, [])" by simp
  then obtain c r where c: "s = c # r" "plain_start c" by (rule scan_number_doc[OF _ num_end_simps(1)])
  have "scan_scalar (s @ rest) = Inr (TNum s, rest)" if "num_end rest" for rest
    using scan_number_doc[OF s that] by blast
  with c show ?case by (intro parses_scalar[of c _ r "TNum s"]) (simp_all add: and_then_assoc)
next
  case (DArr ds)
  then show ?case by (intro parses_array) simp
next
  case (DObj ms)
  then show ?case by (intro parses_object) (metis doc_ok.simps(3) prod.collapse snds.intros)
qed

theorem ParseStrict_encode:
  assumes "doc_ok d"
  shows "ParseStrict (encode d) = (case doc_value d of Inl e \<Rightarrow> Inl (invalid_input e) | Inr v \<Rightarrow> Inr v)"
proof -
  have "parse_value (at (encode d @ []) tokenTopValue []) =
      and_then (doc_value d) (\<lambda>v. Inr (v, at [] tokenTopValue []))"
    using parses_doc[OF assms, unfolded parses_def, rule_format, of tokenTopValue "[]" "[]"] by simp
  then show ?thesis by (cases "doc_value d") (simp_all add: ParseStrict_eq)
qed

section \<open>Well-formed values and the canonical form\<close>

fun value_ok :: "jvalue \<Rightarrow> bool" where
  "value_ok (JStr s) = valid_utf8 s"
| "value_ok (JInt i) = int64_ok i"
| "value_ok (JArr vs) = list_all value_ok vs"
| "value_ok (JObj m) = (distinct (map fst m) \<and> list_all (\<lambda>(k, v). valid_utf8 k \<and> value_ok v) m)"
| "value_ok (JOther t) = False"
| "value_ok _ = True"

fun norm :: "jvalue \<Rightarrow> jvalue" where
  "norm (JArr vs) = JArr (map norm vs)"
| "norm (JObj m) = JObj (sort_key fst (map (\<lambda>(k, v). (k, norm v)) m))"
| "norm v = v"

fun value_doc :: "jvalue \<Rightarrow> jdoc" where
  "value_doc JNull = DNull"
| "value_doc (JBool b) = DBool b"
| "value_doc (JStr s) = DStr s"
| "value_doc (JInt i) = DInt i"
| "value_doc (JArr vs) = DArr (map value_doc vs)"
| "value_doc (JObj m) = DObj (sort_key fst (map (\<lambda>(k, v). (k, value_doc v)) m))"
| "value_doc (JOther t) = DNull"

lemma collect_Inr: "collect (map (\<lambda>x. Inr (f x)) xs) = Inr (map f xs)"
  by (induction xs) auto

lemma encode_DInt [simp]: "encode (DInt i) = show_int i"
  by (simp add: DInt_def)

lemma writeCanonical_doc: "value_ok v \<Longrightarrow> writeCanonical v = Inr (encode (value_doc v))"
proof (induction v)
  case (JArr vs)
  then have "map writeCanonical vs = map (\<lambda>v. Inr (encode (value_doc v))) vs"
    by (auto simp: list_all_iff)
  then have "collect (map writeCanonical vs) = Inr (map (\<lambda>v. encode (value_doc v)) vs)"
    by (simp only: collect_Inr)
  then show ?case by (simp add: comp_def)
next
  case (JObj m)
  let ?es = "map (\<lambda>(k, x). (k, writeCanonical x)) m"
  let ?fs = "map (\<lambda>(k, x). (k, value_doc x)) m"
  have es: "?es = map (\<lambda>(k, d). (k, Inr (encode d))) ?fs"
    using JObj by (fastforce simp: list_all_iff)
  have d: "distinct (map fst ?fs)" using JObj by (simp add: comp_def case_prod_beta)
  have keys: "sort (map fst m) = sort (map fst ?fs)" by (simp add: comp_def case_prod_beta)
  have look: "map_of ?es k = map_option (\<lambda>d. Inr (encode d)) (map_of ?fs k)" for k
    unfolding es map_of_map by simp
  have "map (\<lambda>k. and_then (the (map_of ?es k)) (\<lambda>b. Inr (quote k @ '':'' @ b))) (sort (map fst m)) =
      map (\<lambda>k. Inr (quote k @ '':'' @ encode (the (map_of ?fs k)))) (sort (map fst ?fs))"
    unfolding keys look
  proof (intro map_cong refl)
    fix k
    assume "k \<in> set (sort (map fst ?fs))"
    then have "map_of ?fs k \<noteq> None" unfolding map_of_eq_None_iff by (simp only: set_sort set_map not_not)
    then show "and_then (the (map_option (\<lambda>d. Inr (encode d)) (map_of ?fs k))) (\<lambda>b. Inr (quote k @ '':'' @ b)) =
        Inr (quote k @ '':'' @ encode (the (map_of ?fs k)))" by auto
  qed
  also have "collect \<dots> = Inr (map (\<lambda>(k, d). quote k @ '':'' @ encode d)
      (map (\<lambda>k. (k, the (map_of ?fs k))) (sort (map fst ?fs))))"
    by (simp only: collect_Inr map_map comp_def prod.case)
  finally show ?case unfolding sort_key_lookup[OF d] by simp
qed simp_all

lemma value_doc_ok: "doc_ok (value_doc v)"
proof (induction v)
  case (JObj m)
  then show ?case by fastforce
qed simp_all

lemma show_int_plain: "c \<in> set (show_int i) \<Longrightarrow> c \<noteq> CHR ''.'' \<and> c \<noteq> CHR ''e'' \<and> c \<noteq> CHR ''E''"
  using show_nat_digits[of "nat i"] show_nat_digits[of "nat (- i)"]
  by (auto simp: show_int_def is_digit_def list_all_iff split: if_splits)

lemma show_int_zero: "hd (show_int i) = CHR ''0'' \<Longrightarrow> length (show_int i) = 1"
proof -
  assume h: "hd (show_int i) = CHR ''0''"
  then have "0 \<le> i" by (auto simp: show_int_def split: if_splits)
  with h show_nat_zero[of "nat i"] have "i = 0" by (cases "0 < i") (simp_all add: show_int_def)
  then show ?thesis by (simp add: show_int_def show_nat_0)
qed

lemma show_int_minus_zero: "\<not> starts_with ''-0'' (show_int i)"
proof (cases "i < 0")
  case True
  obtain c r where c: "show_nat (nat (- i)) = c # r" using show_nat_Nil by (cases "show_nat (nat (- i))") auto
  with True show_nat_zero[of "nat (- i)"] show ?thesis by (simp add: show_int_def)
next
  case False
  obtain c r where c: "show_nat (nat i) = c # r" using show_nat_Nil by (cases "show_nat (nat i)") auto
  with False show_nat_not_minus[OF c] show ?thesis by (auto simp: show_int_def)
qed

lemma parse_number_show_int: "parse_number (show_int i) = ParseInt (show_int i)"
  using show_int_plain[of _ i] show_int_zero[of i] show_int_minus_zero[of i]
  by (auto simp: parse_number_def list_ex_iff)

lemma parse_number_ok: "int64_ok i \<Longrightarrow> parse_number (show_int i) = Inr i"
  by (simp add: parse_number_show_int ParseInt_show_int)

lemma put_members_Inr:
  "distinct (map fst obj @ map fst ms) \<Longrightarrow>
     put_members obj (map (\<lambda>(k, v). (k, Inr v)) ms) = Inr (obj @ ms)"
  by (induction ms arbitrary: obj) (auto simp: image_iff)

lemma doc_value_value_doc: "value_ok v \<Longrightarrow> doc_value (value_doc v) = Inr (norm v)"
proof (induction v)
  case (JInt i)
  then show ?case by (simp add: DInt_def parse_number_ok)
next
  case (JArr vs)
  then have "map (doc_value \<circ> value_doc) vs = map (\<lambda>v. Inr (norm v)) vs"
    by (auto simp: list_all_iff)
  then have "collect (map (doc_value \<circ> value_doc) vs) = Inr (map norm vs)"
    by (simp only: collect_Inr)
  then show ?case by simp
next
  case (JObj m)
  have s: "sort_key fst (map (\<lambda>(k, v). (k, f v)) m) = map (\<lambda>(k, v). (k, f v)) (sort_key fst m)"
    for f :: "jvalue \<Rightarrow> 'a" by (rule sort_key_map) auto
  have "map (\<lambda>(k, d). (to_valid k, doc_value d)) (map (\<lambda>(k, v). (k, value_doc v)) (sort_key fst m))
      = map (\<lambda>(k, v). (k, Inr v)) (map (\<lambda>(k, v). (k, norm v)) (sort_key fst m))"
    using JObj by (fastforce simp: list_all_iff to_valid_id)
  moreover have "distinct (map fst (map (\<lambda>(k, v). (k, norm v)) (sort_key fst m)))"
    using JObj by (simp add: comp_def case_prod_beta map_fst_sort_key)
  ultimately have "put_members [] (map (\<lambda>(k, d). (to_valid k, doc_value d))
      (map (\<lambda>(k, v). (k, value_doc v)) (sort_key fst m))) = Inr (map (\<lambda>(k, v). (k, norm v)) (sort_key fst m))"
    using put_members_Inr[of "[]" "map (\<lambda>(k, v). (k, norm v)) (sort_key fst m)"] by (simp only: list.map append_Nil simp_thms)
  then show ?case by (simp only: value_doc.simps doc_value.simps norm.simps s and_then_simps)
qed (simp_all add: to_valid_id)

section \<open>What the parser returns is well-formed\<close>

lemma valid_ascii_piece: "byte_val c < 128 \<Longrightarrow> valid_utf8 ([c] @ t) = valid_utf8 t"
  by (simp add: valid_utf8_ascii del: valid_utf8.simps(2))

lemma unescape_u_valid: "unescape_u s = Some (v, r) \<Longrightarrow> valid_utf8 (v @ t) = valid_utf8 t"
  by (auto simp: unescape_u_def valid_EncodeRune split: option.splits if_splits)

lemma unescape_valid: "unescape s = Some (v, r) \<Longrightarrow> valid_utf8 (v @ t) = valid_utf8 t"
  by (cases s) (auto simp del: valid_utf8.simps(2) append.simps
      simp: valid_ascii_piece unescape_u_valid split: if_splits)

lemma lex_char_valid: "lex_char s = Some (v, r) \<Longrightarrow> valid_utf8 (v @ t) = valid_utf8 t"
  by (cases s) (auto simp del: valid_utf8.simps(2) append.simps
      simp: valid_ascii_piece valid_EncodeRune unescape_valid split: if_splits)

lemma lex_string_valid: "lex_string s = Some (v, r) \<Longrightarrow> valid_utf8 v"
proof (induction s arbitrary: v r rule: lex_string.induct)
  case (1 s)
  show ?case
  proof (cases s)
    case Nil
    with 1 show ?thesis by (simp add: lex_string.simps)
  next
    case (Cons c t)
    show ?thesis
    proof (cases "c = DQUOTE")
      case True
      with 1 Cons show ?thesis by simp
    next
      case False
      with 1(2) Cons obtain o1 r1 v' where l: "lex_char s = Some (o1, r1)" "lex_string r1 = Some (v', r)"
        and v: "v = o1 @ v'"
        by (subst (asm) lex_string.simps) (auto split: option.splits simp del: lex_char.simps)
      with 1(1)[OF Cons False l(1) refl l(2)] lex_char_valid[OF l(1)] show ?thesis by simp
    qed
  qed
qed

lemma scan_string_valid: "scan_string s = Inr (TStr v, r) \<Longrightarrow> valid_utf8 v"
  by (auto simp: scan_string_def split: option.splits dest: lex_string_valid)

lemma scan_scalar_valid: "scan_scalar s = Inr (TStr v, r) \<Longrightarrow> valid_utf8 v"
  by (cases s)
     (simp_all add: scan_scalar_def scan_number_def scan_literal_def scan_string_valid
        split: if_split_asm option.split_asm prod.split_asm)

lemma token_loop_valid: "token_loop s st stk = Inr (TStr v, d) \<Longrightarrow> valid_utf8 v"
proof (induction s arbitrary: st stk)
  case (Cons c r)
  have scans: "and_then (scan_scalar (c # r)) (\<lambda>(t, rest). Inr (t, \<lparr>buf = rest, tokenState = st', tokenStack = stk\<rparr>))
        = Inr (TStr v, d) \<Longrightarrow> valid_utf8 v"
    "and_then (scan_string r) (\<lambda>(t, rest). Inr (t, \<lparr>buf = rest, tokenState = st', tokenStack = stk\<rparr>))
        = Inr (TStr v, d) \<Longrightarrow> valid_utf8 v" for st'
    by (auto simp: and_then_Inr_iff dest!: scan_scalar_valid scan_string_valid)
  have cd: "close_delim c r stk \<noteq> Inr (TStr v, d)" by (simp add: close_delim_def split: list.splits)
  from Cons(2) cd show ?case
    by (simp only: token_loop.simps split: if_split_asm; (auto dest: Cons(1) scans)?)
qed simp

lemma Token_valid: "Token d = Inr (TStr v, d') \<Longrightarrow> valid_utf8 v"
  by (auto simp: Token_def dest: token_loop_valid)

lemma parse_number_int64: "parse_number s = Inr i \<Longrightarrow> int64_ok i"
  by (auto simp: parse_number_def ParseInt_def Let_def split: if_splits prod.splits)

abbreviation obj_ok :: "(string \<times> jvalue) list \<Rightarrow> bool" where
  "obj_ok m \<equiv> value_ok (JObj m)"

lemma parse_ok_aux:
  "(parseValue n dec = Some (Inr (v, d')) \<longrightarrow> value_ok v) \<and>
   (parse_members n obj dec = Some (Inr (m, d')) \<longrightarrow> obj_ok obj \<longrightarrow> obj_ok m) \<and>
   (parse_elems n arr dec = Some (Inr (vs, d')) \<longrightarrow> list_all value_ok arr \<longrightarrow> list_all value_ok vs)"
proof (induction n arbitrary: dec obj arr v m vs d')
  case (Suc n)
  note V = Suc[THEN conjunct1, rule_format] and M = Suc[THEN conjunct2, THEN conjunct1, rule_format]
    and E = Suc[THEN conjunct2, THEN conjunct2, rule_format]
  have "value_ok v" if p: "parseValue (Suc n) dec = Some (Inr (v, d'))"
  proof -
    from p obtain tok d1 where t: "Token dec = Inr (tok, d1)"
      by (auto simp: parseValue.simps then_run_Inr)
    with p M[of "[]" d1] E[of "[]" d1] show ?thesis
      by (cases tok) (auto simp: parseValue.simps then_run_Inr and_then_Inr_iff expect_end_def
          split: if_splits dest: Token_valid parse_number_int64)
  qed
  moreover have "obj_ok m" if p: "parse_members (Suc n) obj dec = Some (Inr (m, d'))" and o: "obj_ok obj"
  proof (cases "More dec")
    case True
    with p obtain tok d1 where t: "Token dec = Inr (tok, d1)"
      by (auto simp: parse_members.simps then_run_Inr)
    with p True obtain key v d2 where k: "tok = TStr key" "key \<notin> fst ` set obj"
      "parseValue n d1 = Some (Inr (v, d2))" "parse_members n (obj @ [(key, v)]) d2 = Some (Inr (m, d'))"
      by (cases tok) (auto simp: parse_members.simps then_run_Inr split: if_splits)
    have "obj_ok (obj @ [(key, v)])"
      using o k t V[OF k(3)] by (auto dest: Token_valid)
    with M[OF k(4)] show ?thesis by simp
  qed (use p o in \<open>simp add: parse_members.simps\<close>)
  moreover have "list_all value_ok vs" if p: "parse_elems (Suc n) arr dec = Some (Inr (vs, d'))"
    and o: "list_all value_ok arr"
  proof (cases "More dec")
    case True
    with p obtain v d2 where v: "parseValue n dec = Some (Inr (v, d2))"
      "parse_elems n (arr @ [v]) d2 = Some (Inr (vs, d'))" by (auto simp: parse_elems.simps then_run_Inr)
    with E[OF v(2)] o V[OF v(1)] show ?thesis by simp
  qed (use p o in \<open>simp add: parse_elems.simps\<close>)
  ultimately show ?case by blast
qed (simp add: parseValue.simps parse_members.simps parse_elems.simps)

lemma ParseStrict_ok: "ParseStrict s = Inr v \<Longrightarrow> value_ok v"
  using parse_ok_aux[THEN conjunct1]
  by (fastforce simp: ParseStrict_def Let_def split: option.splits sum.splits if_splits)

section \<open>Laws of the canonical form\<close>

lemma value_doc_norm: "value_ok v \<Longrightarrow> value_doc (norm v) = value_doc v"
proof (induction v)
  case (JArr vs)
  then show ?case by (auto simp: list_all_iff)
next
  case (JObj m)
  have s: "sort_key fst (map (\<lambda>(k, v). (k, f v)) m) = map (\<lambda>(k, v). (k, f v)) (sort_key fst m)"
    for f :: "jvalue \<Rightarrow> 'a" and m by (rule sort_key_map) auto
  have "map (\<lambda>(k, v). (k, value_doc v)) (map (\<lambda>(k, v). (k, norm v)) (sort_key fst m)) =
      map (\<lambda>(k, v). (k, value_doc v)) (sort_key fst m)"
    using JObj by (fastforce simp: list_all_iff)
  then show ?case
    by (simp only: norm.simps value_doc.simps s sort_key_id_if_sorted[OF sorted_sort_key])
qed simp_all

lemma value_ok_norm: "value_ok v \<Longrightarrow> value_ok (norm v)"
proof (induction v)
  case (JArr vs)
  then show ?case by (auto simp: list_all_iff)
next
  case (JObj m)
  have "map fst (map (\<lambda>(k, v). (k, norm v)) m) = map fst m" by auto
  with JObj have "distinct (map fst (sort_key fst (map (\<lambda>(k, v). (k, norm v)) m)))"
    by (simp only: map_fst_sort_key value_ok.simps) simp
  moreover have "list_all (\<lambda>(k, v). valid_utf8 k \<and> value_ok v) (sort_key fst (map (\<lambda>(k, v). (k, norm v)) m))"
    using JObj by (fastforce simp: list_all_iff)
  ultimately show ?case by (simp only: norm.simps value_ok.simps)
qed simp_all

lemma ParseStrict_canonical:
  assumes "value_ok v" and "writeCanonical v = Inr c"
  shows "ParseStrict c = Inr (norm v)"
  using assms ParseStrict_encode[OF value_doc_ok, of v]
  by (simp add: writeCanonical_doc doc_value_value_doc)

lemma writeCanonical_norm: "value_ok v \<Longrightarrow> writeCanonical (norm v) = writeCanonical v"
  by (simp add: writeCanonical_doc value_ok_norm value_doc_norm)

lemma writeCanonical_total: "value_ok v \<Longrightarrow> \<exists>c. writeCanonical v = Inr c"
  by (simp add: writeCanonical_doc)

lemma writeCanonical_inject:
  assumes "value_ok v" "value_ok w" "writeCanonical v = writeCanonical w"
  shows "norm v = norm w"
proof -
  have v: "writeCanonical v = Inr (encode (value_doc v))" by (rule writeCanonical_doc[OF assms(1)])
  then have "writeCanonical w = Inr (encode (value_doc v))" using assms(3) by simp
  with ParseStrict_canonical[OF assms(1) v] ParseStrict_canonical[OF assms(2)] show ?thesis by simp
qed

section \<open>Signature inputs\<close>

lemma value_ok_al_remove: "value_ok (JObj m) \<Longrightarrow> value_ok (JObj (al_remove k m))"
  by (auto simp: al_remove_def list_all_iff distinct_map_filter)

definition signed_part :: "(string \<times> jvalue) list \<Rightarrow> jvalue" where
  "signed_part m = JObj (al_remove ''signature'' m)"

lemma SignatureInput_eq:
  assumes "ParseStrict input = Inr (JObj m)"
  shows "SignatureInput ty input =
    Inr (signaturePrefix @ ty @ [NUL] @ encode (value_doc (signed_part m)))"
proof -
  have "value_ok (JObj (al_remove ''signature'' m))"
    using ParseStrict_ok[OF assms] by (rule value_ok_al_remove)
  from writeCanonical_doc[OF this] show ?thesis
    using assms by (simp add: SignatureInput_def MarshalValue_def signed_part_def
        del: writeCanonical.simps encode.simps value_doc.simps)
qed

lemma SignatureInput_Inr:
  assumes "SignatureInput ty input = Inr x"
  obtains m where "ParseStrict input = Inr (JObj m)" "value_ok (signed_part m)"
    "x = signaturePrefix @ ty @ [NUL] @ encode (value_doc (signed_part m))"
proof -
  obtain v where v: "ParseStrict input = Inr v"
    using assms by (cases "ParseStrict input") (simp_all add: SignatureInput_def)
  then obtain m where m: "ParseStrict input = Inr (JObj m)"
    using assms by (cases v) (simp_all add: SignatureInput_def)
  have "value_ok (signed_part m)"
    unfolding signed_part_def by (rule value_ok_al_remove[OF ParseStrict_ok[OF m]])
  moreover have "x = signaturePrefix @ ty @ [NUL] @ encode (value_doc (signed_part m))"
    using SignatureInput_eq[OF m, of ty] assms by (simp only: sum.inject)
  ultimately show ?thesis using m that by blast
qed

text \<open>
  A struct is written as an object whose keys are the field tags. Members other than the
  signature determine the signature input.
\<close>

definition struct_ok :: "(string \<times> jdoc) list \<Rightarrow> bool" where
  "struct_ok ms \<longleftrightarrow> distinct (map fst ms) \<and>
     (\<forall>(k, d)\<in>set ms. valid_utf8 k \<and> doc_ok d \<and> is_ok (doc_value d))"

definition member_value :: "string \<times> jdoc \<Rightarrow> string \<times> jvalue" where
  "member_value p = (fst p, projr (doc_value (snd p)))"

lemma struct_value:
  assumes "struct_ok ms"
  shows "doc_value (DObj ms) = Inr (JObj (map member_value ms))"
proof -
  have "map (\<lambda>(k, d). (to_valid k, doc_value d)) ms = map (\<lambda>(k, v). (k, Inr v)) (map member_value ms)"
    using assms by (fastforce simp: struct_ok_def member_value_def is_ok_iff to_valid_id)
  moreover have "distinct (map fst (map member_value ms))"
    using assms by (simp add: struct_ok_def member_value_def comp_def)
  ultimately show ?thesis
    using put_members_Inr[of "[]" "map member_value ms"] by (simp only: doc_value.simps) simp
qed

lemma ParseStrict_struct: "struct_ok ms \<Longrightarrow> ParseStrict (encode (DObj ms)) = Inr (JObj (map member_value ms))"
  using ParseStrict_encode[of "DObj ms"] struct_value[of ms]
  by (fastforce simp: struct_ok_def simp del: encode.simps doc_value.simps)

lemma signed_part_members:
  "signed_part (map member_value ms) = JObj (map member_value (filter (\<lambda>p. fst p \<noteq> ''signature'') ms))"
  by (simp add: signed_part_def al_remove_def filter_map comp_def member_value_def case_prod_beta)

lemma SignatureInput_struct:
  assumes "struct_ok ms"
  shows "SignatureInput ty (encode (DObj ms)) =
    Inr (signaturePrefix @ ty @ [NUL] @
      encode (value_doc (JObj (map member_value (filter (\<lambda>p. fst p \<noteq> ''signature'') ms)))))"
  unfolding SignatureInput_eq[OF ParseStrict_struct[OF assms]] signed_part_members ..

lemma SignatureInput_strip:
  assumes "struct_ok ms" "struct_ok ms'"
    and "filter (\<lambda>p. fst p \<noteq> ''signature'') ms = filter (\<lambda>p. fst p \<noteq> ''signature'') ms'"
  shows "SignatureInput ty (encode (DObj ms)) = SignatureInput ty (encode (DObj ms'))"
  by (simp only: SignatureInput_struct assms)

lemma SignatureInput_inject:
  assumes "NUL \<notin> set ty" "NUL \<notin> set ty'"
    and "SignatureInput ty a = Inr x" and "SignatureInput ty' b = Inr x"
  shows "ty = ty' \<and> (\<exists>m m'. ParseStrict a = Inr (JObj m) \<and> ParseStrict b = Inr (JObj m') \<and>
    norm (signed_part m) = norm (signed_part m'))"
proof -
  obtain m where m: "ParseStrict a = Inr (JObj m)" "value_ok (signed_part m)"
    "x = signaturePrefix @ ty @ [NUL] @ encode (value_doc (signed_part m))"
    using SignatureInput_Inr[OF assms(3)] by blast
  obtain m' where m': "ParseStrict b = Inr (JObj m')" "value_ok (signed_part m')"
    "x = signaturePrefix @ ty' @ [NUL] @ encode (value_doc (signed_part m'))"
    using SignatureInput_Inr[OF assms(4)] by blast
  have eq: "ty @ NUL # encode (value_doc (signed_part m)) = ty' @ NUL # encode (value_doc (signed_part m'))"
    using m(3) m'(3) by (simp del: encode.simps value_doc.simps)
  have e: "ty = ty'" "encode (value_doc (signed_part m)) = encode (value_doc (signed_part m'))"
    using append_sep_inject[OF eq assms(1,2)] by (rule conjunct1, rule conjunct2)
  have "norm (signed_part m) = norm (signed_part m')"
    using m(2) m'(2) e(2) by (intro writeCanonical_inject) (simp_all only: writeCanonical_doc)
  with e m m' show ?thesis by blast
qed

section \<open>Properties\<close>

text \<open>
  C14. The canonical form is a fixed point: canonicalising the output of \<^verbatim>\<open>Marshal\<close> succeeds and
  returns the same bytes.
\<close>

theorem Marshal_idempotent:
  assumes "Marshal input = Inr canon"
  shows "Marshal canon = Inr canon"
proof -
  obtain v where v: "ParseStrict input = Inr v" "writeCanonical v = Inr canon"
    using assms by (auto simp: Marshal_def and_then_Inr_iff)
  note ok = ParseStrict_ok[OF v(1)]
  show ?thesis
    using ParseStrict_canonical[OF ok v(2)] writeCanonical_norm[OF ok] v(2) by (simp add: Marshal_def)
qed

theorem Marshal_idempotent_witness:
  \<open>Marshal ''{"b":2,"a":1}'' = Inr ''{"a":1,"b":2}'' \<and> Marshal ''{"a":1,"b":2}'' = Inr ''{"a":1,"b":2}''\<close>
proof -
  have "Marshal ''{\"b\":2,\"a\":1}'' = Inr ''{\"a\":1,\"b\":2}''" by code_simp
  with Marshal_idempotent[OF this] show ?thesis by blast
qed

text \<open>
  C11. Two accepted inputs have the same canonical bytes exactly when they denote the same value
  up to the order of object members.
\<close>

theorem Marshal_equal_iff:
  assumes "ParseStrict a = Inr v" and "ParseStrict b = Inr w"
  shows "Marshal a = Marshal b \<longleftrightarrow> norm v = norm w"
proof
  assume "Marshal a = Marshal b"
  with assms show "norm v = norm w"
    by (intro writeCanonical_inject ParseStrict_ok) (simp_all add: Marshal_def)
next
  assume "norm v = norm w"
  then have "writeCanonical v = writeCanonical w"
    using writeCanonical_norm[OF ParseStrict_ok[OF assms(1)]] writeCanonical_norm[OF ParseStrict_ok[OF assms(2)]]
    by simp
  with assms show "Marshal a = Marshal b" by (simp add: Marshal_def)
qed

theorem Marshal_equal_iff_witness:
  \<open>Marshal ''{"b":2,"a":[]}'' = Marshal '' {"a":[],"b":2}'' \<and>
   Marshal ''{"a":1}'' \<noteq> Marshal ''{"a":"1"}''\<close>
proof -
  have p: "ParseStrict ''{\"b\":2,\"a\":[]}'' = Inr (JObj [(''b'', JInt 2), (''a'', JArr [])])"
    "ParseStrict '' {\"a\":[],\"b\":2}'' = Inr (JObj [(''a'', JArr []), (''b'', JInt 2)])"
    "ParseStrict ''{\"a\":1}'' = Inr (JObj [(''a'', JInt 1)])"
    "ParseStrict ''{\"a\":\"1\"}'' = Inr (JObj [(''a'', JStr ''1'')])"
    by code_simp+
  have "norm (JObj [(''b'', JInt 2), (''a'', JArr [])]) = norm (JObj [(''a'', JArr []), (''b'', JInt 2)])"
    by code_simp
  with Marshal_equal_iff[OF p(1,2)] Marshal_equal_iff[OF p(3,4)] show ?thesis by simp
qed

text \<open>
  C12. A signature input binds the object type and every member but the signature: two objects
  with the same input have the same type and the same value without \<^verbatim>\<open>signature\<close>, up to member
  order (type names contain no NUL byte).
\<close>

theorem SignatureInput_binds:
  assumes "NUL \<notin> set ty" "NUL \<notin> set ty'"
    and "SignatureInput ty a = Inr x" and "SignatureInput ty' b = Inr x"
  shows "ty = ty' \<and> (\<exists>m m'. ParseStrict a = Inr (JObj m) \<and> ParseStrict b = Inr (JObj m') \<and>
    norm (signed_part m) = norm (signed_part m'))"
  using assms by (rule SignatureInput_inject)

theorem SignatureInput_binds_witness:
  "\<exists>m m'. ParseStrict ''{\"b\":2,\"a\":1}'' = Inr (JObj m) \<and>
    ParseStrict ''{\"a\":1,\"signature\":\"x\",\"b\":2}'' = Inr (JObj m') \<and>
    norm (signed_part m) = norm (signed_part m')"
proof -
  have "SignatureInput ''t'' ''{\"b\":2,\"a\":1}'' = Inr (signaturePrefix @ ''t'' @ [NUL] @ ''{\"a\":1,\"b\":2}'')"
    "SignatureInput ''t'' ''{\"a\":1,\"signature\":\"x\",\"b\":2}'' =
      Inr (signaturePrefix @ ''t'' @ [NUL] @ ''{\"a\":1,\"b\":2}'')"
    by code_simp+
  from SignatureInput_binds[OF _ _ this] show ?thesis by simp
qed

text \<open>
  C13. Parsing what \<^verbatim>\<open>json.Marshal\<close> wrote returns exactly the value of the document: strings with
  their ill-formed bytes replaced, integers in the 64-bit range, and otherwise the error of the
  first float, oversized integer or duplicate member.
\<close>

theorem ParseStrict_json_Marshal:
  assumes "doc_ok d"
  shows "ParseStrict (encode d) = (case doc_value d of Inl e \<Rightarrow> Inl (invalid_input e) | Inr v \<Rightarrow> Inr v)"
  by (rule ParseStrict_encode[OF assms])

theorem ParseStrict_json_Marshal_witness:
  "ParseStrict (encode (DObj [(''n'', DNum ''1e3'')])) = Inl (invalid_input (StdError ''float values are not allowed'')) \<and>
   ParseStrict (encode (DObj [(''k'', DStr ''<a>''), (''n'', DInt (- 12))])) =
     Inr (JObj [(''k'', JStr ''<a>''), (''n'', JInt (- 12))])"
proof -
  have ok: "doc_ok (DObj [(''n'', DNum ''1e3'')])" "doc_ok (DObj [(''k'', DStr ''<a>''), (''n'', DInt (- 12))])"
    by code_simp+
  have n: "parse_number ''1e3'' = Inl (StdError ''float values are not allowed'')"
    "parse_number (show_int (- 12)) = Inr (- 12)"
    by code_simp+
  have v: "doc_value (DObj [(''n'', DNum ''1e3'')]) = Inl (StdError ''float values are not allowed'')"
    "doc_value (DObj [(''k'', DStr ''<a>''), (''n'', DInt (- 12))]) =
      Inr (JObj [(''k'', JStr ''<a>''), (''n'', JInt (- 12))])"
    using n by (simp_all add: to_valid_ascii DInt_def del: to_valid.simps(2))
  show ?thesis
    using ParseStrict_json_Marshal[OF ok(1)] ParseStrict_json_Marshal[OF ok(2)] unfolding v by (simp only: sum.case simp_thms)
qed

text \<open>
  C40. What the strict parser accepts is well-formed: member names are distinct, integers fit 64
  bits, strings are valid UTF-8; so the canonical writer never fails on it.
\<close>

theorem ParseStrict_well_formed:
  assumes "ParseStrict input = Inr v"
  shows "value_ok v \<and> (\<exists>canon. Marshal input = Inr canon)"
  using ParseStrict_ok[OF assms] writeCanonical_total[of v] assms by (simp add: Marshal_def)

theorem ParseStrict_well_formed_witness:
  "value_ok (JArr [JStr ''a'', JNull]) \<and> (\<exists>canon. Marshal ''[\"a\",null]'' = Inr canon)"
proof -
  have "ParseStrict ''[\"a\",null]'' = Inr (JArr [JStr ''a'', JNull])" by code_simp
  from ParseStrict_well_formed[OF this] show ?thesis .
qed

text \<open>
  C31. The trailing-data check is incomplete: after a complete value, a closing bracket or brace
  and anything behind it are ignored, so \<^verbatim>\<open>{}}\<close> is accepted as \<^verbatim>\<open>{}\<close>.
\<close>

theorem ParseStrict_ignores_closing_delimiter:
  assumes "doc_ok d" and "c = CHR '']'' \<or> c = CHR ''}''"
  shows "ParseStrict (encode d @ c # junk) = ParseStrict (encode d)"
proof -
  have p: "parse_value (at (encode d @ rest) tokenTopValue []) =
      and_then (doc_value d) (\<lambda>v. Inr (v, at rest tokenTopValue []))" if "num_end rest" for rest
    using parses_doc[OF assms(1), unfolded parses_def, rule_format, of tokenTopValue rest "[]"] that by simp
  have "num_end (c # junk)" "\<not> More (at (c # junk) tokenTopValue [])" using assms(2) by auto
  with p[of "c # junk"] p[of "[]"] show ?thesis
    by (cases "doc_value d") (simp_all add: ParseStrict_eq)
qed

theorem ParseStrict_ignores_closing_delimiter_witness:
  \<open>ParseStrict ''{}}junk'' = Inr (JObj [])\<close>
proof -
  have "ParseStrict (encode (DObj []) @ CHR ''}'' # ''junk'') = ParseStrict (encode (DObj []))"
    by (rule ParseStrict_ignores_closing_delimiter) simp_all
  moreover have "ParseStrict ''{}'' = Inr (JObj [])" by code_simp
  ultimately show ?thesis by simp
qed

end
