(* ===== verification/Go_Time.thy ===== *)
theory Go_Time
  imports Errors
begin

text \<open>
  The part of Go's \<^verbatim>\<open>time\<close> package the sources use. An instant is the number of
  nanoseconds since Go's zero time (1 January of year 1, UTC); a duration is a number of
  nanoseconds. All instants are in UTC, as every \<^verbatim>\<open>now.UTC()\<close> of the sources makes them.
  \<^verbatim>\<open>Time.MarshalJSON\<close> is RFC 3339 with up to nine fractional digits and fails outside the
  years 0 to 9999; the formatting is shown injective, so that a signature over the text of a
  timestamp binds the timestamp.
\<close>

type_synonym time = int
type_synonym duration = int

section \<open>Arithmetic\<close>

definition Second :: duration where "Second = 1000000000"
definition Minute :: duration where "Minute = 60 * Second"
definition Hour :: duration where "Hour = 60 * Minute"

abbreviation max_int64 :: int where "max_int64 \<equiv> 9223372036854775807"
abbreviation min_int64 :: int where "min_int64 \<equiv> - 9223372036854775808"

definition IsZero :: "time \<Rightarrow> bool" where "IsZero t \<longleftrightarrow> t = 0"
definition After :: "time \<Rightarrow> time \<Rightarrow> bool" where "After t u \<longleftrightarrow> u < t"
definition Before :: "time \<Rightarrow> time \<Rightarrow> bool" where "Before t u \<longleftrightarrow> t < u"
definition Add :: "time \<Rightarrow> duration \<Rightarrow> time" where "Add t d = t + d"

text \<open>\<^verbatim>\<open>Time.Sub\<close> saturates at the range of a 64-bit duration.\<close>

definition Sub :: "time \<Rightarrow> time \<Rightarrow> duration" where
  "Sub t u = max min_int64 (min max_int64 (t - u))"

definition Truncate :: "time \<Rightarrow> duration \<Rightarrow> time" where
  "Truncate t d = (if d \<le> 0 then t else t - t mod d)"

definition unix_epoch :: time where "unix_epoch = 62135596800 * Second"

definition UnixMilli :: "time \<Rightarrow> int" where
  "UnixMilli t = (t - unix_epoch) div 1000000"

text \<open>\<^verbatim>\<open>time.Duration(n) * time.Second\<close>: a 64-bit product, which wraps.\<close>

definition wrap_int64 :: "int \<Rightarrow> int" where
  "wrap_int64 x = (x + 9223372036854775808) mod 18446744073709551616 - 9223372036854775808"

definition seconds :: "int \<Rightarrow> duration" where
  "seconds n = wrap_int64 (n * Second)"

section \<open>RFC 3339 text\<close>

definition digit :: "int \<Rightarrow> char" where
  "digit n = char_of (48 + nat n)"

definition decimal_digits :: "char set" where
  "decimal_digits = set ''0123456789''"

definition time_chars :: "char set" where
  "time_chars = set ''0123456789-T:.Z''"

fun fixed :: "nat \<Rightarrow> int \<Rightarrow> string" where
  "fixed 0 n = []"
| "fixed (Suc w) n = fixed w (n div 10) @ [digit (n mod 10)]"

text \<open>
  The civil date of a day number. Days count from 1 March of year 0 so that the leap day is the
  last of its year: 400-year eras, then centuries, 4-year groups and years.
\<close>

record date =
  year :: int
  month :: int
  day :: int

definition civil :: "int \<Rightarrow> date" where
  "civil z =
     (let era = z div 146097; doe = z mod 146097;
          c = min 3 (doe div 36524); r = doe - c * 36524;
          q = r div 1461; s = r mod 1461;
          a = min 3 (s div 365); doy = s - a * 365;
          yoe = 100 * c + 4 * q + a;
          mp = (5 * doy + 2) div 153;
          d = doy - (153 * mp + 2) div 5 + 1;
          m = (if mp < 10 then mp + 3 else mp - 9)
      in \<lparr>year = era * 400 + yoe + (if mp < 10 then 0 else 1), month = m, day = d\<rparr>)"

definition day_number :: "time \<Rightarrow> int" where
  "day_number t = t div (86400 * Second) + 306"

definition second_of_day :: "time \<Rightarrow> int" where
  "second_of_day t = t mod (86400 * Second) div Second"

definition nanosecond :: "time \<Rightarrow> int" where
  "nanosecond t = t mod Second"

fun strip_zeros :: "string \<Rightarrow> string" where
  "strip_zeros [] = []"
| "strip_zeros (c # s) = (if c = CHR ''0'' then strip_zeros s else c # s)"

definition fraction :: "int \<Rightarrow> string" where
  "fraction ns = (if ns = 0 then [] else CHR ''.'' # rev (strip_zeros (rev (fixed 9 ns))))"

definition rfc3339 :: "time \<Rightarrow> string" where
  "rfc3339 t =
     (let dt = civil (day_number t); sod = second_of_day t in
      fixed 4 (year dt) @ ''-'' @ fixed 2 (month dt) @ ''-'' @ fixed 2 (day dt) @ ''T'' @
      fixed 2 (sod div 3600) @ '':'' @ fixed 2 (sod div 60 mod 60) @ '':'' @ fixed 2 (sod mod 60) @
      fraction (nanosecond t) @ ''Z'')"

definition year_ok :: "time \<Rightarrow> bool" where
  "year_ok t \<longleftrightarrow> 0 \<le> year (civil (day_number t)) \<and> year (civil (day_number t)) \<le> 9999"

definition MarshalTime :: "time \<Rightarrow> string result" where
  "MarshalTime t =
     (if year_ok t then Inr (rfc3339 t)
      else Inl (StdError ''Time.MarshalJSON: year outside of range [0,9999]''))"

lemmas time_simps [go_simps] = IsZero_def After_def Before_def Add_def Sub_def

section \<open>Properties\<close>

lemma Sub_gt_iff: "0 \<le> d \<Longrightarrow> d < max_int64 \<Longrightarrow> d < Sub t u \<longleftrightarrow> d < t - u"
  by (auto simp: Sub_def max_def min_def)

lemma length_fixed [simp]: "length (fixed w n) = w"
  by (induction w arbitrary: n) auto

lemma of_char_digit: "0 \<le> n \<Longrightarrow> n < 10 \<Longrightarrow> (of_char (digit n) :: nat) = 48 + nat n"
  by (simp add: digit_def)

lemma digit_inject: "0 \<le> m \<Longrightarrow> m < 10 \<Longrightarrow> 0 \<le> n \<Longrightarrow> n < 10 \<Longrightarrow> digit m = digit n \<longleftrightarrow> m = n"
  by (metis add_left_imp_eq eq_nat_nat_iff of_char_digit)

lemma fixed_inject:
  "0 \<le> m \<Longrightarrow> m < 10 ^ w \<Longrightarrow> 0 \<le> n \<Longrightarrow> n < 10 ^ w \<Longrightarrow> fixed w m = fixed w n \<Longrightarrow> m = n"
proof (induction w arbitrary: m n)
  case (Suc w)
  from Suc.prems have "m mod 10 = n mod 10"
    using digit_inject[of "m mod 10" "n mod 10"] by simp
  moreover have "m div 10 = n div 10"
    using Suc.prems by (intro Suc.IH) (simp_all add: div_less_iff_less_mult mult.commute)
  ultimately show ?case by (metis div_mod_decomp_int)
qed simp

lemma digit_in: "0 \<le> n \<Longrightarrow> n < 10 \<Longrightarrow> digit n \<in> decimal_digits"
proof -
  assume "0 \<le> n" "n < 10"
  then have "nat n \<in> set [0..<10]" by auto
  moreover have "\<forall>k\<in>set [0..<10]. (char_of (48 + k) :: char) \<in> set ''0123456789''"
    by code_simp
  ultimately show ?thesis unfolding digit_def decimal_digits_def by blast
qed

lemma set_fixed: "set (fixed w n) \<subseteq> decimal_digits"
  by (induction w arbitrary: n) (auto simp: digit_in)

text \<open>Dropping trailing zeros loses nothing at a fixed width.\<close>

lemma strip_zeros_eq: "strip_zeros s = strip_zeros t \<Longrightarrow> length s = length t \<Longrightarrow> s = t"
proof -
  have pad: "\<exists>k. u = replicate k (CHR ''0'') @ strip_zeros u" for u
  proof (induction u)
    case (Cons c u)
    then obtain k where "u = replicate k (CHR ''0'') @ strip_zeros u" by blast
    then show ?case
      by (cases "c = CHR ''0''") (auto intro: exI[of _ "Suc k"] exI[of _ 0])
  qed simp
  assume eq: "strip_zeros s = strip_zeros t" and len: "length s = length t"
  obtain j k where s: "s = replicate j (CHR ''0'') @ strip_zeros s"
    and t: "t = replicate k (CHR ''0'') @ strip_zeros t" using pad by blast
  have "j = k" using len eq arg_cong[OF s, of length] arg_cong[OF t, of length] by simp
  with s t eq show ?thesis by metis
qed

lemma set_strip_zeros: "set (strip_zeros s) \<subseteq> set s"
  by (induction s) auto

lemma set_fraction: "set (fraction n) \<subseteq> insert (CHR ''.'') decimal_digits"
proof -
  have "set (strip_zeros (rev (fixed 9 n))) \<subseteq> decimal_digits"
    using set_strip_zeros[of "rev (fixed 9 n)"] set_fixed[of 9 n] unfolding set_rev by blast
  then show ?thesis by (auto simp: fraction_def simp del: fixed.simps)
qed

lemma fraction_inject:
  assumes "0 \<le> m" "m < Second" "0 \<le> n" "n < Second" "fraction m = fraction n"
  shows "m = n"
proof (cases "m = 0 \<or> n = 0")
  case True
  with assms show ?thesis by (auto simp: fraction_def split: if_splits)
next
  case False
  with assms have "strip_zeros (rev (fixed 9 m)) = strip_zeros (rev (fixed 9 n))"
    by (simp add: fraction_def)
  then have "fixed 9 m = fixed 9 n"
    using strip_zeros_eq[of "rev (fixed 9 m)" "rev (fixed 9 n)"] by simp
  with assms show ?thesis by (intro fixed_inject[of m 9 n]) (simp_all add: Second_def)
qed

text \<open>The civil date determines the day.\<close>

lemma split_digits:
  fixes x :: int
  assumes "0 \<le> x" "x < b"
  shows "(b * k + x) div b = k" "(b * k + x) mod b = x"
  using assms by simp_all

lemma div_mod_bounds:
  fixes b x :: int
  assumes "0 < b"
  shows "b * (x div b) \<le> x" "x < b * (x div b) + b"
  using assms mult_div_mod_eq[of b x] pos_mod_bound[OF assms, of x] pos_mod_sign[OF assms, of x]
  by linarith+

lemma mod_range: "0 \<le> (x :: int) mod 1461" "x mod 1461 \<le> 1460"
  using pos_mod_bound[of 1461 x] by simp_all

lemma civil_bounds:
  fixes d :: int
  assumes d: "0 \<le> d" "d < 146097"
  shows "0 \<le> min 3 (d div 36524)" "0 \<le> d - min 3 (d div 36524) * 36524"
    "(d - min 3 (d div 36524) * 36524) div 1461 \<le> 24"
proof -
  define k where "k = d div 36524"
  have k: "36524 * k \<le> d" "d < 36524 * k + 36524" "0 \<le> k"
    unfolding k_def using d by (simp_all add: pos_imp_zdiv_nonneg_iff)
  have r: "0 \<le> d - min 3 k * 36524" "d - min 3 k * 36524 < 25 * 1461"
    using k d by (auto simp: min_def)
  then show "0 \<le> min 3 (d div 36524)" "0 \<le> d - min 3 (d div 36524) * 36524"
    "(d - min 3 (d div 36524) * 36524) div 1461 \<le> 24"
    using k unfolding k_def[symmetric]
    by (simp_all add: div_less_iff_less_mult[of 1461 _ 25, simplified, symmetric])
qed

lemma year_bounds:
  fixes s :: int
  assumes "0 \<le> s" "s \<le> 1460"
  shows "0 \<le> s - min 3 (s div 365) * 365" "s - min 3 (s div 365) * 365 \<le> 365"
proof -
  define k where "k = s div 365"
  have k: "365 * k \<le> s" "s < 365 * k + 365"
    unfolding k_def using div_mod_bounds[of 365 s] by simp_all
  show "0 \<le> s - min 3 (s div 365) * 365" "s - min 3 (s div 365) * 365 \<le> 365"
    unfolding k_def[symmetric] using k assms by (auto simp: min_def)
qed

definition doy_of :: "int \<Rightarrow> int \<Rightarrow> int" where
  "doy_of m d = (153 * (if m \<ge> 3 then m - 3 else m + 9) + 2) div 5 + d - 1"

lemma month_day:
  fixes doy :: int
  assumes "0 \<le> doy" "doy \<le> 365"
  defines "mp \<equiv> (5 * doy + 2) div 153"
  shows "0 \<le> mp" "mp \<le> 11" "1 \<le> doy - (153 * mp + 2) div 5 + 1"
    "doy - (153 * mp + 2) div 5 + 1 \<le> 31"
proof -
  define e where "e = (153 * mp + 2) div 5"
  have m: "153 * mp \<le> 5 * doy + 2" "5 * doy + 2 < 153 * mp + 153"
    unfolding mp_def using div_mod_bounds[of 153 "5 * doy + 2"] by simp_all
  have e: "5 * e \<le> 153 * mp + 2" "153 * mp + 2 < 5 * e + 5"
    unfolding e_def using div_mod_bounds[of 5 "153 * mp + 2"] by simp_all
  show "0 \<le> mp" "mp \<le> 11" "1 \<le> doy - (153 * mp + 2) div 5 + 1"
    "doy - (153 * mp + 2) div 5 + 1 \<le> 31"
    using m e assms(1,2) unfolding e_def[symmetric] by linarith+
qed

definition civil_year_start :: "int \<Rightarrow> int" where
  "civil_year_start y =
     (let yoe = y mod 400 in y div 400 * 146097 + yoe div 100 * 36524 + yoe mod 100 div 4 * 1461 + yoe mod 4 * 365)"

definition day_of_civil :: "date \<Rightarrow> int" where
  "day_of_civil dt =
     civil_year_start (if month dt \<ge> 3 then year dt else year dt - 1) + doy_of (month dt) (day dt)"

lemma day_of_civil_civil: "day_of_civil (civil z) = z"
proof -
  define era doe where "era = z div 146097" and "doe = z mod 146097"
  define c where "c = min 3 (doe div 36524)"
  define r where "r = doe - c * 36524"
  define q s where "q = r div 1461" and "s = r mod 1461"
  define a where "a = min 3 (s div 365)"
  define doy where "doy = s - a * 365"
  define mp where "mp = (5 * doy + 2) div 153"
  have doe: "0 \<le> doe" "doe < 146097" unfolding doe_def by simp_all
  note cb = civil_bounds[OF doe, folded c_def, folded r_def, folded q_def]
  have c: "0 \<le> c" "c \<le> 3" using cb(1) by (simp_all add: c_def)
  have q: "0 \<le> q" "q \<le> 24" using cb(2,3) by (simp_all add: q_def pos_imp_zdiv_nonneg_iff)
  have s: "0 \<le> s" "s \<le> 1460" unfolding s_def by (rule mod_range)+
  have doy: "0 \<le> doy" "doy \<le> 365" unfolding doy_def a_def using s by (rule year_bounds)+
  have a: "0 \<le> a" "a \<le> 3" using s(1) by (simp_all add: a_def pos_imp_zdiv_nonneg_iff)
  note mp = month_day(1,2)[OF doy, folded mp_def]
  have y: "(era * 400 + (100 * c + 4 * q + a)) div 400 = era"
    "(era * 400 + (100 * c + 4 * q + a)) mod 400 = 100 * c + 4 * q + a"
    using c q a by simp_all
  have parts: "(100 * c + 4 * q + a) div 100 = c" "(100 * c + 4 * q + a) mod 100 = 4 * q + a"
    using split_digits[of "4 * q + a" 100 c] q a by (simp_all add: add.assoc)
  have parts': "(4 * q + a) div 4 = q" "(100 * c + 4 * q + a) mod 4 = a"
    using split_digits[of a 4 q] split_digits[of a 4 "25 * c + q"] a by (simp_all add: algebra_simps)
  have dt: "civil z = \<lparr>year = era * 400 + (100 * c + 4 * q + a) + (if mp < 10 then 0 else 1),
      month = (if mp < 10 then mp + 3 else mp - 9), day = doy - (153 * mp + 2) div 5 + 1\<rparr>"
    unfolding civil_def Let_def era_def[symmetric] doe_def[symmetric] c_def[symmetric]
      r_def[symmetric] q_def[symmetric] s_def[symmetric] a_def[symmetric] doy_def[symmetric]
      mp_def[symmetric]
    by simp
  have start: "civil_year_start (era * 400 + (100 * c + 4 * q + a))
      = era * 146097 + c * 36524 + q * 1461 + a * 365"
    unfolding civil_year_start_def Let_def y parts parts' ..
  have "day_of_civil (civil z) = era * 146097 + c * 36524 + q * 1461 + a * 365 + doy"
  proof (cases "mp < 10")
    case True
    with mp start show ?thesis by (simp add: dt day_of_civil_def doy_of_def)
  next
    case False
    with mp start show ?thesis by (simp add: dt day_of_civil_def doy_of_def)
  qed
  also have "\<dots> = era * 146097 + c * 36524 + (q * 1461 + s)" by (simp add: doy_def)
  also have "q * 1461 + s = r" unfolding q_def s_def by (rule div_mult_mod_eq)
  also have "era * 146097 + c * 36524 + r = era * 146097 + doe" by (simp add: r_def)
  also have "\<dots> = z" unfolding era_def doe_def by (rule div_mult_mod_eq)
  finally show ?thesis .
qed

lemma civil_month_day_range:
  "0 \<le> month (civil z)" "month (civil z) < 100" "0 \<le> day (civil z)" "day (civil z) < 100"
proof -
  define s where "s = (z mod 146097 - min 3 (z mod 146097 div 36524) * 36524) mod 1461"
  define doy where "doy = s - min 3 (s div 365) * 365"
  have s: "0 \<le> s" "s \<le> 1460" unfolding s_def by (rule mod_range)+
  then have doy: "0 \<le> doy" "doy \<le> 365" unfolding doy_def by (rule year_bounds)+
  define mp where "mp = (5 * doy + 2) div 153"
  have civil: "month (civil z) = (if mp < 10 then mp + 3 else mp - 9)"
    "day (civil z) = doy - (153 * mp + 2) div 5 + 1"
    unfolding civil_def Let_def s_def[symmetric] doy_def[symmetric] mp_def[symmetric] by simp_all
  note md = month_day[OF doy, folded mp_def]
  show "0 \<le> month (civil z)" "month (civil z) < 100" "0 \<le> day (civil z)" "day (civil z) < 100"
    unfolding civil using md by simp_all
qed

lemma date_eqI: "year a = year b \<Longrightarrow> month a = month b \<Longrightarrow> day a = day b \<Longrightarrow> a = (b :: date)"
  by simp

lemma time_of_parts:
  "t = (day_number t - 306) * (86400 * Second) + second_of_day t * Second + nanosecond t"
proof -
  have "t mod (86400 * Second) mod Second = t mod Second"
    by (simp add: mod_mod_cancel)
  then have "t mod (86400 * Second) = second_of_day t * Second + nanosecond t"
    using div_mult_mod_eq[of "t mod (86400 * Second)" Second]
    by (simp add: second_of_day_def nanosecond_def)
  then show ?thesis
    using div_mult_mod_eq[of t "86400 * Second"] by (simp add: day_number_def)
qed

lemma hour_range: "0 \<le> second_of_day t div 3600" "second_of_day t div 3600 < 100"
proof -
  have "0 \<le> t mod (86400 * Second)" "t mod (86400 * Second) < 86400 * Second"
    by (simp_all add: Second_def)
  then have "0 \<le> second_of_day t" "second_of_day t < 86400"
    by (simp_all add: second_of_day_def Second_def)
  then show "0 \<le> second_of_day t div 3600" "second_of_day t div 3600 < 100" by simp_all
qed

lemma mod60_range: "0 \<le> (x :: int) mod 60" "x mod 60 < 100"
  using pos_mod_bound[of 60 x] by simp_all

lemma sexagesimal: "(n :: int) = n div 3600 * 3600 + (n div 60 mod 60) * 60 + n mod 60"
proof -
  have "n div 3600 = n div 60 div 60" by (simp add: zdiv_zmult2_eq[symmetric])
  moreover have "n div 60 = n div 60 div 60 * 60 + n div 60 mod 60" by simp
  moreover have "n = n div 60 * 60 + n mod 60" by simp
  ultimately show ?thesis by linarith
qed

lemma rfc3339_inject:
  assumes ok: "year_ok t" "year_ok u" and eq: "rfc3339 t = rfc3339 u"
  shows "t = u"
proof -
  let ?T = "civil (day_number t)" and ?U = "civil (day_number u)"
  let ?s = "second_of_day t" and ?v = "second_of_day u"
  note eq' = eq[unfolded rfc3339_def Let_def]
  have segs: "fixed 4 (year ?T) = fixed 4 (year ?U)" "fixed 2 (month ?T) = fixed 2 (month ?U)"
    "fixed 2 (day ?T) = fixed 2 (day ?U)" "fixed 2 (?s div 3600) = fixed 2 (?v div 3600)"
    "fixed 2 (?s div 60 mod 60) = fixed 2 (?v div 60 mod 60)"
    "fixed 2 (?s mod 60) = fixed 2 (?v mod 60)"
    "fraction (nanosecond t) = fraction (nanosecond u)"
    using eq' by (simp_all del: fixed.simps)
  have "year ?T = year ?U"
    using ok segs(1) by (intro fixed_inject[of _ 4]) (simp_all add: year_ok_def)
  moreover have "month ?T = month ?U" "day ?T = day ?U"
    using segs(2,3) civil_month_day_range by (auto intro!: fixed_inject[of _ 2])
  ultimately have d: "day_number t = day_number u"
    by (metis date_eqI day_of_civil_civil)
  have "?s div 3600 = ?v div 3600" "?s div 60 mod 60 = ?v div 60 mod 60" "?s mod 60 = ?v mod 60"
    by (rule fixed_inject[of _ 2, OF _ _ _ _ segs(4)] fixed_inject[of _ 2, OF _ _ _ _ segs(5)]
        fixed_inject[of _ 2, OF _ _ _ _ segs(6)]; simp add: hour_range mod60_range del: fixed.simps)+
  then have s: "?s = ?v" using sexagesimal[of ?s] sexagesimal[of ?v] by linarith
  have n: "nanosecond t = nanosecond u"
    using segs(7) by (intro fraction_inject) (simp_all add: nanosecond_def Second_def)
  show ?thesis using time_of_parts[of t] time_of_parts[of u] unfolding d s n by linarith
qed

lemma MarshalTime_inject: "MarshalTime t = Inr x \<Longrightarrow> MarshalTime u = Inr x \<Longrightarrow> t = u"
  by (auto simp: MarshalTime_def split: if_splits intro: rfc3339_inject)

lemma MarshalTime_chars: "MarshalTime t = Inr x \<Longrightarrow> set x \<subseteq> time_chars"
proof -
  assume "MarshalTime t = Inr x"
  then have x: "x = rfc3339 t" by (simp add: MarshalTime_def split: if_splits)
  have "decimal_digits \<subseteq> time_chars" "CHR ''.'' \<in> time_chars" "CHR ''-'' \<in> time_chars"
    "CHR ''T'' \<in> time_chars" "CHR '':'' \<in> time_chars" "CHR ''Z'' \<in> time_chars"
    unfolding decimal_digits_def time_chars_def by auto
  moreover from this have "set (fixed w n) \<subseteq> time_chars" "set (fraction m) \<subseteq> time_chars" for w n m
    using set_fixed[of w n] set_fraction[of m] by blast+
  ultimately show ?thesis
    unfolding x rfc3339_def Let_def set_append Un_subset_iff by (simp del: fixed.simps)
qed

end
