(* ===== verification/Json_Struct.thy ===== *)
theory Json_Struct
  imports Canonical_Laws Go_Time
begin

text \<open>
  \<^verbatim>\<open>json.Marshal\<close> of the structs of the protocol: a struct is an object with one member per
  field, in field order; a \<^verbatim>\<open>time.Time\<close> field may fail, so the document is a result. The helper
  \<open>signature_input\<close> is the function \<^verbatim>\<open>signatureInput\<close> that every signing package declares:
  marshal, then \<^verbatim>\<open>canonical.SignatureInput\<close>.

  A JSON slice field is \<open>None\<close> for Go's nil slice, which marshals to \<^verbatim>\<open>null\<close>. A map of strings is
  written with its keys sorted.
\<close>

type_synonym 'a slice = "'a list option"

definition elems :: "'a slice \<Rightarrow> 'a list" where
  "elems s = (case s of None \<Rightarrow> [] | Some xs \<Rightarrow> xs)"

definition slice_doc :: "string slice \<Rightarrow> jdoc" where
  "slice_doc s = (case s of None \<Rightarrow> DNull | Some xs \<Rightarrow> DStrs xs)"

definition str_map_doc :: "(string \<times> string) list \<Rightarrow> jdoc" where
  "str_map_doc m = DObj (sort_key fst (map (\<lambda>(k, v). (k, DStr v)) m))"

definition time_doc :: "time \<Rightarrow> jdoc result" where
  "time_doc t = and_then (MarshalTime t) (\<lambda>s. Inr (DStr s))"

text \<open>A member list whose values may fail; the first failing member is the error.\<close>

definition json_object :: "(string \<times> jdoc result) list \<Rightarrow> jdoc result" where
  "json_object ms = and_then (collect (map (\<lambda>(k, r). and_then r (\<lambda>d. Inr (k, d))) ms)) (\<lambda>ds. Inr (DObj ds))"

definition json_Marshal :: "jdoc result \<Rightarrow> bytes result" where
  "json_Marshal d = and_then d (\<lambda>d. Inr (encode d))"

definition signature_input :: "string \<Rightarrow> jdoc result \<Rightarrow> bytes result" where
  "signature_input objectType v = and_then (json_Marshal v) (SignatureInput objectType)"

text \<open>\<^verbatim>\<open>omitempty\<close>\<close>

definition omit_if :: "bool \<Rightarrow> string \<times> jdoc result \<Rightarrow> (string \<times> jdoc result) list" where
  "omit_if b m = (if b then [] else [m])"

section \<open>Success of marshalling\<close>

lemma elems_simps [simp]: "elems None = []" "elems (Some xs) = xs"
  by (simp_all add: elems_def)

lemma collect_ok: "\<forall>r\<in>set rs. \<exists>x. r = Inr x \<Longrightarrow> \<exists>xs. collect rs = Inr xs"
  by (induction rs) auto

lemma json_object_Inr:
  "json_object ms = Inr d \<longleftrightarrow> (\<exists>ds. d = DObj ds \<and> list_all2 (\<lambda>(k, r) (k', d). k = k' \<and> r = Inr d) ms ds)"
proof -
  have "collect (map (\<lambda>(k, r). and_then r (\<lambda>d. Inr (k, d))) ms) = Inr ds \<longleftrightarrow>
      list_all2 (\<lambda>(k, r) (k', d). k = k' \<and> r = Inr d) ms ds" for ds
    by (induction ms arbitrary: ds)
       (auto simp: and_then_Inr_iff list_all2_Cons1 split: prod.splits)
  then show ?thesis by (auto simp: json_object_def and_then_Inr_iff)
qed

lemma time_doc_ok: "year_ok t \<Longrightarrow> time_doc t = Inr (DStr (rfc3339 t))"
  by (simp add: time_doc_def MarshalTime_def)

lemma time_doc_Inr: "time_doc t = Inr d \<longleftrightarrow> year_ok t \<and> d = DStr (rfc3339 t)"
  by (auto simp: time_doc_def MarshalTime_def)

lemma signature_input_Inr:
  assumes "signature_input ty (json_object ms) = Inr x"
  obtains ds where "list_all2 (\<lambda>(k, r) (k', d). k = k' \<and> r = Inr d) ms ds"
    "SignatureInput ty (encode (DObj ds)) = Inr x"
  using assms
  by (auto simp: signature_input_def json_Marshal_def and_then_Inr_iff json_object_Inr
      simp del: encode.simps intro: that)

lemma doc_value_strs: "doc_value (DStrs ss) = Inr (JArr (map (\<lambda>s. JStr (to_valid s)) ss))"
proof -
  have "collect (map (\<lambda>s. Inr (JStr (to_valid s))) ss) = Inr (map (\<lambda>s. JStr (to_valid s)) ss)"
    by (rule collect_Inr)
  then show ?thesis by (simp add: DStrs_def comp_def)
qed

lemma doc_value_slice:
  "doc_value (slice_doc s) = Inr (case s of None \<Rightarrow> JNull | Some ss \<Rightarrow> JArr (map (\<lambda>s. JStr (to_valid s)) ss))"
  by (cases s) (simp_all add: slice_doc_def doc_value_strs)

lemma doc_value_DInt: "int64_ok i \<Longrightarrow> doc_value (DInt i) = Inr (JInt i)"
  by (simp add: DInt_def parse_number_ok)

lemma doc_value_DInt_iff: "doc_value (DInt i) = Inr v \<longleftrightarrow> int64_ok i \<and> v = JInt i"
  by (auto simp: DInt_def parse_number_show_int ParseInt_show_int)

lemma doc_ok_slice [simp]: "doc_ok (slice_doc s)"
  by (cases s) (simp_all add: slice_doc_def)

section \<open>The signature input binds every field\<close>

text \<open>The value of a member, up to the order of members inside it.\<close>

definition field_value :: "jdoc \<Rightarrow> jvalue result" where
  "field_value d = and_then (doc_value d) (\<lambda>v. Inr (norm v))"

lemma put_members_shape:
  "put_members obj ms = Inr m \<Longrightarrow> \<exists>vs. m = obj @ vs \<and> list_all2 (\<lambda>(k, r) (k', v). k = k' \<and> r = Inr v) ms vs \<and>
     (distinct (map fst obj) \<longrightarrow> distinct (map fst m))"
proof (induction obj ms arbitrary: m rule: put_members.induct)
  case (2 obj k r ms)
  then obtain v where v: "k \<notin> fst ` set obj" "r = Inr v" "put_members (obj @ [(k, v)]) ms = Inr m"
    by (auto simp: and_then_Inr_iff split: if_splits)
  from 2(1)[OF v(1,2) v(3)] obtain vs where "m = (obj @ [(k, v)]) @ vs"
    "list_all2 (\<lambda>(k, r) (k', v). k = k' \<and> r = Inr v) ms vs"
    "distinct (map fst (obj @ [(k, v)])) \<longrightarrow> distinct (map fst m)" by blast
  with v show ?case by (intro exI[of _ "(k, v) # vs"]) auto
qed simp

lemma list_all2_Inr:
  "list_all2 (\<lambda>(k, r) (k', v). k = k' \<and> r = Inr v) ms vs \<Longrightarrow> ms = map (\<lambda>(k, v). (k, Inr v)) vs"
  by (induction rule: list_all2_induct) auto

lemma object_fields:
  assumes "doc_value (DObj ds) = Inr (JObj m)" and "\<forall>(k, d)\<in>set ds. valid_utf8 k"
  shows "map (\<lambda>(k, d). (k, doc_value d)) ds = map (\<lambda>(k, v). (k, Inr v)) m" and "distinct (map fst m)"
proof -
  let ?ms = "map (\<lambda>(k, d). (to_valid k, doc_value d)) ds"
  have p: "put_members [] ?ms = Inr m" using assms(1) by (auto simp: and_then_Inr_iff)
  from put_members_shape[OF p] have m: "list_all2 (\<lambda>(k, r) (k', v). k = k' \<and> r = Inr v) ?ms m"
    and d: "distinct (map fst m)" by auto
  have "?ms = map (\<lambda>(k, d). (k, doc_value d)) ds" using assms(2) by (auto simp: to_valid_id)
  with m show "map (\<lambda>(k, d). (k, doc_value d)) ds = map (\<lambda>(k, v). (k, Inr v)) m"
    by (auto dest: list_all2_Inr)
  show "distinct (map fst m)" by (rule d)
qed

lemma sort_key_map_of:
  fixes xs ys :: "('k::linorder \<times> 'v) list"
  assumes "sort_key fst xs = sort_key fst ys" and "distinct (map fst xs)" "distinct (map fst ys)"
  shows "map_of xs = map_of ys"
proof -
  have "set xs = set ys" using assms(1) by (metis set_sort)
  then show ?thesis using assms(2,3) by (simp add: map_of_inject_set)
qed

lemma norm_map_of:
  assumes "norm (JObj m) = norm (JObj m')" and "distinct (map fst m)" "distinct (map fst m')"
  shows "map_option norm (map_of m k) = map_option norm (map_of m' k)"
proof -
  let ?n = "map (\<lambda>(k, v). (k, norm v))"
  have d: "map fst (?n xs) = map fst xs" for xs by (induction xs) auto
  have "sort_key fst (?n m) = sort_key fst (?n m')" using assms(1) by simp
  then have "map_of (?n m) = map_of (?n m')"
    by (rule sort_key_map_of) (simp_all only: d assms)
  then show ?thesis by (simp add: map_of_map fun_eq_iff)
qed

lemma ParseStrict_object:
  assumes "ParseStrict (encode (DObj ds)) = Inr (JObj m)" and "doc_ok (DObj ds)"
  shows "doc_value (DObj ds) = Inr (JObj m)"
  using assms ParseStrict_encode[OF assms(2)] by (auto split: sum.splits simp del: encode.simps doc_value.simps)

lemma map_of_fields:
  assumes "map (\<lambda>(k, d). (k, doc_value d)) ds = map (\<lambda>(k, v). (k, Inr v)) m"
  shows "map_option field_value (map_of ds k) = map_option (\<lambda>v. Inr (norm v)) (map_of m k)"
proof -
  have "map_of (map (\<lambda>(k, d). (k, doc_value d)) ds) k = map_of (map (\<lambda>(k, v). (k, Inr v)) m) k"
    using assms by simp
  then have "map_option doc_value (map_of ds k) = map_option Inr (map_of m k)" by (simp add: map_of_map)
  then show ?thesis by (cases "map_of ds k"; cases "map_of m k") (auto simp: field_value_def)
qed

text \<open>
  Two marshalled structs with the same signature input agree on every member but the
  signature, present or absent.
\<close>

theorem signature_input_fields:
  assumes "SignatureInput ty (encode (DObj ds)) = Inr x" and "SignatureInput ty' (encode (DObj ds')) = Inr x"
    and "NUL \<notin> set ty" "NUL \<notin> set ty'" and "doc_ok (DObj ds)" "doc_ok (DObj ds')"
    and "\<forall>(k, d)\<in>set ds. valid_utf8 k" "\<forall>(k, d)\<in>set ds'. valid_utf8 k" and "k \<noteq> ''signature''"
  shows "ty = ty' \<and> map_option field_value (map_of ds k) = map_option field_value (map_of ds' k)"
proof -
  obtain m m' where ty: "ty = ty'" and m: "ParseStrict (encode (DObj ds)) = Inr (JObj m)"
    "ParseStrict (encode (DObj ds')) = Inr (JObj m')" and n: "norm (signed_part m) = norm (signed_part m')"
    using SignatureInput_inject[OF assms(3,4,1,2)] by blast
  note f = object_fields[OF ParseStrict_object[OF m(1) assms(5)] assms(7)]
  note f' = object_fields[OF ParseStrict_object[OF m(2) assms(6)] assms(8)]
  have "map_option norm (map_of (al_remove ''signature'' m) k) = map_option norm (map_of (al_remove ''signature'' m') k)"
    using n f(2) f'(2) unfolding signed_part_def by (intro norm_map_of) simp_all
  then have "map_option norm (map_of m k) = map_option norm (map_of m' k)" using assms(9) by simp
  then have "map_option (\<lambda>v. Inr (norm v)) (map_of m k) = map_option (\<lambda>v. Inr (norm v)) (map_of m' k)"
    by (cases "map_of m k"; cases "map_of m' k") simp_all
  with ty map_of_fields[OF f(1)] map_of_fields[OF f'(1)] show ?thesis by simp
qed

definition fields_ok :: "(string \<times> jdoc result) list \<Rightarrow> bool" where
  "fields_ok ms \<longleftrightarrow> (\<forall>(k, r)\<in>set ms. valid_utf8 k \<and> (\<forall>d. r = Inr d \<longrightarrow> doc_ok d))"

definition field_of :: "(string \<times> jdoc result) list \<Rightarrow> string \<Rightarrow> jvalue result option" where
  "field_of ms k = map_option (\<lambda>r. and_then r field_value) (map_of ms k)"

lemma fields_bound:
  assumes "signature_input ty (json_object ms) = Inr x" and "signature_input ty' (json_object ms') = Inr x"
    and "NUL \<notin> set ty" "NUL \<notin> set ty'" and "fields_ok ms" "fields_ok ms'" and "k \<noteq> ''signature''"
  shows "ty = ty' \<and> field_of ms k = field_of ms' k"
proof -
  from assms(1) obtain ds where "list_all2 (\<lambda>(k, r) (k', d). k = k' \<and> r = Inr d) ms ds"
    and i: "SignatureInput ty (encode (DObj ds)) = Inr x" by (rule signature_input_Inr)
  then have ds: "ms = map (\<lambda>(k, d). (k, Inr d)) ds" by (simp add: list_all2_Inr)
  from assms(2) obtain ds' where "list_all2 (\<lambda>(k, r) (k', d). k = k' \<and> r = Inr d) ms' ds'"
    and i': "SignatureInput ty' (encode (DObj ds')) = Inr x" by (rule signature_input_Inr)
  then have ds': "ms' = map (\<lambda>(k, d). (k, Inr d)) ds'" by (simp add: list_all2_Inr)
  have ok: "doc_ok (DObj ds)" "\<forall>(k, d)\<in>set ds. valid_utf8 k" "doc_ok (DObj ds')" "\<forall>(k, d)\<in>set ds'. valid_utf8 k"
    using assms(5,6) by (auto simp: fields_ok_def ds ds')
  have "field_of ms k = map_option field_value (map_of ds k)"
    by (simp add: field_of_def ds map_of_map option.map_comp comp_def)
  moreover have "field_of ms' k = map_option field_value (map_of ds' k)"
    by (simp add: field_of_def ds' map_of_map option.map_comp comp_def)
  ultimately show ?thesis
    using signature_input_fields[OF i i' assms(3,4) ok(1,3,2,4) assms(7)] by simp
qed

lemma field_value_simps [simp]:
  "field_value (DStr s) = Inr (JStr (to_valid s))"
  "field_value (slice_doc sl) = Inr (case sl of None \<Rightarrow> JNull | Some ss \<Rightarrow> JArr (map (\<lambda>s. JStr (to_valid s)) ss))"
  by (simp_all add: field_value_def doc_value_slice split: option.splits)

lemma rfc3339_ascii:
  assumes "year_ok t"
  shows "to_valid (rfc3339 t) = rfc3339 t"
proof -
  have "set (rfc3339 t) \<subseteq> time_chars" using MarshalTime_chars[of t "rfc3339 t"] assms by (simp add: MarshalTime_def)
  moreover have "\<forall>c\<in>time_chars. byte_val c < 128" by (simp add: time_chars_def)
  ultimately show ?thesis by (intro to_valid_ascii) blast
qed

lemma time_field: "year_ok t \<Longrightarrow> and_then (time_doc t) field_value = Inr (JStr (rfc3339 t))"
  by (simp add: time_doc_ok rfc3339_ascii)

lemma time_field_inject:
  "and_then (time_doc t) field_value = and_then (time_doc u) field_value \<Longrightarrow> year_ok t \<Longrightarrow> year_ok u \<Longrightarrow> t = u"
  by (simp add: time_field rfc3339_inject)

lemma int_field_inject:
  "field_value (DInt i) = field_value (DInt j) \<Longrightarrow> int64_ok i \<Longrightarrow> int64_ok j \<Longrightarrow> i = j"
  by (simp add: field_value_def doc_value_DInt)

lemma slice_field_inject:
  assumes "field_value (slice_doc a) = field_value (slice_doc b)"
  shows "map to_valid (elems a) = map to_valid (elems b)"
proof -
  have u: "map (\<lambda>s. JStr (to_valid s)) xs = map (\<lambda>s. JStr (to_valid s)) ys \<Longrightarrow> map to_valid xs = map to_valid ys" for xs ys
    by (induction xs ys rule: list_induct2') auto
  show ?thesis
  proof (cases a)
    case None
    then show ?thesis using assms by (cases b) simp_all
  next
    case (Some xs)
    then obtain ys where "b = Some ys" using assms by (cases b) simp_all
    with Some u[of xs ys] assms show ?thesis by simp
  qed
qed

section \<open>When marshalling and parsing succeed\<close>

definition fields_fine :: "(string \<times> jdoc result) list \<Rightarrow> bool" where
  "fields_fine ms \<longleftrightarrow> distinct (map fst ms) \<and>
     (\<forall>(k, r)\<in>set ms. valid_utf8 k \<and> (\<exists>d. r = Inr d \<and> doc_ok d \<and> is_ok (doc_value d)))"

lemma fields_fine_docs:
  assumes "fields_fine ms"
  obtains ds where "ms = map (\<lambda>(k, d). (k, Inr d)) ds" "struct_ok ds"
proof -
  let ?ds = "map (\<lambda>(k, r). (k, projr r)) ms"
  have ms: "ms = map (\<lambda>(k, d). (k, Inr d)) ?ds"
    using assms by (fastforce simp: fields_fine_def intro!: map_idI[symmetric])
  moreover have "struct_ok ?ds"
    using assms by (fastforce simp: fields_fine_def struct_ok_def comp_def case_prod_beta)
  ultimately show thesis by (rule that)
qed

lemma json_object_map: "json_object (map (\<lambda>(k, d). (k, Inr d)) ds) = Inr (DObj ds)"
  by (auto simp: json_object_Inr list_all2_map1 list_all2_same)

lemma signature_input_ok:
  assumes "fields_fine ms"
  shows "\<exists>x. signature_input ty (json_object ms) = Inr x"
proof -
  obtain ds where ms: "ms = map (\<lambda>(k, d). (k, Inr d)) ds" and ok: "struct_ok ds"
    using assms by (rule fields_fine_docs)
  then show ?thesis
    by (simp add: json_object_map signature_input_def json_Marshal_def SignatureInput_struct[OF ok] del: encode.simps)
qed

text \<open>The signature member itself is not part of the input.\<close>

lemma signature_input_strip:
  assumes "fields_fine ms" "fields_fine ms'"
    and "filter (\<lambda>p. fst p \<noteq> ''signature'') ms = filter (\<lambda>p. fst p \<noteq> ''signature'') ms'"
  shows "signature_input ty (json_object ms) = signature_input ty (json_object ms')"
proof -
  obtain ds where ds: "ms = map (\<lambda>(k, d). (k, Inr d)) ds" and ok: "struct_ok ds"
    using assms(1) by (rule fields_fine_docs)
  obtain ds' where ds': "ms' = map (\<lambda>(k, d). (k, Inr d)) ds'" and ok': "struct_ok ds'"
    using assms(2) by (rule fields_fine_docs)
  have inj: "inj (\<lambda>(k, d). (k, Inr d) :: string \<times> jdoc result)" by (auto simp: inj_def)
  have "map (\<lambda>(k, d). (k, Inr d) :: string \<times> jdoc result) (filter (\<lambda>p. fst p \<noteq> ''signature'') ds) =
      map (\<lambda>(k, d). (k, Inr d)) (filter (\<lambda>p. fst p \<noteq> ''signature'') ds')"
    using assms(3) by (simp add: ds ds' filter_map comp_def case_prod_beta)
  then have "filter (\<lambda>p. fst p \<noteq> ''signature'') ds = filter (\<lambda>p. fst p \<noteq> ''signature'') ds'"
    using inj by (simp add: inj_map_eq_map)
  from SignatureInput_strip[OF ok ok' this] show ?thesis
    by (simp add: ds ds' json_object_map signature_input_def json_Marshal_def del: encode.simps)
qed

text \<open>Every member of a struct that has a signature input marshalled and parsed.\<close>

lemma field_succeeds:
  assumes "signature_input ty (json_object ms) = Inr x" and "fields_ok ms" and "(k, r) \<in> set ms"
  shows "\<exists>v. and_then r field_value = Inr v"
proof -
  from assms(1) obtain ds where "list_all2 (\<lambda>(k, r) (k', d). k = k' \<and> r = Inr d) ms ds"
    and i: "SignatureInput ty (encode (DObj ds)) = Inr x" by (rule signature_input_Inr)
  then have ds: "ms = map (\<lambda>(k, d). (k, Inr d)) ds" by (simp add: list_all2_Inr)
  have ok: "doc_ok (DObj ds)" "\<forall>(k, d)\<in>set ds. valid_utf8 k"
    using assms(2) by (auto simp: fields_ok_def ds)
  obtain m where m: "ParseStrict (encode (DObj ds)) = Inr (JObj m)" using SignatureInput_Inr[OF i] by blast
  note f = object_fields(1)[OF ParseStrict_object[OF m ok(1)] ok(2)]
  from assms(3) ds obtain d where d: "(k, d) \<in> set ds" "r = Inr d" by auto
  then have "(k, doc_value d) \<in> set (map (\<lambda>(k, v). (k, Inr v)) m)" unfolding f[symmetric] by force
  then show ?thesis using d(2) by (auto simp: field_value_def)
qed

lemma time_field_ok: "and_then (time_doc t) field_value = Inr v \<Longrightarrow> year_ok t"
  by (auto simp: and_then_Inr_iff time_doc_Inr)

lemma int_field_ok: "field_value (DInt i) = Inr v \<Longrightarrow> int64_ok i"
  by (auto simp: field_value_def and_then_Inr_iff doc_value_DInt_iff)

lemma time_field_eq:
  assumes "and_then (time_doc t) field_value = and_then (time_doc u) field_value"
    and "\<exists>v. and_then (time_doc t) field_value = Inr v"
  shows "t = u"
proof -
  obtain v where "and_then (time_doc t) field_value = Inr v" using assms(2) by blast
  moreover from this have "and_then (time_doc u) field_value = Inr v" using assms(1) by simp
  ultimately show ?thesis using time_field_inject[OF assms(1)] time_field_ok by blast
qed

lemma int_field_eq:
  assumes "field_value (DInt i) = field_value (DInt j)" and "\<exists>v. field_value (DInt i) = Inr v"
  shows "i = j"
proof -
  obtain v where "field_value (DInt i) = Inr v" using assms(2) by blast
  moreover from this have "field_value (DInt j) = Inr v" using assms(1) by simp
  ultimately show ?thesis using int_field_inject[OF assms(1)] int_field_ok by blast
qed

section \<open>Canonical form of a struct\<close>

text \<open>Marshal, then \<^verbatim>\<open>canonical.Marshal\<close>: the form in which structs are authenticated by the AEAD.\<close>

definition canonical_json :: "jdoc result \<Rightarrow> bytes result" where
  "canonical_json v = and_then (json_Marshal v) Marshal"

lemma canonical_json_Inr:
  assumes "canonical_json (json_object ms) = Inr x" and "fields_ok ms"
  obtains ds m where "ms = map (\<lambda>(k, d). (k, Inr d)) ds" "ParseStrict (encode (DObj ds)) = Inr (JObj m)"
    "writeCanonical (JObj m) = Inr x" "doc_value (DObj ds) = Inr (JObj m)" "\<forall>(k, d)\<in>set ds. valid_utf8 k"
proof -
  obtain ds v where l: "list_all2 (\<lambda>(k, r) (k', d). k = k' \<and> r = Inr d) ms ds" and
    v: "ParseStrict (encode (DObj ds)) = Inr v" "writeCanonical v = Inr x"
    using assms(1)
    by (auto simp: canonical_json_def json_Marshal_def Marshal_def and_then_Inr_iff json_object_Inr simp del: encode.simps)
  have ds: "ms = map (\<lambda>(k, d). (k, Inr d)) ds" using l by (rule list_all2_Inr)
  have ok: "doc_ok (DObj ds)" "\<forall>(k, d)\<in>set ds. valid_utf8 k" using assms(2) by (auto simp: fields_ok_def ds)
  have dv: "doc_value (DObj ds) = Inr v"
    using v(1) ParseStrict_encode[OF ok(1)] by (auto split: sum.splits simp del: encode.simps doc_value.simps)
  then obtain m where "v = JObj m" by (auto simp: and_then_Inr_iff)
  with ds v dv ok show thesis by (intro that) simp_all
qed

lemma canonical_fields_bound:
  assumes "canonical_json (json_object ms) = Inr x" and "canonical_json (json_object ms') = Inr x"
    and "fields_ok ms" "fields_ok ms'"
  shows "field_of ms k = field_of ms' k"
proof -
  obtain ds m where a: "ms = map (\<lambda>(k, d). (k, Inr d)) ds" "ParseStrict (encode (DObj ds)) = Inr (JObj m)"
    "writeCanonical (JObj m) = Inr x" "doc_value (DObj ds) = Inr (JObj m)" "\<forall>(k, d)\<in>set ds. valid_utf8 k"
    using assms(1,3) by (rule canonical_json_Inr)
  obtain ds' m' where b: "ms' = map (\<lambda>(k, d). (k, Inr d)) ds'" "ParseStrict (encode (DObj ds')) = Inr (JObj m')"
    "writeCanonical (JObj m') = Inr x" "doc_value (DObj ds') = Inr (JObj m')" "\<forall>(k, d)\<in>set ds'. valid_utf8 k"
    using assms(2,4) by (rule canonical_json_Inr)
  note f = object_fields[OF a(4,5)] and f' = object_fields[OF b(4,5)]
  have "norm (JObj m) = norm (JObj m')"
    using ParseStrict_ok[OF a(2)] ParseStrict_ok[OF b(2)] a(3) b(3) by (intro writeCanonical_inject) simp_all
  from norm_map_of[OF this f(2) f'(2), of k]
  have "map_option (\<lambda>v. Inr (norm v)) (map_of m k) = map_option (\<lambda>v. Inr (norm v)) (map_of m' k)"
    by (cases "map_of m k"; cases "map_of m' k") simp_all
  with map_of_fields[OF f(1)] map_of_fields[OF f'(1)] show ?thesis
    by (simp add: field_of_def a(1) b(1) map_of_map option.map_comp comp_def)
qed

lemma canonical_field_succeeds:
  assumes "canonical_json (json_object ms) = Inr x" and "fields_ok ms" and "(k, r) \<in> set ms"
  shows "\<exists>v. and_then r field_value = Inr v"
proof -
  obtain ds m where a: "ms = map (\<lambda>(k, d). (k, Inr d)) ds" "doc_value (DObj ds) = Inr (JObj m)"
    "\<forall>(k, d)\<in>set ds. valid_utf8 k" using assms(1,2) by (rule canonical_json_Inr)
  note f = object_fields(1)[OF a(2,3)]
  from assms(3) a(1) obtain d where d: "(k, d) \<in> set ds" "r = Inr d" by auto
  then have "(k, doc_value d) \<in> set (map (\<lambda>(k, v). (k, Inr v)) m)" unfolding f[symmetric] by force
  then show ?thesis using d(2) by (auto simp: field_value_def)
qed

lemma canonical_json_ok:
  assumes "fields_fine ms"
  shows "\<exists>x. canonical_json (json_object ms) = Inr x"
proof -
  obtain ds where ms: "ms = map (\<lambda>(k, d). (k, Inr d)) ds" and ok: "struct_ok ds"
    using assms by (rule fields_fine_docs)
  note p = ParseStrict_struct[OF ok]
  obtain c where "writeCanonical (JObj (map member_value ds)) = Inr c"
    using writeCanonical_total[OF ParseStrict_ok[OF p]] by blast
  then show ?thesis
    by (simp add: ms json_object_map canonical_json_def json_Marshal_def Marshal_def p del: encode.simps writeCanonical.simps)
qed

declare valid_utf8.simps(2) [simp del] valid_utf8_ascii [simp]
declare to_valid.simps(2) [simp del] to_valid_id [simp]

lemmas field_simps' = field_of_def fields_ok_def omit_if_def

end
