(* ===== verification/Base64.thy ===== *)
theory Base64
  imports Errors
begin

text \<open>
  \<^verbatim>\<open>base64.RawURLEncoding\<close>, the encoding behind \<^verbatim>\<open>crypto.Base64URL\<close> and
  \<^verbatim>\<open>crypto.DecodeBase64URL\<close>: the URL alphabet without padding. Decoding follows the
  standard library: carriage returns and newlines are skipped, a last group of one sextet
  is an error, and the unused low bits of a last group are not checked.
\<close>

section \<open>Sextets and characters\<close>

definition b64_char :: "nat \<Rightarrow> char" where
  "b64_char n =
     (if n < 26 then char_of (65 + n)
      else if n < 52 then char_of (71 + n)
      else if n < 62 then char_of (n - 4)
      else if n = 62 then CHR ''-'' else CHR ''_'')"

definition b64_value :: "char \<Rightarrow> nat option" where
  "b64_value c =
     (let n = of_char c :: nat in
      if 65 \<le> n \<and> n \<le> 90 then Some (n - 65)
      else if 97 \<le> n \<and> n \<le> 122 then Some (n - 71)
      else if 48 \<le> n \<and> n \<le> 57 then Some (n + 4)
      else if n = 45 then Some 62
      else if n = 95 then Some 63
      else None)"

fun b64_enc :: "nat list \<Rightarrow> nat list" where
  "b64_enc [] = []"
| "b64_enc [a] = [a div 4, a mod 4 * 16]"
| "b64_enc [a, b] = [a div 4, a mod 4 * 16 + b div 16, b mod 16 * 4]"
| "b64_enc (a # b # c # r) =
     [a div 4, a mod 4 * 16 + b div 16, b mod 16 * 4 + c div 64, c mod 64] @ b64_enc r"

fun b64_dec :: "nat list \<Rightarrow> nat list option" where
  "b64_dec [] = Some []"
| "b64_dec [a] = None"
| "b64_dec [a, b] = Some [a * 4 + b div 16]"
| "b64_dec [a, b, c] = Some [a * 4 + b div 16, b mod 16 * 16 + c div 4]"
| "b64_dec (a # b # c # d # r) =
     map_option (\<lambda>t. [a * 4 + b div 16, b mod 16 * 16 + c div 4, c mod 4 * 64 + d] @ t) (b64_dec r)"

fun b64_values :: "string \<Rightarrow> nat list option" where
  "b64_values [] = Some []"
| "b64_values (c # s) =
     (if c = CHR 0x0A \<or> c = CHR 0x0D then b64_values s
      else case b64_value c of
        None \<Rightarrow> None
      | Some v \<Rightarrow> map_option (\<lambda>vs. v # vs) (b64_values s))"

definition Base64URL :: "bytes \<Rightarrow> string" where
  "Base64URL data = map b64_char (b64_enc (map of_char data))"

definition DecodeBase64URL :: "string \<Rightarrow> bytes result" where
  "DecodeBase64URL s =
     (case Option.bind (b64_values s) b64_dec of
        None \<Rightarrow> Inl (errors_Wrap CodeCanonicalInvalid ''invalid base64url''
                 (StdError ''illegal base64 data''))
      | Some b \<Rightarrow> Inr (map char_of b))"

section \<open>Round trip\<close>

lemma b64_value_char: "n < 64 \<Longrightarrow> b64_value (b64_char n) = Some n"
  by (auto simp: b64_value_def b64_char_def Let_def)

lemma b64_char_not_newline: "n < 64 \<Longrightarrow> b64_char n \<noteq> CHR 0x0A \<and> b64_char n \<noteq> CHR 0x0D"
  using b64_value_char[of n] by (auto simp: b64_value_def)

lemma b64_values_map: "\<forall>n\<in>set ns. n < 64 \<Longrightarrow> b64_values (map b64_char ns) = Some ns"
  by (induction ns) (simp_all add: b64_value_char b64_char_not_newline)

lemma b64_enc_bound: "\<forall>n\<in>set ns. n < 256 \<Longrightarrow> \<forall>m\<in>set (b64_enc ns). m < 64"
  by (induction ns rule: b64_enc.induct) auto

lemma b64_dec_enc: "\<forall>n\<in>set ns. n < 256 \<Longrightarrow> b64_dec (b64_enc ns) = Some ns"
proof (induction ns rule: b64_enc.induct)
  case (4 a b c r)
  then have "b64_dec (b64_enc r) = Some r" by simp
  moreover from 4 have "b div 16 < 16" "c div 64 < 4" by (simp_all add: div_less_iff_less_mult)
  ultimately show ?case by simp
next
  case (3 a b)
  then have "b div 16 < 16" by (simp add: div_less_iff_less_mult)
  then show ?case by simp
qed simp_all

lemma DecodeBase64URL_Base64URL [simp]: "DecodeBase64URL (Base64URL b) = Inr b"
proof -
  have bytes: "\<forall>n\<in>set (map of_char b). n < (256 :: nat)" by simp
  have "b64_values (Base64URL b) = Some (b64_enc (map of_char b))"
    unfolding Base64URL_def using b64_enc_bound[OF bytes] by (rule b64_values_map)
  then show ?thesis
    using b64_dec_enc[OF bytes] by (simp add: DecodeBase64URL_def comp_def)
qed

lemma Base64URL_inject [simp]: "Base64URL a = Base64URL b \<longleftrightarrow> a = b"
  by (metis DecodeBase64URL_Base64URL sum.inject(2))

text \<open>The encoded text consists of letters, digits, \<open>-\<close> and \<open>_\<close>.\<close>

definition b64_text :: "char \<Rightarrow> bool" where
  "b64_text c \<longleftrightarrow> b64_value c \<noteq> None"

lemma b64_text_Base64URL: "c \<in> set (Base64URL b) \<Longrightarrow> b64_text c"
  using b64_enc_bound[of "map of_char b"]
  by (auto simp: Base64URL_def b64_text_def b64_value_char)

lemma length_b64_enc: "length (b64_enc ns) = (4 * length ns + 2) div 3"
  by (induction ns rule: b64_enc.induct) auto

lemma length_Base64URL: "length (Base64URL b) = (4 * length b + 2) div 3"
  by (simp add: Base64URL_def length_b64_enc)

end
