(* ===== verification/Crypto.thy ===== *)
theory Crypto
  imports Base64
begin

unbundle bit_operations_syntax

text \<open>
  \<^verbatim>\<open>pkg/iscp/crypto/crypto.go\<close>. The primitives themselves (Ed25519, X25519, HKDF-SHA256,
  ChaCha20-Poly1305, SHA-256, HMAC) are code outside the repository: they are the fields of
  the record \<open>prims\<close>, a parameter of every definition that reaches them. What the code
  relies on of them is stated as named predicates on \<open>prims\<close> (\<open>sig_correct\<close>,
  \<open>dh_agrees\<close>, \<open>aead_correct\<close>, \<open>hkdf_total\<close>, \<open>sha256_size\<close>): the documented
  functional behaviour, never secrecy or unforgeability. Everything the file adds around
  the primitives (key sizes, clamping, nonce sizes, error wrapping, thumbprints) is defined.

  An \<^verbatim>\<open>io.Reader\<close> of random bytes is the list of bytes it will deliver; reading past the
  end fails as \<^verbatim>\<open>io.ReadFull\<close> does.
\<close>

section \<open>Primitives\<close>

record prims =
  ed_public :: "bytes \<Rightarrow> bytes"
    \<comment> \<open>public key of a 32-byte seed\<close>
  ed_sign :: "bytes \<Rightarrow> bytes \<Rightarrow> bytes"
    \<comment> \<open>64-byte private key, message\<close>
  ed_verify :: "bytes \<Rightarrow> bytes \<Rightarrow> bytes \<Rightarrow> bool"
    \<comment> \<open>public key, message, signature\<close>
  sha256 :: "bytes \<Rightarrow> bytes"
  hmac_sha256 :: "bytes \<Rightarrow> bytes \<Rightarrow> bytes"
  x25519 :: "bytes \<Rightarrow> bytes \<Rightarrow> bytes option"
    \<comment> \<open>scalar, point; None for a low-order result\<close>
  x25519_base :: bytes
  hkdf_sha256 :: "bytes \<Rightarrow> bytes \<Rightarrow> bytes \<Rightarrow> nat \<Rightarrow> bytes option"
    \<comment> \<open>secret, salt, info, length\<close>
  chacha_seal :: "bytes \<Rightarrow> bytes \<Rightarrow> bytes \<Rightarrow> bytes \<Rightarrow> bytes"
    \<comment> \<open>key, nonce, plaintext, additional data\<close>
  chacha_open :: "bytes \<Rightarrow> bytes \<Rightarrow> bytes \<Rightarrow> bytes \<Rightarrow> bytes option"

definition sig_correct :: "prims \<Rightarrow> bool" where
  "sig_correct P \<longleftrightarrow>
     (\<forall>seed m. length seed = 32 \<longrightarrow>
        ed_verify P (ed_public P seed) m (ed_sign P (seed @ ed_public P seed) m)) \<and>
     (\<forall>seed. length seed = 32 \<longrightarrow> length (ed_public P seed) = 32)"

definition dh_agrees :: "prims \<Rightarrow> bool" where
  "dh_agrees P \<longleftrightarrow>
     (\<forall>a b pa pb. x25519 P a (x25519_base P) = Some pa \<longrightarrow> x25519 P b (x25519_base P) = Some pb \<longrightarrow>
        x25519 P a pb = x25519 P b pa) \<and>
     (\<forall>a p q. x25519 P a p = Some q \<longrightarrow> length q = 32)"

definition aead_correct :: "prims \<Rightarrow> bool" where
  "aead_correct P \<longleftrightarrow>
     (\<forall>k n p a. length k = 32 \<longrightarrow> length n = 12 \<longrightarrow>
        chacha_open P k n (chacha_seal P k n p a) a = Some p)"

definition hkdf_total :: "prims \<Rightarrow> bool" where
  "hkdf_total P \<longleftrightarrow>
     (\<forall>secret salt info n. n \<le> 255 * 32 \<longrightarrow>
        (\<exists>out. hkdf_sha256 P secret salt info n = Some out \<and> length out = n))"

definition sha256_size :: "prims \<Rightarrow> bool" where
  "sha256_size P \<longleftrightarrow> (\<forall>m. length (sha256 P m) = 32)"

section \<open>Keys and the provider\<close>

definition CiphersuiteV2 :: string where
  "CiphersuiteV2 = ''ISCP_V2_X25519_HKDF_SHA256_CHACHA20POLY1305''"

datatype Ed25519PrivateKey = Ed25519PrivateKey (priv_key: bytes)
datatype Ed25519PublicKey = Ed25519PublicKey (pub_key: bytes)
datatype X25519PrivateKey = X25519PrivateKey (xpriv_key: bytes)
datatype X25519PublicKey = X25519PublicKey (xpub_key: bytes)

type_synonym reader = bytes

definition ReadFull :: "nat \<Rightarrow> reader \<Rightarrow> (bytes \<times> reader) option" where
  "ReadFull n r = (if n \<le> length r then Some (take n r, drop n r) else None)"

definition GenerateIdentityKey ::
  "prims \<Rightarrow> reader \<Rightarrow> (Ed25519PrivateKey \<times> Ed25519PublicKey) result \<times> reader" where
  "GenerateIdentityKey P r =
     (case ReadFull 32 r of
        None \<Rightarrow> (Inl (errors_Wrap CodeKeyInvalid ''generate ed25519 key'' (StdError ''unexpected EOF'')), [])
      | Some (seed, r') \<Rightarrow>
          (Inr (Ed25519PrivateKey (seed @ ed_public P seed), Ed25519PublicKey (ed_public P seed)), r'))"

definition byte_and :: "char \<Rightarrow> nat \<Rightarrow> char" where
  "byte_and c m = char_of ((of_char c :: nat) AND m)"

definition byte_or :: "char \<Rightarrow> nat \<Rightarrow> char" where
  "byte_or c m = char_of ((of_char c :: nat) OR m)"

definition clamp :: "bytes \<Rightarrow> bytes" where
  "clamp priv =
     (let priv1 = priv[0 := byte_and (priv ! 0) 248];
          priv2 = priv1[31 := byte_and (priv1 ! 31) 127]
      in priv2[31 := byte_or (priv2 ! 31) 64])"

definition GenerateSessionKey ::
  "prims \<Rightarrow> reader \<Rightarrow> (X25519PrivateKey \<times> X25519PublicKey) result \<times> reader" where
  "GenerateSessionKey P r =
     (case ReadFull 32 r of
        None \<Rightarrow> (Inl (errors_Wrap CodeKeyInvalid ''generate x25519 private key'' (StdError ''unexpected EOF'')), [])
      | Some (raw, r') \<Rightarrow>
          (let priv = clamp raw in
           case x25519 P priv (x25519_base P) of
             None \<Rightarrow> (Inl (errors_Wrap CodeKeyInvalid ''derive x25519 public key''
                           (StdError ''bad input point'')), r')
           | Some pub \<Rightarrow> (Inr (X25519PrivateKey priv, X25519PublicKey pub), r')))"

definition Provider_Sign :: "prims \<Rightarrow> Ed25519PrivateKey \<Rightarrow> bytes \<Rightarrow> bytes" where
  "Provider_Sign P priv message = ed_sign P (priv_key priv) message"

definition Provider_Verify :: "prims \<Rightarrow> Ed25519PublicKey \<Rightarrow> bytes \<Rightarrow> bytes \<Rightarrow> bool" where
  "Provider_Verify P pub message signature = ed_verify P (pub_key pub) message signature"

definition SharedSecret :: "prims \<Rightarrow> X25519PrivateKey \<Rightarrow> X25519PublicKey \<Rightarrow> bytes result" where
  "SharedSecret P priv pub =
     (case x25519 P (xpriv_key priv) (xpub_key pub) of
        None \<Rightarrow> Inl (errors_Wrap CodeKeyInvalid ''x25519 agreement failed'' (StdError ''bad input point''))
      | Some secret \<Rightarrow> Inr secret)"

definition HKDF :: "prims \<Rightarrow> bytes \<Rightarrow> bytes \<Rightarrow> bytes \<Rightarrow> nat \<Rightarrow> bytes result" where
  "HKDF P secret salt info len =
     (case hkdf_sha256 P secret salt info len of
        None \<Rightarrow> Inl (errors_Wrap CodeKeyInvalid ''hkdf derive failed'' (StdError ''entropy limit reached''))
      | Some out \<Rightarrow> Inr out)"

definition Provider_Seal :: "prims \<Rightarrow> bytes \<Rightarrow> bytes \<Rightarrow> bytes \<Rightarrow> bytes \<Rightarrow> bytes result" where
  "Provider_Seal P key nonce plaintext aad =
     (if length key \<noteq> 32
      then Inl (errors_Wrap CodeEnvelopeInvalid ''create aead'' (StdError ''bad key length''))
      else if length nonce \<noteq> 12 then reject CodeEnvelopeInvalid ''invalid nonce size''
      else Inr (chacha_seal P key nonce plaintext aad))"

definition Provider_Open :: "prims \<Rightarrow> bytes \<Rightarrow> bytes \<Rightarrow> bytes \<Rightarrow> bytes \<Rightarrow> bytes result" where
  "Provider_Open P key nonce ciphertext aad =
     (if length key \<noteq> 32
      then Inl (errors_Wrap CodeEnvelopeInvalid ''create aead'' (StdError ''bad key length''))
      else if length nonce \<noteq> 12 then reject CodeEnvelopeInvalid ''invalid nonce size''
      else case chacha_open P key nonce ciphertext aad of
        None \<Rightarrow> Inl (errors_Wrap CodeEnvelopeInvalid ''aead authentication failed''
                  (StdError ''message authentication failed''))
      | Some plaintext \<Rightarrow> Inr plaintext)"

definition EqualMAC :: "bytes \<Rightarrow> bytes \<Rightarrow> bool" where
  "EqualMAC a b \<longleftrightarrow> a = b"

definition PrivateKey_Public :: "Ed25519PrivateKey \<Rightarrow> Ed25519PublicKey" where
  "PrivateKey_Public k = Ed25519PublicKey (drop 32 (priv_key k))"

definition BytesForDevStore :: "Ed25519PrivateKey \<Rightarrow> bytes" where
  "BytesForDevStore k = priv_key k"

definition Ed25519PrivateKeyFromBytes :: "bytes \<Rightarrow> Ed25519PrivateKey result" where
  "Ed25519PrivateKeyFromBytes b =
     (if length b \<noteq> 64 then reject CodeKeyInvalid ''invalid ed25519 private key size''
      else Inr (Ed25519PrivateKey b))"

definition Ed25519PublicKeyFromBytes :: "bytes \<Rightarrow> Ed25519PublicKey result" where
  "Ed25519PublicKeyFromBytes b =
     (if length b \<noteq> 32 then reject CodeKeyInvalid ''invalid ed25519 public key size''
      else Inr (Ed25519PublicKey b))"

definition X25519PublicKeyFromBytes :: "bytes \<Rightarrow> X25519PublicKey result" where
  "X25519PublicKeyFromBytes b =
     (if length b \<noteq> 32 then reject CodeKeyInvalid ''invalid x25519 public key size''
      else Inr (X25519PublicKey b))"

definition Thumbprint :: "prims \<Rightarrow> string \<Rightarrow> bytes \<Rightarrow> string" where
  "Thumbprint P keyType public =
     Base64URL (sha256 P (''iscp/v2/thumbprint/'' @ keyType @ [NUL] @ public))"

text \<open>\<^verbatim>\<open>RandomBytes\<close> panics when the system source fails; the model's draw is the first \<open>n\<close> bytes.\<close>

definition RandomBytes :: "nat \<Rightarrow> reader \<Rightarrow> (bytes \<times> reader) option" where
  "RandomBytes n r = ReadFull n r"

section \<open>Properties\<close>

lemma Provider_Open_Seal:
  assumes "aead_correct P" and "Provider_Seal P k n p a = Inr c"
  shows "Provider_Open P k n c a = Inr p"
  using assms
  by (auto simp: Provider_Seal_def Provider_Open_def aead_correct_def split: if_splits option.splits)

lemma Provider_Seal_ok: "length k = 32 \<Longrightarrow> length n = 12 \<Longrightarrow> \<exists>c. Provider_Seal P k n p a = Inr c"
  by (simp add: Provider_Seal_def)

lemma HKDF_ok:
  assumes "hkdf_total P" and "n \<le> 255 * 32"
  shows "\<exists>out. HKDF P s t i n = Inr out \<and> length out = n"
proof -
  obtain out where "hkdf_sha256 P s t i n = Some out" "length out = n"
    using assms unfolding hkdf_total_def by blast
  then show ?thesis by (simp add: HKDF_def)
qed

lemma length_ReadFull: "ReadFull n r = Some (x, r') \<Longrightarrow> length x = n \<and> x @ r' = r"
  by (auto simp: ReadFull_def split: if_splits)

lemma length_clamp [simp]: "length (clamp x) = length x"
  by (simp add: clamp_def Let_def)

lemma GenerateIdentityKey_Inr:
  assumes "GenerateIdentityKey P r = (Inr (priv, pub), r')"
  obtains seed where "length seed = 32" "priv = Ed25519PrivateKey (seed @ ed_public P seed)"
    "pub = Ed25519PublicKey (ed_public P seed)"
proof (cases "ReadFull 32 r")
  case None
  with assms show ?thesis by (simp add: GenerateIdentityKey_def)
next
  case (Some p)
  with assms length_ReadFull[of 32 r] show ?thesis
    by (cases p) (auto simp: GenerateIdentityKey_def intro: that)
qed

lemma GenerateIdentityKey_pair:
  assumes "sig_correct P" and "GenerateIdentityKey P r = (Inr (priv, pub), r')"
  shows "length (pub_key pub) = 32" and "Provider_Verify P pub m (Provider_Sign P priv m)"
    and "length (priv_key priv) = 64" and "PrivateKey_Public priv = pub"
proof -
  from assms(2) obtain seed where seed: "length seed = 32"
    and k: "priv = Ed25519PrivateKey (seed @ ed_public P seed)" "pub = Ed25519PublicKey (ed_public P seed)"
    by (rule GenerateIdentityKey_Inr)
  have P: "length (ed_public P seed) = 32"
    "ed_verify P (ed_public P seed) m (ed_sign P (seed @ ed_public P seed) m)"
    using assms(1) seed unfolding sig_correct_def by blast+
  from P seed show "length (pub_key pub) = 32" "Provider_Verify P pub m (Provider_Sign P priv m)"
    "length (priv_key priv) = 64" "PrivateKey_Public priv = pub"
    by (simp_all add: k Provider_Verify_def Provider_Sign_def PrivateKey_Public_def)
qed

lemma GenerateSessionKey_pair:
  assumes "GenerateSessionKey P r = (Inr (priv, pub), r')"
  shows "x25519 P (xpriv_key priv) (x25519_base P) = Some (xpub_key pub)"
  using assms by (auto simp: GenerateSessionKey_def Let_def split: option.splits prod.splits)

lemma SharedSecret_agree:
  assumes "dh_agrees P"
    and "GenerateSessionKey P r = (Inr (a, A), r1)" and "GenerateSessionKey P s = (Inr (b, B), s1)"
  shows "SharedSecret P a B = SharedSecret P b A"
proof -
  have "x25519 P (xpriv_key a) (xpub_key B) = x25519 P (xpriv_key b) (xpub_key A)"
    using assms(1) GenerateSessionKey_pair[OF assms(2)] GenerateSessionKey_pair[OF assms(3)]
    unfolding dh_agrees_def by blast
  then show ?thesis by (simp add: SharedSecret_def)
qed

lemma from_bytes_ok:
  "length b = 32 \<Longrightarrow> Ed25519PublicKeyFromBytes b = Inr (Ed25519PublicKey b)"
  "length b = 32 \<Longrightarrow> X25519PublicKeyFromBytes b = Inr (X25519PublicKey b)"
  "length b = 64 \<Longrightarrow> Ed25519PrivateKeyFromBytes b = Inr (Ed25519PrivateKey b)"
  by (simp_all add: Ed25519PublicKeyFromBytes_def X25519PublicKeyFromBytes_def
      Ed25519PrivateKeyFromBytes_def)

end
