(* ===== verification/Model_Prims.thy ===== *)
theory Model_Prims
  imports Crypto
begin

text \<open>
  One executable instance of the cryptographic primitives that satisfies every law the
  development names. It has no security at all; it shows that the laws hold together, and the
  witnesses of properties that assume them are evaluated on it.
\<close>

definition add_byte :: "char \<Rightarrow> char \<Rightarrow> char" where
  "add_byte a b = char_of ((of_char a :: nat) + of_char b)"

definition model_tag :: bytes where
  "model_tag = replicate 16 (CHR ''t'')"

definition model_prims :: prims where
  "model_prims = \<lparr>
     ed_public = (\<lambda>seed. seed),
     ed_sign = (\<lambda>k m. drop 32 k @ m),
     ed_verify = (\<lambda>p m s. s = p @ m),
     sha256 = (\<lambda>m. take 32 (m @ replicate 32 (CHR ''h''))),
     hmac_sha256 = (\<lambda>k m. take 32 (k @ m @ replicate 32 (CHR ''m''))),
     x25519 = (\<lambda>s p. if length s = 32 \<and> length p = 32 then Some (map2 add_byte s p) else None),
     x25519_base = replicate 32 NUL,
     hkdf_sha256 = (\<lambda>secret salt info n. if n \<le> 255 * 32
        then Some (take n (info @ secret @ salt @ replicate n (CHR ''k''))) else None),
     chacha_seal = (\<lambda>k n p a. p @ model_tag),
     chacha_open = (\<lambda>k n c a. if 16 \<le> length c \<and> drop (length c - 16) c = model_tag
        then Some (take (length c - 16) c) else None)\<rparr>"

lemma add_byte_commute: "add_byte a b = add_byte b a"
  by (simp add: add_byte_def add.commute)

lemma map2_add_byte_commute: "map2 add_byte a b = map2 add_byte b a"
proof (induction a arbitrary: b)
  case (Cons x a)
  then show ?case by (cases b) (simp_all add: add_byte_commute)
qed simp

lemma map2_add_byte_zero: "map2 add_byte a (replicate (length a) NUL) = a"
  by (induction a) (simp_all add: add_byte_def)

lemma model_sig: "sig_correct model_prims"
  by (simp add: sig_correct_def model_prims_def)

lemma model_dh: "dh_agrees model_prims"
proof -
  have "map2 add_byte a (replicate 32 NUL) = a" if "length a = 32" for a
    using map2_add_byte_zero[of a] that by simp
  then show ?thesis
    by (auto simp: dh_agrees_def model_prims_def map2_add_byte_commute split: if_splits)
qed

lemma model_aead: "aead_correct model_prims"
  by (simp add: aead_correct_def model_prims_def model_tag_def)

lemma model_hkdf: "hkdf_total model_prims"
  by (auto simp: hkdf_total_def model_prims_def)

lemma model_sha256: "sha256_size model_prims"
  by (auto simp: sha256_size_def model_prims_def)

lemmas model_laws = model_sig model_dh model_aead model_hkdf model_sha256

lemma model_session_key:
  "\<exists>priv pub. GenerateSessionKey model_prims (replicate 32 c @ rest) = (Inr (priv, pub), rest) \<and>
     length (xpriv_key priv) = 32 \<and> length (xpub_key pub) = 32"
  by (simp add: GenerateSessionKey_def ReadFull_def model_prims_def Let_def)

lemma model_shared:
  "length (xpriv_key k) = 32 \<Longrightarrow> length pb = 32 \<Longrightarrow> \<exists>s. SharedSecret model_prims k (X25519PublicKey pb) = Inr s"
  by (simp add: SharedSecret_def model_prims_def)

end
