(* ===== verification/Identity.thy ===== *)
theory Identity
  imports Json_Struct Model_Prims
begin

text \<open>
  \<^verbatim>\<open>pkg/iscp/identity/identity.go\<close>: device identities, devices and possession proofs. The last
  steps of every \<^verbatim>\<open>Verify...\<close> function of the repository are the same code (decode the public
  key, decode the signature, rebuild the signature input of the unsigned copy, verify); they are
  \<open>check_signature\<close>. The locale \<open>signed_object\<close> is the contract between a signed struct and this
  code: clearing the signature forgets nothing else, so what was signed is what is checked.
\<close>

section \<open>Types\<close>

definition TypeDeviceIdentity :: string where "TypeDeviceIdentity = ''iscp.device.identity.v2''"
definition TypeDeviceProof :: string where "TypeDeviceProof = ''iscp.device.proof.v2''"

record PublicKey =
  PK_KTY :: string
  PK_Use :: string
  PK_KID :: string
  PK_Public :: string

record DeviceIdentity =
  ID_Type :: string
  ID_DomainID :: string
  ID_DeviceID :: string
  ID_PublicKey :: PublicKey
  ID_CreatedAt :: time
  ID_Metadata :: "(string \<times> string) list"

record Signature =
  Sig_Alg :: string
  Sig_KID :: string
  Sig_Value :: string

definition no_signature :: Signature where
  "no_signature = \<lparr>Sig_Alg = [], Sig_KID = [], Sig_Value = []\<rparr>"

record DeviceProof =
  DP_Type :: string
  DP_DomainID :: string
  DP_DeviceID :: string
  DP_Audience :: string
  DP_Challenge :: string
  DP_Nonce :: string
  DP_IssuedAt :: time
  DP_Signature :: Signature

record Device =
  Dev_Identity :: DeviceIdentity
  Dev_Private :: Ed25519PrivateKey

section \<open>Documents\<close>

definition public_key_doc :: "PublicKey \<Rightarrow> jdoc" where
  "public_key_doc k = DObj
     [(''kty'', DStr (PK_KTY k)), (''use'', DStr (PK_Use k)), (''kid'', DStr (PK_KID k)),
      (''public'', DStr (PK_Public k))]"

definition identity_fields :: "DeviceIdentity \<Rightarrow> (string \<times> jdoc result) list" where
  "identity_fields ident =
     [(''type'', Inr (DStr (ID_Type ident))), (''domain_id'', Inr (DStr (ID_DomainID ident))),
      (''device_id'', Inr (DStr (ID_DeviceID ident))), (''public_key'', Inr (public_key_doc (ID_PublicKey ident))),
      (''created_at'', time_doc (ID_CreatedAt ident))]
     @ omit_if (ID_Metadata ident = []) (''metadata'', Inr (str_map_doc (ID_Metadata ident)))"

definition signature_doc :: "Signature \<Rightarrow> jdoc" where
  "signature_doc s = DObj
     [(''alg'', DStr (Sig_Alg s)), (''kid'', DStr (Sig_KID s)), (''value'', DStr (Sig_Value s))]"

definition proof_fields :: "DeviceProof \<Rightarrow> (string \<times> jdoc result) list" where
  "proof_fields p =
     [(''type'', Inr (DStr (DP_Type p))), (''domain_id'', Inr (DStr (DP_DomainID p))),
      (''device_id'', Inr (DStr (DP_DeviceID p))), (''audience'', Inr (DStr (DP_Audience p))),
      (''challenge'', Inr (DStr (DP_Challenge p))), (''nonce'', Inr (DStr (DP_Nonce p))),
      (''issued_at'', time_doc (DP_IssuedAt p)), (''signature'', Inr (signature_doc (DP_Signature p)))]"

definition proof_signature_input :: "DeviceProof \<Rightarrow> bytes result" where
  "proof_signature_input p = signature_input TypeDeviceProof (json_object (proof_fields p))"

section \<open>Signing and checking\<close>

definition make_signature :: "prims \<Rightarrow> Device \<Rightarrow> bytes \<Rightarrow> Signature" where
  "make_signature P dev input =
     \<lparr>Sig_Alg = ''Ed25519'', Sig_KID = PK_KID (ID_PublicKey (Dev_Identity dev)),
      Sig_Value = Base64URL (Provider_Sign P (Dev_Private dev) input)\<rparr>"

definition check_signature ::
  "prims \<Rightarrow> DeviceIdentity \<Rightarrow> Signature \<Rightarrow> bytes result \<Rightarrow> go_error \<Rightarrow> unit result" where
  "check_signature P signer s unsigned_input err =
     and_then (DecodeBase64URL (PK_Public (ID_PublicKey signer))) (\<lambda>pubBytes.
     and_then (Ed25519PublicKeyFromBytes pubBytes) (\<lambda>pub.
     and_then (DecodeBase64URL (Sig_Value s)) (\<lambda>sig.
     and_then unsigned_input (\<lambda>input.
       fail_if (\<not> Provider_Verify P pub input sig) err (Inr ())))))"

definition NewDevice :: "prims \<Rightarrow> reader \<Rightarrow> string \<Rightarrow> string \<Rightarrow> time \<Rightarrow> Device result \<times> reader" where
  "NewDevice P r domainID deviceID now =
     (case GenerateIdentityKey P r of
        (Inl err, r') \<Rightarrow> (Inl err, r')
      | (Inr (priv, pub), r') \<Rightarrow>
          (let pubBytes = pub_key pub; kid = Thumbprint P ''Ed25519'' pubBytes in
           (Inr \<lparr>Dev_Identity =
                 \<lparr>ID_Type = TypeDeviceIdentity, ID_DomainID = domainID, ID_DeviceID = deviceID,
                  ID_PublicKey = \<lparr>PK_KTY = ''Ed25519'', PK_Use = ''identity-signature'', PK_KID = kid,
                                  PK_Public = Base64URL pubBytes\<rparr>,
                  ID_CreatedAt = now, ID_Metadata = []\<rparr>,
                 Dev_Private = priv\<rparr>, r')))"

definition CreateProof ::
  "prims \<Rightarrow> Device \<Rightarrow> string \<Rightarrow> string \<Rightarrow> string \<Rightarrow> time \<Rightarrow> DeviceProof result" where
  "CreateProof P d audience challenge nonce now =
     (let prf = \<lparr>DP_Type = TypeDeviceProof, DP_DomainID = ID_DomainID (Dev_Identity d),
                   DP_DeviceID = ID_DeviceID (Dev_Identity d), DP_Audience = audience,
                   DP_Challenge = challenge, DP_Nonce = nonce, DP_IssuedAt = now,
                   DP_Signature = no_signature\<rparr>
      in and_then (proof_signature_input prf) (\<lambda>input.
           Inr (prf\<lparr>DP_Signature := make_signature P d input\<rparr>)))"

definition VerifyProof ::
  "prims \<Rightarrow> DeviceIdentity \<Rightarrow> DeviceProof \<Rightarrow> string \<Rightarrow> string \<Rightarrow> time \<Rightarrow> duration \<Rightarrow> unit result" where
  "VerifyProof P ident prf audience challenge now ttl =
     (if DP_Type prf \<noteq> TypeDeviceProof then reject CodeSignatureInvalid ''invalid proof type''
      else if ID_DomainID ident \<noteq> DP_DomainID prf \<or> ID_DeviceID ident \<noteq> DP_DeviceID prf
        then reject CodeSignatureInvalid ''proof identity mismatch''
      else if DP_Audience prf \<noteq> audience \<or> DP_Challenge prf \<noteq> challenge
        then reject CodeSignatureInvalid ''proof audience or challenge mismatch''
      else if ttl < Sub now (DP_IssuedAt prf) \<or> After (DP_IssuedAt prf) (Add now ttl)
        then reject CodeSignatureInvalid ''proof is outside allowed time window''
      else and_then (DecodeBase64URL (PK_Public (ID_PublicKey ident))) (\<lambda>pubBytes.
        if PK_KID (ID_PublicKey ident) \<noteq> Thumbprint P (PK_KTY (ID_PublicKey ident)) pubBytes
          then reject CodeKeyInvalid ''identity kid does not match public key thumbprint''
        else if Sig_KID (DP_Signature prf) \<noteq> PK_KID (ID_PublicKey ident)
          then reject CodeKeyInvalid ''proof signature kid does not match identity key''
        else check_signature P ident (DP_Signature prf)
               (proof_signature_input (prf\<lparr>DP_Signature := no_signature\<rparr>))
               (errors_New CodeSignatureInvalid ''proof signature verification failed'')))"

definition identity_Thumbprint :: "prims \<Rightarrow> DeviceIdentity \<Rightarrow> string result" where
  "identity_Thumbprint P ident =
     and_then (DecodeBase64URL (PK_Public (ID_PublicKey ident))) (\<lambda>pubBytes.
       Inr (Thumbprint P (PK_KTY (ID_PublicKey ident)) pubBytes))"

section \<open>Keys that belong to an identity\<close>

text \<open>The device holds the private key of its identity's public key, under its thumbprint.\<close>

definition device_ok :: "prims \<Rightarrow> Device \<Rightarrow> bool" where
  "device_ok P d \<longleftrightarrow> length (priv_key (Dev_Private d)) = 64 \<and>
     drop 32 (priv_key (Dev_Private d)) = ed_public P (take 32 (priv_key (Dev_Private d))) \<and>
     (let pub = drop 32 (priv_key (Dev_Private d)); k = ID_PublicKey (Dev_Identity d) in
      PK_Public k = Base64URL pub \<and> PK_KTY k = ''Ed25519'' \<and> PK_KID k = Thumbprint P ''Ed25519'' pub)"

lemma NewDevice_ok:
  assumes "sig_correct P" and "NewDevice P r domainID deviceID now = (Inr d, r')"
  shows "device_ok P d" and "ID_DomainID (Dev_Identity d) = domainID" "ID_DeviceID (Dev_Identity d) = deviceID"
proof -
  obtain priv pub where k: "GenerateIdentityKey P r = (Inr (priv, pub), r')"
    using assms(2) by (auto simp: NewDevice_def Let_def split: prod.splits sum.splits)
  then obtain seed where seed: "length seed = 32" "priv = Ed25519PrivateKey (seed @ ed_public P seed)"
    "pub = Ed25519PublicKey (ed_public P seed)" by (rule GenerateIdentityKey_Inr)
  with assms k show "device_ok P d" "ID_DomainID (Dev_Identity d) = domainID" "ID_DeviceID (Dev_Identity d) = deviceID"
    by (auto simp: NewDevice_def Let_def device_ok_def sig_correct_def)
qed

lemma check_signature_Inr:
  "check_signature P signer s inp err = Inr () \<longleftrightarrow>
     (\<exists>pub sig x. DecodeBase64URL (PK_Public (ID_PublicKey signer)) = Inr pub \<and> length pub = 32 \<and>
        DecodeBase64URL (Sig_Value s) = Inr sig \<and> inp = Inr x \<and> ed_verify P pub x sig)"
  by (auto simp: check_signature_def and_then_Inr_iff fail_if_Inr_iff Ed25519PublicKeyFromBytes_def
      Provider_Verify_def)

lemma check_make_signature:
  assumes "sig_correct P" and "device_ok P d" and "inp = Inr x"
  shows "check_signature P (Dev_Identity d) (make_signature P d x) inp err = Inr ()"
proof -
  let ?k = "priv_key (Dev_Private d)"
  have k: "length (take 32 ?k) = 32" "?k = take 32 ?k @ ed_public P (take 32 ?k)"
    "PK_Public (ID_PublicKey (Dev_Identity d)) = Base64URL (ed_public P (take 32 ?k))"
    using assms(2) by (auto simp: device_ok_def Let_def) (metis append_take_drop_id)
  have "length (ed_public P (take 32 ?k)) = 32"
    "ed_verify P (ed_public P (take 32 ?k)) x (ed_sign P (take 32 ?k @ ed_public P (take 32 ?k)) x)"
    using assms(1) k(1) unfolding sig_correct_def by blast+
  with k(2,3) assms(3) show ?thesis
    unfolding check_signature_Inr by (simp add: make_signature_def Provider_Sign_def)
qed

section \<open>The contract of a signed struct\<close>

locale signed_object =
  fixes sig_of :: "'o \<Rightarrow> Signature" and with_sig :: "Signature \<Rightarrow> 'o \<Rightarrow> 'o" and input :: "'o \<Rightarrow> bytes result"
  assumes sig_of_with_sig: "sig_of (with_sig s x) = s"
    and with_sig_twice: "with_sig s (with_sig t x) = with_sig s x"
begin

lemma signed_checks:
  assumes "sig_correct P" "device_ok P d" and "input (with_sig no_signature x) = Inr m"
    and "y = with_sig (make_signature P d m) x"
  shows "check_signature P (Dev_Identity d) (sig_of y) (input (with_sig no_signature y)) err = Inr ()"
  using assms by (simp add: sig_of_with_sig with_sig_twice check_make_signature)

lemma signature_covers:
  assumes "check_signature P signer (sig_of x) (input (with_sig no_signature x)) err = Inr ()"
  obtains pub sig m where "DecodeBase64URL (PK_Public (ID_PublicKey signer)) = Inr pub"
    "DecodeBase64URL (Sig_Value (sig_of x)) = Inr sig" "input (with_sig no_signature x) = Inr m" "ed_verify P pub m sig"
  using assms unfolding check_signature_Inr by blast

end

interpretation proof_sig: signed_object DP_Signature "\<lambda>s p. p\<lparr>DP_Signature := s\<rparr>" proof_signature_input
  by unfold_locales simp_all

section \<open>Lemmas on possession proofs\<close>

lemma doc_ok_signature [simp]: "doc_ok (signature_doc s)" "doc_ok (public_key_doc k)"
  by (simp_all add: signature_doc_def public_key_doc_def)

lemma fields_ok_proof: "fields_ok (proof_fields p)"
  by (auto simp: fields_ok_def proof_fields_def time_doc_Inr)

definition proof_strings_valid :: "DeviceProof \<Rightarrow> bool" where
  "proof_strings_valid p \<longleftrightarrow> valid_utf8 (DP_Type p) \<and> valid_utf8 (DP_DomainID p) \<and> valid_utf8 (DP_DeviceID p) \<and>
     valid_utf8 (DP_Audience p) \<and> valid_utf8 (DP_Challenge p) \<and> valid_utf8 (DP_Nonce p)"

lemma proof_input_inject:
  assumes "proof_signature_input p = Inr x" and "proof_signature_input q = Inr x"
    and "proof_strings_valid p" "proof_strings_valid q"
  shows "p\<lparr>DP_Signature := s\<rparr> = q\<lparr>DP_Signature := s\<rparr>"
proof -
  have ty: "NUL \<notin> set TypeDeviceProof" by (simp add: TypeDeviceProof_def)
  note i = assms(1,2)[unfolded proof_signature_input_def]
  have f: "field_of (proof_fields p) k = field_of (proof_fields q) k" if "k \<noteq> ''signature''" for k
    using fields_bound[OF i ty ty fields_ok_proof fields_ok_proof that] by simp
  have t: "and_then (time_doc (DP_IssuedAt p)) field_value = and_then (time_doc (DP_IssuedAt q)) field_value"
    using f[of "''issued_at''"] by (simp add: field_of_def proof_fields_def)
  have "\<exists>v. and_then (time_doc (DP_IssuedAt p)) field_value = Inr v"
    by (rule field_succeeds[where k = "''issued_at''", OF i(1) fields_ok_proof]) (simp add: proof_fields_def)
  then have "DP_IssuedAt p = DP_IssuedAt q" using t by (metis time_field_inject time_field_ok)
  moreover have "DP_Type p = DP_Type q" "DP_DomainID p = DP_DomainID q" "DP_DeviceID p = DP_DeviceID q"
    "DP_Audience p = DP_Audience q" "DP_Challenge p = DP_Challenge q" "DP_Nonce p = DP_Nonce q"
    using f[of "''type''"] f[of "''domain_id''"] f[of "''device_id''"] f[of "''audience''"]
      f[of "''challenge''"] f[of "''nonce''"] assms(3,4)
    by (simp_all add: field_of_def proof_fields_def proof_strings_valid_def to_valid_id)
  ultimately show ?thesis by simp
qed

lemma CreateProof_verifies:
  assumes "sig_correct P" "device_ok P d" and p: "CreateProof P d audience challenge nonce issued = Inr p"
    and "0 \<le> ttl" "ttl < max_int64" "issued - ttl \<le> now" "now \<le> issued + ttl"
  shows "VerifyProof P (Dev_Identity d) p audience challenge now ttl = Inr ()"
proof -
  obtain p0 m where p0: "proof_signature_input (p0\<lparr>DP_Signature := no_signature\<rparr>) = Inr m"
    "p = p0\<lparr>DP_Signature := make_signature P d m\<rparr>" and f: "DP_Type p = TypeDeviceProof"
    "DP_DomainID p = ID_DomainID (Dev_Identity d)" "DP_DeviceID p = ID_DeviceID (Dev_Identity d)"
    "DP_Audience p = audience" "DP_Challenge p = challenge" "DP_IssuedAt p = issued"
    using p by (auto simp: CreateProof_def Let_def and_then_Inr_iff
        intro!: that[of "\<lparr>DP_Type = TypeDeviceProof, DP_DomainID = ID_DomainID (Dev_Identity d),
                   DP_DeviceID = ID_DeviceID (Dev_Identity d), DP_Audience = audience,
                   DP_Challenge = challenge, DP_Nonce = nonce, DP_IssuedAt = issued,
                   DP_Signature = no_signature\<rparr>"])
  have w: "\<not> ttl < Sub now issued" "\<not> After issued (Add now ttl)"
    using assms(4-7) Sub_gt_iff[OF assms(4,5), of now issued] by (auto simp: After_def Add_def)
  have k: "Sig_KID (DP_Signature p) = PK_KID (ID_PublicKey (Dev_Identity d))"
    by (simp add: p0(2) make_signature_def)
  show ?thesis
    using f w k assms(2) proof_sig.signed_checks[OF assms(1,2) p0]
    by (auto simp: VerifyProof_def device_ok_def Let_def)
qed

lemma doc_value_signature [simp]: "is_ok (doc_value (signature_doc s))" "is_ok (doc_value (public_key_doc k))"
  by (simp_all add: signature_doc_def public_key_doc_def)

lemma fields_fine_proof: "year_ok (DP_IssuedAt p) \<Longrightarrow> fields_fine (proof_fields p)"
  by (auto simp: fields_fine_def proof_fields_def time_doc_ok)

lemma proof_input_ok: "year_ok (DP_IssuedAt p) \<Longrightarrow> \<exists>x. proof_signature_input p = Inr x"
  unfolding proof_signature_input_def by (intro signature_input_ok fields_fine_proof)

lemma proof_input_strip:
  "year_ok (DP_IssuedAt p) \<Longrightarrow> proof_signature_input (p\<lparr>DP_Signature := s\<rparr>) = proof_signature_input p"
  unfolding proof_signature_input_def
  by (intro signature_input_strip fields_fine_proof) (simp_all add: proof_fields_def)

lemma CreateProof_ok:
  assumes "year_ok now"
  shows "\<exists>p. CreateProof P d audience challenge nonce now = Inr p"
  using assms proof_input_ok[of "\<lparr>DP_Type = TypeDeviceProof, DP_DomainID = ID_DomainID (Dev_Identity d),
                   DP_DeviceID = ID_DeviceID (Dev_Identity d), DP_Audience = audience,
                   DP_Challenge = challenge, DP_Nonce = nonce, DP_IssuedAt = now,
                   DP_Signature = no_signature\<rparr>"]
  by (auto simp: CreateProof_def Let_def)

lemma CreateProof_fields:
  "CreateProof P d audience challenge nonce now = Inr p \<Longrightarrow> DP_Type p = TypeDeviceProof \<and>
     DP_DomainID p = ID_DomainID (Dev_Identity d) \<and> DP_DeviceID p = ID_DeviceID (Dev_Identity d) \<and>
     DP_Audience p = audience \<and> DP_Challenge p = challenge \<and> DP_IssuedAt p = now"
  by (auto simp: CreateProof_def Let_def and_then_Inr_iff)

lemma model_device: "\<exists>d. NewDevice model_prims (replicate 32 (CHR ''s'')) domainID deviceID t = (Inr d, [])"
  by (simp add: NewDevice_def GenerateIdentityKey_def ReadFull_def Let_def)

text \<open>\<^verbatim>\<open>VerifyProof\<close> accepts when all its checks pass; the two time comparisons make one window.\<close>

lemma VerifyProof_Inr:
  assumes "0 \<le> ttl" "ttl < max_int64"
  shows "VerifyProof P ident prf audience challenge now ttl = Inr () \<longleftrightarrow>
     DP_Type prf = TypeDeviceProof \<and>
     DP_DomainID prf = ID_DomainID ident \<and> DP_DeviceID prf = ID_DeviceID ident \<and>
     DP_Audience prf = audience \<and> DP_Challenge prf = challenge \<and>
     DP_IssuedAt prf - ttl \<le> now \<and> now \<le> DP_IssuedAt prf + ttl \<and>
     (\<exists>pub sig m. DecodeBase64URL (PK_Public (ID_PublicKey ident)) = Inr pub \<and> length pub = 32 \<and>
        PK_KID (ID_PublicKey ident) = Thumbprint P (PK_KTY (ID_PublicKey ident)) pub \<and>
        Sig_KID (DP_Signature prf) = PK_KID (ID_PublicKey ident) \<and>
        DecodeBase64URL (Sig_Value (DP_Signature prf)) = Inr sig \<and>
        proof_signature_input (prf\<lparr>DP_Signature := no_signature\<rparr>) = Inr m \<and> ed_verify P pub m sig)"
proof -
  have w: "(ttl < Sub now (DP_IssuedAt prf) \<or> After (DP_IssuedAt prf) (Add now ttl)) \<longleftrightarrow>
      \<not> (DP_IssuedAt prf - ttl \<le> now \<and> now \<le> DP_IssuedAt prf + ttl)"
    using Sub_gt_iff[OF assms, of now "DP_IssuedAt prf"] by (auto simp: After_def Add_def)
  show ?thesis
    unfolding VerifyProof_def w
    by (auto simp: and_then_Inr_iff check_signature_Inr)
qed

section \<open>Properties\<close>

text \<open>
  A device made by \<^verbatim>\<open>NewDevice\<close> can prove possession of its key: a proof it creates is
  accepted for its own identity, audience and challenge at every instant within the time to live
  of its issue.
\<close>

theorem possession_proof_accepted:
  assumes "sig_correct P" and "NewDevice P r domainID deviceID created = (Inr d, r')"
    and "CreateProof P d audience challenge nonce issued = Inr p"
    and "0 \<le> ttl" "ttl < max_int64" "issued - ttl \<le> now" "now \<le> issued + ttl"
  shows "VerifyProof P (Dev_Identity d) p audience challenge now ttl = Inr ()"
  using CreateProof_verifies[OF assms(1) NewDevice_ok(1)[OF assms(1,2)] assms(3-7)] .

theorem possession_proof_accepted_witness:
  "\<exists>d p. NewDevice model_prims (replicate 32 (CHR ''s'')) ''dom'' ''dev'' 0 = (Inr d, []) \<and>
     CreateProof model_prims d ''relay'' ''c'' ''n'' 0 = Inr p \<and>
     VerifyProof model_prims (Dev_Identity d) p ''relay'' ''c'' (60 * Second) (5 * Minute) = Inr ()"
proof -
  obtain d where d: "NewDevice model_prims (replicate 32 (CHR ''s'')) ''dom'' ''dev'' 0 = (Inr d, [])"
    using model_device by blast
  have "year_ok 0" by code_simp
  then obtain p where p: "CreateProof model_prims d ''relay'' ''c'' ''n'' 0 = Inr p"
    using CreateProof_ok by blast
  have "VerifyProof model_prims (Dev_Identity d) p ''relay'' ''c'' (60 * Second) (5 * Minute) = Inr ()"
    by (rule possession_proof_accepted[OF model_sig d p]) (simp_all add: Minute_def Second_def)
  with d p show ?thesis by blast
qed

text \<open>
  C16. A proof created by a device is accepted exactly for the device's own domain and device id, for the audience and
  challenge it was made for, from the time to live before its issue to the time to live after it, and when the
  identity's key id is the thumbprint of the device's public key under the identity's key type and the signature
  carries that key id. The key type itself is free: \<^verbatim>\<open>VerifyProof\<close> never compares it with \<^verbatim>\<open>Ed25519\<close>, so an
  identity that names any other type is accepted on the same terms.
\<close>

theorem created_proof_accepted_iff:
  assumes "sig_correct P" and "NewDevice P r domainID deviceID created = (Inr d, r')"
    and "CreateProof P d audience challenge nonce issued = Inr p"
    and "0 \<le> ttl" "ttl < max_int64"
  shows "VerifyProof P ((Dev_Identity d)\<lparr>ID_DomainID := dom_id, ID_DeviceID := dev_id,
       ID_PublicKey := (ID_PublicKey (Dev_Identity d))\<lparr>PK_KTY := kty, PK_KID := kid\<rparr>\<rparr>)
     (p\<lparr>DP_Signature := (DP_Signature p)\<lparr>Sig_KID := skid\<rparr>\<rparr>) aud chal now ttl = Inr () \<longleftrightarrow>
     dom_id = domainID \<and> dev_id = deviceID \<and> aud = audience \<and> chal = challenge \<and>
     issued - ttl \<le> now \<and> now \<le> issued + ttl \<and>
     kid = Thumbprint P kty (drop 32 (priv_key (Dev_Private d))) \<and> skid = kid"
proof -
  note D = NewDevice_ok[OF assms(1,2)]
  let ?pub = "drop 32 (priv_key (Dev_Private d))"
  have pub: "DecodeBase64URL (PK_Public (ID_PublicKey (Dev_Identity d))) = Inr ?pub"
    using D(1) by (simp add: device_ok_def Let_def)
  obtain sig m where "length ?pub = 32" "DecodeBase64URL (Sig_Value (DP_Signature p)) = Inr sig"
    "proof_signature_input (p\<lparr>DP_Signature := no_signature\<rparr>) = Inr m" "ed_verify P ?pub m sig"
    using CreateProof_verifies[OF assms(1) D(1) assms(3-5), of issued] assms(4)
    by (auto simp: VerifyProof_Inr[OF assms(4,5)] pub)
  then show ?thesis
    using CreateProof_fields[OF assms(3)] D(2,3) pub by (auto simp: VerifyProof_Inr[OF assms(4,5)])
qed

theorem created_proof_accepted_iff_witness:
  "\<exists>d p tp. NewDevice model_prims (replicate 32 (CHR ''s'')) ''dom'' ''dev'' 0 = (Inr d, []) \<and>
     CreateProof model_prims d ''relay'' ''c'' ''n'' 0 = Inr p \<and>
     (let ident = (Dev_Identity d)\<lparr>ID_DomainID := ''dom'', ID_DeviceID := ''dev'',
          ID_PublicKey := (ID_PublicKey (Dev_Identity d))\<lparr>PK_KTY := ''none'', PK_KID := tp\<rparr>\<rparr>;
          prf = p\<lparr>DP_Signature := (DP_Signature p)\<lparr>Sig_KID := tp\<rparr>\<rparr> in
      VerifyProof model_prims ident prf ''relay'' ''c'' (5 * Minute) (5 * Minute) = Inr () \<and>
      VerifyProof model_prims ident prf ''relay'' ''c'' (5 * Minute + 1) (5 * Minute) \<noteq> Inr () \<and>
      VerifyProof model_prims ident prf ''trust'' ''c'' 0 (5 * Minute) \<noteq> Inr ())"
proof -
  obtain d where d: "NewDevice model_prims (replicate 32 (CHR ''s'')) ''dom'' ''dev'' 0 = (Inr d, [])"
    using model_device by blast
  have "year_ok 0" by code_simp
  then obtain p where p: "CreateProof model_prims d ''relay'' ''c'' ''n'' 0 = Inr p"
    using CreateProof_ok by blast
  have b: "0 \<le> 5 * Minute" "5 * Minute < max_int64" by (simp_all add: Minute_def Second_def)
  note v = created_proof_accepted_iff[OF model_sig d p b, where kty = "''none''"
      and kid = "Thumbprint model_prims ''none'' (drop 32 (priv_key (Dev_Private d)))"
      and skid = "Thumbprint model_prims ''none'' (drop 32 (priv_key (Dev_Private d)))"]
  show ?thesis
    by (rule exI[of _ d], rule exI[of _ p], rule exI[of _ "Thumbprint model_prims ''none'' (drop 32 (priv_key (Dev_Private d)))"])
       (simp add: d p v Let_def b(1))
qed

text \<open>
  What is signed is the whole proof: two proofs over the same signature input are equal in
  every field but the signature (their strings being valid UTF-8, as JSON decoding makes them).
\<close>

theorem proof_signature_binds:
  assumes "proof_signature_input p = Inr x" and "proof_signature_input q = Inr x"
    and "proof_strings_valid p" "proof_strings_valid q"
  shows "p\<lparr>DP_Signature := s\<rparr> = q\<lparr>DP_Signature := s\<rparr>"
  using assms by (rule proof_input_inject)

theorem proof_signature_binds_witness:
  "\<exists>p q x. proof_signature_input p = Inr x \<and> proof_signature_input q = Inr x \<and> p \<noteq> q \<and>
     p\<lparr>DP_Signature := no_signature\<rparr> = q\<lparr>DP_Signature := no_signature\<rparr>"
proof -
  let ?q = "\<lparr>DP_Type = ''t'', DP_DomainID = ''d'', DP_DeviceID = ''e'', DP_Audience = ''a'',
     DP_Challenge = ''c'', DP_Nonce = ''n'', DP_IssuedAt = 0, DP_Signature = no_signature\<rparr>"
  let ?p = "?q\<lparr>DP_Signature := \<lparr>Sig_Alg = ''x'', Sig_KID = [], Sig_Value = []\<rparr>\<rparr>"
  have y: "year_ok (DP_IssuedAt ?q)" by code_simp
  then obtain x where q: "proof_signature_input ?q = Inr x" using proof_input_ok by blast
  have p: "proof_signature_input ?p = Inr x" using proof_input_strip[OF y] q by simp
  have v: "proof_strings_valid ?p" "proof_strings_valid ?q" by (simp_all add: proof_strings_valid_def)
  have "?p \<noteq> ?q" by (simp add: no_signature_def)
  with p q proof_signature_binds[OF p q v] show ?thesis by blast
qed

end
