(* ===== verification/Trust_Grant.thy ===== *)
theory Trust_Grant
  imports Identity
begin

text \<open>
  \<^verbatim>\<open>pkg/iscp/trust/trust.go\<close>: trust grants, their signing and verification. The revocation epoch
  is a 64-bit word.
\<close>

definition TypeTrustGrant :: string where "TypeTrustGrant = ''iscp.trust_grant.v2''"

record Grant =
  Gr_Type :: string
  Gr_GrantID :: string
  Gr_Issuer :: string
  Gr_SubjectDeviceID :: string
  Gr_Audience :: string
  Gr_ConfirmationThumbprint :: string
  Gr_Permissions :: "string slice"
  Gr_RelayConstraints :: "string list"
  Gr_NotBefore :: time
  Gr_ExpiresAt :: time
  Gr_RevocationEpoch :: "64 word"
  Gr_Signature :: Signature

record VerifyOptions =
  VO_Audience :: string
  VO_SubjectDeviceID :: string
  VO_ConfirmationThumbprint :: string
  VO_Permission :: string
  VO_RelayID :: string
  VO_CurrentRevocationEpoch :: "64 word"
  VO_Now :: time

definition grant_fields :: "Grant \<Rightarrow> (string \<times> jdoc result) list" where
  "grant_fields g =
     [(''type'', Inr (DStr (Gr_Type g))), (''grant_id'', Inr (DStr (Gr_GrantID g))),
      (''issuer'', Inr (DStr (Gr_Issuer g))), (''subject_device_id'', Inr (DStr (Gr_SubjectDeviceID g))),
      (''audience'', Inr (DStr (Gr_Audience g))),
      (''confirmation_thumbprint'', Inr (DStr (Gr_ConfirmationThumbprint g))),
      (''permissions'', Inr (slice_doc (Gr_Permissions g)))]
     @ omit_if (Gr_RelayConstraints g = []) (''relay_constraints'', Inr (DStrs (Gr_RelayConstraints g)))
     @ [(''not_before'', time_doc (Gr_NotBefore g)), (''expires_at'', time_doc (Gr_ExpiresAt g)),
        (''revocation_epoch'', Inr (DInt (uint (Gr_RevocationEpoch g)))),
        (''signature'', Inr (signature_doc (Gr_Signature g)))]"

definition grant_signature_input :: "Grant \<Rightarrow> bytes result" where
  "grant_signature_input g = signature_input TypeTrustGrant (json_object (grant_fields g))"

definition SignGrant :: "prims \<Rightarrow> Device \<Rightarrow> Grant \<Rightarrow> Grant result" where
  "SignGrant P issuer g0 =
     (let g = g0\<lparr>Gr_Type := TypeTrustGrant, Gr_Issuer := ID_DeviceID (Dev_Identity issuer),
                 Gr_Signature := no_signature\<rparr>
      in and_then (grant_signature_input g) (\<lambda>input.
           Inr (g\<lparr>Gr_Signature := make_signature P issuer input\<rparr>)))"

definition VerifyGrant :: "prims \<Rightarrow> Grant \<Rightarrow> DeviceIdentity \<Rightarrow> VerifyOptions \<Rightarrow> unit result" where
  "VerifyGrant P g issuer opts =
     (if Gr_Type g \<noteq> TypeTrustGrant then reject CodeTrustInvalid ''invalid trust grant type''
      else if Before (VO_Now opts) (Gr_NotBefore g) \<or> \<not> Before (VO_Now opts) (Gr_ExpiresAt g)
        then reject CodeTrustInvalid ''trust grant is not currently valid''
      else if Gr_Audience g \<noteq> VO_Audience opts then reject CodeTrustInvalid ''trust grant audience mismatch''
      else if Gr_SubjectDeviceID g \<noteq> VO_SubjectDeviceID opts
        then reject CodeTrustInvalid ''trust grant subject mismatch''
      else if Gr_ConfirmationThumbprint g \<noteq> VO_ConfirmationThumbprint opts
        then reject CodeTrustInvalid ''trust grant confirmation mismatch''
      else if VO_Permission opts \<notin> set (elems (Gr_Permissions g))
        then reject CodeTrustInvalid ''trust grant permission denied''
      else if 0 < length (Gr_RelayConstraints g) \<and> VO_RelayID opts \<notin> set (Gr_RelayConstraints g)
        then reject CodeTrustInvalid ''trust grant relay constraint mismatch''
      else if Gr_RevocationEpoch g < VO_CurrentRevocationEpoch opts
        then reject CodeTrustInvalid ''trust grant has been revoked''
      else check_signature P issuer (Gr_Signature g)
             (grant_signature_input (g\<lparr>Gr_Signature := no_signature\<rparr>))
             (errors_New CodeTrustInvalid ''trust grant signature verification failed''))"

interpretation grant_sig: signed_object Gr_Signature "\<lambda>s g. g\<lparr>Gr_Signature := s\<rparr>" grant_signature_input
  by unfold_locales simp_all

section \<open>Lemmas\<close>

text \<open>The conditions on the verifier's side, apart from the signature.\<close>

definition grant_admits :: "Grant \<Rightarrow> VerifyOptions \<Rightarrow> bool" where
  "grant_admits g opts \<longleftrightarrow>
     Gr_NotBefore g \<le> VO_Now opts \<and> VO_Now opts < Gr_ExpiresAt g \<and>
     Gr_Audience g = VO_Audience opts \<and> Gr_SubjectDeviceID g = VO_SubjectDeviceID opts \<and>
     Gr_ConfirmationThumbprint g = VO_ConfirmationThumbprint opts \<and>
     VO_Permission opts \<in> set (elems (Gr_Permissions g)) \<and>
     (Gr_RelayConstraints g = [] \<or> VO_RelayID opts \<in> set (Gr_RelayConstraints g)) \<and>
     VO_CurrentRevocationEpoch opts \<le> Gr_RevocationEpoch g"

lemma VerifyGrant_Inr:
  "VerifyGrant P g issuer opts = Inr () \<longleftrightarrow>
     Gr_Type g = TypeTrustGrant \<and> grant_admits g opts \<and>
     check_signature P issuer (Gr_Signature g) (grant_signature_input (g\<lparr>Gr_Signature := no_signature\<rparr>))
       (errors_New CodeTrustInvalid ''trust grant signature verification failed'') = Inr ()"
  by (auto simp: VerifyGrant_def grant_admits_def Before_def)

lemma SignGrant_fields:
  assumes "SignGrant P issuer g0 = Inr g"
  shows "Gr_Type g = TypeTrustGrant" "Gr_Issuer g = ID_DeviceID (Dev_Identity issuer)"
    "g\<lparr>Gr_Type := Gr_Type g0, Gr_Issuer := Gr_Issuer g0, Gr_Signature := Gr_Signature g0\<rparr> = g0"
  using assms by (auto simp: SignGrant_def Let_def and_then_Inr_iff)

lemma SignGrant_checks:
  assumes "sig_correct P" "device_ok P issuer" and "SignGrant P issuer g0 = Inr g"
  shows "check_signature P (Dev_Identity issuer) (Gr_Signature g)
    (grant_signature_input (g\<lparr>Gr_Signature := no_signature\<rparr>)) err = Inr ()"
proof -
  let ?g = "g0\<lparr>Gr_Type := TypeTrustGrant, Gr_Issuer := ID_DeviceID (Dev_Identity issuer)\<rparr>"
  obtain m where "grant_signature_input (?g\<lparr>Gr_Signature := no_signature\<rparr>) = Inr m"
    "g = ?g\<lparr>Gr_Signature := make_signature P issuer m\<rparr>"
    using assms(3) by (auto simp: SignGrant_def Let_def and_then_Inr_iff)
  from grant_sig.signed_checks[OF assms(1,2) this] show ?thesis .
qed

lemma fields_ok_grant: "fields_ok (grant_fields g)"
  by (auto simp: fields_ok_def grant_fields_def omit_if_def time_doc_Inr)

lemma fields_fine_grant:
  assumes "year_ok (Gr_NotBefore g)" "year_ok (Gr_ExpiresAt g)" "int64_ok (uint (Gr_RevocationEpoch g))"
  shows "fields_fine (grant_fields g)"
  using assms by (auto simp: fields_fine_def grant_fields_def omit_if_def time_doc_ok doc_value_slice doc_value_strs doc_value_DInt)

definition grant_strings_valid :: "Grant \<Rightarrow> bool" where
  "grant_strings_valid g \<longleftrightarrow> valid_utf8 (Gr_Type g) \<and> valid_utf8 (Gr_GrantID g) \<and> valid_utf8 (Gr_Issuer g) \<and>
     valid_utf8 (Gr_SubjectDeviceID g) \<and> valid_utf8 (Gr_Audience g) \<and> valid_utf8 (Gr_ConfirmationThumbprint g) \<and>
     list_all valid_utf8 (elems (Gr_Permissions g)) \<and> list_all valid_utf8 (Gr_RelayConstraints g)"

lemma field_value_strs: "field_value (DStrs ss) = Inr (JArr (map (\<lambda>s. JStr (to_valid s)) ss))"
  by (simp add: field_value_def doc_value_strs)

lemma map_to_valid: "list_all valid_utf8 xs \<Longrightarrow> map to_valid xs = xs"
  by (induction xs) auto

lemma map_JStr_inject: "map (\<lambda>s. JStr (to_valid s)) xs = map (\<lambda>s. JStr (to_valid s)) ys \<Longrightarrow> map to_valid xs = map to_valid ys"
  by (induction xs ys rule: list_induct2') auto

lemma grant_field_of:
  "field_of (grant_fields g) ''type'' = Some (Inr (JStr (to_valid (Gr_Type g))))"
  "field_of (grant_fields g) ''grant_id'' = Some (Inr (JStr (to_valid (Gr_GrantID g))))"
  "field_of (grant_fields g) ''issuer'' = Some (Inr (JStr (to_valid (Gr_Issuer g))))"
  "field_of (grant_fields g) ''subject_device_id'' = Some (Inr (JStr (to_valid (Gr_SubjectDeviceID g))))"
  "field_of (grant_fields g) ''audience'' = Some (Inr (JStr (to_valid (Gr_Audience g))))"
  "field_of (grant_fields g) ''confirmation_thumbprint'' = Some (Inr (JStr (to_valid (Gr_ConfirmationThumbprint g))))"
  "field_of (grant_fields g) ''permissions'' = Some (field_value (slice_doc (Gr_Permissions g)))"
  "field_of (grant_fields g) ''relay_constraints'' =
     (if Gr_RelayConstraints g = [] then None else Some (field_value (DStrs (Gr_RelayConstraints g))))"
  "field_of (grant_fields g) ''not_before'' = Some (and_then (time_doc (Gr_NotBefore g)) field_value)"
  "field_of (grant_fields g) ''expires_at'' = Some (and_then (time_doc (Gr_ExpiresAt g)) field_value)"
  "field_of (grant_fields g) ''revocation_epoch'' = Some (field_value (DInt (uint (Gr_RevocationEpoch g))))"
  by (cases "Gr_RelayConstraints g = []"; simp add: field_of_def grant_fields_def omit_if_def del: field_value_simps(2))+

text \<open>Two grants with the same signature input agree on every field but the signature.\<close>

definition same_grant :: "Grant \<Rightarrow> Grant \<Rightarrow> bool" where
  "same_grant g h \<longleftrightarrow> Gr_Type g = Gr_Type h \<and> Gr_GrantID g = Gr_GrantID h \<and> Gr_Issuer g = Gr_Issuer h \<and>
     Gr_SubjectDeviceID g = Gr_SubjectDeviceID h \<and> Gr_Audience g = Gr_Audience h \<and>
     Gr_ConfirmationThumbprint g = Gr_ConfirmationThumbprint h \<and>
     elems (Gr_Permissions g) = elems (Gr_Permissions h) \<and> Gr_RelayConstraints g = Gr_RelayConstraints h \<and>
     Gr_NotBefore g = Gr_NotBefore h \<and> Gr_ExpiresAt g = Gr_ExpiresAt h \<and>
     Gr_RevocationEpoch g = Gr_RevocationEpoch h"

lemma grant_input_inject:
  assumes "grant_signature_input g = Inr x" and "grant_signature_input h = Inr x"
    and "grant_strings_valid g" "grant_strings_valid h"
  shows "same_grant g h"
proof -
  have ty: "NUL \<notin> set TypeTrustGrant" by (simp add: TypeTrustGrant_def)
  note i = assms(1,2)[unfolded grant_signature_input_def]
  note v = assms(3,4)[unfolded grant_strings_valid_def]
  have f: "field_of (grant_fields g) k = field_of (grant_fields h) k" if "k \<noteq> ''signature''" for k
    using fields_bound[OF i ty ty fields_ok_grant fields_ok_grant that] by simp
  have strings: "Gr_Type g = Gr_Type h" "Gr_GrantID g = Gr_GrantID h" "Gr_Issuer g = Gr_Issuer h"
    "Gr_SubjectDeviceID g = Gr_SubjectDeviceID h" "Gr_Audience g = Gr_Audience h"
    "Gr_ConfirmationThumbprint g = Gr_ConfirmationThumbprint h"
    using f[of "''type''"] f[of "''grant_id''"] f[of "''issuer''"] f[of "''subject_device_id''"]
      f[of "''audience''"] f[of "''confirmation_thumbprint''"] v by (simp_all add: grant_field_of)
  have "field_value (slice_doc (Gr_Permissions g)) = field_value (slice_doc (Gr_Permissions h))"
    using f[of "''permissions''"] by (simp add: grant_field_of del: field_value_simps)
  from slice_field_inject[OF this] have perms: "elems (Gr_Permissions g) = elems (Gr_Permissions h)"
    using v by (simp add: map_to_valid)
  have relays: "Gr_RelayConstraints g = Gr_RelayConstraints h"
  proof (cases "Gr_RelayConstraints g = [] \<or> Gr_RelayConstraints h = []")
    case True
    then show ?thesis using f[of "''relay_constraints''"] by (auto simp: grant_field_of split: if_splits)
  next
    case False
    then have "map (\<lambda>s. JStr (to_valid s)) (Gr_RelayConstraints g) = map (\<lambda>s. JStr (to_valid s)) (Gr_RelayConstraints h)"
      using f[of "''relay_constraints''"] by (simp add: grant_field_of field_value_strs)
    from map_JStr_inject[OF this] show ?thesis using v by (simp add: map_to_valid)
  qed
  have s: "\<exists>v. and_then (time_doc (Gr_NotBefore g)) field_value = Inr v"
    "\<exists>v. and_then (time_doc (Gr_ExpiresAt g)) field_value = Inr v"
    "\<exists>v. and_then (Inr (DInt (uint (Gr_RevocationEpoch g)))) field_value = Inr v"
    using field_succeeds[OF i(1) fields_ok_grant, of "''not_before''" "time_doc (Gr_NotBefore g)"]
      field_succeeds[OF i(1) fields_ok_grant, of "''expires_at''" "time_doc (Gr_ExpiresAt g)"]
      field_succeeds[OF i(1) fields_ok_grant, of "''revocation_epoch''" "Inr (DInt (uint (Gr_RevocationEpoch g)))"]
    by (simp_all add: grant_fields_def)
  have t: "and_then (time_doc (Gr_NotBefore g)) field_value = and_then (time_doc (Gr_NotBefore h)) field_value"
    "and_then (time_doc (Gr_ExpiresAt g)) field_value = and_then (time_doc (Gr_ExpiresAt h)) field_value"
    "field_value (DInt (uint (Gr_RevocationEpoch g))) = field_value (DInt (uint (Gr_RevocationEpoch h)))"
    using f[of "''not_before''"] f[of "''expires_at''"] f[of "''revocation_epoch''"]
    by (simp_all add: grant_field_of)
  have times: "Gr_NotBefore g = Gr_NotBefore h" "Gr_ExpiresAt g = Gr_ExpiresAt h"
    using t(1,2) s(1,2) time_field_eq by blast+
  have "uint (Gr_RevocationEpoch g) = uint (Gr_RevocationEpoch h)"
    using t(3) s(3) int_field_eq by simp
  then have "Gr_RevocationEpoch g = Gr_RevocationEpoch h" by (rule word_uint_eqI)
  then show ?thesis using strings perms relays times by (simp add: same_grant_def)
qed

lemma grant_input_ok:
  assumes "year_ok (Gr_NotBefore g)" "year_ok (Gr_ExpiresAt g)" "int64_ok (uint (Gr_RevocationEpoch g))"
  shows "\<exists>x. grant_signature_input g = Inr x"
  unfolding grant_signature_input_def by (intro signature_input_ok fields_fine_grant assms)

lemma SignGrant_ok:
  assumes "year_ok (Gr_NotBefore g)" "year_ok (Gr_ExpiresAt g)" "int64_ok (uint (Gr_RevocationEpoch g))"
  shows "\<exists>h. SignGrant P issuer g = Inr h"
  using assms grant_input_ok[of "g\<lparr>Gr_Type := TypeTrustGrant, Gr_Issuer := ID_DeviceID (Dev_Identity issuer),
                 Gr_Signature := no_signature\<rparr>"]
  by (auto simp: SignGrant_def Let_def)

section \<open>Properties\<close>

text \<open>
  C15. A grant signed by a device is accepted under that device's identity exactly when it admits
  the verifier's request: now is in its validity window, audience, subject and confirmation key
  are the ones asked for, the permission is granted, the relay is allowed, and its revocation
  epoch is not behind the current one.
\<close>

theorem SignGrant_VerifyGrant_iff:
  assumes "sig_correct P" and "device_ok P issuer" and "SignGrant P issuer g0 = Inr g"
  shows "VerifyGrant P g (Dev_Identity issuer) opts = Inr () \<longleftrightarrow> grant_admits g0 opts"
proof -
  have "grant_admits g opts = grant_admits g0 opts"
    using assms(3) by (auto simp: SignGrant_def Let_def and_then_Inr_iff grant_admits_def)
  with SignGrant_checks[OF assms] SignGrant_fields(1)[OF assms(3)] show ?thesis
    by (simp add: VerifyGrant_Inr)
qed

definition sample_grant :: Grant where
  "sample_grant = \<lparr>Gr_Type = [], Gr_GrantID = ''g1'', Gr_Issuer = [], Gr_SubjectDeviceID = ''watch'',
     Gr_Audience = ''phone'', Gr_ConfirmationThumbprint = ''tp'', Gr_Permissions = Some [''chat''],
     Gr_RelayConstraints = [''relay''], Gr_NotBefore = 0, Gr_ExpiresAt = Hour, Gr_RevocationEpoch = 1,
     Gr_Signature = no_signature\<rparr>"

definition sample_opts :: VerifyOptions where
  "sample_opts = \<lparr>VO_Audience = ''phone'', VO_SubjectDeviceID = ''watch'', VO_ConfirmationThumbprint = ''tp'',
     VO_Permission = ''chat'', VO_RelayID = ''relay'', VO_CurrentRevocationEpoch = 1, VO_Now = 1\<rparr>"

lemma sample_signs: "\<exists>g. SignGrant P issuer sample_grant = Inr g"
  by (rule SignGrant_ok) (simp_all add: sample_grant_def, code_simp+)

theorem SignGrant_VerifyGrant_iff_witness:
  "\<exists>d g. NewDevice model_prims (replicate 32 (CHR ''s'')) ''dom'' ''root'' 0 = (Inr d, []) \<and>
     SignGrant model_prims d sample_grant = Inr g \<and>
     VerifyGrant model_prims g (Dev_Identity d) sample_opts = Inr () \<and>
     VerifyGrant model_prims g (Dev_Identity d) (sample_opts\<lparr>VO_CurrentRevocationEpoch := 2\<rparr>) \<noteq> Inr ()"
proof -
  obtain d where d: "NewDevice model_prims (replicate 32 (CHR ''s'')) ''dom'' ''root'' 0 = (Inr d, [])"
    using model_device by blast
  obtain g where g: "SignGrant model_prims d sample_grant = Inr g" using sample_signs by blast
  note v = SignGrant_VerifyGrant_iff[OF model_sig NewDevice_ok(1)[OF model_sig d] g]
  have "grant_admits sample_grant sample_opts"
    "\<not> grant_admits sample_grant (sample_opts\<lparr>VO_CurrentRevocationEpoch := 2\<rparr>)"
    by (simp_all add: grant_admits_def sample_grant_def sample_opts_def Hour_def Minute_def Second_def word_le_def)
  with d g v show ?thesis by blast
qed

text \<open>
  C32. The signature of a grant covers every field: grants with the same signature input agree on
  type, ids, issuer, subject, audience, confirmation key, permissions, relay constraints, validity
  window and revocation epoch (strings being valid UTF-8, as JSON decoding makes them).
\<close>

theorem grant_signature_binds:
  assumes "grant_signature_input g = Inr x" and "grant_signature_input h = Inr x"
    and "grant_strings_valid g" "grant_strings_valid h"
  shows "same_grant g h"
  using assms by (rule grant_input_inject)

theorem grant_signature_binds_witness:
  "\<exists>x. grant_signature_input sample_grant = Inr x \<and> same_grant sample_grant sample_grant"
proof -
  have "year_ok (Gr_NotBefore sample_grant)" "year_ok (Gr_ExpiresAt sample_grant)"
    "int64_ok (uint (Gr_RevocationEpoch sample_grant))"
    by (simp_all add: sample_grant_def, code_simp+)
  then obtain x where x: "grant_signature_input sample_grant = Inr x" using grant_input_ok by blast
  have v: "grant_strings_valid sample_grant" by (simp add: grant_strings_valid_def sample_grant_def)
  from x grant_signature_binds[OF x x v v] show ?thesis by blast
qed

end
