(* ===== verification/Json_Unmarshal.thy ===== *)
theory Json_Unmarshal
  imports Json_Struct
begin

text \<open>
  \<^verbatim>\<open>json.Unmarshal\<close>: reading back a document that \<^verbatim>\<open>json.Marshal\<close> wrote
  (\<open>Unmarshal_encode\<close>: the same document, ill-formed bytes of strings replaced), and storing a
  document into Go values: an \<^verbatim>\<open>any\<close> (\<open>any_value\<close>), a map of strings, and struct fields
  (\<open>decode_struct\<close>), where a member goes to the field whose tag it equals exactly or up to case,
  unknown members are skipped, \<^verbatim>\<open>null\<close> leaves a field as it is, a later duplicate overwrites, and a
  value of the wrong kind is an error.
\<close>

section \<open>More fuel does not change the scanner\<close>

lemma then_run_extend:
  "then_run r k = Some y \<Longrightarrow> (\<And>z. r = Some z \<Longrightarrow> r' = Some z) \<Longrightarrow>
     (\<And>x z. r = Some (Inr x) \<Longrightarrow> k x = Some z \<Longrightarrow> k' x = Some z) \<Longrightarrow> then_run r' k' = Some y"
  by (auto simp: then_run_def split: option.splits sum.splits)

lemma scan_mono_aux:
  "(scan_doc n k s = Some r \<longrightarrow> scan_doc (Suc n) k s = Some r) \<and>
   (scan_members n k ms s = Some r \<longrightarrow> scan_members (Suc n) k ms s = Some r) \<and>
   (scan_elems n k ds s = Some r \<longrightarrow> scan_elems (Suc n) k ds s = Some r)"
proof (induction n arbitrary: k s ms ds r)
  case (Suc n)
  note V = Suc[THEN conjunct1, rule_format] and M = Suc[THEN conjunct2, THEN conjunct1, rule_format]
    and E = Suc[THEN conjunct2, THEN conjunct2, rule_format]
  note del = scan_doc.simps scan_members.simps scan_elems.simps
  have "scan_doc (Suc (Suc n)) k s = Some r" if "scan_doc (Suc n) k s = Some r"
    using that unfolding scan_doc.simps(2)[of _ k s]
    by (auto intro: M E split: list.splits if_splits sum.splits simp del: del)
  moreover have "scan_members (Suc (Suc n)) k ms s = Some r" if "scan_members (Suc n) k ms s = Some r"
    using that unfolding scan_members.simps(2)[of _ k ms s]
    by (elim then_run_extend) (auto elim!: then_run_extend intro: V M split: sum.split sum.split_asm simp: Let_def simp del: del)
  moreover have "scan_elems (Suc (Suc n)) k ds s = Some r" if "scan_elems (Suc n) k ds s = Some r"
    using that unfolding scan_elems.simps(2)[of _ k ds s]
    by (elim then_run_extend) (auto intro: V E split: sum.split sum.split_asm simp del: del)
  ultimately show ?case by blast
qed simp

lemma scan_mono:
  assumes "n \<le> n'"
  shows "scan_doc n k s = Some r \<Longrightarrow> scan_doc n' k s = Some r"
    and "scan_members n k ms s = Some r \<Longrightarrow> scan_members n' k ms s = Some r"
    and "scan_elems n k ds s = Some r \<Longrightarrow> scan_elems n' k ds s = Some r"
  using assms by (induction n' rule: dec_induct) (simp_all only: scan_mono_aux)

section \<open>Reading back what was written\<close>

fun valid_doc :: "jdoc \<Rightarrow> jdoc" where
  "valid_doc (DStr s) = DStr (to_valid s)"
| "valid_doc (DArr ds) = DArr (map valid_doc ds)"
| "valid_doc (DObj ms) = DObj (map (\<lambda>(k, d). (to_valid k, valid_doc d)) ms)"
| "valid_doc d = d"

fun doc_depth :: "jdoc \<Rightarrow> nat" where
  "doc_depth (DArr ds) = Suc (foldr max (map doc_depth ds) 0)"
| "doc_depth (DObj ms) = Suc (foldr max (map (\<lambda>(k, d). doc_depth d) ms) 0)"
| "doc_depth d = 0"

definition reads :: "jdoc \<Rightarrow> bool" where
  "reads d \<longleftrightarrow> (\<forall>k rest. doc_depth d \<le> k \<longrightarrow> num_end rest \<longrightarrow>
     (\<exists>n. scan_doc n k (encode d @ rest) = Some (Inr (valid_doc d, rest))))"

lemma expect_simps:
  "\<not> json_space x \<Longrightarrow> expect c (x # r) = (if x = c then Inr r else Inl syntax_error)"
  by (simp add: expect_def)

lemma foldr_max_le: "x \<in> set xs \<Longrightarrow> x \<le> foldr max xs (0::nat)"
  by (induction xs) auto

lemma reads_scalar:
  assumes "encode d = c # r" "plain_start c" and "scalar_doc t = valid_doc d"
    and "\<And>rest. num_end rest \<Longrightarrow> scan_scalar (c # r @ rest) = Inr (t, rest)"
  shows "reads d"
  unfolding reads_def
proof (intro allI impI)
  fix k rest
  assume "num_end rest"
  then have "scan_doc (Suc 0) k (encode d @ rest) = Some (Inr (valid_doc d, rest))"
    using assms by (simp add: plain_start_def)
  then show "\<exists>n. scan_doc n k (encode d @ rest) = Some (Inr (valid_doc d, rest))" by blast
qed

lemma reads_elems:
  assumes "ds \<noteq> []" "\<forall>d\<in>set ds. reads d \<and> doc_ok d \<and> doc_depth d \<le> k"
  shows "\<exists>n. scan_elems n k acc (commas (map encode ds) @ CHR '']'' # rest) =
    Some (Inr (DArr (acc @ map valid_doc ds), rest))"
  using assms
proof (induction ds arbitrary: acc)
  case (Cons d ds)
  show ?case
  proof (cases ds)
    case Nil
    obtain n where "scan_doc n k (encode d @ CHR '']'' # rest) = Some (Inr (valid_doc d, CHR '']'' # rest))"
      using Cons.prems by (fastforce simp: reads_def)
    then have "scan_elems (Suc n) k acc (encode d @ CHR '']'' # rest) = Some (Inr (DArr (acc @ [valid_doc d]), rest))"
      by (simp add: expect_simps json_space_def)
    then show ?thesis using Nil by (auto simp del: scan_elems.simps)
  next
    case (Cons d' ds')
    let ?r = "commas (map encode ds) @ CHR '']'' # rest"
    obtain n where n: "scan_doc n k (encode d @ CHR '','' # ?r) = Some (Inr (valid_doc d, CHR '','' # ?r))"
      using Cons.prems by (fastforce simp: reads_def)
    obtain n' where n': "scan_elems n' k (acc @ [valid_doc d]) ?r = Some (Inr (DArr ((acc @ [valid_doc d]) @ map valid_doc ds), rest))"
      using Cons.IH[of "acc @ [valid_doc d]"] Cons.prems Cons by auto
    let ?n = "max n n'"
    have "scan_doc ?n k (encode d @ CHR '','' # ?r) = Some (Inr (valid_doc d, CHR '','' # ?r))"
      "scan_elems ?n k (acc @ [valid_doc d]) ?r = Some (Inr (DArr ((acc @ [valid_doc d]) @ map valid_doc ds), rest))"
      using n n' scan_mono by (meson max.cobounded1 max.cobounded2)+
    then have "scan_elems (Suc ?n) k acc (encode d @ CHR '','' # ?r) = Some (Inr (DArr (acc @ map valid_doc (d # ds)), rest))"
      by (simp add: expect_simps json_space_def)
    moreover have "commas (map encode (d # ds)) @ CHR '']'' # rest = encode d @ CHR '','' # ?r" by (simp add: Cons)
    ultimately show ?thesis by metis
  qed
qed simp

lemma reads_members:
  assumes "ms \<noteq> []" "\<forall>(key, d)\<in>set ms. reads d \<and> doc_depth d \<le> k"
  shows "\<exists>n. scan_members n k acc (commas (map member_text ms) @ CHR ''}'' # rest) =
    Some (Inr (DObj (acc @ map (\<lambda>(k, d). (to_valid k, valid_doc d)) ms), rest))"
  using assms
proof (induction ms arbitrary: acc)
  case (Cons m ms)
  obtain key d where m: "m = (key, d)" by force
  have key: "and_then (expect DQUOTE (quote key @ r)) scan_string = Inr (TStr (to_valid key), r)" for r
    by (simp add: quote_def expect_simps json_space_def scan_string_def lex_quote_body)
  have colon: "expect (CHR '':'') (CHR '':'' # r) = Inr r" for r by (simp add: expect_simps json_space_def)
  show ?case
  proof (cases ms)
    case Nil
    obtain n where "scan_doc n k (encode d @ CHR ''}'' # rest) = Some (Inr (valid_doc d, CHR ''}'' # rest))"
      using Cons.prems by (fastforce simp: reads_def m)
    then have "scan_members (Suc n) k acc (quote key @ CHR '':'' # encode d @ CHR ''}'' # rest) =
        Some (Inr (DObj (acc @ [(to_valid key, valid_doc d)]), rest))"
      by (simp add: key colon expect_simps json_space_def Let_def)
    moreover have "commas (map member_text (m # ms)) @ CHR ''}'' # rest = quote key @ CHR '':'' # encode d @ CHR ''}'' # rest"
      by (simp add: Nil m member_text_def)
    moreover have "map (\<lambda>(k, d). (to_valid k, valid_doc d)) (m # ms) = [(to_valid key, valid_doc d)]" by (simp add: Nil m)
    ultimately show ?thesis by metis
  next
    case (Cons m' ms')
    let ?r = "commas (map member_text ms) @ CHR ''}'' # rest"
    obtain n where n: "scan_doc n k (encode d @ CHR '','' # ?r) = Some (Inr (valid_doc d, CHR '','' # ?r))"
      using Cons.prems by (fastforce simp: reads_def m)
    let ?acc = "acc @ [(to_valid key, valid_doc d)]"
    let ?out = "Some (Inr (DObj (?acc @ map (\<lambda>(k, d). (to_valid k, valid_doc d)) ms), rest))"
    obtain n' where n': "scan_members n' k ?acc ?r = ?out"
      using Cons.IH[of ?acc] Cons.prems Cons by auto
    let ?n = "max n n'"
    have "scan_doc ?n k (encode d @ CHR '','' # ?r) = Some (Inr (valid_doc d, CHR '','' # ?r))"
      "scan_members ?n k ?acc ?r = ?out"
      using n n' scan_mono by (meson max.cobounded1 max.cobounded2)+
    then have "scan_members (Suc ?n) k acc (quote key @ CHR '':'' # encode d @ CHR '','' # ?r) = ?out"
      by (simp add: key colon expect_simps json_space_def Let_def)
    moreover have "commas (map member_text (m # ms)) @ CHR ''}'' # rest = quote key @ CHR '':'' # encode d @ CHR '','' # ?r"
      by (simp add: Cons m member_text_def)
    moreover have "acc @ map (\<lambda>(k, d). (to_valid k, valid_doc d)) (m # ms) = ?acc @ map (\<lambda>(k, d). (to_valid k, valid_doc d)) ms"
      by (simp add: m)
    ultimately show ?thesis by metis
  qed
qed simp

lemma reads_array:
  assumes "\<forall>d\<in>set ds. reads d \<and> doc_ok d"
  shows "reads (DArr ds)"
  unfolding reads_def
proof (intro allI impI)
  fix k rest
  assume k: "doc_depth (DArr ds) \<le> k"
  show "\<exists>n. scan_doc n k (encode (DArr ds) @ rest) = Some (Inr (valid_doc (DArr ds), rest))"
  proof (cases ds)
    case Nil
    with k have "scan_doc (Suc 0) k (encode (DArr ds) @ rest) = Some (Inr (valid_doc (DArr ds), rest))"
      by (simp add: expect_simps json_space_def)
    then show ?thesis by blast
  next
    case (Cons d ds')
    obtain c t where c: "encode d = c # t" "\<not> json_space c" "c \<noteq> CHR '']''"
      using assms by (auto simp: Cons elim!: encode_first)
    have dk: "\<forall>d\<in>set ds. reads d \<and> doc_ok d \<and> doc_depth d \<le> k - 1"
      using assms k foldr_max_le[of _ "map doc_depth ds"] by fastforce
    obtain n where n: "scan_elems n (k - 1) [] (commas (map encode ds) @ CHR '']'' # rest) =
        Some (Inr (DArr (map valid_doc ds), rest))"
      using reads_elems[OF _ dk, of "[]"] Cons by auto
    have "expect (CHR '']'') (commas (map encode ds) @ CHR '']'' # rest) = Inl syntax_error"
      using c by (simp add: Cons commas_Cons expect_simps)
    with n k have "scan_doc (Suc n) k (encode (DArr ds) @ rest) = Some (Inr (valid_doc (DArr ds), rest))"
      by (simp add: json_space_def)
    then show ?thesis by blast
  qed
qed

lemma reads_object:
  assumes "\<forall>m\<in>set ms. reads (snd m)"
  shows "reads (DObj ms)"
  unfolding reads_def
proof (intro allI impI)
  fix k rest
  assume k: "doc_depth (DObj ms) \<le> k"
  have mt: "(\<lambda>(k, d). quote k @ CHR '':'' # encode d) = member_text" by (auto simp: member_text_def)
  show "\<exists>n. scan_doc n k (encode (DObj ms) @ rest) = Some (Inr (valid_doc (DObj ms), rest))"
  proof (cases ms)
    case Nil
    with k have "scan_doc (Suc 0) k (encode (DObj ms) @ rest) = Some (Inr (valid_doc (DObj ms), rest))"
      by (simp add: expect_simps json_space_def)
    then show ?thesis by blast
  next
    case (Cons m ms')
    have dk: "\<forall>(key, d)\<in>set ms. reads d \<and> doc_depth d \<le> k - 1"
    proof (intro ballI, clarify)
      fix key d
      assume m: "(key, d) \<in> set ms"
      then have "doc_depth d \<in> set (map (\<lambda>(k, d). doc_depth d) ms)" by force
      with k foldr_max_le have "doc_depth d \<le> k - 1" by fastforce
      with assms m show "reads d \<and> doc_depth d \<le> k - 1" by force
    qed
    obtain n where n: "scan_members n (k - 1) [] (commas (map member_text ms) @ CHR ''}'' # rest) =
        Some (Inr (DObj (map (\<lambda>(k, d). (to_valid k, valid_doc d)) ms), rest))"
      using reads_members[OF _ dk, of "[]"] Cons by auto
    have "expect (CHR ''}'') (commas (map member_text ms) @ CHR ''}'' # rest) = Inl syntax_error"
      by (simp add: Cons commas_Cons expect_simps member_text_def quote_def json_space_def)
    with n k have "scan_doc (Suc n) k (encode (DObj ms) @ rest) = Some (Inr (valid_doc (DObj ms), rest))"
      by (simp add: json_space_def mt)
    then show ?thesis by blast
  qed
qed

lemma scalar_text:
  assumes "doc_ok d" and "\<forall>ds. d \<noteq> DArr ds" "\<forall>ms. d \<noteq> DObj ms"
  obtains c r t where "encode d = c # r" "plain_start c" "scalar_doc t = valid_doc d"
    "\<And>rest. num_end rest \<Longrightarrow> scan_scalar (c # r @ rest) = Inr (t, rest)"
proof (cases d)
  case DNull
  show ?thesis by (rule that[of "CHR ''n''" "''ull''" TNull])
      (simp_all add: DNull plain_start_def json_space_def scan_scalar_def scan_literal_def is_digit_def)
next
  case (DBool b)
  show ?thesis
  proof (cases b)
    case True
    show ?thesis by (rule that[of "CHR ''t''" "''rue''" "TBool True"])
      (simp_all add: DBool True plain_start_def json_space_def scan_scalar_def scan_literal_def is_digit_def)
  next
    case False
    show ?thesis by (rule that[of "CHR ''f''" "''alse''" "TBool False"])
      (simp_all add: DBool False plain_start_def json_space_def scan_scalar_def scan_literal_def is_digit_def)
  qed
next
  case (DStr s)
  show ?thesis by (rule that[of DQUOTE "quote_body s @ [DQUOTE]" "TStr (to_valid s)"])
      (simp_all add: DStr plain_start_def json_space_def scan_scalar_def scan_string_def lex_quote_body quote_def)
next
  case (DNum s)
  then have s: "lex_number s = Some (s, [])" using assms by simp
  then obtain c r where c: "s = c # r" "plain_start c" by (rule scan_number_doc[OF _ num_end_simps(1)])
  have "scan_scalar (s @ rest) = Inr (TNum s, rest)" if "num_end rest" for rest
    using scan_number_doc[OF s that] by blast
  with c DNum show ?thesis by (intro that[of c r "TNum s"]) simp_all
qed (use assms in auto)

lemma reads_doc: "doc_ok d \<Longrightarrow> reads d"
proof (induction d)
  case (DArr ds)
  then show ?case by (intro reads_array) simp
next
  case (DObj ms)
  then show ?case by (intro reads_object) (metis doc_ok.simps(3) prod.collapse snds.intros)
qed (rule scalar_text, assumption, simp, simp, rule reads_scalar, assumption+)+

lemma Decode_encode:
  assumes "doc_ok d" "doc_depth d \<le> maxNestingDepth" "num_end rest"
  shows "Decode (encode d @ rest) = Some (Inr (valid_doc d, rest))"
proof -
  let ?s = "encode d @ rest"
  obtain n where n: "scan_doc n maxNestingDepth ?s = Some (Inr (valid_doc d, rest))"
    using reads_doc[OF assms(1)] assms(2,3) by (auto simp: reads_def)
  obtain r where r: "scan_doc (Suc (2 * length ?s)) maxNestingDepth ?s = Some r"
    using Decode_total[of ?s] unfolding Decode_def by blast
  have "scan_doc (max n (Suc (2 * length ?s))) maxNestingDepth ?s = Some r"
    "scan_doc (max n (Suc (2 * length ?s))) maxNestingDepth ?s = Some (Inr (valid_doc d, rest))"
    using scan_mono(1) n r by (meson max.cobounded1 max.cobounded2)+
  with r show ?thesis unfolding Decode_def by simp
qed

theorem Unmarshal_encode:
  assumes "doc_ok d" "doc_depth d \<le> maxNestingDepth"
  shows "Unmarshal_doc (encode d) = Some (Inr (valid_doc d))"
  using Decode_encode[OF assms, of "[]"] by (simp add: Unmarshal_doc_def)

section \<open>Unmarshalling into \<^verbatim>\<open>any\<close>\<close>

text \<open>
  A number becomes a \<^verbatim>\<open>float64\<close>, which the canonical writer has no case for. A repeated member
  overwrites the earlier one.
\<close>

fun any_value :: "jdoc \<Rightarrow> jvalue" where
  "any_value DNull = JNull"
| "any_value (DBool b) = JBool b"
| "any_value (DStr s) = JStr s"
| "any_value (DNum s) = JOther ''float64''"
| "any_value (DArr ds) = JArr (map any_value ds)"
| "any_value (DObj ms) = JObj (fold (\<lambda>(k, v) m. al_put k v m) (map (\<lambda>(k, d). (k, any_value d)) ms) [])"

definition Unmarshal_map :: "bytes \<Rightarrow> (string \<times> jvalue) list result" where
  "Unmarshal_map b =
     (case Unmarshal_doc b of
        Some (Inr (DObj ms)) \<Rightarrow> (case any_value (DObj ms) of JObj m \<Rightarrow> Inr m | _ \<Rightarrow> Inr [])
      | Some (Inr DNull) \<Rightarrow> Inr []
      | Some (Inl err) \<Rightarrow> Inl err
      | _ \<Rightarrow> Inl (StdError ''json: cannot unmarshal value into Go value of type map[string]interface {}''))"

fun no_num :: "jdoc \<Rightarrow> bool" where
  "no_num (DNum s) = False"
| "no_num (DArr ds) = (\<forall>d\<in>set ds. no_num d)"
| "no_num (DObj ms) = (\<forall>p\<in>set ms. no_num (snd p))"
| "no_num _ = True"

lemma al_put_ok:
  assumes "distinct (map fst m)" "list_all (\<lambda>(k, v). Q k \<and> R v) m" "Q k" "R v"
  shows "list_all (\<lambda>(k, v). Q k \<and> R v) (al_put k v m)"
  using assms by (induction k v m rule: al_put.induct) auto

lemma fold_al_put_ok:
  assumes "distinct (map fst m)" "list_all (\<lambda>(k, v). Q k \<and> R v) m" "list_all (\<lambda>(k, v). Q k \<and> R v) xs"
  shows "distinct (map fst (fold (\<lambda>(k, v) m. al_put k v m) xs m)) \<and>
    list_all (\<lambda>(k, v). Q k \<and> R v) (fold (\<lambda>(k, v) m. al_put k v m) xs m)"
  using assms
proof (induction xs arbitrary: m)
  case (Cons p xs)
  obtain k v where p: "p = (k, v)" by force
  show ?case using Cons.IH[of "al_put k v m"] Cons.prems al_put_ok[of m Q R k v] by (simp add: p)
qed simp

lemma any_value_ok: "no_num d \<Longrightarrow> value_ok (any_value (valid_doc d))"
proof (induction d)
  case (DStr s)
  then show ?case by (simp add: valid_to_valid)
next
  case (DArr ds)
  then show ?case by (auto simp: list_all_iff)
next
  case (DObj ms)
  let ?xs = "map (\<lambda>(k, d). (k, any_value d)) (map (\<lambda>(k, d). (to_valid k, valid_doc d)) ms)"
  have "list_all (\<lambda>(k, v). valid_utf8 k \<and> value_ok v) ?xs"
    using DObj by (fastforce simp: list_all_iff valid_to_valid)
  then show ?case using fold_al_put_ok[of "[]" valid_utf8 value_ok ?xs] by simp
qed simp_all

lemma Unmarshal_map_encode:
  assumes "doc_ok (DObj ms)" "doc_depth (DObj ms) \<le> maxNestingDepth" "no_num (DObj ms)"
  obtains m where "Unmarshal_map (encode (DObj ms)) = Inr m" "value_ok (JObj m)"
proof -
  have u: "Unmarshal_doc (encode (DObj ms)) = Some (Inr (valid_doc (DObj ms)))"
    by (rule Unmarshal_encode[OF assms(1,2)])
  obtain m where m: "any_value (valid_doc (DObj ms)) = JObj m" by simp
  have "Unmarshal_map (encode (DObj ms)) = Inr m"
    using u m by (simp add: Unmarshal_map_def del: encode.simps)
  moreover have "value_ok (JObj m)" using any_value_ok[OF assms(3)] m by (simp only:)
  ultimately show thesis by (rule that)
qed

section \<open>Raw messages\<close>

text \<open>
  A \<^verbatim>\<open>json.RawMessage\<close>: nil marshals to \<^verbatim>\<open>null\<close>; other bytes are checked and compacted, which for the
  value they denote is reading them as a document.
\<close>

type_synonym raw = "bytes option"

definition raw_doc :: "raw \<Rightarrow> jdoc result" where
  "raw_doc m =
     (case m of
        None \<Rightarrow> Inr DNull
      | Some b \<Rightarrow>
          (case Unmarshal_doc b of
             Some (Inr d) \<Rightarrow> Inr d
           | Some (Inl err) \<Rightarrow> Inl err
           | None \<Rightarrow> Inl (StdError ''json: error calling MarshalJSON for type json.RawMessage'')))"

lemma raw_null: "raw_doc None = Inr DNull"
  by (simp add: raw_doc_def)

lemma raw_encode:
  "doc_ok d \<Longrightarrow> doc_depth d \<le> maxNestingDepth \<Longrightarrow> raw_doc (Some (encode d)) = Inr (valid_doc d)"
  by (simp add: raw_doc_def Unmarshal_encode del: encode.simps)

end
