(* ===== verification/Session.thy ===== *)
theory Session
  imports Identity Json_Unmarshal
begin

text \<open>
  \<^verbatim>\<open>pkg/iscp/session/session.go\<close>: the hello and ready messages of the handshake, the session state
  with its directional keys, send counter and set of received sequence numbers, and the transcript
  hash. Methods on \<^verbatim>\<open>*State\<close> return the updated state. Sequence numbers are 64-bit words, so the
  send counter wraps as it does in the code.
\<close>

section \<open>Messages and state\<close>

definition TypeHello :: string where "TypeHello = ''iscp.session.hello.v2''"
definition TypeReady :: string where "TypeReady = ''iscp.session.ready.v2''"

record Hello =
  H_Type :: string
  H_SessionID :: string
  H_DomainID :: string
  H_DeviceID :: string
  H_PeerDeviceID :: string
  H_Ciphersuite :: string
  H_EphemeralPublicKey :: string
  H_GrantID :: string
  H_IssuedAt :: time
  H_Signature :: Signature

record Ready =
  R_Type :: string
  R_SessionID :: string
  R_DeviceID :: string
  R_TranscriptHash :: string
  R_ReadyMAC :: string
  R_Signature :: Signature

record LocalHello =
  LH_Hello :: Hello
  LH_privateKey :: X25519PrivateKey

record State =
  St_SessionID :: string
  St_DomainID :: string
  St_LocalDeviceID :: string
  St_PeerDeviceID :: string
  St_TranscriptHash :: bytes
  St_SendKey :: bytes
  St_ReceiveKey :: bytes
  St_ReadyKey :: bytes
  St_ready :: bool
  St_sendSeq :: "64 word"
  St_seenSeq :: "64 word set"

definition hello_fields :: "Hello \<Rightarrow> (string \<times> jdoc result) list" where
  "hello_fields h =
     [(''type'', Inr (DStr (H_Type h))), (''session_id'', Inr (DStr (H_SessionID h))),
      (''domain_id'', Inr (DStr (H_DomainID h))), (''device_id'', Inr (DStr (H_DeviceID h))),
      (''peer_device_id'', Inr (DStr (H_PeerDeviceID h))), (''ciphersuite'', Inr (DStr (H_Ciphersuite h))),
      (''ephemeral_public_key'', Inr (DStr (H_EphemeralPublicKey h))), (''grant_id'', Inr (DStr (H_GrantID h))),
      (''issued_at'', time_doc (H_IssuedAt h)), (''signature'', Inr (signature_doc (H_Signature h)))]"

definition ready_fields :: "Ready \<Rightarrow> (string \<times> jdoc result) list" where
  "ready_fields r =
     [(''type'', Inr (DStr (R_Type r))), (''session_id'', Inr (DStr (R_SessionID r))),
      (''device_id'', Inr (DStr (R_DeviceID r))), (''transcript_hash'', Inr (DStr (R_TranscriptHash r))),
      (''ready_mac'', Inr (DStr (R_ReadyMAC r))), (''signature'', Inr (signature_doc (R_Signature r)))]"

definition hello_input :: "Hello \<Rightarrow> bytes result" where
  "hello_input h = signature_input TypeHello (json_object (hello_fields h))"

definition ready_input :: "Ready \<Rightarrow> bytes result" where
  "ready_input r = signature_input TypeReady (json_object (ready_fields r))"

section \<open>Operations\<close>

definition CreateHello ::
  "prims \<Rightarrow> reader \<Rightarrow> Device \<Rightarrow> string \<Rightarrow> string \<Rightarrow> string \<Rightarrow> time \<Rightarrow> LocalHello result \<times> reader" where
  "CreateHello P r dev sessionID peerDeviceID grantID now =
     (case GenerateSessionKey P r of
        (Inl err, r') \<Rightarrow> (Inl err, r')
      | (Inr (priv, pub), r') \<Rightarrow>
          (let hello = \<lparr>H_Type = TypeHello, H_SessionID = sessionID,
                 H_DomainID = ID_DomainID (Dev_Identity dev), H_DeviceID = ID_DeviceID (Dev_Identity dev),
                 H_PeerDeviceID = peerDeviceID, H_Ciphersuite = CiphersuiteV2,
                 H_EphemeralPublicKey = Base64URL (xpub_key pub), H_GrantID = grantID, H_IssuedAt = now,
                 H_Signature = no_signature\<rparr>
           in (and_then (hello_input hello) (\<lambda>input.
                 Inr \<lparr>LH_Hello = hello\<lparr>H_Signature := make_signature P dev input\<rparr>, LH_privateKey = priv\<rparr>), r')))"

definition VerifyHello :: "prims \<Rightarrow> Hello \<Rightarrow> DeviceIdentity \<Rightarrow> unit result" where
  "VerifyHello P hello ident =
     (if H_Type hello \<noteq> TypeHello then reject CodeSessionInvalid ''invalid session hello type''
      else if H_DeviceID hello \<noteq> ID_DeviceID ident \<or> H_DomainID hello \<noteq> ID_DomainID ident
        then reject CodeSessionInvalid ''session hello identity mismatch''
      else if H_Ciphersuite hello \<noteq> CiphersuiteV2 then reject CodeSessionInvalid ''unsupported ciphersuite''
      else check_signature P ident (H_Signature hello) (hello_input (hello\<lparr>H_Signature := no_signature\<rparr>))
             (errors_New CodeSessionInvalid ''session hello signature verification failed''))"

definition mustJSONMap :: "jdoc result \<Rightarrow> jvalue" where
  "mustJSONMap v =
     (case json_Marshal v of
        Inl _ \<Rightarrow> JObj []
      | Inr b \<Rightarrow> (case Unmarshal_map b of Inl _ \<Rightarrow> JObj [] | Inr m \<Rightarrow> JObj m))"

definition mustThumbprint :: "prims \<Rightarrow> DeviceIdentity \<Rightarrow> string" where
  "mustThumbprint P ident = (case identity_Thumbprint P ident of Inl _ \<Rightarrow> [] | Inr tp \<Rightarrow> tp)"

text \<open>\<^verbatim>\<open>sort.Slice\<close> of a two-element slice.\<close>

definition sort2 :: "('a \<Rightarrow> string) \<Rightarrow> 'a \<Rightarrow> 'a \<Rightarrow> 'a \<times> 'a" where
  "sort2 key x y = (if key y < key x then (y, x) else (x, y))"

definition transcript_doc :: "prims \<Rightarrow> Hello \<Rightarrow> Hello \<Rightarrow> DeviceIdentity \<Rightarrow> DeviceIdentity \<Rightarrow> jvalue" where
  "transcript_doc P a b aID bID =
     (let (h0, h1) = sort2 H_DeviceID a b; (i0, i1) = sort2 ID_DeviceID aID bID in
      JObj [(''protocol'', JStr ''iscp.session.transcript.v2''), (''session_id'', JStr (H_SessionID a)),
            (''domain_id'', JStr (H_DomainID a)), (''ciphersuite'', JStr CiphersuiteV2),
            (''hello_a'', mustJSONMap (json_object (hello_fields h0))),
            (''hello_b'', mustJSONMap (json_object (hello_fields h1))),
            (''identity_a'', JStr (ID_DeviceID i0)), (''identity_b'', JStr (ID_DeviceID i1)),
            (''identity_thumbprint_a'', JStr (mustThumbprint P i0)),
            (''identity_thumbprint_b'', JStr (mustThumbprint P i1))])"

definition TranscriptHash :: "prims \<Rightarrow> Hello \<Rightarrow> Hello \<Rightarrow> DeviceIdentity \<Rightarrow> DeviceIdentity \<Rightarrow> bytes result" where
  "TranscriptHash P a b aID bID =
     and_then (MarshalValue (transcript_doc P a b aID bID)) (\<lambda>canon. Inr (sha256 P canon))"

definition directionLabels :: "string \<Rightarrow> string \<Rightarrow> string \<times> string" where
  "directionLabels loc remote =
     (if loc < remote then (''low-to-high'', ''high-to-low'') else (''high-to-low'', ''low-to-high''))"

definition Establish ::
  "prims \<Rightarrow> LocalHello \<Rightarrow> Hello \<Rightarrow> DeviceIdentity \<Rightarrow> DeviceIdentity \<Rightarrow> State result" where
  "Establish P loc remote localID remoteID =
     (let lh = LH_Hello loc in
      if H_SessionID lh \<noteq> H_SessionID remote then reject CodeSessionInvalid ''session id mismatch''
      else if H_DomainID lh \<noteq> H_DomainID remote then reject CodeSessionInvalid ''domain mismatch''
      else if H_PeerDeviceID lh \<noteq> H_DeviceID remote \<or> H_PeerDeviceID remote \<noteq> H_DeviceID lh
        then reject CodeSessionInvalid ''peer binding mismatch''
      else and_then (VerifyHello P remote remoteID) (\<lambda>_.
        and_then (DecodeBase64URL (H_EphemeralPublicKey remote)) (\<lambda>remotePubBytes.
        and_then (X25519PublicKeyFromBytes remotePubBytes) (\<lambda>remotePub.
        and_then (SharedSecret P (LH_privateKey loc) remotePub) (\<lambda>secret.
        and_then (TranscriptHash P lh remote localID remoteID) (\<lambda>th.
        let (sendLabel, recvLabel) = directionLabels (H_DeviceID lh) (H_DeviceID remote) in
        and_then (HKDF P secret th (''iscp/v2/session/'' @ sendLabel) 32) (\<lambda>okm.
        and_then (HKDF P secret th (''iscp/v2/session/'' @ recvLabel) 32) (\<lambda>rkm.
        and_then (HKDF P secret th ''iscp/v2/session/ready'' 32) (\<lambda>readyKey.
          Inr \<lparr>St_SessionID = H_SessionID lh, St_DomainID = H_DomainID lh,
               St_LocalDeviceID = H_DeviceID lh, St_PeerDeviceID = H_DeviceID remote,
               St_TranscriptHash = th, St_SendKey = okm, St_ReceiveKey = rkm, St_ReadyKey = readyKey,
               St_ready = False, St_sendSeq = 0, St_seenSeq = {}\<rparr>)))))))))"

definition CreateReady :: "prims \<Rightarrow> State \<Rightarrow> Device \<Rightarrow> Ready result" where
  "CreateReady P s dev =
     (let ready = \<lparr>R_Type = TypeReady, R_SessionID = St_SessionID s, R_DeviceID = St_LocalDeviceID s,
            R_TranscriptHash = Base64URL (St_TranscriptHash s),
            R_ReadyMAC = Base64URL (hmac_sha256 P (St_ReadyKey s) (''ready:'' @ St_LocalDeviceID s)),
            R_Signature = no_signature\<rparr>
      in and_then (ready_input ready) (\<lambda>input.
           Inr (ready\<lparr>R_Signature := make_signature P dev input\<rparr>)))"

definition VerifyReady :: "prims \<Rightarrow> State \<Rightarrow> Ready \<Rightarrow> DeviceIdentity \<Rightarrow> State result" where
  "VerifyReady P s ready remoteID =
     (if R_Type ready \<noteq> TypeReady \<or> R_SessionID ready \<noteq> St_SessionID s \<or> R_DeviceID ready \<noteq> St_PeerDeviceID s
        then reject CodeSessionInvalid ''ready binding mismatch''
      else and_then (DecodeBase64URL (R_TranscriptHash ready)) (\<lambda>th.
        if th \<noteq> St_TranscriptHash s then reject CodeSessionInvalid ''ready transcript mismatch''
        else and_then (DecodeBase64URL (R_ReadyMAC ready)) (\<lambda>mac.
          let expected = hmac_sha256 P (St_ReadyKey s) (''ready:'' @ R_DeviceID ready) in
          if \<not> EqualMAC mac expected then reject CodeSessionInvalid ''ready mac mismatch''
          else and_then (check_signature P remoteID (R_Signature ready)
                 (ready_input (ready\<lparr>R_Signature := no_signature\<rparr>))
                 (errors_New CodeSessionInvalid ''ready signature verification failed'')) (\<lambda>_.
            Inr (s\<lparr>St_ready := True\<rparr>)))))"

text \<open>A nil \<^verbatim>\<open>*State\<close> is \<open>None\<close>.\<close>

definition Ready_method :: "State option \<Rightarrow> bool" where
  "Ready_method s = (case s of None \<Rightarrow> False | Some st \<Rightarrow> St_ready st)"

definition NextSend :: "State \<Rightarrow> ((64 word \<times> bytes) \<times> State)" where
  "NextSend s =
     (let seq = St_sendSeq s in
      ((seq, replicate 4 NUL @ big_endian 8 (unat seq)), s\<lparr>St_sendSeq := seq + 1\<rparr>))"

definition MarkReceived :: "State \<Rightarrow> 64 word \<Rightarrow> State result" where
  "MarkReceived s seq =
     (if seq \<in> St_seenSeq s then reject CodeReplayDetected ''duplicate envelope sequence''
      else Inr (s\<lparr>St_seenSeq := insert seq (St_seenSeq s)\<rparr>))"

interpretation hello_sig: signed_object H_Signature "\<lambda>s h. h\<lparr>H_Signature := s\<rparr>" hello_input
  by unfold_locales simp_all

interpretation ready_sig: signed_object R_Signature "\<lambda>s r. r\<lparr>R_Signature := s\<rparr>" ready_input
  by unfold_locales simp_all

section \<open>Hellos\<close>

lemma fields_ok_hello: "fields_ok (hello_fields h)"
  by (auto simp: fields_ok_def hello_fields_def time_doc_Inr)

lemma fields_fine_hello: "year_ok (H_IssuedAt h) \<Longrightarrow> fields_fine (hello_fields h)"
  by (auto simp: fields_fine_def hello_fields_def time_doc_ok)

lemma hello_input_ok: "year_ok (H_IssuedAt h) \<Longrightarrow> \<exists>x. hello_input h = Inr x"
  unfolding hello_input_def by (intro signature_input_ok fields_fine_hello)

lemma CreateHello_Inr:
  assumes "CreateHello P r dev sid peer gid now = (Inr l, r')"
  obtains priv pub m where "GenerateSessionKey P r = (Inr (priv, pub), r')" "LH_privateKey l = priv"
    "H_EphemeralPublicKey (LH_Hello l) = Base64URL (xpub_key pub)"
    "hello_input ((LH_Hello l)\<lparr>H_Signature := no_signature\<rparr>) = Inr m"
    "LH_Hello l = (LH_Hello l)\<lparr>H_Signature := make_signature P dev m\<rparr>"
    "H_Type (LH_Hello l) = TypeHello" "H_SessionID (LH_Hello l) = sid" "H_PeerDeviceID (LH_Hello l) = peer"
    "H_DomainID (LH_Hello l) = ID_DomainID (Dev_Identity dev)"
    "H_DeviceID (LH_Hello l) = ID_DeviceID (Dev_Identity dev)"
    "H_Ciphersuite (LH_Hello l) = CiphersuiteV2" "H_GrantID (LH_Hello l) = gid" "H_IssuedAt (LH_Hello l) = now"
  using assms
  by (auto simp: CreateHello_def Let_def and_then_Inr_iff intro: that split: prod.splits sum.splits)

lemma CreateHello_verifies:
  assumes "sig_correct P" "device_ok P dev" and "CreateHello P r dev sid peer gid now = (Inr l, r')"
  shows "VerifyHello P (LH_Hello l) (Dev_Identity dev) = Inr ()"
proof -
  obtain m where m: "hello_input ((LH_Hello l)\<lparr>H_Signature := no_signature\<rparr>) = Inr m"
    "LH_Hello l = (LH_Hello l)\<lparr>H_Signature := make_signature P dev m\<rparr>" and
    f: "H_Type (LH_Hello l) = TypeHello" "H_DomainID (LH_Hello l) = ID_DomainID (Dev_Identity dev)"
    "H_DeviceID (LH_Hello l) = ID_DeviceID (Dev_Identity dev)" "H_Ciphersuite (LH_Hello l) = CiphersuiteV2"
    using assms(3) by (rule CreateHello_Inr)
  from f hello_sig.signed_checks[OF assms(1,2) m] show ?thesis by (simp add: VerifyHello_def)
qed

section \<open>The transcript\<close>

text \<open>The writer fails only on a value of a type it has no case for.\<close>

fun supported :: "jvalue \<Rightarrow> bool" where
  "supported (JArr vs) = list_all supported vs"
| "supported (JObj m) = list_all (\<lambda>(k, v). supported v) m"
| "supported (JOther t) = False"
| "supported _ = True"

lemma value_ok_supported: "value_ok v \<Longrightarrow> supported v"
  by (induction v) (fastforce simp: list_all_iff)+

lemma writeCanonical_supported: "supported v \<Longrightarrow> \<exists>c. writeCanonical v = Inr c"
proof (induction v)
  case (JArr vs)
  then show ?case using collect_ok[of "map writeCanonical vs"] by (fastforce simp: list_all_iff)
next
  case (JObj m)
  let ?es = "map (\<lambda>(k, x). (k, writeCanonical x)) m"
  have "\<exists>b. the (map_of ?es k) = Inr b" if k: "k \<in> set (map fst m)" for k
  proof -
    obtain v where v: "map_of m k = Some v" using k by (metis map_of_eq_None_iff not_None_eq set_map)
    then have "(k, v) \<in> set m" by (rule map_of_SomeD)
    with JObj have "\<exists>b. writeCanonical v = Inr b" by (fastforce simp: list_all_iff)
    with v show ?thesis by (simp add: map_of_map)
  qed
  then have "\<forall>r\<in>set (map (\<lambda>k. and_then (the (map_of ?es k)) (\<lambda>b. Inr (quote k @ '':'' @ b))) (sort (map fst m))).
      \<exists>x. r = Inr x" by fastforce
  from collect_ok[OF this] show ?case by auto
qed simp_all

lemma hello_map_ok: "value_ok (mustJSONMap (json_object (hello_fields h)))"
proof (cases "json_object (hello_fields h)")
  case (Inl e)
  then show ?thesis by (simp add: mustJSONMap_def json_Marshal_def)
next
  case (Inr d)
  then obtain ds where d: "d = DObj ds" and a: "list_all2 (\<lambda>(k, r) (k', d). k = k' \<and> r = Inr d) (hello_fields h) ds"
    by (auto simp: json_object_Inr)
  have ds: "hello_fields h = map (\<lambda>(k, d). (k, Inr d)) ds" using a by (rule list_all2_Inr)
  have y: "year_ok (H_IssuedAt h)" using ds by (auto simp: hello_fields_def time_doc_Inr Cons_eq_map_conv)
  have "ds = map (\<lambda>(k, r). (k, projr r)) (hello_fields h)" by (simp add: ds comp_def case_prod_beta)
  then have ds': "ds = [(''type'', DStr (H_Type h)), (''session_id'', DStr (H_SessionID h)),
      (''domain_id'', DStr (H_DomainID h)), (''device_id'', DStr (H_DeviceID h)),
      (''peer_device_id'', DStr (H_PeerDeviceID h)), (''ciphersuite'', DStr (H_Ciphersuite h)),
      (''ephemeral_public_key'', DStr (H_EphemeralPublicKey h)), (''grant_id'', DStr (H_GrantID h)),
      (''issued_at'', DStr (rfc3339 (H_IssuedAt h))), (''signature'', signature_doc (H_Signature h))]"
    by (simp add: hello_fields_def time_doc_ok[OF y])
  have "doc_ok (DObj ds)" "no_num (DObj ds)" "doc_depth (DObj ds) \<le> maxNestingDepth"
    by (simp_all add: ds' signature_doc_def maxNestingDepth_def)
  then obtain m where "Unmarshal_map (encode (DObj ds)) = Inr m" "value_ok (JObj m)"
    using Unmarshal_map_encode by blast
  then show ?thesis by (simp add: mustJSONMap_def json_Marshal_def Inr d del: encode.simps)
qed

lemma TranscriptHash_ok: "\<exists>th. TranscriptHash P a b aID bID = Inr th"
proof -
  have "supported (transcript_doc P a b aID bID)"
    using hello_map_ok value_ok_supported by (simp add: transcript_doc_def sort2_def)
  then show ?thesis
    using writeCanonical_supported by (fastforce simp: TranscriptHash_def MarshalValue_def)
qed

lemma TranscriptHash_symmetric:
  assumes "H_SessionID a = H_SessionID b" "H_DomainID a = H_DomainID b"
    and "H_DeviceID a \<noteq> H_DeviceID b" "ID_DeviceID aID \<noteq> ID_DeviceID bID"
  shows "TranscriptHash P a b aID bID = TranscriptHash P b a bID aID"
proof -
  have "sort2 H_DeviceID a b = sort2 H_DeviceID b a" "sort2 ID_DeviceID aID bID = sort2 ID_DeviceID bID aID"
    using assms(3,4) by (auto simp: sort2_def)
  with assms(1,2) show ?thesis by (simp add: TranscriptHash_def transcript_doc_def)
qed

section \<open>Key agreement\<close>

text \<open>The two ends of one session.\<close>

definition paired :: "State \<Rightarrow> State \<Rightarrow> bool" where
  "paired a b \<longleftrightarrow> St_SessionID a = St_SessionID b \<and> St_DomainID a = St_DomainID b \<and>
     St_LocalDeviceID a = St_PeerDeviceID b \<and> St_PeerDeviceID a = St_LocalDeviceID b \<and>
     St_TranscriptHash a = St_TranscriptHash b \<and> St_ReadyKey a = St_ReadyKey b \<and>
     St_SendKey a = St_ReceiveKey b \<and> St_ReceiveKey a = St_SendKey b"

definition fresh_state :: "State \<Rightarrow> bool" where
  "fresh_state s \<longleftrightarrow> \<not> St_ready s \<and> St_sendSeq s = 0 \<and> St_seenSeq s = {} \<and>
     length (St_SendKey s) = 32 \<and> length (St_ReceiveKey s) = 32"

lemma directionLabels_swap:
  "a \<noteq> b \<Longrightarrow> directionLabels a b = (x, y) \<Longrightarrow> directionLabels b a = (y, x)"
  by (auto simp: directionLabels_def split: if_splits)

lemma Establish_ok:
  assumes "hkdf_total P" and "H_SessionID (LH_Hello l) = H_SessionID remote" "H_DomainID (LH_Hello l) = H_DomainID remote"
    and "H_PeerDeviceID (LH_Hello l) = H_DeviceID remote" "H_PeerDeviceID remote = H_DeviceID (LH_Hello l)"
    and "VerifyHello P remote rid = Inr ()" and "DecodeBase64URL (H_EphemeralPublicKey remote) = Inr pb" "length pb = 32"
    and "SharedSecret P (LH_privateKey l) (X25519PublicKey pb) = Inr secret"
    and "TranscriptHash P (LH_Hello l) remote lid rid = Inr th"
    and "directionLabels (H_DeviceID (LH_Hello l)) (H_DeviceID remote) = (x, y)"
  obtains okm rkm rk where "HKDF P secret th (''iscp/v2/session/'' @ x) 32 = Inr okm"
    "HKDF P secret th (''iscp/v2/session/'' @ y) 32 = Inr rkm" "HKDF P secret th ''iscp/v2/session/ready'' 32 = Inr rk"
    "length okm = 32" "length rkm = 32"
    "Establish P l remote lid rid = Inr \<lparr>St_SessionID = H_SessionID remote, St_DomainID = H_DomainID remote,
       St_LocalDeviceID = H_DeviceID (LH_Hello l), St_PeerDeviceID = H_DeviceID remote,
       St_TranscriptHash = th, St_SendKey = okm, St_ReceiveKey = rkm, St_ReadyKey = rk,
       St_ready = False, St_sendSeq = 0, St_seenSeq = {}\<rparr>"
proof -
  have k: "\<exists>out. HKDF P secret th i 32 = Inr out \<and> length out = 32" for i
    using assms(1) by (rule HKDF_ok) simp
  obtain okm where okm: "HKDF P secret th (''iscp/v2/session/'' @ x) 32 = Inr okm" "length okm = 32" using k by blast
  obtain rkm where rkm: "HKDF P secret th (''iscp/v2/session/'' @ y) 32 = Inr rkm" "length rkm = 32" using k by blast
  obtain rk where rk: "HKDF P secret th ''iscp/v2/session/ready'' 32 = Inr rk" using k by blast
  have "X25519PublicKeyFromBytes pb = Inr (X25519PublicKey pb)" using assms(8) by (rule from_bytes_ok(2))
  with okm rkm rk assms(2-) show thesis by (intro that) (simp_all add: Establish_def Let_def)
qed

lemma sessions_agree:
  assumes laws: "sig_correct P" "dh_agrees P" "hkdf_total P" and dev: "device_ok P A" "device_ok P B"
    and ids: "ID_DeviceID (Dev_Identity A) \<noteq> ID_DeviceID (Dev_Identity B)"
      "ID_DomainID (Dev_Identity A) = ID_DomainID (Dev_Identity B)"
    and la: "CreateHello P r A sid (ID_DeviceID (Dev_Identity B)) gA tA = (Inr la, ra)"
    and lb: "CreateHello P r' B sid (ID_DeviceID (Dev_Identity A)) gB tB = (Inr lb, rb)"
    and dh: "DecodeBase64URL (H_EphemeralPublicKey (LH_Hello lb)) = Inr pb"
      "is_ok (SharedSecret P (LH_privateKey la) (X25519PublicKey pb))"
  obtains sa sb where "Establish P la (LH_Hello lb) (Dev_Identity A) (Dev_Identity B) = Inr sa"
    "Establish P lb (LH_Hello la) (Dev_Identity B) (Dev_Identity A) = Inr sb" "paired sa sb"
    "fresh_state sa" "fresh_state sb"
proof -
  obtain a pubA where ka: "GenerateSessionKey P r = (Inr (a, pubA), ra)" "LH_privateKey la = a"
    "H_EphemeralPublicKey (LH_Hello la) = Base64URL (xpub_key pubA)" and
    fa: "H_SessionID (LH_Hello la) = sid" "H_PeerDeviceID (LH_Hello la) = ID_DeviceID (Dev_Identity B)"
    "H_DomainID (LH_Hello la) = ID_DomainID (Dev_Identity A)" "H_DeviceID (LH_Hello la) = ID_DeviceID (Dev_Identity A)"
    using la by (rule CreateHello_Inr)
  obtain b pubB where kb: "GenerateSessionKey P r' = (Inr (b, pubB), rb)" "LH_privateKey lb = b"
    "H_EphemeralPublicKey (LH_Hello lb) = Base64URL (xpub_key pubB)" and
    fb: "H_SessionID (LH_Hello lb) = sid" "H_PeerDeviceID (LH_Hello lb) = ID_DeviceID (Dev_Identity A)"
    "H_DomainID (LH_Hello lb) = ID_DomainID (Dev_Identity B)" "H_DeviceID (LH_Hello lb) = ID_DeviceID (Dev_Identity B)"
    using lb by (rule CreateHello_Inr)
  have len: "length (xpub_key pubA) = 32" "length (xpub_key pubB) = 32"
    using laws(2) GenerateSessionKey_pair[OF ka(1)] GenerateSessionKey_pair[OF kb(1)]
    unfolding dh_agrees_def by blast+
  have pb: "pb = xpub_key pubB" using dh(1) kb(3) by simp
  obtain secret where s: "SharedSecret P a pubB = Inr secret" using dh(2) ka(2) by (cases "SharedSecret P a pubB") (simp_all add: pb)
  then have s': "SharedSecret P b pubA = Inr secret" using SharedSecret_agree[OF laws(2) ka(1) kb(1)] by simp
  obtain th where th: "TranscriptHash P (LH_Hello la) (LH_Hello lb) (Dev_Identity A) (Dev_Identity B) = Inr th"
    using TranscriptHash_ok by blast
  then have th': "TranscriptHash P (LH_Hello lb) (LH_Hello la) (Dev_Identity B) (Dev_Identity A) = Inr th"
    using TranscriptHash_symmetric[of "LH_Hello la" "LH_Hello lb"] fa fb ids by simp
  obtain x y where d: "directionLabels (H_DeviceID (LH_Hello la)) (H_DeviceID (LH_Hello lb)) = (x, y)" by force
  then have d': "directionLabels (H_DeviceID (LH_Hello lb)) (H_DeviceID (LH_Hello la)) = (y, x)"
    using ids(1) fa fb by (metis directionLabels_swap)
  have va: "VerifyHello P (LH_Hello la) (Dev_Identity A) = Inr ()" by (rule CreateHello_verifies[OF laws(1) dev(1) la])
  have vb: "VerifyHello P (LH_Hello lb) (Dev_Identity B) = Inr ()" by (rule CreateHello_verifies[OF laws(1) dev(2) lb])
  have ea: "DecodeBase64URL (H_EphemeralPublicKey (LH_Hello la)) = Inr (xpub_key pubA)" using ka(3) by simp
  have eb: "DecodeBase64URL (H_EphemeralPublicKey (LH_Hello lb)) = Inr (xpub_key pubB)" using kb(3) by simp
  obtain okm rkm rk where A: "HKDF P secret th (''iscp/v2/session/'' @ x) 32 = Inr okm"
    "HKDF P secret th (''iscp/v2/session/'' @ y) 32 = Inr rkm" "HKDF P secret th ''iscp/v2/session/ready'' 32 = Inr rk"
    "length okm = 32" "length rkm = 32" and
    eA: "Establish P la (LH_Hello lb) (Dev_Identity A) (Dev_Identity B) = Inr \<lparr>St_SessionID = sid,
       St_DomainID = ID_DomainID (Dev_Identity B), St_LocalDeviceID = ID_DeviceID (Dev_Identity A),
       St_PeerDeviceID = ID_DeviceID (Dev_Identity B), St_TranscriptHash = th, St_SendKey = okm, St_ReceiveKey = rkm,
       St_ReadyKey = rk, St_ready = False, St_sendSeq = 0, St_seenSeq = {}\<rparr>"
    by (rule Establish_ok[OF laws(3) _ _ _ _ vb eb len(2) _ th d, of secret]) (simp_all add: fa fb ids s ka(2))
  obtain okm' rkm' rk' where B: "HKDF P secret th (''iscp/v2/session/'' @ y) 32 = Inr okm'"
    "HKDF P secret th (''iscp/v2/session/'' @ x) 32 = Inr rkm'" "HKDF P secret th ''iscp/v2/session/ready'' 32 = Inr rk'"
    "length okm' = 32" "length rkm' = 32" and
    eB: "Establish P lb (LH_Hello la) (Dev_Identity B) (Dev_Identity A) = Inr \<lparr>St_SessionID = sid,
       St_DomainID = ID_DomainID (Dev_Identity B), St_LocalDeviceID = ID_DeviceID (Dev_Identity B),
       St_PeerDeviceID = ID_DeviceID (Dev_Identity A), St_TranscriptHash = th, St_SendKey = okm', St_ReceiveKey = rkm',
       St_ReadyKey = rk', St_ready = False, St_sendSeq = 0, St_seenSeq = {}\<rparr>"
    by (rule Establish_ok[OF laws(3) _ _ _ _ va ea len(1) _ th' d', of secret]) (simp_all add: fa fb ids s' kb(2))
  from A B have "okm' = rkm" "rkm' = okm" "rk' = rk" by simp_all
  with A eA eB show thesis by (intro that[OF eA eB]) (simp_all add: paired_def fresh_state_def)
qed

section \<open>Ready messages\<close>

lemma ready_input_ok: "\<exists>x. ready_input r = Inr x"
  unfolding ready_input_def by (rule signature_input_ok) (auto simp: fields_fine_def ready_fields_def)

lemma ready_accepted:
  assumes "sig_correct P" "device_ok P A" "paired a b"
  shows "\<exists>r. CreateReady P a A = Inr r \<and> VerifyReady P b r (Dev_Identity A) = Inr (b\<lparr>St_ready := True\<rparr>)"
proof -
  define r where "r = \<lparr>R_Type = TypeReady, R_SessionID = St_SessionID a, R_DeviceID = St_LocalDeviceID a,
            R_TranscriptHash = Base64URL (St_TranscriptHash a),
            R_ReadyMAC = Base64URL (hmac_sha256 P (St_ReadyKey a) (''ready:'' @ St_LocalDeviceID a)),
            R_Signature = no_signature\<rparr>"
  obtain m where m: "ready_input r = Inr m" using ready_input_ok by blast
  define r' where "r' = r\<lparr>R_Signature := make_signature P A m\<rparr>"
  have "r'\<lparr>R_Signature := no_signature\<rparr> = r" by (simp add: r'_def r_def)
  then have "check_signature P (Dev_Identity A) (R_Signature r') (ready_input (r'\<lparr>R_Signature := no_signature\<rparr>)) e = Inr ()" for e
    using ready_sig.signed_checks[OF assms(1,2), of r' m] m by (simp add: r'_def)
  then have "VerifyReady P b r' (Dev_Identity A) = Inr (b\<lparr>St_ready := True\<rparr>)"
    using assms(3) by (simp add: VerifyReady_def r'_def r_def paired_def EqualMAC_def Let_def)
  moreover have "CreateReady P a A = Inr r'" using m by (simp add: CreateReady_def r'_def r_def Let_def)
  ultimately show ?thesis by blast
qed

lemma VerifyReady_Inr:
  assumes "VerifyReady P s r rid = Inr s'"
  shows "s' = s\<lparr>St_ready := True\<rparr>" "R_DeviceID r = St_PeerDeviceID s" "R_SessionID r = St_SessionID s"
    "DecodeBase64URL (R_TranscriptHash r) = Inr (St_TranscriptHash s)"
    "DecodeBase64URL (R_ReadyMAC r) = Inr (hmac_sha256 P (St_ReadyKey s) (''ready:'' @ St_PeerDeviceID s))"
  using assms
  by (auto simp: VerifyReady_def Let_def and_then_Inr_iff EqualMAC_def split: if_split_asm)

section \<open>Runs of a session\<close>

text \<open>
  What a device does with an established session: it takes send numbers and nonces, it marks received
  numbers, and it accepts ready messages.
\<close>

datatype action = Sent "64 word" bytes | Received "64 word" | PeerReady Ready

inductive session_step :: "prims \<Rightarrow> State \<Rightarrow> action \<Rightarrow> State \<Rightarrow> bool" for P where
  send: "NextSend s = ((seq, nonce), s') \<Longrightarrow> session_step P s (Sent seq nonce) s'"
| receive: "MarkReceived s seq = Inr s' \<Longrightarrow> session_step P s (Received seq) s'"
| ready: "VerifyReady P s r rid = Inr s' \<Longrightarrow> session_step P s (PeerReady r) s'"

inductive session_run :: "prims \<Rightarrow> State \<Rightarrow> action list \<Rightarrow> State \<Rightarrow> bool" for P where
  stop: "session_run P s [] s"
| step: "session_step P s a s' \<Longrightarrow> session_run P s' as s'' \<Longrightarrow> session_run P s (a # as) s''"

inductive_cases session_runE: "session_run P s (a # as) s''"
inductive_simps session_step_simps:
  "session_step P s (Sent seq nonce) s'" "session_step P s (Received seq) s'" "session_step P s (PeerReady r) s'"

fun nonces :: "action list \<Rightarrow> bytes list" where
  "nonces [] = []"
| "nonces (Sent seq nonce # as) = nonce # nonces as"
| "nonces (_ # as) = nonces as"

fun received :: "action list \<Rightarrow> 64 word list" where
  "received [] = []"
| "received (Received seq # as) = seq # received as"
| "received (_ # as) = received as"

definition nonce_of :: "64 word \<Rightarrow> bytes" where
  "nonce_of seq = replicate 4 NUL @ big_endian 8 (unat seq)"

lemma nonce_of_inject [simp]: "nonce_of a = nonce_of b \<longleftrightarrow> a = b"
proof
  assume "nonce_of a = nonce_of b"
  then have "big_endian 8 (unat a) = big_endian 8 (unat b)" by (simp add: nonce_of_def)
  moreover have "unat x < 256 ^ 8" for x :: "64 word"
  proof -
    have "unat x < 2 ^ LENGTH(64)" by (rule unsigned_less)
    then show ?thesis by simp
  qed
  ultimately have "unat a = unat b" by (metis big_endian_inject)
  then show "a = b" by (rule unsigned_word_eqI)
qed simp

lemma length_nonce_of [simp]: "length (nonce_of a) = 12"
  by (simp add: nonce_of_def)

lemma NextSend_eq: "NextSend s = ((St_sendSeq s, nonce_of (St_sendSeq s)), s\<lparr>St_sendSeq := St_sendSeq s + 1\<rparr>)"
  by (simp add: NextSend_def nonce_of_def Let_def)

lemma MarkReceived_Inr_iff:
  "MarkReceived s seq = Inr s' \<longleftrightarrow> seq \<notin> St_seenSeq s \<and> s' = s\<lparr>St_seenSeq := insert seq (St_seenSeq s)\<rparr>"
  by (auto simp: MarkReceived_def)

lemma run_nonces:
  "session_run P s as s' \<Longrightarrow>
     nonces as = map (\<lambda>i. nonce_of (St_sendSeq s + of_nat i)) [0..<length (nonces as)]"
proof (induction rule: session_run.induct)
  case (step s a s' as s'')
  show ?case
  proof (cases a)
    case (Sent seq nonce)
    then have "nonce = nonce_of (St_sendSeq s)" "St_sendSeq s' = St_sendSeq s + 1"
      using step.hyps(1) by (auto simp: session_step_simps NextSend_eq)
    then show ?thesis using Sent step.IH
      by (simp add: upt_rec[of 0] map_Suc_upt[symmetric] o_def algebra_simps del: upt_Suc)
  qed (use step in \<open>auto simp: session_step_simps MarkReceived_Inr_iff dest!: VerifyReady_Inr(1)\<close>)
qed simp

lemma of_nat_distinct: "n \<le> 2 ^ 64 \<Longrightarrow> inj_on (\<lambda>i. nonce_of (c + of_nat i)) {0..<n}"
proof (rule inj_onI)
  fix i j assume n: "n \<le> 2 ^ 64" "i \<in> {0..<n}" "j \<in> {0..<n}" and eq: "nonce_of (c + of_nat i) = nonce_of (c + of_nat j)"
  from eq have "(of_nat i :: 64 word) = of_nat j" by simp
  then have "unat (of_nat i :: 64 word) = unat (of_nat j :: 64 word)" by simp
  with n show "i = j" by (simp add: unat_of_nat)
qed

lemma run_nonces_distinct:
  assumes "session_run P s as s'" "length (nonces as) \<le> 2 ^ 64"
  shows "distinct (nonces as)"
  using of_nat_distinct[OF assms(2), of "St_sendSeq s"] run_nonces[OF assms(1)]
  by (metis atLeastLessThan_upt distinct_map distinct_upt)

lemma run_received:
  "session_run P s as s' \<Longrightarrow>
     distinct (received as) \<and> set (received as) \<inter> St_seenSeq s = {} \<and>
     St_seenSeq s' = St_seenSeq s \<union> set (received as)"
proof (induction rule: session_run.induct)
  case (step s a s' as s'')
  then show ?case
    by (cases a) (auto simp: session_step_simps MarkReceived_Inr_iff NextSend_eq dest!: VerifyReady_Inr(1))
qed simp

lemma run_keys:
  "session_run P s as s' \<Longrightarrow>
     St_SendKey s' = St_SendKey s \<and> St_ReceiveKey s' = St_ReceiveKey s \<and> St_SessionID s' = St_SessionID s \<and>
     St_TranscriptHash s' = St_TranscriptHash s"
proof (induction rule: session_run.induct)
  case (step s a s' as s'')
  then show ?case
    by (cases a) (auto simp: session_step_simps MarkReceived_Inr_iff NextSend_eq dest!: VerifyReady_Inr(1))
qed simp

lemma run_ready:
  "session_run P s as s' \<Longrightarrow> St_ready s' \<Longrightarrow> \<not> St_ready s \<Longrightarrow> \<exists>r. PeerReady r \<in> set as \<and>
     DecodeBase64URL (R_ReadyMAC r) = Inr (hmac_sha256 P (St_ReadyKey s) (''ready:'' @ St_PeerDeviceID s))"
proof (induction rule: session_run.induct)
  case (step s a s' as s'')
  show ?case
  proof (cases a)
    case (PeerReady r)
    then show ?thesis using step.hyps(1) VerifyReady_Inr(5) by (auto simp: session_step_simps)
  qed (use step in \<open>auto simp: session_step_simps MarkReceived_Inr_iff NextSend_eq\<close>)
qed simp

section \<open>Properties\<close>

lemma model_hello:
  assumes "year_ok t"
  shows "\<exists>l. CreateHello model_prims (replicate 32 c) dev sid peer gid t = (Inr l, [])"
    and "CreateHello model_prims r dev sid peer gid t' = (Inr l, r') \<Longrightarrow> length (xpriv_key (LH_privateKey l)) = 32"
proof -
  obtain priv pub where "GenerateSessionKey model_prims (replicate 32 c) = (Inr (priv, pub), [])"
    using model_session_key[of c "[]"] by auto
  then show "\<exists>l. CreateHello model_prims (replicate 32 c) dev sid peer gid t = (Inr l, [])"
    using assms hello_input_ok[of "\<lparr>H_Type = TypeHello, H_SessionID = sid,
                 H_DomainID = ID_DomainID (Dev_Identity dev), H_DeviceID = ID_DeviceID (Dev_Identity dev),
                 H_PeerDeviceID = peer, H_Ciphersuite = CiphersuiteV2,
                 H_EphemeralPublicKey = Base64URL (xpub_key pub), H_GrantID = gid, H_IssuedAt = t,
                 H_Signature = no_signature\<rparr>"]
    by (auto simp: CreateHello_def Let_def)
next
  assume "CreateHello model_prims r dev sid peer gid t' = (Inr l, r')"
  then show "length (xpriv_key (LH_privateKey l)) = 32"
    by (rule CreateHello_Inr)
       (auto dest!: GenerateSessionKey_pair simp: model_prims_def split: if_splits)
qed

text \<open>
  C9. The handshake. When two devices with different identifiers of one domain create hellos for each
  other in one session and the key exchange yields a secret at the first device, then both
  establish the session with equal transcripts, each one's send key is the other's receive key, no
  key is usable before the peer's ready message, and each accepts the ready message of the other.
\<close>

theorem handshake_completes:
  assumes "sig_correct P" "dh_agrees P" "hkdf_total P"
    and "NewDevice P rA domainID idA tA = (Inr A, rA')" "NewDevice P rB domainID idB tB = (Inr B, rB')" and "idA \<noteq> idB"
    and "CreateHello P r A sid idB gA hA = (Inr la, ra)" "CreateHello P r' B sid idA gB hB = (Inr lb, rb)"
    and "DecodeBase64URL (H_EphemeralPublicKey (LH_Hello lb)) = Inr pb" "is_ok (SharedSecret P (LH_privateKey la) (X25519PublicKey pb))"
  shows "\<exists>sa sb rdA rdB.
     Establish P la (LH_Hello lb) (Dev_Identity A) (Dev_Identity B) = Inr sa \<and>
     Establish P lb (LH_Hello la) (Dev_Identity B) (Dev_Identity A) = Inr sb \<and>
     paired sa sb \<and> fresh_state sa \<and> fresh_state sb \<and>
     CreateReady P sa A = Inr rdA \<and> VerifyReady P sb rdA (Dev_Identity A) = Inr (sb\<lparr>St_ready := True\<rparr>) \<and>
     CreateReady P sb B = Inr rdB \<and> VerifyReady P sa rdB (Dev_Identity B) = Inr (sa\<lparr>St_ready := True\<rparr>)"
proof -
  note A = NewDevice_ok[OF assms(1,4)] and B = NewDevice_ok[OF assms(1,5)]
  obtain sa sb where s: "Establish P la (LH_Hello lb) (Dev_Identity A) (Dev_Identity B) = Inr sa"
    "Establish P lb (LH_Hello la) (Dev_Identity B) (Dev_Identity A) = Inr sb" "paired sa sb" "fresh_state sa" "fresh_state sb"
    by (rule sessions_agree[OF assms(1-3) A(1) B(1), of r sid gA hA la ra r' gB hB lb rb pb])
       (use assms(6-10) A B in simp_all)
  from s(3) have "paired sb sa" by (simp add: paired_def)
  with s ready_accepted[OF assms(1) A(1) s(3)] ready_accepted[OF assms(1) B(1)] show ?thesis by blast
qed

theorem handshake_completes_witness:
  "\<exists>A B la lb sa sb.
     NewDevice model_prims (replicate 32 (CHR ''s'')) ''dom'' ''phone'' 0 = (Inr A, []) \<and>
     NewDevice model_prims (replicate 32 (CHR ''s'')) ''dom'' ''watch'' 0 = (Inr B, []) \<and>
     CreateHello model_prims (replicate 32 (CHR ''a'')) A ''sid'' ''watch'' ''g'' 0 = (Inr la, []) \<and>
     CreateHello model_prims (replicate 32 (CHR ''b'')) B ''sid'' ''phone'' ''g'' 0 = (Inr lb, []) \<and>
     Establish model_prims la (LH_Hello lb) (Dev_Identity A) (Dev_Identity B) = Inr sa \<and>
     Establish model_prims lb (LH_Hello la) (Dev_Identity B) (Dev_Identity A) = Inr sb \<and> paired sa sb"
proof -
  have y: "year_ok 0" by code_simp
  obtain A where A: "NewDevice model_prims (replicate 32 (CHR ''s'')) ''dom'' ''phone'' 0 = (Inr A, [])" using model_device by blast
  obtain B where B: "NewDevice model_prims (replicate 32 (CHR ''s'')) ''dom'' ''watch'' 0 = (Inr B, [])" using model_device by blast
  obtain la where la: "CreateHello model_prims (replicate 32 (CHR ''a'')) A ''sid'' ''watch'' ''g'' 0 = (Inr la, [])"
    using model_hello(1)[OF y] by blast
  obtain lb where lb: "CreateHello model_prims (replicate 32 (CHR ''b'')) B ''sid'' ''phone'' ''g'' 0 = (Inr lb, [])"
    using model_hello(1)[OF y] by blast
  obtain pub where e: "H_EphemeralPublicKey (LH_Hello lb) = Base64URL (xpub_key pub)" "length (xpub_key pub) = 32"
    using lb by (rule CreateHello_Inr) (use model_dh GenerateSessionKey_pair in \<open>fastforce simp: dh_agrees_def\<close>)
  have d: "DecodeBase64URL (H_EphemeralPublicKey (LH_Hello lb)) = Inr (xpub_key pub)" using e by simp
  have sh: "is_ok (SharedSecret model_prims (LH_privateKey la) (X25519PublicKey (xpub_key pub)))"
    using model_shared[OF model_hello(2)[OF y la] e(2)] by auto
  have ne: "''phone'' \<noteq> ''watch''" by simp
  show ?thesis
    using handshake_completes[OF model_sig model_dh model_hkdf A B ne la lb d sh] A B la lb by blast
qed

text \<open>
  C8. Over every run of a session, with sends, receives and ready messages interleaved in any way,
  the first \<open>2 ^ 64\<close> nonces taken are pairwise different, so no nonce is used twice under one send
  key; every received sequence number is accepted at most once; and a session becomes ready only by
  accepting a ready message of the peer.
\<close>

theorem session_run_safe:
  assumes "session_run P s as s'"
  shows "(length (nonces as) \<le> 2 ^ 64 \<longrightarrow> distinct (nonces as)) \<and> distinct (received as) \<and>
     St_seenSeq s' = St_seenSeq s \<union> set (received as) \<and> St_SendKey s' = St_SendKey s \<and>
     (St_ready s' \<longrightarrow> St_ready s \<or> (\<exists>r. PeerReady r \<in> set as))"
  using run_nonces_distinct[OF assms] run_received[OF assms] run_keys[OF assms] run_ready[OF assms] by blast

definition sample_state :: State where
  "sample_state = \<lparr>St_SessionID = ''sid'', St_DomainID = ''dom'', St_LocalDeviceID = ''phone'', St_PeerDeviceID = ''watch'',
     St_TranscriptHash = [], St_SendKey = replicate 32 (CHR ''x''), St_ReceiveKey = replicate 32 (CHR ''y''),
     St_ReadyKey = [], St_ready = True, St_sendSeq = 0, St_seenSeq = {}\<rparr>"

theorem session_run_safe_witness:
  "\<exists>s'. session_run model_prims sample_state [Sent 0 (nonce_of 0), Received 7, Sent 1 (nonce_of 1)] s' \<and>
     distinct (nonces [Sent 0 (nonce_of 0), Received 7, Sent 1 (nonce_of 1)]) \<and> St_seenSeq s' = {7}"
proof -
  let ?s1 = "sample_state\<lparr>St_sendSeq := 1\<rparr>" and ?s2 = "sample_state\<lparr>St_sendSeq := 1, St_seenSeq := {7}\<rparr>"
    and ?s3 = "sample_state\<lparr>St_sendSeq := 2, St_seenSeq := {7}\<rparr>"
  have "session_step model_prims sample_state (Sent 0 (nonce_of 0)) ?s1" "session_step model_prims ?s1 (Received 7) ?s2"
    "session_step model_prims ?s2 (Sent 1 (nonce_of 1)) ?s3"
    by (simp_all add: session_step_simps NextSend_eq MarkReceived_Inr_iff sample_state_def)
  then have r: "session_run model_prims sample_state [Sent 0 (nonce_of 0), Received 7, Sent 1 (nonce_of 1)] ?s3"
    by (blast intro: session_run.intros)
  have "St_seenSeq ?s3 = {7}" by simp
  with r session_run_safe[OF r] show ?thesis by (intro exI[of _ ?s3]) simp
qed

end
