(* ===== verification/Session_Control.thy ===== *)
theory Session_Control
  imports Session
begin

text \<open>
  \<^verbatim>\<open>pkg/iscp/session/control.go\<close>: the signed control frames that ask for a new handshake (reopen) and
  announce the end of a session (close). The 16 random bytes of a frame's nonce are the argument
  \<open>draw\<close>.
\<close>

section \<open>Frames\<close>

definition TypeReopen :: string where "TypeReopen = ''iscp.session.reopen.v1''"
definition TypeClose :: string where "TypeClose = ''iscp.session.close.v1''"

definition CauseRuntimeStarted :: string where "CauseRuntimeStarted = ''runtime_started''"
definition CauseForegroundRecovery :: string where "CauseForegroundRecovery = ''foreground_recovery''"

definition CloseReasonShutdown :: string where "CloseReasonShutdown = ''shutdown''"
definition CloseReasonSuperseded :: string where "CloseReasonSuperseded = ''superseded''"
definition CloseReasonRevoked :: string where "CloseReasonRevoked = ''revoked''"
definition CloseReasonError :: string where "CloseReasonError = ''error''"

definition ControlFrameMaxTTL :: duration where "ControlFrameMaxTTL = 30 * Second"
definition ControlFrameClockSkew :: duration where "ControlFrameClockSkew = 5 * Second"

record Reopen =
  Ro_Type :: string
  Ro_RequestID :: string
  Ro_DomainID :: string
  Ro_DeviceID :: string
  Ro_PeerDeviceID :: string
  Ro_RelayID :: string
  Ro_Cause :: string
  Ro_IssuedAt :: time
  Ro_ExpiresAt :: time
  Ro_Nonce :: string
  Ro_Signature :: Signature

record Close =
  Cl_Type :: string
  Cl_SessionID :: string
  Cl_DomainID :: string
  Cl_DeviceID :: string
  Cl_PeerDeviceID :: string
  Cl_RelayID :: string
  Cl_Reason :: string
  Cl_IssuedAt :: time
  Cl_ExpiresAt :: time
  Cl_Nonce :: string
  Cl_Signature :: Signature

record ReopenVerifyOptions =
  RV_LocalDeviceID :: string
  RV_DomainID :: string
  RV_RelayID :: string
  RV_Now :: time

definition reopen_fields :: "Reopen \<Rightarrow> (string \<times> jdoc result) list" where
  "reopen_fields f =
     [(''type'', Inr (DStr (Ro_Type f))), (''request_id'', Inr (DStr (Ro_RequestID f))),
      (''domain_id'', Inr (DStr (Ro_DomainID f))), (''device_id'', Inr (DStr (Ro_DeviceID f))),
      (''peer_device_id'', Inr (DStr (Ro_PeerDeviceID f))), (''relay_id'', Inr (DStr (Ro_RelayID f))),
      (''cause'', Inr (DStr (Ro_Cause f))), (''issued_at'', time_doc (Ro_IssuedAt f)),
      (''expires_at'', time_doc (Ro_ExpiresAt f)), (''nonce'', Inr (DStr (Ro_Nonce f))),
      (''signature'', Inr (signature_doc (Ro_Signature f)))]"

definition close_fields :: "Close \<Rightarrow> (string \<times> jdoc result) list" where
  "close_fields f =
     [(''type'', Inr (DStr (Cl_Type f))), (''session_id'', Inr (DStr (Cl_SessionID f))),
      (''domain_id'', Inr (DStr (Cl_DomainID f))), (''device_id'', Inr (DStr (Cl_DeviceID f))),
      (''peer_device_id'', Inr (DStr (Cl_PeerDeviceID f))), (''relay_id'', Inr (DStr (Cl_RelayID f))),
      (''reason'', Inr (DStr (Cl_Reason f))), (''issued_at'', time_doc (Cl_IssuedAt f)),
      (''expires_at'', time_doc (Cl_ExpiresAt f)), (''nonce'', Inr (DStr (Cl_Nonce f))),
      (''signature'', Inr (signature_doc (Cl_Signature f)))]"

definition reopen_input :: "Reopen \<Rightarrow> bytes result" where
  "reopen_input f = signature_input TypeReopen (json_object (reopen_fields f))"

definition close_input :: "Close \<Rightarrow> bytes result" where
  "close_input f = signature_input TypeClose (json_object (close_fields f))"

section \<open>Operations\<close>

definition validCause :: "string \<Rightarrow> bool" where
  "validCause cause \<longleftrightarrow> cause = CauseRuntimeStarted \<or> cause = CauseForegroundRecovery"

definition validCloseReason :: "string \<Rightarrow> bool" where
  "validCloseReason reason \<longleftrightarrow>
     reason \<in> {CloseReasonShutdown, CloseReasonSuperseded, CloseReasonRevoked, CloseReasonError}"

definition CreateReopen ::
  "prims \<Rightarrow> bytes \<Rightarrow> Device \<Rightarrow> string \<Rightarrow> string \<Rightarrow> string \<Rightarrow> string \<Rightarrow> time \<Rightarrow> Reopen result" where
  "CreateReopen P draw dev requestID peerDeviceID relayID cause now =
     (if \<not> validCause cause then reject CodeSessionInvalid ''unsupported session reopen cause''
      else let issued = Truncate now Second;
               frame = \<lparr>Ro_Type = TypeReopen, Ro_RequestID = requestID,
                 Ro_DomainID = ID_DomainID (Dev_Identity dev), Ro_DeviceID = ID_DeviceID (Dev_Identity dev),
                 Ro_PeerDeviceID = peerDeviceID, Ro_RelayID = relayID, Ro_Cause = cause, Ro_IssuedAt = issued,
                 Ro_ExpiresAt = Add issued ControlFrameMaxTTL, Ro_Nonce = Base64URL draw,
                 Ro_Signature = no_signature\<rparr>
           in and_then (reopen_input frame) (\<lambda>input.
                Inr (frame\<lparr>Ro_Signature := make_signature P dev input\<rparr>)))"

definition verifyControlWindow :: "time \<Rightarrow> time \<Rightarrow> time \<Rightarrow> unit result" where
  "verifyControlWindow issuedAt expiresAt now =
     (if After issuedAt (Add now ControlFrameClockSkew) \<or> \<not> After expiresAt now \<or>
         Before expiresAt issuedAt \<or> ControlFrameMaxTTL < Sub expiresAt issuedAt
      then reject CodeSignatureInvalid ''session control frame is outside its allowed time window''
      else Inr ())"

text \<open>\<open>unsigned_input\<close> is the signature input of the frame with its signature cleared.\<close>

definition verifyControlSignature ::
  "prims \<Rightarrow> bytes result \<Rightarrow> Signature \<Rightarrow> DeviceIdentity \<Rightarrow> unit result" where
  "verifyControlSignature P unsigned_input sig sender =
     check_signature P sender sig unsigned_input
       (errors_New CodeSignatureInvalid ''session control frame signature verification failed'')"

definition VerifyReopen ::
  "prims \<Rightarrow> Reopen \<Rightarrow> DeviceIdentity \<Rightarrow> ReopenVerifyOptions \<Rightarrow> unit result" where
  "VerifyReopen P reopen requester opts =
     (if Ro_Type reopen \<noteq> TypeReopen then reject CodeSessionInvalid ''invalid session reopen type''
      else if \<not> validCause (Ro_Cause reopen) then reject CodeSessionInvalid ''unsupported session reopen cause''
      else if Ro_DomainID reopen \<noteq> RV_DomainID opts \<or> ID_DomainID requester \<noteq> RV_DomainID opts
        then reject CodeTrustInvalid ''session reopen domain mismatch''
      else if Ro_DeviceID reopen \<noteq> ID_DeviceID requester
        then reject CodeTrustInvalid ''session reopen identity mismatch''
      else if Ro_PeerDeviceID reopen \<noteq> RV_LocalDeviceID opts
        then reject CodeTrustInvalid ''session reopen is not addressed to this device''
      else if Ro_RelayID reopen \<noteq> RV_RelayID opts
        then reject CodeTrustInvalid ''session reopen relay constraint mismatch''
      else and_then (verifyControlWindow (Ro_IssuedAt reopen) (Ro_ExpiresAt reopen) (RV_Now opts)) (\<lambda>_.
        if Sig_KID (Ro_Signature reopen) \<noteq> PK_KID (ID_PublicKey requester)
          then reject CodeTrustInvalid ''session reopen identity mismatch''
        else verifyControlSignature P (reopen_input (reopen\<lparr>Ro_Signature := no_signature\<rparr>))
               (Ro_Signature reopen) requester))"

definition CreateClose ::
  "prims \<Rightarrow> bytes \<Rightarrow> Device \<Rightarrow> string \<Rightarrow> string \<Rightarrow> string \<Rightarrow> string \<Rightarrow> time \<Rightarrow> Close result" where
  "CreateClose P draw dev sessionID peerDeviceID relayID reason now =
     (if \<not> validCloseReason reason then reject CodeSessionInvalid ''unsupported session close reason''
      else let issued = Truncate now Second;
               frame = \<lparr>Cl_Type = TypeClose, Cl_SessionID = sessionID,
                 Cl_DomainID = ID_DomainID (Dev_Identity dev), Cl_DeviceID = ID_DeviceID (Dev_Identity dev),
                 Cl_PeerDeviceID = peerDeviceID, Cl_RelayID = relayID, Cl_Reason = reason, Cl_IssuedAt = issued,
                 Cl_ExpiresAt = Add issued ControlFrameMaxTTL, Cl_Nonce = Base64URL draw,
                 Cl_Signature = no_signature\<rparr>
           in and_then (close_input frame) (\<lambda>input.
                Inr (frame\<lparr>Cl_Signature := make_signature P dev input\<rparr>)))"

definition VerifyClose ::
  "prims \<Rightarrow> Close \<Rightarrow> DeviceIdentity \<Rightarrow> ReopenVerifyOptions \<Rightarrow> unit result" where
  "VerifyClose P frame sender opts =
     (if Cl_Type frame \<noteq> TypeClose then reject CodeSessionInvalid ''invalid session close type''
      else if \<not> validCloseReason (Cl_Reason frame) then reject CodeSessionInvalid ''unsupported session close reason''
      else if Cl_DomainID frame \<noteq> RV_DomainID opts \<or> ID_DomainID sender \<noteq> RV_DomainID opts
        then reject CodeTrustInvalid ''session close domain mismatch''
      else if Cl_DeviceID frame \<noteq> ID_DeviceID sender
        then reject CodeTrustInvalid ''session close identity mismatch''
      else if Cl_PeerDeviceID frame \<noteq> RV_LocalDeviceID opts
        then reject CodeTrustInvalid ''session close is not addressed to this device''
      else if Cl_RelayID frame \<noteq> RV_RelayID opts
        then reject CodeTrustInvalid ''session close relay constraint mismatch''
      else and_then (verifyControlWindow (Cl_IssuedAt frame) (Cl_ExpiresAt frame) (RV_Now opts)) (\<lambda>_.
        if Sig_KID (Cl_Signature frame) \<noteq> PK_KID (ID_PublicKey sender)
          then reject CodeTrustInvalid ''session close identity mismatch''
        else verifyControlSignature P (close_input (frame\<lparr>Cl_Signature := no_signature\<rparr>))
               (Cl_Signature frame) sender))"

interpretation reopen_sig: signed_object Ro_Signature "\<lambda>s f. f\<lparr>Ro_Signature := s\<rparr>" reopen_input
  by unfold_locales simp_all

interpretation close_sig: signed_object Cl_Signature "\<lambda>s f. f\<lparr>Cl_Signature := s\<rparr>" close_input
  by unfold_locales simp_all

section \<open>Lemmas\<close>

lemma verifyControlWindow_Inr:
  "verifyControlWindow i e now = Inr () \<longleftrightarrow>
     i \<le> now + ControlFrameClockSkew \<and> now < e \<and> i \<le> e \<and> e - i \<le> ControlFrameMaxTTL"
  using Sub_gt_iff[of ControlFrameMaxTTL e i]
  by (auto simp: verifyControlWindow_def After_def Before_def Add_def ControlFrameMaxTTL_def Second_def)

text \<open>The window of a frame issued at an instant.\<close>

definition in_control_window :: "time \<Rightarrow> time \<Rightarrow> bool" where
  "in_control_window created now \<longleftrightarrow>
     Truncate created Second - ControlFrameClockSkew \<le> now \<and> now < Truncate created Second + ControlFrameMaxTTL"

lemma issued_window:
  "verifyControlWindow (Truncate t Second) (Add (Truncate t Second) ControlFrameMaxTTL) now = Inr () \<longleftrightarrow>
     in_control_window t now"
  by (auto simp: verifyControlWindow_Inr in_control_window_def Add_def ControlFrameMaxTTL_def Second_def)

definition frame_admits :: "Device \<Rightarrow> string \<Rightarrow> string \<Rightarrow> time \<Rightarrow> ReopenVerifyOptions \<Rightarrow> bool" where
  "frame_admits dev peer relay created opts \<longleftrightarrow> RV_DomainID opts = ID_DomainID (Dev_Identity dev) \<and>
     RV_LocalDeviceID opts = peer \<and> RV_RelayID opts = relay \<and> in_control_window created (RV_Now opts)"

lemma fields_fine_reopen: "year_ok (Ro_IssuedAt f) \<Longrightarrow> year_ok (Ro_ExpiresAt f) \<Longrightarrow> fields_fine (reopen_fields f)"
  by (auto simp: fields_fine_def reopen_fields_def time_doc_ok)

lemma fields_fine_close: "year_ok (Cl_IssuedAt f) \<Longrightarrow> year_ok (Cl_ExpiresAt f) \<Longrightarrow> fields_fine (close_fields f)"
  by (auto simp: fields_fine_def close_fields_def time_doc_ok)

lemma fields_ok_reopen: "fields_ok (reopen_fields f)"
  by (auto simp: fields_ok_def reopen_fields_def time_doc_Inr)

lemma fields_ok_close: "fields_ok (close_fields f)"
  by (auto simp: fields_ok_def close_fields_def time_doc_Inr)

lemma make_signature_kid [simp]: "Sig_KID (make_signature P d m) = PK_KID (ID_PublicKey (Dev_Identity d))"
  by (simp add: make_signature_def)

lemma CreateReopen_verify:
  assumes "sig_correct P" "device_ok P dev" and "CreateReopen P draw dev rid peer relay cause now = Inr f"
  shows "VerifyReopen P f (Dev_Identity dev) opts = Inr () \<longleftrightarrow> frame_admits dev peer relay now opts"
proof -
  define f0 where "f0 = \<lparr>Ro_Type = TypeReopen, Ro_RequestID = rid,
     Ro_DomainID = ID_DomainID (Dev_Identity dev), Ro_DeviceID = ID_DeviceID (Dev_Identity dev),
     Ro_PeerDeviceID = peer, Ro_RelayID = relay, Ro_Cause = cause, Ro_IssuedAt = Truncate now Second,
     Ro_ExpiresAt = Add (Truncate now Second) ControlFrameMaxTTL, Ro_Nonce = Base64URL draw, Ro_Signature = no_signature\<rparr>"

  obtain m where m: "validCause cause" "reopen_input (f0\<lparr>Ro_Signature := no_signature\<rparr>) = Inr m"
    "f = f0\<lparr>Ro_Signature := make_signature P dev m\<rparr>"
    using assms(3) by (auto simp: CreateReopen_def f0_def Let_def and_then_Inr_iff split: if_splits)
  note sig = reopen_sig.signed_checks[OF assms(1,2) m(2,3)]
  have "VerifyReopen P f (Dev_Identity dev) opts = Inr () \<longleftrightarrow>
      RV_DomainID opts = ID_DomainID (Dev_Identity dev) \<and> RV_LocalDeviceID opts = peer \<and> RV_RelayID opts = relay \<and>
      verifyControlWindow (Truncate now Second) (Add (Truncate now Second) ControlFrameMaxTTL) (RV_Now opts) = Inr ()"
    using sig m(1) unfolding m(3) VerifyReopen_def verifyControlSignature_def by (auto simp: f0_def and_then_Inr_iff)
  then show ?thesis by (simp add: frame_admits_def issued_window)
qed

lemma CreateClose_verify:
  assumes "sig_correct P" "device_ok P dev" and "CreateClose P draw dev sid peer relay reason now = Inr f"
  shows "VerifyClose P f (Dev_Identity dev) opts = Inr () \<longleftrightarrow> frame_admits dev peer relay now opts"
proof -
  define f0 where "f0 = \<lparr>Cl_Type = TypeClose, Cl_SessionID = sid,
     Cl_DomainID = ID_DomainID (Dev_Identity dev), Cl_DeviceID = ID_DeviceID (Dev_Identity dev),
     Cl_PeerDeviceID = peer, Cl_RelayID = relay, Cl_Reason = reason, Cl_IssuedAt = Truncate now Second,
     Cl_ExpiresAt = Add (Truncate now Second) ControlFrameMaxTTL, Cl_Nonce = Base64URL draw, Cl_Signature = no_signature\<rparr>"

  obtain m where m: "validCloseReason reason" "close_input (f0\<lparr>Cl_Signature := no_signature\<rparr>) = Inr m"
    "f = f0\<lparr>Cl_Signature := make_signature P dev m\<rparr>"
    using assms(3) by (auto simp: CreateClose_def f0_def Let_def and_then_Inr_iff split: if_splits)
  note sig = close_sig.signed_checks[OF assms(1,2) m(2,3)]
  have "VerifyClose P f (Dev_Identity dev) opts = Inr () \<longleftrightarrow>
      RV_DomainID opts = ID_DomainID (Dev_Identity dev) \<and> RV_LocalDeviceID opts = peer \<and> RV_RelayID opts = relay \<and>
      verifyControlWindow (Truncate now Second) (Add (Truncate now Second) ControlFrameMaxTTL) (RV_Now opts) = Inr ()"
    using sig m(1) unfolding m(3) VerifyClose_def verifyControlSignature_def by (auto simp: f0_def and_then_Inr_iff)
  then show ?thesis by (simp add: frame_admits_def issued_window)
qed

lemma reopen_input_ok: "year_ok (Ro_IssuedAt f) \<Longrightarrow> year_ok (Ro_ExpiresAt f) \<Longrightarrow> \<exists>x. reopen_input f = Inr x"
  unfolding reopen_input_def by (intro signature_input_ok fields_fine_reopen)

lemma close_input_ok: "year_ok (Cl_IssuedAt f) \<Longrightarrow> year_ok (Cl_ExpiresAt f) \<Longrightarrow> \<exists>x. close_input f = Inr x"
  unfolding close_input_def by (intro signature_input_ok fields_fine_close)

lemma CreateReopen_ok:
  assumes "validCause cause" "year_ok (Truncate now Second)" "year_ok (Add (Truncate now Second) ControlFrameMaxTTL)"
  shows "\<exists>f. CreateReopen P draw dev rid peer relay cause now = Inr f"
  using assms by (simp add: CreateReopen_def Let_def) (rule and_then_ok, rule reopen_input_ok, simp_all)

lemma CreateClose_ok:
  assumes "validCloseReason reason" "year_ok (Truncate now Second)" "year_ok (Add (Truncate now Second) ControlFrameMaxTTL)"
  shows "\<exists>f. CreateClose P draw dev sid peer relay reason now = Inr f"
  using assms by (simp add: CreateClose_def Let_def) (rule and_then_ok, rule close_input_ok, simp_all)

section \<open>Properties\<close>

text \<open>
  C30. A reopen and a close frame created by a device are accepted by a verifier exactly when it
  verifies for the device's domain, as the device the frame is addressed to, on the frame's relay,
  and no earlier than five seconds before and strictly less than thirty seconds after the second
  in which the frame was created.
\<close>

theorem control_frames_accepted_iff:
  assumes "sig_correct P" "device_ok P dev"
    and "CreateReopen P draw dev rid peer relay cause now = Inr f" and "CreateClose P draw' dev sid peer relay reason now = Inr g"
  shows "(VerifyReopen P f (Dev_Identity dev) opts = Inr () \<longleftrightarrow> frame_admits dev peer relay now opts) \<and>
     (VerifyClose P g (Dev_Identity dev) opts = Inr () \<longleftrightarrow> frame_admits dev peer relay now opts)"
  using CreateReopen_verify[OF assms(1-3)] CreateClose_verify[OF assms(1,2,4)] by blast

theorem control_frames_accepted_iff_witness:
  "\<exists>d f g. NewDevice model_prims (replicate 32 (CHR ''s'')) ''dom'' ''phone'' 0 = (Inr d, []) \<and>
     CreateReopen model_prims ''0123456789abcdef'' d ''r'' ''watch'' ''relay'' CauseRuntimeStarted 1 = Inr f \<and>
     CreateClose model_prims ''0123456789abcdef'' d ''s'' ''watch'' ''relay'' CloseReasonError 1 = Inr g \<and>
     VerifyReopen model_prims f (Dev_Identity d) \<lparr>RV_LocalDeviceID = ''watch'', RV_DomainID = ''dom'', RV_RelayID = ''relay'', RV_Now = 29 * Second\<rparr> = Inr () \<and>
     VerifyClose model_prims g (Dev_Identity d) \<lparr>RV_LocalDeviceID = ''watch'', RV_DomainID = ''dom'', RV_RelayID = ''relay'', RV_Now = 30 * Second\<rparr> \<noteq> Inr ()"
proof -
  obtain d where d: "NewDevice model_prims (replicate 32 (CHR ''s'')) ''dom'' ''phone'' 0 = (Inr d, [])"
    using model_device by blast
  have y: "year_ok (Truncate 1 Second)" "year_ok (Add (Truncate 1 Second) ControlFrameMaxTTL)" by code_simp+
  have c: "validCause CauseRuntimeStarted" "validCloseReason CloseReasonError"
    by (simp_all add: validCause_def validCloseReason_def)
  obtain f where f: "CreateReopen model_prims ''0123456789abcdef'' d ''r'' ''watch'' ''relay'' CauseRuntimeStarted 1 = Inr f"
    using CreateReopen_ok[OF c(1) y] by blast
  obtain g where g: "CreateClose model_prims ''0123456789abcdef'' d ''s'' ''watch'' ''relay'' CloseReasonError 1 = Inr g"
    using CreateClose_ok[OF c(2) y] by blast
  note D = NewDevice_ok[OF model_sig d]
  have "frame_admits d ''watch'' ''relay'' 1 \<lparr>RV_LocalDeviceID = ''watch'', RV_DomainID = ''dom'', RV_RelayID = ''relay'', RV_Now = 29 * Second\<rparr>"
    "\<not> frame_admits d ''watch'' ''relay'' 1 \<lparr>RV_LocalDeviceID = ''watch'', RV_DomainID = ''dom'', RV_RelayID = ''relay'', RV_Now = 30 * Second\<rparr>"
    by (simp_all add: frame_admits_def D in_control_window_def Truncate_def Second_def ControlFrameMaxTTL_def ControlFrameClockSkew_def)
  then show ?thesis
    using d f g control_frames_accepted_iff[OF model_sig D(1) f g] by blast
qed

end
