(* ===== verification/Envelope.thy ===== *)
theory Envelope
  imports Session
begin

text \<open>
  \<^verbatim>\<open>pkg/iscp/envelope/envelope.go\<close>: sealing a payload into an envelope on a session, and opening it.
  Both operations change the session state through its pointer, so they return it; a nil pointer
  is \<open>None\<close>. The two integers of a route are Go \<^verbatim>\<open>int\<close>s.
\<close>

section \<open>Envelopes\<close>

definition TypeSecureEnvelope :: string where "TypeSecureEnvelope = ''iscp.secure_envelope.v2''"

record Route =
  Rt_RelayID :: string
  Rt_TTLSeconds :: int
  Rt_Priority :: int

record SecureEnvelope =
  Env_Type :: string
  Env_DomainID :: string
  Env_MessageID :: string
  Env_SessionID :: string
  Env_SenderDeviceID :: string
  Env_RecipientDeviceID :: string
  Env_Sequence :: "64 word"
  Env_Nonce :: string
  Env_PayloadType :: string
  Env_Route :: Route
  Env_Ciphertext :: string

definition route_doc :: "Route \<Rightarrow> jdoc" where
  "route_doc r = DObj [(''relay_id'', DStr (Rt_RelayID r)), (''ttl_seconds'', DInt (Rt_TTLSeconds r)),
     (''priority'', DInt (Rt_Priority r))]"

definition envelope_fields :: "SecureEnvelope \<Rightarrow> (string \<times> jdoc result) list" where
  "envelope_fields e =
     [(''type'', Inr (DStr (Env_Type e))), (''domain_id'', Inr (DStr (Env_DomainID e))),
      (''message_id'', Inr (DStr (Env_MessageID e))), (''session_id'', Inr (DStr (Env_SessionID e))),
      (''sender_device_id'', Inr (DStr (Env_SenderDeviceID e))),
      (''recipient_device_id'', Inr (DStr (Env_RecipientDeviceID e))),
      (''sequence'', Inr (DInt (uint (Env_Sequence e)))), (''nonce'', Inr (DStr (Env_Nonce e))),
      (''payload_type'', Inr (DStr (Env_PayloadType e))), (''route'', Inr (route_doc (Env_Route e))),
      (''ciphertext'', Inr (DStr (Env_Ciphertext e)))]"

definition aad :: "SecureEnvelope \<Rightarrow> bytes result" where
  "aad env = canonical_json (json_object (envelope_fields (env\<lparr>Env_Ciphertext := []\<rparr>)))"

definition Encrypt ::
  "prims \<Rightarrow> State option \<Rightarrow> string \<Rightarrow> string \<Rightarrow> Route \<Rightarrow> bytes \<Rightarrow> SecureEnvelope result \<times> State option" where
  "Encrypt P st messageID payloadType route plaintext =
     (case st of
        None \<Rightarrow> (reject CodeSessionInvalid ''session is not ready for payload delivery'', st)
      | Some s \<Rightarrow>
          if \<not> Ready_method st then (reject CodeSessionInvalid ''session is not ready for payload delivery'', st)
          else let ((seq, nonce), s') = NextSend s;
                   env = \<lparr>Env_Type = TypeSecureEnvelope, Env_DomainID = St_DomainID s, Env_MessageID = messageID,
                     Env_SessionID = St_SessionID s, Env_SenderDeviceID = St_LocalDeviceID s,
                     Env_RecipientDeviceID = St_PeerDeviceID s, Env_Sequence = seq, Env_Nonce = Base64URL nonce,
                     Env_PayloadType = payloadType, Env_Route = route, Env_Ciphertext = []\<rparr>
               in (and_then (aad env) (\<lambda>ad.
                     and_then (Provider_Seal P (St_SendKey s) nonce plaintext ad) (\<lambda>ct.
                       Inr (env\<lparr>Env_Ciphertext := Base64URL ct\<rparr>))), Some s'))"

definition Decrypt :: "prims \<Rightarrow> State option \<Rightarrow> SecureEnvelope \<Rightarrow> bytes result \<times> State option" where
  "Decrypt P st env =
     (case st of
        None \<Rightarrow> (reject CodeSessionInvalid ''session is not ready for payload delivery'', st)
      | Some s \<Rightarrow>
          if \<not> Ready_method st then (reject CodeSessionInvalid ''session is not ready for payload delivery'', st)
          else if Env_Type env \<noteq> TypeSecureEnvelope \<or> Env_SessionID env \<noteq> St_SessionID s \<or> Env_DomainID env \<noteq> St_DomainID s
            then (reject CodeEnvelopeInvalid ''envelope binding mismatch'', st)
          else if Env_SenderDeviceID env \<noteq> St_PeerDeviceID s \<or> Env_RecipientDeviceID env \<noteq> St_LocalDeviceID s
            then (reject CodeEnvelopeInvalid ''envelope route identity mismatch'', st)
          else case MarkReceived s (Env_Sequence env) of
                 Inl err \<Rightarrow> (Inl err, st)
               | Inr s' \<Rightarrow>
                   (and_then (DecodeBase64URL (Env_Nonce env)) (\<lambda>nonce.
                    and_then (DecodeBase64URL (Env_Ciphertext env)) (\<lambda>ct.
                    and_then (aad env) (\<lambda>ad.
                      Provider_Open P (St_ReceiveKey s) nonce ct ad))), Some s'))"

section \<open>The additional data\<close>

lemma aad_ciphertext [simp]: "aad (env\<lparr>Env_Ciphertext := c\<rparr>) = aad env"
  by (simp add: aad_def)

lemma fields_ok_envelope: "fields_ok (envelope_fields e)"
  by (auto simp: fields_ok_def envelope_fields_def route_doc_def)

definition route_ok :: "Route \<Rightarrow> bool" where
  "route_ok r \<longleftrightarrow> int64_ok (Rt_TTLSeconds r) \<and> int64_ok (Rt_Priority r)"

lemma route_struct: "route_ok r \<Longrightarrow> is_ok (doc_value (route_doc r)) \<and> doc_ok (route_doc r)"
  unfolding route_doc_def
  by (subst struct_value) (auto simp: struct_ok_def route_ok_def doc_value_DInt)

lemma aad_ok:
  assumes "int64_ok (uint (Env_Sequence e))" "route_ok (Env_Route e)"
  shows "\<exists>x. aad e = Inr x"
  unfolding aad_def
  using assms route_struct by (intro canonical_json_ok) (auto simp: fields_fine_def envelope_fields_def doc_value_DInt)

lemma aad_Inr: "aad e = Inr x \<Longrightarrow> int64_ok (uint (Env_Sequence e))"
  unfolding aad_def
  by (drule canonical_field_succeeds[OF _ fields_ok_envelope, where k = "''sequence''" and r = "Inr (DInt (uint (Env_Sequence e)))"])
     (auto simp: envelope_fields_def dest: int_field_ok)

section \<open>Sealing and opening\<close>

text \<open>The envelope \<open>e\<close> carries the payload \<open>p\<close> under the send key of \<open>a\<close>.\<close>

definition sealed :: "prims \<Rightarrow> State \<Rightarrow> SecureEnvelope \<Rightarrow> bytes \<Rightarrow> bool" where
  "sealed P a e p \<longleftrightarrow> Env_Type e = TypeSecureEnvelope \<and> Env_DomainID e = St_DomainID a \<and>
     Env_SessionID e = St_SessionID a \<and> Env_SenderDeviceID e = St_LocalDeviceID a \<and>
     Env_RecipientDeviceID e = St_PeerDeviceID a \<and> Env_Nonce e = Base64URL (nonce_of (Env_Sequence e)) \<and>
     (\<exists>ad ct. aad e = Inr ad \<and> Env_Ciphertext e = Base64URL ct \<and>
        Provider_Seal P (St_SendKey a) (nonce_of (Env_Sequence e)) p ad = Inr ct)"

lemma sealed_sendSeq [simp]: "sealed P (a\<lparr>St_sendSeq := n\<rparr>) e p = sealed P a e p"
  by (simp add: sealed_def)

lemma sealed_sequence: "sealed P a e p \<Longrightarrow> int64_ok (uint (Env_Sequence e))"
  by (auto simp: sealed_def dest: aad_Inr)

lemma Encrypt_Inr:
  assumes "Encrypt P (Some s) mid ty route p = (Inr e, st)"
  shows "St_ready s" "st = Some (s\<lparr>St_sendSeq := St_sendSeq s + 1\<rparr>)" "Env_Sequence e = St_sendSeq s"
    "sealed P s e p" "Env_MessageID e = mid" "Env_PayloadType e = ty" "Env_Route e = route"
  using assms by (auto simp: Encrypt_def Ready_method_def NextSend_eq Let_def and_then_Inr_iff sealed_def aad_def split: if_splits)

lemma Encrypt_ok:
  assumes "St_ready s" "length (St_SendKey s) = 32" "int64_ok (uint (St_sendSeq s))" "route_ok route"
  shows "\<exists>e. Encrypt P (Some s) mid ty route p = (Inr e, Some (s\<lparr>St_sendSeq := St_sendSeq s + 1\<rparr>))"
proof -
  define e where "e = \<lparr>Env_Type = TypeSecureEnvelope, Env_DomainID = St_DomainID s, Env_MessageID = mid,
     Env_SessionID = St_SessionID s, Env_SenderDeviceID = St_LocalDeviceID s,
     Env_RecipientDeviceID = St_PeerDeviceID s, Env_Sequence = St_sendSeq s,
     Env_Nonce = Base64URL (nonce_of (St_sendSeq s)), Env_PayloadType = ty, Env_Route = route, Env_Ciphertext = []\<rparr>"
  obtain ad where ad: "aad e = Inr ad" using aad_ok[of e] assms(3,4) by (auto simp: e_def)
  obtain ct where "Provider_Seal P (St_SendKey s) (nonce_of (St_sendSeq s)) p ad = Inr ct"
    using Provider_Seal_ok[OF assms(2)] by fastforce
  with ad assms(1) show ?thesis by (simp add: Encrypt_def Ready_method_def NextSend_eq e_def)
qed

lemma Decrypt_sealed:
  assumes "aead_correct P" "paired a b" "St_ready b" "length (St_SendKey a) = 32" "sealed P a e p"
  shows "Decrypt P (Some b) e = (if Env_Sequence e \<in> St_seenSeq b
     then (reject CodeReplayDetected ''duplicate envelope sequence'', Some b)
     else (Inr p, Some (b\<lparr>St_seenSeq := insert (Env_Sequence e) (St_seenSeq b)\<rparr>)))"
proof -
  obtain ad ct where e: "aad e = Inr ad" "Env_Ciphertext e = Base64URL ct"
    "Provider_Seal P (St_SendKey a) (nonce_of (Env_Sequence e)) p ad = Inr ct"
    using assms(5) unfolding sealed_def by blast
  have "Provider_Open P (St_SendKey a) (nonce_of (Env_Sequence e)) ct ad = Inr p"
    using Provider_Open_Seal[OF assms(1) e(3)] assms(4) by simp
  with e assms(2,3,5) show ?thesis
    by (auto simp: Decrypt_def Ready_method_def sealed_def paired_def MarkReceived_def)
qed

section \<open>The channel\<close>

text \<open>Payloads sealed one after the other, and envelopes opened in the order they arrive.\<close>

inductive sends :: "prims \<Rightarrow> State \<Rightarrow> (SecureEnvelope \<times> bytes) list \<Rightarrow> State \<Rightarrow> bool" for P where
  none: "sends P s [] s"
| more: "Encrypt P (Some s) mid ty route p = (Inr e, Some s') \<Longrightarrow> sends P s' es s'' \<Longrightarrow> sends P s ((e, p) # es) s''"

fun deliver :: "prims \<Rightarrow> State option \<Rightarrow> SecureEnvelope list \<Rightarrow> bytes result list \<times> State option" where
  "deliver P st [] = ([], st)"
| "deliver P st (e # es) =
     (let (r, st') = Decrypt P st e; (rs, st'') = deliver P st' es in (r # rs, st''))"

lemma sends_sealed: "sends P s es s' \<Longrightarrow> (e, p) \<in> set es \<Longrightarrow> sealed P s e p"
  by (induction rule: sends.induct) (auto dest: Encrypt_Inr)

lemma uint_suc: "int64_ok (uint (c :: 64 word)) \<Longrightarrow> uint (c + 1) = uint c + 1"
  by (simp add: int64_ok_def uint_word_ariths mod_pos_pos_trivial)

lemma sends_sequences:
  "sends P s es s' \<Longrightarrow> distinct (map (Env_Sequence \<circ> fst) es) \<and>
     (\<forall>(e, p)\<in>set es. uint (St_sendSeq s) \<le> uint (Env_Sequence e))"
proof (induction rule: sends.induct)
  case (more s mid ty route p e s' es s'')
  note E = Encrypt_Inr[OF more.hyps(1)]
  have "int64_ok (uint (St_sendSeq s))" using sealed_sequence[OF E(4)] E(3) by simp
  then have "uint (St_sendSeq s') = uint (St_sendSeq s) + 1" using E(2) by (simp add: uint_suc)
  then show ?case using more.IH E(3) by fastforce
qed simp

lemma deliver_any_order:
  assumes "aead_correct P" "length (St_SendKey a) = 32"
    and "paired a b" "St_ready b" "\<forall>(e, p)\<in>set ds. sealed P a e p \<and> Env_Sequence e \<notin> St_seenSeq b"
    and "distinct (map (Env_Sequence \<circ> fst) ds)"
  shows "\<exists>b'. deliver P (Some b) (map fst ds) = (map (Inr \<circ> snd) ds, Some b') \<and> paired a b' \<and> St_ready b' \<and>
     St_seenSeq b' = St_seenSeq b \<union> set (map (Env_Sequence \<circ> fst) ds)"
  using assms(3-)
proof (induction ds arbitrary: b)
  case (Cons d ds)
  obtain e p where d: "d = (e, p)" by force
  let ?b = "b\<lparr>St_seenSeq := insert (Env_Sequence e) (St_seenSeq b)\<rparr>"
  have "Decrypt P (Some b) e = (Inr p, Some ?b)"
    using Decrypt_sealed[OF assms(1) Cons.prems(1,2) assms(2), of e p] Cons.prems(3) by (simp add: d)
  moreover have "paired a ?b" "St_ready ?b" using Cons.prems(1,2) by (simp_all add: paired_def)
  moreover have "\<forall>(e, p)\<in>set ds. sealed P a e p \<and> Env_Sequence e \<notin> St_seenSeq ?b"
    using Cons.prems(3,4) by (auto simp: d image_iff split_beta)
  ultimately show ?case using Cons.IH[of ?b] Cons.prems(4) by (auto simp: d)
qed simp

lemma deliver_replays:
  assumes "aead_correct P" "length (St_SendKey a) = 32"
    and "paired a b" "St_ready b" "\<forall>(e, p)\<in>set ds. sealed P a e p \<and> Env_Sequence e \<in> St_seenSeq b"
  shows "deliver P (Some b) (map fst ds) =
    (map (\<lambda>_. reject CodeReplayDetected ''duplicate envelope sequence'') ds, Some b)"
  using assms(5)
proof (induction ds)
  case (Cons d ds)
  obtain e p where d: "d = (e, p)" by force
  have "Decrypt P (Some b) e = (reject CodeReplayDetected ''duplicate envelope sequence'', Some b)"
    using Decrypt_sealed[OF assms(1,3,4,2), of e p] Cons.prems by (simp add: d)
  with Cons show ?case by (simp add: d)
qed simp

section \<open>What the additional data binds\<close>

lemma route_value:
  "route_ok r \<Longrightarrow> doc_value (route_doc r) = Inr (JObj [(''relay_id'', JStr (to_valid (Rt_RelayID r))),
     (''ttl_seconds'', JInt (Rt_TTLSeconds r)), (''priority'', JInt (Rt_Priority r))])"
  unfolding route_doc_def
  by (subst struct_value) (auto simp: struct_ok_def route_ok_def doc_value_DInt member_value_def)

lemma route_value_Inr: "doc_value (route_doc r) = Inr v \<Longrightarrow> route_ok r"
  by (auto simp: route_doc_def route_ok_def and_then_Inr_iff doc_value_DInt_iff)

lemma route_inject:
  assumes "field_value (route_doc r) = field_value (route_doc q)" "\<exists>v. field_value (route_doc r) = Inr v"
    and "valid_utf8 (Rt_RelayID r)" "valid_utf8 (Rt_RelayID q)"
  shows "r = q"
proof -
  have ok: "route_ok r" "route_ok q"
    using assms(1,2) by (auto simp: field_value_def and_then_Inr_iff dest: route_value_Inr)
  let ?m = "\<lambda>r. [(''relay_id'', JStr (to_valid (Rt_RelayID r))), (''ttl_seconds'', JInt (Rt_TTLSeconds r)), (''priority'', JInt (Rt_Priority r))]"
  have "norm (JObj (?m r)) = norm (JObj (?m q))" using assms(1) ok by (simp add: field_value_def route_value del: norm.simps)
  then have "map_option norm (map_of (?m r) k) = map_option norm (map_of (?m q) k)" for k by (rule norm_map_of) simp_all
  from this[of "''relay_id''"] this[of "''ttl_seconds''"] this[of "''priority''"] assms(3,4) show ?thesis
    by (cases r; cases q) simp
qed

definition envelope_strings_valid :: "SecureEnvelope \<Rightarrow> bool" where
  "envelope_strings_valid e \<longleftrightarrow> valid_utf8 (Env_Type e) \<and> valid_utf8 (Env_DomainID e) \<and> valid_utf8 (Env_MessageID e) \<and>
     valid_utf8 (Env_SessionID e) \<and> valid_utf8 (Env_SenderDeviceID e) \<and> valid_utf8 (Env_RecipientDeviceID e) \<and>
     valid_utf8 (Env_Nonce e) \<and> valid_utf8 (Env_PayloadType e) \<and> valid_utf8 (Rt_RelayID (Env_Route e))"

lemma envelope_field_of:
  "field_of (envelope_fields e) ''type'' = Some (Inr (JStr (to_valid (Env_Type e))))"
  "field_of (envelope_fields e) ''domain_id'' = Some (Inr (JStr (to_valid (Env_DomainID e))))"
  "field_of (envelope_fields e) ''message_id'' = Some (Inr (JStr (to_valid (Env_MessageID e))))"
  "field_of (envelope_fields e) ''session_id'' = Some (Inr (JStr (to_valid (Env_SessionID e))))"
  "field_of (envelope_fields e) ''sender_device_id'' = Some (Inr (JStr (to_valid (Env_SenderDeviceID e))))"
  "field_of (envelope_fields e) ''recipient_device_id'' = Some (Inr (JStr (to_valid (Env_RecipientDeviceID e))))"
  "field_of (envelope_fields e) ''sequence'' = Some (field_value (DInt (uint (Env_Sequence e))))"
  "field_of (envelope_fields e) ''nonce'' = Some (Inr (JStr (to_valid (Env_Nonce e))))"
  "field_of (envelope_fields e) ''payload_type'' = Some (Inr (JStr (to_valid (Env_PayloadType e))))"
  "field_of (envelope_fields e) ''route'' = Some (field_value (route_doc (Env_Route e)))"
  by (simp_all add: field_of_def envelope_fields_def)

lemma aad_inject:
  assumes "aad e = Inr x" "aad f = Inr x" "envelope_strings_valid e" "envelope_strings_valid f"
  shows "e\<lparr>Env_Ciphertext := c\<rparr> = f\<lparr>Env_Ciphertext := c\<rparr>"
proof -
  let ?e = "e\<lparr>Env_Ciphertext := []\<rparr>" and ?f = "f\<lparr>Env_Ciphertext := []\<rparr>"
  note i = assms(1,2)[unfolded aad_def] and v = assms(3,4)[unfolded envelope_strings_valid_def]
  have f: "field_of (envelope_fields ?e) k = field_of (envelope_fields ?f) k" for k
    by (rule canonical_fields_bound[OF i fields_ok_envelope fields_ok_envelope])
  have strings: "Env_Type e = Env_Type f" "Env_DomainID e = Env_DomainID f" "Env_MessageID e = Env_MessageID f"
    "Env_SessionID e = Env_SessionID f" "Env_SenderDeviceID e = Env_SenderDeviceID f"
    "Env_RecipientDeviceID e = Env_RecipientDeviceID f" "Env_Nonce e = Env_Nonce f" "Env_PayloadType e = Env_PayloadType f"
    using f[of "''type''"] f[of "''domain_id''"] f[of "''message_id''"] f[of "''session_id''"] f[of "''sender_device_id''"]
      f[of "''recipient_device_id''"] f[of "''nonce''"] f[of "''payload_type''"] v by (simp_all add: envelope_field_of)
  have "\<exists>v. and_then (Inr (DInt (uint (Env_Sequence e)))) field_value = Inr v"
    "\<exists>v. and_then (Inr (route_doc (Env_Route e))) field_value = Inr v"
    using canonical_field_succeeds[OF i(1) fields_ok_envelope, of "''sequence''" "Inr (DInt (uint (Env_Sequence e)))"]
      canonical_field_succeeds[OF i(1) fields_ok_envelope, of "''route''" "Inr (route_doc (Env_Route e))"]
    by (simp_all add: envelope_fields_def)
  then have "uint (Env_Sequence e) = uint (Env_Sequence f)" "Env_Route e = Env_Route f"
    using f[of "''sequence''"] f[of "''route''"] v int_field_eq route_inject by (auto simp: envelope_field_of)
  moreover from this(1) have "Env_Sequence e = Env_Sequence f" by (rule word_uint_eqI)
  ultimately show ?thesis using strings by (cases e; cases f) simp
qed

section \<open>Properties\<close>

text \<open>
  C10. The channel of a session delivers: whatever is sealed at one end of a ready session, opened at the
  other end in any order, yields exactly the payloads; and opening any of it again is rejected as
  a replay, without a change of state.
\<close>

theorem channel_delivers:
  assumes "aead_correct P" "paired a b" "St_ready b" "length (St_SendKey a) = 32" "St_seenSeq b = {}"
    and "sends P a es a'" and "distinct ds" "set ds \<subseteq> set es" and "set rs \<subseteq> set ds"
  shows "\<exists>b'. deliver P (Some b) (map fst ds) = (map (Inr \<circ> snd) ds, Some b') \<and>
     deliver P (Some b') (map fst rs) = (map (\<lambda>_. reject CodeReplayDetected ''duplicate envelope sequence'') rs, Some b')"
proof -
  have inj: "inj_on (Env_Sequence \<circ> fst) (set es)"
    using sends_sequences[OF assms(6)] by (simp add: distinct_map)
  then have d: "distinct (map (Env_Sequence \<circ> fst) ds)"
    using assms(7,8) by (auto simp: distinct_map intro: inj_on_subset)
  have s: "\<forall>(e, p)\<in>set ds. sealed P a e p \<and> Env_Sequence e \<notin> St_seenSeq b"
    using sends_sealed[OF assms(6)] assms(5,8) by auto
  obtain b' where b': "deliver P (Some b) (map fst ds) = (map (Inr \<circ> snd) ds, Some b')" "paired a b'" "St_ready b'"
    "St_seenSeq b' = St_seenSeq b \<union> set (map (Env_Sequence \<circ> fst) ds)"
    using deliver_any_order[OF assms(1,4,2,3) s d] by blast
  have "\<forall>(e, p)\<in>set rs. sealed P a e p \<and> Env_Sequence e \<in> St_seenSeq b'"
    using s assms(9) b'(4) by force
  from deliver_replays[OF assms(1,4) b'(2,3) this] b'(1) show ?thesis by blast
qed

definition sample_peer :: State where
  "sample_peer = \<lparr>St_SessionID = ''sid'', St_DomainID = ''dom'', St_LocalDeviceID = ''watch'', St_PeerDeviceID = ''phone'',
     St_TranscriptHash = [], St_SendKey = replicate 32 (CHR ''y''), St_ReceiveKey = replicate 32 (CHR ''x''),
     St_ReadyKey = [], St_ready = True, St_sendSeq = 0, St_seenSeq = {}\<rparr>"

definition sample_route :: Route where
  "sample_route = \<lparr>Rt_RelayID = ''relay'', Rt_TTLSeconds = 60, Rt_Priority = 0\<rparr>"

lemma sample_paired: "paired sample_state sample_peer"
  by (simp add: paired_def sample_state_def sample_peer_def)

lemma sample_encrypts:
  assumes "int64_ok (uint n)"
  shows "\<exists>e. Encrypt P (Some (sample_state\<lparr>St_sendSeq := n\<rparr>)) mid ty sample_route p =
    (Inr e, Some (sample_state\<lparr>St_sendSeq := n + 1\<rparr>))"
  using Encrypt_ok[of "sample_state\<lparr>St_sendSeq := n\<rparr>" sample_route P mid ty p] assms
  by (simp add: sample_state_def sample_route_def route_ok_def int64_ok_def)

theorem channel_delivers_witness:
  "\<exists>e f b'. deliver model_prims (Some sample_peer) [f, e] = ([Inr ''two'', Inr ''one''], Some b') \<and>
     deliver model_prims (Some b') [e] = ([reject CodeReplayDetected ''duplicate envelope sequence''], Some b')"
proof -
  have "sample_state\<lparr>St_sendSeq := 0\<rparr> = sample_state" by (simp add: sample_state_def)
  then obtain e where e: "Encrypt model_prims (Some sample_state) ''m1'' ''chat'' sample_route ''one'' = (Inr e, Some (sample_state\<lparr>St_sendSeq := 1\<rparr>))"
    using sample_encrypts[of 0 model_prims "''m1''" "''chat''" "''one''"] by (auto simp: int64_ok_def)
  obtain f where f: "Encrypt model_prims (Some (sample_state\<lparr>St_sendSeq := 1\<rparr>)) ''m2'' ''chat'' sample_route ''two'' = (Inr f, Some (sample_state\<lparr>St_sendSeq := 1 + 1\<rparr>))"
    using sample_encrypts[of 1 model_prims "''m2''" "''chat''" "''two''"] by (auto simp: int64_ok_def)
  have s: "sends model_prims sample_state [(e, ''one''), (f, ''two'')] (sample_state\<lparr>St_sendSeq := 1 + 1\<rparr>)"
    by (rule sends.more[OF e sends.more[OF f sends.none]])
  have b: "St_ready sample_peer" "length (St_SendKey sample_state) = 32" "St_seenSeq sample_peer = {}"
    by (simp_all add: sample_peer_def sample_state_def)
  from channel_delivers[OF model_aead sample_paired b s, of "[(f, ''two''), (e, ''one'')]" "[(e, ''one'')]"]
  show ?thesis by auto
qed

text \<open>
  The additional data authenticates every field of an envelope but the ciphertext: envelopes with the same
  additional data agree on type, domain, message and session ids, sender, recipient, sequence,
  nonce, payload type and route (strings being valid UTF-8, as JSON decoding makes them).
\<close>

theorem aad_binds:
  assumes "aad e = Inr x" "aad f = Inr x" "envelope_strings_valid e" "envelope_strings_valid f"
  shows "e\<lparr>Env_Ciphertext := c\<rparr> = f\<lparr>Env_Ciphertext := c\<rparr>"
  using assms by (rule aad_inject)

definition sample_envelope :: SecureEnvelope where
  "sample_envelope = \<lparr>Env_Type = TypeSecureEnvelope, Env_DomainID = ''dom'', Env_MessageID = ''m'', Env_SessionID = ''sid'',
     Env_SenderDeviceID = ''phone'', Env_RecipientDeviceID = ''watch'', Env_Sequence = 7, Env_Nonce = ''AAAA'',
     Env_PayloadType = ''chat'', Env_Route = sample_route, Env_Ciphertext = ''AA''\<rparr>"

theorem aad_binds_witness:
  "\<exists>x. aad sample_envelope = Inr x \<and> aad (sample_envelope\<lparr>Env_Ciphertext := []\<rparr>) = Inr x \<and>
     sample_envelope\<lparr>Env_Ciphertext := ''c''\<rparr> = sample_envelope\<lparr>Env_Ciphertext := [], Env_Ciphertext := ''c''\<rparr>"
proof -
  obtain x where x: "aad sample_envelope = Inr x"
    using aad_ok[of sample_envelope] by (auto simp: sample_envelope_def sample_route_def route_ok_def int64_ok_def)
  then have x': "aad (sample_envelope\<lparr>Env_Ciphertext := []\<rparr>) = Inr x" by simp
  have v: "envelope_strings_valid sample_envelope" "envelope_strings_valid (sample_envelope\<lparr>Env_Ciphertext := []\<rparr>)"
    by (simp_all add: envelope_strings_valid_def sample_envelope_def sample_route_def TypeSecureEnvelope_def)
  from x x' aad_binds[OF x x' v] show ?thesis by blast
qed

text \<open>
  C33. Sequence numbers and success. Sealing on a ready session succeeds exactly while the send counter is below
  \<open>2 ^ 63\<close> (the additional data is canonical JSON, whose integers are 64-bit signed); the counter advances in either case.
\<close>

theorem Encrypt_iff_sequence:
  assumes "St_ready s" "length (St_SendKey s) = 32" "route_ok route"
  shows "(\<exists>e. fst (Encrypt P (Some s) mid ty route p) = Inr e) \<longleftrightarrow> uint (St_sendSeq s) < 2 ^ 63"
    (is "?ok \<longleftrightarrow> ?lt")
proof -
  have "int64_ok (uint (St_sendSeq s)) \<longleftrightarrow> ?lt" by (auto simp: int64_ok_def intro: order_trans[of _ 0])
  moreover have "?ok \<Longrightarrow> int64_ok (uint (St_sendSeq s))"
    using Encrypt_Inr(3,4) sealed_sequence by (metis prod.collapse)
  ultimately show ?thesis using Encrypt_ok[OF assms(1,2) _ assms(3), of P mid ty p] by fastforce
qed

theorem Encrypt_iff_sequence_witness:
  "(\<exists>e. fst (Encrypt model_prims (Some sample_state) ''m'' ''chat'' sample_route ''hi'') = Inr e) \<and>
   \<not> (\<exists>e. fst (Encrypt model_prims (Some (sample_state\<lparr>St_sendSeq := 2 ^ 63\<rparr>)) ''m'' ''chat'' sample_route ''hi'') = Inr e)"
proof -
  have r: "route_ok sample_route" by (simp add: sample_route_def route_ok_def int64_ok_def)
  have "St_ready sample_state" "length (St_SendKey sample_state) = 32" "St_sendSeq sample_state = 0"
    by (simp_all add: sample_state_def)
  then show ?thesis
    using Encrypt_iff_sequence[of sample_state sample_route model_prims "''m''" "''chat''" "''hi''", OF _ _ r]
      Encrypt_iff_sequence[of "sample_state\<lparr>St_sendSeq := 2 ^ 63\<rparr>" sample_route model_prims "''m''" "''chat''" "''hi''", OF _ _ r]
    by simp
qed

text \<open>
  C34. The receiver records a sequence number before it authenticates the envelope: an envelope whose
  ciphertext was replaced by one that does not authenticate is rejected, and from then on the
  genuine envelope with that number is rejected as a replay.
\<close>

theorem forged_envelope_burns_sequence:
  assumes "aead_correct P" "paired a b" "St_ready b" "length (St_SendKey a) = 32" "sealed P a e p"
    and "Env_Sequence e \<notin> St_seenSeq b" "aad e = Inr ad"
    and "Provider_Open P (St_ReceiveKey b) (nonce_of (Env_Sequence e)) junk ad = Inl err"
  shows "fst (Decrypt P (Some b) e) = Inr p \<and>
     (\<exists>b'. Decrypt P (Some b) (e\<lparr>Env_Ciphertext := Base64URL junk\<rparr>) = (Inl err, Some b') \<and>
        Decrypt P (Some b') e = (reject CodeReplayDetected ''duplicate envelope sequence'', Some b'))"
proof -
  let ?b = "b\<lparr>St_seenSeq := insert (Env_Sequence e) (St_seenSeq b)\<rparr>"
  have "Decrypt P (Some b) (e\<lparr>Env_Ciphertext := Base64URL junk\<rparr>) = (Inl err, Some ?b)"
    using assms(2,3,5-8) by (simp add: Decrypt_def Ready_method_def sealed_def paired_def MarkReceived_def)
  moreover have "paired a ?b" "St_ready ?b" using assms(2,3) by (simp_all add: paired_def)
  ultimately show ?thesis
    using Decrypt_sealed[OF assms(1-5)] Decrypt_sealed[OF assms(1) _ _ assms(4,5), of ?b] assms(6) by simp
qed

theorem forged_envelope_burns_sequence_witness:
  "\<exists>e b'. Decrypt model_prims (Some sample_peer) (e\<lparr>Env_Ciphertext := Base64URL ''junk''\<rparr>) = (Inl (errors_Wrap CodeEnvelopeInvalid ''aead authentication failed'' (StdError ''message authentication failed'')), Some b') \<and>
     Decrypt model_prims (Some b') e = (reject CodeReplayDetected ''duplicate envelope sequence'', Some b')"
proof -
  have "sample_state\<lparr>St_sendSeq := 0\<rparr> = sample_state" by (simp add: sample_state_def)
  then obtain e where e: "Encrypt model_prims (Some sample_state) ''m1'' ''chat'' sample_route ''one'' = (Inr e, Some (sample_state\<lparr>St_sendSeq := 1\<rparr>))"
    using sample_encrypts[of 0 model_prims "''m1''" "''chat''" "''one''"] by (auto simp: int64_ok_def)
  note E = Encrypt_Inr[OF e]
  obtain ad where ad: "aad e = Inr ad" using E(4) by (auto simp: sealed_def)
  have b: "St_ready sample_peer" "length (St_SendKey sample_state) = 32" "Env_Sequence e \<notin> St_seenSeq sample_peer"
    by (simp_all add: sample_peer_def sample_state_def)
  have "Provider_Open model_prims (St_ReceiveKey sample_peer) (nonce_of (Env_Sequence e)) ''junk'' ad = Inl (errors_Wrap CodeEnvelopeInvalid ''aead authentication failed'' (StdError ''message authentication failed''))"
    by (simp add: Provider_Open_def sample_peer_def model_prims_def)
  from forged_envelope_burns_sequence[OF model_aead sample_paired b(1,2) E(4) b(3) ad this] show ?thesis by blast
qed

end
