(* ===== verification/Recovery.thy ===== *)
theory Recovery
  imports Crypto Model_Prims
begin

text \<open>
  \<^verbatim>\<open>pkg/iscp/recovery/recovery.go\<close>: sealing recovered relay credentials to a client's X25519 wrap key,
  and opening them. The reader supplies the server's ephemeral key; the 12 random bytes of the
  nonce are the argument \<open>draw\<close>.
\<close>

section \<open>Operations\<close>

definition TypeWrappedCredentials :: string where
  "TypeWrappedCredentials = ''iscp.relay.credential_recovery.wrapped.v2''"

definition TranscriptLabel :: string where
  "TranscriptLabel = ''iscp/v2/relay/credential-recovery''"

record WrappedCredentials =
  WC_Type :: string
  WC_Ciphersuite :: string
  WC_RecoveryPublicKey :: string
  WC_ServerPublicKey :: string
  WC_Nonce :: string
  WC_Ciphertext :: string

definition Challenge :: "string \<Rightarrow> string \<Rightarrow> string" where
  "Challenge idempotencyKey wrapPublicKey = idempotencyKey @ [NUL] @ wrapPublicKey"

definition Transcript :: "string \<Rightarrow> string \<Rightarrow> string \<Rightarrow> bytes" where
  "Transcript domainID deviceID thumbprint =
     TranscriptLabel @ [NUL] @ domainID @ [NUL] @ deviceID @ [NUL] @ thumbprint"

definition deriveKey :: "prims \<Rightarrow> bytes \<Rightarrow> bytes \<Rightarrow> bytes \<Rightarrow> bytes \<Rightarrow> bytes result" where
  "deriveKey P secret transcript clientPub serverPub =
     HKDF P secret [] (transcript @ clientPub @ serverPub) 32"

definition Seal ::
  "prims \<Rightarrow> reader \<Rightarrow> bytes \<Rightarrow> string \<Rightarrow> bytes \<Rightarrow> bytes \<Rightarrow> WrappedCredentials result \<times> reader" where
  "Seal P r draw wrapPublicKey transcript plaintext =
     (case DecodeBase64URL wrapPublicKey of
        Inl _ \<Rightarrow> (reject CodeKeyInvalid ''recovery wrap key is not valid base64url'', r)
      | Inr clientPubBytes \<Rightarrow>
     (case X25519PublicKeyFromBytes clientPubBytes of
        Inl err \<Rightarrow> (Inl err, r)
      | Inr clientPub \<Rightarrow>
     (case GenerateSessionKey P r of
        (Inl err, r') \<Rightarrow> (Inl err, r')
      | (Inr (serverPriv, serverPub), r') \<Rightarrow>
          (and_then (SharedSecret P serverPriv clientPub) (\<lambda>secret.
           and_then (deriveKey P secret transcript (xpub_key clientPub) (xpub_key serverPub)) (\<lambda>key.
           and_then (Provider_Seal P key draw plaintext transcript) (\<lambda>ciphertext.
             Inr \<lparr>WC_Type = TypeWrappedCredentials, WC_Ciphersuite = CiphersuiteV2,
                  WC_RecoveryPublicKey = wrapPublicKey, WC_ServerPublicKey = Base64URL (xpub_key serverPub),
                  WC_Nonce = Base64URL draw, WC_Ciphertext = Base64URL ciphertext\<rparr>))), r'))))"

definition Open ::
  "prims \<Rightarrow> WrappedCredentials \<Rightarrow> X25519PrivateKey \<Rightarrow> string \<Rightarrow> bytes \<Rightarrow> bytes result" where
  "Open P wrapped wrapPriv wrapPublicKey transcript =
     (if WC_Type wrapped \<noteq> TypeWrappedCredentials
        then reject CodeSchemaInvalid ''unexpected wrapped credential type''
      else if WC_Ciphersuite wrapped \<noteq> CiphersuiteV2
        then reject CodeSchemaInvalid ''unsupported wrapped credential ciphersuite''
      else if WC_RecoveryPublicKey wrapped \<noteq> wrapPublicKey
        then reject CodeKeyInvalid ''wrapped credential recovery key mismatch''
      else and_then (DecodeBase64URL (WC_ServerPublicKey wrapped)) (\<lambda>serverPubBytes.
        and_then (X25519PublicKeyFromBytes serverPubBytes) (\<lambda>serverPub.
        and_then (DecodeBase64URL wrapPublicKey) (\<lambda>clientPubBytes.
        and_then (SharedSecret P wrapPriv serverPub) (\<lambda>secret.
        and_then (deriveKey P secret transcript clientPubBytes serverPubBytes) (\<lambda>key.
        and_then (DecodeBase64URL (WC_Nonce wrapped)) (\<lambda>nonce.
        and_then (DecodeBase64URL (WC_Ciphertext wrapped)) (\<lambda>ciphertext.
          Provider_Open P key nonce ciphertext transcript))))))))"

section \<open>Lemmas\<close>

lemma X25519PublicKeyFromBytes_Inr: "X25519PublicKeyFromBytes b = Inr k \<Longrightarrow> k = X25519PublicKey b \<and> length b = 32"
  by (auto simp: X25519PublicKeyFromBytes_def split: if_splits)

lemma Seal_Inr:
  assumes "Seal P r draw wk tr p = (Inr w, r')"
  obtains cb serverPriv serverPub secret key ct where "DecodeBase64URL wk = Inr cb" "length cb = 32"
    "GenerateSessionKey P r = (Inr (serverPriv, serverPub), r')" "SharedSecret P serverPriv (X25519PublicKey cb) = Inr secret"
    "deriveKey P secret tr cb (xpub_key serverPub) = Inr key" "Provider_Seal P key draw p tr = Inr ct"
    "w = \<lparr>WC_Type = TypeWrappedCredentials, WC_Ciphersuite = CiphersuiteV2, WC_RecoveryPublicKey = wk,
       WC_ServerPublicKey = Base64URL (xpub_key serverPub), WC_Nonce = Base64URL draw, WC_Ciphertext = Base64URL ct\<rparr>"
  using assms
  by (auto simp: Seal_def and_then_Inr_iff split: sum.splits prod.splits intro: that dest!: X25519PublicKeyFromBytes_Inr)

lemma Seal_ok:
  assumes "hkdf_total P" "length draw = 12" "length cb = 32" "GenerateSessionKey P r = (Inr (sk, pk), r')"
    and "SharedSecret P sk (X25519PublicKey cb) = Inr secret"
  shows "\<exists>w. Seal P r draw (Base64URL cb) tr p = (Inr w, r')"
proof -
  obtain key where k: "deriveKey P secret tr cb (xpub_key pk) = Inr key" "length key = 32"
    unfolding deriveKey_def using HKDF_ok[OF assms(1), of 32] by fastforce
  obtain ct where "Provider_Seal P key draw p tr = Inr ct" using Provider_Seal_ok[OF k(2) assms(2)] by blast
  with k assms show ?thesis by (simp add: Seal_def from_bytes_ok(2))
qed

lemma Open_Seal:
  assumes "dh_agrees P" "aead_correct P" and "GenerateSessionKey P rc = (Inr (wrapPriv, wrapPub), rc')"
    and "Seal P rs draw (Base64URL (xpub_key wrapPub)) transcript plaintext = (Inr wrapped, rs')"
  shows "Open P wrapped wrapPriv (Base64URL (xpub_key wrapPub)) transcript = Inr plaintext"
proof -
  let ?wk = "Base64URL (xpub_key wrapPub)"
  obtain cb sk pk secret key ct where s: "DecodeBase64URL ?wk = Inr cb" "length cb = 32"
    "GenerateSessionKey P rs = (Inr (sk, pk), rs')" "SharedSecret P sk (X25519PublicKey cb) = Inr secret"
    "deriveKey P secret transcript cb (xpub_key pk) = Inr key" "Provider_Seal P key draw plaintext transcript = Inr ct"
    "wrapped = \<lparr>WC_Type = TypeWrappedCredentials, WC_Ciphersuite = CiphersuiteV2, WC_RecoveryPublicKey = ?wk,
       WC_ServerPublicKey = Base64URL (xpub_key pk), WC_Nonce = Base64URL draw, WC_Ciphertext = Base64URL ct\<rparr>"
    using assms(4) by (rule Seal_Inr)
  have cb: "cb = xpub_key wrapPub" using s(1) by simp
  have "SharedSecret P wrapPriv pk = Inr secret"
    using SharedSecret_agree[OF assms(1) s(3) assms(3)] s(4) by (simp add: cb)
  moreover have "length (xpub_key pk) = 32"
    using assms(1) GenerateSessionKey_pair[OF s(3)] unfolding dh_agrees_def by blast
  moreover have "Provider_Open P key draw ct transcript = Inr plaintext" by (rule Provider_Open_Seal[OF assms(2) s(6)])
  ultimately show ?thesis using s(1,5) by (simp add: Open_def s(7) from_bytes_ok(2))
qed

section \<open>Properties\<close>

text \<open>
  C37. Recovery round trip: credentials sealed to the public half of a client's wrap key are opened, with the
  private half and the same transcript, to exactly the sealed credentials.
\<close>

theorem recovery_roundtrip:
  assumes "dh_agrees P" "aead_correct P" and "GenerateSessionKey P rc = (Inr (wrapPriv, wrapPub), rc')"
    and "Seal P rs draw (Base64URL (xpub_key wrapPub)) transcript plaintext = (Inr wrapped, rs')"
  shows "Open P wrapped wrapPriv (Base64URL (xpub_key wrapPub)) transcript = Inr plaintext"
  using assms by (rule Open_Seal)

theorem recovery_roundtrip_witness:
  "\<exists>priv pub wrapped. GenerateSessionKey model_prims (replicate 32 (CHR ''c'')) = (Inr (priv, pub), []) \<and>
     Seal model_prims (replicate 32 (CHR ''s'')) ''123456789012'' (Base64URL (xpub_key pub)) (Transcript ''d'' ''e'' ''t'') ''secret'' = (Inr wrapped, []) \<and>
     Open model_prims wrapped priv (Base64URL (xpub_key pub)) (Transcript ''d'' ''e'' ''t'') = Inr ''secret''"
proof -
  obtain priv pub where c: "GenerateSessionKey model_prims (replicate 32 (CHR ''c'')) = (Inr (priv, pub), [])" "length (xpub_key pub) = 32"
    using model_session_key[of _ "[]"] by force
  obtain sk pk where s: "GenerateSessionKey model_prims (replicate 32 (CHR ''s'')) = (Inr (sk, pk), [])" "length (xpriv_key sk) = 32"
    using model_session_key[of _ "[]"] by force
  have "\<exists>secret. SharedSecret model_prims sk (X25519PublicKey (xpub_key pub)) = Inr secret"
    using s(2) c(2) by (rule model_shared)
  then obtain wrapped where w: "Seal model_prims (replicate 32 (CHR ''s'')) ''123456789012'' (Base64URL (xpub_key pub)) (Transcript ''d'' ''e'' ''t'') ''secret'' = (Inr wrapped, [])"
    using Seal_ok[OF model_hkdf _ c(2) s(1), of "''123456789012''"] by fastforce
  from c(1) w recovery_roundtrip[OF model_dh model_aead c(1) w] show ?thesis by blast
qed

text \<open>
  The transcript and the possession challenge are unambiguous: identifiers without NUL bytes are determined by
  the transcript, and an idempotency key without NUL bytes and the wrap key by the challenge.
\<close>

theorem recovery_bindings_unambiguous:
  assumes "\<forall>s\<in>{d, e, d', e', k, k'}. NUL \<notin> set s"
  shows "(Transcript d e t = Transcript d' e' t' \<longleftrightarrow> d = d' \<and> e = e' \<and> t = t') \<and>
     (Challenge k w = Challenge k' w' \<longleftrightarrow> k = k' \<and> w = w')"
proof -
  have "d @ NUL # e @ NUL # t = d' @ NUL # e' @ NUL # t' \<longleftrightarrow> d = d' \<and> e = e' \<and> t = t'"
    using assms append_sep_inject[of d NUL "e @ NUL # t" d' "e' @ NUL # t'"] append_sep_inject[of e NUL t e' t'] by auto
  moreover have "k @ NUL # w = k' @ NUL # w' \<longleftrightarrow> k = k' \<and> w = w'"
    using assms append_sep_inject[of k NUL w k' w'] by auto
  ultimately show ?thesis by (simp add: Transcript_def Challenge_def)
qed

theorem recovery_bindings_unambiguous_witness:
  "Transcript ''a'' ''bc'' ''t'' \<noteq> Transcript ''ab'' ''c'' ''t'' \<and> Challenge ''k'' ''w'' \<noteq> Challenge ''kw'' []"
  using recovery_bindings_unambiguous[of "''a''" "''bc''" "''ab''" "''c''" "''k''" "''kw''" "''t''" "''t''" "''w''" "[]"] by simp

end
