(* ===== verification/Provisioning.thy ===== *)
theory Provisioning
  imports Trust_Grant Json_Unmarshal
begin

text \<open>
  \<^verbatim>\<open>pkg/iscp/provisioning/provisioning.go\<close>: pairing tickets (versions 2 and 3), the grant bindings a
  version 3 ticket gives its consumer, the store that counts ticket uses, the local secure channel
  and provisioning bundles. A \<^verbatim>\<open>json.RawMessage\<close> is optional bytes (nil marshals to \<^verbatim>\<open>null\<close>);
  marshalling it checks and compacts it, which is reading it as a document.
\<close>

section \<open>Tickets and bundles\<close>

definition TypePairingTicket :: string where "TypePairingTicket = ''iscp.pairing_ticket.v2''"
definition TypePairingTicketV3 :: string where "TypePairingTicketV3 = ''iscp.pairing_ticket.v3''"
definition TypeBundle :: string where "TypeBundle = ''iscp.provisioning.bundle.v2''"
definition PurposeInvite :: string where "PurposeInvite = ''invite''"

record PairingTicket =
  PT_Type :: string
  PT_TicketID :: string
  PT_DomainID :: string
  PT_RelayID :: string
  PT_TrustRootID :: string
  PT_MaxUses :: int
  PT_IssuedAt :: time
  PT_ExpiresAt :: time
  PT_Signature :: Signature

record PairingTicketV3 =
  T3_Type :: string
  T3_TicketID :: string
  T3_DomainID :: string
  T3_RelayID :: string
  T3_TrustRootID :: string
  T3_Purpose :: string
  T3_ConsumerRole :: string
  T3_GrantAudience :: string
  T3_GrantPermissions :: "string slice"
  T3_GrantTTLSeconds :: int
  T3_MaxUses :: int
  T3_IssuedAt :: time
  T3_ExpiresAt :: time
  T3_Signature :: Signature

record GrantRoleBindings =
  GB_SubjectDeviceID :: string
  GB_ConfirmationThumbprint :: string
  GB_Audience :: string
  GB_Permissions :: "string slice"
  GB_RelayID :: string

definition ticket_fields :: "PairingTicket \<Rightarrow> (string \<times> jdoc result) list" where
  "ticket_fields t =
     [(''type'', Inr (DStr (PT_Type t))), (''ticket_id'', Inr (DStr (PT_TicketID t))),
      (''domain_id'', Inr (DStr (PT_DomainID t))), (''relay_id'', Inr (DStr (PT_RelayID t))),
      (''trust_root_id'', Inr (DStr (PT_TrustRootID t))), (''max_uses'', Inr (DInt (PT_MaxUses t))),
      (''issued_at'', time_doc (PT_IssuedAt t)), (''expires_at'', time_doc (PT_ExpiresAt t)),
      (''signature'', Inr (signature_doc (PT_Signature t)))]"

definition ticket3_fields :: "PairingTicketV3 \<Rightarrow> (string \<times> jdoc result) list" where
  "ticket3_fields t =
     [(''type'', Inr (DStr (T3_Type t))), (''ticket_id'', Inr (DStr (T3_TicketID t))),
      (''domain_id'', Inr (DStr (T3_DomainID t))), (''relay_id'', Inr (DStr (T3_RelayID t))),
      (''trust_root_id'', Inr (DStr (T3_TrustRootID t))), (''purpose'', Inr (DStr (T3_Purpose t))),
      (''consumer_role'', Inr (DStr (T3_ConsumerRole t))), (''grant_audience'', Inr (DStr (T3_GrantAudience t))),
      (''grant_permissions'', Inr (slice_doc (T3_GrantPermissions t)))] @
     omit_if (T3_GrantTTLSeconds t = 0) (''grant_ttl_seconds'', Inr (DInt (T3_GrantTTLSeconds t))) @
     [(''max_uses'', Inr (DInt (T3_MaxUses t))), (''issued_at'', time_doc (T3_IssuedAt t)),
      (''expires_at'', time_doc (T3_ExpiresAt t)), (''signature'', Inr (signature_doc (T3_Signature t)))]"

definition ticket_input :: "PairingTicket \<Rightarrow> bytes result" where
  "ticket_input t = signature_input TypePairingTicket (json_object (ticket_fields t))"

definition ticket3_input :: "PairingTicketV3 \<Rightarrow> bytes result" where
  "ticket3_input t = signature_input TypePairingTicketV3 (json_object (ticket3_fields t))"

definition SignTicketV3 :: "prims \<Rightarrow> Device \<Rightarrow> PairingTicketV3 \<Rightarrow> PairingTicketV3 result" where
  "SignTicketV3 P issuer ticket =
     (let t = ticket\<lparr>T3_Type := TypePairingTicketV3, T3_Signature := no_signature\<rparr> in
      and_then (ticket3_input t) (\<lambda>input. Inr (t\<lparr>T3_Signature := make_signature P issuer input\<rparr>)))"

definition VerifyTicketV3 :: "prims \<Rightarrow> PairingTicketV3 \<Rightarrow> DeviceIdentity \<Rightarrow> time \<Rightarrow> unit result" where
  "VerifyTicketV3 P ticket issuer now =
     (if T3_Type ticket \<noteq> TypePairingTicketV3 then reject CodeProvisionInvalid ''invalid ticket type''
      else if T3_Purpose ticket \<noteq> PurposeInvite then reject CodeProvisionInvalid ''unsupported ticket purpose''
      else if T3_ConsumerRole ticket = [] then reject CodeProvisionInvalid ''ticket consumer role is required''
      else if T3_GrantAudience ticket = [] then reject CodeProvisionInvalid ''ticket grant audience is required''
      else if length (elems (T3_GrantPermissions ticket)) = 0
        then reject CodeProvisionInvalid ''ticket grant permissions are required''
      else if T3_GrantTTLSeconds ticket < 0 then reject CodeProvisionInvalid ''ticket grant ttl must not be negative''
      else if Before now (T3_IssuedAt ticket) \<or> \<not> Before now (T3_ExpiresAt ticket)
        then reject CodeProvisionInvalid ''pairing ticket expired''
      else check_signature P issuer (T3_Signature ticket) (ticket3_input (ticket\<lparr>T3_Signature := no_signature\<rparr>))
             (errors_New CodeProvisionInvalid ''pairing ticket signature failed''))"

definition BindGrantRoles :: "prims \<Rightarrow> PairingTicketV3 \<Rightarrow> DeviceIdentity \<Rightarrow> GrantRoleBindings result" where
  "BindGrantRoles P ticket consumer =
     (if ID_DomainID consumer \<noteq> T3_DomainID ticket
        then reject CodeProvisionInvalid ''ticket domain does not match consumer domain''
      else if ID_DeviceID consumer = T3_GrantAudience ticket
        then reject CodeProvisionInvalid ''ticket grant audience must not be the consuming device''
      else and_then (identity_Thumbprint P consumer) (\<lambda>tp.
        Inr \<lparr>GB_SubjectDeviceID = ID_DeviceID consumer, GB_ConfirmationThumbprint = tp,
             GB_Audience = T3_GrantAudience ticket, GB_Permissions = T3_GrantPermissions ticket,
             GB_RelayID = T3_RelayID ticket\<rparr>))"

definition SignTicket :: "prims \<Rightarrow> Device \<Rightarrow> PairingTicket \<Rightarrow> PairingTicket result" where
  "SignTicket P issuer ticket =
     (let t = ticket\<lparr>PT_Type := TypePairingTicket, PT_Signature := no_signature\<rparr> in
      and_then (ticket_input t) (\<lambda>input. Inr (t\<lparr>PT_Signature := make_signature P issuer input\<rparr>)))"

definition VerifyTicket :: "prims \<Rightarrow> PairingTicket \<Rightarrow> DeviceIdentity \<Rightarrow> time \<Rightarrow> unit result" where
  "VerifyTicket P ticket issuer now =
     (if PT_Type ticket \<noteq> TypePairingTicket then reject CodeProvisionInvalid ''invalid ticket type''
      else if Before now (PT_IssuedAt ticket) \<or> \<not> Before now (PT_ExpiresAt ticket)
        then reject CodeProvisionInvalid ''pairing ticket expired''
      else check_signature P issuer (PT_Signature ticket) (ticket_input (ticket\<lparr>PT_Signature := no_signature\<rparr>))
             (errors_New CodeProvisionInvalid ''pairing ticket signature failed''))"

section \<open>The ticket store\<close>

record TicketStore =
  TS_uses :: "string \<Rightarrow> int option"
  TS_limit :: "string \<Rightarrow> int option"

definition NewTicketStore :: TicketStore where
  "NewTicketStore = \<lparr>TS_uses = Map.empty, TS_limit = Map.empty\<rparr>"

text \<open>Reading a Go map: the zero value for an absent key.\<close>

definition map_int :: "(string \<Rightarrow> int option) \<Rightarrow> string \<Rightarrow> int" where
  "map_int m k = (case m k of None \<Rightarrow> 0 | Some v \<Rightarrow> v)"

definition consume :: "TicketStore \<Rightarrow> string \<Rightarrow> int \<Rightarrow> unit result \<times> TicketStore" where
  "consume s ticketID maxUses =
     (if maxUses \<le> 0 then (reject CodeProvisionInvalid ''ticket max uses must be positive'', s)
      else let s1 = (if TS_limit s ticketID = None then s\<lparr>TS_limit := (TS_limit s)(ticketID \<mapsto> maxUses)\<rparr> else s) in
           if map_int (TS_limit s1) ticketID \<le> map_int (TS_uses s1) ticketID
             then (reject CodeProvisionInvalid ''pairing ticket already consumed'', s1)
           else (Inr (), s1\<lparr>TS_uses := (TS_uses s1)(ticketID \<mapsto> map_int (TS_uses s1) ticketID + 1)\<rparr>))"

definition Consume :: "TicketStore \<Rightarrow> PairingTicket \<Rightarrow> unit result \<times> TicketStore" where
  "Consume s ticket = consume s (PT_TicketID ticket) (PT_MaxUses ticket)"

definition ConsumeV3 :: "TicketStore \<Rightarrow> PairingTicketV3 \<Rightarrow> unit result \<times> TicketStore" where
  "ConsumeV3 s ticket = consume s (T3_TicketID ticket) (T3_MaxUses ticket)"

section \<open>The local channel\<close>

record LocalChannel =
  LC_Key :: bytes
  LC_TranscriptMAC :: bytes
  LC_Ready :: bool

definition EstablishLocalChannel :: "prims \<Rightarrow> reader \<Rightarrow> bytes \<Rightarrow> LocalChannel result \<times> reader" where
  "EstablishLocalChannel P r oobSecret =
     (case GenerateSessionKey P r of
        (Inl err, r1) \<Rightarrow> (Inl err, r1)
      | (Inr (aPriv, aPub), r1) \<Rightarrow>
     (case GenerateSessionKey P r1 of
        (Inl err, r2) \<Rightarrow> (Inl err, r2)
      | (Inr (bPriv, bPub), r2) \<Rightarrow>
          (and_then (SharedSecret P aPriv bPub) (\<lambda>secretA.
           and_then (SharedSecret P bPriv aPub) (\<lambda>secretB.
           if secretA \<noteq> secretB then reject CodeProvisionInvalid ''local secure channel key mismatch''
           else let transcript = ''iscp/v2/provisioning/local-channel'' @ xpub_key aPub @ xpub_key bPub in
             and_then (HKDF P secretA oobSecret transcript 32) (\<lambda>key.
               Inr \<lparr>LC_Key = key, LC_TranscriptMAC = hmac_sha256 P key transcript, LC_Ready = True\<rparr>))), r2)))"

section \<open>Bundles\<close>

record Bundle =
  Bu_Type :: string
  Bu_BundleID :: string
  Bu_IssuedToDeviceID :: string
  Bu_IssuedToPublicKeyThumbprint :: string
  Bu_RelayDescriptor :: raw
  Bu_TrustRootDescriptor :: raw
  Bu_AccessCredential :: raw
  Bu_RefreshCredentialWrapped :: string
  Bu_TrustGrant :: raw
  Bu_IssuedAt :: time
  Bu_ExpiresAt :: time
  Bu_Signature :: Signature

definition bundle_fields :: "Bundle \<Rightarrow> (string \<times> jdoc result) list" where
  "bundle_fields b =
     [(''type'', Inr (DStr (Bu_Type b))), (''bundle_id'', Inr (DStr (Bu_BundleID b))),
      (''issued_to_device_id'', Inr (DStr (Bu_IssuedToDeviceID b))),
      (''issued_to_public_key_thumbprint'', Inr (DStr (Bu_IssuedToPublicKeyThumbprint b))),
      (''relay_descriptor'', raw_doc (Bu_RelayDescriptor b)),
      (''trust_root_descriptor'', raw_doc (Bu_TrustRootDescriptor b)),
      (''access_credential'', raw_doc (Bu_AccessCredential b)),
      (''refresh_credential_wrapped'', Inr (DStr (Bu_RefreshCredentialWrapped b))),
      (''trust_grant'', raw_doc (Bu_TrustGrant b)),
      (''issued_at'', time_doc (Bu_IssuedAt b)), (''expires_at'', time_doc (Bu_ExpiresAt b)),
      (''signature'', Inr (signature_doc (Bu_Signature b)))]"

definition bundle_input :: "Bundle \<Rightarrow> bytes result" where
  "bundle_input b = signature_input TypeBundle (json_object (bundle_fields b))"

definition SignBundle :: "prims \<Rightarrow> Device \<Rightarrow> Bundle \<Rightarrow> Bundle result" where
  "SignBundle P issuer bundle =
     (let b = bundle\<lparr>Bu_Type := TypeBundle, Bu_Signature := no_signature\<rparr> in
      and_then (bundle_input b) (\<lambda>input. Inr (b\<lparr>Bu_Signature := make_signature P issuer input\<rparr>)))"

definition ApplyBundle ::
  "prims \<Rightarrow> LocalChannel \<Rightarrow> DeviceIdentity \<Rightarrow> Bundle \<Rightarrow> DeviceIdentity \<Rightarrow> time \<Rightarrow> unit result" where
  "ApplyBundle P channel loc bundle issuer now =
     (if \<not> LC_Ready channel then reject CodeProvisionInvalid ''local secure channel is not ready''
      else if Before now (Bu_IssuedAt bundle) \<or> \<not> Before now (Bu_ExpiresAt bundle)
        then reject CodeProvisionInvalid ''provisioning bundle expired''
      else if Bu_IssuedToDeviceID bundle \<noteq> ID_DeviceID loc
        then reject CodeProvisionInvalid ''bundle device id mismatch''
      else and_then (identity_Thumbprint P loc) (\<lambda>tp.
        if Bu_IssuedToPublicKeyThumbprint bundle \<noteq> tp
          then reject CodeProvisionInvalid ''bundle public key thumbprint mismatch''
        else check_signature P issuer (Bu_Signature bundle) (bundle_input (bundle\<lparr>Bu_Signature := no_signature\<rparr>))
               (errors_New CodeProvisionInvalid ''bundle signature failed'')))"

interpretation ticket_sig: signed_object PT_Signature "\<lambda>s t. t\<lparr>PT_Signature := s\<rparr>" ticket_input
  by unfold_locales simp_all

interpretation ticket3_sig: signed_object T3_Signature "\<lambda>s t. t\<lparr>T3_Signature := s\<rparr>" ticket3_input
  by unfold_locales simp_all

interpretation bundle_sig: signed_object Bu_Signature "\<lambda>s b. b\<lparr>Bu_Signature := s\<rparr>" bundle_input
  by unfold_locales simp_all

section \<open>The contract of a ticket counter\<close>

text \<open>
  A ticket is good for as many uses as its first accepted use announced. \<open>remaining\<close> is the
  abstract state: nothing for a ticket not seen yet, else the uses left.
\<close>

fun use_all :: "('s \<Rightarrow> string \<Rightarrow> int \<Rightarrow> unit result \<times> 's) \<Rightarrow> 's \<Rightarrow> (string \<times> int) list \<Rightarrow> bool list \<times> 's" where
  "use_all use s [] = ([], s)"
| "use_all use s ((t, m) # calls) =
     (let (r, s') = use s t m; (rs, s'') = use_all use s' calls in (is_ok r # rs, s''))"

lemma use_all_Cons [simp]:
  "use_all use s ((t, m) # calls) = (is_ok (fst (use s t m)) # fst (use_all use (snd (use s t m)) calls),
     snd (use_all use (snd (use s t m)) calls))"
  by (simp add: case_prod_beta Let_def)

declare use_all.simps(2) [simp del]

definition accepted :: "string \<Rightarrow> (string \<times> int) list \<Rightarrow> bool list \<Rightarrow> nat" where
  "accepted t calls rs = length (filter (\<lambda>((t', m), ok). t' = t \<and> ok) (zip calls rs))"

lemma accepted_simps [simp]:
  "accepted t [] rs = 0"
  "accepted t ((t', m) # calls) (ok # rs) = (if t' = t \<and> ok then Suc (accepted t calls rs) else accepted t calls rs)"
  by (simp_all add: accepted_def)

definition calls_for :: "string \<Rightarrow> (string \<times> int) list \<Rightarrow> (string \<times> int) list" where
  "calls_for t calls = filter (\<lambda>(t', m). t' = t \<and> 0 < m) calls"

lemma calls_for_simps [simp]:
  "calls_for t [] = []"
  "calls_for t ((t', m) # calls) = (if t' = t \<and> 0 < m then (t', m) # calls_for t calls else calls_for t calls)"
  by (simp_all add: calls_for_def)

locale ticket_counter =
  fixes use :: "'s \<Rightarrow> string \<Rightarrow> int \<Rightarrow> unit result \<times> 's"
    and remaining :: "'s \<Rightarrow> string \<Rightarrow> nat option" and inv :: "'s \<Rightarrow> bool"
  assumes inv_use: "inv s \<Longrightarrow> inv (snd (use s t m))"
    and use_first: "inv s \<Longrightarrow> remaining s t = None \<Longrightarrow> 0 < m \<Longrightarrow>
      is_ok (fst (use s t m)) \<and> remaining (snd (use s t m)) = (remaining s)(t \<mapsto> nat m - 1)"
    and use_next: "inv s \<Longrightarrow> remaining s t = Some (Suc n) \<Longrightarrow> 0 < m \<Longrightarrow>
      is_ok (fst (use s t m)) \<and> remaining (snd (use s t m)) = (remaining s)(t \<mapsto> n)"
    and use_spent: "inv s \<Longrightarrow> remaining s t = Some 0 \<Longrightarrow>
      \<not> is_ok (fst (use s t m)) \<and> remaining (snd (use s t m)) = remaining s"
    and use_without_limit: "inv s \<Longrightarrow> remaining s t = None \<Longrightarrow> m \<le> 0 \<Longrightarrow>
      \<not> is_ok (fst (use s t m)) \<and> remaining (snd (use s t m)) = remaining s"
begin

text \<open>Calls for other tickets do not matter, and every accepted call takes one use.\<close>

lemma other_ticket:
  assumes "inv s" "t' \<noteq> t" "0 < m"
  shows "remaining (snd (use s t' m)) t = remaining s t"
proof (cases "remaining s t'")
  case None
  then show ?thesis using use_first[OF assms(1) None assms(3)] assms(2) by simp
next
  case (Some k)
  then show ?thesis
    using use_spent[OF assms(1)] use_next[OF assms(1) _ assms(3)] assms(2) by (cases k) fastforce+
qed

lemma accepted_left:
  assumes "inv s" "\<forall>(t', m)\<in>set calls. 0 < m" "remaining s t = Some k"
  shows "accepted t calls (fst (use_all use s calls)) = min k (length (calls_for t calls))"
  using assms
proof (induction calls arbitrary: s k)
  case (Cons c calls)
  obtain t' m where c: "c = (t', m)" by force
  let ?s = "snd (use s t' m)"
  have m: "0 < m" and inv: "inv ?s" using Cons.prems inv_use by (auto simp: c)
  show ?case
  proof (cases "t' = t")
    case False
    then show ?thesis
      using Cons.IH[OF inv] Cons.prems other_ticket[OF Cons.prems(1) False m] by (simp add: c)
  next
    case True
    show ?thesis
    proof (cases k)
      case 0
      then show ?thesis using use_spent[OF Cons.prems(1), of t m] Cons.IH[OF inv] Cons.prems True by (simp add: c m)
    next
      case (Suc n)
      then show ?thesis using use_next[OF Cons.prems(1) _ m, of t n] Cons.IH[OF inv, of n] Cons.prems True by (simp add: c m)
    qed
  qed
qed simp

lemma accepted_fresh:
  assumes "inv s" "\<forall>(t', m)\<in>set calls. 0 < m" "remaining s t = None"
  shows "accepted t calls (fst (use_all use s calls)) =
    (case calls_for t calls of [] \<Rightarrow> 0 | (t', m) # _ \<Rightarrow> min (nat m) (length (calls_for t calls)))"
  using assms
proof (induction calls arbitrary: s)
  case (Cons c calls)
  obtain t' m where c: "c = (t', m)" by force
  let ?s = "snd (use s t' m)"
  have m: "0 < m" and inv: "inv ?s" using Cons.prems inv_use by (auto simp: c)
  show ?case
  proof (cases "t' = t")
    case False
    then have cf: "calls_for t (c # calls) = calls_for t calls" by (simp add: c)
    show ?thesis
      unfolding cf using False Cons.IH[OF inv] Cons.prems other_ticket[OF Cons.prems(1) False m] by (simp add: c)
  next
    case True
    have f: "is_ok (fst (use s t m))" "remaining (snd (use s t m)) t = Some (nat m - 1)"
      using use_first[OF Cons.prems(1,3) m] by simp_all
    have "accepted t calls (fst (use_all use ?s calls)) = min (nat m - 1) (length (calls_for t calls))"
      using accepted_left[OF inv] Cons.prems(2) f(2) True by simp
    then show ?thesis using f(1) True m by (simp add: c)
  qed
qed simp

end

text \<open>
  A stricter counter refuses a use that announces no positive limit and is left as it was. On it the calls without
  a positive limit may be taken out of any sequence, so the count needs no condition on the calls.
\<close>

locale strict_counter = ticket_counter +
  assumes refuses: "m \<le> 0 \<Longrightarrow> \<not> is_ok (fst (use s t m)) \<and> snd (use s t m) = s"
begin

lemma without_limit_dropped:
  "accepted t calls (fst (use_all use s calls)) =
     accepted t (filter (\<lambda>(t', m). 0 < m) calls) (fst (use_all use s (filter (\<lambda>(t', m). 0 < m) calls)))"
  by (induction calls arbitrary: s) (auto simp: refuses not_less)

lemma accepted_all:
  assumes "inv s" "remaining s t = None"
  shows "accepted t calls (fst (use_all use s calls)) =
    (case calls_for t calls of [] \<Rightarrow> 0 | (t', m) # _ \<Rightarrow> min (nat m) (length (calls_for t calls)))"
proof -
  let ?pos = "filter (\<lambda>(t', m). 0 < m) calls"
  have cf: "calls_for t ?pos = calls_for t calls" by (auto simp: calls_for_def intro!: filter_cong)
  have pos: "\<forall>(t', m)\<in>set ?pos. 0 < m" by auto
  show ?thesis
    unfolding without_limit_dropped[of t calls s] by (rule accepted_fresh[OF assms(1) pos assms(2), unfolded cf])
qed

end

section \<open>The store meets the contract\<close>

definition store_remaining :: "TicketStore \<Rightarrow> string \<Rightarrow> nat option" where
  "store_remaining s t = map_option (\<lambda>l. nat (l - map_int (TS_uses s) t)) (TS_limit s t)"

definition store_ok :: "TicketStore \<Rightarrow> bool" where
  "store_ok s \<longleftrightarrow> (\<forall>t. 0 \<le> map_int (TS_uses s) t) \<and> (\<forall>t. TS_limit s t = None \<longrightarrow> map_int (TS_uses s) t = 0) \<and>
     (\<forall>t l. TS_limit s t = Some l \<longrightarrow> map_int (TS_uses s) t \<le> l)"

lemma map_int_upd [simp]: "map_int (m(k \<mapsto> v)) k' = (if k' = k then v else map_int m k')"
  by (simp add: map_int_def)

lemma store_okD:
  assumes "store_ok s"
  shows "0 \<le> map_int (TS_uses s) t" "TS_limit s t = None \<Longrightarrow> map_int (TS_uses s) t = 0"
    "TS_limit s t = Some l \<Longrightarrow> map_int (TS_uses s) t \<le> l"
  using assms by (auto simp: store_ok_def)

lemma map_int_Some: "m k = Some v \<Longrightarrow> map_int m k = v"
  by (simp add: map_int_def)

lemma consume_ok: "store_ok s \<Longrightarrow> store_ok (snd (consume s t m))"
  by (cases "TS_limit s t") (auto simp: store_ok_def consume_def Let_def map_int_Some)

interpretation ticket_store: ticket_counter consume store_remaining store_ok
proof
  fix s t m n
  assume inv: "store_ok s"
  note u = store_okD[OF inv]
  show "store_ok (snd (consume s t m))" using inv by (rule consume_ok)
  show "is_ok (fst (consume s t m)) \<and> store_remaining (snd (consume s t m)) = (store_remaining s)(t \<mapsto> nat m - 1)"
    if "store_remaining s t = None" "0 < m"
    using that u(2)[of t] by (auto simp: store_remaining_def consume_def Let_def fun_eq_iff map_int_Some)
  show "is_ok (fst (consume s t m)) \<and> store_remaining (snd (consume s t m)) = (store_remaining s)(t \<mapsto> n)"
    if "store_remaining s t = Some (Suc n)" "0 < m"
    using that u(1)[of t] by (auto simp: store_remaining_def consume_def Let_def fun_eq_iff map_int_Some)
  show "\<not> is_ok (fst (consume s t m)) \<and> store_remaining (snd (consume s t m)) = store_remaining s"
    if "store_remaining s t = Some 0"
    using that u(1)[of t] by (auto simp: store_remaining_def consume_def Let_def map_int_Some)
  show "\<not> is_ok (fst (consume s t m)) \<and> store_remaining (snd (consume s t m)) = store_remaining s"
    if "store_remaining s t = None" "m \<le> 0"
    using that by (simp add: consume_def)
qed

interpretation strict_store: strict_counter consume store_remaining store_ok
  by unfold_locales (simp add: consume_def)

lemma new_store: "store_ok NewTicketStore" "store_remaining NewTicketStore t = None"
  by (simp_all add: store_ok_def store_remaining_def NewTicketStore_def map_int_def)

section \<open>Acceptance of signed tickets and bundles\<close>

definition ticket3_admits :: "PairingTicketV3 \<Rightarrow> time \<Rightarrow> bool" where
  "ticket3_admits t now \<longleftrightarrow> T3_Purpose t = PurposeInvite \<and> T3_ConsumerRole t \<noteq> [] \<and> T3_GrantAudience t \<noteq> [] \<and>
     elems (T3_GrantPermissions t) \<noteq> [] \<and> 0 \<le> T3_GrantTTLSeconds t \<and> T3_IssuedAt t \<le> now \<and> now < T3_ExpiresAt t"

lemma SignTicketV3_verify:
  assumes "sig_correct P" "device_ok P issuer" and "SignTicketV3 P issuer t0 = Inr t"
  shows "VerifyTicketV3 P t (Dev_Identity issuer) now = Inr () \<longleftrightarrow> ticket3_admits t0 now"
proof -
  let ?t = "t0\<lparr>T3_Type := TypePairingTicketV3, T3_Signature := no_signature\<rparr>"
  obtain m where m: "ticket3_input (?t\<lparr>T3_Signature := no_signature\<rparr>) = Inr m"
    "t = ?t\<lparr>T3_Signature := make_signature P issuer m\<rparr>"
    using assms(3) by (auto simp: SignTicketV3_def Let_def and_then_Inr_iff)
  note sig = ticket3_sig.signed_checks[OF assms(1,2) m]
  show ?thesis using sig unfolding VerifyTicketV3_def by (auto simp: m(2) ticket3_admits_def Before_def)
qed

lemma SignTicket_verify:
  assumes "sig_correct P" "device_ok P issuer" and "SignTicket P issuer t0 = Inr t"
  shows "VerifyTicket P t (Dev_Identity issuer) now = Inr () \<longleftrightarrow> PT_IssuedAt t0 \<le> now \<and> now < PT_ExpiresAt t0"
proof -
  let ?t = "t0\<lparr>PT_Type := TypePairingTicket, PT_Signature := no_signature\<rparr>"
  obtain m where m: "ticket_input (?t\<lparr>PT_Signature := no_signature\<rparr>) = Inr m"
    "t = ?t\<lparr>PT_Signature := make_signature P issuer m\<rparr>"
    using assms(3) by (auto simp: SignTicket_def Let_def and_then_Inr_iff)
  note sig = ticket_sig.signed_checks[OF assms(1,2) m]
  show ?thesis using sig unfolding VerifyTicket_def by (auto simp: m(2) Before_def)
qed

lemma SignBundle_apply:
  assumes "sig_correct P" "device_ok P issuer" and "SignBundle P issuer b0 = Inr b"
  shows "ApplyBundle P ch loc b (Dev_Identity issuer) now = Inr () \<longleftrightarrow> LC_Ready ch \<and>
     Bu_IssuedAt b0 \<le> now \<and> now < Bu_ExpiresAt b0 \<and> Bu_IssuedToDeviceID b0 = ID_DeviceID loc \<and>
     identity_Thumbprint P loc = Inr (Bu_IssuedToPublicKeyThumbprint b0)"
proof -
  let ?b = "b0\<lparr>Bu_Type := TypeBundle, Bu_Signature := no_signature\<rparr>"
  obtain m where m: "bundle_input (?b\<lparr>Bu_Signature := no_signature\<rparr>) = Inr m"
    "b = ?b\<lparr>Bu_Signature := make_signature P issuer m\<rparr>"
    using assms(3) by (auto simp: SignBundle_def Let_def and_then_Inr_iff)
  note sig = bundle_sig.signed_checks[OF assms(1,2) m]
  show ?thesis using sig unfolding ApplyBundle_def by (auto simp: m(2) Before_def and_then_Inr_iff)
qed

lemma fields_ok_ticket3: "fields_ok (ticket3_fields t)"
  by (auto simp: fields_ok_def ticket3_fields_def omit_if_def time_doc_Inr)

lemma fields_fine_ticket3:
  assumes "year_ok (T3_IssuedAt t)" "year_ok (T3_ExpiresAt t)" "int64_ok (T3_GrantTTLSeconds t)" "int64_ok (T3_MaxUses t)"
  shows "fields_fine (ticket3_fields t)"
  using assms by (auto simp: fields_fine_def ticket3_fields_def omit_if_def time_doc_ok doc_value_slice doc_value_DInt)

lemma SignTicketV3_ok:
  assumes "year_ok (T3_IssuedAt t)" "year_ok (T3_ExpiresAt t)" "int64_ok (T3_GrantTTLSeconds t)" "int64_ok (T3_MaxUses t)"
  shows "\<exists>t'. SignTicketV3 P issuer t = Inr t'"
  unfolding SignTicketV3_def Let_def ticket3_input_def
  by (intro and_then_ok signature_input_ok fields_fine_ticket3) (simp_all add: assms)

lemma fields_ok_ticket: "fields_ok (ticket_fields t)"
  by (auto simp: fields_ok_def ticket_fields_def time_doc_Inr)

lemma SignTicket_ok:
  assumes "year_ok (PT_IssuedAt t)" "year_ok (PT_ExpiresAt t)" "int64_ok (PT_MaxUses t)"
  shows "\<exists>t'. SignTicket P issuer t = Inr t'"
  unfolding SignTicket_def Let_def ticket_input_def
  by (intro and_then_ok signature_input_ok)
     (use assms in \<open>auto simp: fields_fine_def ticket_fields_def time_doc_ok doc_value_DInt\<close>)

lemma SignBundle_ok:
  assumes "year_ok (Bu_IssuedAt b)" "year_ok (Bu_ExpiresAt b)"
    and "Bu_RelayDescriptor b = None" "Bu_TrustRootDescriptor b = None" "Bu_AccessCredential b = None" "Bu_TrustGrant b = None"
  shows "\<exists>b'. SignBundle P issuer b = Inr b'"
  unfolding SignBundle_def Let_def bundle_input_def
  by (intro and_then_ok signature_input_ok)
     (use assms in \<open>auto simp: fields_fine_def bundle_fields_def time_doc_ok raw_null\<close>)

lemma EstablishLocalChannel_Inr:
  "EstablishLocalChannel P r oob = (Inr ch, r') \<Longrightarrow> LC_Ready ch"
  by (auto simp: EstablishLocalChannel_def Let_def and_then_Inr_iff split: prod.splits sum.splits if_splits)

text \<open>The comparison of the two secrets never fails: every failure is one of key generation or derivation.\<close>

lemma GenerateSessionKey_Inl: "GenerateSessionKey P r = (Inl e, r') \<Longrightarrow> err_code e = CodeKeyInvalid"
  by (auto simp: GenerateSessionKey_def Let_def split: option.splits)

lemma SharedSecret_Inl: "SharedSecret P k pk = Inl e \<Longrightarrow> err_code e = CodeKeyInvalid"
  by (auto simp: SharedSecret_def split: option.splits)

lemma HKDF_Inl: "HKDF P a b c n = Inl e \<Longrightarrow> err_code e = CodeKeyInvalid"
  by (auto simp: HKDF_def split: option.splits)

lemma EstablishLocalChannel_errors:
  assumes "dh_agrees P" "EstablishLocalChannel P r oob = (Inl e, r')"
  shows "err_code e = CodeKeyInvalid"
proof (cases "GenerateSessionKey P r")
  case A: (Pair x r1)
  show ?thesis
  proof (cases x)
    case (Inl e')
    then show ?thesis using assms(2) A GenerateSessionKey_Inl[of P r] by (simp add: EstablishLocalChannel_def)
  next
    case (Inr k)
    obtain aPriv aPub where k: "k = (aPriv, aPub)" by force
    show ?thesis
    proof (cases "GenerateSessionKey P r1")
      case B: (Pair y r2)
      show ?thesis
      proof (cases y)
        case (Inl e')
        then show ?thesis using assms(2) A Inr k B GenerateSessionKey_Inl[of P r1] by (simp add: EstablishLocalChannel_def)
      next
        case y: (Inr l)
        obtain bPriv bPub where l: "l = (bPriv, bPub)" by force
        have "SharedSecret P aPriv bPub = SharedSecret P bPriv aPub"
          using SharedSecret_agree[OF assms(1)] A B Inr k y l by blast
        then show ?thesis using assms(2) A B Inr k y l
          by (auto simp: EstablishLocalChannel_def Let_def and_then_Inl_iff dest: SharedSecret_Inl HKDF_Inl)
      qed
    qed
  qed
qed

lemma EstablishLocalChannel_ok:
  assumes "dh_agrees P" "hkdf_total P" "GenerateSessionKey P r = (Inr (a, A), r1)" "GenerateSessionKey P r1 = (Inr (b, B), r2)"
    and "SharedSecret P a B = Inr s"
  shows "\<exists>ch. EstablishLocalChannel P r oob = (Inr ch, r2)"
proof -
  have "SharedSecret P b A = Inr s" using SharedSecret_agree[OF assms(1,3,4)] assms(5) by simp
  moreover have "\<exists>key. HKDF P s oob (''iscp/v2/provisioning/local-channel'' @ xpub_key A @ xpub_key B) 32 = Inr key"
    using HKDF_ok[OF assms(2), of 32] by fastforce
  ultimately show ?thesis using assms(3-5) by (auto simp: EstablishLocalChannel_def Let_def)
qed

section \<open>Properties\<close>

text \<open>
  C28. Signed tickets of both versions are accepted under the issuer's identity exactly within their validity window
  and, for version 3, exactly when the purpose is an invitation, role, audience and permissions
  are present and the grant's time to live is not negative.
\<close>

theorem tickets_accepted_iff:
  assumes "sig_correct P" "device_ok P issuer" and "SignTicketV3 P issuer t0 = Inr t" and "SignTicket P issuer u0 = Inr u"
  shows "(VerifyTicketV3 P t (Dev_Identity issuer) now = Inr () \<longleftrightarrow> ticket3_admits t0 now) \<and>
     (VerifyTicket P u (Dev_Identity issuer) now = Inr () \<longleftrightarrow> PT_IssuedAt u0 \<le> now \<and> now < PT_ExpiresAt u0)"
  using SignTicketV3_verify[OF assms(1-3)] SignTicket_verify[OF assms(1,2,4)] by blast

definition sample_ticket3 :: PairingTicketV3 where
  "sample_ticket3 = \<lparr>T3_Type = [], T3_TicketID = ''t1'', T3_DomainID = ''dom'', T3_RelayID = ''relay'', T3_TrustRootID = ''root'',
     T3_Purpose = PurposeInvite, T3_ConsumerRole = ''agent'', T3_GrantAudience = ''phone'', T3_GrantPermissions = Some [''chat''],
     T3_GrantTTLSeconds = 60, T3_MaxUses = 1, T3_IssuedAt = 0, T3_ExpiresAt = Hour, T3_Signature = no_signature\<rparr>"

definition sample_ticket :: PairingTicket where
  "sample_ticket = \<lparr>PT_Type = [], PT_TicketID = ''t1'', PT_DomainID = ''dom'', PT_RelayID = ''relay'', PT_TrustRootID = ''root'',
     PT_MaxUses = 1, PT_IssuedAt = 0, PT_ExpiresAt = Hour, PT_Signature = no_signature\<rparr>"

lemma sample_years: "year_ok 0" "year_ok Hour"
  by code_simp+

lemma sample_tickets_sign: "\<exists>t. SignTicketV3 P issuer sample_ticket3 = Inr t" "\<exists>u. SignTicket P issuer sample_ticket = Inr u"
  using sample_years
  by (auto intro!: SignTicketV3_ok SignTicket_ok simp: sample_ticket3_def sample_ticket_def int64_ok_def)

theorem tickets_accepted_iff_witness:
  "\<exists>d t u. NewDevice model_prims (replicate 32 (CHR ''s'')) ''dom'' ''root'' 0 = (Inr d, []) \<and>
     SignTicketV3 model_prims d sample_ticket3 = Inr t \<and> SignTicket model_prims d sample_ticket = Inr u \<and>
     VerifyTicketV3 model_prims t (Dev_Identity d) 1 = Inr () \<and> VerifyTicket model_prims u (Dev_Identity d) Hour \<noteq> Inr ()"
proof -
  obtain d where d: "NewDevice model_prims (replicate 32 (CHR ''s'')) ''dom'' ''root'' 0 = (Inr d, [])"
    using model_device by blast
  obtain t where t: "SignTicketV3 model_prims d sample_ticket3 = Inr t" using sample_tickets_sign by blast
  obtain u where u: "SignTicket model_prims d sample_ticket = Inr u" using sample_tickets_sign by blast
  note v = tickets_accepted_iff[OF model_sig NewDevice_ok(1)[OF model_sig d] t u]
  have "ticket3_admits sample_ticket3 1" "\<not> Hour < PT_ExpiresAt sample_ticket"
    by (simp_all add: ticket3_admits_def sample_ticket3_def sample_ticket_def Hour_def Minute_def Second_def)
  with d t u v show ?thesis by blast
qed

text \<open>
  C27. A ticket is good for exactly the number of uses its first valid use announced: over every sequence of calls on
  a new store, interleaved over any tickets and with any announced limits, the number of accepted uses of a ticket is
  the smaller of the first positive limit announced for it and the number of its calls with a positive limit; calls
  with a limit of zero or less are refused and leave no trace.
\<close>

theorem ticket_uses_exact:
  "accepted t calls (fst (use_all consume NewTicketStore calls)) =
    (case calls_for t calls of [] \<Rightarrow> 0 | (t', m) # _ \<Rightarrow> min (nat m) (length (calls_for t calls)))"
  by (rule strict_store.accepted_all[OF new_store])

text \<open>
  From ticket to grant: a grant issued with exactly the bindings of a version 3 ticket is accepted exactly for
  the consuming device as subject with its own key, for the inviting audience, on the ticket's
  relay, for the ticket's permissions, within the grant's window and epoch; and the audience is
  never the consumer itself.
\<close>

theorem ticket_grant_bindings:
  assumes "sig_correct P" "device_ok P issuer" and "BindGrantRoles P ticket consumer = Inr b"
    and "Gr_SubjectDeviceID g0 = GB_SubjectDeviceID b" "Gr_ConfirmationThumbprint g0 = GB_ConfirmationThumbprint b"
    and "Gr_Audience g0 = GB_Audience b" "Gr_Permissions g0 = GB_Permissions b" "Gr_RelayConstraints g0 = [GB_RelayID b]"
    and "SignGrant P issuer g0 = Inr g"
  shows "T3_GrantAudience ticket \<noteq> ID_DeviceID consumer \<and>
     (VerifyGrant P g (Dev_Identity issuer) opts = Inr () \<longleftrightarrow>
        Gr_NotBefore g0 \<le> VO_Now opts \<and> VO_Now opts < Gr_ExpiresAt g0 \<and>
        VO_CurrentRevocationEpoch opts \<le> Gr_RevocationEpoch g0 \<and> VO_SubjectDeviceID opts = ID_DeviceID consumer \<and>
        identity_Thumbprint P consumer = Inr (VO_ConfirmationThumbprint opts) \<and>
        VO_Audience opts = T3_GrantAudience ticket \<and> VO_Permission opts \<in> set (elems (T3_GrantPermissions ticket)) \<and>
        VO_RelayID opts = T3_RelayID ticket)"
proof -
  have b: "ID_DeviceID consumer \<noteq> T3_GrantAudience ticket" "identity_Thumbprint P consumer = Inr (GB_ConfirmationThumbprint b)"
    "GB_SubjectDeviceID b = ID_DeviceID consumer" "GB_Audience b = T3_GrantAudience ticket"
    "GB_Permissions b = T3_GrantPermissions ticket" "GB_RelayID b = T3_RelayID ticket"
    using assms(3) by (auto simp: BindGrantRoles_def and_then_Inr_iff split: if_splits)
  have "VerifyGrant P g (Dev_Identity issuer) opts = Inr () \<longleftrightarrow> grant_admits g opts"
    using SignGrant_checks[OF assms(1,2,9)] SignGrant_fields(1)[OF assms(9)] by (simp add: VerifyGrant_Inr)
  also have "\<dots> \<longleftrightarrow> grant_admits g0 opts"
    using assms(9) by (auto simp: SignGrant_def Let_def and_then_Inr_iff grant_admits_def)
  finally show ?thesis using b by (auto simp: grant_admits_def assms(4-8))
qed

theorem ticket_grant_bindings_witness:
  "\<exists>d c b g. NewDevice model_prims (replicate 32 (CHR ''s'')) ''dom'' ''root'' 0 = (Inr d, []) \<and>
     NewDevice model_prims (replicate 32 (CHR ''s'')) ''dom'' ''watch'' 0 = (Inr c, []) \<and>
     BindGrantRoles model_prims sample_ticket3 (Dev_Identity c) = Inr b \<and>
     SignGrant model_prims d (sample_grant\<lparr>Gr_ConfirmationThumbprint := GB_ConfirmationThumbprint b\<rparr>) = Inr g \<and>
     VerifyGrant model_prims g (Dev_Identity d) (sample_opts\<lparr>VO_ConfirmationThumbprint := GB_ConfirmationThumbprint b\<rparr>) = Inr ()"
proof -
  obtain d where d: "NewDevice model_prims (replicate 32 (CHR ''s'')) ''dom'' ''root'' 0 = (Inr d, [])"
    using model_device by blast
  obtain c where c: "NewDevice model_prims (replicate 32 (CHR ''s'')) ''dom'' ''watch'' 0 = (Inr c, [])"
    using model_device by blast
  note C = NewDevice_ok[OF model_sig c]
  obtain tp where tp: "identity_Thumbprint model_prims (Dev_Identity c) = Inr tp"
    using C(1) by (simp add: identity_Thumbprint_def device_ok_def Let_def)
  define b where "b = \<lparr>GB_SubjectDeviceID = ''watch'', GB_ConfirmationThumbprint = tp, GB_Audience = ''phone'',
     GB_Permissions = Some [''chat''], GB_RelayID = ''relay''\<rparr>"
  have b: "BindGrantRoles model_prims sample_ticket3 (Dev_Identity c) = Inr b"
    by (simp add: BindGrantRoles_def tp C sample_ticket3_def b_def)
  let ?g = "sample_grant\<lparr>Gr_ConfirmationThumbprint := GB_ConfirmationThumbprint b\<rparr>"
  obtain g where g: "SignGrant model_prims d ?g = Inr g"
    using SignGrant_ok[of ?g] sample_years by (auto simp: sample_grant_def int64_ok_def)
  have "VerifyGrant model_prims g (Dev_Identity d) (sample_opts\<lparr>VO_ConfirmationThumbprint := GB_ConfirmationThumbprint b\<rparr>) = Inr ()"
    using ticket_grant_bindings[OF model_sig NewDevice_ok(1)[OF model_sig d] b _ _ _ _ _ g] C tp
    by (simp add: b_def sample_grant_def sample_opts_def sample_ticket3_def Hour_def Minute_def Second_def word_le_def)
  with d c b g show ?thesis by blast
qed

text \<open>
  C29. Provisioning: a signed bundle is applied over a channel exactly when the channel is ready, within the bundle's
  window and by the device it was issued to, identified by id and key thumbprint. Channels that
  \<^verbatim>\<open>EstablishLocalChannel\<close> returns are ready, and it never fails with a key mismatch.
\<close>

theorem bundle_applied_iff:
  assumes "sig_correct P" "dh_agrees P" "device_ok P issuer" and "SignBundle P issuer b0 = Inr b"
    and "EstablishLocalChannel P r oob = (res, r')"
  shows "(ApplyBundle P ch loc b (Dev_Identity issuer) now = Inr () \<longleftrightarrow> LC_Ready ch \<and>
        Bu_IssuedAt b0 \<le> now \<and> now < Bu_ExpiresAt b0 \<and> Bu_IssuedToDeviceID b0 = ID_DeviceID loc \<and>
        identity_Thumbprint P loc = Inr (Bu_IssuedToPublicKeyThumbprint b0)) \<and>
     (\<forall>established. res = Inr established \<longrightarrow> LC_Ready established) \<and>
     res \<noteq> reject CodeProvisionInvalid ''local secure channel key mismatch''"
proof (intro conjI)
  show "res \<noteq> reject CodeProvisionInvalid ''local secure channel key mismatch''"
    using EstablishLocalChannel_errors[OF assms(2)] assms(5) by (cases res) fastforce+
  show "\<forall>established. res = Inr established \<longrightarrow> LC_Ready established"
    using EstablishLocalChannel_Inr assms(5) by blast
qed (rule SignBundle_apply[OF assms(1,3,4)])

definition sample_bundle :: "string \<Rightarrow> Bundle" where
  "sample_bundle tp = \<lparr>Bu_Type = [], Bu_BundleID = ''b1'', Bu_IssuedToDeviceID = ''watch'', Bu_IssuedToPublicKeyThumbprint = tp,
     Bu_RelayDescriptor = None, Bu_TrustRootDescriptor = None, Bu_AccessCredential = None, Bu_RefreshCredentialWrapped = ''w'',
     Bu_TrustGrant = None, Bu_IssuedAt = 0, Bu_ExpiresAt = Hour, Bu_Signature = no_signature\<rparr>"

theorem bundle_applied_iff_witness:
  "\<exists>d c tp b ch. NewDevice model_prims (replicate 32 (CHR ''s'')) ''dom'' ''root'' 0 = (Inr d, []) \<and>
     NewDevice model_prims (replicate 32 (CHR ''s'')) ''dom'' ''watch'' 0 = (Inr c, []) \<and>
     SignBundle model_prims d (sample_bundle tp) = Inr b \<and>
     EstablishLocalChannel model_prims (replicate 32 (CHR ''a'') @ replicate 32 (CHR ''b'')) ''oob'' = (Inr ch, []) \<and>
     ApplyBundle model_prims ch (Dev_Identity c) b (Dev_Identity d) 1 = Inr () \<and>
     ApplyBundle model_prims ch (Dev_Identity d) b (Dev_Identity d) 1 \<noteq> Inr () \<and>
     ApplyBundle model_prims (ch\<lparr>LC_Ready := False\<rparr>) (Dev_Identity c) b (Dev_Identity d) 1 \<noteq> Inr ()"
proof -
  obtain d where d: "NewDevice model_prims (replicate 32 (CHR ''s'')) ''dom'' ''root'' 0 = (Inr d, [])"
    using model_device by blast
  obtain c where c: "NewDevice model_prims (replicate 32 (CHR ''s'')) ''dom'' ''watch'' 0 = (Inr c, [])"
    using model_device by blast
  note D = NewDevice_ok[OF model_sig d] and C = NewDevice_ok[OF model_sig c]
  obtain tp where tp: "identity_Thumbprint model_prims (Dev_Identity c) = Inr tp"
    using C(1) by (simp add: identity_Thumbprint_def device_ok_def Let_def)
  obtain b where b: "SignBundle model_prims d (sample_bundle tp) = Inr b"
    using SignBundle_ok[of "sample_bundle tp"] sample_years by (auto simp: sample_bundle_def)
  obtain x X where a: "GenerateSessionKey model_prims (replicate 32 (CHR ''a'') @ replicate 32 (CHR ''b'')) = (Inr (x, X), replicate 32 (CHR ''b''))"
    "length (xpriv_key x) = 32" using model_session_key by blast
  obtain y Y where k: "GenerateSessionKey model_prims (replicate 32 (CHR ''b'')) = (Inr (y, Y), [])" "length (xpub_key Y) = 32"
    using model_session_key[of _ "[]"] by force
  obtain z where "SharedSecret model_prims x Y = Inr z" using model_shared[OF a(2) k(2)] by auto
  then obtain ch where ch: "EstablishLocalChannel model_prims (replicate 32 (CHR ''a'') @ replicate 32 (CHR ''b'')) ''oob'' = (Inr ch, [])"
    using EstablishLocalChannel_ok[OF model_dh model_hkdf a(1) k(1)] by blast
  note v = bundle_applied_iff[OF model_sig model_dh D(1) b ch]
  have "ApplyBundle model_prims ch (Dev_Identity c) b (Dev_Identity d) 1 = Inr ()"
    "ApplyBundle model_prims ch (Dev_Identity d) b (Dev_Identity d) 1 \<noteq> Inr ()"
    "ApplyBundle model_prims (ch\<lparr>LC_Ready := False\<rparr>) (Dev_Identity c) b (Dev_Identity d) 1 \<noteq> Inr ()"
    using v[of ch "Dev_Identity c" 1] v[of ch "Dev_Identity d" 1] v[of "ch\<lparr>LC_Ready := False\<rparr>" "Dev_Identity c" 1] tp C D
    by (simp_all add: sample_bundle_def Hour_def Minute_def Second_def)
  with d c b ch show ?thesis by blast
qed

end
