(* ===== verification/Time_Parse.thy ===== *)
theory Time_Parse
  imports Go_Time
begin

text \<open>
  Reading a timestamp: \<^verbatim>\<open>Time.UnmarshalJSON\<close>, which is \<^verbatim>\<open>time.Parse\<close> with the RFC 3339 layout. It accepts
  one- or two-digit hours, a fraction after a period or a comma, and \<^verbatim>\<open>Z\<close> or a numeric offset. The
  result is the instant; the offset itself is not kept.
\<close>

definition digit_val :: "char \<Rightarrow> int option" where
  "digit_val c = (if c \<in> decimal_digits then Some (int (of_char c - 48)) else None)"

text \<open>Exactly \<open>w\<close> digits.\<close>

fun take_digits :: "nat \<Rightarrow> int \<Rightarrow> string \<Rightarrow> (int \<times> string) option" where
  "take_digits 0 acc s = Some (acc, s)"
| "take_digits (Suc w) acc [] = None"
| "take_digits (Suc w) acc (c # s) =
     (case digit_val c of None \<Rightarrow> None | Some d \<Rightarrow> take_digits w (acc * 10 + d) s)"

definition num_in :: "int \<Rightarrow> int \<Rightarrow> (int \<times> string) option \<Rightarrow> (int \<times> string) option" where
  "num_in lo hi r = (case r of None \<Rightarrow> None | Some (n, s) \<Rightarrow> if lo \<le> n \<and> n \<le> hi then Some (n, s) else None)"

definition take_hour :: "string \<Rightarrow> (int \<times> string) option" where
  "take_hour s = (case take_digits 2 0 s of Some r \<Rightarrow> Some r | None \<Rightarrow> take_digits 1 0 s)"

fun take_char :: "char \<Rightarrow> string \<Rightarrow> string option" where
  "take_char c [] = None"
| "take_char c (x # s) = (if x = c then Some s else None)"

fun digits_prefix :: "string \<Rightarrow> string \<times> string" where
  "digits_prefix [] = ([], [])"
| "digits_prefix (c # s) = (if c \<in> decimal_digits then (c # fst (digits_prefix s), snd (digits_prefix s)) else ([], c # s))"

fun value_of :: "int \<Rightarrow> string \<Rightarrow> int" where
  "value_of acc [] = acc"
| "value_of acc (c # s) = value_of (acc * 10 + int (of_char c - 48)) s"

text \<open>The first nine digits of the fraction, scaled to nanoseconds.\<close>

definition nanos :: "string \<Rightarrow> int" where
  "nanos ds = (let ds' = take 9 ds in value_of 0 ds' * 10 ^ (9 - length ds'))"

definition take_fraction :: "string \<Rightarrow> int \<times> string" where
  "take_fraction s =
     (case s of
        p # c # r \<Rightarrow> if (p = CHR ''.'' \<or> p = CHR '','') \<and> c \<in> decimal_digits
                   then (nanos (fst (digits_prefix (c # r))), snd (digits_prefix (c # r))) else (0, s)
      | _ \<Rightarrow> (0, s))"

definition take_offset :: "string \<Rightarrow> (int \<times> string) option" where
  "take_offset s =
     (case s of
        [] \<Rightarrow> None
      | c # r \<Rightarrow>
          if c = CHR ''Z'' then Some (0, r)
          else if c = CHR ''+'' \<or> c = CHR ''-'' then
            Option.bind (num_in 0 24 (take_digits 2 0 r)) (\<lambda>(hh, r1).
            Option.bind (take_char (CHR '':'') r1) (\<lambda>r2.
            Option.bind (num_in 0 60 (take_digits 2 0 r2)) (\<lambda>(mm, r3).
              Some ((if c = CHR ''-'' then - 1 else 1) * (hh * 60 + mm) * 60, r3))))
          else None)"

definition leap :: "int \<Rightarrow> bool" where
  "leap y \<longleftrightarrow> y mod 4 = 0 \<and> (y mod 100 \<noteq> 0 \<or> y mod 400 = 0)"

definition days_in :: "int \<Rightarrow> int \<Rightarrow> int" where
  "days_in m y = (if m = 2 then (if leap y then 29 else 28) else if m \<in> {4, 6, 9, 11} then 30 else 31)"

definition instant :: "int \<Rightarrow> int \<Rightarrow> int \<Rightarrow> int \<Rightarrow> int \<Rightarrow> time" where
  "instant y m d secs ns =
     (day_of_civil \<lparr>year = y, month = m, day = d\<rparr> - 306) * (86400 * Second) + secs * Second + ns"

definition ParseTime :: "string \<Rightarrow> time option" where
  "ParseTime s =
     Option.bind (take_digits 4 0 s) (\<lambda>(y, r0).
     Option.bind (take_char (CHR ''-'') r0) (\<lambda>r1.
     Option.bind (num_in 1 12 (take_digits 2 0 r1)) (\<lambda>(m, r2).
     Option.bind (take_char (CHR ''-'') r2) (\<lambda>r3.
     Option.bind (num_in 1 (days_in m y) (take_digits 2 0 r3)) (\<lambda>(d, r4).
     Option.bind (take_char (CHR ''T'') r4) (\<lambda>r5.
     Option.bind (num_in 0 23 (take_hour r5)) (\<lambda>(h, r6).
     Option.bind (take_char (CHR '':'') r6) (\<lambda>r7.
     Option.bind (num_in 0 59 (take_digits 2 0 r7)) (\<lambda>(mi, r8).
     Option.bind (take_char (CHR '':'') r8) (\<lambda>r9.
     Option.bind (num_in 0 59 (take_digits 2 0 r9)) (\<lambda>(sec, r10).
     case take_fraction r10 of (ns, r11) \<Rightarrow>
     Option.bind (take_offset r11) (\<lambda>(off, r12).
       if r12 = [] then Some (instant y m d (h * 3600 + mi * 60 + sec - off) ns) else None))))))))))))"

section \<open>Round trip\<close>

lemma digit_val_digit: "0 \<le> n \<Longrightarrow> n < 10 \<Longrightarrow> digit_val (digit n) = Some n"
  by (simp add: digit_val_def digit_in of_char_digit)

lemma take_digits_append:
  "take_digits w acc s = Some (n, []) \<Longrightarrow> take_digits (w + k) acc (s @ r) = take_digits k n r"
  by (induction w acc s rule: take_digits.induct) (auto split: option.splits)

lemma take_digits_fixed0:
  "0 \<le> n \<Longrightarrow> n < 10 ^ w \<Longrightarrow> take_digits w acc (fixed w n) = Some (acc * 10 ^ w + n, [])"
proof (induction w arbitrary: n acc)
  case (Suc w)
  have n: "0 \<le> n div 10" "n div 10 < 10 ^ w" "0 \<le> n mod 10" "n mod 10 < 10"
    using Suc.prems by (simp_all add: div_less_iff_less_mult mult.commute)
  from take_digits_append[OF Suc.IH[OF n(1,2), of acc], of 1 "[digit (n mod 10)]"]
  have "take_digits (Suc w) acc (fixed (Suc w) n) = Some ((acc * 10 ^ w + n div 10) * 10 + n mod 10, [])"
    using digit_val_digit[OF n(3,4)] by simp
  then show ?case by (simp add: algebra_simps)
qed simp

lemma take_digits_fixed: "0 \<le> n \<Longrightarrow> n < 10 ^ w \<Longrightarrow> take_digits w 0 (fixed w n @ r) = Some (n, r)"
  using take_digits_append[OF take_digits_fixed0, of n w 0 0 r] by simp

lemma digits_prefix_append:
  "set ds \<subseteq> decimal_digits \<Longrightarrow> (r = [] \<or> hd r \<notin> decimal_digits) \<Longrightarrow> digits_prefix (ds @ r) = (ds, r)"
  by (induction ds) (cases r; auto)+

lemma value_of_append: "value_of acc (s @ [c]) = value_of acc s * 10 + int (of_char c - 48)"
  by (induction acc s rule: value_of.induct) simp_all

lemma value_of_fixed: "0 \<le> n \<Longrightarrow> n < 10 ^ w \<Longrightarrow> value_of 0 (fixed w n) = n"
proof (induction w arbitrary: n)
  case (Suc w)
  have n: "0 \<le> n div 10" "n div 10 < 10 ^ w" "0 \<le> n mod 10" "n mod 10 < 10"
    using Suc.prems by (simp_all add: div_less_iff_less_mult mult.commute)
  show ?case using Suc.IH[OF n(1,2)] n(3,4) by (simp add: value_of_append of_char_digit)
qed simp

lemma value_of_zeros: "value_of acc (s @ replicate k (CHR ''0'')) = value_of acc s * 10 ^ k"
proof (induction k)
  case (Suc k)
  have "s @ replicate (Suc k) (CHR ''0'') = (s @ replicate k (CHR ''0'')) @ [CHR ''0'']"
    by (simp add: replicate_append_same)
  then show ?case using Suc value_of_append[of acc "s @ replicate k (CHR ''0'')" "CHR ''0''"] by simp
qed simp

lemma strip_zeros_pad: "\<exists>k. u = replicate k (CHR ''0'') @ strip_zeros u"
proof (induction u)
  case (Cons c u)
  then obtain k where "u = replicate k (CHR ''0'') @ strip_zeros u" by blast
  then show ?case by (cases "c = CHR ''0''") (auto intro: exI[of _ "Suc k"] exI[of _ 0])
qed simp

lemma nanos_stripped:
  assumes "0 \<le> n" "n < Second"
  shows "nanos (rev (strip_zeros (rev (fixed 9 n)))) = n"
proof -
  let ?d = "rev (strip_zeros (rev (fixed 9 n)))"
  obtain k where k: "rev (fixed 9 n) = replicate k (CHR ''0'') @ strip_zeros (rev (fixed 9 n))" using strip_zeros_pad by blast
  then have f: "fixed 9 n = ?d @ replicate k (CHR ''0'')" by (metis rev_append rev_replicate rev_rev_ident)
  have l: "length ?d + k = 9" using arg_cong[OF f, of length] by (simp del: fixed.simps)
  have "value_of 0 ?d * 10 ^ k = n"
    using value_of_zeros[of 0 ?d k] value_of_fixed[of n 9] assms f by (simp add: Second_def del: fixed.simps)
  moreover have "k = 9 - length ?d" "take 9 ?d = ?d" using l by simp_all
  ultimately show ?thesis unfolding nanos_def Let_def by (metis (no_types))
qed

lemma fraction_parse:
  assumes "0 \<le> n" "n < Second"
  shows "take_fraction (fraction n @ ''Z'') = (n, ''Z'')"
proof (cases "n = 0")
  case True
  then show ?thesis by (simp add: fraction_def take_fraction_def)
next
  case False
  let ?d = "rev (strip_zeros (rev (fixed 9 n)))"
  have d: "set ?d \<subseteq> decimal_digits" using set_strip_zeros[of "rev (fixed 9 n)"] set_fixed[of 9 n] unfolding set_rev by blast
  have "?d \<noteq> []" using nanos_stripped[OF assms] False by (auto simp: nanos_def simp del: fixed.simps)
  then obtain c r where c: "?d = c # r" by (cases ?d) auto
  have z: "CHR ''Z'' \<notin> decimal_digits" by (simp add: decimal_digits_def)
  have p: "digits_prefix (?d @ ''Z'') = (?d, ''Z'')" using digits_prefix_append[OF d, of "''Z''"] z by simp
  have "take_fraction ((CHR ''.'' # ?d) @ ''Z'') = (nanos ?d, ''Z'')"
    using d p unfolding take_fraction_def c by simp
  then show ?thesis using nanos_stripped[OF assms] False by (simp add: fraction_def del: fixed.simps)
qed

lemma leap_day:
  fixes era c q a doy r s :: int
  assumes "0 \<le> c" "c \<le> 3" "0 \<le> q" "q \<le> 24" "0 \<le> a" "a \<le> 3" and "r = q * 1461 + s" "s = a * 365 + doy" "doy = 365" "s \<le> 1460"
    and "c * 36524 + r < 146097" "c < 3 \<Longrightarrow> r < 36524"
    and "a < 3 \<Longrightarrow> doy < 365"
  shows "leap (era * 400 + (100 * c + 4 * q + a) + 1)"
proof -
  have a: "a = 3" using assms(6,9,13) by fastforce
  define y where "y = era * 400 + (100 * c + 4 * q + a) + 1"
  have y: "y = 4 * (era * 100 + 25 * c + q + 1)" by (simp add: y_def a)
  then have y4: "y mod 4 = 0" by simp
  have "y mod 100 \<noteq> 0 \<or> y mod 400 = 0"
  proof (cases "q = 24")
    case True
    then have "r = 36524" using assms(7-9) a by simp
    then have "c = 3" using assms(2,12) by fastforce
    then have "y = 400 * (era + 1)" by (simp add: y True)
    then show ?thesis by simp
  next
    case False
    then have q: "1 \<le> q + 1" "q + 1 \<le> 24" using assms(3,4) by simp_all
    have "y = 100 * (era * 4 + c) + 4 * (q + 1)" by (simp add: y)
    then have "y mod 100 = 4 * (q + 1)" using q split_digits(2)[of "4 * (q + 1)" 100 "era * 4 + c"] by (simp only:) simp
    with q show ?thesis by simp
  qed
  with y4 show ?thesis by (simp add: leap_def y_def)
qed

lemma civil_valid:
  "1 \<le> month (civil z) \<and> month (civil z) \<le> 12 \<and> 1 \<le> day (civil z) \<and> day (civil z) \<le> days_in (month (civil z)) (year (civil z))"
proof -
  define era doe where "era = z div 146097" and "doe = z mod 146097"
  define c where "c = min 3 (doe div 36524)"
  define r where "r = doe - c * 36524"
  define q s where "q = r div 1461" and "s = r mod 1461"
  define a where "a = min 3 (s div 365)"
  define doy where "doy = s - a * 365"
  define mp where "mp = (5 * doy + 2) div 153"
  define e where "e = (153 * mp + 2) div 5"
  have doe: "0 \<le> doe" "doe < 146097" unfolding doe_def by simp_all
  note cb = civil_bounds[OF doe, folded c_def, folded r_def, folded q_def]
  have c: "0 \<le> c" "c \<le> 3" using cb(1) by (simp_all add: c_def)
  have q: "0 \<le> q" "q \<le> 24" using cb(2,3) by (simp_all add: q_def pos_imp_zdiv_nonneg_iff)
  have s: "0 \<le> s" "s \<le> 1460" unfolding s_def by (rule mod_range)+
  have doy: "0 \<le> doy" "doy \<le> 365" unfolding doy_def a_def using s by (rule year_bounds)+
  have a: "0 \<le> a" "a \<le> 3" using s(1) by (simp_all add: a_def pos_imp_zdiv_nonneg_iff)
  note md = month_day[OF doy, folded mp_def, folded e_def]
  have m: "153 * mp \<le> 5 * doy + 2" "5 * doy + 2 < 153 * mp + 153"
    unfolding mp_def using div_mod_bounds[of 153 "5 * doy + 2"] by simp_all
  have dt: "civil z = \<lparr>year = era * 400 + (100 * c + 4 * q + a) + (if mp < 10 then 0 else 1),
      month = (if mp < 10 then mp + 3 else mp - 9), day = doy - e + 1\<rparr>"
    unfolding civil_def Let_def era_def[symmetric] doe_def[symmetric] c_def[symmetric]
      r_def[symmetric] q_def[symmetric] s_def[symmetric] a_def[symmetric] doy_def[symmetric] mp_def[symmetric] e_def[symmetric]
    by simp
  have r: "r = q * 1461 + s" unfolding q_def s_def by simp
  have small: "c < 3 \<Longrightarrow> r < 36524"
    unfolding r_def c_def using div_mod_bounds[of 36524 doe] by (auto simp: min_def split: if_splits)
  have early: "a < 3 \<Longrightarrow> doy < 365"
    unfolding doy_def a_def using div_mod_bounds[of 365 s] by (auto simp: min_def split: if_splits)
  have feb: "leap (era * 400 + (100 * c + 4 * q + a) + 1)" if "doy = 365"
    using c q a r s small early doe that by (intro leap_day[where r = r and s = s and doy = doy]) (simp_all add: doy_def r_def)
  then have feb: "doy \<le> 364 \<or> leap (era * 400 + (100 * c + 4 * q + a) + 1)" using doy(2) by fastforce
  have "mp \<in> {0, 1, 2, 3, 4, 5, 6, 7, 8, 9, 10, 11}" using md(1,2) by simp presburger
  then have "doy - e + 1 \<le> days_in (if mp < 10 then mp + 3 else mp - 9) (era * 400 + (100 * c + 4 * q + a) + (if mp < 10 then 0 else 1))"
    using m feb doy(2) unfolding e_def by (elim insertE emptyE) (auto simp: days_in_def)
  then show ?thesis using md by (simp add: dt)
qed

lemma second_range: "0 \<le> second_of_day t" "second_of_day t < 86400"
proof -
  have "0 \<le> t mod (86400 * Second)" "t mod (86400 * Second) < 86400 * Second" by (simp_all add: Second_def)
  then show "0 \<le> second_of_day t" "second_of_day t < 86400" by (simp_all add: second_of_day_def Second_def)
qed

lemma num_fixed:
  "0 \<le> n \<Longrightarrow> n < 10 ^ 2 \<Longrightarrow> lo \<le> n \<Longrightarrow> n \<le> hi \<Longrightarrow> num_in lo hi (take_digits 2 0 (fixed 2 n @ x)) = Some (n, x)"
  using take_digits_fixed[of n 2 x] by (simp add: num_in_def del: fixed.simps take_digits.simps)

lemma hour_fixed:
  "0 \<le> n \<Longrightarrow> n < 10 ^ 2 \<Longrightarrow> lo \<le> n \<Longrightarrow> n \<le> hi \<Longrightarrow> num_in lo hi (take_hour (fixed 2 n @ x)) = Some (n, x)"
  using take_digits_fixed[of n 2 x] by (simp add: num_in_def take_hour_def del: fixed.simps take_digits.simps)

text \<open>Every timestamp that is written is read back as the same instant.\<close>

lemma ParseTime_rfc3339:
  assumes "year_ok t"
  shows "ParseTime (rfc3339 t) = Some t"
proof -
  let ?D = "civil (day_number t)" and ?s = "second_of_day t"
  note v = civil_valid[of "day_number t"]
  have dd: "days_in m y \<le> 31" for m y by (simp add: days_in_def)
  have r: "0 \<le> year ?D" "year ?D < 10 ^ 4" "0 \<le> month ?D" "month ?D < 10 ^ 2" "0 \<le> day ?D" "day ?D < 10 ^ 2"
    "0 \<le> ?s div 3600" "?s div 3600 \<le> 23" "0 \<le> ?s div 60 mod 60" "?s div 60 mod 60 \<le> 59" "0 \<le> ?s mod 60" "?s mod 60 \<le> 59"
    using assms v dd[of "month ?D" "year ?D"] second_range[of t] by (simp_all add: year_ok_def)
  have n: "0 \<le> nanosecond t" "nanosecond t < Second" by (simp_all add: nanosecond_def Second_def)
  have w: "?s div 3600 < 10 ^ 2" "?s div 60 mod 60 < 10 ^ 2" "?s mod 60 < 10 ^ 2"
    using r(8,10,12) by simp_all
  have e: "take_digits 4 0 (fixed 4 (year ?D) @ x) = Some (year ?D, x)"
    "num_in 1 12 (take_digits 2 0 (fixed 2 (month ?D) @ x)) = Some (month ?D, x)"
    "num_in 1 (days_in (month ?D) (year ?D)) (take_digits 2 0 (fixed 2 (day ?D) @ x)) = Some (day ?D, x)"
    "num_in 0 23 (take_hour (fixed 2 (?s div 3600) @ x)) = Some (?s div 3600, x)"
    "num_in 0 59 (take_digits 2 0 (fixed 2 (?s div 60 mod 60) @ x)) = Some (?s div 60 mod 60, x)"
    "num_in 0 59 (take_digits 2 0 (fixed 2 (?s mod 60) @ x)) = Some (?s mod 60, x)" for x
    by (rule take_digits_fixed[OF r(1,2)], rule num_fixed[OF r(3,4)], use v in simp, use v in simp,
        rule num_fixed[OF r(5,6)], use v in simp, use v in simp, rule hour_fixed[OF r(7) w(1) r(7,8)],
        rule num_fixed[OF r(9) w(2) r(9,10)], rule num_fixed[OF r(11) w(3) r(11,12)])
  have z: "take_fraction (fraction (nanosecond t) @ ''Z'') = (nanosecond t, ''Z'')" "take_offset ''Z'' = Some (0, [])"
    using fraction_parse[OF n] by (simp_all add: take_offset_def)
  have c: "take_char ch ([ch] @ x) = Some x" for ch x by simp
  have "ParseTime (rfc3339 t) = Some (instant (year ?D) (month ?D) (day ?D) (?s div 3600 * 3600 + ?s div 60 mod 60 * 60 + ?s mod 60 - 0) (nanosecond t))"
    unfolding rfc3339_def Let_def ParseTime_def by (simp only: e z c Option.bind.bind_lunit prod.case append_assoc simp_thms if_True)
  moreover have "instant (year ?D) (month ?D) (day ?D) ?s (nanosecond t) = t"
  proof -
    have "\<lparr>year = year ?D, month = month ?D, day = day ?D\<rparr> = ?D" by simp
    then show ?thesis using time_of_parts[of t] by (simp only: instant_def day_of_civil_civil)
  qed
  ultimately show ?thesis using sexagesimal[of ?s] by simp
qed

end
