(* ===== verification/Json_Decode.thy ===== *)
theory Json_Decode
  imports Json_Unmarshal Json_Struct Time_Parse
begin

text \<open>
  \<^verbatim>\<open>json.Unmarshal\<close> into the structs of the protocol. A struct is decoded by a table of its fields: the
  member name and a setter that stores the member's value in the record. A member is matched
  exactly, else without regard to case as \<^verbatim>\<open>encoding/json\<close> folds names; unknown members are skipped;
  a later member overwrites an earlier one; \<^verbatim>\<open>null\<close> leaves a field as it is. The first value of a
  wrong type is the error.
\<close>

type_synonym 'r setter = "jdoc \<Rightarrow> 'r \<Rightarrow> 'r result"

definition type_error :: go_error where
  "type_error = StdError ''json: cannot unmarshal value into Go struct field''"

text \<open>
  Folding: ASCII letters to upper case, the Kelvin sign to K and the long s to S. No other
  character folds to an ASCII one.
\<close>

fun fold_name :: "string \<Rightarrow> string" where
  "fold_name [] = []"
| "fold_name (a # s) =
     (case s of
        b # c # r \<Rightarrow> if a = CHR 0xE2 \<and> b = CHR 0x84 \<and> c = CHR 0xAA then CHR ''K'' # fold_name r
                    else if a = CHR 0xC5 \<and> b = CHR 0xBF then CHR ''S'' # fold_name (c # r)
                    else upper_char a # fold_name s
      | [b] \<Rightarrow> if a = CHR 0xC5 \<and> b = CHR 0xBF then ''S'' else upper_char a # fold_name s
      | [] \<Rightarrow> [upper_char a])"

definition find_setter :: "(string \<times> 'r setter) list \<Rightarrow> string \<Rightarrow> 'r setter option" where
  "find_setter table k =
     (case map_of table k of
        Some f \<Rightarrow> Some f
      | None \<Rightarrow> map_of (map (\<lambda>(k', f). (fold_name k', f)) table) (fold_name k))"

fun set_members :: "(string \<times> 'r setter) list \<Rightarrow> (string \<times> jdoc) list \<Rightarrow> 'r \<Rightarrow> 'r result" where
  "set_members table [] r = Inr r"
| "set_members table ((k, d) # ms) r =
     (case find_setter table k of
        None \<Rightarrow> set_members table ms r
      | Some f \<Rightarrow> and_then (f d r) (set_members table ms))"

definition decode_struct :: "(string \<times> 'r setter) list \<Rightarrow> 'r setter" where
  "decode_struct table d r =
     (case d of DObj ms \<Rightarrow> set_members table ms r | DNull \<Rightarrow> Inr r | _ \<Rightarrow> Inl type_error)"

definition Unmarshal_struct :: "(string \<times> 'r setter) list \<Rightarrow> 'r \<Rightarrow> bytes \<Rightarrow> 'r result" where
  "Unmarshal_struct table zero b =
     (case Unmarshal_doc b of
        Some (Inr d) \<Rightarrow> decode_struct table d zero
      | Some (Inl err) \<Rightarrow> Inl err
      | None \<Rightarrow> Inl (StdError ''json: unfinished''))"

definition set_string :: "(string \<Rightarrow> 'r \<Rightarrow> 'r) \<Rightarrow> 'r setter" where
  "set_string upd d r = (case d of DStr s \<Rightarrow> Inr (upd s r) | DNull \<Rightarrow> Inr r | _ \<Rightarrow> Inl type_error)"

definition set_int :: "(int \<Rightarrow> 'r \<Rightarrow> 'r) \<Rightarrow> 'r setter" where
  "set_int upd d r =
     (case d of
        DNum s \<Rightarrow> (case ParseInt s of Inr i \<Rightarrow> Inr (upd i r) | Inl _ \<Rightarrow> Inl type_error)
      | DNull \<Rightarrow> Inr r
      | _ \<Rightarrow> Inl type_error)"

definition set_time :: "(time \<Rightarrow> 'r \<Rightarrow> 'r) \<Rightarrow> 'r setter" where
  "set_time upd d r =
     (case d of
        DStr s \<Rightarrow> (case ParseTime s of Some t \<Rightarrow> Inr (upd t r) | None \<Rightarrow> Inl (StdError ''parsing time''))
      | DNull \<Rightarrow> Inr r
      | _ \<Rightarrow> Inl (StdError ''Time.UnmarshalJSON: input is not a JSON string''))"

definition string_of :: "jdoc \<Rightarrow> string result" where
  "string_of d = (case d of DStr s \<Rightarrow> Inr s | DNull \<Rightarrow> Inr [] | _ \<Rightarrow> Inl type_error)"

definition set_strings :: "(string slice \<Rightarrow> 'r \<Rightarrow> 'r) \<Rightarrow> 'r setter" where
  "set_strings upd d r =
     (case d of
        DArr ds \<Rightarrow> and_then (collect (map string_of ds)) (\<lambda>ss. Inr (upd (Some ss) r))
      | DNull \<Rightarrow> Inr (upd None r)
      | _ \<Rightarrow> Inl type_error)"

text \<open>
  A map of strings, as an association list with its keys in the order of their first members. The
  members of an object are added to the map at hand.
\<close>

definition str_map_into :: "(string \<times> string) list \<Rightarrow> (string \<times> jdoc) list \<Rightarrow> (string \<times> string) list result" where
  "str_map_into m ms =
     and_then (collect (map (\<lambda>(k, d). and_then (string_of d) (\<lambda>s. Inr (k, s))) ms)) (\<lambda>ps.
       Inr (fold (\<lambda>(k, s). al_put k s) ps m))"

abbreviation str_map_of :: "(string \<times> jdoc) list \<Rightarrow> (string \<times> string) list result" where
  "str_map_of \<equiv> str_map_into []"

definition set_str_map :: "('r \<Rightarrow> (string \<times> string) list) \<Rightarrow> ((string \<times> string) list \<Rightarrow> 'r \<Rightarrow> 'r) \<Rightarrow> 'r setter" where
  "set_str_map get upd d r =
     (case d of
        DObj ms \<Rightarrow> and_then (str_map_into (get r) ms) (\<lambda>m. Inr (upd m r))
      | DNull \<Rightarrow> Inr (upd [] r)
      | _ \<Rightarrow> Inl type_error)"

definition set_struct :: "(string \<times> 'n setter) list \<Rightarrow> ('r \<Rightarrow> 'n) \<Rightarrow> ('n \<Rightarrow> 'r \<Rightarrow> 'r) \<Rightarrow> 'r setter" where
  "set_struct table get upd d r = and_then (decode_struct table d (get r)) (\<lambda>n. Inr (upd n r))"

definition set_structs :: "(string \<times> 'n setter) list \<Rightarrow> 'n \<Rightarrow> ('n list option \<Rightarrow> 'r \<Rightarrow> 'r) \<Rightarrow> 'r setter" where
  "set_structs table zero upd d r =
     (case d of
        DArr ds \<Rightarrow> and_then (collect (map (\<lambda>d. decode_struct table d zero) ds)) (\<lambda>ns. Inr (upd (Some ns) r))
      | DNull \<Rightarrow> Inr (upd None r)
      | _ \<Rightarrow> Inl type_error)"

section \<open>Reading back what was written\<close>

lemma find_setter_exact: "map_of table k = Some f \<Longrightarrow> find_setter table k = Some f"
  by (simp add: find_setter_def)

lemma set_string_doc [simp]: "set_string upd (DStr s) r = Inr (upd s r)" "set_string upd DNull r = Inr r"
  by (simp_all add: set_string_def)

lemma set_time_doc [simp]: "year_ok t \<Longrightarrow> set_time upd (DStr (rfc3339 t)) r = Inr (upd t r)"
  by (simp add: set_time_def ParseTime_rfc3339)

lemma set_int_doc [simp]: "int64_ok i \<Longrightarrow> set_int upd (DInt i) r = Inr (upd i r)"
  by (simp add: set_int_def DInt_def ParseInt_show_int)

lemma collect_strings: "collect (map string_of (map DStr ss)) = Inr ss"
  by (induction ss) (simp_all add: string_of_def)

lemma Unmarshal_struct_encode:
  assumes "doc_ok (DObj ms)" "doc_depth (DObj ms) \<le> maxNestingDepth"
  shows "Unmarshal_struct table zero (encode (DObj ms)) =
    set_members table (map (\<lambda>(k, d). (to_valid k, valid_doc d)) ms) zero"
  by (simp add: Unmarshal_struct_def Unmarshal_encode[OF assms] decode_struct_def del: encode.simps)

lemma fold_al_put_distinct:
  assumes "distinct (map fst ps)" "set (map fst acc) \<inter> set (map fst ps) = {}"
  shows "fold (\<lambda>(k, s). al_put k s) ps acc = acc @ ps"
  using assms
proof (induction ps arbitrary: acc)
  case (Cons p ps)
  obtain k s where p: "p = (k, s)" by force
  have "al_put k s acc = acc @ [(k, s)]" using Cons.prems(2) by (induction acc) (auto simp: p)
  then show ?case using Cons.IH[of "acc @ [(k, s)]"] Cons.prems by (auto simp: p)
qed simp

lemma str_map_of_strings:
  assumes "distinct (map fst ps)"
  shows "str_map_of (map (\<lambda>(k, s). (k, DStr s)) ps) = Inr ps"
proof -
  have "collect (map (\<lambda>(k, d). and_then (string_of d) (\<lambda>s. Inr (k, s))) (map (\<lambda>(k, s). (k, DStr s)) ps)) = Inr ps"
    by (induction ps) (auto simp: string_of_def)
  then show ?thesis using fold_al_put_distinct[OF assms, of "[]"] by (simp add: str_map_into_def)
qed

end
