(* ===== verification/Identity_Codec.thy ===== *)
theory Identity_Codec
  imports Identity Json_Decode
begin

text \<open>
  \<^verbatim>\<open>json.Unmarshal\<close> into the structs of \<^verbatim>\<open>identity.go\<close>: the field tables of a public key, a signature, a
  device identity and a possession proof. The relay and the trust root read stored identities and
  access proofs with them.
\<close>

definition public_key_table :: "(string \<times> PublicKey setter) list" where
  "public_key_table =
     [(''kty'', set_string (\<lambda>s k. k\<lparr>PK_KTY := s\<rparr>)), (''use'', set_string (\<lambda>s k. k\<lparr>PK_Use := s\<rparr>)),
      (''kid'', set_string (\<lambda>s k. k\<lparr>PK_KID := s\<rparr>)), (''public'', set_string (\<lambda>s k. k\<lparr>PK_Public := s\<rparr>))]"

definition signature_table :: "(string \<times> Signature setter) list" where
  "signature_table =
     [(''alg'', set_string (\<lambda>s g. g\<lparr>Sig_Alg := s\<rparr>)), (''kid'', set_string (\<lambda>s g. g\<lparr>Sig_KID := s\<rparr>)),
      (''value'', set_string (\<lambda>s g. g\<lparr>Sig_Value := s\<rparr>))]"

definition identity_table :: "(string \<times> DeviceIdentity setter) list" where
  "identity_table =
     [(''type'', set_string (\<lambda>s i. i\<lparr>ID_Type := s\<rparr>)), (''domain_id'', set_string (\<lambda>s i. i\<lparr>ID_DomainID := s\<rparr>)),
      (''device_id'', set_string (\<lambda>s i. i\<lparr>ID_DeviceID := s\<rparr>)),
      (''public_key'', set_struct public_key_table ID_PublicKey (\<lambda>k i. i\<lparr>ID_PublicKey := k\<rparr>)),
      (''created_at'', set_time (\<lambda>t i. i\<lparr>ID_CreatedAt := t\<rparr>)),
      (''metadata'', set_str_map ID_Metadata (\<lambda>m i. i\<lparr>ID_Metadata := m\<rparr>))]"

definition proof_table :: "(string \<times> DeviceProof setter) list" where
  "proof_table =
     [(''type'', set_string (\<lambda>s p. p\<lparr>DP_Type := s\<rparr>)), (''domain_id'', set_string (\<lambda>s p. p\<lparr>DP_DomainID := s\<rparr>)),
      (''device_id'', set_string (\<lambda>s p. p\<lparr>DP_DeviceID := s\<rparr>)), (''audience'', set_string (\<lambda>s p. p\<lparr>DP_Audience := s\<rparr>)),
      (''challenge'', set_string (\<lambda>s p. p\<lparr>DP_Challenge := s\<rparr>)), (''nonce'', set_string (\<lambda>s p. p\<lparr>DP_Nonce := s\<rparr>)),
      (''issued_at'', set_time (\<lambda>t p. p\<lparr>DP_IssuedAt := t\<rparr>)),
      (''signature'', set_struct signature_table DP_Signature (\<lambda>s p. p\<lparr>DP_Signature := s\<rparr>))]"

definition no_public_key :: PublicKey where
  "no_public_key = \<lparr>PK_KTY = [], PK_Use = [], PK_KID = [], PK_Public = []\<rparr>"

definition no_identity :: DeviceIdentity where
  "no_identity = \<lparr>ID_Type = [], ID_DomainID = [], ID_DeviceID = [], ID_PublicKey = no_public_key,
     ID_CreatedAt = 0, ID_Metadata = []\<rparr>"

definition no_proof :: DeviceProof where
  "no_proof = \<lparr>DP_Type = [], DP_DomainID = [], DP_DeviceID = [], DP_Audience = [], DP_Challenge = [], DP_Nonce = [],
     DP_IssuedAt = 0, DP_Signature = no_signature\<rparr>"

definition UnmarshalIdentity :: "bytes \<Rightarrow> DeviceIdentity result" where
  "UnmarshalIdentity = Unmarshal_struct identity_table no_identity"

definition UnmarshalProof :: "bytes \<Rightarrow> DeviceProof result" where
  "UnmarshalProof = Unmarshal_struct proof_table no_proof"

definition MarshalIdentity :: "DeviceIdentity \<Rightarrow> bytes result" where
  "MarshalIdentity ident = json_Marshal (json_object (identity_fields ident))"

definition MarshalProof :: "DeviceProof \<Rightarrow> bytes result" where
  "MarshalProof prf = json_Marshal (json_object (proof_fields prf))"

section \<open>Reading back what was written\<close>

lemma valid_Base64URL: "valid_utf8 (Base64URL b)"
  by (rule valid_ascii) (auto dest!: b64_text_Base64URL simp: b64_text_def b64_value_def Let_def split: if_splits)

definition public_key_valid :: "PublicKey \<Rightarrow> bool" where
  "public_key_valid k \<longleftrightarrow> valid_utf8 (PK_KTY k) \<and> valid_utf8 (PK_Use k) \<and> valid_utf8 (PK_KID k) \<and> valid_utf8 (PK_Public k)"

text \<open>Strings are valid UTF-8 and the metadata, a map, is listed in the order of its keys.\<close>

definition identity_valid :: "DeviceIdentity \<Rightarrow> bool" where
  "identity_valid i \<longleftrightarrow> valid_utf8 (ID_Type i) \<and> valid_utf8 (ID_DomainID i) \<and> valid_utf8 (ID_DeviceID i) \<and>
     public_key_valid (ID_PublicKey i) \<and> year_ok (ID_CreatedAt i) \<and>
     sorted (map fst (ID_Metadata i)) \<and> distinct (map fst (ID_Metadata i)) \<and>
     list_all (\<lambda>(k, v). valid_utf8 k \<and> valid_utf8 v) (ID_Metadata i)"

lemma decode_public_key:
  "public_key_valid k \<Longrightarrow> decode_struct public_key_table (valid_doc (public_key_doc k)) r = Inr k"
  by (simp add: decode_struct_def public_key_doc_def public_key_table_def find_setter_exact public_key_valid_def)

lemma decode_signature:
  "valid_utf8 (Sig_Alg s) \<Longrightarrow> valid_utf8 (Sig_KID s) \<Longrightarrow> valid_utf8 (Sig_Value s) \<Longrightarrow>
   decode_struct signature_table (valid_doc (signature_doc s)) r = Inr s"
  by (simp add: decode_struct_def signature_doc_def signature_table_def find_setter_exact)

lemma str_map_doc_sorted:
  "sorted (map fst m) \<Longrightarrow> str_map_doc m = DObj (map (\<lambda>(k, v). (k, DStr v)) m)"
proof -
  assume s: "sorted (map fst m)"
  have "map fst (map (\<lambda>(k, v). (k, DStr v)) m) = map fst m" by (induction m) auto
  then have "sorted (map fst (map (\<lambda>(k, v). (k, DStr v)) m))" using s by (simp only:)
  then show ?thesis unfolding str_map_doc_def by (simp only: sort_key_id_if_sorted)
qed

lemma metadata_doc:
  assumes "list_all (\<lambda>(k, v). valid_utf8 k \<and> valid_utf8 v) m" "distinct (map fst m)"
  shows "str_map_of (map ((\<lambda>(k, d). (to_valid k, valid_doc d)) \<circ> (\<lambda>(k, v). (k, DStr v))) m) = Inr m"
proof -
  have "map ((\<lambda>(k, d). (to_valid k, valid_doc d)) \<circ> (\<lambda>(k, v). (k, DStr v))) m = map (\<lambda>(k, v). (k, DStr v)) m"
    using assms(1) by (induction m) auto
  then show ?thesis by (simp only: str_map_of_strings[OF assms(2)])
qed

lemma doc_depth_map: "foldr max (map (\<lambda>(k, d). doc_depth d) (map (\<lambda>(k, v). (k, DStr v)) m)) 0 = 0"
  by (induction m) auto

text \<open>The members of a valid identity and of a valid proof, as documents.\<close>

definition identity_docs :: "DeviceIdentity \<Rightarrow> (string \<times> jdoc) list" where
  "identity_docs i =
     [(''type'', DStr (ID_Type i)), (''domain_id'', DStr (ID_DomainID i)), (''device_id'', DStr (ID_DeviceID i)),
      (''public_key'', public_key_doc (ID_PublicKey i)), (''created_at'', DStr (rfc3339 (ID_CreatedAt i)))] @
     (if ID_Metadata i = [] then [] else [(''metadata'', DObj (map (\<lambda>(k, v). (k, DStr v)) (ID_Metadata i)))])"

lemma identity_docs_ok: "doc_ok (DObj (identity_docs i))"
  by (auto simp: identity_docs_def public_key_doc_def)

lemma identity_docs_depth: "doc_depth (DObj (identity_docs i)) \<le> 2"
  using doc_depth_map[of "ID_Metadata i"] by (simp add: identity_docs_def public_key_doc_def)

lemma MarshalIdentity_docs:
  assumes "identity_valid i"
  shows "MarshalIdentity i = Inr (encode (DObj (identity_docs i)))"
proof -
  have "identity_fields i = map (\<lambda>(k, d). (k, Inr d)) (identity_docs i)"
    using assms by (simp add: identity_valid_def identity_fields_def identity_docs_def omit_if_def time_doc_ok str_map_doc_sorted)
  then show ?thesis unfolding MarshalIdentity_def by (simp only: json_object_map json_Marshal_def and_then_simps)
qed

lemma decode_identity:
  assumes "identity_valid i"
  shows "set_members identity_table (map (\<lambda>(k, d). (to_valid k, valid_doc d)) (identity_docs i)) no_identity = Inr i"
proof -
  note v = assms[unfolded identity_valid_def]
  have tv: "to_valid (rfc3339 (ID_CreatedAt i)) = rfc3339 (ID_CreatedAt i)" using v by (simp add: rfc3339_ascii)
  show ?thesis
    using v metadata_doc[of "ID_Metadata i"] tv
    by (cases i) (simp add: identity_docs_def find_setter_exact identity_table_def no_identity_def set_struct_def decode_public_key
        set_str_map_def)
qed

definition proof_valid :: "DeviceProof \<Rightarrow> bool" where
  "proof_valid p \<longleftrightarrow> proof_strings_valid p \<and> year_ok (DP_IssuedAt p) \<and> valid_utf8 (Sig_Alg (DP_Signature p)) \<and>
     valid_utf8 (Sig_KID (DP_Signature p)) \<and> valid_utf8 (Sig_Value (DP_Signature p))"

definition proof_docs :: "DeviceProof \<Rightarrow> (string \<times> jdoc) list" where
  "proof_docs p =
     [(''type'', DStr (DP_Type p)), (''domain_id'', DStr (DP_DomainID p)), (''device_id'', DStr (DP_DeviceID p)),
      (''audience'', DStr (DP_Audience p)), (''challenge'', DStr (DP_Challenge p)), (''nonce'', DStr (DP_Nonce p)),
      (''issued_at'', DStr (rfc3339 (DP_IssuedAt p))), (''signature'', signature_doc (DP_Signature p))]"

lemma proof_docs_ok: "doc_ok (DObj (proof_docs p))"
  by (auto simp: proof_docs_def signature_doc_def)

lemma proof_docs_depth: "doc_depth (DObj (proof_docs p)) \<le> 2"
  by (simp add: proof_docs_def signature_doc_def)

lemma MarshalProof_docs:
  assumes "proof_valid p"
  shows "MarshalProof p = Inr (encode (DObj (proof_docs p)))"
proof -
  have "proof_fields p = map (\<lambda>(k, d). (k, Inr d)) (proof_docs p)"
    using assms by (simp add: proof_valid_def proof_fields_def proof_docs_def time_doc_ok)
  then show ?thesis unfolding MarshalProof_def by (simp only: json_object_map json_Marshal_def and_then_simps)
qed

lemma decode_proof:
  assumes "proof_valid p"
  shows "set_members proof_table (map (\<lambda>(k, d). (to_valid k, valid_doc d)) (proof_docs p)) no_proof = Inr p"
proof -
  note v = assms[unfolded proof_valid_def proof_strings_valid_def]
  have tv: "to_valid (rfc3339 (DP_IssuedAt p)) = rfc3339 (DP_IssuedAt p)" using v by (simp add: rfc3339_ascii)
  show ?thesis
    using v tv by (cases p) (simp add: proof_docs_def find_setter_exact proof_table_def no_proof_def set_struct_def decode_signature)
qed

lemma Marshal_identity:
  assumes "identity_valid i"
  obtains ds where "MarshalIdentity i = Inr (encode (DObj ds))" "doc_ok (DObj ds)" "doc_depth (DObj ds) \<le> maxNestingDepth"
    "set_members identity_table (map (\<lambda>(k, d). (to_valid k, valid_doc d)) ds) no_identity = Inr i"
  using that[OF MarshalIdentity_docs identity_docs_ok _ decode_identity] assms identity_docs_depth[of i] by (simp add: maxNestingDepth_def)

lemma Marshal_proof:
  assumes "proof_valid p"
  obtains ds where "MarshalProof p = Inr (encode (DObj ds))" "doc_ok (DObj ds)" "doc_depth (DObj ds) \<le> maxNestingDepth"
    "set_members proof_table (map (\<lambda>(k, d). (to_valid k, valid_doc d)) ds) no_proof = Inr p"
  using that[OF MarshalProof_docs proof_docs_ok _ decode_proof] assms proof_docs_depth[of p] by (simp add: maxNestingDepth_def)

section \<open>Properties\<close>

text \<open>
  Identities and possession proofs survive JSON: what \<^verbatim>\<open>json.Marshal\<close> writes, \<^verbatim>\<open>json.Unmarshal\<close> reads back as the
  same identity or proof, signature and instants included.
\<close>

theorem identity_proof_roundtrip:
  assumes "identity_valid i" "proof_valid p"
  shows "and_then (MarshalIdentity i) UnmarshalIdentity = Inr i \<and> and_then (MarshalProof p) UnmarshalProof = Inr p"
proof -
  obtain ds where "MarshalIdentity i = Inr (encode (DObj ds))" "doc_ok (DObj ds)" "doc_depth (DObj ds) \<le> maxNestingDepth"
    "set_members identity_table (map (\<lambda>(k, d). (to_valid k, valid_doc d)) ds) no_identity = Inr i"
    using assms(1) by (rule Marshal_identity)
  moreover obtain es where "MarshalProof p = Inr (encode (DObj es))" "doc_ok (DObj es)" "doc_depth (DObj es) \<le> maxNestingDepth"
    "set_members proof_table (map (\<lambda>(k, d). (to_valid k, valid_doc d)) es) no_proof = Inr p"
    using assms(2) by (rule Marshal_proof)
  ultimately show ?thesis
    by (simp add: UnmarshalIdentity_def UnmarshalProof_def Unmarshal_struct_encode del: encode.simps doc_ok.simps doc_depth.simps)
qed

definition sample_identity :: DeviceIdentity where
  "sample_identity = \<lparr>ID_Type = TypeDeviceIdentity, ID_DomainID = ''dom'', ID_DeviceID = ''phone'',
     ID_PublicKey = \<lparr>PK_KTY = ''Ed25519'', PK_Use = ''identity-signature'', PK_KID = ''kid'', PK_Public = ''AAAA''\<rparr>,
     ID_CreatedAt = 0, ID_Metadata = [(''model'', ''x''), (''os'', ''y'')]\<rparr>"

theorem identity_proof_roundtrip_witness:
  "and_then (MarshalIdentity sample_identity) UnmarshalIdentity = Inr sample_identity"
proof -
  have y: "year_ok 0" by code_simp
  have "sorted (map fst (ID_Metadata sample_identity))" "distinct (map fst (ID_Metadata sample_identity))" by code_simp+
  then have i: "identity_valid sample_identity"
    using y by (simp add: identity_valid_def public_key_valid_def sample_identity_def TypeDeviceIdentity_def)
  have p: "proof_valid no_proof"
    using y by (simp add: proof_valid_def proof_strings_valid_def no_proof_def no_signature_def)
  from identity_proof_roundtrip[OF i p] show ?thesis by blast
qed

end
