(* ===== verification/Descriptor.thy ===== *)
theory Descriptor
  imports Identity_Codec Config
begin

text \<open>
  \<^verbatim>\<open>pkg/iscp/descriptor/descriptor.go\<close>: signed relay and trust root descriptors. \<^verbatim>\<open>Sign\<close> takes any value; its
  argument here is the document that \<^verbatim>\<open>json.Marshal\<close> makes of the value.
\<close>

section \<open>Descriptors\<close>

definition TypeSignedDescriptor :: string where "TypeSignedDescriptor = ''iscp.signed_descriptor.v2''"
definition relay_type :: string where "relay_type = ''iscp.relay.descriptor.v2''"
definition trust_root_type :: string where "trust_root_type = ''iscp.trust_root.descriptor.v2''"

record DescriptorKey =
  DK_KTY :: string
  DK_Use :: string
  DK_KID :: string
  DK_Public :: string
  DK_State :: string

record RelayDescriptor =
  RD_Type :: string
  RD_RelayID :: string
  RD_DomainID :: string
  RD_BaseURL :: string
  RD_WebSocketURL :: string
  RD_SigningKeys :: "DescriptorKey list option"
  RD_IssuedAt :: time
  RD_ExpiresAt :: time
  RD_Metadata :: "(string \<times> string) list"

record TrustRootDescriptor =
  TD_Type :: string
  TD_TrustRootID :: string
  TD_DomainID :: string
  TD_BaseURL :: string
  TD_Keys :: "DescriptorKey list option"
  TD_IssuedAt :: time
  TD_ExpiresAt :: time
  TD_Metadata :: "(string \<times> string) list"

record SignedDescriptor =
  SD_Type :: string
  SD_DescriptorType :: string
  SD_Descriptor :: raw
  SD_SignedBy :: string
  SD_SignedAt :: time
  SD_Signature :: Signature

definition key_doc :: "DescriptorKey \<Rightarrow> jdoc" where
  "key_doc k = DObj ([(''kty'', DStr (DK_KTY k)), (''use'', DStr (DK_Use k)), (''kid'', DStr (DK_KID k)),
     (''public'', DStr (DK_Public k))] @ (if DK_State k = [] then [] else [(''state'', DStr (DK_State k))]))"

definition keys_doc :: "DescriptorKey list option \<Rightarrow> jdoc" where
  "keys_doc ks = (case ks of None \<Rightarrow> DNull | Some l \<Rightarrow> DArr (map key_doc l))"

definition relay_fields :: "RelayDescriptor \<Rightarrow> (string \<times> jdoc result) list" where
  "relay_fields r =
     [(''type'', Inr (DStr (RD_Type r))), (''relay_id'', Inr (DStr (RD_RelayID r))),
      (''domain_id'', Inr (DStr (RD_DomainID r))), (''base_url'', Inr (DStr (RD_BaseURL r))),
      (''websocket_url'', Inr (DStr (RD_WebSocketURL r))), (''signing_keys'', Inr (keys_doc (RD_SigningKeys r))),
      (''issued_at'', time_doc (RD_IssuedAt r)), (''expires_at'', time_doc (RD_ExpiresAt r))] @
     omit_if (RD_Metadata r = []) (''metadata'', Inr (str_map_doc (RD_Metadata r)))"

definition trust_root_fields :: "TrustRootDescriptor \<Rightarrow> (string \<times> jdoc result) list" where
  "trust_root_fields r =
     [(''type'', Inr (DStr (TD_Type r))), (''trust_root_id'', Inr (DStr (TD_TrustRootID r))),
      (''domain_id'', Inr (DStr (TD_DomainID r))), (''base_url'', Inr (DStr (TD_BaseURL r))),
      (''keys'', Inr (keys_doc (TD_Keys r))),
      (''issued_at'', time_doc (TD_IssuedAt r)), (''expires_at'', time_doc (TD_ExpiresAt r))] @
     omit_if (TD_Metadata r = []) (''metadata'', Inr (str_map_doc (TD_Metadata r)))"

definition key_table :: "(string \<times> DescriptorKey setter) list" where
  "key_table =
     [(''kty'', set_string (\<lambda>s k. k\<lparr>DK_KTY := s\<rparr>)), (''use'', set_string (\<lambda>s k. k\<lparr>DK_Use := s\<rparr>)),
      (''kid'', set_string (\<lambda>s k. k\<lparr>DK_KID := s\<rparr>)), (''public'', set_string (\<lambda>s k. k\<lparr>DK_Public := s\<rparr>)),
      (''state'', set_string (\<lambda>s k. k\<lparr>DK_State := s\<rparr>))]"

definition no_key :: DescriptorKey where
  "no_key = \<lparr>DK_KTY = [], DK_Use = [], DK_KID = [], DK_Public = [], DK_State = []\<rparr>"

definition relay_table :: "(string \<times> RelayDescriptor setter) list" where
  "relay_table =
     [(''type'', set_string (\<lambda>s r. r\<lparr>RD_Type := s\<rparr>)), (''relay_id'', set_string (\<lambda>s r. r\<lparr>RD_RelayID := s\<rparr>)),
      (''domain_id'', set_string (\<lambda>s r. r\<lparr>RD_DomainID := s\<rparr>)), (''base_url'', set_string (\<lambda>s r. r\<lparr>RD_BaseURL := s\<rparr>)),
      (''websocket_url'', set_string (\<lambda>s r. r\<lparr>RD_WebSocketURL := s\<rparr>)),
      (''signing_keys'', set_structs key_table no_key (\<lambda>ks r. r\<lparr>RD_SigningKeys := ks\<rparr>)),
      (''issued_at'', set_time (\<lambda>t r. r\<lparr>RD_IssuedAt := t\<rparr>)), (''expires_at'', set_time (\<lambda>t r. r\<lparr>RD_ExpiresAt := t\<rparr>)),
      (''metadata'', set_str_map RD_Metadata (\<lambda>m r. r\<lparr>RD_Metadata := m\<rparr>))]"

definition trust_root_table :: "(string \<times> TrustRootDescriptor setter) list" where
  "trust_root_table =
     [(''type'', set_string (\<lambda>s r. r\<lparr>TD_Type := s\<rparr>)), (''trust_root_id'', set_string (\<lambda>s r. r\<lparr>TD_TrustRootID := s\<rparr>)),
      (''domain_id'', set_string (\<lambda>s r. r\<lparr>TD_DomainID := s\<rparr>)), (''base_url'', set_string (\<lambda>s r. r\<lparr>TD_BaseURL := s\<rparr>)),
      (''keys'', set_structs key_table no_key (\<lambda>ks r. r\<lparr>TD_Keys := ks\<rparr>)),
      (''issued_at'', set_time (\<lambda>t r. r\<lparr>TD_IssuedAt := t\<rparr>)), (''expires_at'', set_time (\<lambda>t r. r\<lparr>TD_ExpiresAt := t\<rparr>)),
      (''metadata'', set_str_map TD_Metadata (\<lambda>m r. r\<lparr>TD_Metadata := m\<rparr>))]"

definition no_relay :: RelayDescriptor where
  "no_relay = \<lparr>RD_Type = [], RD_RelayID = [], RD_DomainID = [], RD_BaseURL = [], RD_WebSocketURL = [],
     RD_SigningKeys = None, RD_IssuedAt = 0, RD_ExpiresAt = 0, RD_Metadata = []\<rparr>"

definition no_trust_root :: TrustRootDescriptor where
  "no_trust_root = \<lparr>TD_Type = [], TD_TrustRootID = [], TD_DomainID = [], TD_BaseURL = [], TD_Keys = None,
     TD_IssuedAt = 0, TD_ExpiresAt = 0, TD_Metadata = []\<rparr>"

definition descriptor_fields :: "SignedDescriptor \<Rightarrow> (string \<times> jdoc result) list" where
  "descriptor_fields sd =
     [(''type'', Inr (DStr (SD_Type sd))), (''descriptor_type'', Inr (DStr (SD_DescriptorType sd))),
      (''descriptor'', raw_doc (SD_Descriptor sd)), (''signed_by'', Inr (DStr (SD_SignedBy sd))),
      (''signed_at'', time_doc (SD_SignedAt sd)), (''signature'', Inr (signature_doc (SD_Signature sd)))]"

definition descriptor_input :: "SignedDescriptor \<Rightarrow> bytes result" where
  "descriptor_input sd = signature_input TypeSignedDescriptor (json_object (descriptor_fields sd))"

section \<open>Operations\<close>

definition Sign :: "prims \<Rightarrow> Device \<Rightarrow> string \<Rightarrow> jdoc result \<Rightarrow> time \<Rightarrow> SignedDescriptor result" where
  "Sign P signer descriptorType descriptor now =
     and_then (json_Marshal descriptor) (\<lambda>raw.
     let sd = \<lparr>SD_Type = TypeSignedDescriptor, SD_DescriptorType = descriptorType, SD_Descriptor = Some raw,
           SD_SignedBy = ID_DeviceID (Dev_Identity signer), SD_SignedAt = now, SD_Signature = no_signature\<rparr> in
     and_then (descriptor_input sd) (\<lambda>input. Inr (sd\<lparr>SD_Signature := make_signature P signer input\<rparr>)))"

text \<open>The bytes \<^verbatim>\<open>json.Unmarshal\<close> gets from a raw message; a nil one is empty.\<close>

definition raw_bytes :: "raw \<Rightarrow> bytes" where
  "raw_bytes m = (case m of None \<Rightarrow> [] | Some b \<Rightarrow> b)"

definition Verify :: "prims \<Rightarrow> SignedDescriptor \<Rightarrow> DeviceIdentity \<Rightarrow> Gate \<Rightarrow> time \<Rightarrow> unit result" where
  "Verify P sd signer gate now =
     and_then (ValidateGate gate) (\<lambda>_.
     if Sig_Value (SD_Signature sd) = [] then
       (if G_RequireSignedDescriptors gate \<or> \<not> G_AllowUnsignedDescriptor gate
        then reject CodeSignatureInvalid ''unsigned descriptor rejected'' else Inr ())
     else and_then (check_signature P signer (SD_Signature sd) (descriptor_input (sd\<lparr>SD_Signature := no_signature\<rparr>))
            (errors_New CodeSignatureInvalid ''descriptor signature verification failed'')) (\<lambda>_.
       if SD_DescriptorType sd = relay_type then
         and_then (Unmarshal_struct relay_table no_relay (raw_bytes (SD_Descriptor sd))) (\<lambda>relay.
           fail_if (After now (RD_ExpiresAt relay)) (errors_New CodeSignatureInvalid ''descriptor expired'') (Inr ()))
       else if SD_DescriptorType sd = trust_root_type then
         and_then (Unmarshal_struct trust_root_table no_trust_root (raw_bytes (SD_Descriptor sd))) (\<lambda>trust.
           fail_if (After now (TD_ExpiresAt trust)) (errors_New CodeSignatureInvalid ''descriptor expired'') (Inr ()))
       else reject CodeSignatureInvalid ''unsupported descriptor type''))"

definition Pin :: "prims \<Rightarrow> SignedDescriptor \<Rightarrow> string result" where
  "Pin P sd = and_then (Marshal (raw_bytes (SD_Descriptor sd))) (\<lambda>canon. Inr (Base64URL (sha256 P canon)))"

interpretation descriptor_sig: signed_object SD_Signature "\<lambda>s sd. sd\<lparr>SD_Signature := s\<rparr>" descriptor_input
  by unfold_locales simp_all

section \<open>Reading back a descriptor\<close>

definition key_valid :: "DescriptorKey \<Rightarrow> bool" where
  "key_valid k \<longleftrightarrow> valid_utf8 (DK_KTY k) \<and> valid_utf8 (DK_Use k) \<and> valid_utf8 (DK_KID k) \<and> valid_utf8 (DK_Public k) \<and> valid_utf8 (DK_State k)"

definition metadata_valid :: "(string \<times> string) list \<Rightarrow> bool" where
  "metadata_valid m \<longleftrightarrow> sorted (map fst m) \<and> distinct (map fst m) \<and> list_all (\<lambda>(k, v). valid_utf8 k \<and> valid_utf8 v) m"

definition relay_valid :: "RelayDescriptor \<Rightarrow> bool" where
  "relay_valid r \<longleftrightarrow> valid_utf8 (RD_Type r) \<and> valid_utf8 (RD_RelayID r) \<and> valid_utf8 (RD_DomainID r) \<and> valid_utf8 (RD_BaseURL r) \<and>
     valid_utf8 (RD_WebSocketURL r) \<and> list_all key_valid (elems (RD_SigningKeys r)) \<and> year_ok (RD_IssuedAt r) \<and>
     year_ok (RD_ExpiresAt r) \<and> metadata_valid (RD_Metadata r)"

lemma decode_key: "key_valid k \<Longrightarrow> decode_struct key_table (valid_doc (key_doc k)) no_key = Inr k"
  by (cases k) (simp add: decode_struct_def key_doc_def key_table_def find_setter_exact key_valid_def no_key_def)

lemma decode_keys:
  "list_all key_valid (elems ks) \<Longrightarrow> set_structs key_table no_key upd (valid_doc (keys_doc ks)) r = Inr (upd ks r)"
proof (cases ks)
  case (Some l)
  assume "list_all key_valid (elems ks)"
  then have "collect (map (\<lambda>d. decode_struct key_table d no_key) (map valid_doc (map key_doc l))) = Inr l"
    unfolding Some by (induction l) (simp_all add: decode_key)
  with Some show ?thesis by (simp add: set_structs_def keys_doc_def)
qed (simp add: set_structs_def keys_doc_def)

lemma keys_doc_ok: "doc_ok (keys_doc ks)" "doc_depth (keys_doc ks) \<le> 2"
proof -
  show "doc_ok (keys_doc ks)" by (auto simp: keys_doc_def key_doc_def split: option.splits)
  have k: "doc_depth (key_doc k) = 1" for k by (simp add: key_doc_def)
  have "foldr max (map doc_depth (map key_doc l)) 0 \<le> 1" for l by (induction l) (auto simp: k)
  then show "doc_depth (keys_doc ks) \<le> 2" by (auto simp: keys_doc_def split: option.splits)
qed

definition relay_doc :: "RelayDescriptor \<Rightarrow> jdoc" where
  "relay_doc r = DObj ([(''type'', DStr (RD_Type r)), (''relay_id'', DStr (RD_RelayID r)), (''domain_id'', DStr (RD_DomainID r)),
     (''base_url'', DStr (RD_BaseURL r)), (''websocket_url'', DStr (RD_WebSocketURL r)), (''signing_keys'', keys_doc (RD_SigningKeys r)),
     (''issued_at'', DStr (rfc3339 (RD_IssuedAt r))), (''expires_at'', DStr (rfc3339 (RD_ExpiresAt r)))] @
     (if RD_Metadata r = [] then [] else [(''metadata'', DObj (map (\<lambda>(k, v). (k, DStr v)) (RD_Metadata r)))]))"

lemma relay_doc_marshal:
  assumes "relay_valid r"
  shows "json_object (relay_fields r) = Inr (relay_doc r)"
proof -
  have "relay_fields r = map (\<lambda>(k, d). (k, Inr d)) ([(''type'', DStr (RD_Type r)), (''relay_id'', DStr (RD_RelayID r)), (''domain_id'', DStr (RD_DomainID r)),
     (''base_url'', DStr (RD_BaseURL r)), (''websocket_url'', DStr (RD_WebSocketURL r)), (''signing_keys'', keys_doc (RD_SigningKeys r)),
     (''issued_at'', DStr (rfc3339 (RD_IssuedAt r))), (''expires_at'', DStr (rfc3339 (RD_ExpiresAt r)))] @
     (if RD_Metadata r = [] then [] else [(''metadata'', DObj (map (\<lambda>(k, v). (k, DStr v)) (RD_Metadata r)))]))"
    using assms by (simp add: relay_fields_def omit_if_def time_doc_ok str_map_doc_sorted relay_valid_def metadata_valid_def)
  then show ?thesis by (simp only: json_object_map relay_doc_def)
qed

lemma relay_doc_shape: "doc_ok (relay_doc r)" "doc_depth (relay_doc r) \<le> maxNestingDepth"
  using keys_doc_ok[of "RD_SigningKeys r"] doc_depth_map[of "RD_Metadata r"]
  by (auto simp: relay_doc_def maxNestingDepth_def)

lemma relay_roundtrip:
  assumes "relay_valid r"
  shows "Unmarshal_struct relay_table no_relay (encode (relay_doc r)) = Inr r"
proof -
  note v = assms[unfolded relay_valid_def metadata_valid_def]
  have "decode_struct relay_table (valid_doc (relay_doc r)) no_relay = Inr r"
    using v metadata_doc[of "RD_Metadata r"] rfc3339_ascii
    by (cases r) (simp add: decode_keys relay_doc_def decode_struct_def find_setter_exact relay_table_def no_relay_def set_str_map_def)
  then show ?thesis
    using Unmarshal_encode[OF relay_doc_shape] by (simp add: Unmarshal_struct_def)
qed

definition trust_root_valid :: "TrustRootDescriptor \<Rightarrow> bool" where
  "trust_root_valid r \<longleftrightarrow> valid_utf8 (TD_Type r) \<and> valid_utf8 (TD_TrustRootID r) \<and> valid_utf8 (TD_DomainID r) \<and> valid_utf8 (TD_BaseURL r) \<and>
     list_all key_valid (elems (TD_Keys r)) \<and> year_ok (TD_IssuedAt r) \<and> year_ok (TD_ExpiresAt r) \<and> metadata_valid (TD_Metadata r)"

definition trust_root_docs :: "TrustRootDescriptor \<Rightarrow> (string \<times> jdoc) list" where
  "trust_root_docs r = [(''type'', DStr (TD_Type r)), (''trust_root_id'', DStr (TD_TrustRootID r)), (''domain_id'', DStr (TD_DomainID r)),
     (''base_url'', DStr (TD_BaseURL r)), (''keys'', keys_doc (TD_Keys r)),
     (''issued_at'', DStr (rfc3339 (TD_IssuedAt r))), (''expires_at'', DStr (rfc3339 (TD_ExpiresAt r)))] @
     (if TD_Metadata r = [] then [] else [(''metadata'', DObj (map (\<lambda>(k, v). (k, DStr v)) (TD_Metadata r)))])"

lemma trust_root_doc_marshal:
  assumes "trust_root_valid r"
  shows "json_object (trust_root_fields r) = Inr (DObj (trust_root_docs r))"
proof -
  have "trust_root_fields r = map (\<lambda>(k, d). (k, Inr d)) (trust_root_docs r)"
    using assms by (simp add: trust_root_fields_def trust_root_docs_def omit_if_def time_doc_ok str_map_doc_sorted trust_root_valid_def metadata_valid_def)
  then show ?thesis by (simp only: json_object_map)
qed

lemma trust_root_doc_shape: "doc_ok (DObj (trust_root_docs r))" "doc_depth (DObj (trust_root_docs r)) \<le> maxNestingDepth"
  using keys_doc_ok[of "TD_Keys r"] doc_depth_map[of "TD_Metadata r"]
  by (auto simp: trust_root_docs_def maxNestingDepth_def)

lemma trust_root_roundtrip:
  assumes "trust_root_valid r"
  shows "Unmarshal_struct trust_root_table no_trust_root (encode (DObj (trust_root_docs r))) = Inr r"
proof -
  note v = assms[unfolded trust_root_valid_def metadata_valid_def]
  have "decode_struct trust_root_table (valid_doc (DObj (trust_root_docs r))) no_trust_root = Inr r"
    using v metadata_doc[of "TD_Metadata r"] rfc3339_ascii
    by (cases r) (simp add: decode_keys trust_root_docs_def decode_struct_def find_setter_exact trust_root_table_def no_trust_root_def set_str_map_def)
  then show ?thesis
    using Unmarshal_encode[OF trust_root_doc_shape] by (simp add: Unmarshal_struct_def)
qed

section \<open>Signing\<close>

lemma key_doc_fine: "is_ok (doc_value (key_doc k))"
  unfolding key_doc_def by (subst struct_value) (auto simp: struct_ok_def)

lemma keys_doc_fine: "is_ok (doc_value (keys_doc ks))"
proof (cases ks)
  case (Some l)
  have "\<exists>vs. collect (map doc_value (map key_doc l)) = Inr vs"
    by (rule collect_ok) (use key_doc_fine in \<open>auto simp: is_ok_iff\<close>)
  then show ?thesis by (auto simp: Some keys_doc_def)
qed (simp add: keys_doc_def)

lemma valid_keys_doc: "list_all key_valid (elems ks) \<Longrightarrow> valid_doc (keys_doc ks) = keys_doc ks"
  by (cases ks) (auto simp: keys_doc_def key_doc_def key_valid_def list_all_iff)

text \<open>A descriptor without metadata signs, and has a pin.\<close>

lemma relay_fine:
  assumes "relay_valid r" "RD_Metadata r = []"
  shows "fields_fine (relay_fields r)"
  using assms keys_doc_ok(1) keys_doc_fine
  by (auto simp: fields_fine_def relay_fields_def omit_if_def relay_valid_def time_doc_ok)

lemma relay_doc_fine:
  assumes "relay_valid r" "RD_Metadata r = []"
  shows "is_ok (doc_value (relay_doc r))" "valid_doc (relay_doc r) = relay_doc r"
proof -
  obtain ds where ds: "relay_fields r = map (\<lambda>(k, d). (k, Inr d)) ds" "struct_ok ds"
    using relay_fine[OF assms] by (rule fields_fine_docs)
  have "DObj ds = relay_doc r" using relay_doc_marshal[OF assms(1)] by (simp add: ds(1) json_object_map)
  then show "is_ok (doc_value (relay_doc r))" using struct_value[OF ds(2)] by (metis is_ok_simps(1))
  show "valid_doc (relay_doc r) = relay_doc r"
    using assms rfc3339_ascii by (simp add: relay_doc_def relay_valid_def valid_keys_doc)
qed

text \<open>A valid document signs, and has a pin.\<close>

lemma doc_signs:
  assumes "doc_ok doc" "doc_depth doc \<le> maxNestingDepth" "valid_doc doc = doc" "doc_value doc = Inr v" "year_ok now"
  shows "\<exists>sd. Sign P d ty (Inr doc) now = Inr sd \<and> SD_DescriptorType sd = ty \<and> SD_Descriptor sd = Some (encode doc)"
proof -
  let ?sd = "\<lparr>SD_Type = TypeSignedDescriptor, SD_DescriptorType = ty, SD_Descriptor = Some (encode doc),
      SD_SignedBy = ID_DeviceID (Dev_Identity d), SD_SignedAt = now, SD_Signature = no_signature\<rparr>"
  have "raw_doc (Some (encode doc)) = Inr doc" using raw_encode[OF assms(1,2)] assms(3) by simp
  then have "fields_fine (descriptor_fields ?sd)"
    using assms(1,4,5) by (auto simp: fields_fine_def descriptor_fields_def time_doc_ok)
  then obtain x where "descriptor_input ?sd = Inr x" unfolding descriptor_input_def using signature_input_ok by blast
  then show ?thesis by (simp add: Sign_def json_Marshal_def Let_def)
qed

lemma fields_pin:
  assumes "fields_fine fs" "json_object fs = Inr doc" "SD_Descriptor sd = Some (encode doc)"
  shows "\<exists>pin. Pin P sd = Inr pin"
  using canonical_json_ok[OF assms(1)] assms(2,3) by (auto simp: canonical_json_def json_Marshal_def Pin_def raw_bytes_def)

lemma relay_signs:
  assumes "relay_valid r" "RD_Metadata r = []" "year_ok now"
  shows "\<exists>sd. Sign P d ty (json_object (relay_fields r)) now = Inr sd \<and> SD_DescriptorType sd = ty \<and> (\<exists>pin. Pin P sd = Inr pin)"
proof -
  note m = relay_doc_marshal[OF assms(1)]
  obtain v where v: "doc_value (relay_doc r) = Inr v" using relay_doc_fine(1)[OF assms(1,2)] by (auto simp: is_ok_iff)
  obtain sd where "Sign P d ty (Inr (relay_doc r)) now = Inr sd" "SD_DescriptorType sd = ty" "SD_Descriptor sd = Some (encode (relay_doc r))"
    using doc_signs[OF relay_doc_shape relay_doc_fine(2)[OF assms(1,2)] v assms(3)] by blast
  with fields_pin[OF relay_fine[OF assms(1,2)] m] show ?thesis unfolding m by blast
qed

lemma trust_root_fine:
  assumes "trust_root_valid r" "TD_Metadata r = []"
  shows "fields_fine (trust_root_fields r)"
  using assms keys_doc_ok(1) keys_doc_fine
  by (auto simp: fields_fine_def trust_root_fields_def omit_if_def trust_root_valid_def time_doc_ok)

lemma trust_root_signs:
  assumes "trust_root_valid r" "TD_Metadata r = []" "year_ok now"
  shows "\<exists>sd. Sign P d ty (json_object (trust_root_fields r)) now = Inr sd \<and> SD_DescriptorType sd = ty \<and> (\<exists>pin. Pin P sd = Inr pin)"
proof -
  note m = trust_root_doc_marshal[OF assms(1)] and f = trust_root_fine[OF assms(1,2)]
  obtain ds where ds: "trust_root_fields r = map (\<lambda>(k, d). (k, Inr d)) ds" "struct_ok ds" using f by (rule fields_fine_docs)
  have "ds = trust_root_docs r" using m by (simp add: ds(1) json_object_map)
  then have "struct_ok (trust_root_docs r)" using ds(2) by simp
  moreover have "valid_doc (DObj (trust_root_docs r)) = DObj (trust_root_docs r)"
    using assms rfc3339_ascii by (simp add: trust_root_docs_def trust_root_valid_def valid_keys_doc)
  ultimately obtain sd where "Sign P d ty (Inr (DObj (trust_root_docs r))) now = Inr sd" "SD_DescriptorType sd = ty"
    "SD_Descriptor sd = Some (encode (DObj (trust_root_docs r)))"
    using doc_signs[OF trust_root_doc_shape _ struct_value assms(3), of r] by blast
  with fields_pin[OF f m] show ?thesis unfolding m by blast
qed

section \<open>Properties\<close>

text \<open>A signature is never empty (an Ed25519 signature has 64 bytes).\<close>

definition signs_nonempty :: "prims \<Rightarrow> bool" where
  "signs_nonempty P \<longleftrightarrow> (\<forall>k m. length k = 64 \<longrightarrow> ed_sign P k m \<noteq> [])"

lemma model_signs: "signs_nonempty model_prims"
  by (auto simp: signs_nonempty_def model_prims_def)

lemma Base64URL_nonempty: "x \<noteq> [] \<Longrightarrow> Base64URL x \<noteq> []"
proof
  assume "x \<noteq> []" "Base64URL x = []"
  have "DecodeBase64URL (Base64URL x) = Inr x" by simp
  moreover have "DecodeBase64URL (Base64URL []) = Inr []" by simp
  moreover have "Base64URL [] = []" by code_simp
  ultimately show False using \<open>Base64URL x = []\<close> \<open>x \<noteq> []\<close> by simp
qed

lemma Sign_Verify_doc:
  assumes "sig_correct P" "signs_nonempty P" "device_ok P d" "Sign P d ty (Inr doc) signedAt = Inr sd"
  shows "Verify P sd (Dev_Identity d) gate now = Inr () \<longleftrightarrow> ValidateGate gate = Inr () \<and>
    (if ty = relay_type then \<exists>r. Unmarshal_struct relay_table no_relay (encode doc) = Inr r \<and> now \<le> RD_ExpiresAt r
     else ty = trust_root_type \<and> (\<exists>r. Unmarshal_struct trust_root_table no_trust_root (encode doc) = Inr r \<and> now \<le> TD_ExpiresAt r))"
proof -
  let ?sd = "\<lparr>SD_Type = TypeSignedDescriptor, SD_DescriptorType = ty, SD_Descriptor = Some (encode doc),
     SD_SignedBy = ID_DeviceID (Dev_Identity d), SD_SignedAt = signedAt, SD_Signature = no_signature\<rparr>"
  obtain m where m: "descriptor_input (?sd\<lparr>SD_Signature := no_signature\<rparr>) = Inr m" "sd = ?sd\<lparr>SD_Signature := make_signature P d m\<rparr>"
    using assms(4) by (auto simp: Sign_def json_Marshal_def Let_def and_then_Inr_iff)
  note sig = descriptor_sig.signed_checks[OF assms(1,3) m]
  have "ed_sign P (priv_key (Dev_Private d)) m \<noteq> []"
    using assms(2,3) by (simp add: signs_nonempty_def device_ok_def)
  then have "Sig_Value (SD_Signature sd) \<noteq> []"
    using Base64URL_nonempty by (simp add: m(2) make_signature_def Provider_Sign_def)
  with sig show ?thesis
    by (auto simp: Verify_def and_then_Inr_iff m(2) raw_bytes_def After_def fail_if_Inr_iff not_less)
qed

lemma types_differ: "relay_type \<noteq> trust_root_type"
  by (simp add: relay_type_def trust_root_type_def)

lemma Sign_Verify_relay:
  assumes "sig_correct P" "signs_nonempty P" "device_ok P d" "relay_valid r"
    and "Sign P d relay_type (json_object (relay_fields r)) signedAt = Inr sd"
  shows "Verify P sd (Dev_Identity d) gate now = Inr () \<longleftrightarrow> ValidateGate gate = Inr () \<and> now \<le> RD_ExpiresAt r"
  using Sign_Verify_doc[OF assms(1-3) assms(5)[unfolded relay_doc_marshal[OF assms(4)]]] relay_roundtrip[OF assms(4)] by simp

lemma Sign_Verify_trust_root:
  assumes "sig_correct P" "signs_nonempty P" "device_ok P d" "trust_root_valid r"
    and "Sign P d trust_root_type (json_object (trust_root_fields r)) signedAt = Inr sd"
  shows "Verify P sd (Dev_Identity d) gate now = Inr () \<longleftrightarrow> ValidateGate gate = Inr () \<and> now \<le> TD_ExpiresAt r"
  using Sign_Verify_doc[OF assms(1-3) assms(5)[unfolded trust_root_doc_marshal[OF assms(4)]]] trust_root_roundtrip[OF assms(4)] types_differ by simp

text \<open>
  C39. A relay or trust root descriptor signed by a device is accepted under that device's identity exactly when
  the security gate passes its validation and the time is not after the descriptor's expiry. These are all the
  conditions: the issue time is not looked at, so the descriptor is accepted at every time before its expiry,
  also before it was issued.
\<close>

theorem descriptors_accepted_iff:
  assumes "sig_correct P" "signs_nonempty P" "device_ok P d" "relay_valid r" "trust_root_valid t"
    and "Sign P d relay_type (json_object (relay_fields r)) signedAt = Inr sd"
    and "Sign P d trust_root_type (json_object (trust_root_fields t)) signedAt = Inr st"
  shows "(Verify P sd (Dev_Identity d) gate now = Inr () \<longleftrightarrow> ValidateGate gate = Inr () \<and> now \<le> RD_ExpiresAt r) \<and>
    (Verify P st (Dev_Identity d) gate now = Inr () \<longleftrightarrow> ValidateGate gate = Inr () \<and> now \<le> TD_ExpiresAt t)"
  using Sign_Verify_relay[OF assms(1-4,6)] Sign_Verify_trust_root[OF assms(1-3,5,7)] by blast

definition sample_relay :: RelayDescriptor where
  "sample_relay = \<lparr>RD_Type = relay_type, RD_RelayID = ''relay'', RD_DomainID = ''dom'', RD_BaseURL = ''https://r'', RD_WebSocketURL = ''wss://r'',
     RD_SigningKeys = Some [\<lparr>DK_KTY = ''Ed25519'', DK_Use = ''descriptor-signature'', DK_KID = ''k'', DK_Public = ''AA'', DK_State = []\<rparr>],
     RD_IssuedAt = 0, RD_ExpiresAt = Hour, RD_Metadata = []\<rparr>"

definition sample_trust_root :: TrustRootDescriptor where
  "sample_trust_root = \<lparr>TD_Type = trust_root_type, TD_TrustRootID = ''trust'', TD_DomainID = ''dom'', TD_BaseURL = ''https://t'',
     TD_Keys = Some [\<lparr>DK_KTY = ''Ed25519'', DK_Use = ''grant-signature'', DK_KID = ''k'', DK_Public = ''AA'', DK_State = ''active''\<rparr>],
     TD_IssuedAt = 0, TD_ExpiresAt = Hour, TD_Metadata = []\<rparr>"

lemma samples_valid: "relay_valid sample_relay" "trust_root_valid sample_trust_root" "year_ok 0" "RD_Metadata sample_relay = []"
    "TD_Metadata sample_trust_root = []"
proof -
  have y: "year_ok 0" "year_ok Hour" by code_simp+
  then show "relay_valid sample_relay" "trust_root_valid sample_trust_root" "year_ok 0" "RD_Metadata sample_relay = []"
    "TD_Metadata sample_trust_root = []"
    by (simp_all add: relay_valid_def sample_relay_def key_valid_def metadata_valid_def relay_type_def
        trust_root_valid_def sample_trust_root_def trust_root_type_def)
qed

theorem descriptors_accepted_iff_witness:
  "\<exists>d sd st. NewDevice model_prims (replicate 32 (CHR ''s'')) ''dom'' ''relay-signer'' 0 = (Inr d, []) \<and>
     Sign model_prims d relay_type (json_object (relay_fields sample_relay)) 0 = Inr sd \<and>
     Sign model_prims d trust_root_type (json_object (trust_root_fields sample_trust_root)) 0 = Inr st \<and>
     Verify model_prims sd (Dev_Identity d) (DefaultGate ProfileProduction) Hour = Inr () \<and>
     Verify model_prims sd (Dev_Identity d) (DefaultGate ProfileProduction) (RD_IssuedAt sample_relay - 1) = Inr () \<and>
     Verify model_prims st (Dev_Identity d) (DefaultGate ProfileProduction) (2 * Hour) \<noteq> Inr ()"
proof -
  obtain d where d: "NewDevice model_prims (replicate 32 (CHR ''s'')) ''dom'' ''relay-signer'' 0 = (Inr d, [])"
    using model_device by blast
  obtain sd where sd: "Sign model_prims d relay_type (json_object (relay_fields sample_relay)) 0 = Inr sd"
    using relay_signs[OF samples_valid(1) samples_valid(4,3)] by blast
  obtain st where st: "Sign model_prims d trust_root_type (json_object (trust_root_fields sample_trust_root)) 0 = Inr st"
    using trust_root_signs[OF samples_valid(2) samples_valid(5,3)] by blast
  note v = descriptors_accepted_iff[OF model_sig model_signs NewDevice_ok(1)[OF model_sig d] samples_valid(1,2) sd st]
  have "ValidateGate (DefaultGate ProfileProduction) = Inr ()" by (simp add: DefaultGate_valid)
  moreover have "Hour \<le> RD_ExpiresAt sample_relay" "RD_IssuedAt sample_relay - 1 \<le> RD_ExpiresAt sample_relay" "\<not> 2 * Hour \<le> TD_ExpiresAt sample_trust_root"
    by (simp_all add: sample_relay_def sample_trust_root_def Hour_def Minute_def Second_def)
  ultimately show ?thesis using d sd st v by blast
qed

text \<open>
  Outside the local lab profile no unsigned descriptor is ever accepted, and nothing is accepted under a gate
  that fails validation; an unsigned descriptor needs the explicit permission of the gate.
\<close>

theorem unsigned_descriptor_needs_permission:
  assumes "Sig_Value (SD_Signature sd) = []"
  shows "Verify P sd signer gate now = Inr () \<longleftrightarrow>
     ValidateGate gate = Inr () \<and> G_Profile gate = ProfileLocalLab \<and> G_AllowUnsignedDescriptor gate \<and> \<not> G_RequireSignedDescriptors gate"
  using assms by (auto simp: Verify_def and_then_Inr_iff ValidateGate_Inr split: if_splits)

theorem unsigned_descriptor_needs_permission_witness:
  "Verify model_prims \<lparr>SD_Type = [], SD_DescriptorType = [], SD_Descriptor = None, SD_SignedBy = [], SD_SignedAt = 0, SD_Signature = no_signature\<rparr>
     no_identity (DefaultGate ProfileLocalLab) 0 \<noteq> Inr ()"
  using unsigned_descriptor_needs_permission[of "\<lparr>SD_Type = [], SD_DescriptorType = [], SD_Descriptor = None, SD_SignedBy = [], SD_SignedAt = 0, SD_Signature = no_signature\<rparr>"
      model_prims no_identity "DefaultGate ProfileLocalLab" 0]
  by (simp add: no_signature_def DefaultGate_def)

end
