(* ===== verification/Json_Indent.thy ===== *)
theory Json_Indent
  imports Json_Unmarshal
begin

text \<open>
  \<^verbatim>\<open>json.MarshalIndent(v, "", "  ")\<close>, and reading back what it wrote: white space between tokens does not
  change the document.
\<close>

section \<open>Writing\<close>

definition new_line :: "nat \<Rightarrow> string" where
  "new_line depth = CHR 0x0A # concat (replicate depth ''  '')"

fun separate :: "string \<Rightarrow> string list \<Rightarrow> string" where
  "separate sep [] = []"
| "separate sep [x] = x"
| "separate sep (x # y # r) = x @ sep @ separate sep (y # r)"

text \<open>The document of \<open>v\<close> at the given depth.\<close>

fun indent_doc :: "nat \<Rightarrow> jdoc \<Rightarrow> bytes" where
  "indent_doc depth (DArr ds) =
     (if ds = [] then ''[]''
      else ''['' @ new_line (Suc depth) @ separate ('','' @ new_line (Suc depth)) (map (indent_doc (Suc depth)) ds) @ new_line depth @ '']'')"
| "indent_doc depth (DObj ms) =
     (if ms = [] then ''{}''
      else ''{'' @ new_line (Suc depth) @
        separate ('','' @ new_line (Suc depth)) (map (\<lambda>(k, d). quote k @ '': '' @ indent_doc (Suc depth) d) ms) @ new_line depth @ ''}'')"
| "indent_doc depth d = encode d"

section \<open>White space\<close>

lemma skip_spaces: "list_all json_space w \<Longrightarrow> skip_space (w @ s) = skip_space s"
  by (induction w) simp_all

lemma new_line_space: "list_all json_space (new_line k)"
  by (induction k) (simp_all add: new_line_def json_space_def)

lemma expect_spaces: "list_all json_space w \<Longrightarrow> expect c (w @ s) = expect c s"
  by (simp add: expect_def skip_spaces)

lemma scan_spaces:
  assumes "list_all json_space w"
  shows "scan_doc n k (w @ s) = scan_doc n k s" "scan_members n k ms (w @ s) = scan_members n k ms s" "scan_elems n k ds (w @ s) = scan_elems n k ds s"
proof -
  show d: "scan_doc n k (w @ s) = scan_doc n k s" for n k by (cases n) (simp_all add: skip_spaces[OF assms])
  show "scan_members n k ms (w @ s) = scan_members n k ms s" by (cases n) (simp_all add: expect_spaces[OF assms])
  show "scan_elems n k ds (w @ s) = scan_elems n k ds s" by (cases n) (simp_all add: d)
qed

lemmas line_simps = scan_spaces[OF new_line_space] expect_spaces[OF new_line_space]

lemma num_end_line: "num_end (new_line k @ r)"
  by (simp add: new_line_def num_end_def is_digit_def)

section \<open>Reading back\<close>

definition reads_indented :: "jdoc \<Rightarrow> bool" where
  "reads_indented d \<longleftrightarrow> (\<forall>k j rest. doc_depth d \<le> k \<longrightarrow> num_end rest \<longrightarrow>
     (\<exists>n. scan_doc n k (indent_doc j d @ rest) = Some (Inr (valid_doc d, rest))))"

lemma indent_first:
  assumes "doc_ok d"
  obtains c t where "indent_doc j d = c # t" "\<not> json_space c" "c \<noteq> CHR '']''"
proof (cases "indent_doc j d = encode d")
  case True
  with assms show thesis by (auto elim!: encode_first intro: that)
next
  case False
  then have "\<exists>c t. indent_doc j d = c # t \<and> (c = CHR ''['' \<or> c = CHR ''{'')" by (cases d) auto
  then show thesis by (auto intro: that simp: json_space_def)
qed

lemma indented_elems:
  assumes "ds \<noteq> []" "\<forall>d\<in>set ds. reads_indented d \<and> doc_depth d \<le> k"
  shows "\<exists>n. scan_elems n k acc (separate ('','' @ new_line j) (map (indent_doc j) ds) @ new_line i @ CHR '']'' # rest) =
    Some (Inr (DArr (acc @ map valid_doc ds), rest))"
  using assms
proof (induction ds arbitrary: acc)
  case (Cons d ds)
  show ?case
  proof (cases ds)
    case Nil
    let ?r = "new_line i @ CHR '']'' # rest"
    obtain n where "scan_doc n k (indent_doc j d @ ?r) = Some (Inr (valid_doc d, ?r))"
      using Cons.prems num_end_line unfolding reads_indented_def by fastforce
    then have "scan_elems (Suc n) k acc (indent_doc j d @ ?r) = Some (Inr (DArr (acc @ [valid_doc d]), rest))"
      by (simp add: line_simps expect_simps json_space_def)
    then show ?thesis using Nil by (auto simp del: scan_elems.simps)
  next
    case (Cons d' ds')
    let ?s = "separate ('','' @ new_line j) (map (indent_doc j) ds) @ new_line i @ CHR '']'' # rest"
    let ?r = "CHR '','' # new_line j @ ?s"
    obtain n where n: "scan_doc n k (indent_doc j d @ ?r) = Some (Inr (valid_doc d, ?r))"
      using Cons.prems unfolding reads_indented_def by fastforce
    obtain n' where n': "scan_elems n' k (acc @ [valid_doc d]) ?s = Some (Inr (DArr ((acc @ [valid_doc d]) @ map valid_doc ds), rest))"
      using Cons.IH[of "acc @ [valid_doc d]"] Cons.prems Cons by auto
    let ?n = "max n n'"
    have "scan_doc ?n k (indent_doc j d @ ?r) = Some (Inr (valid_doc d, ?r))"
      "scan_elems ?n k (acc @ [valid_doc d]) ?s = Some (Inr (DArr ((acc @ [valid_doc d]) @ map valid_doc ds), rest))"
      using n n' scan_mono by (meson max.cobounded1 max.cobounded2)+
    then have "scan_elems (Suc ?n) k acc (indent_doc j d @ ?r) = Some (Inr (DArr (acc @ map valid_doc (d # ds)), rest))"
      by (simp add: line_simps expect_simps json_space_def)
    moreover have "separate ('','' @ new_line j) (map (indent_doc j) (d # ds)) @ new_line i @ CHR '']'' # rest = indent_doc j d @ ?r" by (simp add: Cons)
    ultimately show ?thesis by metis
  qed
qed simp

abbreviation indented_member :: "nat \<Rightarrow> string \<times> jdoc \<Rightarrow> bytes" where
  "indented_member j \<equiv> (\<lambda>(k, d). quote k @ '': '' @ indent_doc j d)"

lemma indented_members:
  assumes "ms \<noteq> []" "\<forall>(key, d)\<in>set ms. reads_indented d \<and> doc_depth d \<le> k"
  shows "\<exists>n. scan_members n k acc (separate ('','' @ new_line j) (map (indented_member j) ms) @ new_line i @ CHR ''}'' # rest) =
    Some (Inr (DObj (acc @ map (\<lambda>(k, d). (to_valid k, valid_doc d)) ms), rest))"
  using assms
proof (induction ms arbitrary: acc)
  case (Cons m ms)
  obtain key d where m: "m = (key, d)" by force
  have key: "and_then (expect DQUOTE (quote key @ r)) scan_string = Inr (TStr (to_valid key), r)" for r
    by (simp add: quote_def expect_simps json_space_def scan_string_def lex_quote_body)
  have colon: "expect (CHR '':'') (CHR '':'' # r) = Inr r" for r by (simp add: expect_simps json_space_def)
  have blank: "scan_doc n k (CHR '' '' # r) = scan_doc n k r" for n r
    using scan_spaces(1)[of "'' ''" n k r] by (simp add: json_space_def)
  show ?case
  proof (cases ms)
    case Nil
    let ?r = "new_line i @ CHR ''}'' # rest"
    obtain n where n: "scan_doc n k (indent_doc j d @ ?r) = Some (Inr (valid_doc d, ?r))"
      using Cons.prems num_end_line unfolding reads_indented_def m by fastforce
    then have "scan_members (Suc n) k acc (quote key @ CHR '':'' # CHR '' '' # indent_doc j d @ ?r) =
        Some (Inr (DObj (acc @ [(to_valid key, valid_doc d)]), rest))"
      by (simp add: key colon blank line_simps expect_simps json_space_def Let_def)
    moreover have "separate ('','' @ new_line j) (map (indented_member j) (m # ms)) @ ?r = quote key @ CHR '':'' # CHR '' '' # indent_doc j d @ ?r"
      by (simp add: Nil m)
    moreover have "map (\<lambda>(k, d). (to_valid k, valid_doc d)) (m # ms) = [(to_valid key, valid_doc d)]" by (simp add: Nil m)
    ultimately show ?thesis by metis
  next
    case (Cons m' ms')
    let ?s = "separate ('','' @ new_line j) (map (indented_member j) ms) @ new_line i @ CHR ''}'' # rest"
    let ?r = "CHR '','' # new_line j @ ?s"
    obtain n where n: "scan_doc n k (indent_doc j d @ ?r) = Some (Inr (valid_doc d, ?r))"
      using Cons.prems unfolding reads_indented_def m by fastforce
    let ?acc = "acc @ [(to_valid key, valid_doc d)]"
    let ?out = "Some (Inr (DObj (?acc @ map (\<lambda>(k, d). (to_valid k, valid_doc d)) ms), rest))"
    obtain n' where n': "scan_members n' k ?acc ?s = ?out" using Cons.IH[of ?acc] Cons.prems Cons by auto
    let ?n = "max n n'"
    have "scan_doc ?n k (indent_doc j d @ ?r) = Some (Inr (valid_doc d, ?r))" "scan_members ?n k ?acc ?s = ?out"
      using n n' scan_mono by (meson max.cobounded1 max.cobounded2)+
    then have "scan_members (Suc ?n) k acc (quote key @ CHR '':'' # CHR '' '' # indent_doc j d @ ?r) = ?out"
      by (simp add: key colon blank line_simps expect_simps json_space_def Let_def)
    moreover have "separate ('','' @ new_line j) (map (indented_member j) (m # ms)) @ new_line i @ CHR ''}'' # rest =
        quote key @ CHR '':'' # CHR '' '' # indent_doc j d @ ?r" by (simp add: Cons m)
    moreover have "acc @ map (\<lambda>(k, d). (to_valid k, valid_doc d)) (m # ms) = ?acc @ map (\<lambda>(k, d). (to_valid k, valid_doc d)) ms" by (simp add: m)
    ultimately show ?thesis by metis
  qed
qed simp

lemma indented_array:
  assumes "\<forall>d\<in>set ds. reads_indented d \<and> doc_ok d"
  shows "reads_indented (DArr ds)"
  unfolding reads_indented_def
proof (intro allI impI)
  fix k j rest
  assume k: "doc_depth (DArr ds) \<le> k"
  show "\<exists>n. scan_doc n k (indent_doc j (DArr ds) @ rest) = Some (Inr (valid_doc (DArr ds), rest))"
  proof (cases ds)
    case Nil
    with k have "scan_doc (Suc 0) k (indent_doc j (DArr ds) @ rest) = Some (Inr (valid_doc (DArr ds), rest))"
      by (simp add: expect_simps json_space_def)
    then show ?thesis by blast
  next
    case (Cons d ds')
    let ?t = "separate ('','' @ new_line (Suc j)) (map (indent_doc (Suc j)) ds) @ new_line j @ CHR '']'' # rest"
    obtain c t where c: "indent_doc (Suc j) d = c # t" "\<not> json_space c" "c \<noteq> CHR '']''"
      using assms by (auto simp: Cons elim!: indent_first)
    have dk: "\<forall>d\<in>set ds. reads_indented d \<and> doc_depth d \<le> k - 1"
      using assms k foldr_max_le[of _ "map doc_depth ds"] by fastforce
    obtain n where n: "scan_elems n (k - 1) [] ?t = Some (Inr (DArr (map valid_doc ds), rest))"
      using indented_elems[OF _ dk, of "[]" "Suc j" j rest] Cons by auto
    have "\<exists>u. ?t = c # u" using c(1) by (cases ds') (simp_all add: Cons)
    then have "expect (CHR '']'') ?t = Inl syntax_error" using c by (auto simp: expect_simps)
    with n k have "scan_doc (Suc n) k (indent_doc j (DArr ds) @ rest) = Some (Inr (valid_doc (DArr ds), rest))"
      by (simp add: json_space_def Cons line_simps)
    then show ?thesis by blast
  qed
qed

lemma indented_object:
  assumes "\<forall>m\<in>set ms. reads_indented (snd m)"
  shows "reads_indented (DObj ms)"
  unfolding reads_indented_def
proof (intro allI impI)
  fix k j rest
  assume k: "doc_depth (DObj ms) \<le> k"
  show "\<exists>n. scan_doc n k (indent_doc j (DObj ms) @ rest) = Some (Inr (valid_doc (DObj ms), rest))"
  proof (cases ms)
    case Nil
    with k have "scan_doc (Suc 0) k (indent_doc j (DObj ms) @ rest) = Some (Inr (valid_doc (DObj ms), rest))"
      by (simp add: expect_simps json_space_def)
    then show ?thesis by blast
  next
    case (Cons m ms')
    let ?t = "separate ('','' @ new_line (Suc j)) (map (indented_member (Suc j)) ms) @ new_line j @ CHR ''}'' # rest"
    have dk: "\<forall>(key, d)\<in>set ms. reads_indented d \<and> doc_depth d \<le> k - 1"
    proof (intro ballI, clarify)
      fix key d
      assume m: "(key, d) \<in> set ms"
      then have "doc_depth d \<in> set (map (\<lambda>(k, d). doc_depth d) ms)" by force
      with k foldr_max_le have "doc_depth d \<le> k - 1" by fastforce
      with assms m show "reads_indented d \<and> doc_depth d \<le> k - 1" by force
    qed
    obtain n where n: "scan_members n (k - 1) [] ?t = Some (Inr (DObj (map (\<lambda>(k, d). (to_valid k, valid_doc d)) ms), rest))"
      using indented_members[OF _ dk, of "[]" "Suc j" j rest] Cons by auto
    have "\<exists>u. ?t = DQUOTE # u" by (cases ms') (simp_all add: Cons quote_def split_beta)
    then have "expect (CHR ''}'') ?t = Inl syntax_error" by (auto simp: expect_simps json_space_def)
    with n k have "scan_doc (Suc n) k (indent_doc j (DObj ms) @ rest) = Some (Inr (valid_doc (DObj ms), rest))"
      by (simp add: json_space_def Cons line_simps)
    then show ?thesis by blast
  qed
qed

lemma indented_scalar:
  assumes "doc_ok d" "\<forall>ds. d \<noteq> DArr ds" "\<forall>ms. d \<noteq> DObj ms"
  shows "reads_indented d"
proof -
  have "indent_doc j d = encode d" for j using assms(2,3) by (cases d) auto
  with reads_doc[OF assms(1)] show ?thesis unfolding reads_indented_def reads_def by simp
qed

lemma indented_doc: "doc_ok d \<Longrightarrow> reads_indented d"
proof (induction d)
  case (DArr ds)
  then show ?case by (intro indented_array) simp
next
  case (DObj ms)
  then show ?case by (intro indented_object) (metis doc_ok.simps(3) prod.collapse snds.intros)
qed (rule indented_scalar, assumption, simp, simp)+

lemma Unmarshal_indent:
  assumes "doc_ok d" "doc_depth d \<le> maxNestingDepth"
  shows "Unmarshal_doc (indent_doc j d) = Some (Inr (valid_doc d))"
proof -
  let ?s = "indent_doc j d"
  obtain n where n: "scan_doc n maxNestingDepth ?s = Some (Inr (valid_doc d, []))"
    using indented_doc[OF assms(1)] assms(2) unfolding reads_indented_def by (metis append_Nil2 num_end_simps(1))
  obtain r where r: "scan_doc (Suc (2 * length ?s)) maxNestingDepth ?s = Some r"
    using Decode_total[of ?s] unfolding Decode_def by blast
  have "scan_doc (max n (Suc (2 * length ?s))) maxNestingDepth ?s = Some r"
    "scan_doc (max n (Suc (2 * length ?s))) maxNestingDepth ?s = Some (Inr (valid_doc d, []))"
    using scan_mono(1) n r by (meson max.cobounded1 max.cobounded2)+
  with r have "Decode ?s = Some (Inr (valid_doc d, []))" unfolding Decode_def by simp
  then show ?thesis by (simp add: Unmarshal_doc_def)
qed

end
