(* ===== verification/Storage.thy ===== *)
theory Storage
  imports Json_Decode Json_Indent Crypto
begin

text \<open>
  \<^verbatim>\<open>pkg/iscp/storage/storage.go\<close>: the in-memory and the development file store of identity keys. The file
  store's directory is a state: whether it exists, its files, the error, if any, that each file
  system operation fails with, and what a failing write leaves in its file.
\<close>

section \<open>The memory store\<close>

record MemoryStore =
  MS_keys :: "string \<Rightarrow> bytes option"

definition NewMemoryStore :: MemoryStore where
  "NewMemoryStore = \<lparr>MS_keys = Map.empty\<rparr>"

definition Memory_Save :: "MemoryStore \<Rightarrow> string \<Rightarrow> Ed25519PrivateKey \<Rightarrow> unit result \<times> MemoryStore" where
  "Memory_Save s deviceID key = (Inr (), s\<lparr>MS_keys := (MS_keys s)(deviceID \<mapsto> BytesForDevStore key)\<rparr>)"

definition Memory_Load :: "MemoryStore \<Rightarrow> string \<Rightarrow> Ed25519PrivateKey result" where
  "Memory_Load s deviceID =
     (case MS_keys s deviceID of
        None \<Rightarrow> reject CodeStorageInvalid ''identity key not found''
      | Some b \<Rightarrow> Ed25519PrivateKeyFromBytes b)"

section \<open>The file store\<close>

datatype fs_op = MkdirAll | OpenRoot | WriteFile | ReadFile

record Dir =
  Dir_exists :: bool
  Dir_files :: "string \<Rightarrow> bytes option"
  Dir_fault :: "fs_op \<Rightarrow> go_error option"
  Dir_torn :: "bytes option"

definition deviceFileName :: "string \<Rightarrow> string result" where
  "deviceFileName deviceID =
     (if deviceID = [] \<or> CHR ''/'' \<in> set deviceID \<or> CHR 0x5C \<in> set deviceID \<or> deviceID = ''.'' \<or> deviceID = ''..''
      then reject CodeStorageInvalid ''invalid device id for dev file store''
      else Inr (deviceID @ ''.json''))"

definition dev_warning :: string where
  "dev_warning = ''dev file store only; do not use for production private keys''"

text \<open>The two-member map, whose keys are written sorted.\<close>

definition key_doc_of :: "string \<Rightarrow> jdoc" where
  "key_doc_of key = DObj [(''key'', DStr key), (''warning'', DStr dev_warning)]"

definition key_file :: "string \<Rightarrow> bytes" where
  "key_file key = indent_doc 0 (key_doc_of key)"

definition File_Save :: "Dir \<Rightarrow> string \<Rightarrow> Ed25519PrivateKey \<Rightarrow> unit result \<times> Dir" where
  "File_Save dir deviceID key =
     (case Dir_fault dir MkdirAll of
        Some err \<Rightarrow> (Inl (errors_Wrap CodeStorageInvalid ''create dev key store'' err), dir)
      | None \<Rightarrow>
          let dir1 = dir\<lparr>Dir_exists := True\<rparr> in
          (case deviceFileName deviceID of
             Inl err \<Rightarrow> (Inl err, dir1)
           | Inr name \<Rightarrow>
               (case Dir_fault dir1 OpenRoot of
                  Some err \<Rightarrow> (Inl (errors_Wrap CodeStorageInvalid ''open dev key store root'' err), dir1)
                | None \<Rightarrow>
                    (case Dir_fault dir1 WriteFile of
                       Some err \<Rightarrow>
                         (Inl err, case Dir_torn dir1 of None \<Rightarrow> dir1 | Some b \<Rightarrow> dir1\<lparr>Dir_files := (Dir_files dir1)(name \<mapsto> b)\<rparr>)
                     | None \<Rightarrow> (Inr (), dir1\<lparr>Dir_files := (Dir_files dir1)(name \<mapsto> key_file (Base64URL (BytesForDevStore key)))\<rparr>)))))"

definition UnmarshalStrings :: "bytes \<Rightarrow> (string \<times> string) list result" where
  "UnmarshalStrings b =
     (case Unmarshal_doc b of
        Some (Inr (DObj ms)) \<Rightarrow> str_map_of ms
      | Some (Inr DNull) \<Rightarrow> Inr []
      | Some (Inl err) \<Rightarrow> Inl err
      | _ \<Rightarrow> Inl type_error)"

definition File_Load :: "Dir \<Rightarrow> string \<Rightarrow> Ed25519PrivateKey result" where
  "File_Load dir deviceID =
     and_then (deviceFileName deviceID) (\<lambda>name.
     case (if Dir_exists dir then Dir_fault dir OpenRoot else Some (StdError ''no such file or directory'')) of
       Some err \<Rightarrow> Inl (errors_Wrap CodeStorageInvalid ''open dev key store root'' err)
     | None \<Rightarrow>
         (case (case Dir_fault dir ReadFile of
                  Some err \<Rightarrow> Inl err
                | None \<Rightarrow> (case Dir_files dir name of Some b \<Rightarrow> Inr b | None \<Rightarrow> Inl (StdError ''no such file or directory''))) of
            Inl err \<Rightarrow> Inl (errors_Wrap CodeStorageInvalid ''read dev key store'' err)
          | Inr b \<Rightarrow>
              and_then (UnmarshalStrings b) (\<lambda>doc.
              and_then (DecodeBase64URL (case map_of doc ''key'' of None \<Rightarrow> [] | Some v \<Rightarrow> v)) (\<lambda>keyBytes.
                Ed25519PrivateKeyFromBytes keyBytes))))"

section \<open>The contract of a key store\<close>

locale key_store =
  fixes save :: "'s \<Rightarrow> string \<Rightarrow> Ed25519PrivateKey \<Rightarrow> unit result \<times> 's"
    and load :: "'s \<Rightarrow> string \<Rightarrow> Ed25519PrivateKey result" and good :: "'s \<Rightarrow> bool"
  assumes load_saved: "good s \<Longrightarrow> length (priv_key k) = 64 \<Longrightarrow> save s d k = (Inr (), s') \<Longrightarrow> load s' d = Inr k"
    and load_other: "good s \<Longrightarrow> save s d k = (Inr (), s') \<Longrightarrow> d' \<noteq> d \<Longrightarrow> load s d' = Inr k' \<Longrightarrow> load s' d' = Inr k'"
    and good_saved: "good s \<Longrightarrow> save s d k = (Inr (), s') \<Longrightarrow> good s'"
begin

text \<open>Any number of keys saved for different devices can all be loaded.\<close>

lemma saved_keys:
  assumes "good s" "distinct (map fst ks)" "\<forall>(d, k)\<in>set ks. length (priv_key k) = 64"
    and "foldl (\<lambda>st (d, k). case st of None \<Rightarrow> None | Some s \<Rightarrow> (case save s d k of (Inr _, s') \<Rightarrow> Some s' | (Inl _, _) \<Rightarrow> None)) (Some s) ks = Some s'"
  shows "\<forall>(d, k)\<in>set ks. load s' d = Inr k" and "good s'"
proof -
  have "(\<forall>(d, k)\<in>set ks. load s' d = Inr k) \<and> good s'"
    using assms
  proof (induction ks arbitrary: s' rule: rev_induct)
    case (snoc p ks)
    obtain d k where p: "p = (d, k)" by force
    obtain s1 where f: "foldl (\<lambda>st (d, k). case st of None \<Rightarrow> None | Some s \<Rightarrow> (case save s d k of (Inr _, s') \<Rightarrow> Some s' | (Inl _, _) \<Rightarrow> None)) (Some s) ks = Some s1"
      and s1: "save s1 d k = (Inr (), s')"
      using snoc.prems(4) by (auto simp: p split: option.splits prod.splits sum.splits)
    have IH: "\<forall>(d, k)\<in>set ks. load s1 d = Inr k" "good s1" using snoc.IH[OF snoc.prems(1) _ _ f] snoc.prems(2,3) by auto
    have "load s' d = Inr k" using load_saved[OF IH(2) _ s1] snoc.prems(3) by (simp add: p)
    moreover have "load s' d' = Inr k'" if "(d', k') \<in> set ks" for d' k'
    proof -
      have "d' \<noteq> d" using that snoc.prems(2) by (force simp: p)
      with that IH show ?thesis using load_other[OF IH(2) s1] by blast
    qed
    ultimately show ?case using good_saved[OF IH(2) s1] by (auto simp: p)
  qed simp
  then show "\<forall>(d, k)\<in>set ks. load s' d = Inr k" "good s'" by blast+
qed

end

interpretation memory_store: key_store Memory_Save Memory_Load "\<lambda>_. True"
  by unfold_locales
     (auto simp: Memory_Save_def Memory_Load_def BytesForDevStore_def Ed25519PrivateKeyFromBytes_def split: if_splits)

section \<open>Reading the key file\<close>

lemma key_file_scanned:
  "Unmarshal_doc (key_file key) =
     Some (Inr (DObj [(''key'', DStr (to_valid key)), (''warning'', DStr (to_valid dev_warning))]))"
proof -
  have "to_valid ''key'' = ''key''" "to_valid ''warning'' = ''warning''" by (simp_all add: to_valid_ascii)
  then show ?thesis
    unfolding key_file_def by (subst Unmarshal_indent) (simp_all add: key_doc_of_def maxNestingDepth_def)
qed

lemma to_valid_Base64URL: "to_valid (Base64URL b) = Base64URL b"
  by (rule to_valid_ascii) (auto dest!: b64_text_Base64URL simp: b64_text_def b64_value_def Let_def split: if_splits)

lemma key_file_read: "UnmarshalStrings (key_file (Base64URL b)) = Inr [(''key'', Base64URL b), (''warning'', to_valid dev_warning)]"
  using str_map_of_strings[of "[(''key'', Base64URL b), (''warning'', to_valid dev_warning)]"]
  by (simp add: UnmarshalStrings_def key_file_scanned to_valid_Base64URL)

definition fs_good :: "Dir \<Rightarrow> bool" where
  "fs_good dir \<longleftrightarrow> Dir_fault dir OpenRoot = None \<and> Dir_fault dir ReadFile = None"

lemma File_Save_Inr_iff:
  "File_Save dir d k = (Inr (), dir') \<longleftrightarrow>
   Dir_fault dir MkdirAll = None \<and> Dir_fault dir OpenRoot = None \<and> Dir_fault dir WriteFile = None \<and>
   (\<exists>name. deviceFileName d = Inr name \<and>
     dir' = dir\<lparr>Dir_exists := True, Dir_files := (Dir_files dir)(name \<mapsto> key_file (Base64URL (priv_key k)))\<rparr>)"
  by (auto simp: File_Save_def BytesForDevStore_def Let_def split: option.splits sum.splits)

lemma deviceFileName_inject: "deviceFileName d = Inr n \<Longrightarrow> deviceFileName d' = Inr n \<Longrightarrow> d = d'"
  by (auto simp: deviceFileName_def split: if_splits)

interpretation file_store: key_store File_Save File_Load fs_good
proof
  fix s d k s' assume g: "fs_good s" and l: "length (priv_key k) = 64" and sv: "File_Save s d k = (Inr (), s')"
  then obtain name where "deviceFileName d = Inr name"
    "s' = s\<lparr>Dir_exists := True, Dir_files := (Dir_files s)(name \<mapsto> key_file (Base64URL (priv_key k)))\<rparr>"
    by (auto simp: File_Save_Inr_iff)
  with g l show "File_Load s' d = Inr k"
    by (simp add: File_Load_def fs_good_def key_file_read Ed25519PrivateKeyFromBytes_def)
next
  fix s d k s' d' k' assume g: "fs_good s" and sv: "File_Save s d k = (Inr (), s')" and ne: "d' \<noteq> d" and l: "File_Load s d' = Inr k'"
  then obtain name where n: "deviceFileName d = Inr name"
    "s' = s\<lparr>Dir_exists := True, Dir_files := (Dir_files s)(name \<mapsto> key_file (Base64URL (priv_key k)))\<rparr>"
    by (auto simp: File_Save_Inr_iff)
  obtain name' where n': "deviceFileName d' = Inr name'" using l by (auto simp: File_Load_def and_then_Inr_iff)
  have "name' \<noteq> name" using n n' ne deviceFileName_inject by blast
  with g n n' l show "File_Load s' d' = Inr k'"
    by (simp add: File_Load_def fs_good_def split: if_splits)
next
  fix s d k s' assume "fs_good s" "File_Save s d k = (Inr (), s')"
  then show "fs_good s'" by (auto simp: File_Save_Inr_iff fs_good_def)
qed

text \<open>The names stay inside the store's directory.\<close>

lemma deviceFileName_safe:
  "deviceFileName d = Inr n \<Longrightarrow> CHR ''/'' \<notin> set n \<and> CHR 0x5C \<notin> set n \<and> n \<noteq> ''.'' \<and> n \<noteq> ''..''"
  by (auto simp: deviceFileName_def split: if_splits)

section \<open>Saved keys are loaded back\<close>

definition save_all :: "('s \<Rightarrow> string \<Rightarrow> Ed25519PrivateKey \<Rightarrow> unit result \<times> 's) \<Rightarrow> 's \<Rightarrow> (string \<times> Ed25519PrivateKey) list \<Rightarrow> 's option" where
  "save_all save s ks =
     foldl (\<lambda>st (d, k). case st of None \<Rightarrow> None | Some s \<Rightarrow> (case save s d k of (Inr _, s') \<Rightarrow> Some s' | (Inl _, _) \<Rightarrow> None)) (Some s) ks"

lemma memory_saves: "\<exists>s'. save_all Memory_Save s ks = Some s'"
  by (induction ks rule: rev_induct) (auto simp: save_all_def Memory_Save_def)

lemma memory_unsaved:
  "save_all Memory_Save NewMemoryStore ks = Some s \<Longrightarrow> d \<notin> fst ` set ks \<Longrightarrow> MS_keys s d = None"
  by (induction ks arbitrary: s rule: rev_induct)
     (auto simp: save_all_def Memory_Save_def NewMemoryStore_def split: option.splits)

lemma file_saves:
  assumes "fs_good dir" "Dir_fault dir MkdirAll = None" "Dir_fault dir WriteFile = None"
    and "\<forall>(d, k)\<in>set ks. \<exists>n. deviceFileName d = Inr n"
  shows "\<exists>dir'. save_all File_Save dir ks = Some dir' \<and> Dir_fault dir' = Dir_fault dir"
  using assms(4)
proof (induction ks rule: rev_induct)
  case (snoc p ks)
  obtain d k where p: "p = (d, k)" by force
  obtain dir1 where d1: "save_all File_Save dir ks = Some dir1" "Dir_fault dir1 = Dir_fault dir"
    using snoc by auto
  obtain n where n: "deviceFileName d = Inr n" using snoc.prems p by auto
  have "File_Save dir1 d k = (Inr (), dir1\<lparr>Dir_exists := True, Dir_files := (Dir_files dir1)(n \<mapsto> key_file (Base64URL (priv_key k)))\<rparr>)"
    using assms(1-3) n d1(2) by (simp add: File_Save_Inr_iff fs_good_def)
  then show ?case using d1 by (simp add: save_all_def p)
qed (simp add: save_all_def)

text \<open>
  after saving keys of any distinct devices (with file names the dev store accepts, and a file
  system that does not fail), both stores succeed and load exactly those keys.
\<close>

theorem key_stores_roundtrip:
  assumes "distinct (map fst ks)" "\<forall>(d, k)\<in>set ks. length (priv_key k) = 64 \<and> (\<exists>n. deviceFileName d = Inr n)"
    and "Dir_fault dir = (\<lambda>_. None)"
  shows "\<exists>s dir'. save_all Memory_Save NewMemoryStore ks = Some s \<and> save_all File_Save dir ks = Some dir' \<and>
    (\<forall>(d, k)\<in>set ks. Memory_Load s d = Inr k \<and> File_Load dir' d = Inr k) \<and>
    (\<forall>d. d \<notin> fst ` set ks \<longrightarrow> (\<exists>e. Memory_Load s d = Inl e))"
proof -
  have ks: "\<forall>(d, k)\<in>set ks. length (priv_key k) = 64" and names: "\<forall>(d, k)\<in>set ks. \<exists>n. deviceFileName d = Inr n"
    and good: "fs_good dir" using assms(2,3) by (auto simp: fs_good_def)
  obtain s where s: "save_all Memory_Save NewMemoryStore ks = Some s" using memory_saves by blast
  obtain dir' where dir': "save_all File_Save dir ks = Some dir'" using file_saves[OF good _ _ names] assms(3) by auto
  note m = memory_store.saved_keys(1)[OF _ assms(1) ks s[unfolded save_all_def]]
    and f = file_store.saved_keys(1)[OF good assms(1) ks dir'[unfolded save_all_def]]
  have "\<exists>e. Memory_Load s d = Inl e" if "d \<notin> fst ` set ks" for d
    using memory_unsaved[OF s that] by (simp add: Memory_Load_def)
  with s dir' m f show ?thesis by fastforce
qed

theorem key_stores_roundtrip_witness:
  "\<exists>s dir'. save_all Memory_Save NewMemoryStore [(''d1'', Ed25519PrivateKey (replicate 64 NUL)), (''d2'', Ed25519PrivateKey (replicate 64 CHR ''x''))] = Some s \<and>
    save_all File_Save \<lparr>Dir_exists = False, Dir_files = Map.empty, Dir_fault = \<lambda>_. None, Dir_torn = None\<rparr>
      [(''d1'', Ed25519PrivateKey (replicate 64 NUL)), (''d2'', Ed25519PrivateKey (replicate 64 CHR ''x''))] = Some dir' \<and>
    File_Load dir' ''d1'' = Inr (Ed25519PrivateKey (replicate 64 NUL)) \<and> (\<exists>e. Memory_Load s ''d3'' = Inl e)"
  using key_stores_roundtrip[of "[(''d1'', Ed25519PrivateKey (replicate 64 NUL)), (''d2'', Ed25519PrivateKey (replicate 64 CHR ''x''))]"
      "\<lparr>Dir_exists = False, Dir_files = Map.empty, Dir_fault = \<lambda>_. None, Dir_torn = None\<rparr>"]
  by (fastforce simp: deviceFileName_def)

end
