(* ===== verification/Queue.thy ===== *)
theory Queue
  imports Go_Time
begin

text \<open>
  \<^verbatim>\<open>pkg/server/queue/queue.go\<close>: the relay's in-memory message queue. The library function
  \<^verbatim>\<open>sort.Slice\<close> promises a sorted permutation and no stability; the operations that sort take it as
  the argument \<open>srt\<close>, of which only that promise is used.
\<close>

section \<open>Sorting\<close>

type_synonym 'a sorter = "('a \<Rightarrow> 'a \<Rightarrow> bool) \<Rightarrow> 'a list \<Rightarrow> 'a list"

text \<open>A strict weak order: what \<^verbatim>\<open>sort.Slice\<close> requires of its comparison.\<close>

definition weak_order :: "('a \<Rightarrow> 'a \<Rightarrow> bool) \<Rightarrow> bool" where
  "weak_order lt \<longleftrightarrow> (\<forall>x. \<not> lt x x) \<and> (\<forall>x y z. lt x y \<longrightarrow> lt y z \<longrightarrow> lt x z) \<and>
     (\<forall>x y z. \<not> lt x y \<longrightarrow> \<not> lt y z \<longrightarrow> \<not> lt x z)"

definition sorts :: "'a sorter \<Rightarrow> bool" where
  "sorts srt \<longleftrightarrow> (\<forall>lt xs. weak_order lt \<longrightarrow>
     mset (srt lt xs) = mset xs \<and> sorted_wrt (\<lambda>x y. \<not> lt y x) (srt lt xs))"

text \<open>The insertion sort \<^verbatim>\<open>sort.Slice\<close> uses on short slices.\<close>

fun insert_by :: "('a \<Rightarrow> 'a \<Rightarrow> bool) \<Rightarrow> 'a \<Rightarrow> 'a list \<Rightarrow> 'a list" where
  "insert_by lt x [] = [x]"
| "insert_by lt x (y # ys) = (if lt x y then x # y # ys else y # insert_by lt x ys)"

definition insertion_sort :: "'a sorter" where
  "insertion_sort lt xs = foldl (\<lambda>ys x. insert_by lt x ys) [] xs"

lemma mset_insert_by [simp]: "mset (insert_by lt x ys) = add_mset x (mset ys)"
  by (induction ys) auto

lemma set_insert_by [simp]: "set (insert_by lt x ys) = insert x (set ys)"
  by (metis mset_insert_by set_mset_add_mset_insert set_mset_mset)

lemma sorted_insert_by:
  assumes "weak_order lt" "sorted_wrt (\<lambda>x y. \<not> lt y x) ys"
  shows "sorted_wrt (\<lambda>x y. \<not> lt y x) (insert_by lt x ys)"
  using assms(2)
proof (induction ys)
  case (Cons y ys)
  have t: "lt a b \<Longrightarrow> lt b c \<Longrightarrow> lt a c" for a b c using assms(1) unfolding weak_order_def by blast
  have s: "lt a b \<Longrightarrow> \<not> lt b a" for a b using assms(1) unfolding weak_order_def by blast
  show ?case
  proof (cases "lt x y")
    case True
    then have "\<not> lt z x" if "z \<in> set (y # ys)" for z using that Cons.prems t[of z x y] s by auto
    with Cons.prems True show ?thesis by simp
  next
    case False
    with Cons show ?thesis by simp
  qed
qed simp

lemma insertion_sort_sorts: "sorts insertion_sort"
proof -
  have "mset (foldl (\<lambda>ys x. insert_by lt x ys) acc xs) = mset acc + mset xs \<and>
     sorted_wrt (\<lambda>x y. \<not> lt y x) (foldl (\<lambda>ys x. insert_by lt x ys) acc xs)"
    if "weak_order lt" "sorted_wrt (\<lambda>x y. \<not> lt y x) acc" for lt and acc xs :: "'a list"
    using that(2) by (induction xs arbitrary: acc) (simp_all add: sorted_insert_by[OF that(1)])
  from this[of _ "[]"] show ?thesis by (simp add: sorts_def insertion_sort_def)
qed

lemma sortsD:
  assumes "sorts srt" "weak_order lt"
  shows "mset (srt lt xs) = mset xs" "set (srt lt xs) = set xs" "length (srt lt xs) = length xs"
    "sorted_wrt (\<lambda>x y. \<not> lt y x) (srt lt xs)"
proof -
  show m: "mset (srt lt xs) = mset xs" "sorted_wrt (\<lambda>x y. \<not> lt y x) (srt lt xs)"
    using assms unfolding sorts_def by blast+
  show "set (srt lt xs) = set xs" "length (srt lt xs) = length xs"
    using m(1) by (metis set_mset_mset, metis size_mset)
qed

section \<open>The queue\<close>

record Message =
  Msg_DomainID :: string
  Msg_MessageID :: string
  Msg_SenderDeviceID :: string
  Msg_RecipientDeviceID :: string
  Msg_Envelope :: bytes
  Msg_Priority :: int
  Msg_ExpiresAt :: time
  Msg_QueuedAt :: time

record Queue =
  Q_messages :: "Message list"
  Q_maxBytes :: int
  Q_currentBytes :: int

record MessageMetadata =
  MD_DomainID :: string
  MD_MessageID :: string
  MD_SenderDeviceID :: string
  MD_RecipientDeviceID :: string
  MD_Priority :: int
  MD_QueuedAt :: time
  MD_ExpiresAt :: time

definition NewQueue :: "int \<Rightarrow> Queue" where
  "NewQueue maxBytes = \<lparr>Q_messages = [], Q_maxBytes = maxBytes, Q_currentBytes = 0\<rparr>"

fun total_bytes :: "Message list \<Rightarrow> int" where
  "total_bytes [] = 0"
| "total_bytes (m # ms) = int (length (Msg_Envelope m)) + total_bytes ms"

definition recalculateBytesLocked :: "Queue \<Rightarrow> Queue" where
  "recalculateBytesLocked q = q\<lparr>Q_currentBytes := total_bytes (Q_messages q)\<rparr>"

definition live :: "time \<Rightarrow> Message list \<Rightarrow> Message list" where
  "live now ms = filter (\<lambda>m. \<not> After now (Msg_ExpiresAt m)) ms"

definition dropExpiredLocked :: "Queue \<Rightarrow> time \<Rightarrow> Queue" where
  "dropExpiredLocked q now = recalculateBytesLocked (q\<lparr>Q_messages := live now (Q_messages q)\<rparr>)"

definition Enqueue :: "Queue \<Rightarrow> Message \<Rightarrow> time \<Rightarrow> bool \<times> Queue" where
  "Enqueue q msg now =
     (let q1 = dropExpiredLocked q now; size = int (length (Msg_Envelope msg)) in
      if size > Q_maxBytes q1 \<or> Q_currentBytes q1 + size > Q_maxBytes q1 then (False, q1)
      else let msg1 = (if IsZero (Msg_QueuedAt msg) then msg\<lparr>Msg_QueuedAt := now\<rparr> else msg) in
           (True, q1\<lparr>Q_messages := Q_messages q1 @ [msg1], Q_currentBytes := Q_currentBytes q1 + size\<rparr>))"

text \<open>Higher priority first, then longer queued.\<close>

definition queue_less :: "int \<times> time \<Rightarrow> int \<times> time \<Rightarrow> bool" where
  "queue_less a b = (if fst a = fst b then Before (snd a) (snd b) else fst a > fst b)"

definition message_less :: "Message \<Rightarrow> Message \<Rightarrow> bool" where
  "message_less a b = queue_less (Msg_Priority a, Msg_QueuedAt a) (Msg_Priority b, Msg_QueuedAt b)"

definition metadata_less :: "MessageMetadata \<Rightarrow> MessageMetadata \<Rightarrow> bool" where
  "metadata_less a b = queue_less (MD_Priority a, MD_QueuedAt a) (MD_Priority b, MD_QueuedAt b)"

definition matches_for :: "string \<Rightarrow> string \<Rightarrow> Message \<Rightarrow> bool" where
  "matches_for domainID recipient m \<longleftrightarrow> Msg_DomainID m = domainID \<and> Msg_RecipientDeviceID m = recipient"

definition DequeueFor :: "Message sorter \<Rightarrow> Queue \<Rightarrow> string \<Rightarrow> string \<Rightarrow> time \<Rightarrow> int \<Rightarrow> Message list \<times> Queue" where
  "DequeueFor srt q domainID recipient now limit =
     (let alive = live now (Q_messages q);
          matched = srt message_less (filter (matches_for domainID recipient) alive);
          kept = filter (\<lambda>m. \<not> matches_for domainID recipient m) alive;
          (out, kept') =
            (if limit \<le> 0 then ([], kept @ matched)
             else if limit < int (length matched) then (take (nat limit) matched, kept @ drop (nat limit) matched)
             else (matched, kept))
      in (out, recalculateBytesLocked (q\<lparr>Q_messages := kept'\<rparr>)))"

definition metadata :: "Message \<Rightarrow> MessageMetadata" where
  "metadata m = \<lparr>MD_DomainID = Msg_DomainID m, MD_MessageID = Msg_MessageID m,
     MD_SenderDeviceID = Msg_SenderDeviceID m, MD_RecipientDeviceID = Msg_RecipientDeviceID m,
     MD_Priority = Msg_Priority m, MD_QueuedAt = Msg_QueuedAt m, MD_ExpiresAt = Msg_ExpiresAt m\<rparr>"

definition SnapshotMetadata :: "MessageMetadata sorter \<Rightarrow> Queue \<Rightarrow> time \<Rightarrow> MessageMetadata list \<times> Queue" where
  "SnapshotMetadata srt q now =
     (let kept = live now (Q_messages q) in
      (srt metadata_less (map metadata kept), recalculateBytesLocked (q\<lparr>Q_messages := kept\<rparr>)))"

definition UsedBytes :: "Queue \<Rightarrow> int" where
  "UsedBytes q = Q_currentBytes q"

section \<open>Lemmas\<close>

lemma weak_order_queue: "weak_order queue_less"
  by (auto simp: weak_order_def queue_less_def Before_def split: if_splits)

lemma weak_order_message: "weak_order message_less"
  using weak_order_queue unfolding weak_order_def message_less_def by blast

lemma weak_order_metadata: "weak_order metadata_less"
  using weak_order_queue unfolding weak_order_def metadata_less_def by blast

lemma total_bytes_append [simp]: "total_bytes (xs @ ys) = total_bytes xs + total_bytes ys"
  by (induction xs) auto

lemma total_bytes_nonneg: "0 \<le> total_bytes xs"
  by (induction xs) auto

lemma total_bytes_mset: "total_bytes xs = (\<Sum>m\<in>#mset xs. int (length (Msg_Envelope m)))"
  by (induction xs) auto

lemma total_bytes_filter: "total_bytes (filter f xs) \<le> total_bytes xs"
  by (induction xs) auto

text \<open>The accounting is exact and within the limit.\<close>

definition queue_ok :: "Queue \<Rightarrow> bool" where
  "queue_ok q \<longleftrightarrow> Q_currentBytes q = total_bytes (Q_messages q) \<and> Q_currentBytes q \<le> Q_maxBytes q"

lemma live_bytes: "total_bytes (live now xs) \<le> total_bytes xs"
  unfolding live_def by (rule total_bytes_filter)

lemma drop_ok: "queue_ok q \<Longrightarrow> queue_ok (dropExpiredLocked q now)"
  using live_bytes[of now "Q_messages q"] by (simp add: queue_ok_def dropExpiredLocked_def recalculateBytesLocked_def)

lemma Enqueue_ok: "queue_ok q \<Longrightarrow> queue_ok (snd (Enqueue q m now))"
  using drop_ok[of q now] by (auto simp: Enqueue_def Let_def queue_ok_def)

lemma DequeueFor_conserves:
  assumes "sorts srt" "DequeueFor srt q d r now limit = (out, q')"
  shows "mset (live now (Q_messages q)) = mset out + mset (Q_messages q')"
proof -
  let ?a = "live now (Q_messages q)" and ?m = "matches_for d r"
  let ?s = "srt message_less (filter ?m ?a)"
  have p: "mset ?s + mset (filter (\<lambda>m. \<not> ?m m) ?a) = mset ?a"
    using sortsD(1)[OF assms(1) weak_order_message] by simp
  have t: "mset (take n ?s) + mset (drop n ?s) = mset ?s" for n
    by (metis append_take_drop_id mset_append)
  show ?thesis
  proof (cases "0 < limit \<and> limit < int (length ?s)")
    case True
    then have "mset out + mset (Q_messages q') =
        (mset (take (nat limit) ?s) + mset (drop (nat limit) ?s)) + mset (filter (\<lambda>m. \<not> ?m m) ?a)"
      using assms(2) by (auto simp: DequeueFor_def Let_def recalculateBytesLocked_def)
    with p t[of "nat limit"] show ?thesis by simp
  next
    case False
    then show ?thesis using assms(2) p
      by (auto simp: DequeueFor_def Let_def recalculateBytesLocked_def add.commute split: if_splits)
  qed
qed

lemma DequeueFor_ok:
  assumes "sorts srt" "queue_ok q"
  shows "queue_ok (snd (DequeueFor srt q d r now limit))"
proof -
  obtain out q' where q': "DequeueFor srt q d r now limit = (out, q')" by force
  have "total_bytes (Q_messages q') \<le> total_bytes (live now (Q_messages q))"
    using DequeueFor_conserves[OF assms(1) q'] total_bytes_nonneg[of out] by (simp add: total_bytes_mset)
  moreover have "Q_currentBytes q' = total_bytes (Q_messages q')" "Q_maxBytes q' = Q_maxBytes q"
    using q' by (auto simp: DequeueFor_def Let_def recalculateBytesLocked_def split: prod.splits)
  ultimately show ?thesis using assms(2) q' live_bytes[of now "Q_messages q"] by (simp add: queue_ok_def)
qed

lemma Snapshot_ok: "queue_ok q \<Longrightarrow> queue_ok (snd (SnapshotMetadata srt q now))"
  using live_bytes[of now "Q_messages q"] by (simp add: queue_ok_def SnapshotMetadata_def recalculateBytesLocked_def Let_def)

lemma DequeueFor_out:
  assumes "sorts srt" "DequeueFor srt q d r now limit = (out, q')"
  shows "\<forall>m\<in>set out. matches_for d r m \<and> now \<le> Msg_ExpiresAt m"
    and "sorted_wrt (\<lambda>x y. \<not> message_less y x) out"
    and "int (length out) = min (max 0 limit) (int (length (filter (matches_for d r) (live now (Q_messages q)))))"
    and "\<forall>m\<in>set (Q_messages q'). matches_for d r m \<longrightarrow> (\<forall>x\<in>set out. \<not> message_less m x)"
proof -
  let ?s = "srt message_less (filter (matches_for d r) (live now (Q_messages q)))"
  note S = sortsD[OF assms(1) weak_order_message, of "filter (matches_for d r) (live now (Q_messages q))"]
  have out: "out = take (nat limit) ?s"
    using assms(2) by (auto simp: DequeueFor_def Let_def split: if_splits)
  have q': "filter (matches_for d r) (Q_messages q') = drop (nat limit) ?s"
  proof -
    have "filter (matches_for d r) ?s = ?s" using S(2) by (simp add: filter_id_conv)
    moreover have "filter (matches_for d r) (drop n ?s) = drop n ?s" for n
      using S(2) by (auto simp: filter_id_conv dest: in_set_dropD)
    ultimately show ?thesis using assms(2)
      by (auto simp: DequeueFor_def Let_def recalculateBytesLocked_def split: if_splits)
  qed
  show "\<forall>m\<in>set out. matches_for d r m \<and> now \<le> Msg_ExpiresAt m"
    using S(2) out by (auto simp: live_def After_def dest!: in_set_takeD)
  show "sorted_wrt (\<lambda>x y. \<not> message_less y x) out" using S(4) out by (simp add: sorted_wrt_take)
  show "int (length out) = min (max 0 limit) (int (length (filter (matches_for d r) (live now (Q_messages q)))))"
    using S(3) out by (auto simp: min_def max_def)
  show "\<forall>m\<in>set (Q_messages q'). matches_for d r m \<longrightarrow> (\<forall>x\<in>set out. \<not> message_less m x)"
  proof (intro ballI impI)
    fix m x assume m: "m \<in> set (Q_messages q')" "matches_for d r m" and x: "x \<in> set out"
    have "m \<in> set (drop (nat limit) ?s)" unfolding q'[symmetric] using m by simp
    moreover have "sorted_wrt (\<lambda>x y. \<not> message_less y x) (take (nat limit) ?s @ drop (nat limit) ?s)" using S(4) by simp
    ultimately show "\<not> message_less m x" using x out by (simp add: sorted_wrt_append del: append_take_drop_id)
  qed
qed

lemma DequeueFor_left:
  assumes "sorts srt" "DequeueFor srt q d r now limit = (out, q')" "0 < limit"
  shows "mset (filter (matches_for d r) (live now (Q_messages q))) = mset out + mset (filter (matches_for d r) (live now (Q_messages q')))"
    and "int (length (filter (matches_for d r) (live now (Q_messages q')))) =
      max 0 (int (length (filter (matches_for d r) (live now (Q_messages q)))) - limit)"
proof -
  let ?m = "matches_for d r"
  have "set (Q_messages q') \<subseteq> set (live now (Q_messages q))"
    using DequeueFor_conserves[OF assms(1,2)] by (metis Un_upper2 set_mset_mset set_mset_union)
  then have l: "live now (Q_messages q') = Q_messages q'" by (auto simp: live_def filter_id_conv)
  have o: "filter ?m out = out" using DequeueFor_out(1)[OF assms(1,2)] by (auto simp: filter_id_conv)
  have "filter_mset ?m (mset (live now (Q_messages q))) = filter_mset ?m (mset out + mset (Q_messages q'))"
    using DequeueFor_conserves[OF assms(1,2)] by simp
  then show c: "mset (filter ?m (live now (Q_messages q))) = mset out + mset (filter ?m (live now (Q_messages q')))"
    using o l by (metis filter_union_mset mset_filter)
  then have "length (filter ?m (live now (Q_messages q))) = length out + length (filter ?m (live now (Q_messages q')))"
    by (metis size_mset size_union)
  with DequeueFor_out(3)[OF assms(1,2)] assms(3)
  show "int (length (filter ?m (live now (Q_messages q')))) = max 0 (int (length (filter ?m (live now (Q_messages q)))) - limit)"
    by (simp add: min_def max_def split: if_splits)
qed

lemma DequeueFor_all:
  assumes "sorts srt" "DequeueFor srt q d r now limit = (out, q')"
    and "m \<in> set (filter (matches_for d r) (live now (Q_messages q)))"
    and "int (length (filter (matches_for d r) (Q_messages q))) \<le> limit"
  shows "m \<in> set out"
proof -
  let ?xs = "filter (matches_for d r) (live now (Q_messages q))"
  have l: "length ?xs \<le> length (filter (matches_for d r) (Q_messages q))"
  proof -
    have "?xs = filter (\<lambda>m. \<not> After now (Msg_ExpiresAt m)) (filter (matches_for d r) (Q_messages q))"
      by (simp add: live_def conj_commute)
    then show ?thesis by (metis length_filter_le)
  qed
  have pos: "0 < limit" using assms(3,4) l by (cases ?xs) auto
  note L = DequeueFor_left[OF assms(1,2) pos]
  have "filter (matches_for d r) (live now (Q_messages q')) = []" using L(2) l assms(4) by simp
  with L(1) have "mset ?xs = mset out" by simp
  with assms(3) show ?thesis by (metis set_mset_mset)
qed

section \<open>Properties\<close>

text \<open>The states the queue of a relay can be in.\<close>

inductive queue_state :: "int \<Rightarrow> Queue \<Rightarrow> bool" for maxBytes where
  created: "queue_state maxBytes (NewQueue maxBytes)"
| enqueued: "queue_state maxBytes q \<Longrightarrow> queue_state maxBytes (snd (Enqueue q m now))"
| dequeued: "queue_state maxBytes q \<Longrightarrow> sorts srt \<Longrightarrow> queue_state maxBytes (snd (DequeueFor srt q d r now limit))"
| listed: "queue_state maxBytes q \<Longrightarrow> queue_state maxBytes (snd (SnapshotMetadata srt' q now))"

text \<open>
  C25. In every state the queue can reach, the byte count is exactly the size of the queued envelopes and within
  the configured limit.
\<close>

theorem queue_accounting:
  assumes "queue_state maxBytes q" "0 \<le> maxBytes"
  shows "UsedBytes q = total_bytes (Q_messages q) \<and> UsedBytes q \<le> Q_maxBytes q \<and> Q_maxBytes q = maxBytes"
  using assms(1)
proof (induction rule: queue_state.induct)
  case created
  then show ?case using assms(2) by (simp add: NewQueue_def UsedBytes_def)
next
  case (enqueued q m now)
  then show ?case using Enqueue_ok[of q m now]
    by (auto simp: queue_ok_def UsedBytes_def Enqueue_def Let_def dropExpiredLocked_def recalculateBytesLocked_def)
next
  case (dequeued q srt d r now limit)
  then show ?case using DequeueFor_ok[of srt q d r now limit]
    by (auto simp: queue_ok_def UsedBytes_def DequeueFor_def Let_def recalculateBytesLocked_def)
next
  case (listed q srt now)
  then show ?case using Snapshot_ok[of q srt now]
    by (auto simp: queue_ok_def UsedBytes_def SnapshotMetadata_def Let_def recalculateBytesLocked_def)
qed

definition sample_message :: "string \<Rightarrow> int \<Rightarrow> Message" where
  "sample_message mid prio = \<lparr>Msg_DomainID = ''dom'', Msg_MessageID = mid, Msg_SenderDeviceID = ''phone'',
     Msg_RecipientDeviceID = ''watch'', Msg_Envelope = ''{}'', Msg_Priority = prio, Msg_ExpiresAt = 100, Msg_QueuedAt = 0\<rparr>"

theorem queue_accounting_witness:
  "UsedBytes (snd (Enqueue (snd (Enqueue (NewQueue 3) (sample_message ''a'' 1) 1)) (sample_message ''b'' 1) 2)) = 2"
proof -
  let ?q = "snd (Enqueue (snd (Enqueue (NewQueue 3) (sample_message ''a'' 1) 1)) (sample_message ''b'' 1) 2)"
  have "queue_state 3 ?q" by (intro queue_state.intros)
  from queue_accounting[OF this] have "UsedBytes ?q = total_bytes (Q_messages ?q)" by simp
  also have "\<dots> = 2"
    by (simp add: Enqueue_def NewQueue_def sample_message_def dropExpiredLocked_def recalculateBytesLocked_def live_def
        After_def IsZero_def Let_def)
  finally show ?thesis .
qed

text \<open>
  C26. Taking messages for a device loses and invents nothing: the messages not yet expired are exactly those
  returned and those kept. The returned ones are for that device and domain, at most the limit and
  as many as there are below it, ordered by priority and then by age, and no message that stays
  behind for the device comes before one that is returned.
\<close>

theorem DequeueFor_spec:
  assumes "sorts srt" "DequeueFor srt q d r now limit = (out, q')"
  shows "mset (live now (Q_messages q)) = mset out + mset (Q_messages q') \<and>
     (\<forall>m\<in>set out. matches_for d r m \<and> now \<le> Msg_ExpiresAt m) \<and> sorted_wrt (\<lambda>x y. \<not> message_less y x) out \<and>
     int (length out) = min (max 0 limit) (int (length (filter (matches_for d r) (live now (Q_messages q))))) \<and>
     (\<forall>m\<in>set (Q_messages q'). matches_for d r m \<longrightarrow> (\<forall>x\<in>set out. \<not> message_less m x))"
  using DequeueFor_conserves[OF assms] DequeueFor_out[OF assms] by blast

theorem DequeueFor_spec_witness:
  "\<exists>out q'. DequeueFor insertion_sort \<lparr>Q_messages = [sample_message ''a'' 1, sample_message ''b'' 2], Q_maxBytes = 9, Q_currentBytes = 4\<rparr>
       ''dom'' ''watch'' 5 1 = (out, q') \<and> out = [sample_message ''b'' 2] \<and> mset (Q_messages q') = {#sample_message ''a'' 1#}"
proof -
  let ?q = "\<lparr>Q_messages = [sample_message ''a'' 1, sample_message ''b'' 2], Q_maxBytes = 9, Q_currentBytes = 4\<rparr>"
  obtain out q' where d: "DequeueFor insertion_sort ?q ''dom'' ''watch'' 5 1 = (out, q')" by force
  have l: "live 5 (Q_messages ?q) = [sample_message ''a'' 1, sample_message ''b'' 2]"
    by (simp add: live_def After_def sample_message_def)
  have "fst (DequeueFor insertion_sort ?q ''dom'' ''watch'' 5 1) = [sample_message ''b'' 2]" by code_simp
  then have o: "out = [sample_message ''b'' 2]" by (simp add: d)
  have "mset (live 5 (Q_messages ?q)) = mset out + mset (Q_messages q')"
    using DequeueFor_spec[OF insertion_sort_sorts d] by blast
  with d o l show ?thesis by simp
qed

fun dequeue_times :: "Message sorter \<Rightarrow> nat \<Rightarrow> Queue \<Rightarrow> string \<Rightarrow> string \<Rightarrow> time \<Rightarrow> int \<Rightarrow> Message list \<times> Queue" where
  "dequeue_times srt 0 q d r now limit = ([], q)"
| "dequeue_times srt (Suc n) q d r now limit =
     (let (out, q1) = DequeueFor srt q d r now limit; (rest, q2) = dequeue_times srt n q1 d r now limit in (out @ rest, q2))"

text \<open>
  Taking messages repeatedly with a positive limit delivers everything: as soon as the calls could together
  return the pending messages of a device, they have returned exactly those, and none is left.
\<close>

theorem dequeue_drains:
  assumes "sorts srt" "0 < limit"
    and "int (length (filter (matches_for d r) (live now (Q_messages q)))) \<le> int n * limit"
    and "dequeue_times srt n q d r now limit = (out, q')"
  shows "mset out = mset (filter (matches_for d r) (live now (Q_messages q))) \<and>
     filter (matches_for d r) (live now (Q_messages q')) = []"
  using assms(3,4)
proof (induction n arbitrary: q out)
  case (Suc n)
  obtain o1 q1 where d1: "DequeueFor srt q d r now limit = (o1, q1)" by force
  obtain o2 where d2: "dequeue_times srt n q1 d r now limit = (o2, q')" "out = o1 @ o2"
    using Suc.prems(2) d1 by (auto split: prod.splits)
  note L = DequeueFor_left[OF assms(1) d1 assms(2)]
  have "int (length (filter (matches_for d r) (live now (Q_messages q1)))) \<le> int n * limit"
    using L(2) Suc.prems(1) assms(2) by (simp add: algebra_simps)
  from Suc.IH[OF this d2(1)] L(1) d2(2) show ?case by simp
qed simp

theorem dequeue_drains_witness:
  "mset (fst (dequeue_times insertion_sort 2 \<lparr>Q_messages = [sample_message ''a'' 1, sample_message ''b'' 2], Q_maxBytes = 9, Q_currentBytes = 4\<rparr>
       ''dom'' ''watch'' 5 1)) = {#sample_message ''a'' 1, sample_message ''b'' 2#}"
proof -
  let ?q = "\<lparr>Q_messages = [sample_message ''a'' 1, sample_message ''b'' 2], Q_maxBytes = 9, Q_currentBytes = 4\<rparr>"
  have l: "filter (matches_for ''dom'' ''watch'') (live 5 (Q_messages ?q)) = [sample_message ''a'' 1, sample_message ''b'' 2]"
    by (simp add: live_def After_def sample_message_def matches_for_def)
  obtain out q' where o: "dequeue_times insertion_sort 2 ?q ''dom'' ''watch'' 5 1 = (out, q')" by (meson surj_pair)
  have le: "int (length (filter (matches_for ''dom'' ''watch'') (live 5 (Q_messages ?q)))) \<le> int 2 * 1" unfolding l by simp
  have "mset out = mset [sample_message ''a'' 1, sample_message ''b'' 2]"
    using dequeue_drains[OF insertion_sort_sorts _ le o] unfolding l by simp
  with o show ?thesis by simp
qed

end
