(* ===== verification/Replay.thy ===== *)
theory Replay
  imports Go_Time
begin

text \<open>
  \<^verbatim>\<open>pkg/server/replay/replay.go\<close>: the cache of used proof nonces, and the contract that it shares with
  the nonce table of the repositories.
\<close>

section \<open>The cache\<close>

record Cache =
  Cache_items :: "string \<Rightarrow> time option"

definition NewCache :: Cache where
  "NewCache = \<lparr>Cache_items = Map.empty\<rparr>"

definition expire_items :: "(string \<Rightarrow> time option) \<Rightarrow> time \<Rightarrow> string \<Rightarrow> time option" where
  "expire_items m now k = (case m k of None \<Rightarrow> None | Some e \<Rightarrow> if After now e then None else Some e)"

definition Use :: "Cache \<Rightarrow> string \<Rightarrow> time \<Rightarrow> time \<Rightarrow> bool \<times> Cache" where
  "Use c key expiresAt now =
     (let items = expire_items (Cache_items c) now in
      case items key of
        Some e \<Rightarrow> if Before now e then (False, c\<lparr>Cache_items := items\<rparr>)
                  else (True, c\<lparr>Cache_items := items(key \<mapsto> expiresAt)\<rparr>)
      | None \<Rightarrow> (True, c\<lparr>Cache_items := items(key \<mapsto> expiresAt)\<rparr>))"

section \<open>The contract of a replay guard\<close>

text \<open>
  \<open>use s k e now\<close> asks to use the key \<open>k\<close> at \<open>now\<close>, valid until \<open>e\<close>. \<open>until e\<close> is the instant the
  guard remembers for \<open>e\<close>; \<open>blocked s k e\<close> says that it refuses \<open>k\<close> before \<open>e\<close>.
\<close>

fun use_times :: "('s \<Rightarrow> 'k \<Rightarrow> time \<Rightarrow> time \<Rightarrow> bool \<times> 's) \<Rightarrow> 's \<Rightarrow> ('k \<times> time \<times> time) list \<Rightarrow> bool list \<times> 's" where
  "use_times use s [] = ([], s)"
| "use_times use s ((k, e, now) # calls) =
     (fst (use s k e now) # fst (use_times use (snd (use s k e now)) calls),
      snd (use_times use (snd (use s k e now)) calls))"

locale replay_guard =
  fixes use :: "'s \<Rightarrow> 'k \<Rightarrow> time \<Rightarrow> time \<Rightarrow> bool \<times> 's" and until :: "time \<Rightarrow> time"
    and blocked :: "'s \<Rightarrow> 'k \<Rightarrow> time \<Rightarrow> bool"
  assumes use_blocks: "fst (use s k e now) \<Longrightarrow> blocked (snd (use s k e now)) k (until e)"
    and blocked_refuses: "blocked s k e \<Longrightarrow> now < e \<Longrightarrow> \<not> fst (use s k e' now)"
    and blocked_stays: "blocked s k e \<Longrightarrow> now < e \<Longrightarrow> blocked (snd (use s k' e' now)) k e"
begin

lemma blocked_until:
  assumes "blocked s k e" "\<forall>(k', e', now)\<in>set calls. now < e"
  shows "list_all2 (\<lambda>(k', e', now) ok. k' = k \<longrightarrow> \<not> ok) calls (fst (use_times use s calls))"
  using assms
proof (induction calls arbitrary: s)
  case (Cons c calls)
  obtain k' e' now where c: "c = (k', e', now)" by (cases c)
  then have n: "now < e" using Cons.prems(2) by simp
  show ?case
    using Cons.IH[of "snd (use s k' e' now)"] blocked_stays[OF Cons.prems(1) n, of k' e']
      blocked_refuses[OF Cons.prems(1) n, of e'] Cons.prems(2) by (auto simp: c)
qed simp

text \<open>A key once used is refused at every later call before its expiry.\<close>

lemma no_replay:
  assumes "fst (use s k e now)" "\<forall>(k', e', now')\<in>set calls. now' < until e"
  shows "list_all2 (\<lambda>(k', e', now') ok. k' = k \<longrightarrow> \<not> ok) calls (fst (use_times use (snd (use s k e now)) calls))"
  using blocked_until[OF use_blocks[OF assms(1)] assms(2)] .

end

section \<open>The cache is a replay guard\<close>

definition cache_blocked :: "Cache \<Rightarrow> string \<Rightarrow> time \<Rightarrow> bool" where
  "cache_blocked c k e \<longleftrightarrow> (\<exists>e'. Cache_items c k = Some e' \<and> e \<le> e')"

lemma Use_simps:
  "Cache_items c k = Some e \<Longrightarrow> now < e \<Longrightarrow> Use c k e' now = (False, c\<lparr>Cache_items := expire_items (Cache_items c) now\<rparr>)"
  "fst (Use c k e' now) \<Longrightarrow> Cache_items (snd (Use c k e' now)) k = Some e'"
  by (auto simp: Use_def Let_def expire_items_def After_def Before_def split: option.splits if_splits)

interpretation cache: replay_guard Use "\<lambda>e. e" cache_blocked
proof
  fix c :: Cache and k k' e e' now
  show "fst (Use c k e now) \<Longrightarrow> cache_blocked (snd (Use c k e now)) k e"
    using Use_simps(2)[of c k e now] by (simp add: cache_blocked_def)
  show "cache_blocked c k e \<Longrightarrow> now < e \<Longrightarrow> \<not> fst (Use c k e' now)"
    using Use_simps(1)[of c k] by (force simp: cache_blocked_def)
  show "cache_blocked c k e \<Longrightarrow> now < e \<Longrightarrow> cache_blocked (snd (Use c k' e' now)) k e"
    by (cases "k' = k") (auto simp: cache_blocked_def Use_def Let_def expire_items_def After_def Before_def split: option.splits if_splits)
qed

section \<open>Properties\<close>

text \<open>
  A nonce is accepted when it is new, and once accepted it is refused by every later call before its expiry,
  whatever else is used in between.
\<close>

theorem replay_cache_blocks:
  assumes "Cache_items c k = None" "\<forall>(k', e', now')\<in>set calls. now' < e"
  shows "fst (Use c k e now) \<and>
     list_all2 (\<lambda>(k', e', now') ok. k' = k \<longrightarrow> \<not> ok) calls (fst (use_times Use (snd (Use c k e now)) calls))"
proof
  show "fst (Use c k e now)" using assms(1) by (simp add: Use_def expire_items_def Let_def)
  then show "list_all2 (\<lambda>(k', e', now') ok. k' = k \<longrightarrow> \<not> ok) calls (fst (use_times Use (snd (Use c k e now)) calls))"
    using assms(2) by (rule cache.no_replay)
qed

theorem replay_cache_blocks_witness:
  "fst (Use NewCache ''n'' 10 1) \<and> fst (use_times Use (snd (Use NewCache ''n'' 10 1)) [(''m'', 10, 2), (''n'', 10, 9)]) ! 1 = False"
proof -
  have "Cache_items NewCache ''n'' = None" by (simp add: NewCache_def)
  from replay_cache_blocks[OF this, of "[(''m'', 10, 2), (''n'', 10, 9)]" 10 1] show ?thesis by simp
qed

end
