(* ===== verification/Ratelimit.thy ===== *)
theory Ratelimit
  imports Go_Time
begin

text \<open>\<^verbatim>\<open>pkg/server/ratelimit/ratelimit.go\<close>: the fixed-window limiter in front of both services.\<close>

record counter =
  Ctr_count :: int
  Ctr_reset :: time

record Limiter =
  Lim_limit :: int
  Lim_window :: duration
  Lim_counters :: "string \<Rightarrow> counter option"

definition NewLimiter :: "int \<Rightarrow> duration \<Rightarrow> Limiter" where
  "NewLimiter limit window = \<lparr>Lim_limit = limit, Lim_window = window, Lim_counters = Map.empty\<rparr>"

definition Allow :: "Limiter \<Rightarrow> string \<Rightarrow> time \<Rightarrow> bool \<times> Limiter" where
  "Allow l key now =
     (let c0 = (case Lim_counters l key of None \<Rightarrow> \<lparr>Ctr_count = 0, Ctr_reset = 0\<rparr> | Some c \<Rightarrow> c);
          c = (if IsZero (Ctr_reset c0) \<or> After now (Ctr_reset c0)
               then \<lparr>Ctr_count = 0, Ctr_reset = Add now (Lim_window l)\<rparr> else c0)
      in if Lim_limit l \<le> Ctr_count c then (False, l\<lparr>Lim_counters := (Lim_counters l)(key \<mapsto> c)\<rparr>)
         else (True, l\<lparr>Lim_counters := (Lim_counters l)(key \<mapsto> c\<lparr>Ctr_count := Ctr_count c + 1\<rparr>)\<rparr>))"

text \<open>A sequence of requests with the answers they get.\<close>

fun allow_all :: "Limiter \<Rightarrow> (string \<times> time) list \<Rightarrow> bool list \<times> Limiter" where
  "allow_all l [] = ([], l)"
| "allow_all l ((k, now) # calls) =
     (fst (Allow l k now) # fst (allow_all (snd (Allow l k now)) calls), snd (allow_all (snd (Allow l k now)) calls))"

text \<open>What one client sees: the times of its requests and the answers they got.\<close>

definition times_of :: "string \<Rightarrow> (string \<times> time) list \<Rightarrow> time list" where
  "times_of k calls = map snd (filter (\<lambda>(k', now). k' = k) calls)"

definition answers_to :: "string \<Rightarrow> (string \<times> time) list \<Rightarrow> bool list \<Rightarrow> bool list" where
  "answers_to k calls rs = map snd (filter (\<lambda>((k', now), ok). k' = k) (zip calls rs))"

lemma client_simps [simp]:
  "times_of k [] = []"
  "times_of k ((k', now) # calls) = (if k' = k then now # times_of k calls else times_of k calls)"
  "answers_to k [] rs = []"
  "answers_to k ((k', now) # calls) (ok # rs) = (if k' = k then ok # answers_to k calls rs else answers_to k calls rs)"
  by (simp_all add: times_of_def answers_to_def)

text \<open>
  The contract, without counters: the requests of a client fall into windows, each opened by the first request after
  the end of the one before, and the first \<open>limit\<close> requests of every window are allowed.
\<close>

function window_answers :: "int \<Rightarrow> duration \<Rightarrow> time list \<Rightarrow> bool list" where
  "window_answers limit window [] = []"
| "window_answers limit window (t # ts) =
     map (\<lambda>i. int i < limit) [0..<Suc (length (takeWhile (\<lambda>u. u \<le> t + window) ts))]
     @ window_answers limit window (dropWhile (\<lambda>u. u \<le> t + window) ts)"
  by pat_completeness auto
termination by (relation "measure (\<lambda>(limit, window, ts). length ts)") (auto intro: le_imp_less_Suc length_dropWhile_le)

declare window_answers.simps(2) [simp del]

lemma Allow_other:
  "k' \<noteq> k \<Longrightarrow> Lim_counters (snd (Allow l k' now)) k = Lim_counters l k"
  "Lim_limit (snd (Allow l k' now)) = Lim_limit l" "Lim_window (snd (Allow l k' now)) = Lim_window l"
  by (simp_all add: Allow_def Let_def)

text \<open>A counter is in step when it has counted the \<open>n\<close> requests of its window, up to the limit.\<close>

definition counted :: "Limiter \<Rightarrow> string \<Rightarrow> nat \<Rightarrow> time \<Rightarrow> bool" where
  "counted l k n end_at \<longleftrightarrow> end_at \<noteq> 0 \<and>
     Lim_counters l k = Some \<lparr>Ctr_count = int (min n (nat (Lim_limit l))), Ctr_reset = end_at\<rparr>"

lemma Allow_within:
  assumes "counted l k n end_at" "now \<le> end_at"
  shows "fst (Allow l k now) \<longleftrightarrow> int n < Lim_limit l" and "counted (snd (Allow l k now)) k (Suc n) end_at"
  using assms by (auto simp: Allow_def Let_def IsZero_def After_def counted_def min_def)

lemma Allow_opens:
  assumes "Lim_counters l k = None \<or> counted l k n end_at \<and> end_at < now" "now + Lim_window l \<noteq> 0"
  shows "fst (Allow l k now) \<longleftrightarrow> 0 < Lim_limit l" and "counted (snd (Allow l k now)) k 1 (now + Lim_window l)"
  using assms by (auto simp: Allow_def Let_def IsZero_def After_def Add_def counted_def min_def)

lemma within_window:
  assumes "counted l k n end_at" "\<forall>(k', now)\<in>set calls. now + Lim_window l \<noteq> 0"
  shows "answers_to k calls (fst (allow_all l calls)) =
    map (\<lambda>i. int i < Lim_limit l) [n..<n + length (takeWhile (\<lambda>u. u \<le> end_at) (times_of k calls))]
    @ window_answers (Lim_limit l) (Lim_window l) (dropWhile (\<lambda>u. u \<le> end_at) (times_of k calls))"
  using assms
proof (induction calls arbitrary: l n end_at)
  case (Cons call calls)
  obtain k' now where p: "call = (k', now)" by force
  let ?l = "snd (Allow l k' now)"
  have keep: "Lim_limit ?l = Lim_limit l" "Lim_window ?l = Lim_window l" by (simp_all add: Allow_other)
  have z: "now + Lim_window l \<noteq> 0" "\<forall>(k', now)\<in>set calls. now + Lim_window ?l \<noteq> 0"
    using Cons.prems(2) by (auto simp: p keep)
  show ?case
  proof (cases "k' = k")
    case False
    then have "counted ?l k n end_at" using Cons.prems(1) by (simp add: counted_def Allow_other)
    from Cons.IH[OF this z(2)] show ?thesis using False by (simp add: p keep)
  next
    case True
    show ?thesis
    proof (cases "now \<le> end_at")
      case within: True
      note W = Allow_within[OF Cons.prems(1) within]
      show ?thesis
        using Cons.IH[OF W(2)] z(2) W(1) within True by (simp add: p Allow_other upt_conv_Cons del: upt_Suc)
    next
      case False
      then have o: "Lim_counters l k = None \<or> counted l k n end_at \<and> end_at < now" using Cons.prems(1) by simp
      note W = Allow_opens[OF o z(1)]
      show ?thesis
        using Cons.IH[OF W(2)] z(2) W(1) False True
        by (simp add: p Allow_other upt_conv_Cons window_answers.simps(2) del: upt_Suc)
    qed
  qed
qed simp

lemma fresh_windows:
  assumes "Lim_counters l k = None" "\<forall>(k', now)\<in>set calls. now + Lim_window l \<noteq> 0"
  shows "answers_to k calls (fst (allow_all l calls)) = window_answers (Lim_limit l) (Lim_window l) (times_of k calls)"
  using assms
proof (induction calls arbitrary: l)
  case (Cons call calls)
  obtain k' now where p: "call = (k', now)" by force
  let ?l = "snd (Allow l k' now)"
  have keep: "Lim_limit ?l = Lim_limit l" "Lim_window ?l = Lim_window l" by (simp_all add: Allow_other)
  have z: "now + Lim_window l \<noteq> 0" "\<forall>(k', now)\<in>set calls. now + Lim_window ?l \<noteq> 0"
    using Cons.prems(2) by (auto simp: p keep)
  show ?case
  proof (cases "k' = k")
    case False
    then show ?thesis using Cons.IH[of ?l] Cons.prems(1) z(2) by (simp add: p keep Allow_other)
  next
    case True
    have W: "fst (Allow l k now) \<longleftrightarrow> 0 < Lim_limit l" "counted (snd (Allow l k now)) k 1 (now + Lim_window l)"
      using Allow_opens[of l k 0 0 now] Cons.prems(1) z(1) by simp_all
    show ?thesis
      using within_window[OF W(2)] z(2) W(1) True by (simp add: p Allow_other upt_conv_Cons window_answers.simps(2) del: upt_Suc)
  qed
qed simp

section \<open>Properties\<close>

text \<open>
  C38. The limiter answers every sequence of requests as the contract says: whatever other clients do in between, the
  requests of a client fall into windows, a new one opening with the first request after the end of the last, and
  in each window exactly the first \<open>limit\<close> requests are allowed. (No window ends on Go's zero time, which the code
  reads as no window.)
\<close>

theorem rate_limit_exact:
  assumes "\<forall>(k', now)\<in>set calls. now + window \<noteq> 0"
  shows "answers_to k calls (fst (allow_all (NewLimiter limit window) calls)) = window_answers limit window (times_of k calls)"
  using fresh_windows[of "NewLimiter limit window" k calls] assms by (simp add: NewLimiter_def)

theorem rate_limit_exact_witness:
  "answers_to ''a'' [(''a'', 1), (''a'', 2), (''b'', 2), (''a'', 61), (''a'', 62), (''b'', 63), (''a'', 70), (''a'', 80)]
     (fst (allow_all (NewLimiter 2 60) [(''a'', 1), (''a'', 2), (''b'', 2), (''a'', 61), (''a'', 62), (''b'', 63), (''a'', 70), (''a'', 80)]))
   = [True, True, False, True, True, False]"
  using rate_limit_exact[of "[(''a'', 1), (''a'', 2), (''b'', 2), (''a'', 61), (''a'', 62), (''b'', 63), (''a'', 70), (''a'', 80)]" 60 "''a''" 2]
  by (simp add: window_answers.simps)

end
