(* ===== verification/Keyring.thy ===== *)
theory Keyring
  imports Crypto Model_Prims
begin

text \<open>
  \<^verbatim>\<open>pkg/server/keyring/keyring.go\<close>: the signing keys of a service. The map of keys is an association
  list; its order stands for the order in which the map happens to be iterated, so statements
  about \<^verbatim>\<open>Active\<close> and \<^verbatim>\<open>Keys\<close> hold for every order.
\<close>

datatype KeyState = StateNext | StateActive | StateRetired | StateRevoked

record Key =
  Key_ID :: string
  Key_State :: KeyState
  Key_Private :: Ed25519PrivateKey
  Key_Public :: Ed25519PublicKey

record Ring =
  Ring_keys :: "(string \<times> Key) list"

definition NewRing :: Ring where
  "NewRing = \<lparr>Ring_keys = []\<rparr>"

definition Ring_Add :: "Ring \<Rightarrow> Key \<Rightarrow> Ring" where
  "Ring_Add r key = r\<lparr>Ring_keys := al_put (Key_ID key) key (Ring_keys r)\<rparr>"

definition Active :: "Ring \<Rightarrow> Key result" where
  "Active r =
     (case find (\<lambda>(ident, key). Key_State key = StateActive) (Ring_keys r) of
        Some (ident, key) \<Rightarrow> Inr key
      | None \<Rightarrow> reject CodeKeyInvalid ''active signing key not found'')"

definition Ring_Get :: "Ring \<Rightarrow> string \<Rightarrow> Key result" where
  "Ring_Get r ident =
     (case map_of (Ring_keys r) ident of
        None \<Rightarrow> reject CodeKeyInvalid ''signing key not found''
      | Some key \<Rightarrow> if Key_State key = StateRevoked then reject CodeKeyInvalid ''signing key not found'' else Inr key)"

definition Ring_Keys :: "Ring \<Rightarrow> Key list" where
  "Ring_Keys r = map snd (Ring_keys r)"

definition retire :: "Key \<Rightarrow> Key" where
  "retire key = (if Key_State key = StateActive then key\<lparr>Key_State := StateRetired\<rparr> else key)"

definition Rotate :: "Ring \<Rightarrow> string \<Rightarrow> unit result \<times> Ring" where
  "Rotate r nextID =
     (case map_of (Ring_keys r) nextID of
        None \<Rightarrow> (reject CodeKeyInvalid ''next key not found'', r)
      | Some nxt \<Rightarrow>
          if Key_State nxt \<noteq> StateNext then (reject CodeKeyInvalid ''next key not found'', r)
          else (Inr (), r\<lparr>Ring_keys := al_put nextID (nxt\<lparr>Key_State := StateActive\<rparr>)
                            (map (\<lambda>(ident, key). (ident, retire key)) (Ring_keys r))\<rparr>))"

section \<open>Invariant\<close>

definition actives :: "Ring \<Rightarrow> string set" where
  "actives r = {ident. \<exists>key. map_of (Ring_keys r) ident = Some key \<and> Key_State key = StateActive}"

definition ring_ok :: "Ring \<Rightarrow> bool" where
  "ring_ok r \<longleftrightarrow> distinct (map fst (Ring_keys r)) \<and> (\<forall>(ident, key)\<in>set (Ring_keys r). Key_ID key = ident)"

lemma set_al_put: "distinct (map fst m) \<Longrightarrow> set (al_put k v m) = insert (k, v) {p \<in> set m. fst p \<noteq> k}"
  by (induction k v m rule: al_put.induct) (auto simp: image_iff)

lemma Add_ok: "ring_ok r \<Longrightarrow> ring_ok (Ring_Add r key)"
  by (auto simp: ring_ok_def Ring_Add_def set_al_put)

lemma retire_state [simp]: "Key_State (retire key) \<noteq> StateActive"
  by (simp add: retire_def)

lemma retire_fst: "map fst (map (\<lambda>(ident, key). (ident, retire key)) xs) = map fst xs"
  by (induction xs) auto

lemma Rotate_ok:
  assumes "ring_ok r"
  shows "ring_ok (snd (Rotate r nextID))"
proof (cases "map_of (Ring_keys r) nextID")
  case (Some nxt)
  then have "Key_ID nxt = nextID" using assms by (auto simp: ring_ok_def dest: map_of_SomeD)
  moreover have "distinct (map fst (map (\<lambda>(ident, key). (ident, retire key)) (Ring_keys r)))"
    using assms by (simp only: retire_fst ring_ok_def)
  ultimately show ?thesis using assms Some
    by (auto simp: Rotate_def ring_ok_def set_al_put retire_def)
qed (use assms in \<open>simp add: Rotate_def\<close>)

lemma Rotate_keys:
  assumes "Rotate r nextID = (Inr (), r')"
  obtains nxt where "map_of (Ring_keys r) nextID = Some nxt" "Key_State nxt = StateNext"
    "map_of (Ring_keys r') = (map_option retire \<circ> map_of (Ring_keys r))(nextID \<mapsto> nxt\<lparr>Key_State := StateActive\<rparr>)"
  using assms
  by (fastforce simp: Rotate_def map_of_map split: option.splits if_splits)

lemma Active_Inr:
  assumes "ring_ok r" "Active r = Inr key"
  shows "Key_ID key \<in> actives r" "map_of (Ring_keys r) (Key_ID key) = Some key"
proof -
  obtain ident where f: "find (\<lambda>(ident, key). Key_State key = StateActive) (Ring_keys r) = Some (ident, key)"
    using assms(2) by (auto simp: Active_def split: option.splits)
  then have "(ident, key) \<in> set (Ring_keys r)" "Key_State key = StateActive" by (auto simp: find_Some_iff) (metis nth_mem)
  then show "Key_ID key \<in> actives r" "map_of (Ring_keys r) (Key_ID key) = Some key"
    using assms(1) by (auto simp: ring_ok_def actives_def)
qed

lemma Active_ok: "actives r \<noteq> {} \<Longrightarrow> \<exists>key. Active r = Inr key"
proof -
  assume "actives r \<noteq> {}"
  then obtain ident key where "(ident, key) \<in> set (Ring_keys r)" "Key_State key = StateActive"
    by (auto simp: actives_def dest: map_of_SomeD)
  then show ?thesis by (auto simp: Active_def find_None_iff split: option.splits)
qed

section \<open>Properties\<close>

text \<open>
  Rotation: after a successful rotation the rotated key, which was in state next, is the one active key and is
  what \<^verbatim>\<open>Active\<close> returns; every key that was active is retired and still available for verification;
  no other key changes; and a failed rotation changes nothing.
\<close>

theorem Rotate_spec:
  assumes "ring_ok r" "Rotate r nextID = (res, r')"
  shows "ring_ok r' \<and> (if res = Inr ()
     then actives r' = {nextID} \<and> (\<exists>key. Active r' = Inr key \<and> Key_ID key = nextID) \<and>
       (\<forall>ident\<in>actives r. \<exists>key. Ring_Get r' ident = Inr key \<and> Key_State key = StateRetired) \<and>
       (\<forall>ident. ident \<noteq> nextID \<longrightarrow> ident \<notin> actives r \<longrightarrow> map_of (Ring_keys r') ident = map_of (Ring_keys r) ident)
     else r' = r)"
proof (cases "res = Inr ()")
  case True
  obtain nxt where n: "map_of (Ring_keys r) nextID = Some nxt" "Key_State nxt = StateNext"
    "map_of (Ring_keys r') = (map_option retire \<circ> map_of (Ring_keys r))(nextID \<mapsto> nxt\<lparr>Key_State := StateActive\<rparr>)"
    using assms(2) True by (metis Rotate_keys)
  have a: "actives r' = {nextID}" by (auto simp: actives_def n(3) split: if_splits)
  have ok: "ring_ok r'" using Rotate_ok[OF assms(1), of nextID] assms(2) by simp
  obtain key where key: "Active r' = Inr key" using Active_ok[of r'] a by auto
  then have "Key_ID key = nextID" using Active_Inr(1)[OF ok key] a by simp
  moreover have "\<forall>ident\<in>actives r. \<exists>key. Ring_Get r' ident = Inr key \<and> Key_State key = StateRetired"
    using n by (auto simp: actives_def Ring_Get_def retire_def)
  moreover have "\<forall>ident. ident \<noteq> nextID \<longrightarrow> ident \<notin> actives r \<longrightarrow> map_of (Ring_keys r') ident = map_of (Ring_keys r) ident"
    by (auto simp: n(3) actives_def retire_def map_option_case split: option.splits)
  ultimately show ?thesis using True a ok key by auto
next
  case False
  then show ?thesis using assms by (auto simp: Rotate_def split: option.splits if_splits)
qed

definition sample_key :: "string \<Rightarrow> KeyState \<Rightarrow> Key" where
  "sample_key ident st = \<lparr>Key_ID = ident, Key_State = st, Key_Private = Ed25519PrivateKey [], Key_Public = Ed25519PublicKey []\<rparr>"

theorem Rotate_spec_witness:
  "\<exists>r' key. Rotate (Ring_Add (Ring_Add NewRing (sample_key ''a'' StateActive)) (sample_key ''b'' StateNext)) ''b'' = (Inr (), r') \<and>
     Active r' = Inr key \<and> Key_ID key = ''b''"
proof -
  let ?r = "Ring_Add (Ring_Add NewRing (sample_key ''a'' StateActive)) (sample_key ''b'' StateNext)"
  have ok: "ring_ok ?r" by (intro Add_ok) (simp add: ring_ok_def NewRing_def)
  obtain r' where r: "Rotate ?r ''b'' = (Inr (), r')"
    by (simp add: Rotate_def Ring_Add_def NewRing_def sample_key_def)
  from Rotate_spec[OF ok r] r show ?thesis by auto
qed

end
