(* ===== verification/Payload.thy ===== *)
theory Payload
  imports Json_Decode
begin

text \<open>
  \<^verbatim>\<open>pkg/iscp/payload/payload.go\<close>: the registry of payload types and the text payload, with its round trip
  through JSON; \<^verbatim>\<open>pkg/iscp/hotsession/hotsession.go\<close>: the check of a hot-session ticket.
\<close>

section \<open>Payloads\<close>

definition TypeText :: string where "TypeText = ''text''"
definition TypeAudioFrame :: string where "TypeAudioFrame = ''audio.frame''"
definition TypeAudioControl :: string where "TypeAudioControl = ''audio.control''"
definition TypeTaskInvoke :: string where "TypeTaskInvoke = ''task.invoke''"
definition TypeTaskResult :: string where "TypeTaskResult = ''task.result''"

record Registry =
  Reg_allowed :: "string set"

definition DefaultRegistry :: Registry where
  "DefaultRegistry = \<lparr>Reg_allowed = {TypeText, TypeAudioFrame, TypeAudioControl, TypeTaskInvoke, TypeTaskResult}\<rparr>"

definition Registry_Validate :: "Registry \<Rightarrow> string \<Rightarrow> unit result" where
  "Registry_Validate r payloadType =
     (if payloadType \<notin> Reg_allowed r then reject CodeEnvelopeInvalid ''unsupported payload type'' else Inr ())"

record Text =
  Text_Text :: string

definition EncodeText :: "string \<Rightarrow> bytes result" where
  "EncodeText text = json_Marshal (json_object [(''text'', Inr (DStr text))])"

definition text_table :: "(string \<times> Text setter) list" where
  "text_table = [(''text'', set_string (\<lambda>s t. t\<lparr>Text_Text := s\<rparr>))]"

definition DecodeText :: "bytes \<Rightarrow> Text result" where
  "DecodeText data = Unmarshal_struct text_table \<lparr>Text_Text = []\<rparr> data"

lemma EncodeText_ok: "EncodeText t = Inr (encode (DObj [(''text'', DStr t)]))"
  by (simp add: EncodeText_def json_object_def json_Marshal_def)

lemma text_roundtrip:
  assumes "EncodeText t = Inr data"
  shows "DecodeText data = Inr \<lparr>Text_Text = to_valid t\<rparr>"
proof -
  have d: "doc_ok (DObj [(''text'', DStr t)])" "doc_depth (DObj [(''text'', DStr t)]) \<le> maxNestingDepth"
    by (simp_all add: maxNestingDepth_def)
  have v: "to_valid ''text'' = ''text''" by (simp add: to_valid_ascii)
  have data: "data = encode (DObj [(''text'', DStr t)])" using assms by (simp add: EncodeText_ok)
  show ?thesis unfolding DecodeText_def data Unmarshal_struct_encode[OF d]
    by (simp add: text_table_def v find_setter_def)
qed

section \<open>Hot sessions\<close>

record HotTicket =
  HT_SessionID :: string
  HT_GrantID :: string
  HT_Permission :: string
  HT_Counter :: "64 word"
  HT_ResumeBefore :: time

definition HotTicket_Validate :: "HotTicket \<Rightarrow> string \<Rightarrow> time \<Rightarrow> unit result" where
  "HotTicket_Validate t permission now =
     (if HT_SessionID t = [] \<or> HT_GrantID t = [] then reject CodeSessionInvalid ''hot session is incomplete''
      else if HT_Permission t \<noteq> permission then reject CodeSessionInvalid ''hot session permission mismatch''
      else if \<not> Before now (HT_ResumeBefore t) then reject CodeSessionInvalid ''hot session resume window expired''
      else Inr ())"

lemma HotTicket_Validate_Inr_iff:
  "HotTicket_Validate t permission now = Inr () \<longleftrightarrow>
     HT_SessionID t \<noteq> [] \<and> HT_GrantID t \<noteq> [] \<and> HT_Permission t = permission \<and> now < HT_ResumeBefore t"
  by (simp add: HotTicket_Validate_def Before_def)

end
