(* ===== verification/Logging.thy ===== *)
theory Logging
  imports Json_Decode
begin

text \<open>
  \<^verbatim>\<open>pkg/iscp/logging/redact.go\<close>: redaction of log attributes. The case-insensitive pattern matches the
  folded key (\<open>fold_name\<close>: ASCII upper case, the Kelvin sign as K, the long s as S); its alternatives
  are written out as texts. \<open>lower_text\<close> agrees with \<^verbatim>\<open>strings.ToLower\<close> on every character that lower
  cases to ASCII, which is what decides whether an ASCII text occurs in it.
\<close>

definition redacted :: string where
  "redacted = ''[REDACTED]''"

definition optional_separator :: "string \<Rightarrow> string \<Rightarrow> string list" where
  "optional_separator a b = [a @ b, a @ ''_'' @ b, a @ ''-'' @ b]"

definition secretKeyPattern :: "string list" where
  "secretKeyPattern =
     optional_separator ''PRIVATE'' ''KEY'' @ optional_separator ''REFRESH'' ''CREDENTIAL'' @
     optional_separator ''ACCESS'' ''TOKEN'' @ optional_separator ''SESSION'' ''KEY'' @
     [''PAYLOAD_PLAINTEXT'', ''PLAINTEXT_PAYLOAD'', ''CIPHER_KEY'', ''SECRET'']"

definition matches_secret :: "string \<Rightarrow> bool" where
  "matches_secret key \<longleftrightarrow> list_ex (\<lambda>p. contains_sub p (fold_name key)) secretKeyPattern"

text \<open>The Kelvin sign lower cases to k and the dotted capital I to i.\<close>

fun lower_text :: "string \<Rightarrow> string" where
  "lower_text [] = []"
| "lower_text (a # s) =
     (case s of
        b # c # r \<Rightarrow> if a = CHR 0xE2 \<and> b = CHR 0x84 \<and> c = CHR 0xAA then CHR ''k'' # lower_text r
                    else if a = CHR 0xC4 \<and> b = CHR 0xB0 then CHR ''i'' # lower_text (c # r)
                    else lower_char a # lower_text s
      | [b] \<Rightarrow> if a = CHR 0xC4 \<and> b = CHR 0xB0 then ''i'' else lower_char a # lower_text s
      | [] \<Rightarrow> [lower_char a])"

definition RedactString :: "string \<Rightarrow> string" where
  "RedactString input =
     (let lower = lower_text input in
      if contains_sub ''private key'' lower \<or> contains_sub ''access_token='' lower \<or>
         contains_sub ''refresh_credential='' lower \<or> contains_sub ''session_key='' lower
      then redacted else input)"

text \<open>A logged value: a string or anything else.\<close>

datatype 'a log_value = LogString string | LogOther 'a

definition RedactKeyValue :: "string \<Rightarrow> 'a log_value \<Rightarrow> 'a log_value" where
  "RedactKeyValue key v =
     (if matches_secret key then LogString redacted
      else case v of LogString s \<Rightarrow> LogString (RedactString s) | LogOther x \<Rightarrow> LogOther x)"

record 'a Attr =
  Attr_Key :: string
  Attr_Value :: "'a log_value"

definition ReplaceAttr :: "string list \<Rightarrow> 'a Attr \<Rightarrow> 'a Attr" where
  "ReplaceAttr groups a = a\<lparr>Attr_Value := RedactKeyValue (Attr_Key a) (Attr_Value a)\<rparr>"

lemma starts_with_length: "starts_with p s \<Longrightarrow> length p \<le> length s"
  by (induction p s rule: starts_with.induct) auto

lemma contains_sub_length: "contains_sub p s \<Longrightarrow> length p \<le> length s"
  by (induction s) (auto dest: starts_with_length)

lemma lower_text_step: "length (lower_text (a # s)) \<le> Suc (length s) \<longleftrightarrow>
    length (case s of
        b # c # r \<Rightarrow> if a = CHR 0xE2 \<and> b = CHR 0x84 \<and> c = CHR 0xAA then CHR ''k'' # lower_text r
                    else if a = CHR 0xC4 \<and> b = CHR 0xB0 then CHR ''i'' # lower_text (c # r)
                    else lower_char a # lower_text s
      | [b] \<Rightarrow> if a = CHR 0xC4 \<and> b = CHR 0xB0 then ''i'' else lower_char a # lower_text s
      | [] \<Rightarrow> [lower_char a]) \<le> Suc (length s)"
  by (subst lower_text.simps) (rule refl)

lemma lower_text_length: "length (lower_text s) \<le> length s"
proof (induction s rule: length_induct)
  case (1 s)
  show ?case
  proof (cases s)
    case (Cons a t)
    have IH: "length (lower_text u) \<le> length u" if "length u < length s" for u using 1 that by blast
    show ?thesis unfolding Cons list.size(4) add_Suc_right add_0_right lower_text_step
      using IH[of t] IH[of "tl t"] IH[of "tl (tl t)"] by (auto simp: Cons simp del: lower_text.simps(2) split: list.split)
  qed simp
qed

lemma RedactString_redacted: "RedactString redacted = redacted"
proof -
  have "\<not> contains_sub p (lower_text redacted)" if "10 < length p" for p
    using contains_sub_length[of p "lower_text redacted"] lower_text_length[of redacted] that by (auto simp: redacted_def simp del: lower_text.simps)
  then show ?thesis by (simp add: RedactString_def)
qed

lemma RedactString_idempotent: "RedactString (RedactString s) = RedactString s"
  using RedactString_redacted by (auto simp: RedactString_def Let_def)

lemma ReplaceAttr_idempotent: "ReplaceAttr gs (ReplaceAttr gs a) = ReplaceAttr gs a"
  by (auto simp: ReplaceAttr_def RedactKeyValue_def RedactString_idempotent split: log_value.splits)

text \<open>ASCII letter case does not hide a secret's name.\<close>

lemma upper_byte:
  "byte_val (upper_char c) = (if 97 \<le> byte_val c \<and> byte_val c \<le> 122 then byte_val c - 32 else byte_val c)"
proof -
  have "(byte_val c - 32) mod 256 = byte_val c - 32" using of_char_mod_256[of c] by (metis less_imp_diff_less mod_less mod_less_divisor zero_less_numeral)
  then show ?thesis by (simp add: upper_char_def less_eq_char_def)
qed

lemma upper_upper: "upper_char (upper_char c) = upper_char c"
proof -
  have "byte_val (upper_char (upper_char c)) = byte_val (upper_char c)" by (auto simp: upper_byte)
  then show ?thesis by simp
qed

lemma fold_name_Cons: "byte_val a < 128 \<Longrightarrow> fold_name (a # s) = upper_char a # fold_name s"
  by (subst fold_name.simps) (auto simp del: fold_name.simps(2) split: list.split)

lemma fold_name_ascii: "list_all (\<lambda>c. byte_val c < 128) s \<Longrightarrow> fold_name s = to_upper s"
  by (induction s) (simp_all add: to_upper_def fold_name_Cons del: fold_name.simps(2))

lemma upper_ascii: "byte_val c < 128 \<Longrightarrow> byte_val (upper_char c) < 128"
  by (auto simp: upper_byte)

lemma matches_secret_case:
  assumes "list_all (\<lambda>c. byte_val c < 128) key"
  shows "matches_secret (to_upper key) = matches_secret key"
proof -
  have "list_all (\<lambda>c. byte_val c < 128) (to_upper key)" using assms upper_ascii by (simp add: to_upper_def list_all_iff)
  then have "fold_name (to_upper key) = fold_name key"
    using assms by (simp add: fold_name_ascii) (simp add: to_upper_def upper_upper)
  then show ?thesis by (simp add: matches_secret_def)
qed

end
