(* ===== verification/Policy.thy ===== *)
theory Policy
  imports Go_Time
begin

text \<open>\<^verbatim>\<open>pkg/server/policy/policy.go\<close>: the permission rules of the trust root.\<close>

record PermissionRule =
  Rule_Permission :: string
  Rule_RiskClass :: string
  Rule_MaxTTL :: duration
  Rule_MaxCacheStaleness :: duration
  Rule_RequiresAuthorizedDevice :: bool

record Engine =
  Engine_rules :: "string \<Rightarrow> PermissionRule option"

definition NewDefault :: Engine where
  "NewDefault = \<lparr>Engine_rules =
     [''text'' \<mapsto> \<lparr>Rule_Permission = ''text'', Rule_RiskClass = ''normal'', Rule_MaxTTL = Hour,
        Rule_MaxCacheStaleness = 30 * Second, Rule_RequiresAuthorizedDevice = True\<rparr>,
      ''audio.frame'' \<mapsto> \<lparr>Rule_Permission = ''audio.frame'', Rule_RiskClass = ''sensitive'', Rule_MaxTTL = 5 * Minute,
        Rule_MaxCacheStaleness = 5 * Second, Rule_RequiresAuthorizedDevice = True\<rparr>]\<rparr>"

definition Engine_Rule :: "Engine \<Rightarrow> string \<Rightarrow> PermissionRule result" where
  "Engine_Rule e permission =
     (case Engine_rules e permission of
        None \<Rightarrow> reject CodeTrustInvalid ''permission is not allowed by policy''
      | Some rule \<Rightarrow> Inr rule)"

lemma default_rule_ttl:
  "Engine_Rule NewDefault p = Inr rule \<Longrightarrow> 0 < Rule_MaxTTL rule \<and> Rule_MaxTTL rule \<le> Hour"
  by (auto simp: Engine_Rule_def NewDefault_def Hour_def Minute_def Second_def split: if_splits option.splits)

end
