(* ===== verification/Audit_Log.thy ===== *)
theory Audit_Log
  imports Identity_Codec Crypto
begin

text \<open>
  \<^verbatim>\<open>pkg/server/audit/audit.go\<close>: the hash of an audit entry, and that it determines every field of the entry
  unless SHA-256 collides.
\<close>

record Entry =
  Ent_DomainID :: string
  Ent_EventType :: string
  Ent_ActorID :: string
  Ent_SubjectID :: string
  Ent_Metadata :: "(string \<times> string) list"
  Ent_PreviousHash :: string
  Ent_CreatedAt :: time

definition entry_fields :: "Entry \<Rightarrow> (string \<times> jdoc result) list" where
  "entry_fields e =
     [(''domain_id'', Inr (DStr (Ent_DomainID e))), (''event_type'', Inr (DStr (Ent_EventType e)))]
     @ omit_if (Ent_ActorID e = []) (''actor_id'', Inr (DStr (Ent_ActorID e)))
     @ omit_if (Ent_SubjectID e = []) (''subject_id'', Inr (DStr (Ent_SubjectID e)))
     @ omit_if (Ent_Metadata e = []) (''metadata'', Inr (str_map_doc (Ent_Metadata e)))
     @ omit_if (Ent_PreviousHash e = []) (''previous_hash'', Inr (DStr (Ent_PreviousHash e)))
     @ [(''created_at'', time_doc (Ent_CreatedAt e))]"

definition HashEntry :: "prims \<Rightarrow> Entry \<Rightarrow> bytes result" where
  "HashEntry P e = and_then (canonical_json (json_object (entry_fields e))) (\<lambda>canon. Inr (sha256 P canon))"

section \<open>The hash binds the entry\<close>

text \<open>A map is given by its sorted association list.\<close>

definition entry_valid :: "Entry \<Rightarrow> bool" where
  "entry_valid e \<longleftrightarrow> valid_utf8 (Ent_DomainID e) \<and> valid_utf8 (Ent_EventType e) \<and> valid_utf8 (Ent_ActorID e) \<and>
     valid_utf8 (Ent_SubjectID e) \<and> valid_utf8 (Ent_PreviousHash e) \<and>
     sorted (map fst (Ent_Metadata e)) \<and> distinct (map fst (Ent_Metadata e)) \<and>
     list_all (\<lambda>(k, v). valid_utf8 k \<and> valid_utf8 v) (Ent_Metadata e)"

lemma field_value_map:
  assumes "sorted (map fst m)" "distinct (map fst m)" "list_all (\<lambda>(k, v). valid_utf8 k \<and> valid_utf8 v) m"
  shows "field_value (str_map_doc m) = Inr (JObj (map (\<lambda>(k, v). (k, JStr v)) m))"
proof -
  let ?ds = "map (\<lambda>(k, v). (k, DStr v)) m"
  have k: "map fst ?ds = map fst m" by (induction m) auto
  have s: "struct_ok ?ds" using assms(2,3) unfolding struct_ok_def k by (auto simp: list_all_iff)
  have mv: "map member_value ?ds = map (\<lambda>(k, v). (k, JStr v)) m"
    using assms(3) by (induction m) (auto simp: member_value_def)
  have n: "map (\<lambda>(k, v). (k, norm v)) (map (\<lambda>(k, v). (k, JStr v)) m) = map (\<lambda>(k, v). (k, JStr v)) m" by (induction m) auto
  have "sorted (map fst (map (\<lambda>(k, v). (k, JStr v)) m))"
    using assms(1) by (simp add: comp_def case_prod_beta)
  then show ?thesis unfolding str_map_doc_sorted[OF assms(1)] field_value_def struct_value[OF s] mv
    by (simp only: and_then_simps norm.simps n sort_key_id_if_sorted)
qed

lemma map_JStr_pairs: "map (\<lambda>(k, v). (k, JStr v)) m = map (\<lambda>(k, v). (k, JStr v)) n \<Longrightarrow> m = n"
  by (induction m arbitrary: n) (auto simp: Cons_eq_map_conv)

lemma fields_ok_entry: "fields_ok (entry_fields e)"
  by (auto simp: entry_fields_def fields_ok_def omit_if_def str_map_doc_def time_doc_Inr)

lemma entry_field_of:
  "field_of (entry_fields e) ''domain_id'' = Some (Inr (JStr (to_valid (Ent_DomainID e))))"
  "field_of (entry_fields e) ''event_type'' = Some (Inr (JStr (to_valid (Ent_EventType e))))"
  "field_of (entry_fields e) ''actor_id'' = (if Ent_ActorID e = [] then None else Some (Inr (JStr (to_valid (Ent_ActorID e)))))"
  "field_of (entry_fields e) ''subject_id'' = (if Ent_SubjectID e = [] then None else Some (Inr (JStr (to_valid (Ent_SubjectID e)))))"
  "field_of (entry_fields e) ''metadata'' = (if Ent_Metadata e = [] then None else Some (field_value (str_map_doc (Ent_Metadata e))))"
  "field_of (entry_fields e) ''previous_hash'' = (if Ent_PreviousHash e = [] then None else Some (Inr (JStr (to_valid (Ent_PreviousHash e)))))"
  "field_of (entry_fields e) ''created_at'' = Some (and_then (time_doc (Ent_CreatedAt e)) field_value)"
  by (simp_all add: field_of_def entry_fields_def omit_if_def)

lemma entry_canon_inject:
  assumes "canonical_json (json_object (entry_fields e)) = Inr x" "canonical_json (json_object (entry_fields f)) = Inr x"
    and "entry_valid e" "entry_valid f"
  shows "e = f"
proof -
  note v = assms(3,4)[unfolded entry_valid_def]
  have k: "field_of (entry_fields e) k = field_of (entry_fields f) k" for k
    by (rule canonical_fields_bound[OF assms(1,2) fields_ok_entry fields_ok_entry])
  have "Ent_DomainID e = Ent_DomainID f" "Ent_EventType e = Ent_EventType f"
    using k[of "''domain_id''"] k[of "''event_type''"] v by (simp_all add: entry_field_of)
  moreover have "Ent_ActorID e = Ent_ActorID f" "Ent_SubjectID e = Ent_SubjectID f" "Ent_PreviousHash e = Ent_PreviousHash f"
    using k[of "''actor_id''"] k[of "''subject_id''"] k[of "''previous_hash''"] v
    by (simp_all add: entry_field_of split: if_splits)
  moreover have "Ent_Metadata e = Ent_Metadata f"
    using k[of "''metadata''"] v by (auto simp: entry_field_of field_value_map dest!: map_JStr_pairs split: if_splits)
  moreover have "\<exists>v. and_then (time_doc (Ent_CreatedAt e)) field_value = Inr v"
    using canonical_field_succeeds[OF assms(1) fields_ok_entry, of "''created_at''"] by (simp add: entry_fields_def)
  then have "Ent_CreatedAt e = Ent_CreatedAt f"
    using k[of "''created_at''"] by (intro time_field_eq) (simp_all add: entry_field_of)
  ultimately show ?thesis by (cases e; cases f) simp
qed

lemma HashEntry_binds:
  assumes "HashEntry P e = Inr h" "HashEntry P f = Inr h" "entry_valid e" "entry_valid f"
  shows "e = f \<or> (\<exists>x y. x \<noteq> y \<and> sha256 P x = sha256 P y)"
proof -
  obtain x y where xy: "canonical_json (json_object (entry_fields e)) = Inr x" "canonical_json (json_object (entry_fields f)) = Inr y"
    "sha256 P x = h" "sha256 P y = h" using assms(1,2) by (auto simp: HashEntry_def and_then_Inr_iff)
  show ?thesis
  proof (cases "x = y")
    case True
    with xy assms(3,4) show ?thesis using entry_canon_inject by blast
  next
    case False
    with xy show ?thesis by metis
  qed
qed

lemma HashEntry_ok:
  assumes "year_ok (Ent_CreatedAt e)" "entry_valid e"
  shows "\<exists>h. HashEntry P e = Inr h"
proof -
  have "is_ok (field_value (str_map_doc (Ent_Metadata e)))" using assms(2) by (simp add: field_value_map entry_valid_def)
  then have "is_ok (doc_value (str_map_doc (Ent_Metadata e)))" by (auto simp: field_value_def is_ok_iff and_then_Inr_iff)
  moreover have "doc_ok (str_map_doc (Ent_Metadata e))" by (auto simp: str_map_doc_def)
  ultimately have "fields_fine (entry_fields e)"
    using assms by (auto simp: entry_fields_def fields_fine_def omit_if_def time_doc_ok)
  then show ?thesis using canonical_json_ok by (fastforce simp: HashEntry_def)
qed

end
