(* ===== verification/Repository.thy ===== *)
theory Repository
  imports Replay Crypto
begin

text \<open>
  The database behind \<^verbatim>\<open>pkg/server/repository\<close> and the proof nonces (\<^verbatim>\<open>domain.go\<close>, \<^verbatim>\<open>proof_nonce.go\<close>).

  A database is its tables and a script of faults. A statement of the sources is a function on the
  tables, with the row conditions, conflict clauses and constraints that its SQL and
  \<^verbatim>\<open>migrations/0001_init.sql\<close> give; a statement that fails leaves the tables as they are. \<open>Exec\<close> runs
  one statement: the head of the script may make it fail before it runs, or lose its reply after it
  ran. An empty script is a database that never fails. Timestamps have microseconds, so every instant
  passed to a statement is cut (\<open>pg_time\<close>).
\<close>

section \<open>Statements\<close>

datatype fault = NotExecuted go_error | ReplyLost go_error

record 't db =
  Db_tables :: 't
  Db_faults :: "fault option list"

type_synonym ('t, 'a) statement = "'t \<Rightarrow> 'a result \<times> 't"

definition Exec :: "('t, 'a) statement \<Rightarrow> 't db \<Rightarrow> 'a result \<times> 't db" where
  "Exec stmt d =
     (let (r, t) = stmt (Db_tables d); d' = d\<lparr>Db_faults := tl (Db_faults d)\<rparr> in
      case Db_faults d of
        Some (NotExecuted err) # _ \<Rightarrow> (Inl err, d')
      | Some (ReplyLost err) # _ \<Rightarrow> (Inl err, d'\<lparr>Db_tables := t\<rparr>)
      | _ \<Rightarrow> (r, d'\<lparr>Db_tables := t\<rparr>))"

definition pg_time :: "time \<Rightarrow> time" where
  "pg_time t = t - t mod 1000"

definition uniqueViolation :: string where
  "uniqueViolation = ''23505''"

definition checkViolation :: string where
  "checkViolation = ''23514''"

definition outOfRange :: string where
  "outOfRange = ''22003''"

text \<open>A statement run on a result so far: nothing is executed after an error.\<close>

definition then_db :: "'a result \<times> 's \<Rightarrow> ('a \<Rightarrow> 's \<Rightarrow> 'b result \<times> 's) \<Rightarrow> 'b result \<times> 's" where
  "then_db p k = (case p of (Inl err, s) \<Rightarrow> (Inl err, s) | (Inr x, s) \<Rightarrow> k x s)"

lemma then_db_simps [simp]: "then_db (Inl e, s) k = (Inl e, s)" "then_db (Inr x, s) k = k x s"
  by (simp_all add: then_db_def)

lemma then_db_Inr: "then_db p k = (Inr y, s') \<longleftrightarrow> (\<exists>x s. p = (Inr x, s) \<and> k x s = (Inr y, s'))"
  by (auto simp: then_db_def split: prod.splits sum.splits)

lemma Exec_tables: "Db_tables (snd (Exec stmt d)) = Db_tables d \<or> Db_tables (snd (Exec stmt d)) = snd (stmt (Db_tables d))"
  by (auto simp: Exec_def Let_def split: prod.splits list.splits option.splits fault.splits)

lemma Exec_Inr: "fst (Exec stmt d) = Inr x \<Longrightarrow> fst (stmt (Db_tables d)) = Inr x \<and> Db_tables (snd (Exec stmt d)) = snd (stmt (Db_tables d))"
  by (auto simp: Exec_def Let_def split: prod.splits list.splits option.splits fault.splits)

lemma Exec_ok [simp]: "Db_faults d = [] \<Longrightarrow> Exec stmt d = (fst (stmt (Db_tables d)), d\<lparr>Db_tables := snd (stmt (Db_tables d))\<rparr>)"
  by (simp add: Exec_def split: prod.splits)

lemma pg_time_le: "pg_time t \<le> t"
  by (simp add: pg_time_def)

lemma pg_time_mono: "t \<le> u \<Longrightarrow> pg_time t \<le> pg_time u"
proof -
  have "pg_time x = 1000 * (x div 1000)" for x by (simp add: pg_time_def minus_mod_eq_mult_div)
  then show "t \<le> u \<Longrightarrow> pg_time t \<le> pg_time u" by (simp add: zdiv_mono1)
qed

section \<open>Common statements\<close>

text \<open>\<^verbatim>\<open>INSERT ... ON CONFLICT (key) DO UPDATE\<close>: the row with the key is updated, else the row is inserted.\<close>

definition upsert :: "('r \<Rightarrow> 'k) \<Rightarrow> ('r \<Rightarrow> string) \<Rightarrow> ('r \<Rightarrow> 'r) \<Rightarrow> 'r \<Rightarrow> ('r list, unit) statement" where
  "upsert key ident upd row rows =
     (if list_ex (\<lambda>r. key r = key row) rows
      then (Inr (), map (\<lambda>r. if key r = key row then upd r else r) rows)
      else if list_ex (\<lambda>r. ident r = ident row) rows then (Inl (PgError uniqueViolation), rows)
      else (Inr (), rows @ [row]))"

definition select_row :: "('r \<Rightarrow> bool) \<Rightarrow> ('r list, 'r) statement" where
  "select_row cond rows = (case find cond rows of None \<Rightarrow> Inl ErrNoRows | Some r \<Rightarrow> Inr r, rows)"

definition update_rows :: "('r \<Rightarrow> bool) \<Rightarrow> ('r \<Rightarrow> 'r) \<Rightarrow> ('r list, nat) statement" where
  "update_rows cond upd rows = (Inr (length (filter cond rows)), map (\<lambda>r. if cond r then upd r else r) rows)"

section \<open>Domains and proof nonces\<close>

definition RequireDomain :: "string \<Rightarrow> unit result" where
  "RequireDomain domainID =
     (if domainID = [] then reject CodeStorageInvalid ''domain_id is required'' else Inr ())"

record NonceRow =
  NR_DomainID :: string
  NR_DeviceID :: string
  NR_Nonce :: string
  NR_ExpiresAt :: time

definition proofNonceStorageKey :: "prims \<Rightarrow> string \<Rightarrow> string \<Rightarrow> string" where
  "proofNonceStorageKey P audience nonce = Base64URL (sha256 P (audience @ [NUL] @ nonce))"

definition delete_expired_nonces :: "string \<Rightarrow> time \<Rightarrow> (NonceRow list, unit) statement" where
  "delete_expired_nonces domainID now rows =
     (Inr (), filter (\<lambda>r. \<not> (NR_DomainID r = domainID \<and> NR_ExpiresAt r \<le> now)) rows)"

definition same_nonce :: "NonceRow \<Rightarrow> NonceRow \<Rightarrow> bool" where
  "same_nonce r s \<longleftrightarrow> NR_DomainID r = NR_DomainID s \<and> NR_DeviceID r = NR_DeviceID s \<and> NR_Nonce r = NR_Nonce s"

definition insert_nonce :: "NonceRow \<Rightarrow> (NonceRow list, unit) statement" where
  "insert_nonce row rows =
     (if list_ex (same_nonce row) rows then (Inl (PgError uniqueViolation), rows) else (Inr (), rows @ [row]))"

text \<open>\<^verbatim>\<open>errors.As\<close> into a PostgreSQL error, through the causes.\<close>

fun as_pg_error :: "go_error \<Rightarrow> string option" where
  "as_pg_error (PgError code) = Some code"
| "as_pg_error (ISCPError code message retryable details (Some err)) = as_pg_error err"
| "as_pg_error _ = None"

text \<open>
  The statements act on one table of the database, given by its selector and its update; the table
  name of the sources.
\<close>

definition on_table :: "('t \<Rightarrow> 'r list) \<Rightarrow> ('r list \<Rightarrow> 't \<Rightarrow> 't) \<Rightarrow> ('r list, 'a) statement \<Rightarrow> ('t, 'a) statement" where
  "on_table get put stmt t = (let (r, rows) = stmt (get t) in (r, put rows t))"

definition useProofNonce :: "prims \<Rightarrow> ('t \<Rightarrow> NonceRow list) \<Rightarrow> (NonceRow list \<Rightarrow> 't \<Rightarrow> 't) \<Rightarrow> 't db \<Rightarrow>
    string \<Rightarrow> string \<Rightarrow> string \<Rightarrow> string \<Rightarrow> time \<Rightarrow> time \<Rightarrow> bool result \<times> 't db" where
  "useProofNonce P get put d domainID deviceID audience nonce expiresAt now =
     then_db (RequireDomain domainID, d) (\<lambda>_ d.
     if blank deviceID \<or> blank audience \<or> blank nonce
     then (reject CodeStorageInvalid ''proof nonce scope is required'', d)
     else then_db (Exec (on_table get put (delete_expired_nonces domainID (pg_time now))) d) (\<lambda>_ d.
       case Exec (on_table get put (insert_nonce
              \<lparr>NR_DomainID = domainID, NR_DeviceID = deviceID, NR_Nonce = proofNonceStorageKey P audience nonce,
               NR_ExpiresAt = pg_time expiresAt\<rparr>)) d of
         (Inr _, d) \<Rightarrow> (Inr True, d)
       | (Inl err, d) \<Rightarrow> if as_pg_error err = Some uniqueViolation then (Inr False, d) else (Inl err, d)))"

section \<open>The nonce table is a replay guard\<close>

text \<open>
  For a table given by a lens, under every script of faults. A use counts when the call returns
  true.
\<close>

definition table_lens :: "('t \<Rightarrow> 'r list) \<Rightarrow> ('r list \<Rightarrow> 't \<Rightarrow> 't) \<Rightarrow> bool" where
  "table_lens get put \<longleftrightarrow> (\<forall>rows t. get (put rows t) = rows)"

definition nonce_use :: "prims \<Rightarrow> ('t \<Rightarrow> NonceRow list) \<Rightarrow> (NonceRow list \<Rightarrow> 't \<Rightarrow> 't) \<Rightarrow>
    't db \<Rightarrow> string \<times> string \<times> string \<times> string \<Rightarrow> time \<Rightarrow> time \<Rightarrow> bool \<times> 't db" where
  "nonce_use P get put d k expiresAt now =
     (case k of (domainID, deviceID, audience, nonce) \<Rightarrow>
        case useProofNonce P get put d domainID deviceID audience nonce expiresAt now of
          (r, d') \<Rightarrow> (r = Inr True, d'))"

definition nonce_blocked :: "prims \<Rightarrow> ('t \<Rightarrow> NonceRow list) \<Rightarrow> 't db \<Rightarrow> string \<times> string \<times> string \<times> string \<Rightarrow> time \<Rightarrow> bool" where
  "nonce_blocked P get d k e \<longleftrightarrow>
     (case k of (domainID, deviceID, audience, nonce) \<Rightarrow>
        \<exists>r\<in>set (get (Db_tables d)). NR_DomainID r = domainID \<and> NR_DeviceID r = deviceID \<and>
          NR_Nonce r = proofNonceStorageKey P audience nonce \<and> e \<le> NR_ExpiresAt r)"

lemma on_table_simps [simp]:
  "fst (on_table get put stmt t) = fst (stmt (get t))"
  "snd (on_table get put stmt t) = put (snd (stmt (get t))) t"
  by (simp_all add: on_table_def split: prod.splits)

lemma delete_keeps:
  assumes "r \<in> set rows" "now < NR_ExpiresAt r"
  shows "r \<in> set (snd (delete_expired_nonces dm (pg_time now) rows))"
  using assms pg_time_le[of now] by (simp add: delete_expired_nonces_def)

lemma insert_nonce_keeps: "r \<in> set rows \<Longrightarrow> r \<in> set (snd (insert_nonce row rows))"
  by (simp add: insert_nonce_def)

lemma Exec_keeps:
  assumes "table_lens get put" "r \<in> set (get (Db_tables d))" "\<And>rows. r \<in> set rows \<Longrightarrow> r \<in> set (snd (stmt rows))"
  shows "r \<in> set (get (Db_tables (snd (Exec (on_table get put stmt) d))))"
  using Exec_tables[of "on_table get put stmt" d] assms by (auto simp: table_lens_def)

lemma useProofNonce_keeps:
  assumes "table_lens get put" "r \<in> set (get (Db_tables d))" "now < NR_ExpiresAt r"
  shows "r \<in> set (get (Db_tables (snd (useProofNonce P get put d dm dev aud n e now))))"
proof -
  let ?del = "on_table get put (delete_expired_nonces dm (pg_time now))"
  have d1: "r \<in> set (get (Db_tables (snd (Exec ?del d))))"
    by (rule Exec_keeps[OF assms(1,2)]) (rule delete_keeps[OF _ assms(3)])
  have "r \<in> set (get (Db_tables (snd (Exec (on_table get put (insert_nonce row)) (snd (Exec ?del d))))))" for row
    by (rule Exec_keeps[OF assms(1) d1]) (rule insert_nonce_keeps)
  with d1 assms(2) show ?thesis
    by (simp add: useProofNonce_def then_db_def RequireDomain_def split_beta split: sum.split)
qed

lemma useProofNonce_True:
  assumes "table_lens get put" "fst (useProofNonce P get put d dm dev aud n e now) = Inr True"
  shows "\<lparr>NR_DomainID = dm, NR_DeviceID = dev, NR_Nonce = proofNonceStorageKey P aud n, NR_ExpiresAt = pg_time e\<rparr>
    \<in> set (get (Db_tables (snd (useProofNonce P get put d dm dev aud n e now))))"
proof -
  let ?row = "\<lparr>NR_DomainID = dm, NR_DeviceID = dev, NR_Nonce = proofNonceStorageKey P aud n, NR_ExpiresAt = pg_time e\<rparr>"
  let ?d1 = "snd (Exec (on_table get put (delete_expired_nonces dm (pg_time now))) d)"
  let ?p = "Exec (on_table get put (insert_nonce ?row)) ?d1"
  from assms(2) have u: "useProofNonce P get put d dm dev aud n e now = (Inr True, snd ?p)" and r: "\<exists>x. fst ?p = Inr x"
    by (auto simp: useProofNonce_def then_db_def RequireDomain_def split_beta split: sum.splits if_splits)
  have "fst (insert_nonce ?row (get (Db_tables ?d1))) = Inr ()" "Db_tables (snd ?p) = put (snd (insert_nonce ?row (get (Db_tables ?d1)))) (Db_tables ?d1)"
    using r Exec_Inr[of "on_table get put (insert_nonce ?row)" ?d1] by auto
  then show ?thesis using assms(1) unfolding u by (auto simp: insert_nonce_def table_lens_def split: if_splits)
qed

lemma useProofNonce_refuses:
  assumes "table_lens get put" "nonce_blocked P get d (dm, dev, aud, n) e" "now < e"
  shows "fst (useProofNonce P get put d dm dev aud n e' now) \<noteq> Inr True"
proof
  let ?row = "\<lparr>NR_DomainID = dm, NR_DeviceID = dev, NR_Nonce = proofNonceStorageKey P aud n, NR_ExpiresAt = pg_time e'\<rparr>"
  let ?d1 = "snd (Exec (on_table get put (delete_expired_nonces dm (pg_time now))) d)"
  obtain r where r: "r \<in> set (get (Db_tables d))" "same_nonce ?row r" "now < NR_ExpiresAt r"
    using assms(2,3) by (auto simp: nonce_blocked_def same_nonce_def)
  have "r \<in> set (get (Db_tables ?d1))"
    by (rule Exec_keeps[OF assms(1) r(1)]) (rule delete_keeps[OF _ r(3)])
  then have f: "fst (insert_nonce ?row (get (Db_tables ?d1))) = Inl (PgError uniqueViolation)"
    using r(2) by (auto simp: insert_nonce_def list_ex_iff)
  assume "fst (useProofNonce P get put d dm dev aud n e' now) = Inr True"
  then have "\<exists>x. fst (Exec (on_table get put (insert_nonce ?row)) ?d1) = Inr x"
    by (auto simp: useProofNonce_def then_db_def RequireDomain_def split_beta split: sum.splits if_splits)
  then show False using Exec_Inr[of "on_table get put (insert_nonce ?row)" ?d1] f by auto
qed

lemma nonce_guard:
  assumes "table_lens get put"
  shows "replay_guard (nonce_use P get put) pg_time (nonce_blocked P get)"
proof
  fix d :: "'a db" and k k' :: "string \<times> string \<times> string \<times> string" and e e' now
  obtain dm dev aud n dm' dev' aud' n' where k: "k = (dm, dev, aud, n)" "k' = (dm', dev', aud', n')"
    by (metis prod_cases4)
  show "fst (nonce_use P get put d k e now) \<Longrightarrow> nonce_blocked P get (snd (nonce_use P get put d k e now)) k (pg_time e)"
    using useProofNonce_True[OF assms, of P d dm dev aud n e now]
    by (force simp: nonce_use_def nonce_blocked_def k split_beta)
  show "nonce_blocked P get d k e \<Longrightarrow> now < e \<Longrightarrow> \<not> fst (nonce_use P get put d k e' now)"
    using useProofNonce_refuses[OF assms] by (simp add: nonce_use_def k split_beta)
  show "nonce_blocked P get d k e \<Longrightarrow> now < e \<Longrightarrow> nonce_blocked P get (snd (nonce_use P get put d k' e' now)) k e"
    using useProofNonce_keeps[OF assms, where P = P and dm = dm' and dev = dev' and aud = aud' and n = n' and e = e' and now = now]
    by (fastforce simp: nonce_use_def nonce_blocked_def k split_beta)
qed

end
