(* ===== verification/Relay_Repository.thy ===== *)
theory Relay_Repository
  imports Repository Queue
begin

text \<open>
  \<^verbatim>\<open>pkg/server/repository/relay.go\<close>: the tables of the relay and every statement on them, and
  \<^verbatim>\<open>pkg/server/cleanup/cleanup.go\<close>. Row conditions and conflict clauses are those of the SQL, the unique
  and check constraints those of \<^verbatim>\<open>migrations/0001_init.sql\<close>. \<^verbatim>\<open>ORDER BY\<close> is a sorting function argument;
  the order in which \<^verbatim>\<open>UPDATE ... RETURNING\<close> gives the claimed rows is not determined by the statement
  and is the argument \<open>returned\<close>. A row is found by its first match; the unique constraints make it
  the only one. The text that \<^verbatim>\<open>jsonb\<close> gives back for the route metadata is taken as it was stored.
\<close>

section \<open>Tables\<close>

record RelayDevice =
  RDev_ID :: string
  RDev_DomainID :: string
  RDev_DeviceID :: string
  RDev_IdentityRaw :: bytes
  RDev_IdentityCanonical :: bytes
  RDev_PublicKeyThumbprint :: string
  RDev_Status :: string
  RDev_CreatedAt :: time
  RDev_UpdatedAt :: time

record RelayCredential =
  RCred_ID :: string
  RCred_DomainID :: string
  RCred_DeviceID :: string
  RCred_Hash :: bytes
  RCred_IssuedAt :: time
  RCred_ExpiresAt :: time

record CredentialRow = RelayCredential +
  CR_RevokedAt :: "time option"

record RelayMessage =
  RMsg_ID :: string
  RMsg_DomainID :: string
  RMsg_MessageID :: string
  RMsg_SenderDeviceID :: string
  RMsg_RecipientDeviceID :: string
  RMsg_SessionID :: string
  RMsg_PayloadType :: string
  RMsg_RouteMetadata :: bytes
  RMsg_EnvelopeRaw :: bytes
  RMsg_EnvelopeCanonical :: bytes
  RMsg_Priority :: int
  RMsg_QueuedAt :: time
  RMsg_ExpiresAt :: time

record MessageRow = RelayMessage +
  MR_DeliveredAt :: "time option"
  MR_DeliveryClaimedUntil :: "time option"
  MR_DeliveryAttempts :: int

record RelayReceipt =
  RRec_ID :: string
  RRec_DomainID :: string
  RRec_ReceiptID :: string
  RRec_MessageID :: string
  RRec_RelayID :: string
  RRec_Status :: string
  RRec_ReceiptRaw :: bytes
  RRec_ReceiptCanonical :: bytes
  RRec_IssuedAt :: time

record RelayTables =
  RT_devices :: "RelayDevice list"
  RT_access_tokens :: "CredentialRow list"
  RT_refresh_tokens :: "CredentialRow list"
  RT_pop_replay_cache :: "NonceRow list"
  RT_messages :: "MessageRow list"
  RT_delivery_receipts :: "RelayReceipt list"

type_synonym relay_db = "RelayTables db"

definition no_tables :: RelayTables where
  "no_tables = \<lparr>RT_devices = [], RT_access_tokens = [], RT_refresh_tokens = [], RT_pop_replay_cache = [],
     RT_messages = [], RT_delivery_receipts = []\<rparr>"

abbreviation on_devices :: "(RelayDevice list, 'a) statement \<Rightarrow> (RelayTables, 'a) statement" where
  "on_devices \<equiv> on_table RT_devices (\<lambda>rows t. t\<lparr>RT_devices := rows\<rparr>)"

abbreviation on_access :: "(CredentialRow list, 'a) statement \<Rightarrow> (RelayTables, 'a) statement" where
  "on_access \<equiv> on_table RT_access_tokens (\<lambda>rows t. t\<lparr>RT_access_tokens := rows\<rparr>)"

abbreviation on_refresh :: "(CredentialRow list, 'a) statement \<Rightarrow> (RelayTables, 'a) statement" where
  "on_refresh \<equiv> on_table RT_refresh_tokens (\<lambda>rows t. t\<lparr>RT_refresh_tokens := rows\<rparr>)"

abbreviation on_messages :: "(MessageRow list, 'a) statement \<Rightarrow> (RelayTables, 'a) statement" where
  "on_messages \<equiv> on_table RT_messages (\<lambda>rows t. t\<lparr>RT_messages := rows\<rparr>)"

abbreviation on_receipts :: "(RelayReceipt list, 'a) statement \<Rightarrow> (RelayTables, 'a) statement" where
  "on_receipts \<equiv> on_table RT_delivery_receipts (\<lambda>rows t. t\<lparr>RT_delivery_receipts := rows\<rparr>)"

section \<open>Devices\<close>

definition InsertDevice :: "relay_db \<Rightarrow> RelayDevice \<Rightarrow> unit result \<times> relay_db" where
  "InsertDevice d device =
     then_db (RequireDomain (RDev_DomainID device), d) (\<lambda>_.
     Exec (on_devices (\<lambda>rows.
       if RDev_Status device \<notin> {''active'', ''revoked'', ''disabled''} then (Inl (PgError checkViolation), rows)
       else upsert (\<lambda>r. (RDev_DomainID r, RDev_DeviceID r)) RDev_ID
              (\<lambda>r. r\<lparr>RDev_IdentityRaw := RDev_IdentityRaw device, RDev_IdentityCanonical := RDev_IdentityCanonical device,
                    RDev_PublicKeyThumbprint := RDev_PublicKeyThumbprint device, RDev_Status := RDev_Status device,
                    RDev_UpdatedAt := pg_time (RDev_UpdatedAt device)\<rparr>)
              (device\<lparr>RDev_CreatedAt := pg_time (RDev_CreatedAt device), RDev_UpdatedAt := pg_time (RDev_UpdatedAt device)\<rparr>)
              rows)))"

definition GetDevice :: "relay_db \<Rightarrow> string \<Rightarrow> string \<Rightarrow> RelayDevice result \<times> relay_db" where
  "GetDevice d domainID deviceID =
     then_db (RequireDomain domainID, d) (\<lambda>_.
     Exec (on_devices (select_row (\<lambda>r. RDev_DomainID r = domainID \<and> RDev_DeviceID r = deviceID))))"

definition RevokeDevice :: "relay_db \<Rightarrow> string \<Rightarrow> string \<Rightarrow> time \<Rightarrow> unit result \<times> relay_db" where
  "RevokeDevice d domainID deviceID now =
     then_db (RequireDomain domainID, d) (\<lambda>_ d.
     then_db (Exec (on_devices (update_rows (\<lambda>r. RDev_DomainID r = domainID \<and> RDev_DeviceID r = deviceID)
       (\<lambda>r. r\<lparr>RDev_Status := ''revoked'', RDev_UpdatedAt := pg_time now\<rparr>))) d) (\<lambda>_ d. (Inr (), d)))"

section \<open>Credentials\<close>

definition insert_credential :: "CredentialRow \<Rightarrow> (CredentialRow list, unit) statement" where
  "insert_credential row rows =
     (if list_ex (\<lambda>r. RCred_ID r = RCred_ID row \<or>
           (RCred_DomainID r = RCred_DomainID row \<and> RCred_Hash r = RCred_Hash row)) rows
      then (Inl (PgError uniqueViolation), rows) else (Inr (), rows @ [row]))"

definition credential_row :: "string \<Rightarrow> string \<Rightarrow> string \<Rightarrow> bytes \<Rightarrow> time \<Rightarrow> time \<Rightarrow> CredentialRow" where
  "credential_row ident domainID deviceID h issuedAt expiresAt =
     \<lparr>RCred_ID = ident, RCred_DomainID = domainID, RCred_DeviceID = deviceID, RCred_Hash = h,
      RCred_IssuedAt = pg_time issuedAt, RCred_ExpiresAt = pg_time expiresAt, CR_RevokedAt = None\<rparr>"

definition StoreRefreshHash :: "relay_db \<Rightarrow> string \<Rightarrow> string \<Rightarrow> string \<Rightarrow> bytes \<Rightarrow> time \<Rightarrow> time \<Rightarrow> unit result \<times> relay_db" where
  "StoreRefreshHash d ident domainID deviceID refreshHash issuedAt expiresAt =
     then_db (RequireDomain domainID, d) (\<lambda>_.
     Exec (on_refresh (insert_credential (credential_row ident domainID deviceID refreshHash issuedAt expiresAt))))"

definition StoreAccessHash :: "relay_db \<Rightarrow> string \<Rightarrow> string \<Rightarrow> string \<Rightarrow> bytes \<Rightarrow> time \<Rightarrow> time \<Rightarrow> unit result \<times> relay_db" where
  "StoreAccessHash d ident domainID deviceID accessHash issuedAt expiresAt =
     then_db (RequireDomain domainID, d) (\<lambda>_.
     Exec (on_access (insert_credential (credential_row ident domainID deviceID accessHash issuedAt expiresAt))))"

definition live_credential :: "string \<Rightarrow> bytes \<Rightarrow> time \<Rightarrow> CredentialRow \<Rightarrow> bool" where
  "live_credential domainID h now r \<longleftrightarrow>
     RCred_DomainID r = domainID \<and> RCred_Hash r = h \<and> CR_RevokedAt r = None \<and> now < RCred_ExpiresAt r"

definition GetRefreshByHash :: "relay_db \<Rightarrow> string \<Rightarrow> bytes \<Rightarrow> time \<Rightarrow> RelayCredential result \<times> relay_db" where
  "GetRefreshByHash d domainID refreshHash now =
     then_db (RequireDomain domainID, d) (\<lambda>_ d.
     then_db (Exec (on_refresh (select_row (live_credential domainID refreshHash (pg_time now)))) d) (\<lambda>r d.
       (Inr (RelayCredential.truncate r), d)))"

definition GetAccessByHash :: "relay_db \<Rightarrow> string \<Rightarrow> bytes \<Rightarrow> time \<Rightarrow> RelayCredential result \<times> relay_db" where
  "GetAccessByHash d domainID accessHash now =
     then_db (RequireDomain domainID, d) (\<lambda>_ d.
     then_db (Exec (on_access (select_row (live_credential domainID accessHash (pg_time now)))) d) (\<lambda>r d.
       (Inr (RelayCredential.truncate r), d)))"

definition RevokeRefreshByHash :: "relay_db \<Rightarrow> string \<Rightarrow> bytes \<Rightarrow> time \<Rightarrow> unit result \<times> relay_db" where
  "RevokeRefreshByHash d domainID refreshHash now =
     then_db (RequireDomain domainID, d) (\<lambda>_ d.
     then_db (Exec (on_refresh (update_rows
         (\<lambda>r. RCred_DomainID r = domainID \<and> RCred_Hash r = refreshHash \<and> CR_RevokedAt r = None)
         (\<lambda>r. r\<lparr>CR_RevokedAt := Some (pg_time now)\<rparr>))) d) (\<lambda>_ d. (Inr (), d)))"

definition RevokeDeviceCredentials :: "relay_db \<Rightarrow> string \<Rightarrow> string \<Rightarrow> time \<Rightarrow> unit result \<times> relay_db" where
  "RevokeDeviceCredentials d domainID deviceID now =
     (let revoke = update_rows
            (\<lambda>r. RCred_DomainID r = domainID \<and> RCred_DeviceID r = deviceID \<and> CR_RevokedAt r = None)
            (\<lambda>r. r\<lparr>CR_RevokedAt := Some (pg_time now)\<rparr>)
      in then_db (RequireDomain domainID, d) (\<lambda>_ d.
         then_db (Exec (on_access revoke) d) (\<lambda>_ d.
         then_db (Exec (on_refresh revoke) d) (\<lambda>_ d. (Inr (), d)))))"

section \<open>Messages\<close>

definition message_row :: "RelayMessage \<Rightarrow> MessageRow" where
  "message_row msg = RelayMessage.extend
     (msg\<lparr>RMsg_QueuedAt := pg_time (RMsg_QueuedAt msg), RMsg_ExpiresAt := pg_time (RMsg_ExpiresAt msg)\<rparr>)
     (MessageRow.fields None None 0)"

definition StoreMessage :: "relay_db \<Rightarrow> RelayMessage \<Rightarrow> unit result \<times> relay_db" where
  "StoreMessage d msg =
     then_db (RequireDomain (RMsg_DomainID msg), d) (\<lambda>_.
     Exec (on_messages (\<lambda>rows.
       if RMsg_Priority msg < 0 \<or> 9 < RMsg_Priority msg then (Inl (PgError checkViolation), rows)
       else upsert (\<lambda>r. (RMsg_DomainID r, RMsg_MessageID r)) RMsg_ID
              (\<lambda>r. r\<lparr>RMsg_RouteMetadata := RMsg_RouteMetadata msg, RMsg_EnvelopeRaw := RMsg_EnvelopeRaw msg,
                    RMsg_EnvelopeCanonical := RMsg_EnvelopeCanonical msg, RMsg_Priority := RMsg_Priority msg,
                    RMsg_ExpiresAt := pg_time (RMsg_ExpiresAt msg)\<rparr>)
              (message_row msg) rows)))"

definition row_less :: "MessageRow \<Rightarrow> MessageRow \<Rightarrow> bool" where
  "row_less r s \<longleftrightarrow> queue_less (RMsg_Priority r, RMsg_QueuedAt r) (RMsg_Priority s, RMsg_QueuedAt s)"

definition claimable :: "string \<Rightarrow> string \<Rightarrow> time \<Rightarrow> MessageRow \<Rightarrow> bool" where
  "claimable domainID recipientDeviceID now r \<longleftrightarrow>
     RMsg_DomainID r = domainID \<and> RMsg_RecipientDeviceID r = recipientDeviceID \<and> MR_DeliveredAt r = None \<and>
     now < RMsg_ExpiresAt r \<and>
     (case MR_DeliveryClaimedUntil r of None \<Rightarrow> True | Some u \<Rightarrow> u \<le> now)"

text \<open>\<^verbatim>\<open>scanRelayMessages\<close>: the columns of the message, without those of its delivery.\<close>

definition scanRelayMessages :: "MessageRow list \<Rightarrow> RelayMessage list" where
  "scanRelayMessages rows = map RelayMessage.truncate rows"

definition claim_messages :: "MessageRow sorter \<Rightarrow> (MessageRow list \<Rightarrow> MessageRow list) \<Rightarrow>
    string \<Rightarrow> string \<Rightarrow> time \<Rightarrow> time \<Rightarrow> nat \<Rightarrow> (MessageRow list, MessageRow list) statement" where
  "claim_messages srt returned domainID recipientDeviceID now until limit rows =
     (let claim = take limit (srt row_less (filter (claimable domainID recipientDeviceID now) rows));
          ids = map RMsg_ID claim;
          rows' = map (\<lambda>r. if RMsg_ID r \<in> set ids
                          then r\<lparr>MR_DeliveryClaimedUntil := Some until, MR_DeliveryAttempts := MR_DeliveryAttempts r + 1\<rparr>
                          else r) rows
      in (Inr (returned (filter (\<lambda>r. RMsg_ID r \<in> set ids) rows')), rows'))"

definition ClaimPendingMessagesFor :: "MessageRow sorter \<Rightarrow> (MessageRow list \<Rightarrow> MessageRow list) \<Rightarrow> relay_db \<Rightarrow>
    string \<Rightarrow> string \<Rightarrow> time \<Rightarrow> duration \<Rightarrow> int \<Rightarrow> RelayMessage list result \<times> relay_db" where
  "ClaimPendingMessagesFor srt returned d domainID recipientDeviceID now lease limit =
     then_db (RequireDomain domainID, d) (\<lambda>_ d.
     if blank recipientDeviceID then (reject CodeStorageInvalid ''recipient device id is required'', d)
     else if limit \<le> 0 then (Inr [], d)
     else if lease \<le> 0 then (reject CodeStorageInvalid ''delivery lease must be positive'', d)
     else then_db (Exec (on_messages (claim_messages srt returned domainID recipientDeviceID (pg_time now)
                          (pg_time (Add now lease)) (nat limit))) d) (\<lambda>rows d. (Inr (scanRelayMessages rows), d)))"

definition ListPendingMessages :: "MessageRow sorter \<Rightarrow> relay_db \<Rightarrow> string \<Rightarrow> time \<Rightarrow> int \<Rightarrow> RelayMessage list result \<times> relay_db" where
  "ListPendingMessages srt d domainID now limit =
     then_db (RequireDomain domainID, d) (\<lambda>_ d.
     if limit \<le> 0 then (Inr [], d)
     else then_db (Exec (on_messages (\<lambda>rows.
            (Inr (take (nat limit) (srt row_less (filter (\<lambda>r. RMsg_DomainID r = domainID \<and> MR_DeliveredAt r = None \<and>
                    pg_time now < RMsg_ExpiresAt r) rows))), rows))) d) (\<lambda>rows d. (Inr (scanRelayMessages rows), d)))"

definition StoreReceipt :: "relay_db \<Rightarrow> RelayReceipt \<Rightarrow> unit result \<times> relay_db" where
  "StoreReceipt d receipt =
     then_db (RequireDomain (RRec_DomainID receipt), d) (\<lambda>_.
     Exec (on_receipts (\<lambda>rows.
       if RRec_Status receipt \<notin> {''accepted'', ''queued'', ''delivered_to_connection'', ''expired'', ''rejected''}
       then (Inl (PgError checkViolation), rows)
       else upsert (\<lambda>r. (RRec_DomainID r, RRec_ReceiptID r)) RRec_ID
              (\<lambda>r. r\<lparr>RRec_Status := RRec_Status receipt, RRec_ReceiptRaw := RRec_ReceiptRaw receipt,
                    RRec_ReceiptCanonical := RRec_ReceiptCanonical receipt\<rparr>)
              (receipt\<lparr>RRec_IssuedAt := pg_time (RRec_IssuedAt receipt)\<rparr>) rows)))"

definition MarkMessageDelivered :: "relay_db \<Rightarrow> string \<Rightarrow> string \<Rightarrow> time \<Rightarrow> unit result \<times> relay_db" where
  "MarkMessageDelivered d domainID messageID now =
     then_db (RequireDomain domainID, d) (\<lambda>_ d.
     then_db (Exec (on_messages (update_rows (\<lambda>r. RMsg_DomainID r = domainID \<and> RMsg_MessageID r = messageID)
         (\<lambda>r. r\<lparr>MR_DeliveredAt := Some (pg_time now), MR_DeliveryClaimedUntil := None\<rparr>))) d) (\<lambda>_ d.
     then_db (Exec (on_receipts (update_rows
         (\<lambda>r. RRec_DomainID r = domainID \<and> RRec_MessageID r = messageID \<and> RRec_Status r = ''queued'')
         (\<lambda>r. r\<lparr>RRec_Status := ''delivered_to_connection''\<rparr>))) d) (\<lambda>_ d. (Inr (), d))))"

abbreviation nonces_put :: "NonceRow list \<Rightarrow> RelayTables \<Rightarrow> RelayTables" where
  "nonces_put rows t \<equiv> t\<lparr>RT_pop_replay_cache := rows\<rparr>"

definition Relay_UseProofNonce :: "prims \<Rightarrow> relay_db \<Rightarrow> string \<Rightarrow> string \<Rightarrow> string \<Rightarrow> string \<Rightarrow> time \<Rightarrow> time \<Rightarrow> bool result \<times> relay_db" where
  "Relay_UseProofNonce P d domainID deviceID audience nonce expiresAt now =
     useProofNonce P RT_pop_replay_cache nonces_put d domainID deviceID audience nonce expiresAt now"

section \<open>Cleanup\<close>

record CleanupResult =
  Clean_Name :: string
  Clean_DryRun :: bool
  Clean_WouldDelete :: int
  Clean_Deleted :: int

definition ExpiredRelayMessages :: "relay_db \<Rightarrow> string \<Rightarrow> time \<Rightarrow> bool \<Rightarrow> CleanupResult result \<times> relay_db" where
  "ExpiredRelayMessages d domainID now dryRun =
     (let expired = (\<lambda>r. RMsg_DomainID r = domainID \<and> RMsg_ExpiresAt r < pg_time now) in
      then_db (RequireDomain domainID, d) (\<lambda>_ d.
      if dryRun then
        then_db (Exec (on_messages (\<lambda>rows. (Inr (length (filter expired rows)), rows))) d) (\<lambda>n d.
          (Inr \<lparr>Clean_Name = ''expired_relay_messages'', Clean_DryRun = True, Clean_WouldDelete = int n, Clean_Deleted = 0\<rparr>, d))
      else
        then_db (Exec (on_messages (\<lambda>rows. (Inr (length (filter expired rows)), filter (\<lambda>r. \<not> expired r) rows))) d) (\<lambda>n d.
          (Inr \<lparr>Clean_Name = ''expired_relay_messages'', Clean_DryRun = False, Clean_WouldDelete = 0, Clean_Deleted = int n\<rparr>, d))))"

section \<open>The nonce table is a replay guard\<close>

lemma nonces_lens: "table_lens RT_pop_replay_cache nonces_put"
  by (simp add: table_lens_def)

interpretation relay_nonces: replay_guard "nonce_use P RT_pop_replay_cache nonces_put" pg_time "nonce_blocked P RT_pop_replay_cache" for P
  by (rule nonce_guard[OF nonces_lens])

section \<open>Claims are exclusive\<close>

text \<open>
  A row is held until \<open>u\<close> when it is delivered or claimed up to \<open>u\<close>. The statements that write
  messages keep a row held while claims happen before \<open>u\<close>.
\<close>

definition held :: "time \<Rightarrow> string \<Rightarrow> MessageRow list \<Rightarrow> bool" where
  "held u i rows \<longleftrightarrow> i \<in> RMsg_ID ` set rows \<and>
     (\<forall>r\<in>set rows. RMsg_ID r = i \<longrightarrow> MR_DeliveredAt r \<noteq> None \<or> (\<exists>v. MR_DeliveryClaimedUntil r = Some v \<and> u \<le> v))"

definition permutes_rows :: "(MessageRow list \<Rightarrow> MessageRow list) \<Rightarrow> bool" where
  "permutes_rows f \<longleftrightarrow> (\<forall>xs. mset (f xs) = mset xs)"

lemma permutes_set: "permutes_rows f \<Longrightarrow> set (f xs) = set xs"
  by (metis permutes_rows_def set_mset_mset)

lemma weak_order_row: "weak_order row_less"
  using weak_order_queue unfolding weak_order_def row_less_def by blast

lemma held_map:
  assumes "held u i rows" "\<And>r. RMsg_ID (f r) = RMsg_ID r"
    and "\<And>r. r \<in> set rows \<Longrightarrow> RMsg_ID r = i \<Longrightarrow> (MR_DeliveredAt r \<noteq> None \<or> (\<exists>v. MR_DeliveryClaimedUntil r = Some v \<and> u \<le> v)) \<Longrightarrow>
      MR_DeliveredAt (f r) \<noteq> None \<or> (\<exists>v. MR_DeliveryClaimedUntil (f r) = Some v \<and> u \<le> v)"
  shows "held u i (map f rows)"
  using assms unfolding held_def by (auto simp: image_image)

lemma held_upsert:
  assumes "held u i rows" "\<And>r. RMsg_ID (upd r) = RMsg_ID r" "\<And>r. MR_DeliveredAt (upd r) = MR_DeliveredAt r"
    "\<And>r. MR_DeliveryClaimedUntil (upd r) = MR_DeliveryClaimedUntil r"
  shows "held u i (snd (upsert key RMsg_ID upd row rows))"
proof (cases "list_ex (\<lambda>r. key r = key row) rows")
  case True
  have "held u i (map (\<lambda>r. if key r = key row then upd r else r) rows)"
    by (rule held_map[OF assms(1)]) (auto simp: assms(2-4))
  with True show ?thesis by (simp add: upsert_def)
next
  case False
  with assms(1) show ?thesis by (auto simp: upsert_def held_def list_ex_iff)
qed

lemma claim_ids:
  assumes "sorts srt"
  shows "set (map RMsg_ID (take n (srt row_less (filter p rows)))) \<subseteq> RMsg_ID ` set (filter p rows)"
  unfolding set_map sortsD(2)[OF assms weak_order_row, of "filter p rows", symmetric]
  by (rule image_mono[OF set_take_subset])

lemma held_not_claimed:
  assumes "sorts srt" "held u i rows" "now < u"
  shows "i \<notin> set (map RMsg_ID (take n (srt row_less (filter (claimable dm dev now) rows))))"
proof
  assume "i \<in> set (map RMsg_ID (take n (srt row_less (filter (claimable dm dev now) rows))))"
  then obtain r where r: "r \<in> set rows" "claimable dm dev now r" "RMsg_ID r = i"
    using claim_ids[OF assms(1), of n "claimable dm dev now" rows] by auto
  with assms(2) have "\<exists>v. MR_DeliveryClaimedUntil r = Some v \<and> u \<le> v" by (auto simp: held_def claimable_def)
  with r(2) assms(3) show False by (auto simp: claimable_def)
qed

lemma claim_held:
  assumes "sorts srt" "held u i rows" "now < u"
  shows "held u i (snd (claim_messages srt returned dm dev now until n rows))"
  using held_not_claimed[OF assms, of n dm dev] unfolding claim_messages_def Let_def snd_conv
  by (intro held_map[OF assms(2)]) (auto split: if_splits)

lemma claim_returns:
  assumes "permutes_rows returned" "fst (claim_messages srt returned dm dev now until n rows) = Inr rs"
  shows "RMsg_ID ` set rs \<subseteq> set (map RMsg_ID (take n (srt row_less (filter (claimable dm dev now) rows))))"
  using assms(2) permutes_set[OF assms(1)] unfolding claim_messages_def Let_def by fastforce

lemma claim_makes_held:
  assumes "permutes_rows returned" "fst (claim_messages srt returned dm dev now until n rows) = Inr rs" "r \<in> set rs"
  shows "held until (RMsg_ID r) (snd (claim_messages srt returned dm dev now until n rows))"
proof -
  let ?ids = "set (map RMsg_ID (take n (srt row_less (filter (claimable dm dev now) rows))))"
  have "RMsg_ID r \<in> ?ids" using claim_returns[OF assms(1,2)] assms(3) by blast
  moreover have "RMsg_ID r \<in> RMsg_ID ` set (snd (claim_messages srt returned dm dev now until n rows))"
    using assms(2,3) permutes_set[OF assms(1)] by (auto simp: claim_messages_def Let_def)
  ultimately show ?thesis by (auto simp: held_def claim_messages_def Let_def split: if_splits)
qed

text \<open>The writes of messages between two claims, each claim before \<open>u\<close>.\<close>

inductive message_run :: "MessageRow sorter \<Rightarrow> (MessageRow list \<Rightarrow> MessageRow list) \<Rightarrow> time \<Rightarrow> relay_db \<Rightarrow> relay_db \<Rightarrow> bool"
  for srt returned u d where
  run_refl: "message_run srt returned u d d"
| run_store: "message_run srt returned u d d' \<Longrightarrow> message_run srt returned u d (snd (StoreMessage d' msg))"
| run_mark: "message_run srt returned u d d' \<Longrightarrow> message_run srt returned u d (snd (MarkMessageDelivered d' dm mid now))"
| run_list: "message_run srt returned u d d' \<Longrightarrow> message_run srt returned u d (snd (ListPendingMessages srt d' dm now limit))"
| run_claim: "message_run srt returned u d d' \<Longrightarrow> pg_time now < u \<Longrightarrow>
    message_run srt returned u d (snd (ClaimPendingMessagesFor srt returned d' dm dev now lease limit))"

lemma Exec_held:
  assumes "held u i (RT_messages (Db_tables d))" "\<And>rows. held u i rows \<Longrightarrow> held u i (snd (stmt rows))"
  shows "held u i (RT_messages (Db_tables (snd (Exec (on_messages stmt) d))))"
  using Exec_tables[of "on_messages stmt" d] assms by auto

lemma Exec_receipts [simp]: "RT_messages (Db_tables (snd (Exec (on_receipts stmt) d))) = RT_messages (Db_tables d)"
  using Exec_tables[of "on_receipts stmt" d] by auto

lemma then_db_snd:
  "I (snd p) \<Longrightarrow> (\<And>x. fst p = Inr x \<Longrightarrow> I (snd (k x (snd p)))) \<Longrightarrow> I (snd (then_db p k))"
  by (auto simp: then_db_def split: prod.splits sum.splits)

lemma message_run_held:
  assumes "message_run srt returned u d d'" "sorts srt" "held u i (RT_messages (Db_tables d))"
  shows "held u i (RT_messages (Db_tables d'))"
  using assms
proof (induction rule: message_run.induct)
  case (run_store d' msg)
  then show ?case unfolding StoreMessage_def
    by (intro then_db_snd[where I = "\<lambda>d. held u i (RT_messages (Db_tables d))"] Exec_held) (auto intro!: held_upsert)
next
  case (run_mark d' dm mid now)
  then show ?case unfolding MarkMessageDelivered_def update_rows_def
    by (intro then_db_snd[where I = "\<lambda>d. held u i (RT_messages (Db_tables d))"] Exec_held)
       (auto intro!: held_map Exec_held)
next
  case (run_list d' dm now limit)
  then show ?case unfolding ListPendingMessages_def
    by (intro then_db_snd[where I = "\<lambda>d. held u i (RT_messages (Db_tables d))"])
       (auto intro!: then_db_snd[where I = "\<lambda>d. held u i (RT_messages (Db_tables d))"] Exec_held)
next
  case (run_claim d' now dm dev lease limit)
  then show ?case unfolding ClaimPendingMessagesFor_def
    by (intro then_db_snd[where I = "\<lambda>d. held u i (RT_messages (Db_tables d))"])
       (auto intro!: then_db_snd[where I = "\<lambda>d. held u i (RT_messages (Db_tables d))"] Exec_held claim_held)
qed

lemma ClaimPending_Inr:
  assumes "ClaimPendingMessagesFor srt returned d dm dev now lease limit = (Inr ms, d')" "0 < limit"
  obtains rows where "ms = scanRelayMessages rows" "Db_tables d' = snd (on_messages (claim_messages srt returned dm dev (pg_time now)
      (pg_time (Add now lease)) (nat limit)) (Db_tables d))"
    "fst (claim_messages srt returned dm dev (pg_time now) (pg_time (Add now lease)) (nat limit) (RT_messages (Db_tables d))) = Inr rows"
proof -
  let ?s = "on_messages (claim_messages srt returned dm dev (pg_time now) (pg_time (Add now lease)) (nat limit))"
  from assms obtain rows where r: "Exec ?s d = (Inr rows, d')" "ms = scanRelayMessages rows"
    by (auto simp: ClaimPendingMessagesFor_def then_db_Inr split: if_splits)
  with Exec_Inr[of ?s d rows] show thesis by (intro that) auto
qed

lemma scan_ids [simp]: "RMsg_ID ` set (scanRelayMessages rows) = RMsg_ID ` set rows"
  by (simp add: scanRelayMessages_def image_image RelayMessage.truncate_def)

section \<open>Properties\<close>

text \<open>
  C24. A message handed out by a claim is not handed out again before its lease ends, whatever
  messages are stored, claimed, listed and marked in between, for whatever recipients, and whichever
  statements fail.
\<close>

theorem claims_exclusive:
  assumes "sorts srt" "permutes_rows returned"
    and "ClaimPendingMessagesFor srt returned d dm dev now lease limit = (Inr ms, d1)"
    and "message_run srt returned (pg_time (Add now lease)) d1 d2"
    and "ClaimPendingMessagesFor srt returned d2 dm' dev' now' lease' limit' = (Inr ms', d3)"
    and "pg_time now' < pg_time (Add now lease)"
  shows "RMsg_ID ` set ms \<inter> RMsg_ID ` set ms' = {}"
proof (cases "0 < limit \<and> 0 < limit'")
  case True
  obtain rows where r: "ms = scanRelayMessages rows" "Db_tables d1 = snd (on_messages (claim_messages srt returned dm dev (pg_time now)
      (pg_time (Add now lease)) (nat limit)) (Db_tables d))"
    "fst (claim_messages srt returned dm dev (pg_time now) (pg_time (Add now lease)) (nat limit) (RT_messages (Db_tables d))) = Inr rows"
    using assms(3) True by (auto elim: ClaimPending_Inr)
  obtain rows' where r': "ms' = scanRelayMessages rows'"
    "fst (claim_messages srt returned dm' dev' (pg_time now') (pg_time (Add now' lease')) (nat limit') (RT_messages (Db_tables d2))) = Inr rows'"
    using assms(5) True by (auto elim: ClaimPending_Inr)
  have "RMsg_ID r \<notin> RMsg_ID ` set rows'" if "r \<in> set rows" for r
  proof -
    have "held (pg_time (Add now lease)) (RMsg_ID r) (RT_messages (Db_tables d1))"
      using claim_makes_held[OF assms(2) r(3) that] r(2) by simp
    then have "held (pg_time (Add now lease)) (RMsg_ID r) (RT_messages (Db_tables d2))"
      by (rule message_run_held[OF assms(4,1)])
    from held_not_claimed[OF assms(1) this assms(6)] claim_returns[OF assms(2) r'(2)] show ?thesis by blast
  qed
  then show ?thesis unfolding r(1) r'(1) scan_ids by auto
next
  case False
  then have "ms = [] \<or> ms' = []" using assms(3,5) by (auto simp: ClaimPendingMessagesFor_def then_db_Inr split: if_splits)
  then show ?thesis by auto
qed

definition sample_relay_message :: "string \<Rightarrow> string \<Rightarrow> RelayMessage" where
  "sample_relay_message ident sender =
     \<lparr>RMsg_ID = ident, RMsg_DomainID = ''dom'', RMsg_MessageID = ''m1'', RMsg_SenderDeviceID = sender,
      RMsg_RecipientDeviceID = ''bob'', RMsg_SessionID = ''s'', RMsg_PayloadType = ''text'', RMsg_RouteMetadata = ''{}'',
      RMsg_EnvelopeRaw = ''from '' @ sender, RMsg_EnvelopeCanonical = ''from '' @ sender, RMsg_Priority = 1,
      RMsg_QueuedAt = 0, RMsg_ExpiresAt = 100000\<rparr>"

definition sample_db :: relay_db where
  "sample_db = \<lparr>Db_tables = no_tables\<lparr>RT_messages := [message_row (sample_relay_message ''i1'' ''alice'')]\<rparr>, Db_faults = []\<rparr>"

lemma claim_faultless:
  assumes "Db_faults d = []" "dm \<noteq> []" "\<not> blank dev" "0 < lease"
  shows "\<exists>ms d'. ClaimPendingMessagesFor srt returned d dm dev now lease limit = (Inr ms, d') \<and> Db_faults d' = []"
  using assms by (simp add: ClaimPendingMessagesFor_def RequireDomain_def claim_messages_def Let_def)

lemma sample_claim:
  "\<exists>d. ClaimPendingMessagesFor insertion_sort (\<lambda>rs. rs) sample_db ''dom'' ''bob'' 1000 5000 10 =
     (Inr [(sample_relay_message ''i1'' ''alice'')\<lparr>RMsg_QueuedAt := 0, RMsg_ExpiresAt := 100000\<rparr>], d)"
proof -
  have "fst (ClaimPendingMessagesFor insertion_sort (\<lambda>rs. rs) sample_db ''dom'' ''bob'' 1000 5000 10) =
     Inr [(sample_relay_message ''i1'' ''alice'')\<lparr>RMsg_QueuedAt := 0, RMsg_ExpiresAt := 100000\<rparr>]"
    by code_simp
  then show ?thesis by (metis prod.collapse)
qed

theorem claims_exclusive_witness:
  "\<exists>d ms' d'. fst (ClaimPendingMessagesFor insertion_sort (\<lambda>rs. rs) sample_db ''dom'' ''bob'' 1000 5000 10) =
      Inr [sample_relay_message ''i1'' ''alice''] \<and>
    ClaimPendingMessagesFor insertion_sort (\<lambda>rs. rs) d ''dom'' ''bob'' 2000 5000 10 = (Inr ms', d') \<and>
    RMsg_ID ` set [sample_relay_message ''i1'' ''alice''] \<inter> RMsg_ID ` set ms' = {}"
proof -
  obtain d where d: "ClaimPendingMessagesFor insertion_sort (\<lambda>rs. rs) sample_db ''dom'' ''bob'' 1000 5000 10 =
     (Inr [(sample_relay_message ''i1'' ''alice'')\<lparr>RMsg_QueuedAt := 0, RMsg_ExpiresAt := 100000\<rparr>], d)"
    using sample_claim by blast
  have bob: "\<not> blank ''bob''" by code_simp
  have "Db_faults sample_db = []" by (simp add: sample_db_def)
  from claim_faultless[OF this _ bob, of "''dom''" 5000 insertion_sort "\<lambda>rs. rs" 1000 10] d
  have f: "Db_faults d = []" by simp
  from claim_faultless[OF f _ bob, of "''dom''" 5000 insertion_sort "\<lambda>rs. rs" 2000 10]
  obtain ms' d' where c: "ClaimPendingMessagesFor insertion_sort (\<lambda>rs. rs) d ''dom'' ''bob'' 2000 5000 10 = (Inr ms', d')"
    by auto
  have "RMsg_ID ` set [(sample_relay_message ''i1'' ''alice'')\<lparr>RMsg_QueuedAt := 0, RMsg_ExpiresAt := 100000\<rparr>] \<inter> RMsg_ID ` set ms' = {}"
    by (rule claims_exclusive[OF insertion_sort_sorts _ d run_refl c]) (simp_all add: permutes_rows_def pg_time_def Add_def)
  with c d show ?thesis by (auto simp: sample_relay_message_def)
qed

text \<open>
  Storing a message under the identifier of a pending message of another sender replaces the
  pending envelope and keeps its sender and recipient: the recipient is handed the second sender's
  envelope and never the first.
\<close>

theorem stored_message_replaced:
  assumes "Db_faults d = []" "RT_messages (Db_tables d) = before @ r # after"
    and "\<forall>r'\<in>set (before @ after). RMsg_MessageID r' \<noteq> RMsg_MessageID r"
    and "RMsg_DomainID r \<noteq> []" "RMsg_DomainID msg = RMsg_DomainID r" "RMsg_MessageID msg = RMsg_MessageID r"
    and "0 \<le> RMsg_Priority msg" "RMsg_Priority msg \<le> 9"
  shows "\<exists>d' r'. StoreMessage d msg = (Inr (), d') \<and> RT_messages (Db_tables d') = before @ r' # after \<and>
    RMsg_SenderDeviceID r' = RMsg_SenderDeviceID r \<and> RMsg_RecipientDeviceID r' = RMsg_RecipientDeviceID r \<and>
    MR_DeliveredAt r' = MR_DeliveredAt r \<and> RMsg_EnvelopeRaw r' = RMsg_EnvelopeRaw msg"
proof -
  have k: "(RMsg_DomainID r', RMsg_MessageID r') \<noteq> (RMsg_DomainID r, RMsg_MessageID r)" if "r' \<in> set before \<union> set after" for r'
    using assms(3) that by auto
  have m: "map (\<lambda>r'. if (RMsg_DomainID r', RMsg_MessageID r') = (RMsg_DomainID r, RMsg_MessageID r) then f r' else r') before = before"
    "map (\<lambda>r'. if (RMsg_DomainID r', RMsg_MessageID r') = (RMsg_DomainID r, RMsg_MessageID r) then f r' else r') after = after" for f
    using k by (auto intro!: map_idI)
  have key: "RMsg_DomainID (message_row msg) = RMsg_DomainID r" "RMsg_MessageID (message_row msg) = RMsg_MessageID r"
    using assms(5,6) by (simp_all add: message_row_def RelayMessage.extend_def)
  show ?thesis using assms(1,2,4-8) m
    by (simp add: StoreMessage_def RequireDomain_def upsert_def key)
qed

theorem stored_message_replaced_witness:
  "\<exists>d' r'. StoreMessage sample_db (sample_relay_message ''i2'' ''mallory'') = (Inr (), d') \<and>
     RT_messages (Db_tables d') = [] @ r' # [] \<and> RMsg_SenderDeviceID r' = ''alice'' \<and> RMsg_RecipientDeviceID r' = ''bob'' \<and>
     RMsg_EnvelopeRaw r' = ''from mallory''"
  using stored_message_replaced[of sample_db "[]" "message_row (sample_relay_message ''i1'' ''alice'')" "[]" "sample_relay_message ''i2'' ''mallory''"]
  by (auto simp: sample_db_def no_tables_def message_row_def sample_relay_message_def RelayMessage.extend_def)

end
