(* ===== verification/Httpx.thy ===== *)
theory Httpx
  imports Json_Decode
begin

text \<open>
  \<^verbatim>\<open>pkg/server/httpx/httpx.go\<close> and what the servers read of a request: the method, the path, the headers
  by canonical name, the decoded query, the remote address and the body. A response is a status with
  a reply; the reply type is the server's own. \<^verbatim>\<open>DecodeJSON\<close> reads the first document of the body and
  ignores what follows it.
\<close>

record Request =
  Req_Method :: string
  Req_Path :: string
  Req_Header :: "string \<Rightarrow> string"
  Req_Query :: "string \<Rightarrow> string"
  Req_RemoteAddr :: string
  Req_Body :: bytes

record ErrorResponse =
  ER_Type :: string
  ER_Code :: Code
  ER_Message :: string
  ER_Retryable :: bool
  ER_Details :: "(string \<times> string) list"
  ER_RequestID :: string

type_synonym 'a response = "nat \<times> 'a"

definition error_response :: "go_error \<Rightarrow> ErrorResponse" where
  "error_response err =
     (let resp = \<lparr>ER_Type = ''iscp.error.v2'', ER_Code = CodeAccessInvalid, ER_Message = ''request failed'',
                  ER_Retryable = False, ER_Details = [], ER_RequestID = []\<rparr>
      in case err of
           ISCPError code message retryable details _ \<Rightarrow>
             resp\<lparr>ER_Code := code, ER_Message := message, ER_Retryable := retryable, ER_Details := details\<rparr>
         | _ \<Rightarrow> resp)"

definition WriteJSON :: "nat \<Rightarrow> 'a \<Rightarrow> 'a response" where
  "WriteJSON status v = (status, v)"

definition WriteError :: "(ErrorResponse \<Rightarrow> 'a) \<Rightarrow> nat \<Rightarrow> go_error \<Rightarrow> 'a response" where
  "WriteError reply status err = WriteJSON status (reply (error_response err))"

definition DecodeJSON :: "(string \<times> 'r setter) list \<Rightarrow> 'r \<Rightarrow> bytes \<Rightarrow> 'r result" where
  "DecodeJSON table zero body =
     (case Decode body of
        Some (Inr (d, _)) \<Rightarrow> decode_struct table d zero
      | Some (Inl err) \<Rightarrow> Inl err
      | None \<Rightarrow> Inl (StdError ''json: unfinished''))"

text \<open>A pointer field: \<^verbatim>\<open>null\<close> is nil, another value is decoded into the struct it points to, or a new one.\<close>

definition set_pointer :: "(string \<times> 'n setter) list \<Rightarrow> 'n \<Rightarrow> ('r \<Rightarrow> 'n option) \<Rightarrow> ('n option \<Rightarrow> 'r \<Rightarrow> 'r) \<Rightarrow> 'r setter" where
  "set_pointer table zero get upd d r =
     (if d = DNull then Inr (upd None r)
      else and_then (decode_struct table d (case get r of None \<Rightarrow> zero | Some n \<Rightarrow> n)) (\<lambda>n. Inr (upd (Some n) r)))"

text \<open>\<^verbatim>\<open>DecodeJSON\<close> into a \<^verbatim>\<open>json.RawMessage\<close>: the text of the first document.\<close>

definition DecodeRaw :: "bytes \<Rightarrow> bytes result" where
  "DecodeRaw body =
     (case Decode body of
        Some (Inr (_, rest)) \<Rightarrow> let value = skip_space body in Inr (take (length value - length rest) value)
      | Some (Inl err) \<Rightarrow> Inl err
      | None \<Rightarrow> Inl (StdError ''json: unfinished''))"

text \<open>
  What a handler takes from outside: the readings of the clock, the bytes of its random tokens and of
  its identifiers, each by the position of the call in the handler.
\<close>

record World =
  W_clock :: "nat \<Rightarrow> time"
  W_token :: "nat \<Rightarrow> bytes"
  W_uuid :: "nat \<Rightarrow> bytes result"

text \<open>A step that may fail: the error goes to the first continuation, the value to the second.\<close>

definition handle :: "'a result \<times> 's \<Rightarrow> (go_error \<Rightarrow> 's \<Rightarrow> 'b) \<Rightarrow> ('a \<Rightarrow> 's \<Rightarrow> 'b) \<Rightarrow> 'b" where
  "handle p bad good = (case p of (Inl err, s) \<Rightarrow> bad err s | (Inr x, s) \<Rightarrow> good x s)"

lemma handle_simps [simp]: "handle (Inl e, s) bad good = bad e s" "handle (Inr x, s) bad good = good x s"
  by (simp_all add: handle_def)

section \<open>Request headers\<close>

definition bearerToken :: "Request \<Rightarrow> string" where
  "bearerToken r =
     (let value = TrimSpace (Req_Header r ''Authorization''); prefix = ''Bearer '' in
      if value = [] then []
      else if length value < length prefix \<or> \<not> equal_fold (take (length prefix) value) prefix then []
      else TrimSpace (drop (length prefix) value))"

text \<open>\<^verbatim>\<open>net.SplitHostPort\<close>; only the host and whether it fails matter.\<close>

definition index_byte :: "string \<Rightarrow> char \<Rightarrow> nat option" where
  "index_byte s c = (if c \<in> set s then Some (length (takeWhile (\<lambda>x. x \<noteq> c) s)) else None)"

definition last_index_byte :: "string \<Rightarrow> char \<Rightarrow> nat option" where
  "last_index_byte s c = map_option (\<lambda>i. length s - Suc i) (index_byte (rev s) c)"

definition SplitHostPort :: "string \<Rightarrow> string option" where
  "SplitHostPort hostport =
     (case last_index_byte hostport (CHR '':'') of
        None \<Rightarrow> None
      | Some i \<Rightarrow>
          let bracketed = (hostport ! 0 = CHR ''['') in
          case (if bracketed then
                  (case index_byte hostport (CHR '']'') of
                     None \<Rightarrow> None
                   | Some end \<Rightarrow>
                       if Suc end \<noteq> i then None
                       else Some (take (end - 1) (drop 1 hostport), 1, Suc end))
                else if CHR '':'' \<in> set (take i hostport) then None
                else Some (take i hostport, 0, 0)) of
            None \<Rightarrow> None
          | Some (host, j, k) \<Rightarrow>
              if CHR ''['' \<in> set (drop j hostport) \<or> CHR '']'' \<in> set (drop k hostport) then None
              else Some host)"

definition clientKey :: "Request \<Rightarrow> string" where
  "clientKey r =
     (let forwarded = TrimSpace (Req_Header r ''X-Forwarded-For'') in
      if forwarded \<noteq> [] then
        (case index_byte forwarded (CHR '','') of
           Some idx \<Rightarrow> TrimSpace (take idx forwarded)
         | None \<Rightarrow> forwarded)
      else case SplitHostPort (Req_RemoteAddr r) of
             Some host \<Rightarrow>
               if host \<noteq> [] then host else if Req_RemoteAddr r \<noteq> [] then Req_RemoteAddr r else ''unknown''
           | None \<Rightarrow> if Req_RemoteAddr r \<noteq> [] then Req_RemoteAddr r else ''unknown'')"

text \<open>\<^verbatim>\<open>adminAuthorized\<close> of both servers, on the configured token.\<close>

definition admin_authorized :: "string \<Rightarrow> Request \<Rightarrow> bool" where
  "admin_authorized adminToken r =
     (let expected = TrimSpace adminToken in
      if expected = [] then True
      else
        let token = (if bearerToken r = [] then TrimSpace (Req_Header r ''X-ISCP-Admin-Token'') else bearerToken r) in
        if token = [] \<or> length token \<noteq> length expected then False
        else token = expected)"

lemma DecodeJSON_encode:
  assumes "doc_ok (DObj ms)" "doc_depth (DObj ms) \<le> maxNestingDepth" "num_end rest"
  shows "DecodeJSON table zero (encode (DObj ms) @ rest) =
    set_members table (map (\<lambda>(k, d). (to_valid k, valid_doc d)) ms) zero"
  unfolding DecodeJSON_def Decode_encode[OF assms] by (simp add: decode_struct_def)

lemma admin_authorized_iff:
  "admin_authorized adminToken r \<longleftrightarrow> TrimSpace adminToken = [] \<or>
     (if bearerToken r = [] then TrimSpace (Req_Header r ''X-ISCP-Admin-Token'') else bearerToken r) = TrimSpace adminToken"
  by (auto simp: admin_authorized_def Let_def)

end
