(* ===== verification/Relay_State.thy ===== *)
theory Relay_State
  imports Relay_Repository Uuid Httpx Identity_Codec Provisioning Descriptor Ratelimit
begin

text \<open>
  \<^verbatim>\<open>services/relay-reference/internal/relay/server.go\<close>, first part: the state of the relay and the functions its
  handlers call: proofs, credentials, identities, tickets and connections. The database is part of
  the state (\<open>Rel_repo\<close>, \<open>None\<close> without one). A function that reads the clock or draws random bytes
  takes them as arguments. The functions run under the server's lock where the source takes it, so
  each is one step on the state.
\<close>

section \<open>State\<close>

record RelayConfig =
  RCfg_DomainID :: string
  RCfg_RelayID :: string
  RCfg_BaseURL :: string
  RCfg_WebSocketURL :: string
  RCfg_ProfileGate :: Gate
  RCfg_DB :: "relay_db option"
  RCfg_AdminToken :: string
  RCfg_AllowedOrigins :: "string list"
  RCfg_TicketIssuer :: "DeviceIdentity option"

definition accessProofHeader :: string where
  "accessProofHeader = ''X-ISCP-Access-Proof''"

definition relayMaxQueuedBytes :: int where
  "relayMaxQueuedBytes = 1048576"

record credential =
  Cred_DomainID :: string
  Cred_DeviceID :: string
  Cred_Token :: string
  Cred_Hash :: bytes
  Cred_ExpiresAt :: time
  Cred_Revoked :: bool

record ticketState =
  Tk_MaxUses :: int
  Tk_Uses :: int

record connectionState =
  Conn_ConnectionID :: string
  Conn_DomainID :: string
  Conn_DeviceID :: string
  Conn_State :: string
  Conn_ConnectedAt :: time
  Conn_LastSeenAt :: time
  Conn_ClosedAt :: time

record RelayServer =
  Rel_cfg :: RelayConfig
  Rel_signer :: Device
  Rel_limiter :: Limiter
  Rel_replay :: Cache
  Rel_queue :: Queue
  Rel_repo :: "relay_db option"
  Rel_devices :: "string \<Rightarrow> DeviceIdentity option"
  Rel_access :: "bytes \<Rightarrow> credential option"
  Rel_refresh :: "bytes \<Rightarrow> credential option"
  Rel_revoked :: "string set"
  Rel_tickets :: "string \<Rightarrow> ticketState option"
  Rel_connections :: "string \<Rightarrow> connectionState option"
  Rel_startedAt :: time

definition NewRelay :: "prims \<Rightarrow> reader \<Rightarrow> RelayConfig \<Rightarrow> time \<Rightarrow> RelayServer result" where
  "NewRelay P r cfg0 now =
     and_then (fst (NewDevice P r (RCfg_DomainID cfg0) (RCfg_RelayID cfg0 @ ''-signer'') now)) (\<lambda>signer.
     let cfg = (if G_Profile (RCfg_ProfileGate cfg0) = [] then cfg0\<lparr>RCfg_ProfileGate := DefaultGate ProfileLocalLab\<rparr> else cfg0) in
     and_then (ValidateGate (RCfg_ProfileGate cfg)) (\<lambda>_.
     if G_Profile (RCfg_ProfileGate cfg) = ProfileProduction \<and> blank (RCfg_AdminToken cfg)
     then reject CodeConfigInvalid ''production relay requires ISCP_ADMIN_TOKEN''
     else if G_Profile (RCfg_ProfileGate cfg) = ProfileProduction \<and> RCfg_AllowedOrigins cfg = []
     then reject CodeConfigInvalid ''production relay requires allowed WebSocket origins''
     else Inr \<lparr>Rel_cfg = cfg, Rel_signer = signer, Rel_limiter = NewLimiter 120 Minute, Rel_replay = NewCache,
               Rel_queue = NewQueue relayMaxQueuedBytes, Rel_repo = RCfg_DB cfg, Rel_devices = Map.empty,
               Rel_access = Map.empty, Rel_refresh = Map.empty, Rel_revoked = {}, Rel_tickets = Map.empty,
               Rel_connections = Map.empty, Rel_startedAt = now\<rparr>))"

text \<open>A call of the repository.\<close>

definition with_db :: "relay_db \<Rightarrow> (relay_db \<Rightarrow> 'a result \<times> relay_db) \<Rightarrow> RelayServer \<Rightarrow> 'a result \<times> RelayServer" where
  "with_db d f s = (let (r, d') = f d in (r, s\<lparr>Rel_repo := Some d'\<rparr>))"

definition production :: "RelayServer \<Rightarrow> bool" where
  "production s \<longleftrightarrow> G_Profile (RCfg_ProfileGate (Rel_cfg s)) = ProfileProduction"

definition adminAuthorized :: "RelayServer \<Rightarrow> Request \<Rightarrow> bool" where
  "adminAuthorized s r = admin_authorized (RCfg_AdminToken (Rel_cfg s)) r"

section \<open>Proofs\<close>

definition proof_key :: "DeviceProof \<Rightarrow> string" where
  "proof_key prf = join_nul [DP_DomainID prf, DP_DeviceID prf, DP_Audience prf, DP_Nonce prf]"

definition verifyProof :: "prims \<Rightarrow> RelayServer \<Rightarrow> time \<Rightarrow> DeviceIdentity \<Rightarrow> DeviceProof \<Rightarrow> string \<Rightarrow> string \<Rightarrow> duration \<Rightarrow>
    unit result \<times> RelayServer" where
  "verifyProof P s now ident prf audience challenge ttl =
     (if blank (DP_Nonce prf) then (reject CodeReplayDetected ''proof nonce is required'', s)
      else then_db (VerifyProof P ident prf audience challenge now ttl, s) (\<lambda>_ s.
        let expiresAt = Add (DP_IssuedAt prf) ttl in
        case Rel_repo s of
          Some d \<Rightarrow>
            then_db (with_db d (\<lambda>d. Relay_UseProofNonce P d (DP_DomainID prf) (DP_DeviceID prf) (DP_Audience prf)
                       (DP_Nonce prf) expiresAt now) s) (\<lambda>used s.
              if \<not> used then (reject CodeReplayDetected ''proof nonce replay detected'', s) else (Inr (), s))
        | None \<Rightarrow>
            (case Use (Rel_replay s) (proof_key prf) expiresAt now of
               (ok, c) \<Rightarrow>
                 let s = s\<lparr>Rel_replay := c\<rparr> in
                 if \<not> ok then (reject CodeReplayDetected ''proof nonce replay detected'', s) else (Inr (), s))))"

section \<open>Credentials\<close>

definition randomToken :: "bytes \<Rightarrow> string" where
  "randomToken b = Base64URL b"

definition fresh_credential :: "prims \<Rightarrow> string \<Rightarrow> string \<Rightarrow> string \<Rightarrow> time \<Rightarrow> credential" where
  "fresh_credential P domainID deviceID token expiresAt =
     \<lparr>Cred_DomainID = domainID, Cred_DeviceID = deviceID, Cred_Token = token, Cred_Hash = sha256 P token,
      Cred_ExpiresAt = expiresAt, Cred_Revoked = False\<rparr>"

definition store_credentials :: "relay_db \<Rightarrow> bytes result \<Rightarrow> bytes result \<Rightarrow> time \<Rightarrow> credential \<Rightarrow> credential \<Rightarrow> unit result \<times> relay_db" where
  "store_credentials d accessDraw refreshDraw now access refresh =
     then_db (NewUUIDv7Like now accessDraw, d) (\<lambda>accessID d.
     then_db (NewUUIDv7Like now refreshDraw, d) (\<lambda>refreshID d.
     then_db (StoreAccessHash d (UUIDString accessID) (Cred_DomainID access) (Cred_DeviceID access) (Cred_Hash access) now
                (Cred_ExpiresAt access)) (\<lambda>_ d.
     StoreRefreshHash d (UUIDString refreshID) (Cred_DomainID refresh) (Cred_DeviceID refresh) (Cred_Hash refresh) now
       (Cred_ExpiresAt refresh))))"

definition issueCredentials :: "prims \<Rightarrow> RelayServer \<Rightarrow> time \<Rightarrow> bytes \<Rightarrow> bytes \<Rightarrow> bytes result \<Rightarrow> bytes result \<Rightarrow> string \<Rightarrow> string \<Rightarrow>
    (credential \<times> credential) result \<times> RelayServer" where
  "issueCredentials P s now accessBytes refreshBytes accessDraw refreshDraw domainID deviceID =
     (let access = fresh_credential P domainID deviceID (randomToken accessBytes) (Add now (15 * Minute));
          refresh = fresh_credential P domainID deviceID (randomToken refreshBytes) (Add now (24 * Hour))
      in then_db (case Rel_repo s of
                    None \<Rightarrow> (Inr (), s)
                  | Some d \<Rightarrow> with_db d (\<lambda>d. store_credentials d accessDraw refreshDraw now access refresh) s) (\<lambda>_ s.
         (Inr (access, refresh),
          s\<lparr>Rel_access := (Rel_access s)(Cred_Hash access \<mapsto> access),
            Rel_refresh := (Rel_refresh s)(Cred_Hash refresh \<mapsto> refresh)\<rparr>)))"

definition revokeRefreshCredential :: "prims \<Rightarrow> RelayServer \<Rightarrow> string \<Rightarrow> time \<Rightarrow> unit result \<times> RelayServer" where
  "revokeRefreshCredential P s token now =
     (let h = sha256 P token;
          s = (case Rel_refresh s h of
                 Some cred \<Rightarrow> s\<lparr>Rel_refresh := (Rel_refresh s)(h \<mapsto> cred\<lparr>Cred_Revoked := True\<rparr>)\<rparr>
               | None \<Rightarrow> s)
      in case Rel_repo s of
           Some d \<Rightarrow> with_db d (\<lambda>d. RevokeRefreshByHash d (RCfg_DomainID (Rel_cfg s)) h now) s
         | None \<Rightarrow> (Inr (), s))"

definition credential_of :: "RelayCredential \<Rightarrow> credential" where
  "credential_of c = \<lparr>Cred_DomainID = RCred_DomainID c, Cred_DeviceID = RCred_DeviceID c, Cred_Token = [],
     Cred_Hash = RCred_Hash c, Cred_ExpiresAt = RCred_ExpiresAt c, Cred_Revoked = False\<rparr>"

section \<open>Identities\<close>

text \<open>The stored identity is decoded into the identity at hand.\<close>

definition lookup_stored :: "RelayServer \<Rightarrow> DeviceIdentity \<Rightarrow> string \<Rightarrow> string \<Rightarrow> DeviceIdentity option result \<times> RelayServer" where
  "lookup_stored s ident domainID deviceID =
     (case Rel_repo s of
        None \<Rightarrow> (Inr None, s)
      | Some d \<Rightarrow>
          handle (with_db d (\<lambda>d. GetDevice d domainID deviceID) s)
            (\<lambda>err s. if err = ErrNoRows then (Inr None, s) else (Inl err, s))
            (\<lambda>dbDevice s.
               if RDev_Status dbDevice = ''revoked'' then (Inr None, s)
               else (and_then (Unmarshal_struct identity_table ident (RDev_IdentityRaw dbDevice)) (\<lambda>ident. Inr (Some ident)), s)))"

definition lookupIdentity :: "RelayServer \<Rightarrow> string \<Rightarrow> string \<Rightarrow> DeviceIdentity option result \<times> RelayServer" where
  "lookupIdentity s domainID deviceID =
     (case Rel_devices s deviceID of
        Some ident \<Rightarrow>
          if deviceID \<notin> Rel_revoked s \<and> ID_DomainID ident = domainID then (Inr (Some ident), s)
          else lookup_stored s ident domainID deviceID
      | None \<Rightarrow> lookup_stored s no_identity domainID deviceID)"

definition accessProofChallenge :: "string \<Rightarrow> string \<Rightarrow> bytes \<Rightarrow> string" where
  "accessProofChallenge method path accessHash =
     join_nul [''iscp/v2/relay/access-proof'', to_upper method, path, Base64URL accessHash]"

definition verifyAccessProof :: "prims \<Rightarrow> RelayServer \<Rightarrow> time \<Rightarrow> Request \<Rightarrow> credential \<Rightarrow> bytes \<Rightarrow> unit result \<times> RelayServer" where
  "verifyAccessProof P s now r cred accessHash =
     (if \<not> production s then (Inr (), s)
      else let value = TrimSpace (Req_Header r accessProofHeader) in
        if value = [] then (reject CodeAccessInvalid ''production relay access requires proof of possession'', s)
        else then_db (DecodeBase64URL value, s) (\<lambda>raw s.
        then_db ((case UnmarshalProof raw of Inl _ \<Rightarrow> reject CodeAccessInvalid ''invalid relay access proof'' | Inr p \<Rightarrow> Inr p), s) (\<lambda>prf s.
        then_db (lookupIdentity s (Cred_DomainID cred) (Cred_DeviceID cred)) (\<lambda>found s.
          case found of
            None \<Rightarrow> (reject CodeAccessInvalid ''access proof identity is unknown'', s)
          | Some ident \<Rightarrow>
              verifyProof P s now ident prf (RCfg_RelayID (Rel_cfg s))
                (accessProofChallenge (Req_Method r) (Req_Path r) accessHash) Minute))))"

text \<open>The clock is read once for the credential (\<open>now\<close>) and once for the proof (\<open>now'\<close>).\<close>

definition authenticateAccess :: "prims \<Rightarrow> RelayServer \<Rightarrow> time \<Rightarrow> time \<Rightarrow> Request \<Rightarrow> credential result \<times> RelayServer" where
  "authenticateAccess P s now now' r =
     (let token = bearerToken r in
      if token = [] then (reject CodeAccessInvalid ''access credential is required'', s)
      else
        let h = sha256 P token;
            found = map_option (\<lambda>cred. if \<not> Cred_Revoked cred \<and> After now (Cred_ExpiresAt cred)
                                       then cred\<lparr>Cred_Revoked := True\<rparr> else cred) (Rel_access s h);
            s = (case found of None \<Rightarrow> s | Some cred \<Rightarrow> s\<lparr>Rel_access := (Rel_access s)(h \<mapsto> cred)\<rparr>);
            stored = (case Rel_repo s of
                        Some d \<Rightarrow>
                          handle (with_db d (\<lambda>d. GetAccessByHash d (RCfg_DomainID (Rel_cfg s)) h now) s)
                            (\<lambda>err s. if err \<noteq> ErrNoRows then (Inl err, s)
                                     else (reject CodeAccessInvalid ''access credential invalid'', s))
                            (\<lambda>dbCred s.
                               let cred = credential_of dbCred in
                               then_db (verifyAccessProof P s now' r cred h) (\<lambda>_ s. (Inr cred, s)))
                      | None \<Rightarrow> (reject CodeAccessInvalid ''access credential invalid'', s))
        in case found of
             Some cred \<Rightarrow>
               if \<not> Cred_Revoked cred \<and> Before now (Cred_ExpiresAt cred)
               then then_db (verifyAccessProof P s now' r cred h) (\<lambda>_ s. (Inr cred, s))
               else stored
           | None \<Rightarrow> stored)"

definition persistDevice :: "prims \<Rightarrow> RelayServer \<Rightarrow> time \<Rightarrow> bytes result \<Rightarrow> DeviceIdentity \<Rightarrow> string \<Rightarrow> unit result \<times> RelayServer" where
  "persistDevice P s now draw ident status =
     (case Rel_repo s of
        None \<Rightarrow> (Inr (), s)
      | Some d \<Rightarrow>
          then_db (MarshalIdentity ident, s) (\<lambda>raw s.
          then_db (Marshal raw, s) (\<lambda>canon s.
          then_db (identity_Thumbprint P ident, s) (\<lambda>tp s.
          then_db (NewUUIDv7Like now draw, s) (\<lambda>uuid s.
            with_db d (\<lambda>d. InsertDevice d
              \<lparr>RDev_ID = UUIDString uuid, RDev_DomainID = ID_DomainID ident, RDev_DeviceID = ID_DeviceID ident,
               RDev_IdentityRaw = raw, RDev_IdentityCanonical = canon, RDev_PublicKeyThumbprint = tp, RDev_Status = status,
               RDev_CreatedAt = now, RDev_UpdatedAt = now\<rparr>) s)))))"

section \<open>Tickets and connections\<close>

definition no_ticket :: ticketState where
  "no_ticket = \<lparr>Tk_MaxUses = 0, Tk_Uses = 0\<rparr>"

definition consumeTicket :: "RelayServer \<Rightarrow> string \<Rightarrow> int \<Rightarrow> unit result \<times> RelayServer" where
  "consumeTicket s ticketID maxUses =
     (let state = (case Rel_tickets s ticketID of None \<Rightarrow> no_ticket | Some st \<Rightarrow> st);
          state = (if Tk_MaxUses state = 0 then state\<lparr>Tk_MaxUses := maxUses\<rparr> else state)
      in if Tk_MaxUses state \<le> 0 \<or> Tk_MaxUses state \<le> Tk_Uses state
         then (reject CodeProvisionInvalid ''pairing ticket already consumed'', s)
         else (Inr (), s\<lparr>Rel_tickets := (Rel_tickets s)(ticketID \<mapsto> state\<lparr>Tk_Uses := Tk_Uses state + 1\<rparr>)\<rparr>))"

definition recordConnection :: "RelayServer \<Rightarrow> connectionState \<Rightarrow> RelayServer" where
  "recordConnection s state = s\<lparr>Rel_connections := (Rel_connections s)(Conn_ConnectionID state \<mapsto> state)\<rparr>"

definition no_connection :: connectionState where
  "no_connection = \<lparr>Conn_ConnectionID = [], Conn_DomainID = [], Conn_DeviceID = [], Conn_State = [], Conn_ConnectedAt = 0,
     Conn_LastSeenAt = 0, Conn_ClosedAt = 0\<rparr>"

definition closeConnection :: "RelayServer \<Rightarrow> time \<Rightarrow> string \<Rightarrow> RelayServer" where
  "closeConnection s now connectionID =
     (let state = (case Rel_connections s connectionID of None \<Rightarrow> no_connection | Some c \<Rightarrow> c) in
      s\<lparr>Rel_connections := (Rel_connections s)(connectionID \<mapsto>
          state\<lparr>Conn_State := ''closed'', Conn_ClosedAt := now, Conn_LastSeenAt := now\<rparr>)\<rparr>)"

definition validateEnvelopeMeta :: "RelayServer \<Rightarrow> string \<Rightarrow> string \<Rightarrow> string \<Rightarrow> string \<Rightarrow> int \<Rightarrow> int \<Rightarrow> unit result" where
  "validateEnvelopeMeta s domainID messageID senderDeviceID recipientDeviceID ttlSeconds priority =
     (if domainID \<noteq> RCfg_DomainID (Rel_cfg s)
      then reject CodeEnvelopeInvalid ''envelope domain does not match relay domain''
      else if blank messageID \<or> blank senderDeviceID \<or> blank recipientDeviceID
      then reject CodeEnvelopeInvalid ''envelope routing identifiers are required''
      else if ttlSeconds \<le> 0 \<or> 86400 < ttlSeconds
      then reject CodeEnvelopeInvalid ''envelope ttl must be between 1 second and 24 hours''
      else if priority < 0 \<or> 9 < priority
      then reject CodeEnvelopeInvalid ''envelope priority must be between 0 and 9''
      else Inr ())"

section \<open>Origins\<close>

text \<open>
  \<^verbatim>\<open>url.Parse\<close> is an argument: the scheme and the host of a URL, if it parses.
\<close>

definition normalizedOrigin :: "(string \<Rightarrow> (string \<times> string) option) \<Rightarrow> string \<Rightarrow> string" where
  "normalizedOrigin url_Parse raw0 =
     (let raw = TrimSpace raw0 in
      if raw = [] then []
      else case url_Parse raw of
             None \<Rightarrow> []
           | Some (scheme, host) \<Rightarrow>
               if scheme = [] \<or> host = [] then []
               else (if scheme = ''ws'' then ''http'' else if scheme = ''wss'' then ''https'' else scheme) @ ''://'' @ to_lower host)"

definition originAllowed :: "(string \<Rightarrow> (string \<times> string) option) \<Rightarrow> Request \<Rightarrow> string list \<Rightarrow> string list \<Rightarrow> bool" where
  "originAllowed url_Parse r origins fallbackURLs =
     (let origin = TrimSpace (Req_Header r ''Origin'') in
      if origin = [] then True
      else normalizedOrigin url_Parse origin \<in>
             set (filter (\<lambda>n. n \<noteq> []) (map (normalizedOrigin url_Parse) (origins @ fallbackURLs))))"

end
