(* ===== verification/Json_Compact.thy ===== *)
theory Json_Compact
  imports Json_Unmarshal
begin

text \<open>
  How \<^verbatim>\<open>json.Encoder\<close> writes a \<^verbatim>\<open>json.RawMessage\<close> (\<^verbatim>\<open>appendCompact\<close> with HTML escaping on): white space
  outside strings is dropped, and in strings the characters \<^verbatim>\<open><\<close>, \<^verbatim>\<open>>\<close>, \<^verbatim>\<open>&\<close>, U+2028 and U+2029 become
  escapes. Bytes that are no JSON document are an error. The result reads as the same document
  (\<open>MarshalRaw_reads\<close>).
\<close>

declare valid_utf8.simps(2) [simp del] to_valid.simps(2) [simp del]

definition html_special :: "char \<Rightarrow> bool" where
  "html_special c \<longleftrightarrow> c = CHR ''<'' \<or> c = CHR ''>'' \<or> c = CHR ''&''"

text \<open>The bytes of U+2028 and U+2029 at the front of the input.\<close>

fun line_separator :: "bytes \<Rightarrow> char option" where
  "line_separator (a # b # c # s) =
     (if a = CHR 0xE2 \<and> b = CHR 0x80 \<and> (c = CHR 0xA8 \<or> c = CHR 0xA9) then Some c else None)"
| "line_separator _ = None"

text \<open>The flag says whether the input continues a string.\<close>

function (sequential) compact :: "bool \<Rightarrow> bytes \<Rightarrow> bytes" where
  "compact inside [] = []"
| "compact False (c # s) =
     (if json_space c then compact False s
      else c # compact (c = DQUOTE) s)"
| "compact True (c # s) =
     (if c = DQUOTE then c # compact False s
      else if c = BSLASH then (case s of [] \<Rightarrow> [c] | d # s' \<Rightarrow> c # d # compact True s')
      else if html_special c then
        [BSLASH, CHR ''u'', CHR ''0'', CHR ''0'', hex_digit (byte_val c div 16), hex_digit (byte_val c mod 16)] @ compact True s
      else case line_separator (c # s) of
             Some d \<Rightarrow> [BSLASH, CHR ''u'', CHR ''2'', CHR ''0'', CHR ''2'', hex_digit (byte_val d mod 16)] @ compact True (drop 2 s)
           | None \<Rightarrow> c # compact True s)"
  by pat_completeness auto
termination by (relation "measure (\<lambda>(inside, s). length s)") auto

declare compact.simps(3) [simp del]

definition MarshalRaw :: "bytes \<Rightarrow> bytes result" where
  "MarshalRaw b = and_then (raw_doc (Some b)) (\<lambda>_. Inr (compact False b))"

section \<open>Strings\<close>

lemma compact_string_simps:
  "compact True (DQUOTE # s) = DQUOTE # compact False s"
  "compact True (BSLASH # d # s) = BSLASH # d # compact True s"
  "html_special c \<Longrightarrow> compact True (c # s) =
     [BSLASH, CHR ''u'', CHR ''0'', CHR ''0'', hex_digit (byte_val c div 16), hex_digit (byte_val c mod 16)] @ compact True s"
  by (auto simp: compact.simps(3) html_special_def)

lemma line_separator_head: "line_separator (c # s) = Some d \<Longrightarrow> c = CHR 0xE2"
  by (cases "c # s" rule: line_separator.cases) (auto split: if_splits)

lemma line_separator_Some: "line_separator s = Some d \<longleftrightarrow>
    (\<exists>t. s = CHR 0xE2 # CHR 0x80 # d # t) \<and> (d = CHR 0xA8 \<or> d = CHR 0xA9)"
  by (cases s rule: line_separator.cases) auto

lemma compact_keeps:
  assumes "c \<noteq> DQUOTE" "c \<noteq> BSLASH" "\<not> html_special c" "line_separator (c # s) = None"
  shows "compact True (c # s) = c # compact True s"
  using assms by (simp add: compact.simps(3))

lemma compact_separator:
  assumes "line_separator (c # s) = Some d"
  obtains t where "c # s = CHR 0xE2 # CHR 0x80 # d # t" "d = CHR 0xA8 \<or> d = CHR 0xA9"
    "compact True (c # s) = [BSLASH, CHR ''u'', CHR ''2'', CHR ''0'', CHR ''2'', hex_digit (byte_val d mod 16)] @ compact True t"
proof -
  from assms obtain t where t: "c # s = CHR 0xE2 # CHR 0x80 # d # t" "d = CHR 0xA8 \<or> d = CHR 0xA9"
    by (auto simp: line_separator_Some)
  then have "compact True (c # s) = [BSLASH, CHR ''u'', CHR ''2'', CHR ''0'', CHR ''2'', hex_digit (byte_val d mod 16)] @ compact True t"
    using assms by (simp add: compact.simps(3) html_special_def)
  with t show thesis by (rule that)
qed

lemma compact_cases:
  obtains (quote) "c = DQUOTE" | (escape) "c = BSLASH" | (special) "html_special c"
  | (separator) d where "line_separator (c # s) = Some d"
  | (kept) "c \<noteq> DQUOTE" "c \<noteq> BSLASH" "\<not> html_special c" "line_separator (c # s) = None" "compact True (c # s) = c # compact True s"
  using compact_keeps[of c s] by (cases "line_separator (c # s)") blast+

text \<open>Every byte of a string that is changed becomes an escape, so what starts a digit or continues a rune is kept.\<close>

lemma compact_head:
  "compact True (c # s) = c # compact True s \<or> c = DQUOTE \<and> compact True (c # s) = c # compact False s \<or>
   c = BSLASH \<and> (\<exists>t. compact True (c # s) = c # t) \<or>
   (html_special c \<or> c = CHR 0xE2) \<and> (\<exists>t. compact True (c # s) = BSLASH # t)"
  by (cases s) (auto simp: compact.simps(3) dest: line_separator_head split: option.split)

lemma hex_value_plain: "hex_value c = Some n \<Longrightarrow> c \<noteq> DQUOTE \<and> c \<noteq> BSLASH \<and> \<not> html_special c \<and> c \<noteq> CHR 0xE2"
  by (auto simp: hex_value_def html_special_def)

lemma hex_value_cases:
  obtains n where "hex_value c = Some n" "compact True (c # s) = c # compact True s"
  | d t where "hex_value c = None" "hex_value d = None" "compact True (c # s) = d # t"
proof (cases "hex_value c")
  case (Some n)
  with hex_value_plain[OF Some] show ?thesis using compact_keeps[of c s] line_separator_head[of c s] that(1) by fastforce
next
  case None
  have "hex_value BSLASH = None" by (simp add: hex_value_def)
  with None show ?thesis using compact_head[of c s] that(2) by metis
qed

lemma hex4_bad:
  "hex_value a = None \<Longrightarrow> hex4 (a # t) = None" "hex_value b = None \<Longrightarrow> hex4 (a # b # t) = None"
  "hex_value c = None \<Longrightarrow> hex4 (a # b # c # t) = None" "hex_value d = None \<Longrightarrow> hex4 (a # b # c # d # t) = None"
proof -
  show "hex_value a = None \<Longrightarrow> hex4 (a # t) = None" by (cases "a # t" rule: hex4.cases) auto
  show "hex_value b = None \<Longrightarrow> hex4 (a # b # t) = None" by (cases "a # b # t" rule: hex4.cases) (auto split: option.split)
  show "hex_value c = None \<Longrightarrow> hex4 (a # b # c # t) = None" by (cases "a # b # c # t" rule: hex4.cases) (auto split: option.split)
  show "hex_value d = None \<Longrightarrow> hex4 (a # b # c # d # t) = None" by (auto split: option.split)
qed

lemma hex4_compact: "hex4 (compact True s) = map_option (\<lambda>(n, r). (n, compact True r)) (hex4 s)"
proof (cases s)
  case a: (Cons a s1)
  show ?thesis
  proof (cases a s1 rule: hex_value_cases)
    case A: (1 w)
    show ?thesis
    proof (cases s1)
      case b: (Cons b s2)
      show ?thesis
      proof (cases b s2 rule: hex_value_cases)
        case B: (1 x)
        show ?thesis
        proof (cases s2)
          case c: (Cons c s3)
          show ?thesis
          proof (cases c s3 rule: hex_value_cases)
            case C: (1 y)
            show ?thesis
            proof (cases s3)
              case d: (Cons d s4)
              show ?thesis
                by (cases d s4 rule: hex_value_cases) (use A B C in \<open>simp_all add: a b c d hex4_bad\<close>)
            qed (use A B C in \<open>simp add: a b c\<close>)
          qed (use A B in \<open>simp add: a b c hex4_bad\<close>)
        qed (use A B in \<open>simp add: a b\<close>)
      qed (use A in \<open>simp add: a b hex4_bad\<close>)
    qed (use A in \<open>simp add: a\<close>)
  qed (simp add: a hex4_bad)
qed simp

text \<open>A surrogate escape looks at the escape after it; the escapes that compaction writes are no surrogates.\<close>

lemma getu4_compact:
  "case getu4 s of
     Some (n, r) \<Rightarrow> getu4 (compact True s) = Some (n, compact True r)
   | None \<Rightarrow> (case getu4 (compact True s) of None \<Rightarrow> True | Some (n, r) \<Rightarrow> n < 55296)"
proof (cases s)
  case (Cons a t)
  show ?thesis
  proof (cases "a = BSLASH")
    case True
    then show ?thesis
      by (cases t) (auto simp: Cons compact_string_simps hex4_compact compact.simps(3) split: option.split)
  next
    case False
    then have n: "getu4 s = None" by (cases t) (simp_all add: Cons)
    show ?thesis
    proof (cases rule: compact_cases[where c = a and s = t])
      case quote
      then have "getu4 (compact True s) = None" by (cases "compact False t") (simp_all add: Cons compact_string_simps)
      then show ?thesis by (simp add: n)
    next
      case special
      then have "getu4 (compact True s) = Some (byte_val a, compact True t)"
        by (auto simp: Cons compact_string_simps html_special_def hex_value_digit hex_value_def hex_digit_def)
      then show ?thesis using special by (auto simp: n html_special_def)
    next
      case (separator d)
      then obtain r where r: "d = CHR 0xA8 \<or> d = CHR 0xA9"
        "compact True s = [BSLASH, CHR ''u'', CHR ''2'', CHR ''0'', CHR ''2'', hex_digit (byte_val d mod 16)] @ compact True r"
        unfolding Cons by (rule compact_separator)
      then have "getu4 (compact True s) = Some (8192 + 32 + byte_val d mod 16, compact True r)"
        by (auto simp: hex_value_def hex_digit_def)
      then show ?thesis using r(1) by (auto simp: n)
    next
      case kept
      then have "getu4 (compact True s) = None" by (cases "compact True t") (simp_all add: Cons)
      then show ?thesis by (simp add: n)
    qed (use False in simp)
  qed
qed simp

text \<open>The continuation bytes of a rune are kept, and the rune depends on nothing after them.\<close>

lemma cont_kept: "cont c \<Longrightarrow> compact True (c # s) = c # compact True s"
  using line_separator_head[of c s]
  by (intro compact_keeps; cases "line_separator (c # s)") (auto simp: cont_def html_special_def)

lemma compact_conts: "takeWhile cont (compact True s) = takeWhile cont s"
proof (induction s)
  case (Cons c s)
  show ?case
  proof (cases "cont c")
    case True
    then show ?thesis by (simp add: cont_kept Cons)
  next
    case False
    moreover have "\<not> cont BSLASH" by (simp add: cont_def)
    ultimately show ?thesis using compact_head[of c s] by auto
  qed
qed simp

lemma compact_drop: "k \<le> length (takeWhile cont s) \<Longrightarrow> drop k (compact True s) = compact True (drop k s)"
proof (induction s arbitrary: k)
  case (Cons c s)
  then show ?case by (cases k) (auto simp: cont_kept split: if_splits)
qed simp

lemma decode_conts:
  "decode2 x (takeWhile cont r) = decode2 x r" "decode3 x (takeWhile cont r) = decode3 x r" "decode4 x (takeWhile cont r) = decode4 x r"
  "snd (decode2 x r) \<le> Suc (length (takeWhile cont r))" "snd (decode3 x r) \<le> Suc (length (takeWhile cont r))"
  "snd (decode4 x r) \<le> Suc (length (takeWhile cont r))"
proof -
  show "decode2 x (takeWhile cont r) = decode2 x r" "snd (decode2 x r) \<le> Suc (length (takeWhile cont r))"
    by (cases r; simp)+
  show "decode3 x (takeWhile cont r) = decode3 x r" "snd (decode3 x r) \<le> Suc (length (takeWhile cont r))"
    by (cases "(x, r)" rule: decode3.cases; auto simp: second3_def)+
  show "decode4 x (takeWhile cont r) = decode4 x r" "snd (decode4 x r) \<le> Suc (length (takeWhile cont r))"
    by (cases "(x, r)" rule: decode4.cases; auto simp: second4_def)+
qed

lemma DecodeRune_conts: "DecodeRune (c # takeWhile cont r) = DecodeRune (c # r)"
  by (simp add: DecodeRune.simps Let_def decode_conts)

lemma DecodeRune_reach: "snd (DecodeRune (c # r)) \<le> Suc (length (takeWhile cont r))"
  by (simp add: DecodeRune.simps decode_conts Let_def)

lemma DecodeRune_compact:
  "DecodeRune (c # compact True r) = DecodeRune (c # r)"
  "drop (snd (DecodeRune (c # r))) (c # compact True r) = compact True (drop (snd (DecodeRune (c # r))) (c # r))"
proof -
  show "DecodeRune (c # compact True r) = DecodeRune (c # r)" by (metis DecodeRune_conts compact_conts)
  obtain k where "snd (DecodeRune (c # r)) = Suc k" using DecodeRune_size[of c r] by (cases "snd (DecodeRune (c # r))") auto
  with DecodeRune_reach[of c r] show "drop (snd (DecodeRune (c # r))) (c # compact True r) = compact True (drop (snd (DecodeRune (c # r))) (c # r))"
    by (simp add: compact_drop)
qed

lemma unescape_u_compact:
  assumes "unescape_u s = Some (out, rest)"
  shows "unescape_u (compact True s) = Some (out, compact True rest)"
proof -
  obtain n r where h: "hex4 s = Some (n, r)" using assms by (auto simp: unescape_u_def split: option.splits)
  have low: "decode_utf16 n m = RuneError" if "m < 55296" for m using that by (simp add: decode_utf16_def)
  show ?thesis
    using assms h low getu4_compact[of r]
    by (auto simp: unescape_u_def hex4_compact split: if_splits option.splits)
qed

lemma lex_char_compact:
  assumes "lex_char (c # s) = Some (out, rest)" "c \<noteq> DQUOTE"
  shows "\<exists>d t. compact True (c # s) = d # t \<and> d \<noteq> DQUOTE \<and> lex_char (d # t) = Some (out, compact True rest)"
proof (cases rule: compact_cases[where c = c and s = s])
  case escape
  then show ?thesis
    using assms by (cases s) (auto simp: compact_string_simps dest: unescape_u_compact split: if_splits)
next
  case special
  then have b: "byte_val c < 128" "out = [c]" "rest = s" using assms by (auto simp: html_special_def)
  obtain d q where q: "quote_ascii c = d # q" "d \<noteq> DQUOTE" "\<And>t. lex_char (d # q @ t) = Some ([c], t)"
    using lex_quote_ascii[OF b(1)] by blast
  have "compact True (c # s) = quote_ascii c @ compact True s"
    using special by (auto simp: compact_string_simps quote_ascii_def html_special_def)
  then show ?thesis using q b(2,3) by (simp del: lex_char.simps)
next
  case (separator d)
  then obtain t where t: "c # s = CHR 0xE2 # CHR 0x80 # d # t" "d = CHR 0xA8 \<or> d = CHR 0xA9"
    "compact True (c # s) = [BSLASH, CHR ''u'', CHR ''2'', CHR ''0'', CHR ''2'', hex_digit (byte_val d mod 16)] @ compact True t"
    by (rule compact_separator)
  have "DecodeRune (c # s) = (8192 + 32 + byte_val d mod 16, 3)"
    using t(1,2) by (auto simp: DecodeRune.simps second3_def cont_def)
  moreover have "\<not> byte_val c < 128" "c \<noteq> BSLASH" using t(1) by auto
  ultimately have o: "out = EncodeRune (8192 + 32 + byte_val d mod 16)" "rest = t" using assms(1) t(1) by auto
  have "unescape_u (CHR ''2'' # CHR ''0'' # CHR ''2'' # hex_digit (byte_val d mod 16) # u) = Some (EncodeRune (8192 + 32 + byte_val d mod 16), u)" for u
    using t(2) by (auto simp: unescape_u_def hex_value_def hex_digit_def is_surrogate_def)
  then show ?thesis unfolding t(3) o by simp
next
  case kept
  then show ?thesis using assms by (auto simp: DecodeRune_compact split: if_splits)
qed (use assms(2) in simp)

lemma lex_string_compact: "lex_string s = Some (v, r) \<Longrightarrow> lex_string (compact True s) = Some (v, compact False r)"
proof (induction s arbitrary: v r rule: lex_string.induct)
  case (1 s)
  show ?case
  proof (cases s)
    case Nil
    with 1 show ?thesis by (simp add: lex_string.simps)
  next
    case (Cons c t)
    show ?thesis
    proof (cases "c = DQUOTE")
      case True
      with 1 Cons show ?thesis by (simp add: compact_string_simps)
    next
      case False
      with 1(2) Cons obtain o1 r1 v' where l: "lex_char s = Some (o1, r1)" "lex_string r1 = Some (v', r)" "v = o1 @ v'"
        by (subst (asm) lex_string.simps) (auto split: option.splits simp del: lex_char.simps)
      have ih: "lex_string (compact True r1) = Some (v', compact False r)" by (rule 1(1)[OF Cons False l(1) refl l(2)])
      obtain d u where "compact True s = d # u" "d \<noteq> DQUOTE" "lex_char (d # u) = Some (o1, compact True r1)"
        using lex_char_compact[OF l(1)[unfolded Cons] False] Cons by blast
      then show ?thesis using ih l(3) by (simp add: lex_string_step del: lex_char.simps)
    qed
  qed
qed

section \<open>Numbers\<close>

text \<open>What a number consumed reads as the same number before anything that cannot continue it.\<close>

definition no_digit :: "bytes \<Rightarrow> bool" where
  "no_digit t \<longleftrightarrow> (case t of [] \<Rightarrow> True | c # _ \<Rightarrow> \<not> is_digit c)"

lemma num_end_no_digit: "num_end t \<Longrightarrow> no_digit t"
  by (auto simp: num_end_def no_digit_def split: list.splits)

lemma digits_prefix: "digits s = (d, r) \<Longrightarrow> no_digit t \<Longrightarrow> digits (d @ t) = (d, t)"
  by (induction s arbitrary: d r) (auto simp: no_digit_def split: if_splits prod.splits list.splits)

lemma digits_first: "digits s = (c # d, r) \<Longrightarrow> is_digit c"
  by (cases s) (auto split: if_splits prod.splits)

lemma lex_exp_prefix: "lex_exp s = Some (e, r) \<Longrightarrow> num_end t \<Longrightarrow> lex_exp (e @ t) = Some (e, t)"
proof (cases "e = []")
  case True
  assume "num_end t"
  then show ?thesis using True by (auto simp: lex_exp_def num_end_def split: list.split)
next
  case False
  assume e: "lex_exp s = Some (e, r)" and t: "num_end t"
  obtain c u g r1 d where p: "s = c # u" "c = CHR ''e'' \<or> c = CHR ''E''" "lex_exp_sign u = (g, r1)" "digits r1 = (d, r)" "d \<noteq> []" "e = c # g @ d"
    using e False by (auto simp: lex_exp_def split: list.splits if_splits prod.splits)
  have "lex_exp_sign (g @ d @ t) = (g, d @ t)"
  proof (cases g)
    case Nil
    obtain x d' where x: "d = x # d'" using p(5) by (cases d) auto
    then have "is_digit x" using digits_first p(4) by blast
    then show ?thesis by (auto simp: lex_exp_sign_def Nil x is_digit_def)
  next
    case (Cons x g')
    then show ?thesis using p(3) by (auto simp: lex_exp_sign_def split: list.splits if_splits)
  qed
  then show ?thesis
    using p(2,5,6) digits_prefix[OF p(4) num_end_no_digit[OF t]] by (auto simp: lex_exp_def)
qed

lemma lex_exp_start:
  assumes "lex_exp s = Some (e, r)" "num_end t"
  shows "no_digit (e @ t)" "e @ t = CHR ''.'' # x \<Longrightarrow> False"
  using assms by (auto simp: lex_exp_def no_digit_def num_end_def is_digit_def split: list.splits if_splits prod.splits)

lemma lex_frac_prefix:
  assumes "lex_frac s = Some (f, r)" "no_digit t" "\<And>x. t \<noteq> CHR ''.'' # x"
  shows "lex_frac (f @ t) = Some (f, t)" "no_digit (f @ t)"
proof -
  have "lex_frac (f @ t) = Some (f, t) \<and> no_digit (f @ t)"
  proof (cases "f = []")
    case True
    then show ?thesis using assms(2,3) by (auto simp: lex_frac_def split: list.split)
  next
    case False
    obtain u d where p: "digits u = (d, r)" "d \<noteq> []" "f = CHR ''.'' # d"
      using assms(1) False by (auto simp: lex_frac_def split: list.splits if_splits prod.splits)
    then show ?thesis using digits_prefix[OF p(1) assms(2)] by (auto simp: lex_frac_def no_digit_def is_digit_def)
  qed
  then show "lex_frac (f @ t) = Some (f, t)" "no_digit (f @ t)" by simp_all
qed

lemma lex_int_part_prefix:
  assumes "lex_int_part s = Some (i, r)" "no_digit t"
  shows "lex_int_part (i @ t) = Some (i, t)" "\<exists>c i'. i = c # i' \<and> is_digit c"
proof -
  have "s \<noteq> []" using assms(1) by (auto simp: lex_int_part_def)
  then obtain c u where s: "s = c # u" by (cases s) auto
  have "lex_int_part (i @ t) = Some (i, t) \<and> (\<exists>c i'. i = c # i' \<and> is_digit c)"
  proof (cases "c = CHR ''0''")
    case True
    then have "i = [c]" using assms(1) by (simp add: s lex_int_part_def)
    then show ?thesis using True by (simp add: lex_int_part_def is_digit_def)
  next
    case False
    then have d: "is_digit c" "digits s = (i, r)" using assms(1) by (auto simp: s lex_int_part_def simp del: digits.simps split: if_splits)
    then obtain i' where i: "i = c # i'" by (auto simp: s split: prod.splits)
    show ?thesis using digits_prefix[OF d(2) assms(2)] d(1) False by (simp add: lex_int_part_def i del: digits.simps)
  qed
  then show "lex_int_part (i @ t) = Some (i, t)" "\<exists>c i'. i = c # i' \<and> is_digit c" by blast+
qed

lemma lex_number_prefix:
  assumes "lex_number s = Some (d, r)" "num_end t"
  shows "lex_number (d @ t) = Some (d, t)"
proof -
  obtain g s1 i s2 f s3 e where p: "lex_sign s = (g, s1)" "lex_int_part s1 = Some (i, s2)"
    "lex_frac s2 = Some (f, s3)" "lex_exp s3 = Some (e, r)" "d = g @ i @ f @ e"
    using assms(1) by (auto simp: lex_number_def split: option.splits prod.splits)
  note e = lex_exp_start[OF p(4) assms(2)]
  have f: "lex_frac (f @ e @ t) = Some (f, e @ t)" "no_digit (f @ e @ t)"
    using lex_frac_prefix[OF p(3) e(1)] e(2) by blast+
  note i = lex_int_part_prefix[OF p(2) f(2)]
  have "lex_sign (g @ i @ f @ e @ t) = (g, i @ f @ e @ t)"
    using p(1) i(2) by (auto simp: lex_sign_def is_digit_def split: list.splits if_splits)
  then show ?thesis using i(1) f(1) lex_exp_prefix[OF p(4) assms(2)] by (simp add: lex_number_def p(5))
qed

definition plain_byte :: "char \<Rightarrow> bool" where
  "plain_byte c \<longleftrightarrow> \<not> json_space c \<and> c \<noteq> DQUOTE"

lemma compact_plain: "list_all plain_byte d \<Longrightarrow> compact False (d @ r) = d @ compact False r"
  by (induction d) (auto simp: plain_byte_def)

lemma is_digit_plain: "is_digit c \<Longrightarrow> plain_byte c"
  by (auto simp: is_digit_def plain_byte_def json_space_def)

lemma digits_plain: "digits s = (d, r) \<Longrightarrow> list_all plain_byte d"
  by (induction s arbitrary: d r) (auto simp: is_digit_plain split: if_splits prod.splits)

lemma lex_number_plain: "lex_number s = Some (d, r) \<Longrightarrow> list_all plain_byte d"
proof -
  have c: "plain_byte (CHR ''-'')" "plain_byte (CHR ''+'')" "plain_byte (CHR ''.'')" "plain_byte (CHR ''e'')" "plain_byte (CHR ''E'')"
    by (simp_all add: plain_byte_def json_space_def)
  have "lex_int_part s = Some (d, r) \<Longrightarrow> list_all plain_byte d" for s d r
    by (auto simp: lex_int_part_def is_digit_plain is_digit_def simp del: digits.simps split: list.splits if_splits dest: digits_plain)
  moreover have "lex_frac s = Some (d, r) \<Longrightarrow> list_all plain_byte d" for s d r
    using c by (auto simp: lex_frac_def split: list.splits if_splits prod.splits dest: digits_plain)
  moreover have "lex_exp_sign s = (d, r) \<Longrightarrow> list_all plain_byte d" "lex_sign s = (d, r) \<Longrightarrow> list_all plain_byte d" for s d r
    using c by (auto simp: lex_exp_sign_def lex_sign_def split: list.splits if_splits)
  moreover from this have "lex_exp s = Some (d, r) \<Longrightarrow> list_all plain_byte d" for s d r
    using c by (auto simp: lex_exp_def split: list.splits if_splits prod.splits dest: digits_plain)
  moreover assume "lex_number s = Some (d, r)"
  ultimately show ?thesis by (auto simp: lex_number_def split: option.splits prod.splits)
qed

section \<open>Documents\<close>

lemma compact_skip: "compact False (skip_space s) = compact False s" "skip_space (compact False s) = compact False s"
  by (induction s) (auto split: if_splits)

lemma skip_space_first: "skip_space s = c # r \<Longrightarrow> \<not> json_space c"
  by (induction s) (auto split: if_splits)

lemma skip_compact_Cons:
  assumes "skip_space s = c # r"
  shows "skip_space (compact False s) = c # compact (c = DQUOTE) r"
  using skip_space_first[OF assms] assms compact_skip[of s] by (metis compact.simps(2))

lemma skip_compact_Nil: "skip_space s = [] \<Longrightarrow> compact False s = []"
  using compact_skip(1)[of s] by simp

lemma expect_compact:
  assumes "c \<noteq> DQUOTE"
  shows "expect c s = Inr r \<Longrightarrow> expect c (compact False s) = Inr (compact False r)"
    and "expect c s = Inl e \<Longrightarrow> \<exists>e'. expect c (compact False s) = Inl e'"
  using assms by (cases "skip_space s"; auto simp: expect_def skip_compact_Cons skip_compact_Nil split: if_splits)+

lemma expect_quote_compact: "expect DQUOTE s = Inr r \<Longrightarrow> expect DQUOTE (compact False s) = Inr (compact True r)"
  by (cases "skip_space s") (auto simp: expect_def skip_compact_Cons split: if_splits)

lemma num_end_compact: "num_end (skip_space s) \<Longrightarrow> num_end (compact False s)"
  by (cases "skip_space s") (use skip_compact_Cons[of s] compact_skip(2)[of s] in \<open>auto simp: skip_compact_Nil num_end_def\<close>)

lemma scan_string_compact: "scan_string s = Inr (t, r) \<Longrightarrow> scan_string (compact True s) = Inr (t, compact False r)"
  by (auto simp: scan_string_def lex_string_compact split: option.splits)

lemma starts_with_split: "starts_with w s \<Longrightarrow> s = w @ drop (length w) s"
  by (induction w s rule: starts_with.induct) auto

lemma scan_literal_compact:
  assumes "scan_literal w t' s = Inr (t, r)" "list_all plain_byte w"
  shows "scan_literal w t' (compact False s) = Inr (t, compact False r)"
proof -
  have "s = w @ r" "t = t'" using assms(1) starts_with_split[of w s] by (auto simp: scan_literal_def split: if_splits)
  moreover have "starts_with w (w @ x)" for x by (induction w) auto
  ultimately show ?thesis using compact_plain[OF assms(2)] by (simp add: scan_literal_def)
qed

lemma scan_scalar_compact:
  assumes "scan_scalar (c # s) = Inr (t, r)" "\<not> json_space c" "num_end (skip_space r)"
  shows "scan_scalar (compact False (c # s)) = Inr (t, compact False r)"
proof -
  have w: "list_all plain_byte ''true''" "list_all plain_byte ''false''" "list_all plain_byte ''null''"
    by (simp_all add: plain_byte_def json_space_def)
  have n: "scan_number (compact False (c # s)) = Inr (t, compact False r)" if n: "scan_number (c # s) = Inr (t, r)"
  proof -
    obtain d where d: "lex_number (c # s) = Some (d, r)" "t = TNum d" using n by (auto simp: scan_number_def split: option.splits)
    have "compact False (c # s) = d @ compact False r"
      using lex_number_concat[OF d(1)] compact_plain[OF lex_number_plain[OF d(1)]] by metis
    then show ?thesis using lex_number_prefix[OF d(1) num_end_compact[OF assms(3)]] d(2) by (simp add: scan_number_def)
  qed
  have h: "compact False (c # s) = c # compact (c = DQUOTE) s" using assms(2) by simp
  consider (str) "c = DQUOTE" | (num) "\<And>x. scan_scalar (c # x) = scan_number (c # x)"
    | (lit) w t' where "list_all plain_byte w" "\<And>x. scan_scalar (c # x) = scan_literal w t' (c # x)"
  proof (cases "c = DQUOTE \<or> c = CHR ''-'' \<or> is_digit c")
    case True
    moreover have "scan_scalar (c # x) = scan_number (c # x)" if "c \<noteq> DQUOTE" "c = CHR ''-'' \<or> is_digit c" for x
      using that by (auto simp: scan_scalar_def)
    ultimately show thesis using str num by blast
  next
    case False
    then have "c = CHR ''t'' \<or> c = CHR ''f'' \<or> c = CHR ''n''" using assms(1) by (auto simp: scan_scalar_def split: if_splits)
    moreover have "c = CHR ''t'' \<Longrightarrow> scan_scalar (c # x) = scan_literal ''true'' (TBool True) (c # x)"
      "c = CHR ''f'' \<Longrightarrow> scan_scalar (c # x) = scan_literal ''false'' (TBool False) (c # x)"
      "c = CHR ''n'' \<Longrightarrow> scan_scalar (c # x) = scan_literal ''null'' TNull (c # x)" for x
      by (simp_all add: scan_scalar_def is_digit_def)
    ultimately show thesis using lit[OF w(1)] lit[OF w(2)] lit[OF w(3)] by blast
  qed
  then show ?thesis
  proof cases
    case str
    then show ?thesis using assms(1) scan_string_compact[of s t r] unfolding h by (simp add: scan_scalar_def)
  next
    case num
    then show ?thesis using assms(1) n unfolding h by simp
  next
    case lit
    then show ?thesis using assms(1) scan_literal_compact[of w t' "c # s" t r] unfolding h by simp
  qed
qed

lemma expect_ends: "expect c s = Inr r \<Longrightarrow> c = CHR '','' \<or> c = CHR '']'' \<or> c = CHR ''}'' \<Longrightarrow> num_end (skip_space s)"
  by (auto simp: expect_def num_end_def is_digit_def split: list.splits if_splits)

lemma scan_compact:
  "scan_doc n k s = Some (Inr (d, r)) \<Longrightarrow> num_end (skip_space r) \<Longrightarrow> scan_doc n k (compact False s) = Some (Inr (d, compact False r))"
  "scan_members n k ms s = Some (Inr (d, r)) \<Longrightarrow> scan_members n k ms (compact False s) = Some (Inr (d, compact False r))"
  "scan_elems n k ds s = Some (Inr (d, r)) \<Longrightarrow> scan_elems n k ds (compact False s) = Some (Inr (d, compact False r))"
proof (induction n k s and n k ms s and n k ds s arbitrary: d r and d r and d r
    rule: scan_doc_scan_members_scan_elems.induct)
  case (2 n k s)
  show ?case
  proof (cases "skip_space s")
    case (Cons c t)
    note h = skip_compact_Cons[OF Cons] and sp = skip_space_first[OF Cons]
    consider (obj) "c = CHR ''{''" | (arr) "c = CHR ''[''" | (scalar) "c \<noteq> CHR ''{''" "c \<noteq> CHR ''[''" by blast
    then show ?thesis
    proof cases
      case obj
      show ?thesis
      proof (cases "expect (CHR ''}'') t")
        case (Inl e)
        then obtain e' where "expect (CHR ''}'') (compact False t) = Inl e'" using expect_compact(2)[OF _ Inl] by auto
        with obj 2 Cons Inl h show ?thesis by (auto split: if_splits)
      next
        case (Inr u)
        with expect_compact(1)[OF _ Inr] obj 2 Cons h show ?thesis by (auto split: if_splits)
      qed
    next
      case arr
      show ?thesis
      proof (cases "expect (CHR '']'') t")
        case (Inl e)
        then obtain e' where "expect (CHR '']'') (compact False t) = Inl e'" using expect_compact(2)[OF _ Inl] by auto
        with arr 2 Cons Inl h show ?thesis by (auto split: if_splits)
      next
        case (Inr u)
        with expect_compact(1)[OF _ Inr] arr 2 Cons h show ?thesis by (auto split: if_splits)
      qed
    next
      case scalar
      with scalar 2 Cons obtain x where x: "scan_scalar (c # t) = Inr (x, r)" "d = scalar_doc x" by (auto simp: and_then_Inr_iff)
      have "scan_scalar (c # compact (c = DQUOTE) t) = Inr (x, compact False r)"
        using scan_scalar_compact[OF x(1) sp] 2 sp by simp
      then show ?thesis using scalar h x(2) by simp
    qed
  qed (use 2 in simp)
next
  case (4 n k ms s)
  from 4(3) obtain t r1 r2 r0 d1 r3 where p: "expect DQUOTE s = Inr r0" "scan_string r0 = Inr (t, r1)"
    "expect (CHR '':'') r1 = Inr r2" "scan_doc n k r2 = Some (Inr (d1, r3))"
    by (auto simp: then_run_Inr and_then_Inr_iff)
  note q = expect_quote_compact[OF p(1)] scan_string_compact[OF p(2)] expect_compact(1)[OF _ p(3)]
  show ?case
  proof (cases "expect (CHR '','') r3")
    case (Inl e)
    with 4(3) p have e: "expect (CHR ''}'') r3 = Inr r" "d = DObj (ms @ [(case t of TStr k \<Rightarrow> k | _ \<Rightarrow> [], d1)])"
      by (auto simp: and_then_Inr_iff Let_def)
    have "scan_doc n k (compact False r2) = Some (Inr (d1, compact False r3))" using 4(1) p(4) expect_ends[OF e(1)] by simp
    moreover obtain e' where "expect (CHR '','') (compact False r3) = Inl e'" using expect_compact(2)[OF _ Inl] by auto
    ultimately show ?thesis using q e(2) expect_compact(1)[OF _ e(1)] by (simp add: Let_def)
  next
    case (Inr r4)
    with 4(3) p have m: "scan_members n k (ms @ [(case t of TStr k \<Rightarrow> k | _ \<Rightarrow> [], d1)]) r4 = Some (Inr (d, r))"
      by (simp add: Let_def)
    have "scan_doc n k (compact False r2) = Some (Inr (d1, compact False r3))" using 4(1) p(4) expect_ends[OF Inr] by simp
    moreover have "scan_members n k (ms @ [(case t of TStr k \<Rightarrow> k | _ \<Rightarrow> [], d1)]) (compact False r4) = Some (Inr (d, compact False r))"
      using 4(2) p Inr m by fastforce
    ultimately show ?thesis using q expect_compact(1)[OF _ Inr] by (simp add: Let_def)
  qed
next
  case (6 n k ds s)
  from 6(3) obtain d1 r3 where p: "scan_doc n k s = Some (Inr (d1, r3))" by (auto simp: then_run_Inr)
  show ?case
  proof (cases "expect (CHR '','') r3")
    case (Inl e)
    with 6(3) p have e: "expect (CHR '']'') r3 = Inr r" "d = DArr (ds @ [d1])" by (auto simp: and_then_Inr_iff)
    have "scan_doc n k (compact False s) = Some (Inr (d1, compact False r3))" using 6(1) p expect_ends[OF e(1)] by simp
    moreover obtain e' where "expect (CHR '','') (compact False r3) = Inl e'" using expect_compact(2)[OF _ Inl] by auto
    ultimately show ?thesis using e(2) expect_compact(1)[OF _ e(1)] by simp
  next
    case (Inr r4)
    with 6(3) p have m: "scan_elems n k (ds @ [d1]) r4 = Some (Inr (d, r))" by simp
    have "scan_doc n k (compact False s) = Some (Inr (d1, compact False r3))" using 6(1) p expect_ends[OF Inr] by simp
    moreover have "scan_elems n k (ds @ [d1]) (compact False r4) = Some (Inr (d, compact False r))"
      using 6(2) p Inr m by fastforce
    ultimately show ?thesis using expect_compact(1)[OF _ Inr] by simp
  qed
qed simp_all

text \<open>The text that is written reads as the document the raw bytes denote.\<close>

lemma Unmarshal_compact:
  assumes "Unmarshal_doc b = Some (Inr d)"
  shows "Unmarshal_doc (compact False b) = Some (Inr d)"
proof -
  obtain r where r: "scan_doc (Suc (2 * length b)) maxNestingDepth b = Some (Inr (d, r))" "skip_space r = []"
    using assms by (auto simp: Unmarshal_doc_def Decode_def then_run_Inr simp del: scan_doc.simps split: if_splits)
  let ?s = "compact False b"
  have c: "scan_doc (Suc (2 * length b)) maxNestingDepth ?s = Some (Inr (d, compact False r))"
    by (rule scan_compact(1)[OF r(1)]) (simp add: r(2))
  obtain x where x: "scan_doc (Suc (2 * length ?s)) maxNestingDepth ?s = Some x"
    using Decode_total[of ?s] unfolding Decode_def by blast
  have "scan_doc (max (Suc (2 * length b)) (Suc (2 * length ?s))) maxNestingDepth ?s = Some x"
    "scan_doc (max (Suc (2 * length b)) (Suc (2 * length ?s))) maxNestingDepth ?s = Some (Inr (d, compact False r))"
    using scan_mono(1) c x by (meson max.cobounded1 max.cobounded2)+
  with x have "Decode ?s = Some (Inr (d, compact False r))" unfolding Decode_def by simp
  then show ?thesis by (simp add: Unmarshal_doc_def skip_compact_Nil[OF r(2)])
qed

lemma MarshalRaw_Inr: "MarshalRaw b = Inr e \<longleftrightarrow> (\<exists>d. Unmarshal_doc b = Some (Inr d)) \<and> e = compact False b"
  by (auto simp: MarshalRaw_def raw_doc_def and_then_Inr_iff split: option.splits sum.splits)

lemma MarshalRaw_reads: "MarshalRaw b = Inr e \<Longrightarrow> \<exists>d. Unmarshal_doc e = Some (Inr d) \<and> Unmarshal_doc b = Some (Inr d)"
  by (auto simp: MarshalRaw_Inr Unmarshal_compact)

end
