(* ===== verification/Relay_Server.thy ===== *)
theory Relay_Server
  imports Relay_State Json_Compact
begin

text \<open>
  \<^verbatim>\<open>services/relay-reference/internal/relay/server.go\<close>, second part: the handlers. A handler takes the world (clock
  readings, random draws), the request and the state, and gives the response and the new state, on
  every branch of the source. \<open>Handler\<close> is the rate limiter and the route table in front of them. The
  WebSocket handler \<open>connect\<close> also takes the socket (whether the upgrade succeeds, the message it
  reads, which writes succeed) and gives the frames it wrote.
\<close>

section \<open>Replies\<close>

record receipt =
  Rcpt_ReceiptID :: string
  Rcpt_MessageID :: string
  Rcpt_DomainID :: string
  Rcpt_RelayID :: string
  Rcpt_Status :: string
  Rcpt_IssuedAt :: time

datatype frame =
    Frame_Challenge string
  | Frame_Closed string
  | Frame_Ready
  | Frame_Message string bytes
  | Frame_Drained nat

datatype relay_reply =
    Relay_Error ErrorResponse
  | Relay_Empty
  | Relay_Text string
  | Relay_Map "(string \<times> string) list"
  | Relay_WellKnown SignedDescriptor string
  | Relay_Credentials credential credential
  | Relay_Receipt receipt
  | Relay_Devices "string \<Rightarrow> DeviceIdentity option"
  | Relay_Connections "string \<Rightarrow> connectionState option"
  | Relay_Messages "MessageMetadata list"
  | Relay_Frames "frame list"

type_synonym relay_result = "relay_reply response \<times> RelayServer"

abbreviation refuse :: "nat \<Rightarrow> go_error \<Rightarrow> RelayServer \<Rightarrow> relay_result" where
  "refuse status err s \<equiv> (WriteError Relay_Error status err, s)"

abbreviation answer :: "nat \<Rightarrow> relay_reply \<Rightarrow> RelayServer \<Rightarrow> relay_result" where
  "answer status v s \<equiv> (WriteJSON status v, s)"

definition only_method :: "string \<Rightarrow> Request \<Rightarrow> RelayServer \<Rightarrow> relay_result \<Rightarrow> relay_result" where
  "only_method method r s k = (if Req_Method r \<noteq> method then ((405, Relay_Empty), s) else k)"

definition requireAdmin :: "RelayServer \<Rightarrow> Request \<Rightarrow> relay_result \<Rightarrow> relay_result" where
  "requireAdmin s r k =
     (if adminAuthorized s r then k
      else refuse 401 (errors_New CodeAccessInvalid ''admin credential is required'') s)"

section \<open>Information\<close>

definition health :: "RelayServer \<Rightarrow> relay_result" where
  "health s = answer 200 (Relay_Map [(''status'', ''ok'')]) s"

definition metrics :: "RelayServer \<Rightarrow> relay_result" where
  "metrics s = ((200, Relay_Text (''# HELP iscp_relay_up Relay process status'' @ [CHR 0x0A] @
     ''# TYPE iscp_relay_up gauge'' @ [CHR 0x0A] @ ''iscp_relay_up 1'' @ [CHR 0x0A])), s)"

definition version :: "RelayServer \<Rightarrow> relay_result" where
  "version s = answer 200 (Relay_Map [(''version'', ''0.2.0-dev''), (''protocol'', ''v2'')]) s"

definition relay_descriptor :: "RelayServer \<Rightarrow> time \<Rightarrow> RelayDescriptor" where
  "relay_descriptor s now =
     (let key = ID_PublicKey (Dev_Identity (Rel_signer s)) in
      \<lparr>RD_Type = relay_type, RD_RelayID = RCfg_RelayID (Rel_cfg s), RD_DomainID = RCfg_DomainID (Rel_cfg s),
       RD_BaseURL = RCfg_BaseURL (Rel_cfg s), RD_WebSocketURL = RCfg_WebSocketURL (Rel_cfg s),
       RD_SigningKeys = Some [\<lparr>DK_KTY = ''Ed25519'', DK_Use = ''descriptor-signature'', DK_KID = PK_KID key,
                               DK_Public = PK_Public key, DK_State = []\<rparr>],
       RD_IssuedAt = now, RD_ExpiresAt = Add now (24 * Hour), RD_Metadata = []\<rparr>)"

definition wellKnown :: "prims \<Rightarrow> World \<Rightarrow> RelayServer \<Rightarrow> relay_result" where
  "wellKnown P w s =
     (let now = W_clock w 0; desc = relay_descriptor s now in
      handle (Sign P (Rel_signer s) (RD_Type desc) (json_object (relay_fields desc)) now, s)
        (refuse 500)
        (\<lambda>signed. answer 200 (Relay_WellKnown signed (case Pin P signed of Inr pin \<Rightarrow> pin | Inl _ \<Rightarrow> []))))"

section \<open>Request bodies\<close>

record bindSelfRequest =
  BS_Identity :: DeviceIdentity
  BS_Proof :: DeviceProof

definition bind_table :: "(string \<times> bindSelfRequest setter) list" where
  "bind_table =
     [(''identity'', set_struct identity_table BS_Identity (\<lambda>i q. q\<lparr>BS_Identity := i\<rparr>)),
      (''proof'', set_struct proof_table BS_Proof (\<lambda>p q. q\<lparr>BS_Proof := p\<rparr>))]"

record registerTicketRequest =
  RQ_TicketID :: string
  RQ_MaxUses :: int
  RQ_Ticket :: "PairingTicketV3 option"
  RQ_Identity :: DeviceIdentity
  RQ_Proof :: DeviceProof

definition ticket3_table :: "(string \<times> PairingTicketV3 setter) list" where
  "ticket3_table =
     [(''type'', set_string (\<lambda>x t. t\<lparr>T3_Type := x\<rparr>)), (''ticket_id'', set_string (\<lambda>x t. t\<lparr>T3_TicketID := x\<rparr>)),
      (''domain_id'', set_string (\<lambda>x t. t\<lparr>T3_DomainID := x\<rparr>)), (''relay_id'', set_string (\<lambda>x t. t\<lparr>T3_RelayID := x\<rparr>)),
      (''trust_root_id'', set_string (\<lambda>x t. t\<lparr>T3_TrustRootID := x\<rparr>)), (''purpose'', set_string (\<lambda>x t. t\<lparr>T3_Purpose := x\<rparr>)),
      (''consumer_role'', set_string (\<lambda>x t. t\<lparr>T3_ConsumerRole := x\<rparr>)), (''grant_audience'', set_string (\<lambda>x t. t\<lparr>T3_GrantAudience := x\<rparr>)),
      (''grant_permissions'', set_strings (\<lambda>x t. t\<lparr>T3_GrantPermissions := x\<rparr>)), (''grant_ttl_seconds'', set_int (\<lambda>x t. t\<lparr>T3_GrantTTLSeconds := x\<rparr>)),
      (''max_uses'', set_int (\<lambda>x t. t\<lparr>T3_MaxUses := x\<rparr>)), (''issued_at'', set_time (\<lambda>x t. t\<lparr>T3_IssuedAt := x\<rparr>)),
      (''expires_at'', set_time (\<lambda>x t. t\<lparr>T3_ExpiresAt := x\<rparr>)),
      (''signature'', set_struct signature_table T3_Signature (\<lambda>x t. t\<lparr>T3_Signature := x\<rparr>))]"

definition no_ticket3 :: PairingTicketV3 where
  "no_ticket3 = \<lparr>T3_Type = [], T3_TicketID = [], T3_DomainID = [], T3_RelayID = [], T3_TrustRootID = [], T3_Purpose = [],
     T3_ConsumerRole = [], T3_GrantAudience = [], T3_GrantPermissions = None, T3_GrantTTLSeconds = 0, T3_MaxUses = 0,
     T3_IssuedAt = 0, T3_ExpiresAt = 0, T3_Signature = no_signature\<rparr>"

definition register_table :: "(string \<times> registerTicketRequest setter) list" where
  "register_table =
     [(''ticket_id'', set_string (\<lambda>x q. q\<lparr>RQ_TicketID := x\<rparr>)), (''max_uses'', set_int (\<lambda>x q. q\<lparr>RQ_MaxUses := x\<rparr>)),
      (''ticket'', set_pointer ticket3_table no_ticket3 RQ_Ticket (\<lambda>x q. q\<lparr>RQ_Ticket := x\<rparr>)),
      (''identity'', set_struct identity_table RQ_Identity (\<lambda>x q. q\<lparr>RQ_Identity := x\<rparr>)),
      (''proof'', set_struct proof_table RQ_Proof (\<lambda>x q. q\<lparr>RQ_Proof := x\<rparr>))]"

definition no_register :: registerTicketRequest where
  "no_register = \<lparr>RQ_TicketID = [], RQ_MaxUses = 0, RQ_Ticket = None, RQ_Identity = no_identity, RQ_Proof = no_proof\<rparr>"

text \<open>A body with one string member.\<close>

definition one_string :: "string \<Rightarrow> (string \<times> string setter) list" where
  "one_string name = [(name, set_string (\<lambda>x _. x))]"

record RouteMeta =
  RM_TTLSeconds :: int
  RM_Priority :: int

record EnvelopeMeta =
  EM_DomainID :: string
  EM_MessageID :: string
  EM_SenderDeviceID :: string
  EM_RecipientDeviceID :: string
  EM_Route :: RouteMeta

definition route_table :: "(string \<times> RouteMeta setter) list" where
  "route_table = [(''ttl_seconds'', set_int (\<lambda>x m. m\<lparr>RM_TTLSeconds := x\<rparr>)), (''priority'', set_int (\<lambda>x m. m\<lparr>RM_Priority := x\<rparr>))]"

definition meta_table :: "(string \<times> EnvelopeMeta setter) list" where
  "meta_table =
     [(''domain_id'', set_string (\<lambda>x m. m\<lparr>EM_DomainID := x\<rparr>)), (''message_id'', set_string (\<lambda>x m. m\<lparr>EM_MessageID := x\<rparr>)),
      (''sender_device_id'', set_string (\<lambda>x m. m\<lparr>EM_SenderDeviceID := x\<rparr>)),
      (''recipient_device_id'', set_string (\<lambda>x m. m\<lparr>EM_RecipientDeviceID := x\<rparr>)),
      (''route'', set_struct route_table EM_Route (\<lambda>x m. m\<lparr>EM_Route := x\<rparr>))]"

definition no_meta :: EnvelopeMeta where
  "no_meta = \<lparr>EM_DomainID = [], EM_MessageID = [], EM_SenderDeviceID = [], EM_RecipientDeviceID = [],
     EM_Route = \<lparr>RM_TTLSeconds = 0, RM_Priority = 0\<rparr>\<rparr>"

definition envelopeStringField :: "bytes \<Rightarrow> string \<Rightarrow> string" where
  "envelopeStringField raw key =
     (case Unmarshal_map raw of
        Inl _ \<Rightarrow> []
      | Inr m \<Rightarrow> (case map_of m key of Some (JStr v) \<Rightarrow> v | _ \<Rightarrow> []))"

section \<open>Registration\<close>

definition bindIdentity :: "prims \<Rightarrow> World \<Rightarrow> RelayServer \<Rightarrow> DeviceIdentity \<Rightarrow> relay_result" where
  "bindIdentity P w s ident =
     handle (persistDevice P s (W_clock w 2) (W_uuid w 0) ident ''active'') (refuse 500) (\<lambda>_ s.
     handle (issueCredentials P s (W_clock w 3) (W_token w 0) (W_token w 1) (W_uuid w 1) (W_uuid w 2)
               (ID_DomainID ident) (ID_DeviceID ident)) (refuse 500) (\<lambda>(access, refresh) s.
       answer 200 (Relay_Credentials access refresh) (s\<lparr>Rel_devices := (Rel_devices s)(ID_DeviceID ident \<mapsto> ident)\<rparr>)))"

definition bindSelf :: "prims \<Rightarrow> World \<Rightarrow> Request \<Rightarrow> RelayServer \<Rightarrow> relay_result" where
  "bindSelf P w r s =
     only_method ''POST'' r s (
     handle (DecodeJSON bind_table \<lparr>BS_Identity = no_identity, BS_Proof = no_proof\<rparr> (Req_Body r), s) (refuse 400) (\<lambda>req s.
     if production s \<and> \<not> adminAuthorized s r
     then refuse 401 (errors_New CodeAccessInvalid ''production bind-self requires an actor authorization'') s
     else handle (verifyProof P s (W_clock w 1) (BS_Identity req) (BS_Proof req) (RCfg_RelayID (Rel_cfg s))
                    (DP_Challenge (BS_Proof req)) (5 * Minute)) (refuse 401) (\<lambda>_ s.
       bindIdentity P w s (BS_Identity req))))"

definition registerWithSignedTicket :: "prims \<Rightarrow> World \<Rightarrow> RelayServer \<Rightarrow> PairingTicketV3 \<Rightarrow> registerTicketRequest \<Rightarrow> relay_result" where
  "registerWithSignedTicket P w s ticket req =
     (case RCfg_TicketIssuer (Rel_cfg s) of
        None \<Rightarrow> refuse 503 (errors_New CodeConfigInvalid ''relay has no configured ticket issuer'') s
      | Some issuer \<Rightarrow>
          handle (VerifyTicketV3 P ticket issuer (W_clock w 0), s) (refuse 403) (\<lambda>_ s.
          if T3_DomainID ticket \<noteq> RCfg_DomainID (Rel_cfg s) \<or> T3_RelayID ticket \<noteq> RCfg_RelayID (Rel_cfg s)
          then refuse 403 (errors_New CodeProvisionInvalid ''pairing ticket is not bound to this relay'') s
          else if DP_Challenge (RQ_Proof req) \<noteq> T3_TicketID ticket
          then refuse 401 (errors_New CodeProvisionInvalid ''proof challenge must be the ticket id'') s
          else handle (verifyProof P s (W_clock w 1) (RQ_Identity req) (RQ_Proof req) (RCfg_RelayID (Rel_cfg s))
                         (T3_TicketID ticket) (5 * Minute)) (refuse 401) (\<lambda>_ s.
          handle (BindGrantRoles P ticket (RQ_Identity req), s) (refuse 403) (\<lambda>_ s.
          handle (consumeTicket s (T3_TicketID ticket) (T3_MaxUses ticket)) (refuse 409) (\<lambda>_ s.
            bindIdentity P w s (RQ_Identity req))))))"

definition registerWithTicket :: "prims \<Rightarrow> World \<Rightarrow> Request \<Rightarrow> RelayServer \<Rightarrow> relay_result" where
  "registerWithTicket P w r s =
     only_method ''POST'' r s (
     handle (DecodeJSON register_table no_register (Req_Body r), s) (refuse 400) (\<lambda>req s.
     case RQ_Ticket req of
       Some ticket \<Rightarrow> registerWithSignedTicket P w s ticket req
     | None \<Rightarrow>
         if production s
         then refuse 400 (errors_New CodeProvisionInvalid ''production registration requires a signed pairing ticket'') s
         else handle (verifyProof P s (W_clock w 1) (RQ_Identity req) (RQ_Proof req) (RCfg_RelayID (Rel_cfg s))
                        (DP_Challenge (RQ_Proof req)) (5 * Minute)) (refuse 401) (\<lambda>_ s.
         handle (consumeTicket s (RQ_TicketID req) (RQ_MaxUses req)) (refuse 409) (\<lambda>_ s.
           bindIdentity P w s (RQ_Identity req)))))"

section \<open>Credentials\<close>

text \<open>
  \<^verbatim>\<open>refreshAccess\<close> releases the lock between its check of the refresh credential and the exchange, so the two are
  separate steps; the handler is one after the other.
\<close>

definition refresh_check :: "prims \<Rightarrow> World \<Rightarrow> RelayServer \<Rightarrow> string \<Rightarrow> ((nat \<times> go_error) + credential) \<times> RelayServer" where
  "refresh_check P w s token =
     (let h = sha256 P token;
          invalid = Inl (401, errors_New CodeAccessInvalid ''refresh credential invalid'');
          usable = (\<lambda>cred s. if Cred_Revoked cred \<or> After (W_clock w 2) (Cred_ExpiresAt cred) then (invalid, s) else (Inr cred, s));
          found = (case Rel_refresh s h of
                     Some cred \<Rightarrow> if \<not> Cred_Revoked cred \<and> After (W_clock w 0) (Cred_ExpiresAt cred) then None else Some cred
                   | None \<Rightarrow> None)
      in case found of
           Some cred \<Rightarrow> usable cred s
         | None \<Rightarrow>
             (case Rel_repo s of
                None \<Rightarrow> (invalid, s)
              | Some d \<Rightarrow>
                  handle (with_db d (\<lambda>d. GetRefreshByHash d (RCfg_DomainID (Rel_cfg s)) h (W_clock w 1)) s)
                    (\<lambda>err s. if err \<noteq> ErrNoRows then (Inl (500, err), s) else (invalid, s))
                    (\<lambda>dbCred s. usable (credential_of dbCred) s)))"

definition refresh_exchange :: "prims \<Rightarrow> World \<Rightarrow> RelayServer \<Rightarrow> string \<Rightarrow> credential \<Rightarrow> relay_result" where
  "refresh_exchange P w s token cred =
     handle (revokeRefreshCredential P s token (W_clock w 3)) (refuse 500) (\<lambda>_ s.
     handle (issueCredentials P s (W_clock w 4) (W_token w 0) (W_token w 1) (W_uuid w 0) (W_uuid w 1)
               (Cred_DomainID cred) (Cred_DeviceID cred)) (refuse 500) (\<lambda>(access, refresh).
       answer 200 (Relay_Credentials access refresh)))"

definition refreshAccess :: "prims \<Rightarrow> World \<Rightarrow> Request \<Rightarrow> RelayServer \<Rightarrow> relay_result" where
  "refreshAccess P w r s =
     only_method ''POST'' r s (
     handle (DecodeJSON (one_string ''refresh'') [] (Req_Body r), s) (refuse 400) (\<lambda>token s.
     case refresh_check P w s token of
       (Inl (status, err), s) \<Rightarrow> refuse status err s
     | (Inr cred, s) \<Rightarrow> refresh_exchange P w s token cred))"

definition revoke_device_credentials :: "string \<Rightarrow> (bytes \<Rightarrow> credential option) \<Rightarrow> bytes \<Rightarrow> credential option" where
  "revoke_device_credentials deviceID m h =
     map_option (\<lambda>cred. if Cred_DeviceID cred = deviceID then cred\<lparr>Cred_Revoked := True\<rparr> else cred) (m h)"

definition revokeAccess :: "prims \<Rightarrow> World \<Rightarrow> Request \<Rightarrow> RelayServer \<Rightarrow> relay_result" where
  "revokeAccess P w r s =
     only_method ''POST'' r s (
     handle (DecodeJSON (one_string ''device_id'') [] (Req_Body r), s) (refuse 400) (\<lambda>deviceID s.
     let revoke = (\<lambda>s.
           let s = s\<lparr>Rel_revoked := insert deviceID (Rel_revoked s),
                     Rel_access := revoke_device_credentials deviceID (Rel_access s),
                     Rel_refresh := revoke_device_credentials deviceID (Rel_refresh s)\<rparr>;
               domainID = RCfg_DomainID (Rel_cfg s); now = W_clock w 2;
               done = answer 200 (Relay_Map [(''status'', ''revoked'')])
           in case Rel_repo s of
                None \<Rightarrow> done s
              | Some d \<Rightarrow>
                  handle (with_db d (\<lambda>d. then_db (RevokeDevice d domainID deviceID now) (\<lambda>_ d.
                            RevokeDeviceCredentials d domainID deviceID now)) s) (refuse 500) (\<lambda>_. done))
     in handle (authenticateAccess P s (W_clock w 0) (W_clock w 1) r)
          (\<lambda>err s. if \<not> adminAuthorized s r then refuse 401 err s else revoke s)
          (\<lambda>cred s.
             if Cred_DeviceID cred \<noteq> deviceID
             then refuse 403 (errors_New CodeAccessInvalid ''access credential cannot revoke another device'') s
             else revoke s)))"

section \<open>Envelopes\<close>

definition receipt_doc :: "receipt \<Rightarrow> jdoc result" where
  "receipt_doc rc = json_object
     [(''domain_id'', Inr (DStr (Rcpt_DomainID rc))), (''issued_at'', time_doc (Rcpt_IssuedAt rc)),
      (''message_id'', Inr (DStr (Rcpt_MessageID rc))), (''receipt_id'', Inr (DStr (Rcpt_ReceiptID rc))),
      (''relay_id'', Inr (DStr (Rcpt_RelayID rc))), (''status'', Inr (DStr (Rcpt_Status rc))),
      (''type'', Inr (DStr ''iscp.delivery_receipt.v2''))]"

definition route_json :: "RouteMeta \<Rightarrow> bytes" where
  "route_json m = encode (DObj [(''ttl_seconds'', DInt (RM_TTLSeconds m)), (''priority'', DInt (RM_Priority m))])"

definition store_envelope :: "World \<Rightarrow> time \<Rightarrow> time \<Rightarrow> EnvelopeMeta \<Rightarrow> bytes \<Rightarrow> bytes \<Rightarrow> receipt \<Rightarrow> relay_db \<Rightarrow> unit result \<times> relay_db" where
  "store_envelope w now expiresAt meta raw canon rc d =
     then_db (NewUUIDv7Like now (W_uuid w 0), d) (\<lambda>msgID d.
     then_db (StoreMessage d
       \<lparr>RMsg_ID = UUIDString msgID, RMsg_DomainID = EM_DomainID meta, RMsg_MessageID = EM_MessageID meta,
        RMsg_SenderDeviceID = EM_SenderDeviceID meta, RMsg_RecipientDeviceID = EM_RecipientDeviceID meta,
        RMsg_SessionID = envelopeStringField raw ''session_id'', RMsg_PayloadType = envelopeStringField raw ''payload_type'',
        RMsg_RouteMetadata = route_json (EM_Route meta), RMsg_EnvelopeRaw = raw, RMsg_EnvelopeCanonical = canon,
        RMsg_Priority = RM_Priority (EM_Route meta), RMsg_QueuedAt = now, RMsg_ExpiresAt = expiresAt\<rparr>) (\<lambda>_ d.
     let receiptRaw = (case json_Marshal (receipt_doc rc) of Inr b \<Rightarrow> b | Inl _ \<Rightarrow> []) in
     then_db (Marshal receiptRaw, d) (\<lambda>receiptCanon d.
     then_db (NewUUIDv7Like now (W_uuid w 1), d) (\<lambda>receiptUUID d.
     StoreReceipt d
       \<lparr>RRec_ID = UUIDString receiptUUID, RRec_DomainID = EM_DomainID meta, RRec_ReceiptID = Rcpt_ReceiptID rc,
        RRec_MessageID = EM_MessageID meta, RRec_RelayID = Rcpt_RelayID rc, RRec_Status = ''queued'',
        RRec_ReceiptRaw = receiptRaw, RRec_ReceiptCanonical = receiptCanon, RRec_IssuedAt = now\<rparr>))))"

definition envelopes :: "prims \<Rightarrow> World \<Rightarrow> Request \<Rightarrow> RelayServer \<Rightarrow> relay_result" where
  "envelopes P w r s =
     only_method ''POST'' r s (
     handle (authenticateAccess P s (W_clock w 0) (W_clock w 1) r) (refuse 401) (\<lambda>cred s.
     handle (DecodeRaw (Req_Body r), s) (refuse 400) (\<lambda>raw s.
     handle (Unmarshal_struct meta_table no_meta raw, s) (refuse 400) (\<lambda>meta s.
     handle (validateEnvelopeMeta s (EM_DomainID meta) (EM_MessageID meta) (EM_SenderDeviceID meta) (EM_RecipientDeviceID meta)
               (RM_TTLSeconds (EM_Route meta)) (RM_Priority (EM_Route meta)), s) (refuse 400) (\<lambda>_ s.
     if Cred_DomainID cred \<noteq> EM_DomainID meta \<or> Cred_DeviceID cred \<noteq> EM_SenderDeviceID meta
     then refuse 403 (errors_New CodeAccessInvalid ''access credential does not match envelope sender'') s
     else handle (Marshal raw, s) (refuse 400) (\<lambda>canon s.
       let now = W_clock w 2;
           expiresAt = Add now (seconds (RM_TTLSeconds (EM_Route meta)));
           rc = \<lparr>Rcpt_ReceiptID = ''receipt-'' @ EM_MessageID meta, Rcpt_MessageID = EM_MessageID meta,
                 Rcpt_DomainID = EM_DomainID meta, Rcpt_RelayID = RCfg_RelayID (Rel_cfg s), Rcpt_Status = ''queued'',
                 Rcpt_IssuedAt = now\<rparr>;
           too_large = refuse 413 (errors_New CodeEnvelopeInvalid ''message too large'')
       in case Rel_repo s of
            Some d \<Rightarrow>
              if relayMaxQueuedBytes < int (length raw) then too_large s
              else handle (with_db d (store_envelope w now expiresAt meta raw canon rc) s) (refuse 500) (\<lambda>_.
                     answer 202 (Relay_Receipt rc))
          | None \<Rightarrow>
              (case Enqueue (Rel_queue s)
                      \<lparr>Msg_DomainID = EM_DomainID meta, Msg_MessageID = EM_MessageID meta, Msg_SenderDeviceID = EM_SenderDeviceID meta,
                       Msg_RecipientDeviceID = EM_RecipientDeviceID meta, Msg_Envelope = raw, Msg_Priority = RM_Priority (EM_Route meta),
                       Msg_ExpiresAt = expiresAt, Msg_QueuedAt = 0\<rparr> now of
                 (ok, q) \<Rightarrow>
                   let s = s\<lparr>Rel_queue := q\<rparr> in
                   if \<not> ok then too_large s else answer 202 (Relay_Receipt rc) s)))))))"

section \<open>Administration\<close>

definition adminDevices :: "Request \<Rightarrow> RelayServer \<Rightarrow> relay_result" where
  "adminDevices r s = only_method ''GET'' r s (requireAdmin s r (answer 200 (Relay_Devices (Rel_devices s)) s))"

definition adminConnections :: "Request \<Rightarrow> RelayServer \<Rightarrow> relay_result" where
  "adminConnections r s = only_method ''GET'' r s (requireAdmin s r (answer 200 (Relay_Connections (Rel_connections s)) s))"

definition relayMessageMetadata :: "RelayMessage list \<Rightarrow> MessageMetadata list" where
  "relayMessageMetadata messages =
     map (\<lambda>msg. \<lparr>MD_DomainID = RMsg_DomainID msg, MD_MessageID = RMsg_MessageID msg, MD_SenderDeviceID = RMsg_SenderDeviceID msg,
                 MD_RecipientDeviceID = RMsg_RecipientDeviceID msg, MD_Priority = RMsg_Priority msg,
                 MD_QueuedAt = RMsg_QueuedAt msg, MD_ExpiresAt = RMsg_ExpiresAt msg\<rparr>) messages"

definition adminMessages :: "MessageRow sorter \<Rightarrow> MessageMetadata sorter \<Rightarrow> World \<Rightarrow> Request \<Rightarrow> RelayServer \<Rightarrow> relay_result" where
  "adminMessages row_sort meta_sort w r s =
     only_method ''GET'' r s (requireAdmin s r (
       let now = W_clock w 0 in
       case Rel_repo s of
         Some d \<Rightarrow>
           handle (with_db d (\<lambda>d. ListPendingMessages row_sort d (RCfg_DomainID (Rel_cfg s)) now 500) s) (refuse 500) (\<lambda>messages.
             answer 200 (Relay_Messages (relayMessageMetadata messages)))
       | None \<Rightarrow>
           (case SnapshotMetadata meta_sort (Rel_queue s) now of
              (items, q) \<Rightarrow> answer 200 (Relay_Messages items) (s\<lparr>Rel_queue := q\<rparr>))))"

section \<open>Connections\<close>

text \<open>
  The socket: whether the upgrade of a request with an admissible origin succeeds and the status the
  upgrader answers, what is read, and whether the \<open>n\<close>-th write succeeds. A write that fails sends
  nothing.
\<close>

record Socket =
  Sock_upgraded :: bool
  Sock_status :: nat
  Sock_read :: "bytes result"
  Sock_writes :: "nat \<Rightarrow> bool"

definition send :: "Socket \<Rightarrow> nat \<Rightarrow> frame \<Rightarrow> frame list" where
  "send sock n f = (if Sock_writes sock n then [f] else [])"

definition dequeueMessages :: "Message sorter \<Rightarrow> MessageRow sorter \<Rightarrow> (MessageRow list \<Rightarrow> MessageRow list) \<Rightarrow> RelayServer \<Rightarrow>
    string \<Rightarrow> string \<Rightarrow> time \<Rightarrow> int \<Rightarrow> Message list result \<times> RelayServer" where
  "dequeueMessages msg_sort row_sort returned s domainID recipientDeviceID now limit =
     (case Rel_repo s of
        None \<Rightarrow> (case DequeueFor msg_sort (Rel_queue s) domainID recipientDeviceID now limit of
                   (out, q) \<Rightarrow> (Inr out, s\<lparr>Rel_queue := q\<rparr>))
      | Some d \<Rightarrow>
          then_db (with_db d (\<lambda>d. ClaimPendingMessagesFor row_sort returned d domainID recipientDeviceID now Minute limit) s)
            (\<lambda>claimed s.
               (Inr (map (\<lambda>msg. \<lparr>Msg_DomainID = RMsg_DomainID msg, Msg_MessageID = RMsg_MessageID msg,
                   Msg_SenderDeviceID = RMsg_SenderDeviceID msg, Msg_RecipientDeviceID = RMsg_RecipientDeviceID msg,
                   Msg_Envelope = RMsg_EnvelopeRaw msg, Msg_Priority = RMsg_Priority msg, Msg_ExpiresAt = RMsg_ExpiresAt msg,
                   Msg_QueuedAt = RMsg_QueuedAt msg\<rparr>) claimed), s)))"

text \<open>
  The delivery loop: write \<open>n\<close> and clock reading \<open>c\<close> are the next ones; the flag says whether the loop
  ran to its end. \<^verbatim>\<open>WriteJSON\<close> writes the envelope as a \<^verbatim>\<open>json.RawMessage\<close>, that is compacted and escaped
  (\<open>MarshalRaw\<close>); the write of one that is no JSON document fails.
\<close>

fun deliver_all :: "Socket \<Rightarrow> World \<Rightarrow> nat \<Rightarrow> nat \<Rightarrow> Message list \<Rightarrow> RelayServer \<Rightarrow> frame list \<times> bool \<times> RelayServer" where
  "deliver_all sock w n c [] s = ([], True, s)"
| "deliver_all sock w n c (msg # messages) s =
     (case MarshalRaw (Msg_Envelope msg) of
        Inl _ \<Rightarrow> ([], False, s)
      | Inr envelope \<Rightarrow>
          if \<not> Sock_writes sock n then ([], False, s)
          else
            let s = (case Rel_repo s of
                       Some d \<Rightarrow> snd (with_db d (\<lambda>d. MarkMessageDelivered d (Msg_DomainID msg) (Msg_MessageID msg) (W_clock w c)) s)
                     | None \<Rightarrow> s);
                (frames, finished, s) = deliver_all sock w (Suc n) (Suc c) messages s
            in (Frame_Message (Msg_MessageID msg) envelope # frames, finished, s))"

definition connection_identity :: "RelayServer \<Rightarrow> string \<Rightarrow> DeviceIdentity option \<times> RelayServer" where
  "connection_identity s deviceID =
     (let revoked = (deviceID \<in> Rel_revoked s) in
      case Rel_devices s deviceID of
        Some ident \<Rightarrow> (if revoked then None else Some ident, s)
      | None \<Rightarrow>
          (case Rel_repo s of
             None \<Rightarrow> (None, s)
           | Some d \<Rightarrow>
               handle (with_db d (\<lambda>d. GetDevice d (RCfg_DomainID (Rel_cfg s)) deviceID) s)
                 (\<lambda>_ s. (None, s))
                 (\<lambda>dbDevice s.
                    if RDev_Status dbDevice = ''revoked'' \<or> revoked then (None, s)
                    else case UnmarshalIdentity (RDev_IdentityRaw dbDevice) of
                           Inr ident \<Rightarrow> (Some ident, s)
                         | Inl _ \<Rightarrow> (None, s))))"

text \<open>
  The upgrader refuses a request whose origin its \<^verbatim>\<open>CheckOrigin\<close> does not admit. \<open>Libs\<close> collects the
  library functions the handlers call: the URL parser, the sorts, and the order in which the database
  returns claimed rows.
\<close>

record Libs =
  Lib_url_Parse :: "string \<Rightarrow> (string \<times> string) option"
  Lib_msg_sort :: "Message sorter"
  Lib_meta_sort :: "MessageMetadata sorter"
  Lib_row_sort :: "MessageRow sorter"
  Lib_returned :: "MessageRow list \<Rightarrow> MessageRow list"

definition Upgrade :: "Libs \<Rightarrow> Socket \<Rightarrow> Request \<Rightarrow> RelayServer \<Rightarrow> bool" where
  "Upgrade L sock r s \<longleftrightarrow> Sock_upgraded sock \<and>
     originAllowed (Lib_url_Parse L) r (RCfg_AllowedOrigins (Rel_cfg s))
       [RCfg_BaseURL (Rel_cfg s), RCfg_WebSocketURL (Rel_cfg s)]"

definition connect :: "prims \<Rightarrow> Libs \<Rightarrow> World \<Rightarrow> Socket \<Rightarrow> Request \<Rightarrow> RelayServer \<Rightarrow> frame list \<times> RelayServer" where
  "connect P L w sock r s =
     (if Req_Method r \<noteq> ''GET'' \<or> \<not> Upgrade L sock r s then ([], s)
      else
        let challenge = randomToken (W_token w 0) in
        if \<not> Sock_writes sock 0 then ([], s)
        else case and_then (Sock_read sock) (DecodeJSON proof_table no_proof) of
          Inl _ \<Rightarrow> ([Frame_Challenge challenge], s)
        | Inr prf \<Rightarrow>
            (case connection_identity s (DP_DeviceID prf) of
               (None, s) \<Rightarrow> (Frame_Challenge challenge # send sock 1 (Frame_Closed ''access revoked or unknown''), s)
             | (Some ident, s) \<Rightarrow>
                 handle (verifyProof P s (W_clock w 0) ident prf (RCfg_RelayID (Rel_cfg s)) challenge Minute)
                   (\<lambda>_ s. (Frame_Challenge challenge # send sock 1 (Frame_Closed ''proof failed''), s))
                   (\<lambda>_ s.
                      let connectionID = ''conn-'' @ take 16 (randomToken (W_token w 1));
                          now = W_clock w 1;
                          s = recordConnection s \<lparr>Conn_ConnectionID = connectionID, Conn_DomainID = ID_DomainID ident,
                                Conn_DeviceID = ID_DeviceID ident, Conn_State = ''ready'', Conn_ConnectedAt = now,
                                Conn_LastSeenAt = now, Conn_ClosedAt = 0\<rparr>;
                          opening = Frame_Challenge challenge # send sock 1 Frame_Ready;
                          close = (\<lambda>s. closeConnection s (W_clock w 3) connectionID)
                      in handle (dequeueMessages (Lib_msg_sort L) (Lib_row_sort L) (Lib_returned L) s (ID_DomainID ident) (ID_DeviceID ident) (W_clock w 2) 100)
                           (\<lambda>_ s. (opening @ send sock 2 (Frame_Closed ''message dequeue failed''), close s))
                           (\<lambda>messages s.
                              case deliver_all sock w 2 4 messages s of
                                (frames, finished, s) \<Rightarrow>
                                  (opening @ frames @
                                     (if finished then send sock (2 + length messages) (Frame_Drained (length messages)) else []),
                                   close s)))))"

section \<open>The server\<close>

text \<open>The patterns are exact paths; a request no pattern matches is answered 404.\<close>

definition route_request :: "prims \<Rightarrow> Libs \<Rightarrow> World \<Rightarrow> Socket \<Rightarrow> Request \<Rightarrow> RelayServer \<Rightarrow> relay_result" where
  "route_request P L w sock r s =
     (let path = Req_Path r in
      if path \<in> {''/healthz'', ''/readyz'', ''/livez''} then health s
      else if path = ''/metrics'' then metrics s
      else if path = ''/version'' then version s
      else if path = ''/.well-known/iscp/relay'' then wellKnown P w s
      else if path = ''/v2/relay/devices/bind-self'' then bindSelf P w r s
      else if path = ''/v2/relay/devices/register-with-ticket'' then registerWithTicket P w r s
      else if path = ''/v2/relay/devices/refresh-access'' then refreshAccess P w r s
      else if path = ''/v2/relay/devices/revoke-access'' then revokeAccess P w r s
      else if path = ''/v2/relay/envelopes'' then envelopes P w r s
      else if path = ''/v2/relay/connect'' then
        only_method ''GET'' r s (case connect P L w sock r s of (frames, s) \<Rightarrow> ((Sock_status sock, Relay_Frames frames), s))
      else if path = ''/v2/relay/admin/devices'' then adminDevices r s
      else if path = ''/v2/relay/admin/connections'' then adminConnections r s
      else if path = ''/v2/relay/admin/messages'' then adminMessages (Lib_row_sort L) (Lib_meta_sort L) w r s
      else ((404, Relay_Empty), s))"

definition Handler :: "prims \<Rightarrow> Libs \<Rightarrow> World \<Rightarrow> Socket \<Rightarrow> time \<Rightarrow> Request \<Rightarrow> RelayServer \<Rightarrow> relay_result" where
  "Handler P L w sock arrival r s =
     (case Allow (Rel_limiter s) (clientKey r) arrival of
        (ok, l) \<Rightarrow>
          let s = s\<lparr>Rel_limiter := l\<rparr> in
          if \<not> ok then refuse 429 (errors_Retryable CodeAccessInvalid ''rate limit exceeded'') s
          else route_request P L w sock r s)"

end
