(* ===== verification/Relay_Properties.thy ===== *)
theory Relay_Properties
  imports Relay_Invariants
begin

text \<open>
  What the relay guarantees over its runs: a proof is used once, a revoked device stays out, a ticket
  counts its uses, an envelope reaches the device it is addressed to and no other; and the race between
  the exchange of a refresh credential and a revocation.
\<close>

section \<open>A proof is used once\<close>

definition proof_blocked :: "prims \<Rightarrow> DeviceProof \<Rightarrow> time \<Rightarrow> RelayServer \<Rightarrow> bool" where
  "proof_blocked P p e s \<longleftrightarrow>
     (case Rel_repo s of
        None \<Rightarrow> cache_blocked (Rel_replay s) (proof_key p) e
      | Some d \<Rightarrow> nonce_blocked P RT_pop_replay_cache d (DP_DomainID p, DP_DeviceID p, DP_Audience p, DP_Nonce p) e)"

lemma nonce_use_relay:
  "nonce_use P RT_pop_replay_cache nonces_put d (dm, dv, aud, n) e now =
     (fst (Relay_UseProofNonce P d dm dv aud n e now) = Inr True, snd (Relay_UseProofNonce P d dm dv aud n e now))"
  by (simp add: nonce_use_def Relay_UseProofNonce_def split_beta)

lemma verifyProof_state:
  "snd (verifyProof P s now ident prf aud ch ttl) = s \<or>
   (Rel_repo s = None \<and> snd (verifyProof P s now ident prf aud ch ttl) =
       s\<lparr>Rel_replay := snd (Use (Rel_replay s) (proof_key prf) (Add (DP_IssuedAt prf) ttl) now)\<rparr>) \<or>
   (\<exists>d. Rel_repo s = Some d \<and> snd (verifyProof P s now ident prf aud ch ttl) =
       s\<lparr>Rel_repo := Some (snd (Relay_UseProofNonce P d (DP_DomainID prf) (DP_DeviceID prf) (DP_Audience prf) (DP_Nonce prf)
            (Add (DP_IssuedAt prf) ttl) now))\<rparr>)"
  by (cases "Rel_repo s") (simp_all add: verifyProof_def then_db_def with_db_def Let_def split_beta split: sum.split)

lemma verifyProof_accepts:
  assumes "fst (verifyProof P s now ident prf aud ch ttl) = Inr ()"
  shows "VerifyProof P ident prf aud ch now ttl = Inr ()" "\<not> blank (DP_Nonce prf)"
    and "Rel_repo s = None \<Longrightarrow> fst (Use (Rel_replay s) (proof_key prf) (Add (DP_IssuedAt prf) ttl) now) \<and>
      snd (verifyProof P s now ident prf aud ch ttl) =
        s\<lparr>Rel_replay := snd (Use (Rel_replay s) (proof_key prf) (Add (DP_IssuedAt prf) ttl) now)\<rparr>"
    and "Rel_repo s = Some d \<Longrightarrow>
      fst (Relay_UseProofNonce P d (DP_DomainID prf) (DP_DeviceID prf) (DP_Audience prf) (DP_Nonce prf) (Add (DP_IssuedAt prf) ttl) now) = Inr True \<and>
      snd (verifyProof P s now ident prf aud ch ttl) =
        s\<lparr>Rel_repo := Some (snd (Relay_UseProofNonce P d (DP_DomainID prf) (DP_DeviceID prf) (DP_Audience prf) (DP_Nonce prf)
            (Add (DP_IssuedAt prf) ttl) now))\<rparr>"
  using assms unfolding verifyProof_def then_db_def with_db_def Let_def
  by (auto simp: split_beta split: sum.splits if_splits option.splits)

lemma verifyProof_blocks:
  assumes "fst (verifyProof P s now ident prf aud ch ttl) = Inr ()"
  shows "proof_blocked P prf (pg_time (Add (DP_IssuedAt prf) ttl)) (snd (verifyProof P s now ident prf aud ch ttl))"
proof (cases "Rel_repo s")
  case None
  then show ?thesis
    using verifyProof_accepts(3)[OF assms None] cache.use_blocks[of "Rel_replay s" "proof_key prf" "Add (DP_IssuedAt prf) ttl" now]
      pg_time_le[of "Add (DP_IssuedAt prf) ttl"]
    by (auto simp: proof_blocked_def cache_blocked_def intro: order_trans)
next
  case (Some d)
  then show ?thesis
    using verifyProof_accepts(4)[OF assms Some] relay_nonces.use_blocks[of P d "(DP_DomainID prf, DP_DeviceID prf, DP_Audience prf, DP_Nonce prf)"]
    by (simp add: proof_blocked_def nonce_use_relay)
qed

lemma blocked_proof_refused:
  assumes "proof_blocked P p e s" "now < e"
    and "DP_DomainID q = DP_DomainID p" "DP_DeviceID q = DP_DeviceID p" "DP_Audience q = DP_Audience p" "DP_Nonce q = DP_Nonce p"
  shows "fst (verifyProof P s now ident q aud ch ttl) \<noteq> Inr ()"
proof
  assume ok: "fst (verifyProof P s now ident q aud ch ttl) = Inr ()"
  have k: "proof_key q = proof_key p" using assms(3-6) by (simp add: proof_key_def)
  show False
  proof (cases "Rel_repo s")
    case None
    then show ?thesis
      using verifyProof_accepts(3)[OF ok None] cache.blocked_refuses[OF _ assms(2)] assms(1) by (simp add: proof_blocked_def k)
  next
    case (Some d)
    then show ?thesis
      using verifyProof_accepts(4)[OF ok Some] assms(1,3-6) relay_nonces.blocked_refuses[OF _ assms(2),
          of P d "(DP_DomainID p, DP_DeviceID p, DP_Audience p, DP_Nonce p)" "Add (DP_IssuedAt q) ttl"]
      by (simp add: proof_blocked_def nonce_use_relay)
  qed
qed

lemma blocked_verify:
  assumes "proof_blocked P p e s" "now < e"
  shows "proof_blocked P p e (snd (verifyProof P s now ident q aud ch ttl))"
  using verifyProof_state[of P s now ident q aud ch ttl]
proof (elim disjE conjE exE)
  assume "snd (verifyProof P s now ident q aud ch ttl) = s"
  with assms(1) show ?thesis by simp
next
  assume "Rel_repo s = None" and r: "snd (verifyProof P s now ident q aud ch ttl) =
    s\<lparr>Rel_replay := snd (Use (Rel_replay s) (proof_key q) (Add (DP_IssuedAt q) ttl) now)\<rparr>"
  with assms show ?thesis by (simp add: proof_blocked_def cache.blocked_stays)
next
  fix d
  assume "Rel_repo s = Some d" and r: "snd (verifyProof P s now ident q aud ch ttl) =
    s\<lparr>Rel_repo := Some (snd (Relay_UseProofNonce P d (DP_DomainID q) (DP_DeviceID q) (DP_Audience q) (DP_Nonce q)
        (Add (DP_IssuedAt q) ttl) now))\<rparr>"
  with assms relay_nonces.blocked_stays[of P d _ e now "(DP_DomainID q, DP_DeviceID q, DP_Audience q, DP_Nonce q)" "Add (DP_IssuedAt q) ttl"]
  show ?thesis by (simp add: proof_blocked_def nonce_use_relay)
qed

text \<open>Credentials are written beside the nonces.\<close>

definition keeps_nonces :: "(relay_db \<Rightarrow> 'a result \<times> relay_db) \<Rightarrow> bool" where
  "keeps_nonces f \<longleftrightarrow> (\<forall>d. RT_pop_replay_cache (Db_tables (snd (f d))) = RT_pop_replay_cache (Db_tables d))"

lemma keeps_nonces_Exec [intro]: "keeps_nonces (Exec (on_access f))" "keeps_nonces (Exec (on_refresh g))"
proof -
  show "keeps_nonces (Exec (on_access f))" unfolding keeps_nonces_def
  proof
    fix d show "RT_pop_replay_cache (Db_tables (snd (Exec (on_access f) d))) = RT_pop_replay_cache (Db_tables d)"
      using Exec_tables[of "on_access f" d] by auto
  qed
  show "keeps_nonces (Exec (on_refresh g))" unfolding keeps_nonces_def
  proof
    fix d show "RT_pop_replay_cache (Db_tables (snd (Exec (on_refresh g) d))) = RT_pop_replay_cache (Db_tables d)"
      using Exec_tables[of "on_refresh g" d] by auto
  qed
qed

lemma keeps_nonces_then [intro]:
  "keeps_nonces f \<Longrightarrow> (\<And>x. keeps_nonces (k x)) \<Longrightarrow> keeps_nonces (\<lambda>d. then_db (f d) k)"
  "(\<And>x. keeps_nonces (k x)) \<Longrightarrow> keeps_nonces (\<lambda>d. then_db (r, d) k)"
  "keeps_nonces (\<lambda>d. (r', d))"
  by (simp_all add: keeps_nonces_def then_db_def split_beta split: sum.split)

lemma keeps_nonces_ops:
  "keeps_nonces (\<lambda>d. store_credentials d ad rd now a b)" "keeps_nonces (\<lambda>d. RevokeRefreshByHash d dm h now)"
  "keeps_nonces (\<lambda>d. RevokeDeviceCredentials d dm dv now)"
  unfolding store_credentials_def StoreAccessHash_def StoreRefreshHash_def RevokeRefreshByHash_def RevokeDeviceCredentials_def Let_def
  by (intro keeps_nonces_then keeps_nonces_Exec)+

lemma blocked_db:
  "proof_blocked P p e s \<Longrightarrow> Rel_repo s = Some d \<Longrightarrow> keeps_nonces f \<Longrightarrow> proof_blocked P p e (snd (with_db d f s))"
  by (simp add: proof_blocked_def keeps_nonces_def with_db_def nonce_blocked_def split_beta)

lemma blocked_fields:
  assumes "proof_blocked P p e s" "Rel_replay s' = Rel_replay s"
    "map_option (\<lambda>d. RT_pop_replay_cache (Db_tables d)) (Rel_repo s') = map_option (\<lambda>d. RT_pop_replay_cache (Db_tables d)) (Rel_repo s)"
  shows "proof_blocked P p e s'"
  using assms by (cases "Rel_repo s"; cases "Rel_repo s'") (simp_all add: proof_blocked_def nonce_blocked_def)

lemma blocked_then:
  "proof_blocked P p e (snd q) \<Longrightarrow> (\<And>x s. proof_blocked P p e s \<Longrightarrow> proof_blocked P p e (snd (k x s))) \<Longrightarrow>
     proof_blocked P p e (snd (then_db q k))"
  by (auto simp: then_db_def split: prod.splits sum.splits)

lemma blocked_issue:
  assumes "proof_blocked P p e s"
  shows "proof_blocked P p e (snd (issueCredentials P s now ab rb ad rd dm dv))"
  unfolding issueCredentials_def Let_def
proof (rule blocked_then)
  show "proof_blocked P p e (snd (case Rel_repo s of None \<Rightarrow> (Inr (), s) | Some d \<Rightarrow> with_db d (\<lambda>d. store_credentials d ad rd now a b) s))" for a b
    using assms by (auto split: option.split intro!: blocked_db keeps_nonces_ops)
  show "proof_blocked P p e (snd (Inr (a, b), s'\<lparr>Rel_access := x, Rel_refresh := y\<rparr>))" if "proof_blocked P p e s'" for s' a b x y
    using blocked_fields[OF that] by simp
qed

interpretation used_proof: relay_invariant P "proof_blocked P p e" "\<lambda>_. True" "\<lambda>now. now < e" for P p e
proof
  fix s s' :: RelayServer and h c dv d dm now w cred ident q aud ch ttl ab rb ad rd token
  assume s: "proof_blocked P p e s"
  note f = blocked_fields[OF s]
  show "proof_blocked P p e s'" if "same_auth s s'"
    using that by (intro f) (cases "Rel_repo s"; cases "Rel_repo s'"; simp add: same_auth_def auth_tables_def)+
  show "proof_blocked P p e (snd (verifyProof P s now ident q aud ch ttl))" if "now < e" using s that by (rule blocked_verify)
  show "proof_blocked P p e (snd (issueCredentials P s now ab rb ad rd dm dv))" using s by (rule blocked_issue)
  show "proof_blocked P p e (s\<lparr>Rel_access := (Rel_access s)(h \<mapsto> c\<lparr>Cred_Revoked := True\<rparr>)\<rparr>)" by (rule f) simp_all
  show "proof_blocked P p e (snd (revokeRefreshCredential P s token now))"
  proof -
    let ?s = "case Rel_refresh s (sha256 P token) of Some cred \<Rightarrow> s\<lparr>Rel_refresh := (Rel_refresh s)(sha256 P token \<mapsto> cred\<lparr>Cred_Revoked := True\<rparr>)\<rparr> | None \<Rightarrow> s"
    have "proof_blocked P p e ?s" by (rule f) (simp_all split: option.split)
    then show ?thesis unfolding revokeRefreshCredential_def Let_def
      by (auto split: option.split intro!: blocked_db keeps_nonces_ops)
  qed
  show "proof_blocked P p e (s\<lparr>Rel_revoked := insert dv (Rel_revoked s), Rel_access := revoke_device_credentials dv (Rel_access s),
        Rel_refresh := revoke_device_credentials dv (Rel_refresh s)\<rparr>)" by (rule f) simp_all
  show "proof_blocked P p e (snd (with_db d (\<lambda>d. RevokeDeviceCredentials d dm dv now) s))" if "Rel_repo s = Some d"
    using s that by (intro blocked_db keeps_nonces_ops)
  show True by simp
qed

section \<open>Messages go to their recipient\<close>

definition same_messages :: "RelayServer \<Rightarrow> RelayServer \<Rightarrow> bool" where
  "same_messages s s' \<longleftrightarrow> Rel_cfg s' = Rel_cfg s \<and> Rel_queue s' = Rel_queue s \<and>
     map_option (\<lambda>d. RT_messages (Db_tables d)) (Rel_repo s') = map_option (\<lambda>d. RT_messages (Db_tables d)) (Rel_repo s)"

lemma Exec_other_messages:
  "RT_messages (Db_tables (snd (Exec (on_devices f) d))) = RT_messages (Db_tables d)"
  "RT_messages (Db_tables (snd (Exec (on_table RT_pop_replay_cache nonces_put g) d))) = RT_messages (Db_tables d)"
  using Exec_tables[of "on_devices f" d] Exec_tables[of "on_table RT_pop_replay_cache nonces_put g" d] by auto

lemma verifyProof_messages: "same_messages s (snd (verifyProof P s now ident prf aud ch ttl))"
proof -
  have "RT_messages (Db_tables (snd (Relay_UseProofNonce P d dm dv aud n e now))) = RT_messages (Db_tables d)" for d dm dv aud n e now
    by (simp add: Relay_UseProofNonce_def useProofNonce_def then_db_def RequireDomain_def split_beta Exec_other_messages split: sum.split)
  then show ?thesis using verifyProof_state[of P s now ident "prf" aud ch ttl] by (elim disjE conjE exE) (simp_all add: same_messages_def)
qed

lemma connection_identity_found:
  assumes "connection_identity s dv = (Some ident, s')"
  shows "dv \<notin> Rel_revoked s" "same_messages s s'"
proof -
  have g: "RT_messages (Db_tables (snd (GetDevice d dm dv))) = RT_messages (Db_tables d)" for d dm dv
    by (simp add: GetDevice_def then_db_def split_beta Exec_other_messages split: sum.split)
  show "dv \<notin> Rel_revoked s"
    using assms by (auto simp: connection_identity_def Let_def handle_def split: option.splits if_splits prod.splits sum.splits)
  show "same_messages s s'"
  proof (cases "Rel_repo s")
    case None
    with assms show ?thesis
      by (auto simp: connection_identity_def Let_def same_messages_def split: option.splits if_splits)
  next
    case (Some d)
    have "s' = s \<or> s' = snd (with_db d (\<lambda>d. GetDevice d (RCfg_DomainID (Rel_cfg s)) dv) s)"
      using assms Some by (auto simp: connection_identity_def Let_def handle_def split: option.splits if_splits prod.splits sum.splits)
    with Some g[of d] show ?thesis by (auto simp: same_messages_def with_db_def split_beta)
  qed
qed

text \<open>What is written of a message, and that it is what the loop sends.\<close>

abbreviation message_frame :: "Message \<Rightarrow> frame" where
  "message_frame msg \<equiv> Frame_Message (Msg_MessageID msg) (compact False (Msg_Envelope msg))"

definition sendable :: "Message \<Rightarrow> bool" where
  "sendable msg \<longleftrightarrow> is_ok (MarshalRaw (Msg_Envelope msg))"

lemma sendable_compact: "sendable msg \<Longrightarrow> MarshalRaw (Msg_Envelope msg) = Inr (compact False (Msg_Envelope msg))"
  by (cases "MarshalRaw (Msg_Envelope msg)") (auto simp: sendable_def MarshalRaw_Inr)

lemma unsendable: "\<not> sendable msg \<Longrightarrow> \<exists>e. MarshalRaw (Msg_Envelope msg) = Inl e"
  by (cases "MarshalRaw (Msg_Envelope msg)") (auto simp: sendable_def)

lemma deliver_prefix:
  "\<exists>k. fst (deliver_all sock w n c ms s) = map message_frame (take k ms) \<and> list_all sendable (take k ms)"
proof (induction sock w n c ms s rule: deliver_all.induct)
  case (2 sock w n c m ms s)
  let ?s = "case Rel_repo s of Some d \<Rightarrow> snd (with_db d (\<lambda>d. MarkMessageDelivered d (Msg_DomainID m) (Msg_MessageID m) (W_clock w c)) s) | None \<Rightarrow> s"
  show ?case
  proof (cases "sendable m \<and> Sock_writes sock n")
    case True
    note e = sendable_compact[of m]
    obtain k where "fst (deliver_all sock w (Suc n) (Suc c) ms ?s) = map message_frame (take k ms)" "list_all sendable (take k ms)"
      using 2[OF e] True by blast
    with True e have "fst (deliver_all sock w n c (m # ms) s) = map message_frame (take (Suc k) (m # ms)) \<and> list_all sendable (take (Suc k) (m # ms))"
      by (simp add: Let_def split_beta)
    then show ?thesis by blast
  next
    case False
    then have "fst (deliver_all sock w n c (m # ms) s) = []" using unsendable[of m] sendable_compact[of m] by (cases "sendable m") auto
    then show ?thesis by (auto intro: exI[of _ 0])
  qed
qed simp

lemma deliver_complete:
  assumes "\<forall>i. Sock_writes sock i" "list_all sendable ms"
  shows "fst (deliver_all sock w n c ms s) = map message_frame ms"
  using assms
proof (induction sock w n c ms s rule: deliver_all.induct)
  case (2 sock w n c m ms s)
  then show ?case using sendable_compact[of m] by (simp add: Let_def split_beta)
qed simp

lemma connect_delivers_from:
  assumes "Frame_Message m e \<in> set (fst (connect P L w sock r s))"
  obtains pf ident s1 s2 c ms s3 msg where "Upgrade L sock r s"
    "and_then (Sock_read sock) (DecodeJSON proof_table no_proof) = Inr pf"
    "connection_identity s (DP_DeviceID pf) = (Some ident, s1)"
    "verifyProof P s1 (W_clock w 0) ident pf (RCfg_RelayID (Rel_cfg s1)) (randomToken (W_token w 0)) Minute = (Inr (), s2)"
    "dequeueMessages (Lib_msg_sort L) (Lib_row_sort L) (Lib_returned L) (recordConnection s2 c)
       (ID_DomainID ident) (ID_DeviceID ident) (W_clock w 2) 100 = (Inr ms, s3)"
    "msg \<in> set ms" "Msg_MessageID msg = m" "MarshalRaw (Msg_Envelope msg) = Inr e"
proof -
  have g: "Req_Method r = ''GET''" "Upgrade L sock r s" "Sock_writes sock 0"
    using assms by (auto simp: connect_def Let_def split: if_splits)
  obtain pf where pf: "and_then (Sock_read sock) (DecodeJSON proof_table no_proof) = Inr pf"
    using assms g by (auto simp: connect_def Let_def split: sum.splits)
  obtain ident s1 where i: "connection_identity s (DP_DeviceID pf) = (Some ident, s1)"
    using assms g pf by (auto simp: connect_def Let_def send_def split: prod.splits option.splits if_splits)
  obtain x s2 where v: "verifyProof P s1 (W_clock w 0) ident pf (RCfg_RelayID (Rel_cfg s1)) (randomToken (W_token w 0)) Minute = (Inr x, s2)"
    using assms g pf i by (auto simp: connect_def Let_def send_def handle_def split: prod.splits sum.splits if_splits)
  define c where "c = \<lparr>Conn_ConnectionID = ''conn-'' @ take 16 (randomToken (W_token w 1)), Conn_DomainID = ID_DomainID ident,
    Conn_DeviceID = ID_DeviceID ident, Conn_State = ''ready'', Conn_ConnectedAt = W_clock w 1, Conn_LastSeenAt = W_clock w 1, Conn_ClosedAt = 0\<rparr>"
  obtain ms s3 where d: "dequeueMessages (Lib_msg_sort L) (Lib_row_sort L) (Lib_returned L) (recordConnection s2 c)
       (ID_DomainID ident) (ID_DeviceID ident) (W_clock w 2) 100 = (Inr ms, s3)"
    using assms g pf i v
    by (auto simp: connect_def Let_def c_def handle_def send_def split: prod.splits sum.splits if_splits)
  obtain k where k: "fst (deliver_all sock w 2 4 ms s3) = map message_frame (take k ms)" "list_all sendable (take k ms)"
    using deliver_prefix by blast
  have "Frame_Message m e \<in> set (fst (deliver_all sock w 2 4 ms s3))"
    using assms g pf i v d
    by (auto simp: connect_def Let_def c_def send_def split_beta split: if_splits)
  then obtain msg where "msg \<in> set (take k ms)" "Msg_MessageID msg = m" "compact False (Msg_Envelope msg) = e"
    unfolding k(1) by auto
  then have "msg \<in> set ms" "Msg_MessageID msg = m" "MarshalRaw (Msg_Envelope msg) = Inr e"
    using k(2) sendable_compact[of msg] by (auto dest: in_set_takeD simp: list_all_iff)
  with that g(2) pf i v d show thesis by simp
qed

text \<open>What a dequeue returns was queued for the device.\<close>

definition pending_for :: "RelayServer \<Rightarrow> string \<Rightarrow> string \<Rightarrow> string \<Rightarrow> bytes \<Rightarrow> bool" where
  "pending_for s domainID deviceID messageID envelope \<longleftrightarrow>
     (case Rel_repo s of
        None \<Rightarrow> \<exists>msg\<in>set (Q_messages (Rel_queue s)). Msg_DomainID msg = domainID \<and> Msg_RecipientDeviceID msg = deviceID \<and>
                  Msg_MessageID msg = messageID \<and> Msg_Envelope msg = envelope
      | Some d \<Rightarrow> \<exists>row\<in>set (RT_messages (Db_tables d)). RMsg_DomainID row = domainID \<and> RMsg_RecipientDeviceID row = deviceID \<and>
                  RMsg_MessageID row = messageID \<and> RMsg_EnvelopeRaw row = envelope \<and> MR_DeliveredAt row = None)"

definition message_ids_distinct :: "RelayServer \<Rightarrow> bool" where
  "message_ids_distinct s \<longleftrightarrow> (\<forall>d. Rel_repo s = Some d \<longrightarrow> distinct (map RMsg_ID (RT_messages (Db_tables d))))"

definition libs_ok :: "Libs \<Rightarrow> bool" where
  "libs_ok L \<longleftrightarrow> sorts (Lib_msg_sort L) \<and> sorts (Lib_row_sort L) \<and> permutes_rows (Lib_returned L)"

lemma claimed_rows:
  assumes "sorts srt" "permutes_rows returned" "distinct (map RMsg_ID rows)"
    and "fst (claim_messages srt returned dm dev now until n rows) = Inr rs" "r \<in> set rs"
  obtains row where "row \<in> set rows" "claimable dm dev now row" "RelayMessage.truncate r = RelayMessage.truncate row"
proof -
  let ?ids = "set (map RMsg_ID (take n (srt row_less (filter (claimable dm dev now) rows))))"
  have r: "r \<in> set (filter (\<lambda>r. RMsg_ID r \<in> ?ids) (map (\<lambda>r. if RMsg_ID r \<in> ?ids
      then r\<lparr>MR_DeliveryClaimedUntil := Some until, MR_DeliveryAttempts := MR_DeliveryAttempts r + 1\<rparr> else r) rows))"
    using assms(4,5) permutes_set[OF assms(2)] by (auto simp: claim_messages_def Let_def)
  then obtain row where row: "row \<in> set rows" "RMsg_ID row \<in> ?ids" "RelayMessage.truncate r = RelayMessage.truncate row"
    by (auto simp: RelayMessage.truncate_def split: if_splits)
  obtain row' where "row' \<in> set rows" "claimable dm dev now row'" "RMsg_ID row' = RMsg_ID row"
    using claim_ids[OF assms(1), of n "claimable dm dev now" rows] row(2) by auto
  with assms(3) row(1) have "claimable dm dev now row" by (auto simp: distinct_map inj_on_def)
  with row show thesis by (intro that)
qed

lemma dequeue_pending:
  assumes "libs_ok L" "message_ids_distinct s"
    and "dequeueMessages (Lib_msg_sort L) (Lib_row_sort L) (Lib_returned L) s dm dv now 100 = (Inr ms, s')" "msg \<in> set ms"
  shows "pending_for s dm dv (Msg_MessageID msg) (Msg_Envelope msg)"
proof (cases "Rel_repo s")
  case None
  obtain q where q: "DequeueFor (Lib_msg_sort L) (Rel_queue s) dm dv now 100 = (ms, q)"
    using assms(3) None by (auto simp: dequeueMessages_def split: prod.splits)
  have srt: "sorts (Lib_msg_sort L)" using assms(1) by (simp add: libs_ok_def)
  have "msg \<in># mset (live now (Q_messages (Rel_queue s)))"
    using DequeueFor_conserves[OF srt q] assms(4) by simp
  then have "msg \<in> set (Q_messages (Rel_queue s))" by (auto simp: live_def)
  moreover have "matches_for dm dv msg" using DequeueFor_out(1)[OF srt q] assms(4) by blast
  ultimately show ?thesis by (auto simp: pending_for_def None matches_for_def)
next
  case (Some d)
  obtain rms d' rm where c: "ClaimPendingMessagesFor (Lib_row_sort L) (Lib_returned L) d dm dv now Minute 100 = (Inr rms, d')"
    and ms: "rm \<in> set rms" "RMsg_MessageID rm = Msg_MessageID msg" "RMsg_EnvelopeRaw rm = Msg_Envelope msg"
    using assms(3,4) Some by (auto simp: dequeueMessages_def then_db_Inr with_db_def split: prod.splits)
  from c obtain rows where r: "rms = scanRelayMessages rows"
    "fst (claim_messages (Lib_row_sort L) (Lib_returned L) dm dv (pg_time now) (pg_time (Add now Minute)) (nat 100) (RT_messages (Db_tables d))) = Inr rows"
    by (auto elim: ClaimPending_Inr)
  then obtain r where "r \<in> set rows" "RMsg_MessageID r = Msg_MessageID msg" "RMsg_EnvelopeRaw r = Msg_Envelope msg"
    using ms by (auto simp: scanRelayMessages_def RelayMessage.truncate_def)
  moreover from this(1) assms(1,2) obtain row where "row \<in> set (RT_messages (Db_tables d))" "claimable dm dv (pg_time now) row"
    "RelayMessage.truncate r = RelayMessage.truncate row"
    using r(2) Some by (auto simp: libs_ok_def message_ids_distinct_def elim: claimed_rows)
  ultimately show ?thesis by (auto simp: pending_for_def Some claimable_def RelayMessage.truncate_def)
qed

lemma pending_same: "same_messages s s' \<Longrightarrow> pending_for s' dm dv m e = pending_for s dm dv m e"
  by (cases "Rel_repo s"; cases "Rel_repo s'") (simp_all add: same_messages_def pending_for_def)

lemma distinct_same: "same_messages s s' \<Longrightarrow> message_ids_distinct s' = message_ids_distinct s"
  by (cases "Rel_repo s"; cases "Rel_repo s'") (simp_all add: same_messages_def message_ids_distinct_def)

lemma same_messages_connection: "same_messages s (recordConnection s c)"
  by (simp add: same_messages_def recordConnection_def)

lemma same_messages_trans: "same_messages s s' \<Longrightarrow> same_messages s' s'' \<Longrightarrow> same_messages s s''"
  by (simp add: same_messages_def)

text \<open>A connection that goes well receives everything the dequeue returned.\<close>

lemma connect_complete:
  assumes "Req_Method r = ''GET''" "Upgrade L sock r s" "\<forall>i. Sock_writes sock i"
    and "and_then (Sock_read sock) (DecodeJSON proof_table no_proof) = Inr pf"
    and "connection_identity s (DP_DeviceID pf) = (Some ident, s1)"
    and "verifyProof P s1 (W_clock w 0) ident pf (RCfg_RelayID (Rel_cfg s1)) (randomToken (W_token w 0)) Minute = (Inr (), s2)"
    and "\<And>c. fst (dequeueMessages (Lib_msg_sort L) (Lib_row_sort L) (Lib_returned L) (recordConnection s2 c)
       (ID_DomainID ident) (ID_DeviceID ident) (W_clock w 2) 100) = Inr ms" "list_all sendable ms"
  shows "\<exists>frames. fst (connect P L w sock r s) =
    Frame_Challenge (randomToken (W_token w 0)) # Frame_Ready # map message_frame ms @ frames"
proof -
  define after where "after c = snd (dequeueMessages (Lib_msg_sort L) (Lib_row_sort L) (Lib_returned L) (recordConnection s2 c)
       (ID_DomainID ident) (ID_DeviceID ident) (W_clock w 2) 100)" for c
  have d: "dequeueMessages (Lib_msg_sort L) (Lib_row_sort L) (Lib_returned L) (recordConnection s2 c)
       (ID_DomainID ident) (ID_DeviceID ident) (W_clock w 2) 100 = (Inr ms, after c)" for c
    by (rule prod_eqI) (simp_all add: assms(7) after_def)
  show ?thesis
    using assms(1-6) deliver_complete[OF assms(3,8)]
    by (simp add: connect_def Let_def send_def d split_beta)
qed

text \<open>An accepted envelope is in the queue.\<close>

lemma no_repo_verify:
  "Rel_repo s = None \<Longrightarrow> Rel_repo (snd (verifyProof P s now ident prf aud ch ttl)) = None"
  "Rel_cfg (snd (verifyProof P s now ident prf aud ch ttl)) = Rel_cfg s"
  using verifyProof_messages[of s P now ident "prf" aud ch ttl] by (simp_all add: same_messages_def)

lemma no_repo_authenticate:
  assumes "Rel_repo s = None"
  shows "Rel_repo (snd (authenticateAccess P s now now' r)) = None \<and> Rel_cfg (snd (authenticateAccess P s now now' r)) = Rel_cfg s"
proof -
  have l: "snd (lookupIdentity s dm dv) = s" if "Rel_repo s = None" for s dm dv
    using that by (simp add: lookupIdentity_def lookup_stored_def split: option.split)
  have "Rel_repo (snd (verifyAccessProof P s now r cred h)) = None \<and> Rel_cfg (snd (verifyAccessProof P s now r cred h)) = Rel_cfg s"
    if "Rel_repo s = None" for s now cred h
    using that by (auto simp: verifyAccessProof_def Let_def then_db_def l no_repo_verify split_beta split: sum.split option.split)
  with assms show ?thesis
    by (auto simp: authenticateAccess_def Let_def then_db_def split_beta split: option.split sum.split)
qed

lemma envelope_queued:
  assumes "Rel_repo s = None" "envelopes P w r s = ((202, reply), s')"
    and "DecodeRaw (Req_Body r) = Inr raw" "Unmarshal_struct meta_table no_meta raw = Inr meta"
  shows "Rel_repo s' = None \<and>
    \<lparr>Msg_DomainID = EM_DomainID meta, Msg_MessageID = EM_MessageID meta, Msg_SenderDeviceID = EM_SenderDeviceID meta,
        Msg_RecipientDeviceID = EM_RecipientDeviceID meta, Msg_Envelope = raw, Msg_Priority = RM_Priority (EM_Route meta),
        Msg_ExpiresAt = Add (W_clock w 2) (seconds (RM_TTLSeconds (EM_Route meta))), Msg_QueuedAt = W_clock w 2\<rparr>
      \<in> set (Q_messages (Rel_queue s'))"
proof -
  obtain res s0 where a: "authenticateAccess P s (W_clock w 0) (W_clock w 1) r = (res, s0)" by force
  have "Rel_repo s0 = None" using no_repo_authenticate[OF assms(1), of P "W_clock w 0" "W_clock w 1" r] unfolding a by simp
  with assms(2-4) a show ?thesis
    by (auto simp: envelopes_def only_method_def handle_def Let_def WriteError_def WriteJSON_def Enqueue_def IsZero_def
        split: if_splits sum.splits)
qed

section \<open>Tickets count their uses\<close>

definition relay_remaining :: "RelayServer \<Rightarrow> string \<Rightarrow> nat option" where
  "relay_remaining s t = map_option (\<lambda>st. nat (Tk_MaxUses st - Tk_Uses st)) (Rel_tickets s t)"

definition relay_tickets_ok :: "RelayServer \<Rightarrow> bool" where
  "relay_tickets_ok s \<longleftrightarrow> (\<forall>t st. Rel_tickets s t = Some st \<longrightarrow> 0 < Tk_MaxUses st \<and> 0 \<le> Tk_Uses st \<and> Tk_Uses st \<le> Tk_MaxUses st)"

interpretation relay_tickets: ticket_counter consumeTicket relay_remaining relay_tickets_ok
proof
  fix s :: RelayServer and t m n
  assume s: "relay_tickets_ok s"
  have st: "0 < Tk_MaxUses st \<and> 0 \<le> Tk_Uses st \<and> Tk_Uses st \<le> Tk_MaxUses st" if "Rel_tickets s t = Some st" for st
    using s that by (simp add: relay_tickets_ok_def)
  show "relay_tickets_ok (snd (consumeTicket s t m))"
    using s by (auto simp: consumeTicket_def Let_def relay_tickets_ok_def no_ticket_def split: option.splits if_splits)
  show "is_ok (fst (consumeTicket s t m)) \<and> relay_remaining (snd (consumeTicket s t m)) = (relay_remaining s)(t \<mapsto> nat m - 1)"
    if "relay_remaining s t = None" "0 < m"
    using that by (auto simp: consumeTicket_def Let_def relay_remaining_def no_ticket_def nat_diff_distrib fun_eq_iff)
  show "is_ok (fst (consumeTicket s t m)) \<and> relay_remaining (snd (consumeTicket s t m)) = (relay_remaining s)(t \<mapsto> n)"
    if "relay_remaining s t = Some (Suc n)" "0 < m"
    using that st by (auto simp: consumeTicket_def Let_def relay_remaining_def fun_eq_iff)
  show "\<not> is_ok (fst (consumeTicket s t m)) \<and> relay_remaining (snd (consumeTicket s t m)) = relay_remaining s"
    if "relay_remaining s t = Some 0"
    using that st by (auto simp: consumeTicket_def Let_def relay_remaining_def)
  show "\<not> is_ok (fst (consumeTicket s t m)) \<and> relay_remaining (snd (consumeTicket s t m)) = relay_remaining s"
    if "relay_remaining s t = None" "m \<le> 0"
    using that by (auto simp: consumeTicket_def Let_def relay_remaining_def no_ticket_def)
qed

end
