(* ===== verification/Relay_Delivery.thy ===== *)
theory Relay_Delivery
  imports Relay_Properties
begin

text \<open>
  The life of a message on a relay without a database. \<open>queue_effect\<close> is all a request does to the queue: nothing, an
  envelope posted, expired messages dropped when the queue is listed, or messages taken out by a connection, which
  then receives them. \<open>memory_run\<close> is a sequence of requests with the frames that were sent and the device each
  frame went to; over such a run an unexpired message is never lost (\<open>message_kept\<close>).
\<close>

declare valid_utf8.simps(2) [simp del] to_valid.simps(2) [simp del]

section \<open>Handlers that leave the queue alone\<close>

definition in_memory :: "Queue \<Rightarrow> RelayServer \<Rightarrow> bool" where
  "in_memory q s \<longleftrightarrow> Rel_repo s = None \<and> Rel_queue s = q"

lemma memory_updates [simp]:
  "in_memory q (s\<lparr>Rel_limiter := l\<rparr>) = in_memory q s" "in_memory q (s\<lparr>Rel_devices := dv\<rparr>) = in_memory q s"
  "in_memory q (s\<lparr>Rel_tickets := t\<rparr>) = in_memory q s" "in_memory q (s\<lparr>Rel_connections := c\<rparr>) = in_memory q s"
  "in_memory q (s\<lparr>Rel_access := a\<rparr>) = in_memory q s" "in_memory q (s\<lparr>Rel_refresh := f\<rparr>) = in_memory q s"
  "in_memory q (s\<lparr>Rel_revoked := rv\<rparr>) = in_memory q s" "in_memory q (s\<lparr>Rel_replay := rp\<rparr>) = in_memory q s"
  by (simp_all add: in_memory_def)

lemma memory_handle:
  assumes "in_memory q (snd p)" "\<And>e s. in_memory q s \<Longrightarrow> in_memory q (snd (bad e s))" "\<And>x s. in_memory q s \<Longrightarrow> in_memory q (snd (good x s))"
  shows "in_memory q (snd (handle p bad good))"
  using assms by (auto simp: handle_def split: prod.splits sum.splits)

lemma memory_then:
  assumes "in_memory q (snd p)" "\<And>x s. in_memory q s \<Longrightarrow> in_memory q (snd (k x s))"
  shows "in_memory q (snd (then_db p k))"
  using assms by (auto simp: then_db_def split: prod.splits sum.splits)

lemma memory_no_repo: "in_memory q s \<Longrightarrow> Rel_repo s = None"
  by (simp add: in_memory_def)

lemma memory_verify: "in_memory q s \<Longrightarrow> in_memory q (snd (verifyProof P s now ident prf aud ch ttl))"
  using verifyProof_messages[of s P now ident "prf" aud ch ttl] by (simp add: in_memory_def same_messages_def)

lemma memory_lookup: "in_memory q s \<Longrightarrow> in_memory q (snd (lookupIdentity s dm dv))"
  by (auto simp: lookupIdentity_def lookup_stored_def memory_no_repo split: option.split)

lemma memory_access_proof: "in_memory q s \<Longrightarrow> in_memory q (snd (verifyAccessProof P s now r cred h))"
  unfolding verifyAccessProof_def Let_def by (auto intro!: memory_then memory_verify memory_lookup split: option.split)

lemma memory_authenticate:
  assumes "in_memory q s"
  shows "in_memory q (snd (authenticateAccess P s now now' r))"
proof -
  have "in_memory q (snd (then_db (verifyAccessProof P s2 now' r cred h) (\<lambda>_ s. (Inr cred, s))))" if "in_memory q s2" for s2 cred h
    using that by (intro memory_then memory_access_proof) simp_all
  with assms memory_no_repo[OF assms] show ?thesis
    unfolding authenticateAccess_def Let_def by (auto split: option.split)
qed

lemma memory_issue: "in_memory q s \<Longrightarrow> in_memory q (snd (issueCredentials P s now ab rb ad rd dm dv))"
  by (simp add: issueCredentials_def Let_def then_db_def memory_no_repo)

lemma memory_spend: "in_memory q s \<Longrightarrow> in_memory q (snd (revokeRefreshCredential P s token now))"
  by (auto simp: revokeRefreshCredential_def Let_def memory_no_repo split: option.split)

lemma memory_bind: "in_memory q s \<Longrightarrow> in_memory q (snd (bindIdentity P w s ident))"
  unfolding bindIdentity_def by (intro memory_handle memory_issue) (auto simp: persistDevice_def memory_no_repo)

lemma memory_ticket: "in_memory q s \<Longrightarrow> in_memory q (snd (consumeTicket s t m))"
  by (auto simp: consumeTicket_def Let_def)

lemma memory_registration:
  assumes "in_memory q s"
  shows "in_memory q (snd (bindSelf P w r s))" "in_memory q (snd (registerWithTicket P w r s))"
proof -
  show "in_memory q (snd (bindSelf P w r s))"
    using assms unfolding bindSelf_def only_method_def by (auto intro!: memory_handle memory_verify memory_bind)
  have "in_memory q (snd (registerWithSignedTicket P w s ticket req))" if "in_memory q s" for s ticket req
    using that unfolding registerWithSignedTicket_def
    by (auto split: option.split intro!: memory_handle memory_verify memory_bind memory_ticket)
  with assms show "in_memory q (snd (registerWithTicket P w r s))"
    unfolding registerWithTicket_def only_method_def
    by (auto split: option.split intro!: memory_handle memory_verify memory_bind memory_ticket)
qed

lemma memory_credentials:
  assumes "in_memory q s"
  shows "in_memory q (snd (refreshAccess P w r s))" "in_memory q (snd (revokeAccess P w r s))"
proof -
  have c: "in_memory q (snd (refresh_check P w s token))" if "in_memory q s" for s token
    using that unfolding refresh_check_def Let_def by (auto simp: memory_no_repo split: option.split)
  have e: "in_memory q (snd (refresh_exchange P w s token cred))" if "in_memory q s" for s token cred
    using that unfolding refresh_exchange_def by (auto intro!: memory_handle memory_spend memory_issue)
  have "in_memory q (snd (case refresh_check P w s token of (Inl (status, err), s) \<Rightarrow> refuse status err s
      | (Inr cred, s) \<Rightarrow> refresh_exchange P w s token cred))" if "in_memory q s" for s token
    using c[OF that, of token] e by (auto split: prod.split sum.split)
  with assms show "in_memory q (snd (refreshAccess P w r s))"
    unfolding refreshAccess_def only_method_def by (auto intro!: memory_handle)
  show "in_memory q (snd (revokeAccess P w r s))"
    using assms unfolding revokeAccess_def only_method_def Let_def
    by (auto simp: memory_no_repo split: option.split intro!: memory_handle memory_authenticate)
qed

section \<open>What a request does to the queue\<close>

text \<open>The device on the other end of a connection, as the relay identifies it, and the frames a reply carries.\<close>

definition connected_device :: "RelayServer \<Rightarrow> Socket \<Rightarrow> (string \<times> string) option" where
  "connected_device s sock =
     (case and_then (Sock_read sock) (DecodeJSON proof_table no_proof) of
        Inl _ \<Rightarrow> None
      | Inr pf \<Rightarrow> map_option (\<lambda>ident. (ID_DomainID ident, ID_DeviceID ident)) (fst (connection_identity s (DP_DeviceID pf))))"

fun frames_of :: "relay_reply \<Rightarrow> frame list" where
  "frames_of (Relay_Frames frames) = frames"
| "frames_of _ = []"

inductive queue_effect :: "Libs \<Rightarrow> World \<Rightarrow> Socket \<Rightarrow> (string \<times> string) option \<Rightarrow> frame list \<Rightarrow> Queue \<Rightarrow> Queue \<Rightarrow> bool"
  for L w sock dev frames q where
  effect_none: "queue_effect L w sock dev frames q q"
| effect_posted: "sendable msg \<Longrightarrow> queue_effect L w sock dev frames q (snd (Enqueue q msg (W_clock w 2)))"
| effect_listed: "queue_effect L w sock dev frames q (snd (SnapshotMetadata srt q (W_clock w 0)))"
| effect_taken: "DequeueFor (Lib_msg_sort L) q dm dv (W_clock w 2) 100 = (out, q') \<Longrightarrow> dev = Some (dm, dv) \<Longrightarrow>
    (list_all sendable out \<Longrightarrow> \<forall>i. Sock_writes sock i \<Longrightarrow> message_frame ` set out \<subseteq> set frames) \<Longrightarrow>
    queue_effect L w sock dev frames q q'"

lemma envelope_sendable: "Unmarshal_struct meta_table no_meta raw = Inr meta \<Longrightarrow> is_ok (MarshalRaw raw)"
  by (cases "Unmarshal_doc raw") (auto simp: Unmarshal_struct_def MarshalRaw_def raw_doc_def split: option.splits sum.splits)

lemma effect_envelopes:
  assumes "in_memory q s"
  shows "\<exists>q'. in_memory q' (snd (envelopes P w r s)) \<and> queue_effect L w sock dev frames q q'"
proof -
  obtain res s0 where a: "authenticateAccess P s (W_clock w 0) (W_clock w 1) r = (res, s0)" by force
  have s0: "Rel_repo s0 = None" "Rel_queue s0 = q"
    using memory_authenticate[OF assms, of P "W_clock w 0" "W_clock w 1" r] unfolding a by (simp_all add: in_memory_def)
  show ?thesis
  proof (cases "in_memory q (snd (envelopes P w r s))")
    case True
    then show ?thesis using effect_none by blast
  next
    case False
    then have "\<exists>raw meta. Unmarshal_struct meta_table no_meta raw = Inr meta \<and>
        in_memory (snd (Enqueue q \<lparr>Msg_DomainID = EM_DomainID meta, Msg_MessageID = EM_MessageID meta,
          Msg_SenderDeviceID = EM_SenderDeviceID meta, Msg_RecipientDeviceID = EM_RecipientDeviceID meta, Msg_Envelope = raw,
          Msg_Priority = RM_Priority (EM_Route meta),
          Msg_ExpiresAt = Add (W_clock w 2) (seconds (RM_TTLSeconds (EM_Route meta))), Msg_QueuedAt = 0\<rparr> (W_clock w 2)))
        (snd (envelopes P w r s))"
      using assms s0 a
      by (auto simp: envelopes_def only_method_def handle_def Let_def in_memory_def split_beta split: if_splits sum.splits)
    then show ?thesis using envelope_sendable by (fastforce simp: sendable_def intro: effect_posted)
  qed
qed

lemma effect_adminMessages:
  assumes "in_memory q s"
  shows "\<exists>q'. in_memory q' (snd (adminMessages row_sort meta_sort w r s)) \<and> queue_effect L w sock dev frames q q'"
proof (cases "snd (adminMessages row_sort meta_sort w r s) = s")
  case True
  then show ?thesis using assms effect_none by metis
next
  case False
  then have "in_memory (snd (SnapshotMetadata meta_sort q (W_clock w 0))) (snd (adminMessages row_sort meta_sort w r s))"
    using assms by (auto simp: adminMessages_def only_method_def requireAdmin_def Let_def in_memory_def split_beta split: if_splits)
  then show ?thesis using effect_listed by blast
qed

lemma deliver_memory: "Rel_repo s = None \<Longrightarrow> snd (snd (deliver_all sock w n c ms s)) = s"
proof (induction sock w n c ms s rule: deliver_all.induct)
  case (2 sock w n c m ms s)
  then show ?case by (cases "MarshalRaw (Msg_Envelope m)") (simp_all add: Let_def split_beta)
qed simp

lemma connection_memory [simp]:
  "in_memory q (closeConnection s now cid) = in_memory q s" "Rel_repo (recordConnection s c) = Rel_repo s"
  by (simp_all add: closeConnection_def recordConnection_def Let_def)

lemma effect_connect:
  assumes "in_memory q s"
  shows "\<exists>q'. in_memory q' (snd (connect P L w sock r s)) \<and>
    queue_effect L w sock (connected_device s sock) (fst (connect P L w sock r s)) q q'"
proof (cases "in_memory q (snd (connect P L w sock r s))")
  case True
  then show ?thesis using effect_none by blast
next
  case False
  have ci: "snd (connection_identity s dv) = s" for dv
    using memory_no_repo[OF assms] by (simp add: connection_identity_def Let_def split: option.split)
  have g: "Req_Method r = ''GET''" "Upgrade L sock r s" "Sock_writes sock 0"
    using False assms by (auto simp: connect_def Let_def split: if_splits)
  obtain pf where pf: "and_then (Sock_read sock) (DecodeJSON proof_table no_proof) = Inr pf"
    using False assms g by (auto simp: connect_def Let_def split: sum.splits)
  obtain ident where i: "connection_identity s (DP_DeviceID pf) = (Some ident, s)"
    using False assms g pf ci[of "DP_DeviceID pf"] by (auto simp: connect_def Let_def split: prod.splits option.splits)
  obtain res s2 where v: "verifyProof P s (W_clock w 0) ident pf (RCfg_RelayID (Rel_cfg s)) (randomToken (W_token w 0)) Minute = (res, s2)"
    by force
  have s2: "Rel_repo s2 = None" "Rel_queue s2 = q"
    using memory_verify[OF assms, of P "W_clock w 0" ident pf "RCfg_RelayID (Rel_cfg s)" "randomToken (W_token w 0)" Minute] unfolding v
    by (simp_all add: in_memory_def)
  have res: "res = Inr ()" using False g pf i v s2 by (cases res) (auto simp: connect_def Let_def in_memory_def)
  obtain out q' where d: "DequeueFor (Lib_msg_sort L) q (ID_DomainID ident) (ID_DeviceID ident) (W_clock w 2) 100 = (out, q')" by force
  have dq: "dequeueMessages (Lib_msg_sort L) (Lib_row_sort L) (Lib_returned L) (recordConnection s2 c)
       (ID_DomainID ident) (ID_DeviceID ident) (W_clock w 2) 100 = (Inr out, (recordConnection s2 c)\<lparr>Rel_queue := q'\<rparr>)" for c
    using s2 d by (simp add: dequeueMessages_def recordConnection_def)
  have "in_memory q' (snd (connect P L w sock r s))"
    using g pf i v res dq s2 by (simp add: connect_def Let_def split_beta deliver_memory) (simp add: in_memory_def)
  moreover have "message_frame ` set out \<subseteq> set (fst (connect P L w sock r s))" if ok: "list_all sendable out" "\<forall>i. Sock_writes sock i"
  proof -
    have "\<exists>frames. fst (connect P L w sock r s) =
        Frame_Challenge (randomToken (W_token w 0)) # Frame_Ready # map message_frame out @ frames"
      by (rule connect_complete[OF g(1,2) ok(2) pf i v[unfolded res]]) (simp_all add: dq ok(1))
    then show ?thesis by auto
  qed
  moreover have "connected_device s sock = Some (ID_DomainID ident, ID_DeviceID ident)"
    using pf i by (simp add: connected_device_def)
  ultimately show ?thesis using d by (blast intro: effect_taken)
qed

lemma effect_Handler:
  assumes "in_memory q s"
  shows "\<exists>q'. in_memory q' (snd (Handler P L w sock arrival r s)) \<and>
    queue_effect L w sock (connected_device s sock) (frames_of (snd (fst (Handler P L w sock arrival r s)))) q q'"
proof -
  obtain ok l where a: "Allow (Rel_limiter s) (clientKey r) arrival = (ok, l)" by force
  let ?s = "s\<lparr>Rel_limiter := l\<rparr>"
  have m: "in_memory q ?s" using assms by simp
  have dev: "connected_device ?s sock = connected_device s sock"
    using memory_no_repo[OF assms] by (auto simp: connected_device_def connection_identity_def Let_def split: sum.split option.split)
  let ?e = "\<lambda>x :: relay_result. \<exists>q'. in_memory q' (snd x) \<and> queue_effect L w sock (connected_device s sock) (frames_of (snd (fst x))) q q'"
  have quiet: "?e x" if "in_memory q (snd x)" for x using that effect_none by blast
  have k: "?e (wellKnown P w ?s)" using m by (intro quiet) (auto simp: wellKnown_def Let_def handle_def split: sum.split)
  have ad: "?e (adminDevices r ?s)" "?e (adminConnections r ?s)"
    by (rule quiet; use m in \<open>simp add: adminDevices_def adminConnections_def only_method_def requireAdmin_def\<close>)+
  have c: "?e (only_method ''GET'' r ?s (case connect P L w sock r ?s of (frames, s) \<Rightarrow> ((Sock_status sock, Relay_Frames frames), s)))"
    using effect_connect[OF m, of P L w sock r] m effect_none by (auto simp: only_method_def split_beta dev)
  have "?e (route_request P L w sock r ?s)"
    using m k ad c quiet[OF memory_registration(1)[OF m]] quiet[OF memory_registration(2)[OF m]]
      quiet[OF memory_credentials(1)[OF m]] quiet[OF memory_credentials(2)[OF m]]
      effect_envelopes[OF m, of P w r] effect_adminMessages[OF m, of "Lib_row_sort L" "Lib_meta_sort L" w r]
      quiet[of "health ?s"] quiet[of "metrics ?s"] quiet[of "version ?s"] quiet[of "((404, Relay_Empty), ?s)"]
    unfolding route_request_def Let_def health_def metrics_def version_def by simp
  then show ?thesis using a m quiet[of "refuse 429 (errors_Retryable CodeAccessInvalid ''rate limit exceeded'') ?s"]
    by (cases ok) (simp_all add: Handler_def)
qed

section \<open>Runs without a database\<close>

text \<open>
  Requests (connections among them), one after the other, with clock readings in \<open>tick\<close> and sockets in \<open>socks\<close>, on library
  functions that keep their promises; the log holds every frame sent, with the device it was sent to.
\<close>

inductive memory_run :: "prims \<Rightarrow> (time \<Rightarrow> bool) \<Rightarrow> (Socket \<Rightarrow> bool) \<Rightarrow> RelayServer \<Rightarrow>
    ((string \<times> string) option \<times> frame) list \<Rightarrow> RelayServer \<Rightarrow> bool"
  for P tick socks s where
  memory_start: "memory_run P tick socks s [] s"
| memory_request: "memory_run P tick socks s log s' \<Longrightarrow> libs_ok L \<Longrightarrow> \<forall>i. tick (W_clock w i) \<Longrightarrow> socks sock \<Longrightarrow>
    Handler P L w sock arrival r s' = ((status, reply), s'') \<Longrightarrow>
    memory_run P tick socks s (log @ map (Pair (connected_device s' sock)) (frames_of reply)) s''"

text \<open>Every queued envelope is a JSON document, so a write fails only when the socket does.\<close>

definition queue_sendable :: "Queue \<Rightarrow> bool" where
  "queue_sendable q \<longleftrightarrow> list_all sendable (Q_messages q)"

lemma DequeueFor_set:
  assumes "sorts srt" "DequeueFor srt q dm dv now n = (out, q')"
  shows "set (live now (Q_messages q)) = set out \<union> set (Q_messages q')"
  using DequeueFor_conserves[OF assms] by (metis set_mset_mset set_mset_union)

lemma Enqueue_messages:
  "set (Q_messages (snd (Enqueue q msg now))) \<subseteq> set (Q_messages q) \<union> {msg, msg\<lparr>Msg_QueuedAt := now\<rparr>}"
  "m \<in> set (Q_messages q) \<Longrightarrow> now \<le> Msg_ExpiresAt m \<Longrightarrow> m \<in> set (Q_messages (snd (Enqueue q msg now)))"
  by (auto simp: Enqueue_def Let_def dropExpiredLocked_def recalculateBytesLocked_def live_def After_def)

lemma Snapshot_messages:
  "set (Q_messages (snd (SnapshotMetadata srt q now))) \<subseteq> set (Q_messages q)"
  "m \<in> set (Q_messages q) \<Longrightarrow> now \<le> Msg_ExpiresAt m \<Longrightarrow> m \<in> set (Q_messages (snd (SnapshotMetadata srt q now)))"
  by (auto simp: SnapshotMetadata_def Let_def recalculateBytesLocked_def live_def After_def)

lemma effect_sendable:
  assumes "queue_effect L w sock dev frames q q'" "libs_ok L" "queue_sendable q"
  shows "queue_sendable q'"
  using assms(1)
proof cases
  case effect_none
  with assms(3) show ?thesis by simp
next
  case (effect_posted msg)
  have "sendable (msg\<lparr>Msg_QueuedAt := now\<rparr>)" for now using effect_posted(2) by (simp add: sendable_def)
  with effect_posted assms(3) Enqueue_messages(1)[of q msg "W_clock w 2"] show ?thesis
    by (auto simp: queue_sendable_def list_all_iff)
next
  case (effect_listed srt)
  with assms(3) Snapshot_messages(1)[of srt q "W_clock w 0"] show ?thesis by (auto simp: queue_sendable_def list_all_iff)
next
  case (effect_taken dm dv out)
  have "sorts (Lib_msg_sort L)" using assms(2) by (simp add: libs_ok_def)
  from DequeueFor_set[OF this effect_taken(1)] assms(3) show ?thesis by (auto simp: queue_sendable_def list_all_iff live_def)
qed

text \<open>One step loses no unexpired message: it stays queued or is sent to its recipient.\<close>

lemma effect_keeps:
  assumes "queue_effect L w sock dev frames q q'" "libs_ok L" "queue_sendable q" "\<forall>i. Sock_writes sock i"
    and "msg \<in> set (Q_messages q)" "matches_for dm dv msg" "\<forall>i. W_clock w i \<le> Msg_ExpiresAt msg"
  shows "msg \<in> set (Q_messages q') \<or> dev = Some (dm, dv) \<and> message_frame msg \<in> set frames"
  using assms(1)
proof cases
  case effect_none
  with assms(5) show ?thesis by simp
next
  case (effect_posted m)
  with assms(5,7) Enqueue_messages(2) show ?thesis by simp
next
  case (effect_listed srt)
  with assms(5,7) Snapshot_messages(2) show ?thesis by simp
next
  case (effect_taken dm' dv' out)
  have s: "sorts (Lib_msg_sort L)" using assms(2) by (simp add: libs_ok_def)
  note c = DequeueFor_set[OF s effect_taken(1)]
  have l: "msg \<in> set (live (W_clock w 2) (Q_messages q))" using assms(5,7) by (simp add: live_def After_def not_less)
  have o: "list_all sendable out" using c assms(3) by (auto simp: queue_sendable_def list_all_iff live_def)
  show ?thesis
  proof (cases "msg \<in> set out")
    case True
    then have "matches_for dm' dv' msg" using DequeueFor_out(1)[OF s effect_taken(1)] by blast
    with assms(6) have "dm' = dm" "dv' = dv" by (simp_all add: matches_for_def)
    with True effect_taken(2) effect_taken(3)[OF o assms(4)] show ?thesis by blast
  qed (use l c in blast)
qed

lemma memory_run_sendable:
  assumes "memory_run P tick socks s log s'" "Rel_repo s = None" "queue_sendable (Rel_queue s)"
  shows "Rel_repo s' = None \<and> queue_sendable (Rel_queue s')"
  using assms(1)
proof (induction rule: memory_run.induct)
  case (memory_request log s' L w sock arrival r status reply s'')
  then have "in_memory (Rel_queue s') s'" by (simp add: in_memory_def)
  from effect_Handler[OF this, of P L w sock arrival r] memory_request show ?case
    by (auto simp: in_memory_def intro: effect_sendable)
qed (use assms(2,3) in simp)

lemma message_kept:
  assumes "memory_run P (\<lambda>t. t \<le> Msg_ExpiresAt msg) (\<lambda>sock. \<forall>i. Sock_writes sock i) s log s'"
    and "Rel_repo s = None" "queue_sendable (Rel_queue s)" "msg \<in> set (Q_messages (Rel_queue s))" "matches_for dm dv msg"
  shows "msg \<in> set (Q_messages (Rel_queue s')) \<or> (Some (dm, dv), message_frame msg) \<in> set log"
  using assms(1)
proof (induction rule: memory_run.induct)
  case (memory_request log s' L w sock arrival r status reply s'')
  have m: "in_memory (Rel_queue s') s'" "queue_sendable (Rel_queue s')"
    using memory_run_sendable[OF memory_request(1) assms(2,3)] by (simp_all add: in_memory_def)
  from effect_Handler[OF m(1), of P L w sock arrival r] memory_request(5)
  have "queue_effect L w sock (connected_device s' sock) (frames_of reply) (Rel_queue s') (Rel_queue s'')"
    by (auto simp: in_memory_def)
  from effect_keeps[OF this memory_request(2) m(2) memory_request(4) _ assms(5) memory_request(3)] memory_request(6) show ?case
    by auto
qed (use assms(4) in simp)

end
