(* ===== verification/Relay_Samples.thy ===== *)
theory Relay_Samples
  imports Relay_Server
begin

text \<open>
  A small relay for the worked instances of the relay's properties: its configuration, a device
  with a possession proof, a request and a socket.
\<close>

definition sample_bytes :: bytes where
  "sample_bytes = replicate 32 (CHR ''r'')"

definition sample_config :: RelayConfig where
  "sample_config = \<lparr>RCfg_DomainID = ''dom'', RCfg_RelayID = ''relay'', RCfg_BaseURL = ''https://relay'', RCfg_WebSocketURL = ''wss://relay'',
     RCfg_ProfileGate = DefaultGate ProfileLocalLab, RCfg_DB = None, RCfg_AdminToken = [], RCfg_AllowedOrigins = [],
     RCfg_TicketIssuer = None\<rparr>"

definition sample_world :: "time \<Rightarrow> World" where
  "sample_world t = \<lparr>W_clock = (\<lambda>_. t), W_token = (\<lambda>_. sample_bytes), W_uuid = (\<lambda>_. Inr (replicate 10 NUL))\<rparr>"

definition sample_request :: "string \<Rightarrow> string \<Rightarrow> bytes \<Rightarrow> Request" where
  "sample_request method token body =
     \<lparr>Req_Method = method, Req_Path = ''/'', Req_Header = (\<lambda>h. if h = ''Authorization'' then token else []),
      Req_Query = (\<lambda>_. []), Req_RemoteAddr = ''10.0.0.1:80'', Req_Body = body\<rparr>"

definition sample_libs :: Libs where
  "sample_libs = \<lparr>Lib_url_Parse = (\<lambda>_. None), Lib_msg_sort = insertion_sort, Lib_meta_sort = insertion_sort,
     Lib_row_sort = insertion_sort, Lib_returned = (\<lambda>rows. rows)\<rparr>"

definition sample_socket :: "DeviceProof \<Rightarrow> Socket" where
  "sample_socket p = \<lparr>Sock_upgraded = True, Sock_status = 101, Sock_read = MarshalProof p, Sock_writes = (\<lambda>_. True)\<rparr>"

lemma sample_token_text: "randomToken sample_bytes = ''cnJycnJycnJycnJycnJycnJycnJycnJycnJycnJycnI''"
  by code_simp

lemma sample_token:
  shows "bearerToken (sample_request m (''Bearer '' @ randomToken sample_bytes) b) = randomToken sample_bytes"
    and "randomToken sample_bytes \<noteq> []"
proof -
  have "TrimSpace (''Bearer '' @ randomToken sample_bytes) = ''Bearer '' @ randomToken sample_bytes"
    "TrimSpace (randomToken sample_bytes) = randomToken sample_bytes" "equal_fold ''Bearer '' ''Bearer ''"
    unfolding sample_token_text by code_simp+
  then show "bearerToken (sample_request m (''Bearer '' @ randomToken sample_bytes) b) = randomToken sample_bytes"
    by (simp add: bearerToken_def sample_request_def)
  show "randomToken sample_bytes \<noteq> []" by (simp add: sample_token_text)
qed

lemma sample_relay:
  obtains s where "NewRelay model_prims (replicate 32 (CHR ''s'')) sample_config 0 = Inr s" "Rel_cfg s = sample_config"
    "Rel_repo s = None" "Rel_queue s = NewQueue relayMaxQueuedBytes" "Rel_replay s = NewCache" "Rel_revoked s = {}"
proof -
  obtain d where d: "NewDevice model_prims (replicate 32 (CHR ''s'')) (RCfg_DomainID sample_config) (RCfg_RelayID sample_config @ ''-signer'') 0 = (Inr d, [])"
    using model_device by blast
  have g: "ValidateGate (DefaultGate ProfileLocalLab) = Inr ()" "ProfileLocalLab \<noteq> []" "ProfileLocalLab \<noteq> ProfileProduction"
    by (simp_all add: ValidateGate_def DefaultGate_def ProfileLocalLab_def ProfileProduction_def ProfileStaging_def)
  have c: "RCfg_ProfileGate sample_config = DefaultGate ProfileLocalLab" "RCfg_DB sample_config = None"
    "G_Profile (DefaultGate ProfileLocalLab) = ProfileLocalLab" by (simp_all add: sample_config_def DefaultGate_def)
  show thesis
    by (rule that[of "\<lparr>Rel_cfg = sample_config, Rel_signer = d, Rel_limiter = NewLimiter 120 Minute, Rel_replay = NewCache,
        Rel_queue = NewQueue relayMaxQueuedBytes, Rel_repo = None, Rel_devices = Map.empty,
        Rel_access = Map.empty, Rel_refresh = Map.empty, Rel_revoked = {}, Rel_tickets = Map.empty,
        Rel_connections = Map.empty, Rel_startedAt = 0\<rparr>"])
      (simp_all add: NewRelay_def Let_def d c g)
qed

lemma sample_proof:
  obtains d p where "NewDevice model_prims (replicate 32 (CHR ''s'')) ''dom'' ''watch'' 0 = (Inr d, [])"
    "ID_DomainID (Dev_Identity d) = ''dom''" "ID_DeviceID (Dev_Identity d) = ''watch''"
    "CreateProof model_prims d ''relay'' (randomToken sample_bytes) ''n'' 0 = Inr p"
    "DP_DeviceID p = ''watch''" "DP_Nonce p = ''n''" "DP_IssuedAt p = 0"
    "VerifyProof model_prims (Dev_Identity d) p ''relay'' (randomToken sample_bytes) 1 Minute = Inr ()"
    "and_then (MarshalProof p) (DecodeJSON proof_table no_proof) = Inr p"
proof -
  obtain d where d: "NewDevice model_prims (replicate 32 (CHR ''s'')) ''dom'' ''watch'' 0 = (Inr d, [])"
    using model_device by blast
  note D = NewDevice_ok[OF model_sig d]
  have y: "year_ok 0" by code_simp
  then obtain p where p: "CreateProof model_prims d ''relay'' (randomToken sample_bytes) ''n'' 0 = Inr p"
    using CreateProof_ok by blast
  have f: "DP_Type p = TypeDeviceProof" "DP_DomainID p = ''dom''" "DP_DeviceID p = ''watch''" "DP_Audience p = ''relay''"
    "DP_Challenge p = Base64URL sample_bytes" "DP_Nonce p = ''n''" "DP_IssuedAt p = 0" "Sig_Alg (DP_Signature p) = ''Ed25519''"
    "\<exists>x. Sig_KID (DP_Signature p) = Base64URL x" "\<exists>x. Sig_Value (DP_Signature p) = Base64URL x"
    using p d by (auto simp: CreateProof_def Let_def and_then_Inr_iff D(2,3) randomToken_def make_signature_def NewDevice_def
        Thumbprint_def split: prod.splits sum.splits)
  have "proof_valid p"
    using f y valid_Base64URL by (auto simp: proof_valid_def proof_strings_valid_def TypeDeviceProof_def)
  then obtain ds where ds: "MarshalProof p = Inr (encode (DObj ds))" "doc_ok (DObj ds)" "doc_depth (DObj ds) \<le> maxNestingDepth"
    "set_members proof_table (map (\<lambda>(k, d). (to_valid k, valid_doc d)) ds) no_proof = Inr p"
    by (rule Marshal_proof)
  have r: "and_then (MarshalProof p) (DecodeJSON proof_table no_proof) = Inr p"
    using DecodeJSON_encode[OF ds(2,3), of "[]" proof_table no_proof] ds(1,4) by (simp del: encode.simps doc_ok.simps doc_depth.simps)
  have v: "VerifyProof model_prims (Dev_Identity d) p ''relay'' (randomToken sample_bytes) 1 Minute = Inr ()"
    by (rule CreateProof_verifies[OF model_sig D(1) p]) (simp_all add: Minute_def Second_def)
  show thesis by (rule that[OF d D(2,3) p f(3,6,7) v r])
qed

text \<open>An envelope from a phone to the watch.\<close>

definition sample_body :: bytes where
  "sample_body = ''{\"domain_id\":\"dom\",\"message_id\":\"m\",\"sender_device_id\":\"phone\",\"recipient_device_id\":\"watch\",\"route\":{\"ttl_seconds\":60,\"priority\":1}}''"

definition sample_meta :: EnvelopeMeta where
  "sample_meta = \<lparr>EM_DomainID = ''dom'', EM_MessageID = ''m'', EM_SenderDeviceID = ''phone'', EM_RecipientDeviceID = ''watch'',
     EM_Route = \<lparr>RM_TTLSeconds = 60, RM_Priority = 1\<rparr>\<rparr>"

lemma sample_body_raw: "DecodeRaw sample_body = Inr sample_body"
  by code_simp

lemma sample_body_meta: "Unmarshal_struct meta_table no_meta sample_body = Inr sample_meta"
  by code_simp

lemma sample_body_canonical: "is_ok (Marshal sample_body)"
  by code_simp

lemma sample_body_length: "length sample_body = 133"
  by code_simp

end
