(* ===== verification/Relay_Guarantees.thy ===== *)
theory Relay_Guarantees
  imports Relay_Delivery Relay_Samples
begin

text \<open>
  The properties of the relay server, over its handlers and over every sequence of requests, with the
  lemmas that connect the handlers to the invariants.
\<close>

section \<open>Revocation\<close>

lemma revoked_creds_dead: "creds_dead dv (revoke_device_credentials dv m)"
  unfolding creds_dead_def
proof (intro allI impI)
  fix h c
  assume "revoke_device_credentials dv m h = Some c" "Cred_DeviceID c = dv"
  then show "Cred_Revoked c" by (cases "m h") (auto simp: revoke_device_credentials_def split: if_splits)
qed

lemma revoke_makes_dead:
  assumes "DecodeJSON (one_string ''device_id'') [] (Req_Body r) = Inr dv" "fst (fst (revokeAccess P w r s)) = 200"
  shows "dead dv (snd (revokeAccess P w r s))"
proof -
  define revoked where "revoked s = s\<lparr>Rel_revoked := insert dv (Rel_revoked s), Rel_access := revoke_device_credentials dv (Rel_access s),
    Rel_refresh := revoke_device_credentials dv (Rel_refresh s)\<rparr>" for s :: RelayServer
  define stored where "stored s = (case Rel_repo (revoked s) of
      None \<Rightarrow> answer 200 (Relay_Map [(''status'', ''revoked'')]) (revoked s)
    | Some d \<Rightarrow> handle (with_db d (\<lambda>d. then_db (RevokeDevice d (RCfg_DomainID (Rel_cfg (revoked s))) dv (W_clock w 2)) (\<lambda>_ d.
                  RevokeDeviceCredentials d (RCfg_DomainID (Rel_cfg (revoked s))) dv (W_clock w 2))) (revoked s))
                (refuse 500) (\<lambda>_. answer 200 (Relay_Map [(''status'', ''revoked'')])))" for s
  have m: "creds_dead dv (Rel_access (revoked s))" "creds_dead dv (Rel_refresh (revoked s))" "dv \<in> Rel_revoked (revoked s)" for s
    by (simp_all add: revoked_def revoked_creds_dead)
  have d: "dead dv (snd (stored s0))" if ok: "fst (fst (stored s0)) = 200" for s0
  proof (cases "Rel_repo (revoked s0)")
    case None
    with m[of s0] show ?thesis by (simp add: stored_def dead_def)
  next
    case (Some d)
    let ?dm = "RCfg_DomainID (Rel_cfg (revoked s0))"
    let ?f = "\<lambda>d. then_db (RevokeDevice d ?dm dv (W_clock w 2)) (\<lambda>_ d. RevokeDeviceCredentials d ?dm dv (W_clock w 2))"
    have st: "stored s0 = handle (with_db d ?f (revoked s0)) (refuse 500) (\<lambda>_. answer 200 (Relay_Map [(''status'', ''revoked'')]))"
      unfolding stored_def Some option.case(2) by (rule refl)
    obtain x d2 where f: "?f d = (Inr x, d2)" and s2: "snd (stored s0) = (revoked s0)\<lparr>Rel_repo := Some d2\<rparr>"
      using ok unfolding st with_db_def handle_def by (cases "?f d"; cases "fst (?f d)") (simp_all add: WriteError_def WriteJSON_def)
    from f obtain d1 where "RevokeDeviceCredentials d1 ?dm dv (W_clock w 2) = (Inr x, d2)" by (auto simp: then_db_Inr)
    then have "db_dead ?dm dv d2" by (cases x) (simp add: RevokeDeviceCredentials_dead)
    with s2 m[of s0] show ?thesis by (simp add: dead_def)
  qed
  obtain res s0 where a: "authenticateAccess P s (W_clock w 0) (W_clock w 1) r = (res, s0)" by force
  have eq: "revokeAccess P w r s = (if Req_Method r \<noteq> ''POST'' then ((405, Relay_Empty), s)
      else handle (res, s0) (\<lambda>err s. if \<not> adminAuthorized s r then refuse 401 err s else stored s)
        (\<lambda>cred s. if Cred_DeviceID cred \<noteq> dv
          then refuse 403 (errors_New CodeAccessInvalid ''access credential cannot revoke another device'') s else stored s))"
    unfolding revokeAccess_def only_method_def Let_def stored_def revoked_def assms(1) a handle_simps by (rule refl)
  have "revokeAccess P w r s = stored s0"
    using assms(2) unfolding eq by (cases res) (simp_all add: WriteError_def WriteJSON_def split: if_splits)
  with d assms(2) show ?thesis by simp
qed

lemma dead_authenticate:
  assumes "dead dv s" "authenticateAccess P s now now' r = (Inr c, s')"
  shows "Cred_DeviceID c \<noteq> dv"
proof -
  let ?h = "sha256 P (bearerToken r)"
  have m: "Cred_DeviceID c \<noteq> dv" if "Rel_access s ?h = Some c" "\<not> Cred_Revoked c" for c
    using assms(1) that by (auto simp: dead_def creds_dead_def)
  have g: "Cred_DeviceID (credential_of c) \<noteq> dv"
    if "Rel_repo s = Some d" "fst (GetAccessByHash d (RCfg_DomainID (Rel_cfg s)) ?h now) = Inr c" for d c
    using assms(1) that GetByHash_dead(2)[of "RCfg_DomainID (Rel_cfg s)" dv d ?h now c] by (auto simp: dead_def credential_of_def)
  show ?thesis using assms(2) m g
    by (auto simp: authenticateAccess_def Let_def then_db_Inr handle_def with_db_def split_beta split: option.splits if_splits sum.splits)
qed

lemma dead_refresh:
  assumes "dead dv s" "snd (fst (refreshAccess P w r s)) = Relay_Credentials a b"
  shows "Cred_DeviceID a \<noteq> dv"
proof -
  have "Cred_DeviceID a = Cred_DeviceID cred" if "snd (fst (refresh_exchange P w s' token cred)) = Relay_Credentials a b" for s' token cred
    using that by (auto simp: refresh_exchange_def handle_def issueCredentials_def Let_def then_db_def WriteError_def WriteJSON_def
        fresh_credential_def split: prod.splits sum.splits)
  with assms dead_refresh_check[OF assms(1)] show ?thesis
    by (auto simp: refreshAccess_def only_method_def handle_def WriteError_def WriteJSON_def split: if_splits sum.splits prod.splits)
qed

lemma dead_connect:
  assumes "dead dv s" "and_then (Sock_read sock) (DecodeJSON proof_table no_proof) = Inr pf" "DP_DeviceID pf = dv"
  shows "set (fst (connect P L w sock r s)) \<subseteq> {Frame_Challenge (randomToken (W_token w 0)), Frame_Closed ''access revoked or unknown''}"
proof -
  obtain i s1 where c: "connection_identity s dv = (i, s1)" by force
  have "i = None"
  proof (rule ccontr)
    assume "i \<noteq> None"
    then obtain ident where "connection_identity s dv = (Some ident, s1)" using c by auto
    from connection_identity_found(1)[OF this] assms(1) show False by (simp add: dead_def)
  qed
  with assms(2,3) c show ?thesis by (auto simp: connect_def Let_def send_def)
qed

lemma revoke_no_repo:
  assumes "Rel_repo s = None"
  shows "Rel_repo (snd (revokeAccess P w r s)) = None \<and> Rel_cfg (snd (revokeAccess P w r s)) = Rel_cfg s"
proof -
  obtain res s0 where a: "authenticateAccess P s (W_clock w 0) (W_clock w 1) r = (res, s0)" by force
  have s0: "Rel_repo s0 = None" "Rel_cfg s0 = Rel_cfg s"
    using no_repo_authenticate[OF assms, of P "W_clock w 0" "W_clock w 1" r] unfolding a by simp_all
  show ?thesis unfolding revokeAccess_def only_method_def Let_def a using assms s0
    by (cases "DecodeJSON (one_string ''device_id'') [] (Req_Body r)"; cases res) (simp_all add: a[unfolded One_nat_def])
qed

section \<open>Delivery\<close>

lemma queued_message_sent:
  assumes "libs_ok L" "Rel_repo s = None" "msg \<in> set (Q_messages (Rel_queue s))" "matches_for dm dv msg" "W_clock w 2 \<le> Msg_ExpiresAt msg"
    and "Req_Method r = ''GET''" "Upgrade L sock r s" "\<forall>i. Sock_writes sock i"
    and "and_then (Sock_read sock) (DecodeJSON proof_table no_proof) = Inr pf"
    and "connection_identity s (DP_DeviceID pf) = (Some ident, s)" "ID_DomainID ident = dm" "ID_DeviceID ident = dv"
    and "fst (verifyProof P s (W_clock w 0) ident pf (RCfg_RelayID (Rel_cfg s)) (randomToken (W_token w 0)) Minute) = Inr ()"
    and "length (filter (matches_for dm dv) (Q_messages (Rel_queue s))) \<le> 100" "queue_sendable (Rel_queue s)"
  shows "message_frame msg \<in> set (fst (connect P L w sock r s))"
proof -
  obtain s2 where v: "verifyProof P s (W_clock w 0) ident pf (RCfg_RelayID (Rel_cfg s)) (randomToken (W_token w 0)) Minute = (Inr (), s2)"
    using assms(13) by (metis prod.collapse)
  have q2: "Rel_queue s2 = Rel_queue s" "Rel_repo s2 = None"
    using verifyProof_messages[of s P "W_clock w 0" ident pf "RCfg_RelayID (Rel_cfg s)" "randomToken (W_token w 0)" Minute] assms(2)
    unfolding v by (simp_all add: same_messages_def)
  obtain out q where d: "DequeueFor (Lib_msg_sort L) (Rel_queue s) dm dv (W_clock w 2) 100 = (out, q)" by force
  have srt: "sorts (Lib_msg_sort L)" using assms(1) by (simp add: libs_ok_def)
  have out: "msg \<in> set out" using DequeueFor_all[OF srt d, of msg] assms(3-5,14) by (simp add: live_def After_def)
  have sendable: "list_all sendable out"
    using DequeueFor_set[OF srt d] assms(15) by (auto simp: queue_sendable_def list_all_iff live_def)
  have "\<exists>frames. fst (connect P L w sock r s) =
      Frame_Challenge (randomToken (W_token w 0)) # Frame_Ready # map message_frame out @ frames"
    by (rule connect_complete[OF assms(6-10) v _ sendable])
       (simp add: dequeueMessages_def recordConnection_def q2 assms(11,12) d)
  with out show ?thesis by force
qed

lemma sample_libs_ok: "libs_ok sample_libs"
  by (simp add: libs_ok_def sample_libs_def insertion_sort_sorts permutes_rows_def)

lemma posted_sendable:
  assumes "Rel_repo s = None" "queue_sendable (Rel_queue s)" "envelopes P w r s = (response, s')"
  shows "Rel_repo s' = None" "queue_sendable (Rel_queue s')"
proof -
  fix sock
  have "in_memory (Rel_queue s) s" using assms(1) by (simp add: in_memory_def)
  from effect_envelopes[OF this, of P w r sample_libs sock None "[]"] obtain q
    where "in_memory q s'" "queue_effect sample_libs w sock None [] (Rel_queue s) q" using assms(3) by auto
  then show "Rel_repo s' = None" "queue_sendable (Rel_queue s')"
    using effect_sendable[OF _ sample_libs_ok assms(2)] by (auto simp: in_memory_def)
qed

section \<open>A worked relay\<close>

lemma sample_connection:
  assumes "Rel_cfg s = sample_config" "Rel_repo s = None" "Rel_replay s = NewCache" "Rel_revoked s = {}"
    and "Rel_devices s ''watch'' = Some (Dev_Identity d)" "DP_Nonce p = ''n''"
    and "VerifyProof model_prims (Dev_Identity d) p ''relay'' (randomToken sample_bytes) 1 Minute = Inr ()"
  shows "Upgrade sample_libs (sample_socket p) (sample_request ''GET'' [] []) s"
    and "connection_identity s ''watch'' = (Some (Dev_Identity d), s)"
    and "fst (verifyProof model_prims s 1 (Dev_Identity d) p ''relay'' (randomToken sample_bytes) Minute) = Inr ()"
proof -
  have b: "TrimSpace [] = []" "\<not> blank ''n''" by code_simp+
  show "Upgrade sample_libs (sample_socket p) (sample_request ''GET'' [] []) s"
    by (simp add: Upgrade_def sample_socket_def originAllowed_def sample_request_def b)
  show "connection_identity s ''watch'' = (Some (Dev_Identity d), s)" using assms by (simp add: connection_identity_def)
  show "fst (verifyProof model_prims s 1 (Dev_Identity d) p ''relay'' (randomToken sample_bytes) Minute) = Inr ()"
    using assms b by (simp add: verifyProof_def then_db_def Let_def Use_def NewCache_def expire_items_def)
qed

definition device_body :: bytes where
  "device_body = encode (DObj [(''device_id'', DStr ''watch'')])"

lemma device_body_read: "DecodeJSON (one_string ''device_id'') [] device_body = Inr ''watch''"
proof -
  have "DecodeJSON (one_string ''device_id'') [] (encode (DObj [(''device_id'', DStr ''watch'')]) @ []) = Inr ''watch''"
    by (subst DecodeJSON_encode) (simp_all add: maxNestingDepth_def one_string_def find_setter_exact to_valid_ascii del: to_valid.simps(2))
  then show ?thesis by (simp only: device_body_def append_Nil2)
qed

lemma sample_revocation:
  assumes "Rel_cfg s = sample_config" "Rel_repo s = None"
  shows "fst (fst (revokeAccess model_prims w (sample_request ''POST'' [] device_body) s)) = 200"
proof -
  have t: "TrimSpace [] = []" by code_simp
  have a: "adminAuthorized s r" for r using assms(1) t by (simp add: adminAuthorized_def admin_authorized_iff sample_config_def)
  have "bearerToken (sample_request ''POST'' [] device_body) = []" using t by (simp add: bearerToken_def sample_request_def)
  with a assms show ?thesis
    by (simp add: revokeAccess_def only_method_def sample_request_def device_body_read authenticateAccess_def Let_def WriteJSON_def)
qed

section \<open>Properties\<close>

text \<open>
  C4. A revocation locks a device out for good: once a revocation of a device is confirmed, then through every
  sequence of requests and connections that does not register the device anew, and whichever
  database statements fail, no access credential authenticates it, no refresh credential yields
  credentials for it, and a connection in its name receives nothing but the challenge and the refusal.
\<close>

theorem revoked_device_locked_out:
  assumes "DecodeJSON (one_string ''device_id'') [] (Req_Body r) = Inr dv" "fst (fst (revokeAccess P w r s)) = 200"
    and "relay_run P (\<lambda>_. True) (\<lambda>dv'. dv' \<noteq> dv) (snd (revokeAccess P w r s)) s'"
  shows "(\<forall>now now' r' c s2. authenticateAccess P s' now now' r' = (Inr c, s2) \<longrightarrow> Cred_DeviceID c \<noteq> dv) \<and>
     (\<forall>w' r' a b. snd (fst (refreshAccess P w' r' s')) = Relay_Credentials a b \<longrightarrow> Cred_DeviceID a \<noteq> dv) \<and>
     (\<forall>L w' sock r' pf. and_then (Sock_read sock) (DecodeJSON proof_table no_proof) = Inr pf \<longrightarrow> DP_DeviceID pf = dv \<longrightarrow>
        set (fst (connect P L w' sock r' s')) \<subseteq> {Frame_Challenge (randomToken (W_token w' 0)), Frame_Closed ''access revoked or unknown''})"
proof -
  have d: "dead dv s'"
    by (rule relay_run_keeps[OF assms(3) revoked_device.relay_invariant_axioms revoke_makes_dead[OF assms(1,2)]])
  show ?thesis
    by (intro conjI allI impI) (erule dead_authenticate[OF d] dead_refresh[OF d] dead_connect[OF d], assumption?)+
qed

theorem revoked_device_locked_out_witness:
  "\<exists>s. NewRelay model_prims (replicate 32 (CHR ''s'')) sample_config 0 = Inr s \<and>
     (let s1 = snd (issueCredentials model_prims s 0 sample_bytes sample_bytes (Inr []) (Inr []) ''dom'' ''watch'');
          r = sample_request ''POST'' (''Bearer '' @ randomToken sample_bytes) [];
          s2 = snd (revokeAccess model_prims (sample_world 1) (sample_request ''POST'' [] device_body) s1)
      in is_ok (fst (authenticateAccess model_prims s1 1 1 r)) \<and>
         (\<forall>c s3. authenticateAccess model_prims s2 1 1 r = (Inr c, s3) \<longrightarrow> Cred_DeviceID c \<noteq> ''watch''))"
proof -
  obtain s where s: "NewRelay model_prims (replicate 32 (CHR ''s'')) sample_config 0 = Inr s" "Rel_cfg s = sample_config" "Rel_repo s = None"
    by (rule sample_relay)
  define s1 where "s1 = snd (issueCredentials model_prims s 0 sample_bytes sample_bytes (Inr []) (Inr []) ''dom'' ''watch'')"
  let ?r = "sample_request ''POST'' (''Bearer '' @ randomToken sample_bytes) []"
  have s1: "Rel_cfg s1 = sample_config" "Rel_repo s1 = None" using s by (simp_all add: s1_def issueCredentials_def Let_def then_db_def)
  note t = sample_token
  have np: "\<not> production s1" using s1(1) by (simp add: production_def sample_config_def DefaultGate_def ProfileLocalLab_def ProfileProduction_def)
  have "Rel_access s1 (sha256 model_prims (randomToken sample_bytes)) =
      Some (fresh_credential model_prims ''dom'' ''watch'' (randomToken sample_bytes) (Add 0 (15 * Minute)))"
    using s by (simp add: s1_def issueCredentials_def Let_def then_db_def fresh_credential_def)
  then have ok: "is_ok (fst (authenticateAccess model_prims s1 1 1 ?r))"
    using t np by (simp add: authenticateAccess_def Let_def fresh_credential_def verifyAccessProof_def production_def Before_def After_def
        Add_def Minute_def Second_def then_db_def)
  have "\<forall>now now' r' c s2. authenticateAccess model_prims (snd (revokeAccess model_prims (sample_world 1) (sample_request ''POST'' [] device_body) s1))
      now now' r' = (Inr c, s2) \<longrightarrow> Cred_DeviceID c \<noteq> ''watch''"
    using revoked_device_locked_out[OF _ sample_revocation[OF s1] relay_run.run_start, of "''watch''"]
    by (simp add: device_body_read sample_request_def)
  with s(1) ok show ?thesis unfolding Let_def s1_def by blast
qed

text \<open>
  C7. A possession proof is good once: after the relay has accepted a proof, then through every sequence of requests and
  connections before the proof expires, it accepts no proof with the same domain, device, audience
  and nonce, with the replay cache as with the nonce table, and whichever statements fail. (The table
  keeps the expiry in microseconds.)
\<close>

theorem proof_not_replayed:
  assumes "fst (verifyProof P s now ident p aud ch ttl) = Inr ()"
    and "relay_run P (\<lambda>t. t < pg_time (Add (DP_IssuedAt p) ttl)) (\<lambda>_. True) (snd (verifyProof P s now ident p aud ch ttl)) s'"
    and "now' < pg_time (Add (DP_IssuedAt p) ttl)"
    and "DP_DomainID q = DP_DomainID p" "DP_DeviceID q = DP_DeviceID p" "DP_Audience q = DP_Audience p" "DP_Nonce q = DP_Nonce p"
  shows "fst (verifyProof P s' now' ident' q aud' ch' ttl') \<noteq> Inr ()"
proof -
  have "proof_blocked P p (pg_time (Add (DP_IssuedAt p) ttl)) s'"
    by (rule relay_run_keeps[OF assms(2) used_proof.relay_invariant_axioms verifyProof_blocks[OF assms(1)]])
  from blocked_proof_refused[OF this assms(3-7)] show ?thesis .
qed

theorem proof_not_replayed_witness:
  "\<exists>s d p. NewRelay model_prims (replicate 32 (CHR ''s'')) sample_config 0 = Inr s \<and>
     CreateProof model_prims d ''relay'' (randomToken sample_bytes) ''n'' 0 = Inr p \<and>
     fst (verifyProof model_prims s 1 (Dev_Identity d) p ''relay'' (randomToken sample_bytes) Minute) = Inr () \<and>
     fst (verifyProof model_prims
       (snd (Handler model_prims sample_libs (sample_world 2) (sample_socket p) 2 (sample_request ''GET'' [] [])
         (snd (verifyProof model_prims s 1 (Dev_Identity d) p ''relay'' (randomToken sample_bytes) Minute))))
       3 (Dev_Identity d) p ''relay'' (randomToken sample_bytes) Minute) \<noteq> Inr ()"
proof -
  obtain s where s: "NewRelay model_prims (replicate 32 (CHR ''s'')) sample_config 0 = Inr s" "Rel_cfg s = sample_config"
    "Rel_repo s = None" "Rel_replay s = NewCache" "Rel_revoked s = {}" by (rule sample_relay)
  obtain d p where p: "CreateProof model_prims d ''relay'' (randomToken sample_bytes) ''n'' 0 = Inr p" "DP_Nonce p = ''n''" "DP_IssuedAt p = 0"
    "VerifyProof model_prims (Dev_Identity d) p ''relay'' (randomToken sample_bytes) 1 Minute = Inr ()" by (rule sample_proof)
  have "\<not> blank ''n''" by code_simp
  then have ok: "fst (verifyProof model_prims s 1 (Dev_Identity d) p ''relay'' (randomToken sample_bytes) Minute) = Inr ()"
    using s p by (simp add: verifyProof_def then_db_def Let_def Use_def NewCache_def expire_items_def)
  let ?e = "pg_time (Add (DP_IssuedAt p) Minute)"
  have e: "3 < ?e" by (simp add: p(3) pg_time_def Add_def Minute_def Second_def)
  have "relay_run model_prims (\<lambda>t. t < ?e) (\<lambda>_. True) (snd (verifyProof model_prims s 1 (Dev_Identity d) p ''relay'' (randomToken sample_bytes) Minute))
    (snd (Handler model_prims sample_libs (sample_world 2) (sample_socket p) 2 (sample_request ''GET'' [] [])
      (snd (verifyProof model_prims s 1 (Dev_Identity d) p ''relay'' (randomToken sample_bytes) Minute))))"
    using e by (intro relay_run.intros) (simp_all add: sample_world_def)
  from proof_not_replayed[OF ok this e refl refl refl refl] s(1) p(1) ok show ?thesis by blast
qed

text \<open>
  C6. The relay hands an envelope only to its recipient: every message a connection receives was pending,
  in the queue or undelivered in the database, for the device of an identity that is registered and not
  revoked, and that answered the fresh challenge of this connection with a valid proof; the request had
  an admissible origin. What it receives is the pending envelope as \<^verbatim>\<open>WriteJSON\<close> encodes it, which reads as the
  same document.
\<close>

theorem messages_only_to_recipient:
  assumes "libs_ok L" "message_ids_distinct s" "Frame_Message m e \<in> set (fst (connect P L w sock r s))"
  shows "\<exists>pf ident s1. and_then (Sock_read sock) (DecodeJSON proof_table no_proof) = Inr pf \<and>
     connection_identity s (DP_DeviceID pf) = (Some ident, s1) \<and> DP_DeviceID pf \<notin> Rel_revoked s \<and>
     VerifyProof P ident pf (RCfg_RelayID (Rel_cfg s)) (randomToken (W_token w 0)) (W_clock w 0) Minute = Inr () \<and>
     (\<exists>envelope. pending_for s (ID_DomainID ident) (ID_DeviceID ident) m envelope \<and> MarshalRaw envelope = Inr e \<and>
        Unmarshal_doc e = Unmarshal_doc envelope) \<and>
     originAllowed (Lib_url_Parse L) r (RCfg_AllowedOrigins (Rel_cfg s)) [RCfg_BaseURL (Rel_cfg s), RCfg_WebSocketURL (Rel_cfg s)]"
  using assms(3)
proof (cases rule: connect_delivers_from)
  case (1 pf ident s1 s2 c ms s3 msg)
  note i = connection_identity_found[OF 1(3)]
  have v: "VerifyProof P ident pf (RCfg_RelayID (Rel_cfg s1)) (randomToken (W_token w 0)) (W_clock w 0) Minute = Inr ()"
    using verifyProof_accepts(1) 1(4) by (metis fst_conv)
  have same: "same_messages s (recordConnection s2 c)"
    using same_messages_trans[OF same_messages_trans[OF i(2) verifyProof_messages] same_messages_connection] 1(4) by (metis snd_conv)
  have "pending_for s (ID_DomainID ident) (ID_DeviceID ident) m (Msg_Envelope msg)"
    using dequeue_pending[OF assms(1) _ 1(5,6)] assms(2) 1(7) pending_same[OF same] distinct_same[OF same] by simp
  with 1(1-3,8) i v MarshalRaw_reads[OF 1(8)] show ?thesis by (auto simp: same_messages_def Upgrade_def)
qed

theorem messages_only_to_recipient_witness:
  "\<exists>s d p. NewDevice model_prims (replicate 32 (CHR ''s'')) ''dom'' ''watch'' 0 = (Inr d, []) \<and>
     Frame_Message ''m1'' ''[1]'' \<in> set (fst (connect model_prims sample_libs (sample_world 1) (sample_socket p) (sample_request ''GET'' [] []) s)) \<and>
     (\<exists>envelope. pending_for s ''dom'' ''watch'' ''m1'' envelope \<and> MarshalRaw envelope = Inr ''[1]'')"
proof -
  have one: "Unmarshal_doc ''[ 1 ]'' = Some (Inr (DArr [DNum ''1'']))" "compact False ''[ 1 ]'' = ''[1]''" by code_simp+
  then have ok: "MarshalRaw ''[ 1 ]'' = Inr ''[1]''" by (simp add: MarshalRaw_def raw_doc_def del: compact.simps)
  obtain s0 where s0: "NewRelay model_prims (replicate 32 (CHR ''s'')) sample_config 0 = Inr s0" "Rel_cfg s0 = sample_config"
    "Rel_repo s0 = None" "Rel_replay s0 = NewCache" "Rel_revoked s0 = {}" by (rule sample_relay)
  obtain d p where d: "NewDevice model_prims (replicate 32 (CHR ''s'')) ''dom'' ''watch'' 0 = (Inr d, [])" "ID_DomainID (Dev_Identity d) = ''dom''"
    "ID_DeviceID (Dev_Identity d) = ''watch''" and p: "DP_DeviceID p = ''watch''" "DP_Nonce p = ''n''"
    "VerifyProof model_prims (Dev_Identity d) p ''relay'' (randomToken sample_bytes) 1 Minute = Inr ()"
    "and_then (MarshalProof p) (DecodeJSON proof_table no_proof) = Inr p" by (rule sample_proof)
  define msg where "msg = \<lparr>Msg_DomainID = ''dom'', Msg_MessageID = ''m1'', Msg_SenderDeviceID = ''phone'', Msg_RecipientDeviceID = ''watch'',
    Msg_Envelope = ''[ 1 ]'', Msg_Priority = 1, Msg_ExpiresAt = 9, Msg_QueuedAt = 1\<rparr>"
  define s where "s = s0\<lparr>Rel_devices := [''watch'' \<mapsto> Dev_Identity d], Rel_queue := \<lparr>Q_messages = [msg], Q_maxBytes = 9, Q_currentBytes = 1\<rparr>\<rparr>"
  have s: "Rel_cfg s = sample_config" "Rel_repo s = None" "Rel_replay s = NewCache" "Rel_revoked s = {}"
    "Rel_devices s ''watch'' = Some (Dev_Identity d)" "Rel_queue s = \<lparr>Q_messages = [msg], Q_maxBytes = 9, Q_currentBytes = 1\<rparr>"
    using s0 by (simp_all add: s_def)
  note c = sample_connection[OF s(1-5) p(2,3)]
  have "message_frame msg \<in> set (fst (connect model_prims sample_libs (sample_world 1) (sample_socket p) (sample_request ''GET'' [] []) s))"
    by (rule queued_message_sent[where ident = "Dev_Identity d" and pf = p and dm = "''dom''" and dv = "''watch''"])
      (use c p s d(2,3) sample_libs_ok in \<open>simp_all add: msg_def sample_world_def sample_request_def sample_socket_def sample_config_def matches_for_def
        queue_sendable_def sendable_def ok\<close>)
  then have f: "Frame_Message ''m1'' ''[1]'' \<in> set (fst (connect model_prims sample_libs (sample_world 1) (sample_socket p) (sample_request ''GET'' [] []) s))"
    by (simp add: msg_def one(2) del: compact.simps)
  have "message_ids_distinct s" using s(2) by (simp add: message_ids_distinct_def)
  from messages_only_to_recipient[OF sample_libs_ok this f] f d show ?thesis
    using p(1,4) c(2) by (auto simp: sample_socket_def)
qed

text \<open>
  C5. An accepted envelope arrives, on a relay without a database. Take any history of requests since the queue was empty, an
  envelope the relay then accepts, and any requests and connections after that which come before the envelope
  expires and whose socket writes succeed. The envelope is then not lost: if the recipient now connects, answers the
  challenge before the expiry, every write succeeds and at most a hundred messages are queued for it, then the envelope was
  sent, to the recipient earlier in the run or on this connection. It is sent as \<^verbatim>\<open>WriteJSON\<close> encodes it, compacted and
  with HTML characters escaped, which reads as the document that was posted.
\<close>

theorem accepted_envelope_delivered:
  assumes "libs_ok L" "Rel_repo s0 = None" "Q_messages (Rel_queue s0) = []"
    and "memory_run P (\<lambda>_. True) (\<lambda>_. True) s0 earlier s" "envelopes P w r s = ((202, reply), s1)"
    and "DecodeRaw (Req_Body r) = Inr raw" "Unmarshal_struct meta_table no_meta raw = Inr meta"
    and "memory_run P (\<lambda>t. t \<le> Add (W_clock w 2) (seconds (RM_TTLSeconds (EM_Route meta)))) (\<lambda>sock. \<forall>i. Sock_writes sock i) s1 sent s'"
    and "Req_Method r' = ''GET''" "Upgrade L sock r' s'" "\<forall>i. Sock_writes sock i"
    and "and_then (Sock_read sock) (DecodeJSON proof_table no_proof) = Inr pf"
    and "connection_identity s' (DP_DeviceID pf) = (Some ident, s')"
    and "ID_DomainID ident = EM_DomainID meta" "ID_DeviceID ident = EM_RecipientDeviceID meta"
    and "fst (verifyProof P s' (W_clock w' 0) ident pf (RCfg_RelayID (Rel_cfg s')) (randomToken (W_token w' 0)) Minute) = Inr ()"
    and "W_clock w' 2 \<le> Add (W_clock w 2) (seconds (RM_TTLSeconds (EM_Route meta)))"
    and "length (filter (matches_for (EM_DomainID meta) (EM_RecipientDeviceID meta)) (Q_messages (Rel_queue s'))) \<le> 100"
  shows "\<exists>e. MarshalRaw raw = Inr e \<and> Unmarshal_doc e = Unmarshal_doc raw \<and>
     ((Some (EM_DomainID meta, EM_RecipientDeviceID meta), Frame_Message (EM_MessageID meta) e) \<in> set sent \<or>
      Frame_Message (EM_MessageID meta) e \<in> set (fst (connect P L w' sock r' s')))"
proof -
  have s: "Rel_repo s = None" "queue_sendable (Rel_queue s)"
    using memory_run_sendable[OF assms(4,2)] assms(3) by (simp_all add: queue_sendable_def)
  obtain msg where msg: "msg \<in> set (Q_messages (Rel_queue s1))" "matches_for (EM_DomainID meta) (EM_RecipientDeviceID meta) msg"
    "Msg_MessageID msg = EM_MessageID meta" "Msg_Envelope msg = raw"
    "Msg_ExpiresAt msg = Add (W_clock w 2) (seconds (RM_TTLSeconds (EM_Route meta)))"
    using envelope_queued[OF s(1) assms(5-7)] by (force simp: matches_for_def)
  have s1: "Rel_repo s1 = None" "queue_sendable (Rel_queue s1)" by (rule posted_sendable[OF s assms(5)])+
  have s': "Rel_repo s' = None" "queue_sendable (Rel_queue s')" using memory_run_sendable[OF assms(8) s1] by simp_all
  obtain e where e: "MarshalRaw raw = Inr e" using envelope_sendable[OF assms(7)] by (cases "MarshalRaw raw") auto
  have f: "message_frame msg = Frame_Message (EM_MessageID meta) e" using msg(3,4) e by (simp add: MarshalRaw_Inr)
  have "message_frame msg \<in> set (fst (connect P L w' sock r' s'))" if "msg \<in> set (Q_messages (Rel_queue s'))"
    using queued_message_sent[OF assms(1) s'(1) that msg(2) _ assms(9-16,18) s'(2)] msg(5) assms(17) by simp
  with message_kept[OF assms(8)[folded msg(5)] s1 msg(1,2)] e f MarshalRaw_reads[OF e] show ?thesis by auto
qed

theorem accepted_envelope_delivered_witness:
  "\<exists>s s' d p reply. NewDevice model_prims (replicate 32 (CHR ''s'')) ''dom'' ''watch'' 0 = (Inr d, []) \<and>
     envelopes model_prims (sample_world 1) (sample_request ''POST'' (''Bearer '' @ randomToken sample_bytes) sample_body) s = ((202, reply), s') \<and>
     (\<exists>e. MarshalRaw sample_body = Inr e \<and> Frame_Message ''m'' e \<in>
       set (fst (connect model_prims sample_libs (sample_world 1) (sample_socket p) (sample_request ''GET'' [] []) s')))"
proof -
  obtain s0 where s0: "NewRelay model_prims (replicate 32 (CHR ''s'')) sample_config 0 = Inr s0" "Rel_cfg s0 = sample_config"
    "Rel_repo s0 = None" "Rel_queue s0 = NewQueue relayMaxQueuedBytes" "Rel_replay s0 = NewCache" "Rel_revoked s0 = {}" by (rule sample_relay)
  obtain d p where d: "NewDevice model_prims (replicate 32 (CHR ''s'')) ''dom'' ''watch'' 0 = (Inr d, [])" "ID_DomainID (Dev_Identity d) = ''dom''"
    "ID_DeviceID (Dev_Identity d) = ''watch''" and p: "DP_DeviceID p = ''watch''" "DP_Nonce p = ''n''"
    "VerifyProof model_prims (Dev_Identity d) p ''relay'' (randomToken sample_bytes) 1 Minute = Inr ()"
    "and_then (MarshalProof p) (DecodeJSON proof_table no_proof) = Inr p" by (rule sample_proof)
  define cred where "cred = fresh_credential model_prims ''dom'' ''phone'' (randomToken sample_bytes) Minute"
  define s where "s = s0\<lparr>Rel_devices := [''watch'' \<mapsto> Dev_Identity d],
    Rel_access := [sha256 model_prims (randomToken sample_bytes) \<mapsto> cred]\<rparr>"
  let ?r = "sample_request ''POST'' (''Bearer '' @ randomToken sample_bytes) sample_body"
  have a: "authenticateAccess model_prims s 1 1 ?r = (Inr cred, s)"
    using s0 sample_token(1)[of "''POST''" sample_body] sample_token(2)
    by (simp add: authenticateAccess_def Let_def s_def cred_def fresh_credential_def verifyAccessProof_def production_def
        sample_config_def DefaultGate_def ProfileLocalLab_def ProfileProduction_def After_def Before_def Minute_def Second_def then_db_def)
  define msg where "msg = \<lparr>Msg_DomainID = ''dom'', Msg_MessageID = ''m'', Msg_SenderDeviceID = ''phone'', Msg_RecipientDeviceID = ''watch'',
    Msg_Envelope = sample_body, Msg_Priority = 1, Msg_ExpiresAt = Add 1 (seconds 60), Msg_QueuedAt = 1\<rparr>"
  define s' where "s' = s\<lparr>Rel_queue := \<lparr>Q_messages = [msg], Q_maxBytes = relayMaxQueuedBytes, Q_currentBytes = 133\<rparr>\<rparr>"
  have v: "validateEnvelopeMeta s ''dom'' ''m'' ''phone'' ''watch'' 60 1 = Inr ()" "\<not> blank ''m''"
  proof -
    have "\<not> blank ''m''" "\<not> blank ''phone''" "\<not> blank ''watch''" by code_simp+
    then show "validateEnvelopeMeta s ''dom'' ''m'' ''phone'' ''watch'' 60 1 = Inr ()" "\<not> blank ''m''"
      using s0(2) by (simp_all add: validateEnvelopeMeta_def s_def sample_config_def)
  qed
  obtain canon where canon: "Marshal sample_body = Inr canon" using sample_body_canonical by (cases "Marshal sample_body") auto
  obtain reply where e: "envelopes model_prims (sample_world 1) ?r s = ((202, reply), s')"
    using s0 v canon a
    by (auto simp: envelopes_def only_method_def sample_world_def sample_request_def sample_body_raw sample_body_meta sample_meta_def
        Enqueue_def Let_def s'_def msg_def s_def cred_def fresh_credential_def WriteJSON_def sample_body_length
        NewQueue_def dropExpiredLocked_def recalculateBytesLocked_def live_def relayMaxQueuedBytes_def IsZero_def)
  have s': "Rel_cfg s' = sample_config" "Rel_repo s' = None" "Rel_replay s' = NewCache" "Rel_revoked s' = {}"
    "Rel_devices s' ''watch'' = Some (Dev_Identity d)" "Q_messages (Rel_queue s') = [msg]" "Rel_repo s = None"
    "Q_messages (Rel_queue s) = []"
    using s0 by (simp_all add: s'_def s_def NewQueue_def)
  note c = sample_connection[OF s'(1-5) p(2,3)]
  have "\<exists>e. MarshalRaw sample_body = Inr e \<and> Unmarshal_doc e = Unmarshal_doc sample_body \<and>
      ((Some (EM_DomainID sample_meta, EM_RecipientDeviceID sample_meta), Frame_Message (EM_MessageID sample_meta) e) \<in> set [] \<or>
       Frame_Message (EM_MessageID sample_meta) e \<in>
         set (fst (connect model_prims sample_libs (sample_world 1) (sample_socket p) (sample_request ''GET'' [] []) s')))"
    by (rule accepted_envelope_delivered[OF sample_libs_ok s'(7,8) memory_start e _ sample_body_meta memory_start _ c(1)])
      (use c p d s' in \<open>simp_all add: sample_body_raw sample_world_def sample_request_def sample_socket_def sample_config_def sample_meta_def
         msg_def seconds_def Add_def Second_def wrap_int64_def\<close>)
  with d(1) e show ?thesis by (auto simp: sample_meta_def)
qed

text \<open>
  C36. The exchange of a refresh credential is not atomic: if a device is revoked between the relay's check of its
  refresh credential and the exchange, the exchange still issues credentials, and outside the
  production profile (without a database) the new access credential authenticates the revoked device
  until it expires.
\<close>

theorem refresh_races_revocation:
  assumes "Rel_repo s = None" "\<not> production s" "refresh_check P w s token = (Inr cred, s)"
    and "DecodeJSON (one_string ''device_id'') [] (Req_Body r) = Inr (Cred_DeviceID cred)"
    and "revokeAccess P w' r s = ((200, reply), s1)"
    and "bearerToken r' = randomToken (W_token w 0)" "bearerToken r' \<noteq> []" "now < Add (W_clock w 4) (15 * Minute)"
  shows "\<exists>a b s2. refresh_exchange P w s1 token cred = ((200, Relay_Credentials a b), s2) \<and>
     Cred_DeviceID a = Cred_DeviceID cred \<and> Cred_DeviceID cred \<in> Rel_revoked s2 \<and> fst (authenticateAccess P s2 now now' r') = Inr a"
proof -
  have rv: "Cred_DeviceID cred \<in> Rel_revoked s1"
    using revoke_makes_dead[OF assms(4), of P w' s] assms(5) by (simp add: dead_def)
  have s1: "Rel_repo s1 = None" "Rel_cfg s1 = Rel_cfg s"
    using revoke_no_repo[OF assms(1), of P w' r] unfolding assms(5) by simp_all
  define s1' where "s1' = (case Rel_refresh s1 (sha256 P token) of
    Some cred \<Rightarrow> s1\<lparr>Rel_refresh := (Rel_refresh s1)(sha256 P token \<mapsto> cred\<lparr>Cred_Revoked := True\<rparr>)\<rparr> | None \<Rightarrow> s1)"
  have s1': "Rel_repo s1' = None" "Rel_cfg s1' = Rel_cfg s" "Cred_DeviceID cred \<in> Rel_revoked s1'"
    using s1 rv by (simp_all add: s1'_def split: option.split)
  define a where "a = fresh_credential P (Cred_DomainID cred) (Cred_DeviceID cred) (randomToken (W_token w 0)) (Add (W_clock w 4) (15 * Minute))"
  define b where "b = fresh_credential P (Cred_DomainID cred) (Cred_DeviceID cred) (randomToken (W_token w 1)) (Add (W_clock w 4) (24 * Hour))"
  define s2 where "s2 = s1'\<lparr>Rel_access := (Rel_access s1')(Cred_Hash a \<mapsto> a), Rel_refresh := (Rel_refresh s1')(Cred_Hash b \<mapsto> b)\<rparr>"
  have spend: "revokeRefreshCredential P s1 token (W_clock w 3) = (Inr (), s1')"
    using s1'(1) unfolding revokeRefreshCredential_def Let_def s1'_def[symmetric] by simp
  have issue: "issueCredentials P s1' (W_clock w 4) (W_token w 0) (W_token w 1) (W_uuid w 0) (W_uuid w 1) (Cred_DomainID cred) (Cred_DeviceID cred)
      = (Inr (a, b), s2)"
    unfolding issueCredentials_def Let_def a_def[symmetric] b_def[symmetric] s2_def by (simp add: s1'(1))
  have "refresh_exchange P w s1 token cred = ((200, Relay_Credentials a b), s2)"
    unfolding refresh_exchange_def spend issue handle_simps by (simp add: WriteJSON_def issue)
  moreover have "fst (authenticateAccess P s2 now now' r') = Inr a"
    using assms(2,6-8) s1'
    by (simp add: authenticateAccess_def Let_def s2_def a_def fresh_credential_def verifyAccessProof_def production_def After_def Before_def)
  moreover have "Cred_DeviceID a = Cred_DeviceID cred" "Cred_DeviceID cred \<in> Rel_revoked s2"
    using s1'(3) by (simp_all add: a_def s2_def fresh_credential_def)
  ultimately show ?thesis by blast
qed

theorem refresh_races_revocation_witness:
  "\<exists>s cred s1 a b s2. Cred_DeviceID cred = ''watch'' \<and>
     refresh_check model_prims (sample_world 1) s ''token'' = (Inr cred, s) \<and>
     snd (revokeAccess model_prims (sample_world 1) (sample_request ''POST'' [] device_body) s) = s1 \<and>
     refresh_exchange model_prims (sample_world 1) s1 ''token'' cred = ((200, Relay_Credentials a b), s2) \<and> ''watch'' \<in> Rel_revoked s2 \<and>
     fst (authenticateAccess model_prims s2 2 2 (sample_request ''GET'' (''Bearer '' @ randomToken sample_bytes) [])) = Inr a"
proof -
  obtain s0 where s0: "NewRelay model_prims (replicate 32 (CHR ''s'')) sample_config 0 = Inr s0" "Rel_cfg s0 = sample_config" "Rel_repo s0 = None"
    by (rule sample_relay)
  define cred where "cred = fresh_credential model_prims ''dom'' ''watch'' ''token'' Minute"
  define s where "s = s0\<lparr>Rel_refresh := [sha256 model_prims ''token'' \<mapsto> cred]\<rparr>"
  have s: "Rel_cfg s = sample_config" "Rel_repo s = None" "\<not> production s"
    using s0 by (simp_all add: s_def production_def sample_config_def DefaultGate_def ProfileLocalLab_def ProfileProduction_def)
  have c: "refresh_check model_prims (sample_world 1) s ''token'' = (Inr cred, s)"
    by (simp add: refresh_check_def Let_def s_def cred_def fresh_credential_def sample_world_def After_def Minute_def Second_def)
  let ?r = "sample_request ''POST'' [] device_body" and ?r' = "sample_request ''GET'' (''Bearer '' @ randomToken sample_bytes) []"
  have dv: "DecodeJSON (one_string ''device_id'') [] (Req_Body ?r) = Inr (Cred_DeviceID cred)"
    by (simp add: device_body_read sample_request_def cred_def fresh_credential_def)
  obtain reply s1 where r: "revokeAccess model_prims (sample_world 1) ?r s = ((200, reply), s1)"
    using sample_revocation[OF s(1,2), of "sample_world 1"] by (metis prod.collapse)
  have "bearerToken ?r' = randomToken (W_token (sample_world 1) 0)" "bearerToken ?r' \<noteq> []" "2 < Add (W_clock (sample_world 1) 4) (15 * Minute)"
    by (simp_all add: sample_token[simplified] sample_world_def Add_def Minute_def Second_def)
  then obtain a b s2 where x: "refresh_exchange model_prims (sample_world 1) s1 ''token'' cred = ((200, Relay_Credentials a b), s2)"
    "Cred_DeviceID cred \<in> Rel_revoked s2" "fst (authenticateAccess model_prims s2 2 2 ?r') = Inr a"
    using refresh_races_revocation[OF s(2,3) c dv r, of ?r' 2 2] by blast
  have w: "Cred_DeviceID cred = ''watch''" by (simp add: cred_def fresh_credential_def)
  have "snd (revokeAccess model_prims (sample_world 1) ?r s) = s1" unfolding r by simp
  with w c x(1,3) x(2)[unfolded w] show ?thesis by blast
qed

end
