(* ===== verification/Trust_Repository.thy ===== *)
theory Trust_Repository
  imports Repository Json_Text
begin

text \<open>
  \<^verbatim>\<open>pkg/server/repository/trust.go\<close>: the tables of the trust root and every statement on them, with the
  conflict clauses of the SQL and the constraints of \<^verbatim>\<open>migrations/0001_init.sql\<close>. Identifiers compare as
  their canonical texts.
\<close>

section \<open>Tables\<close>

record TrustDevice =
  TDev_ID :: string
  TDev_DomainID :: string
  TDev_DeviceID :: string
  TDev_IdentityRaw :: bytes
  TDev_IdentityCanonical :: bytes
  TDev_PublicKeyThumbprint :: string
  TDev_Status :: string
  TDev_DeviceRecordVersion :: int
  TDev_RevocationEpoch :: int
  TDev_CreatedAt :: time
  TDev_UpdatedAt :: time

record TrustGrant =
  TGr_ID :: string
  TGr_DomainID :: string
  TGr_GrantID :: string
  TGr_SubjectDeviceID :: string
  TGr_Audience :: string
  TGr_ConfirmationThumbprint :: string
  TGr_GrantRaw :: bytes
  TGr_GrantCanonical :: bytes
  TGr_NotBefore :: time
  TGr_ExpiresAt :: time
  TGr_RevocationEpoch :: int
  TGr_RevokedAt :: "time option"

record TrustRevocation =
  TRev_ID :: string
  TRev_DomainID :: string
  TRev_SubjectType :: string
  TRev_SubjectID :: string
  TRev_RevocationEpoch :: int
  TRev_Reason :: string
  TRev_CreatedAt :: time

record TrustTables =
  TT_devices :: "TrustDevice list"
  TT_grants :: "TrustGrant list"
  TT_revocations :: "TrustRevocation list"
  TT_pop_replay_cache :: "NonceRow list"

type_synonym trust_db = "TrustTables db"

definition no_trust_tables :: TrustTables where
  "no_trust_tables = \<lparr>TT_devices = [], TT_grants = [], TT_revocations = [], TT_pop_replay_cache = []\<rparr>"

abbreviation on_trust_devices :: "(TrustDevice list, 'a) statement \<Rightarrow> (TrustTables, 'a) statement" where
  "on_trust_devices \<equiv> on_table TT_devices (\<lambda>rows t. t\<lparr>TT_devices := rows\<rparr>)"

abbreviation on_grants :: "(TrustGrant list, 'a) statement \<Rightarrow> (TrustTables, 'a) statement" where
  "on_grants \<equiv> on_table TT_grants (\<lambda>rows t. t\<lparr>TT_grants := rows\<rparr>)"

abbreviation on_revocations :: "(TrustRevocation list, 'a) statement \<Rightarrow> (TrustTables, 'a) statement" where
  "on_revocations \<equiv> on_table TT_revocations (\<lambda>rows t. t\<lparr>TT_revocations := rows\<rparr>)"

section \<open>Devices\<close>

definition device_is :: "string \<Rightarrow> string \<Rightarrow> TrustDevice \<Rightarrow> bool" where
  "device_is domainID deviceID r \<longleftrightarrow> TDev_DomainID r = domainID \<and> TDev_DeviceID r = deviceID"

definition SubmitDevice :: "trust_db \<Rightarrow> TrustDevice \<Rightarrow> unit result \<times> trust_db" where
  "SubmitDevice d device =
     then_db (RequireDomain (TDev_DomainID device), d) (\<lambda>_.
     Exec (on_trust_devices (\<lambda>rows.
       if TDev_Status device \<notin> {''submitted'', ''authorized'', ''revoked'', ''disabled''} \<or>
          TDev_DeviceRecordVersion device \<le> 0 \<or> TDev_RevocationEpoch device < 0
       then (Inl (PgError checkViolation), rows)
       else upsert (\<lambda>r. (TDev_DomainID r, TDev_DeviceID r)) TDev_ID
              (\<lambda>r. r\<lparr>TDev_IdentityRaw := TDev_IdentityRaw device, TDev_IdentityCanonical := TDev_IdentityCanonical device,
                    TDev_PublicKeyThumbprint := TDev_PublicKeyThumbprint device,
                    TDev_UpdatedAt := pg_time (TDev_UpdatedAt device)\<rparr>)
              (device\<lparr>TDev_CreatedAt := pg_time (TDev_CreatedAt device), TDev_UpdatedAt := pg_time (TDev_UpdatedAt device)\<rparr>)
              rows)))"

definition Trust_GetDevice :: "trust_db \<Rightarrow> string \<Rightarrow> string \<Rightarrow> TrustDevice result \<times> trust_db" where
  "Trust_GetDevice d domainID deviceID =
     then_db (RequireDomain domainID, d) (\<lambda>_. Exec (on_trust_devices (select_row (device_is domainID deviceID))))"

definition AuthorizeDevice :: "trust_db \<Rightarrow> string \<Rightarrow> string \<Rightarrow> time \<Rightarrow> TrustDevice result \<times> trust_db" where
  "AuthorizeDevice d domainID deviceID now =
     (let cond = (\<lambda>r. device_is domainID deviceID r \<and> TDev_Status r \<noteq> ''revoked'');
          upd = (\<lambda>r. r\<lparr>TDev_Status := ''authorized'', TDev_DeviceRecordVersion := TDev_DeviceRecordVersion r + 1,
                      TDev_UpdatedAt := pg_time now\<rparr>)
      in then_db (RequireDomain domainID, d) (\<lambda>_.
         Exec (on_trust_devices (\<lambda>rows.
           if list_ex (\<lambda>r. cond r \<and> \<not> int64_ok (TDev_DeviceRecordVersion r + 1)) rows then (Inl (PgError outOfRange), rows)
           else case find cond rows of
                  None \<Rightarrow> (Inl ErrNoRows, rows)
                | Some r \<Rightarrow> (Inr (upd r), map (\<lambda>r. if cond r then upd r else r) rows)))))"

definition insert_revocation :: "TrustRevocation \<Rightarrow> (TrustRevocation list, unit) statement" where
  "insert_revocation row rows =
     (if list_ex (\<lambda>r. TRev_ID r = TRev_ID row \<or>
           (TRev_DomainID r = TRev_DomainID row \<and> TRev_SubjectType r = TRev_SubjectType row \<and>
            TRev_SubjectID r = TRev_SubjectID row \<and> TRev_RevocationEpoch r = TRev_RevocationEpoch row)) rows
      then (Inl (PgError uniqueViolation), rows) else (Inr (), rows @ [row]))"

text \<open>\<^verbatim>\<open>INSERT INTO revocations ... SELECT ... FROM\<close> a table: nothing is inserted without a row.\<close>

definition revoke_from :: "(TrustTables \<Rightarrow> TrustRevocation option) \<Rightarrow> (TrustTables, unit) statement" where
  "revoke_from sel t = (case sel t of None \<Rightarrow> (Inr (), t) | Some row \<Rightarrow> on_revocations (insert_revocation row) t)"

definition Trust_RevokeDevice :: "trust_db \<Rightarrow> string \<Rightarrow> string \<Rightarrow> string \<Rightarrow> string \<Rightarrow> time \<Rightarrow> unit result \<times> trust_db" where
  "Trust_RevokeDevice d revocationID domainID deviceID reason now =
     then_db (RequireDomain domainID, d) (\<lambda>_ d.
     then_db (Exec (on_trust_devices (\<lambda>rows.
         if list_ex (\<lambda>r. device_is domainID deviceID r \<and>
              (\<not> int64_ok (TDev_DeviceRecordVersion r + 1) \<or> \<not> int64_ok (TDev_RevocationEpoch r + 1))) rows
         then (Inl (PgError outOfRange), rows)
         else update_rows (device_is domainID deviceID)
                (\<lambda>r. r\<lparr>TDev_Status := ''revoked'', TDev_DeviceRecordVersion := TDev_DeviceRecordVersion r + 1,
                      TDev_RevocationEpoch := TDev_RevocationEpoch r + 1, TDev_UpdatedAt := pg_time now\<rparr>) rows)) d) (\<lambda>_.
     Exec (revoke_from (\<lambda>t. map_option
         (\<lambda>r. \<lparr>TRev_ID = revocationID, TRev_DomainID = TDev_DomainID r, TRev_SubjectType = ''device'', TRev_SubjectID = TDev_DeviceID r,
               TRev_RevocationEpoch = TDev_RevocationEpoch r, TRev_Reason = reason, TRev_CreatedAt = pg_time now\<rparr>)
         (find (device_is domainID deviceID) (TT_devices t))))))"

section \<open>Grants\<close>

definition grant_is :: "string \<Rightarrow> string \<Rightarrow> TrustGrant \<Rightarrow> bool" where
  "grant_is domainID grantID r \<longleftrightarrow> TGr_DomainID r = domainID \<and> TGr_GrantID r = grantID"

definition StoreGrant :: "trust_db \<Rightarrow> TrustGrant \<Rightarrow> unit result \<times> trust_db" where
  "StoreGrant d grant =
     then_db (RequireDomain (TGr_DomainID grant), d) (\<lambda>_.
     Exec (on_grants (upsert (\<lambda>r. (TGr_DomainID r, TGr_GrantID r)) TGr_ID
       (\<lambda>r. r\<lparr>TGr_GrantRaw := TGr_GrantRaw grant, TGr_GrantCanonical := TGr_GrantCanonical grant,
             TGr_ExpiresAt := pg_time (TGr_ExpiresAt grant), TGr_RevocationEpoch := TGr_RevocationEpoch grant\<rparr>)
       (grant\<lparr>TGr_NotBefore := pg_time (TGr_NotBefore grant), TGr_ExpiresAt := pg_time (TGr_ExpiresAt grant),
              TGr_RevokedAt := None\<rparr>))))"

definition Trust_RevokeGrant :: "trust_db \<Rightarrow> string \<Rightarrow> string \<Rightarrow> string \<Rightarrow> string \<Rightarrow> time \<Rightarrow> unit result \<times> trust_db" where
  "Trust_RevokeGrant d revocationID domainID grantID reason now =
     then_db (RequireDomain domainID, d) (\<lambda>_ d.
     then_db (Exec (on_grants (update_rows (\<lambda>r. grant_is domainID grantID r \<and> TGr_RevokedAt r = None)
         (\<lambda>r. r\<lparr>TGr_RevokedAt := Some (pg_time now)\<rparr>))) d) (\<lambda>affected d.
     if affected = 0 then (Inl ErrNoRows, d)
     else Exec (revoke_from (\<lambda>t. map_option
         (\<lambda>r. \<lparr>TRev_ID = revocationID, TRev_DomainID = TGr_DomainID r, TRev_SubjectType = ''grant'', TRev_SubjectID = TGr_GrantID r,
               TRev_RevocationEpoch = TGr_RevocationEpoch r, TRev_Reason = reason, TRev_CreatedAt = pg_time now\<rparr>)
         (find (grant_is domainID grantID) (TT_grants t)))) d))"

definition GetGrant :: "trust_db \<Rightarrow> string \<Rightarrow> string \<Rightarrow> TrustGrant result \<times> trust_db" where
  "GetGrant d domainID grantID =
     then_db (RequireDomain domainID, d) (\<lambda>_. Exec (on_grants (select_row (grant_is domainID grantID))))"

section \<open>Revocations\<close>

definition page_limit :: "int \<Rightarrow> int" where
  "page_limit limit = (if limit \<le> 0 \<or> 200 < limit then 100 else limit)"

definition select_revocations :: "string \<Rightarrow> string \<Rightarrow> int \<Rightarrow> TrustRevocation list \<Rightarrow> TrustRevocation list" where
  "select_revocations domainID afterID limit rows =
     take (nat limit) (sort_key TRev_ID (filter (\<lambda>r. TRev_DomainID r = domainID \<and> (afterID = [] \<or> afterID < TRev_ID r)) rows))"

definition ListRevocations :: "trust_db \<Rightarrow> string \<Rightarrow> string \<Rightarrow> int \<Rightarrow> TrustRevocation list result \<times> trust_db" where
  "ListRevocations d domainID afterID limit =
     then_db (RequireDomain domainID, d) (\<lambda>_.
     Exec (on_revocations (\<lambda>rows. (Inr (select_revocations domainID afterID (page_limit limit) rows), rows))))"

abbreviation trust_nonces_put :: "NonceRow list \<Rightarrow> TrustTables \<Rightarrow> TrustTables" where
  "trust_nonces_put rows t \<equiv> t\<lparr>TT_pop_replay_cache := rows\<rparr>"

definition Trust_UseProofNonce :: "prims \<Rightarrow> trust_db \<Rightarrow> string \<Rightarrow> string \<Rightarrow> string \<Rightarrow> string \<Rightarrow> time \<Rightarrow> time \<Rightarrow> bool result \<times> trust_db" where
  "Trust_UseProofNonce P d domainID deviceID audience nonce expiresAt now =
     useProofNonce P TT_pop_replay_cache trust_nonces_put d domainID deviceID audience nonce expiresAt now"

section \<open>The nonce table is a replay guard\<close>

lemma trust_nonces_lens: "table_lens TT_pop_replay_cache trust_nonces_put"
  by (simp add: table_lens_def)

interpretation trust_nonces: replay_guard "nonce_use P TT_pop_replay_cache trust_nonces_put" pg_time "nonce_blocked P TT_pop_replay_cache" for P
  by (rule nonce_guard[OF trust_nonces_lens])

end
