(* ===== verification/Trust_State.thy ===== *)
theory Trust_State
  imports Trust_Repository Uuid Httpx Identity_Codec Trust_Grant Descriptor Config Replay Ratelimit Keyring Policy
begin

text \<open>
  \<^verbatim>\<open>services/trust-root-reference/internal/trust/server.go\<close>, first part: the state of the trust root and the functions its
  handlers call: proofs, signers, the device records read from the database and what is written to
  it. As in the relay, the database is part of the state, and the clock and the random draws are
  arguments.
\<close>

section \<open>State\<close>

record TrustConfig =
  TCfg_DomainID :: string
  TCfg_TrustRootID :: string
  TCfg_BaseURL :: string
  TCfg_ProfileGate :: Gate
  TCfg_DB :: "trust_db option"
  TCfg_AdminToken :: string

record deviceRecord =
  Rec_Identity :: DeviceIdentity
  Rec_Status :: string
  Rec_DeviceRecordVersion :: "64 word"
  Rec_RevocationEpoch :: "64 word"

definition no_record :: deviceRecord where
  "no_record = \<lparr>Rec_Identity = no_identity, Rec_Status = [], Rec_DeviceRecordVersion = 0, Rec_RevocationEpoch = 0\<rparr>"

record revocationItem =
  RI_RevocationID :: string
  RI_DomainID :: string
  RI_DeviceID :: string
  RI_GrantID :: string
  RI_ReasonCode :: string
  RI_EffectiveAt :: time

record auditEntry =
  AE_EventType :: string
  AE_SubjectID :: string
  AE_CreatedAt :: time

record TrustServer =
  Tru_cfg :: TrustConfig
  Tru_signer :: Device
  Tru_limiter :: Limiter
  Tru_replay :: Cache
  Tru_policy :: Engine
  Tru_keys :: Ring
  Tru_repo :: "trust_db option"
  Tru_devices :: "string \<Rightarrow> deviceRecord option"
  Tru_grants :: "string \<Rightarrow> Grant option"
  Tru_revokedGrants :: "string set"
  Tru_revocationLog :: "revocationItem list"
  Tru_audit :: "auditEntry list"

definition NewTrustRoot :: "prims \<Rightarrow> reader \<Rightarrow> TrustConfig \<Rightarrow> time \<Rightarrow> TrustServer result" where
  "NewTrustRoot P r cfg0 now =
     and_then (fst (NewDevice P r (TCfg_DomainID cfg0) (TCfg_TrustRootID cfg0 @ ''-signer'') now)) (\<lambda>signer.
     let cfg = (if G_Profile (TCfg_ProfileGate cfg0) = [] then cfg0\<lparr>TCfg_ProfileGate := DefaultGate ProfileLocalLab\<rparr> else cfg0) in
     and_then (ValidateGate (TCfg_ProfileGate cfg)) (\<lambda>_.
     if G_Profile (TCfg_ProfileGate cfg) = ProfileProduction \<and> blank (TCfg_AdminToken cfg)
     then reject CodeConfigInvalid ''production trust root requires ISCP_ADMIN_TOKEN''
     else Inr \<lparr>Tru_cfg = cfg, Tru_signer = signer, Tru_limiter = NewLimiter 120 Minute, Tru_replay = NewCache,
               Tru_policy = NewDefault,
               Tru_keys = Ring_Add NewRing \<lparr>Key_ID = PK_KID (ID_PublicKey (Dev_Identity signer)), Key_State = StateActive,
                            Key_Private = Dev_Private signer, Key_Public = PrivateKey_Public (Dev_Private signer)\<rparr>,
               Tru_repo = TCfg_DB cfg, Tru_devices = Map.empty, Tru_grants = Map.empty, Tru_revokedGrants = {},
               Tru_revocationLog = [], Tru_audit = []\<rparr>))"

text \<open>A call of the repository.\<close>

definition with_trust_db :: "trust_db \<Rightarrow> (trust_db \<Rightarrow> 'a result \<times> trust_db) \<Rightarrow> TrustServer \<Rightarrow> 'a result \<times> TrustServer" where
  "with_trust_db d f s = (let (r, d') = f d in (r, s\<lparr>Tru_repo := Some d'\<rparr>))"

definition trust_adminAuthorized :: "TrustServer \<Rightarrow> Request \<Rightarrow> bool" where
  "trust_adminAuthorized s r = admin_authorized (TCfg_AdminToken (Tru_cfg s)) r"

section \<open>Integers of the database\<close>

text \<open>\<^verbatim>\<open>strconv.ParseUint(s, 10, 64)\<close>, and the decoding of a number into a \<^verbatim>\<open>uint64\<close> field.\<close>

definition ParseUint :: "bytes \<Rightarrow> 64 word result" where
  "ParseUint s =
     (if s = [] \<or> \<not> list_all is_digit s then Inl (StdError ''invalid syntax'')
      else if digits_value s < 18446744073709551616 then Inr (word_of_int (digits_value s))
      else Inl (StdError ''value out of range''))"

definition set_uint :: "(64 word \<Rightarrow> 'r \<Rightarrow> 'r) \<Rightarrow> 'r setter" where
  "set_uint upd d r =
     (case d of
        DNum s \<Rightarrow> (case ParseUint s of Inr i \<Rightarrow> Inr (upd i r) | Inl _ \<Rightarrow> Inl type_error)
      | DNull \<Rightarrow> Inr r
      | _ \<Rightarrow> Inl type_error)"

definition uint64ToInt64 :: "64 word \<Rightarrow> int result" where
  "uint64ToInt64 value =
     (case ParseInt (show_int (uint value)) of
        Inl _ \<Rightarrow> reject CodeTrustInvalid ''revocation epoch exceeds storage range''
      | Inr out \<Rightarrow> Inr out)"

definition int64ToUint64 :: "int \<Rightarrow> 64 word option" where
  "int64ToUint64 value =
     (if value < 0 then None
      else case ParseUint (show_int value) of Inr out \<Rightarrow> Some out | Inl _ \<Rightarrow> None)"

section \<open>Grants as JSON\<close>

definition no_grant :: Grant where
  "no_grant = \<lparr>Gr_Type = [], Gr_GrantID = [], Gr_Issuer = [], Gr_SubjectDeviceID = [], Gr_Audience = [],
     Gr_ConfirmationThumbprint = [], Gr_Permissions = None, Gr_RelayConstraints = [], Gr_NotBefore = 0, Gr_ExpiresAt = 0,
     Gr_RevocationEpoch = 0, Gr_Signature = no_signature\<rparr>"

definition grant_table :: "(string \<times> Grant setter) list" where
  "grant_table =
     [(''type'', set_string (\<lambda>x g. g\<lparr>Gr_Type := x\<rparr>)), (''grant_id'', set_string (\<lambda>x g. g\<lparr>Gr_GrantID := x\<rparr>)),
      (''issuer'', set_string (\<lambda>x g. g\<lparr>Gr_Issuer := x\<rparr>)), (''subject_device_id'', set_string (\<lambda>x g. g\<lparr>Gr_SubjectDeviceID := x\<rparr>)),
      (''audience'', set_string (\<lambda>x g. g\<lparr>Gr_Audience := x\<rparr>)),
      (''confirmation_thumbprint'', set_string (\<lambda>x g. g\<lparr>Gr_ConfirmationThumbprint := x\<rparr>)),
      (''permissions'', set_strings (\<lambda>x g. g\<lparr>Gr_Permissions := x\<rparr>)),
      (''relay_constraints'', set_strings (\<lambda>x g. g\<lparr>Gr_RelayConstraints := elems x\<rparr>)),
      (''not_before'', set_time (\<lambda>x g. g\<lparr>Gr_NotBefore := x\<rparr>)), (''expires_at'', set_time (\<lambda>x g. g\<lparr>Gr_ExpiresAt := x\<rparr>)),
      (''revocation_epoch'', set_uint (\<lambda>x g. g\<lparr>Gr_RevocationEpoch := x\<rparr>)),
      (''signature'', set_struct signature_table Gr_Signature (\<lambda>x g. g\<lparr>Gr_Signature := x\<rparr>))]"

definition MarshalGrant :: "Grant \<Rightarrow> bytes result" where
  "MarshalGrant g = json_Marshal (json_object (grant_fields g))"

section \<open>Proofs and signers\<close>

definition trust_verifyProof :: "prims \<Rightarrow> TrustServer \<Rightarrow> time \<Rightarrow> DeviceIdentity \<Rightarrow> DeviceProof \<Rightarrow> string \<Rightarrow> string \<Rightarrow> duration \<Rightarrow>
    unit result \<times> TrustServer" where
  "trust_verifyProof P s now ident prf audience challenge ttl =
     (if blank (DP_Nonce prf) then (reject CodeReplayDetected ''proof nonce is required'', s)
      else then_db (VerifyProof P ident prf audience challenge now ttl, s) (\<lambda>_ s.
        let key = join_nul [DP_DomainID prf, DP_DeviceID prf, DP_Audience prf, DP_Nonce prf];
            expiresAt = Add (DP_IssuedAt prf) ttl in
        case Tru_repo s of
          Some d \<Rightarrow>
            then_db (with_trust_db d (\<lambda>d. Trust_UseProofNonce P d (DP_DomainID prf) (DP_DeviceID prf) (DP_Audience prf)
                       (DP_Nonce prf) expiresAt now) s) (\<lambda>used s.
              if \<not> used then (reject CodeReplayDetected ''proof nonce replay detected'', s) else (Inr (), s))
        | None \<Rightarrow>
            (case Use (Tru_replay s) key expiresAt now of
               (ok, c) \<Rightarrow>
                 let s = s\<lparr>Tru_replay := c\<rparr> in
                 if \<not> ok then (reject CodeReplayDetected ''proof nonce replay detected'', s) else (Inr (), s))))"

text \<open>The identity of the trust root with one of its keys.\<close>

definition signer_identity :: "TrustConfig \<Rightarrow> string \<Rightarrow> Ed25519PublicKey \<Rightarrow> time \<Rightarrow> DeviceIdentity" where
  "signer_identity cfg kid pub now =
     \<lparr>ID_Type = TypeDeviceIdentity, ID_DomainID = TCfg_DomainID cfg, ID_DeviceID = TCfg_TrustRootID cfg @ ''-signer'',
      ID_PublicKey = \<lparr>PK_KTY = ''Ed25519'', PK_Use = ''identity-signature'', PK_KID = kid, PK_Public = Base64URL (pub_key pub)\<rparr>,
      ID_CreatedAt = now, ID_Metadata = []\<rparr>"

definition activeSigner :: "TrustServer \<Rightarrow> time \<Rightarrow> Device result" where
  "activeSigner s now =
     and_then (Active (Tru_keys s)) (\<lambda>key.
       Inr \<lparr>Dev_Identity = signer_identity (Tru_cfg s) (Key_ID key) (Key_Public key) now, Dev_Private = Key_Private key\<rparr>)"

definition issuerForGrant :: "TrustServer \<Rightarrow> Grant \<Rightarrow> time \<Rightarrow> DeviceIdentity result" where
  "issuerForGrant s grant now =
     (if blank (Sig_KID (Gr_Signature grant)) then reject CodeTrustInvalid ''trust grant signature kid is required''
      else and_then (Ring_Get (Tru_keys s) (Sig_KID (Gr_Signature grant))) (\<lambda>key.
        Inr (signer_identity (Tru_cfg s) (Key_ID key) (Key_Public key) now)))"

section \<open>Stored devices and grants\<close>

definition persistSubmittedDevice :: "prims \<Rightarrow> TrustServer \<Rightarrow> time \<Rightarrow> bytes result \<Rightarrow> DeviceIdentity \<Rightarrow> unit result \<times> TrustServer" where
  "persistSubmittedDevice P s now draw ident =
     (case Tru_repo s of
        None \<Rightarrow> (Inr (), s)
      | Some d \<Rightarrow>
          then_db (MarshalIdentity ident, s) (\<lambda>raw s.
          then_db (Marshal raw, s) (\<lambda>canon s.
          then_db (identity_Thumbprint P ident, s) (\<lambda>tp s.
          then_db (NewUUIDv7Like now draw, s) (\<lambda>uuid s.
            with_trust_db d (\<lambda>d. SubmitDevice d
              \<lparr>TDev_ID = UUIDString uuid, TDev_DomainID = ID_DomainID ident, TDev_DeviceID = ID_DeviceID ident,
               TDev_IdentityRaw = raw, TDev_IdentityCanonical = canon, TDev_PublicKeyThumbprint = tp,
               TDev_Status = ''submitted'', TDev_DeviceRecordVersion = 1, TDev_RevocationEpoch = 0,
               TDev_CreatedAt = now, TDev_UpdatedAt = now\<rparr>) s)))))"

definition persistGrant :: "TrustServer \<Rightarrow> time \<Rightarrow> bytes result \<Rightarrow> Grant \<Rightarrow> unit result \<times> TrustServer" where
  "persistGrant s now draw grant =
     (case Tru_repo s of
        None \<Rightarrow> (Inr (), s)
      | Some d \<Rightarrow>
          then_db (MarshalGrant grant, s) (\<lambda>raw s.
          then_db (Marshal raw, s) (\<lambda>canon s.
          then_db (uint64ToInt64 (Gr_RevocationEpoch grant), s) (\<lambda>revocationEpoch s.
          then_db (NewUUIDv7Like now draw, s) (\<lambda>uuid s.
            with_trust_db d (\<lambda>d. StoreGrant d
              \<lparr>TGr_ID = UUIDString uuid, TGr_DomainID = TCfg_DomainID (Tru_cfg s), TGr_GrantID = Gr_GrantID grant,
               TGr_SubjectDeviceID = Gr_SubjectDeviceID grant, TGr_Audience = Gr_Audience grant,
               TGr_ConfirmationThumbprint = Gr_ConfirmationThumbprint grant, TGr_GrantRaw = raw, TGr_GrantCanonical = canon,
               TGr_NotBefore = Gr_NotBefore grant, TGr_ExpiresAt = Gr_ExpiresAt grant,
               TGr_RevocationEpoch = revocationEpoch, TGr_RevokedAt = None\<rparr>) s)))))"

definition deviceRecordFromRepository :: "TrustDevice \<Rightarrow> deviceRecord option" where
  "deviceRecordFromRepository device =
     (case int64ToUint64 (TDev_DeviceRecordVersion device) of
        None \<Rightarrow> None
      | Some ver \<Rightarrow>
          (case int64ToUint64 (TDev_RevocationEpoch device) of
             None \<Rightarrow> None
           | Some epoch \<Rightarrow>
               (case UnmarshalIdentity (TDev_IdentityRaw device) of
                  Inl _ \<Rightarrow> None
                | Inr ident \<Rightarrow>
                    Some \<lparr>Rec_Identity = ident, Rec_Status = TDev_Status device, Rec_DeviceRecordVersion = ver,
                          Rec_RevocationEpoch = epoch\<rparr>)))"

text \<open>The record the source goes on with when it ignores the second result.\<close>

definition record_or_zero :: "deviceRecord option \<Rightarrow> deviceRecord" where
  "record_or_zero r = (case r of None \<Rightarrow> no_record | Some rec \<Rightarrow> rec)"

text \<open>The lookup that the device handlers share: the record in memory, else the one of the database.\<close>

definition find_record :: "TrustServer \<Rightarrow> string \<Rightarrow> deviceRecord option result \<times> TrustServer" where
  "find_record s deviceID =
     (case (Tru_devices s deviceID, Tru_repo s) of
        (None, Some d) \<Rightarrow>
          handle (with_trust_db d (\<lambda>d. Trust_GetDevice d (TCfg_DomainID (Tru_cfg s)) deviceID) s)
            (\<lambda>err s. if err \<noteq> ErrNoRows then (Inl err, s) else (Inr None, s))
            (\<lambda>dbDevice s. (Inr (deviceRecordFromRepository dbDevice), s))
      | (rec, _) \<Rightarrow> (Inr rec, s))"

end
