(* ===== verification/Trust_Server.thy ===== *)
theory Trust_Server
  imports Trust_State
begin

text \<open>
  \<^verbatim>\<open>services/trust-root-reference/internal/trust/server.go\<close>, second part: the handlers of the trust root, on every branch of
  the source, and \<open>trust_Handler\<close>, the rate limiter and the route table in front of them. A handler
  takes the world, the request and the state and gives the response and the new state. The clock
  readings and draws of a handler are numbered in the order of its calls.
\<close>

section \<open>Replies\<close>

definition TypeDeviceStatus :: string where "TypeDeviceStatus = ''iscp.trust.device_status.v2''"
definition TypeGrantStatus :: string where "TypeGrantStatus = ''iscp.trust.grant_status.v2''"
definition TypeRevocations :: string where "TypeRevocations = ''iscp.trust.revocations.v2''"

record deviceStatusResponse =
  DSR_Type :: string
  DSR_Identity :: DeviceIdentity
  DSR_DomainID :: string
  DSR_DeviceID :: string
  DSR_Status :: string
  DSR_PublicKey :: PublicKey
  DSR_DeviceRecordVersion :: "64 word"
  DSR_RevocationEpoch :: "64 word"

record grantStatusResponse =
  GSR_Type :: string
  GSR_Status :: string
  GSR_Grant :: bytes

record revocationsResponse =
  RVR_Type :: string
  RVR_Items :: "revocationItem list"
  RVR_NextCursor :: string

datatype trust_reply =
    Trust_Error ErrorResponse
  | Trust_Empty
  | Trust_Text string
  | Trust_Map "(string \<times> string) list"
  | Trust_WellKnown SignedDescriptor
  | Trust_Device deviceRecord
  | Trust_Issued deviceRecord Grant
  | Trust_DeviceStatus deviceStatusResponse
  | Trust_GrantStatus grantStatusResponse
  | Trust_Revocations revocationsResponse
  | Trust_AuditLog "auditEntry list"

type_synonym trust_result = "trust_reply response \<times> TrustServer"

abbreviation trust_refuse :: "nat \<Rightarrow> go_error \<Rightarrow> TrustServer \<Rightarrow> trust_result" where
  "trust_refuse status err s \<equiv> (WriteError Trust_Error status err, s)"

abbreviation trust_answer :: "nat \<Rightarrow> trust_reply \<Rightarrow> TrustServer \<Rightarrow> trust_result" where
  "trust_answer status v s \<equiv> (WriteJSON status v, s)"

definition trust_method :: "string \<Rightarrow> Request \<Rightarrow> TrustServer \<Rightarrow> trust_result \<Rightarrow> trust_result" where
  "trust_method method r s k = (if Req_Method r \<noteq> method then ((405, Trust_Empty), s) else k)"

definition trust_requireAdmin :: "TrustServer \<Rightarrow> Request \<Rightarrow> trust_result \<Rightarrow> trust_result" where
  "trust_requireAdmin s r k =
     (if trust_adminAuthorized s r then k
      else trust_refuse 401 (errors_New CodeAccessInvalid ''admin credential is required'') s)"

section \<open>Information\<close>

definition trust_health :: "TrustServer \<Rightarrow> trust_result" where
  "trust_health s = trust_answer 200 (Trust_Map [(''status'', ''ok'')]) s"

definition trust_metrics :: "TrustServer \<Rightarrow> trust_result" where
  "trust_metrics s = ((200, Trust_Text (''# HELP iscp_trust_up Trust process status'' @ [CHR 0x0A] @
     ''# TYPE iscp_trust_up gauge'' @ [CHR 0x0A] @ ''iscp_trust_up 1'' @ [CHR 0x0A])), s)"

definition trust_version :: "TrustServer \<Rightarrow> trust_result" where
  "trust_version s = trust_answer 200 (Trust_Map [(''version'', ''0.2.0-dev''), (''protocol'', ''v2'')]) s"

fun state_text :: "KeyState \<Rightarrow> string" where
  "state_text StateNext = ''next''"
| "state_text StateActive = ''active''"
| "state_text StateRetired = ''retired''"
| "state_text StateRevoked = ''revoked''"

definition trust_root_descriptor :: "TrustServer \<Rightarrow> time \<Rightarrow> TrustRootDescriptor" where
  "trust_root_descriptor s now =
     \<lparr>TD_Type = trust_root_type, TD_TrustRootID = TCfg_TrustRootID (Tru_cfg s), TD_DomainID = TCfg_DomainID (Tru_cfg s),
      TD_BaseURL = TCfg_BaseURL (Tru_cfg s),
      TD_Keys = Some (map (\<lambda>key. \<lparr>DK_KTY = ''Ed25519'', DK_Use = ''grant-signature'', DK_KID = Key_ID key,
                    DK_Public = Base64URL (pub_key (Key_Public key)), DK_State = state_text (Key_State key)\<rparr>) (Ring_Keys (Tru_keys s))),
      TD_IssuedAt = now, TD_ExpiresAt = Add now (24 * Hour), TD_Metadata = []\<rparr>"

definition trust_wellKnown :: "prims \<Rightarrow> World \<Rightarrow> TrustServer \<Rightarrow> trust_result" where
  "trust_wellKnown P w s =
     (let now = W_clock w 0; desc = trust_root_descriptor s now in
      handle (Sign P (Tru_signer s) (TD_Type desc) (json_object (trust_root_fields desc)) now, s)
        (trust_refuse 500)
        (\<lambda>signed. trust_answer 200 (Trust_WellKnown signed)))"

section \<open>Submission\<close>

record submitRequest =
  SQ_Identity :: DeviceIdentity
  SQ_Proof :: DeviceProof
  SQ_Context :: "(string \<times> string) list"

definition submit_table :: "(string \<times> submitRequest setter) list" where
  "submit_table =
     [(''identity'', set_struct identity_table SQ_Identity (\<lambda>x q. q\<lparr>SQ_Identity := x\<rparr>)),
      (''proof'', set_struct proof_table SQ_Proof (\<lambda>x q. q\<lparr>SQ_Proof := x\<rparr>)),
      (''context'', set_str_map SQ_Context (\<lambda>x q. q\<lparr>SQ_Context := x\<rparr>))]"

definition no_submit :: submitRequest where
  "no_submit = \<lparr>SQ_Identity = no_identity, SQ_Proof = no_proof, SQ_Context = []\<rparr>"

definition audit_entry :: "string \<Rightarrow> string \<Rightarrow> time \<Rightarrow> auditEntry" where
  "audit_entry event subject now = \<lparr>AE_EventType = event, AE_SubjectID = subject, AE_CreatedAt = now\<rparr>"

definition submitDevice :: "prims \<Rightarrow> World \<Rightarrow> Request \<Rightarrow> TrustServer \<Rightarrow> trust_result" where
  "submitDevice P w r s =
     trust_method ''POST'' r s (
     handle (DecodeJSON submit_table no_submit (Req_Body r), s) (trust_refuse 400) (\<lambda>req s.
     handle (trust_verifyProof P s (W_clock w 0) (SQ_Identity req) (SQ_Proof req) (TCfg_TrustRootID (Tru_cfg s))
               (DP_Challenge (SQ_Proof req)) (5 * Minute)) (trust_refuse 401) (\<lambda>_ s.
     handle (persistSubmittedDevice P s (W_clock w 1) (W_uuid w 0) (SQ_Identity req)) (trust_refuse 500) (\<lambda>_ s.
       let deviceID = ID_DeviceID (SQ_Identity req);
           rec = (record_or_zero (Tru_devices s deviceID))\<lparr>Rec_Identity := SQ_Identity req\<rparr>;
           rec = (if Rec_Status rec = [] then rec\<lparr>Rec_Status := ''submitted'', Rec_DeviceRecordVersion := 1\<rparr> else rec)
       in trust_answer 200 (Trust_Device rec)
            (s\<lparr>Tru_devices := (Tru_devices s)(deviceID \<mapsto> rec),
               Tru_audit := Tru_audit s @ [audit_entry ''device.submit'' deviceID (W_clock w 2)]\<rparr>)))))"

section \<open>Authorization\<close>

record authorizeRequest =
  AQ_DeviceID :: string
  AQ_Audience :: string
  AQ_Permissions :: "string slice"
  AQ_RelayID :: string
  AQ_TTLSeconds :: int

definition authorize_table :: "(string \<times> authorizeRequest setter) list" where
  "authorize_table =
     [(''device_id'', set_string (\<lambda>x q. q\<lparr>AQ_DeviceID := x\<rparr>)), (''audience'', set_string (\<lambda>x q. q\<lparr>AQ_Audience := x\<rparr>)),
      (''permissions'', set_strings (\<lambda>x q. q\<lparr>AQ_Permissions := x\<rparr>)), (''relay_id'', set_string (\<lambda>x q. q\<lparr>AQ_RelayID := x\<rparr>)),
      (''ttl_seconds'', set_int (\<lambda>x q. q\<lparr>AQ_TTLSeconds := x\<rparr>))]"

definition no_authorize :: authorizeRequest where
  "no_authorize = \<lparr>AQ_DeviceID = [], AQ_Audience = [], AQ_Permissions = None, AQ_RelayID = [], AQ_TTLSeconds = 0\<rparr>"

text \<open>\<^verbatim>\<open>Time.String\<close> of an instant in UTC, for years of four digits.\<close>

definition time_String :: "time \<Rightarrow> string" where
  "time_String t =
     (let dt = civil (day_number t); sod = second_of_day t in
      fixed 4 (year dt) @ ''-'' @ fixed 2 (month dt) @ ''-'' @ fixed 2 (day dt) @ '' '' @
      fixed 2 (sod div 3600) @ '':'' @ fixed 2 (sod div 60 mod 60) @ '':'' @ fixed 2 (sod mod 60) @
      fraction (nanosecond t) @ '' +0000 UTC'')"

definition grant_ttl :: "authorizeRequest \<Rightarrow> PermissionRule \<Rightarrow> duration" where
  "grant_ttl req rule =
     (let ttl = seconds (AQ_TTLSeconds req) in if ttl \<le> 0 \<or> Rule_MaxTTL rule < ttl then Rule_MaxTTL rule else ttl)"

definition requested_permissions :: "authorizeRequest \<Rightarrow> string list" where
  "requested_permissions req = (if elems (AQ_Permissions req) = [] then [''text''] else elems (AQ_Permissions req))"

definition new_grant :: "prims \<Rightarrow> authorizeRequest \<Rightarrow> deviceRecord \<Rightarrow> PermissionRule \<Rightarrow> time \<Rightarrow> Grant" where
  "new_grant P req rec rule now =
     \<lparr>Gr_Type = [], Gr_GrantID = ''grant-'' @ take 16 (Base64URL (sha256 P (AQ_DeviceID req @ time_String now))), Gr_Issuer = [],
      Gr_SubjectDeviceID = AQ_DeviceID req, Gr_Audience = AQ_Audience req,
      Gr_ConfirmationThumbprint = (case identity_Thumbprint P (Rec_Identity rec) of Inr tp \<Rightarrow> tp | Inl _ \<Rightarrow> []),
      Gr_Permissions = Some (requested_permissions req), Gr_RelayConstraints = [AQ_RelayID req],
      Gr_NotBefore = Add now (- Second), Gr_ExpiresAt = Add now (grant_ttl req rule),
      Gr_RevocationEpoch = Rec_RevocationEpoch rec, Gr_Signature = no_signature\<rparr>"

text \<open>
  The handler takes the lock twice: to authorize the record in memory, and to keep the grant. The
  two parts are separate steps; \<open>authorizeDevice\<close> is one after the other.
\<close>

definition authorize_record :: "TrustServer \<Rightarrow> string \<Rightarrow> ((nat \<times> go_error) + deviceRecord) \<times> TrustServer" where
  "authorize_record s deviceID =
     handle (find_record s deviceID) (\<lambda>err s. (Inl (500, err), s)) (\<lambda>found s.
       let denied = (Inl (403, errors_New CodeTrustInvalid ''device is not authorized''), s) in
       case found of
         None \<Rightarrow> denied
       | Some rec \<Rightarrow>
           if Rec_Status rec = ''revoked'' then denied
           else let rec = rec\<lparr>Rec_Status := ''authorized'', Rec_DeviceRecordVersion := Rec_DeviceRecordVersion rec + 1\<rparr>
                in (Inr rec, s\<lparr>Tru_devices := (Tru_devices s)(deviceID \<mapsto> rec)\<rparr>))"

definition authorize_stored :: "TrustServer \<Rightarrow> time \<Rightarrow> string \<Rightarrow> deviceRecord \<Rightarrow> deviceRecord result \<times> TrustServer" where
  "authorize_stored s now deviceID rec =
     (case Tru_repo s of
        None \<Rightarrow> (Inr rec, s)
      | Some d \<Rightarrow>
          handle (with_trust_db d (\<lambda>d. AuthorizeDevice d (TCfg_DomainID (Tru_cfg s)) deviceID now) s)
            (\<lambda>_ s. (reject CodeTrustInvalid ''device is not authorized'', s))
            (\<lambda>dbDevice s. (Inr (record_or_zero (deviceRecordFromRepository dbDevice)), s)))"

definition issue_grant :: "prims \<Rightarrow> World \<Rightarrow> authorizeRequest \<Rightarrow> deviceRecord \<Rightarrow> TrustServer \<Rightarrow> trust_result" where
  "issue_grant P w req rec s =
     handle (Engine_Rule (Tru_policy s) (hd (requested_permissions req)), s) (trust_refuse 403) (\<lambda>rule s.
     let now = W_clock w 1 in
     handle (activeSigner s (W_clock w 2), s) (trust_refuse 500) (\<lambda>signer s.
     handle (SignGrant P signer (new_grant P req rec rule now), s) (trust_refuse 500) (\<lambda>grant s.
     handle (persistGrant s (W_clock w 3) (W_uuid w 0) grant) (trust_refuse 500) (\<lambda>_ s.
       trust_answer 200 (Trust_Issued rec grant)
         (s\<lparr>Tru_grants := (Tru_grants s)(Gr_GrantID grant \<mapsto> grant),
            Tru_audit := Tru_audit s @ [audit_entry ''device.authorize'' (AQ_DeviceID req) now]\<rparr>)))))"

definition authorizeDevice :: "prims \<Rightarrow> World \<Rightarrow> Request \<Rightarrow> TrustServer \<Rightarrow> trust_result" where
  "authorizeDevice P w r s =
     trust_method ''POST'' r s (trust_requireAdmin s r (
     handle (DecodeJSON authorize_table no_authorize (Req_Body r), s) (trust_refuse 400) (\<lambda>req s.
     case authorize_record s (AQ_DeviceID req) of
       (Inl (status, err), s) \<Rightarrow> trust_refuse status err s
     | (Inr rec, s) \<Rightarrow>
         handle (authorize_stored s (W_clock w 0) (AQ_DeviceID req) rec) (trust_refuse 403) (\<lambda>rec s.
           issue_grant P w req rec s))))"

section \<open>Verification\<close>

record verifyRequest =
  VQ_Grant :: Grant
  VQ_Audience :: string
  VQ_SubjectDeviceID :: string
  VQ_ConfirmationThumbprint :: string
  VQ_Permission :: string
  VQ_RelayID :: string

definition verify_table :: "(string \<times> verifyRequest setter) list" where
  "verify_table =
     [(''grant'', set_struct grant_table VQ_Grant (\<lambda>x q. q\<lparr>VQ_Grant := x\<rparr>)), (''audience'', set_string (\<lambda>x q. q\<lparr>VQ_Audience := x\<rparr>)),
      (''subject_device_id'', set_string (\<lambda>x q. q\<lparr>VQ_SubjectDeviceID := x\<rparr>)),
      (''confirmation_thumbprint'', set_string (\<lambda>x q. q\<lparr>VQ_ConfirmationThumbprint := x\<rparr>)),
      (''permission'', set_string (\<lambda>x q. q\<lparr>VQ_Permission := x\<rparr>)), (''relay_id'', set_string (\<lambda>x q. q\<lparr>VQ_RelayID := x\<rparr>))]"

definition no_verify :: verifyRequest where
  "no_verify = \<lparr>VQ_Grant = no_grant, VQ_Audience = [], VQ_SubjectDeviceID = [], VQ_ConfirmationThumbprint = [],
     VQ_Permission = [], VQ_RelayID = []\<rparr>"

definition subject_record :: "TrustServer \<Rightarrow> string \<Rightarrow> deviceRecord result \<times> TrustServer" where
  "subject_record s deviceID =
     (let rec = record_or_zero (Tru_devices s deviceID) in
      case Tru_repo s of
        Some d \<Rightarrow>
          if ID_DeviceID (Rec_Identity rec) = [] then
            handle (with_trust_db d (\<lambda>d. Trust_GetDevice d (TCfg_DomainID (Tru_cfg s)) deviceID) s)
              (\<lambda>err s. if err \<noteq> ErrNoRows then (Inl err, s) else (Inr rec, s))
              (\<lambda>dbDevice s. (Inr (record_or_zero (deviceRecordFromRepository dbDevice)), s))
          else (Inr rec, s)
      | None \<Rightarrow> (Inr rec, s))"

definition verify_options :: "verifyRequest \<Rightarrow> deviceRecord \<Rightarrow> time \<Rightarrow> VerifyOptions" where
  "verify_options req rec now =
     \<lparr>VO_Audience = VQ_Audience req, VO_SubjectDeviceID = VQ_SubjectDeviceID req,
      VO_ConfirmationThumbprint = VQ_ConfirmationThumbprint req, VO_Permission = VQ_Permission req, VO_RelayID = VQ_RelayID req,
      VO_CurrentRevocationEpoch = Rec_RevocationEpoch rec, VO_Now = now\<rparr>"

definition verifyGrant :: "prims \<Rightarrow> World \<Rightarrow> Request \<Rightarrow> TrustServer \<Rightarrow> trust_result" where
  "verifyGrant P w r s =
     trust_method ''POST'' r s (
     handle (DecodeJSON verify_table no_verify (Req_Body r), s) (trust_refuse 400) (\<lambda>req s.
     handle (subject_record s (VQ_SubjectDeviceID req)) (trust_refuse 500) (\<lambda>rec s.
     handle (issuerForGrant s (VQ_Grant req) (W_clock w 0), s) (trust_refuse 403) (\<lambda>issuer s.
     handle (VerifyGrant P (VQ_Grant req) issuer (verify_options req rec (W_clock w 1)), s) (trust_refuse 403) (\<lambda>_.
       trust_answer 200 (Trust_Map [(''status'', ''valid'')]))))))"

section \<open>Status\<close>

definition domainScopeMismatch :: "TrustServer \<Rightarrow> Request \<Rightarrow> bool" where
  "domainScopeMismatch s r \<longleftrightarrow> Req_Query r ''domain_id'' \<noteq> [] \<and> Req_Query r ''domain_id'' \<noteq> TCfg_DomainID (Tru_cfg s)"

definition device_status :: "deviceRecord \<Rightarrow> deviceStatusResponse" where
  "device_status rec =
     \<lparr>DSR_Type = TypeDeviceStatus, DSR_Identity = (Rec_Identity rec)\<lparr>ID_Metadata := []\<rparr>,
      DSR_DomainID = ID_DomainID (Rec_Identity rec), DSR_DeviceID = ID_DeviceID (Rec_Identity rec), DSR_Status = Rec_Status rec,
      DSR_PublicKey = ID_PublicKey (Rec_Identity rec), DSR_DeviceRecordVersion = Rec_DeviceRecordVersion rec,
      DSR_RevocationEpoch = Rec_RevocationEpoch rec\<rparr>"

definition deviceStatus :: "Request \<Rightarrow> TrustServer \<Rightarrow> trust_result" where
  "deviceStatus r s =
     trust_method ''GET'' r s (
     handle (find_record s (Req_Query r ''device_id'')) (trust_refuse 500) (\<lambda>found s.
     let missing = trust_refuse 404 (errors_New CodeTrustInvalid ''device not found'') s in
     case found of
       None \<Rightarrow> missing
     | Some rec \<Rightarrow> if domainScopeMismatch s r then missing else trust_answer 200 (Trust_DeviceStatus (device_status rec)) s))"

text \<open>The grant, whether there is one, and whether it is revoked; the stored grant is decoded into a zero one.\<close>

definition find_grant :: "TrustServer \<Rightarrow> string \<Rightarrow> (Grant \<times> bool) option result \<times> TrustServer" where
  "find_grant s grantID =
     (let revoked = (grantID \<in> Tru_revokedGrants s) in
      case (Tru_grants s grantID, Tru_repo s) of
        (None, Some d) \<Rightarrow>
          handle (with_trust_db d (\<lambda>d. GetGrant d (TCfg_DomainID (Tru_cfg s)) grantID) s)
            (\<lambda>err s. if err \<noteq> ErrNoRows then (Inl err, s) else (Inr None, s))
            (\<lambda>dbGrant s.
               (and_then (Unmarshal_struct grant_table no_grant (TGr_GrantRaw dbGrant)) (\<lambda>grant.
                  Inr (Some (grant, revoked \<or> TGr_RevokedAt dbGrant \<noteq> None))), s))
      | (found, _) \<Rightarrow> (Inr (map_option (\<lambda>grant. (grant, revoked)) found), s))"

definition grant_status_text :: "TrustServer \<Rightarrow> Grant \<Rightarrow> bool \<Rightarrow> time \<Rightarrow> string" where
  "grant_status_text s grant revoked now =
     (let stale = (case Tru_devices s (Gr_SubjectDeviceID grant) of
                     None \<Rightarrow> False
                   | Some rec \<Rightarrow> Gr_RevocationEpoch grant < Rec_RevocationEpoch rec)
      in if revoked \<or> stale then ''revoked'' else if \<not> Before now (Gr_ExpiresAt grant) then ''expired'' else ''active'')"

definition grantStatus :: "World \<Rightarrow> Request \<Rightarrow> TrustServer \<Rightarrow> trust_result" where
  "grantStatus w r s =
     trust_method ''GET'' r s (
     handle (find_grant s (Req_Query r ''grant_id'')) (trust_refuse 500) (\<lambda>found s.
     let missing = trust_refuse 404 (errors_New CodeTrustInvalid ''grant not found'') s in
     case found of
       None \<Rightarrow> missing
     | Some (grant, revoked) \<Rightarrow>
         if domainScopeMismatch s r then missing
         else handle (MarshalGrant grant, s) (trust_refuse 500) (\<lambda>raw s.
                trust_answer 200 (Trust_GrantStatus \<lparr>GSR_Type = TypeGrantStatus,
                  GSR_Status = grant_status_text s grant revoked (W_clock w 0), GSR_Grant = raw\<rparr>) s)))"

section \<open>Revocation\<close>

record revokeRequest =
  VK_ID :: string
  VK_Reason :: string

definition revoke_table :: "string \<Rightarrow> (string \<times> revokeRequest setter) list" where
  "revoke_table name =
     [(name, set_string (\<lambda>x q. q\<lparr>VK_ID := x\<rparr>)), (''reason'', set_string (\<lambda>x q. q\<lparr>VK_Reason := x\<rparr>))]"

definition no_revoke :: revokeRequest where
  "no_revoke = \<lparr>VK_ID = [], VK_Reason = []\<rparr>"

definition revokeGrant :: "World \<Rightarrow> Request \<Rightarrow> TrustServer \<Rightarrow> trust_result" where
  "revokeGrant w r s =
     trust_method ''POST'' r s (trust_requireAdmin s r (
     handle (DecodeJSON (revoke_table ''grant_id'') no_revoke (Req_Body r), s) (trust_refuse 400) (\<lambda>req s.
     let now = W_clock w 0; found = Tru_grants s (VK_ID req);
         missing = trust_refuse 404 (errors_New CodeTrustInvalid ''grant not found'') in
     if found = None \<and> Tru_repo s = None then missing s
     else handle (NewUUIDv7Like now (W_uuid w 0), s) (trust_refuse 500) (\<lambda>revocationID s.
       handle (case Tru_repo s of
                 None \<Rightarrow> (Inr (), s)
               | Some d \<Rightarrow> with_trust_db d (\<lambda>d. Trust_RevokeGrant d (UUIDString revocationID) (TCfg_DomainID (Tru_cfg s))
                              (VK_ID req) (VK_Reason req) now) s)
         (\<lambda>err s. if err = ErrNoRows then missing s else trust_refuse 500 err s) (\<lambda>_ s.
       let s = s\<lparr>Tru_revokedGrants := insert (VK_ID req) (Tru_revokedGrants s),
                 Tru_revocationLog := Tru_revocationLog s @
                   [\<lparr>RI_RevocationID = UUIDString revocationID, RI_DomainID = TCfg_DomainID (Tru_cfg s), RI_DeviceID = [],
                     RI_GrantID = VK_ID req, RI_ReasonCode = VK_Reason req, RI_EffectiveAt = now\<rparr>],
                 Tru_audit := Tru_audit s @ [audit_entry ''grant.revoke'' (VK_ID req) now]\<rparr>
       in handle (MarshalGrant (case found of None \<Rightarrow> no_grant | Some grant \<Rightarrow> grant), s) (trust_refuse 500) (\<lambda>raw.
            trust_answer 200 (Trust_GrantStatus \<lparr>GSR_Type = TypeGrantStatus, GSR_Status = ''revoked'', GSR_Grant = raw\<rparr>)))))))"

definition revokeDevice :: "World \<Rightarrow> Request \<Rightarrow> TrustServer \<Rightarrow> trust_result" where
  "revokeDevice w r s =
     trust_method ''POST'' r s (trust_requireAdmin s r (
     handle (DecodeJSON (revoke_table ''device_id'') no_revoke (Req_Body r), s) (trust_refuse 400) (\<lambda>req s.
     let now = W_clock w 0 in
     handle (NewUUIDv7Like now (W_uuid w 0), s) (trust_refuse 500) (\<lambda>revocationID s.
     let deviceID = VK_ID req; rec = record_or_zero (Tru_devices s deviceID) in
     if ID_DeviceID (Rec_Identity rec) = [] \<and> Tru_repo s = None
     then trust_refuse 404 (errors_New CodeTrustInvalid ''device not found'') s
     else
       let rec = rec\<lparr>Rec_Status := ''revoked'', Rec_DeviceRecordVersion := Rec_DeviceRecordVersion rec + 1,
                     Rec_RevocationEpoch := Rec_RevocationEpoch rec + 1\<rparr>;
           s = s\<lparr>Tru_devices := (Tru_devices s)(deviceID \<mapsto> rec),
                 Tru_revocationLog := Tru_revocationLog s @
                   [\<lparr>RI_RevocationID = UUIDString revocationID, RI_DomainID = TCfg_DomainID (Tru_cfg s), RI_DeviceID = deviceID,
                     RI_GrantID = [], RI_ReasonCode = VK_Reason req, RI_EffectiveAt = now\<rparr>],
                 Tru_audit := Tru_audit s @ [audit_entry ''device.revoke'' deviceID now]\<rparr>
       in case Tru_repo s of
            None \<Rightarrow> trust_answer 200 (Trust_Device rec) s
          | Some d \<Rightarrow>
              handle (with_trust_db d (\<lambda>d. Trust_RevokeDevice d (UUIDString revocationID) (TCfg_DomainID (Tru_cfg s)) deviceID
                        (VK_Reason req) now) s) (trust_refuse 500) (\<lambda>_ s.
              case Tru_repo s of
                None \<Rightarrow> trust_answer 200 (Trust_Device rec) s
              | Some d \<Rightarrow>
                  handle (with_trust_db d (\<lambda>d. Trust_GetDevice d (TCfg_DomainID (Tru_cfg s)) deviceID) s)
                    (\<lambda>_. trust_answer 200 (Trust_Device rec))
                    (\<lambda>dbDevice. trust_answer 200 (Trust_Device (record_or_zero (deviceRecordFromRepository dbDevice)))))))))"

section \<open>The revocation feed\<close>

definition revocation_item :: "TrustRevocation \<Rightarrow> revocationItem" where
  "revocation_item rec =
     \<lparr>RI_RevocationID = TRev_ID rec, RI_DomainID = TRev_DomainID rec,
      RI_DeviceID = (if TRev_SubjectType rec = ''grant'' then [] else TRev_SubjectID rec),
      RI_GrantID = (if TRev_SubjectType rec = ''grant'' then TRev_SubjectID rec else []),
      RI_ReasonCode = TRev_Reason rec, RI_EffectiveAt = TRev_CreatedAt rec\<rparr>"

definition stored_page :: "int \<Rightarrow> TrustRevocation list \<Rightarrow> revocationsResponse" where
  "stored_page limit records =
     (let items = map revocation_item records in
      \<lparr>RVR_Type = TypeRevocations, RVR_Items = items,
       RVR_NextCursor = (if int (length items) = limit then RI_RevocationID (last items) else [])\<rparr>)"

text \<open>The position after the entry with the cursor's identifier; 0 if there is none.\<close>

fun cursor_start :: "string \<Rightarrow> revocationItem list \<Rightarrow> nat \<Rightarrow> nat" where
  "cursor_start cursor [] i = 0"
| "cursor_start cursor (item # items) i = (if RI_RevocationID item = cursor then i + 1 else cursor_start cursor items (i + 1))"

definition log_page :: "int \<Rightarrow> string \<Rightarrow> revocationItem list \<Rightarrow> revocationsResponse" where
  "log_page limit cursor log =
     (let start = (if cursor \<noteq> [] then cursor_start cursor log 0 else 0);
          items = take (nat limit) (drop start log)
      in \<lparr>RVR_Type = TypeRevocations, RVR_Items = items,
          RVR_NextCursor = (if int (length items) = limit \<and> start + length items < length log
                            then RI_RevocationID (last items) else [])\<rparr>)"

definition revocations :: "Request \<Rightarrow> TrustServer \<Rightarrow> trust_result" where
  "revocations r s =
     trust_method ''GET'' r s (
     if domainScopeMismatch s r
     then trust_answer 200 (Trust_Revocations \<lparr>RVR_Type = TypeRevocations, RVR_Items = [], RVR_NextCursor = []\<rparr>) s
     else
       let raw = Req_Query r ''limit''; cursor = Req_Query r ''cursor'';
           page = (\<lambda>limit. case Tru_repo s of
             Some d \<Rightarrow>
               handle (with_trust_db d (\<lambda>d. ListRevocations d (TCfg_DomainID (Tru_cfg s)) cursor limit) s) (trust_refuse 500) (\<lambda>records.
                 trust_answer 200 (Trust_Revocations (stored_page limit records)))
           | None \<Rightarrow> trust_answer 200 (Trust_Revocations (log_page limit cursor (Tru_revocationLog s))) s);
           invalid = trust_refuse 400 (errors_New CodeTrustInvalid ''limit must be between 1 and 200'') s
       in if raw = [] then page 100
          else case ParseInt raw of
                 Inl _ \<Rightarrow> invalid
               | Inr parsed \<Rightarrow> if parsed \<le> 0 \<or> 200 < parsed then invalid else page parsed)"

section \<open>Keys and audit\<close>

text \<open>The first random draw is what the key generator reads.\<close>

definition rotateKeys :: "prims \<Rightarrow> World \<Rightarrow> Request \<Rightarrow> TrustServer \<Rightarrow> trust_result" where
  "rotateKeys P w r s =
     trust_method ''POST'' r s (trust_requireAdmin s r (
     handle (fst (GenerateIdentityKey P (W_token w 0)), s) (trust_refuse 500) (\<lambda>(priv, pub) s.
     let kid = Thumbprint P ''Ed25519'' (pub_key pub);
         added = Ring_Add (Tru_keys s) \<lparr>Key_ID = kid, Key_State = StateNext, Key_Private = priv, Key_Public = pub\<rparr>;
         (res, ring) = Rotate added kid;
         s = s\<lparr>Tru_keys := ring\<rparr>
     in handle (res, s) (trust_refuse 500) (\<lambda>_ s.
          trust_answer 200 (Trust_Map [(''active_key_id'', kid)])
            (s\<lparr>Tru_signer := \<lparr>Dev_Identity = signer_identity (Tru_cfg s) kid pub (W_clock w 0), Dev_Private = priv\<rparr>\<rparr>)))))"

definition adminAudit :: "Request \<Rightarrow> TrustServer \<Rightarrow> trust_result" where
  "adminAudit r s =
     trust_method ''GET'' r s (trust_requireAdmin s r (trust_answer 200 (Trust_AuditLog (Tru_audit s)) s))"

definition trust_MarshalJSON :: "TrustServer \<Rightarrow> bytes result" where
  "trust_MarshalJSON s = json_Marshal (Inr (str_map_doc [(''trust_root_id'', TCfg_TrustRootID (Tru_cfg s))]))"

section \<open>The server\<close>

definition trust_route :: "prims \<Rightarrow> World \<Rightarrow> Request \<Rightarrow> TrustServer \<Rightarrow> trust_result" where
  "trust_route P w r s =
     (let path = Req_Path r in
      if path \<in> {''/healthz'', ''/readyz'', ''/livez''} then trust_health s
      else if path = ''/metrics'' then trust_metrics s
      else if path = ''/version'' then trust_version s
      else if path = ''/.well-known/iscp/trust-root'' then trust_wellKnown P w s
      else if path = ''/v2/trust/devices/submit'' then submitDevice P w r s
      else if path = ''/v2/trust/devices/authorize'' then authorizeDevice P w r s
      else if path = ''/v2/trust/devices/revoke'' then revokeDevice w r s
      else if path = ''/v2/trust/devices/status'' then deviceStatus r s
      else if path = ''/v2/trust/grants/verify'' then verifyGrant P w r s
      else if path = ''/v2/trust/grants/status'' then grantStatus w r s
      else if path = ''/v2/trust/grants/revoke'' then revokeGrant w r s
      else if path = ''/v2/trust/revocations'' then revocations r s
      else if path = ''/v2/trust/keys/rotate'' then rotateKeys P w r s
      else if path = ''/v2/trust/admin/audit'' then adminAudit r s
      else ((404, Trust_Empty), s))"

definition trust_Handler :: "prims \<Rightarrow> World \<Rightarrow> time \<Rightarrow> Request \<Rightarrow> TrustServer \<Rightarrow> trust_result" where
  "trust_Handler P w arrival r s =
     (case Allow (Tru_limiter s) (clientKey r) arrival of
        (ok, l) \<Rightarrow>
          let s = s\<lparr>Tru_limiter := l\<rparr> in
          if \<not> ok then trust_refuse 429 (errors_Retryable CodeAccessInvalid ''rate limit exceeded'') s
          else trust_route P w r s)"

end
