(* ===== verification/Trust_Spec.thy ===== *)
theory Trust_Spec
  imports Trust_Server
begin

text \<open>
  What the trust root promises, as a transition system: devices with their status and epoch, the
  key ring, the grants and the revocation log, and the events that change them. Requests, JSON, the
  limiter, the replay guard, the database and the audit are not part of it. The handlers refine it:
  every call of \<open>trust_Handler\<close> is an event of the specification or none, and the events of the
  administrator happen only for authorized requests. The runs of the server carry the events they
  are made of.
\<close>

section \<open>The specification\<close>

record TrustSpec =
  Sp_cfg :: TrustConfig
  Sp_policy :: Engine
  Sp_stored :: bool
  Sp_keys :: Ring
  Sp_devices :: "string \<Rightarrow> deviceRecord option"
  Sp_grants :: "string \<Rightarrow> Grant option"
  Sp_revoked :: "string set"
  Sp_log :: "revocationItem list"

datatype trust_event =
    Quiet
  | Submitted DeviceIdentity
  | Authorized string
  | Issued Grant
  | DeviceRevoked string
  | GrantRevoked string
  | Rotated string

fun admin_event :: "trust_event \<Rightarrow> bool" where
  "admin_event Quiet = False"
| "admin_event (Submitted _) = False"
| "admin_event _ = True"

definition proven :: "prims \<Rightarrow> TrustConfig \<Rightarrow> DeviceIdentity \<Rightarrow> bool" where
  "proven P cfg ident \<longleftrightarrow>
     (\<exists>prf now. VerifyProof P ident prf (TCfg_TrustRootID cfg) (DP_Challenge prf) now (5 * Minute) = Inr ())"

definition submitted_record :: "DeviceIdentity \<Rightarrow> deviceRecord option \<Rightarrow> deviceRecord" where
  "submitted_record ident old =
     (let rec = (record_or_zero old)\<lparr>Rec_Identity := ident\<rparr> in
      if Rec_Status rec = [] then rec\<lparr>Rec_Status := ''submitted'', Rec_DeviceRecordVersion := 1\<rparr> else rec)"

definition authorized_record :: "deviceRecord \<Rightarrow> deviceRecord" where
  "authorized_record rec = rec\<lparr>Rec_Status := ''authorized'', Rec_DeviceRecordVersion := Rec_DeviceRecordVersion rec + 1\<rparr>"

definition revoked_record :: "deviceRecord \<Rightarrow> deviceRecord" where
  "revoked_record rec = rec\<lparr>Rec_Status := ''revoked'', Rec_DeviceRecordVersion := Rec_DeviceRecordVersion rec + 1,
     Rec_RevocationEpoch := Rec_RevocationEpoch rec + 1\<rparr>"

text \<open>The record a device is authorized from: its own, or one of the database if it has none.\<close>

definition admissible :: "TrustSpec \<Rightarrow> string \<Rightarrow> deviceRecord \<Rightarrow> bool" where
  "admissible a dv rec \<longleftrightarrow> Rec_Status rec \<noteq> ''revoked'' \<and>
     (case Sp_devices a dv of Some rec' \<Rightarrow> rec = rec' | None \<Rightarrow> Sp_stored a)"

text \<open>A grant of the active key for a device, within the policy's rule for its first permission.\<close>

definition granted :: "prims \<Rightarrow> TrustSpec \<Rightarrow> string \<Rightarrow> deviceRecord \<Rightarrow> Grant \<Rightarrow> bool" where
  "granted P a dv rec g \<longleftrightarrow>
     (\<exists>key g0 rule now now'. Active (Sp_keys a) = Inr key \<and>
        SignGrant P \<lparr>Dev_Identity = signer_identity (Sp_cfg a) (Key_ID key) (Key_Public key) now', Dev_Private = Key_Private key\<rparr> g0 = Inr g \<and>
        Engine_Rule (Sp_policy a) (hd (elems (Gr_Permissions g))) = Inr rule \<and>
        Gr_NotBefore g = Add now (- Second) \<and> Gr_ExpiresAt g \<le> Add now (Rule_MaxTTL rule)) \<and>
     Gr_SubjectDeviceID g = dv \<and> (\<not> Sp_stored a \<longrightarrow> Gr_RevocationEpoch g = Rec_RevocationEpoch rec)"

inductive spec_step :: "prims \<Rightarrow> trust_event \<Rightarrow> TrustSpec \<Rightarrow> TrustSpec \<Rightarrow> bool" for P where
  spec_quiet: "spec_step P Quiet a a"
| spec_submit: "proven P (Sp_cfg a) ident \<Longrightarrow> dv = ID_DeviceID ident \<Longrightarrow>
    spec_step P (Submitted ident) a (a\<lparr>Sp_devices := (Sp_devices a)(dv \<mapsto> submitted_record ident (Sp_devices a dv))\<rparr>)"
| spec_authorize: "admissible a dv rec \<Longrightarrow>
    spec_step P (Authorized dv) a (a\<lparr>Sp_devices := (Sp_devices a)(dv \<mapsto> authorized_record rec)\<rparr>)"
| spec_issue: "admissible a dv rec \<Longrightarrow> granted P a dv rec g \<Longrightarrow>
    spec_step P (Issued g) a (a\<lparr>Sp_devices := (Sp_devices a)(dv \<mapsto> authorized_record rec),
      Sp_grants := (Sp_grants a)(Gr_GrantID g \<mapsto> g)\<rparr>)"
| spec_revoke_device: "rec = record_or_zero (Sp_devices a dv) \<Longrightarrow> Sp_stored a \<or> ID_DeviceID (Rec_Identity rec) \<noteq> [] \<Longrightarrow>
    RI_DeviceID item = dv \<Longrightarrow> RI_GrantID item = [] \<Longrightarrow>
    spec_step P (DeviceRevoked dv) a (a\<lparr>Sp_devices := (Sp_devices a)(dv \<mapsto> revoked_record rec), Sp_log := Sp_log a @ [item]\<rparr>)"
| spec_revoke_grant: "Sp_stored a \<or> Sp_grants a gid \<noteq> None \<Longrightarrow> RI_DeviceID item = [] \<Longrightarrow> RI_GrantID item = gid \<Longrightarrow>
    spec_step P (GrantRevoked gid) a (a\<lparr>Sp_revoked := insert gid (Sp_revoked a), Sp_log := Sp_log a @ [item]\<rparr>)"
| spec_rotate: "fst (GenerateIdentityKey P draw) = Inr (priv, pub) \<Longrightarrow> kid = Thumbprint P ''Ed25519'' (pub_key pub) \<Longrightarrow>
    Rotate (Ring_Add (Sp_keys a) \<lparr>Key_ID = kid, Key_State = StateNext, Key_Private = priv, Key_Public = pub\<rparr>) kid = (Inr (), ring) \<Longrightarrow>
    spec_step P (Rotated kid) a (a\<lparr>Sp_keys := ring\<rparr>)"

inductive_cases spec_quietE: "spec_step P Quiet a a'"
inductive_cases spec_stepE: "spec_step P ev a a'"

section \<open>The refinement\<close>

definition trust_abs :: "TrustServer \<Rightarrow> TrustSpec" where
  "trust_abs s = \<lparr>Sp_cfg = Tru_cfg s, Sp_policy = Tru_policy s, Sp_stored = (Tru_repo s \<noteq> None), Sp_keys = Tru_keys s,
     Sp_devices = Tru_devices s, Sp_grants = Tru_grants s, Sp_revoked = Tru_revokedGrants s, Sp_log = Tru_revocationLog s\<rparr>"

definition refines :: "prims \<Rightarrow> Request \<Rightarrow> TrustServer \<Rightarrow> trust_result \<Rightarrow> bool" where
  "refines P r s out \<longleftrightarrow>
     (\<exists>ev. spec_step P ev (trust_abs s) (trust_abs (snd out)) \<and> (admin_event ev \<longrightarrow> trust_adminAuthorized s r))"

lemma abs_unseen [simp]:
  "trust_abs (s\<lparr>Tru_limiter := l\<rparr>) = trust_abs s" "trust_abs (s\<lparr>Tru_replay := c\<rparr>) = trust_abs s"
  "trust_abs (s\<lparr>Tru_audit := u\<rparr>) = trust_abs s" "trust_abs (s\<lparr>Tru_signer := d\<rparr>) = trust_abs s"
  by (simp_all add: trust_abs_def)

lemma abs_with_db [simp]: "Tru_repo s = Some d \<Longrightarrow> trust_abs (snd (with_trust_db d f s)) = trust_abs s"
  by (simp add: with_trust_db_def trust_abs_def split: prod.split)

lemma abs_cfg: "trust_abs s' = trust_abs s \<Longrightarrow> Tru_cfg s' = Tru_cfg s"
  by (simp add: trust_abs_def)

lemma refines_same: "trust_abs (snd out) = trust_abs s \<Longrightarrow> refines P r s out"
  unfolding refines_def by (metis admin_event.simps(1) spec_quiet)

lemma refines_event:
  "spec_step P ev (trust_abs s) (trust_abs (snd out)) \<Longrightarrow> trust_adminAuthorized s r \<or> \<not> admin_event ev \<Longrightarrow> refines P r s out"
  unfolding refines_def by blast

lemma refines_handle:
  assumes "trust_abs (snd p) = trust_abs s"
    and "\<And>e s'. p = (Inl e, s') \<Longrightarrow> trust_abs s' = trust_abs s \<Longrightarrow> refines P r s (bad e s')"
    and "\<And>x s'. p = (Inr x, s') \<Longrightarrow> trust_abs s' = trust_abs s \<Longrightarrow> refines P r s (good x s')"
  shows "refines P r s (handle p bad good)"
  using assms by (auto simp: handle_def split: prod.splits sum.splits)

lemma abs_handle:
  assumes "trust_abs (snd p) = trust_abs s"
    and "\<And>e s'. p = (Inl e, s') \<Longrightarrow> trust_abs s' = trust_abs s \<Longrightarrow> trust_abs (snd (bad e s')) = trust_abs s"
    and "\<And>x s'. p = (Inr x, s') \<Longrightarrow> trust_abs s' = trust_abs s \<Longrightarrow> trust_abs (snd (good x s')) = trust_abs s"
  shows "trust_abs (snd (handle p bad good)) = trust_abs s"
  using assms by (auto simp: handle_def split: prod.splits sum.splits)

lemma abs_then:
  assumes "trust_abs (snd p) = trust_abs s"
    and "\<And>x s'. p = (Inr x, s') \<Longrightarrow> trust_abs s' = trust_abs s \<Longrightarrow> trust_abs (snd (k x s')) = trust_abs s"
  shows "trust_abs (snd (then_db p k)) = trust_abs s"
  using assms by (auto simp: then_db_def split: prod.splits sum.splits)

subsection \<open>The functions the handlers call\<close>

lemma abs_verifyProof: "trust_abs (snd (trust_verifyProof P s now ident prf aud ch ttl)) = trust_abs s"
  by (auto simp: trust_verifyProof_def Let_def split: option.split prod.split intro!: abs_then)

lemma verifyProof_proven: "fst (trust_verifyProof P s now ident prf aud ch ttl) = Inr () \<Longrightarrow> VerifyProof P ident prf aud ch now ttl = Inr ()"
  by (auto simp: trust_verifyProof_def then_db_def split: if_splits sum.splits)

lemma abs_persist: "trust_abs (snd (persistSubmittedDevice P s now draw ident)) = trust_abs s"
proof (cases "Tru_repo s")
  case (Some d)
  then show ?thesis by (simp add: persistSubmittedDevice_def then_db_def split: sum.split)
qed (simp add: persistSubmittedDevice_def)

lemma abs_persistGrant: "trust_abs (snd (persistGrant s now draw g)) = trust_abs s"
proof (cases "Tru_repo s")
  case (Some d)
  then show ?thesis by (simp add: persistGrant_def then_db_def split: sum.split)
qed (simp add: persistGrant_def)

lemma abs_find_record: "trust_abs (snd (find_record s dv)) = trust_abs s"
  by (auto simp: find_record_def split: option.split intro!: abs_handle)

lemma abs_find_grant: "trust_abs (snd (find_grant s gid)) = trust_abs s"
  by (auto simp: find_grant_def Let_def split: option.split intro!: abs_handle)

lemma abs_subject_record: "trust_abs (snd (subject_record s dv)) = trust_abs s"
  by (auto simp: subject_record_def Let_def split: option.split intro!: abs_handle)

lemma abs_authorize_stored: "trust_abs (snd (authorize_stored s now dv rec)) = trust_abs s"
  by (auto simp: authorize_stored_def split: option.split intro!: abs_handle)

lemma find_record_memory: "fst (find_record s dv) = Inr (Some rec) \<Longrightarrow> Tru_devices s dv = Some rec \<or> (Tru_devices s dv = None \<and> Tru_repo s \<noteq> None)"
  by (auto simp: find_record_def split: option.splits)

lemmas abs_calls = abs_verifyProof abs_persist abs_persistGrant abs_find_record abs_find_grant abs_subject_record abs_authorize_stored

subsection \<open>The handlers\<close>

lemma refines_method: "(Req_Method r = m \<Longrightarrow> refines P r s k) \<Longrightarrow> refines P r s (trust_method m r s k)"
  by (simp add: trust_method_def refines_same)

lemma refines_admin: "(trust_adminAuthorized s r \<Longrightarrow> refines P r s k) \<Longrightarrow> refines P r s (trust_requireAdmin s r k)"
  by (simp add: trust_requireAdmin_def refines_same)

lemma refines_if: "(c \<Longrightarrow> refines P r s x) \<Longrightarrow> (\<not> c \<Longrightarrow> refines P r s y) \<Longrightarrow> refines P r s (if c then x else y)"
  by simp

lemma refines_submit: "refines P r s (submitDevice P w r s)"
proof -
  have step: "refines P r s (trust_answer 200 (Trust_Device rec)
      (s2\<lparr>Tru_devices := (Tru_devices s2)(ID_DeviceID (SQ_Identity req) \<mapsto>
             submitted_record (SQ_Identity req) (Tru_devices s2 (ID_DeviceID (SQ_Identity req)))), Tru_audit := u\<rparr>))"
    if "trust_verifyProof P s now (SQ_Identity req) (SQ_Proof req) (TCfg_TrustRootID (Tru_cfg s)) (DP_Challenge (SQ_Proof req)) (5 * Minute) = (Inr (), s1)"
      "trust_abs s2 = trust_abs s" for req now s1 s2 rec u
  proof -
    have "proven P (Tru_cfg s) (SQ_Identity req)"
      using verifyProof_proven[of P s now] that(1) unfolding proven_def by (metis fst_conv)
    then have "spec_step P (Submitted (SQ_Identity req)) (trust_abs s2) (trust_abs (s2\<lparr>Tru_devices := (Tru_devices s2)(ID_DeviceID (SQ_Identity req) \<mapsto>
             submitted_record (SQ_Identity req) (Tru_devices s2 (ID_DeviceID (SQ_Identity req))))\<rparr>))"
      using spec_submit[of P "trust_abs s2" "SQ_Identity req"] abs_cfg[OF that(2)] by (simp add: trust_abs_def)
    then show ?thesis using that(2) by (intro refines_event[where ev = "Submitted (SQ_Identity req)"]) (simp_all add: trust_abs_def)
  qed
  show ?thesis
    unfolding submitDevice_def Let_def submitted_record_def[unfolded Let_def, symmetric]
    by (intro refines_method refines_handle) (auto simp: abs_calls refines_same intro: step)
qed

lemma authorize_record_admissible:
  assumes "authorize_record s dv = (Inr rec', s')"
  obtains rec s1 where "rec' = authorized_record rec" "admissible (trust_abs s) dv rec" "trust_abs s1 = trust_abs s"
    "s' = s1\<lparr>Tru_devices := (Tru_devices s)(dv \<mapsto> rec')\<rparr>"
proof -
  obtain s1 rec where f: "find_record s dv = (Inr (Some rec), s1)" and st: "Rec_Status rec \<noteq> ''revoked''"
    and r: "rec' = authorized_record rec" "s' = s1\<lparr>Tru_devices := (Tru_devices s1)(dv \<mapsto> rec')\<rparr>"
    using assms by (auto simp: authorize_record_def handle_def Let_def authorized_record_def split: prod.splits sum.splits option.splits if_splits)
  have a: "trust_abs s1 = trust_abs s" using abs_find_record[of s dv] f by simp
  then have "Tru_devices s1 = Tru_devices s" by (simp add: trust_abs_def)
  moreover have "admissible (trust_abs s) dv rec"
    using find_record_memory[of s dv rec] f st by (auto simp: admissible_def trust_abs_def split: option.split)
  ultimately show thesis using that r a by auto
qed

lemma authorize_record_denied: "authorize_record s dv = (Inl e, s') \<Longrightarrow> trust_abs s' = trust_abs s"
  using abs_find_record[of s dv]
  by (auto simp: authorize_record_def handle_def Let_def split: prod.splits sum.splits option.splits if_splits)

lemma new_grant_granted:
  assumes "Engine_Rule (Tru_policy s) (hd (requested_permissions req)) = Inr rule" "activeSigner s t = Inr signer"
    and "SignGrant P signer (new_grant P req rec rule now) = Inr g" "Sp_policy a = Tru_policy s" "Sp_cfg a = Tru_cfg s" "Sp_keys a = Tru_keys s"
    and "\<not> Sp_stored a \<Longrightarrow> Rec_RevocationEpoch rec = Rec_RevocationEpoch rec0"
  shows "granted P a (AQ_DeviceID req) rec0 g"
proof -
  obtain key where key: "Active (Tru_keys s) = Inr key" "signer = \<lparr>Dev_Identity = signer_identity (Tru_cfg s) (Key_ID key) (Key_Public key) t, Dev_Private = Key_Private key\<rparr>"
    using assms(2) by (auto simp: activeSigner_def and_then_Inr_iff)
  note f = SignGrant_fields(3)[OF assms(3)]
  have p: "Gr_Permissions g = Some (requested_permissions req)" "Gr_NotBefore g = Add now (- Second)" "Gr_ExpiresAt g = Add now (grant_ttl req rule)"
    "Gr_SubjectDeviceID g = AQ_DeviceID req" "Gr_RevocationEpoch g = Rec_RevocationEpoch rec"
    using arg_cong[OF f, of Gr_Permissions] arg_cong[OF f, of Gr_NotBefore] arg_cong[OF f, of Gr_ExpiresAt]
      arg_cong[OF f, of Gr_SubjectDeviceID] arg_cong[OF f, of Gr_RevocationEpoch] by (simp_all add: new_grant_def)
  have "grant_ttl req rule \<le> Rule_MaxTTL rule" by (simp add: grant_ttl_def Let_def)
  with assms key p show ?thesis unfolding granted_def by (auto simp: Add_def intro!: exI[of _ key] exI[of _ "new_grant P req rec rule now"])
qed

lemma refines_issue:
  assumes "trust_adminAuthorized s r" "admissible (trust_abs s) (AQ_DeviceID req) rec0"
    and "trust_abs s1 = (trust_abs s)\<lparr>Sp_devices := (Tru_devices s)(AQ_DeviceID req \<mapsto> authorized_record rec0)\<rparr>"
    and "Tru_repo s = None \<Longrightarrow> Rec_RevocationEpoch rec = Rec_RevocationEpoch rec0"
  shows "refines P r s (issue_grant P w req rec s1)"
proof -
  let ?a1 = "(trust_abs s)\<lparr>Sp_devices := (Tru_devices s)(AQ_DeviceID req \<mapsto> authorized_record rec0)\<rparr>"
  have only: "refines P r s (x, s2)" if "trust_abs s2 = ?a1" for x s2
    using spec_authorize[OF assms(2), of P] assms(1) that by (intro refines_event[where ev = "Authorized (AQ_DeviceID req)"]) (auto simp: trust_abs_def)
  show ?thesis
  proof (cases "Engine_Rule (Tru_policy s1) (hd (requested_permissions req))")
    case (Inr rule)
    note rule = this
    show ?thesis
    proof (cases "activeSigner s1 (W_clock w 2)")
      case (Inr signer)
      note signer = this
      show ?thesis
      proof (cases "SignGrant P signer (new_grant P req rec rule (W_clock w 1))")
        case (Inr g)
        have s1: "Tru_cfg s1 = Tru_cfg s" "Tru_policy s1 = Tru_policy s" "Tru_keys s1 = Tru_keys s" using assms(3) by (simp_all add: trust_abs_def)
        have g: "granted P (trust_abs s) (AQ_DeviceID req) rec0 g"
          by (rule new_grant_granted[OF rule signer Inr]) (use s1 assms(4) in \<open>simp_all add: trust_abs_def\<close>)
        obtain res s2 where p: "persistGrant s1 (W_clock w 3) (W_uuid w 0) g = (res, s2)" by force
        have s2: "trust_abs s2 = ?a1" using abs_persistGrant[of s1 "W_clock w 3" "W_uuid w 0" g] assms(3) p by simp
        show ?thesis
        proof (cases res)
          case (Inr u)
          have "refines P r s (x, s2\<lparr>Tru_grants := (Tru_grants s2)(Gr_GrantID g \<mapsto> g), Tru_audit := v\<rparr>)" for x v
            using spec_issue[OF assms(2) g] assms(1) s2 by (intro refines_event[where ev = "Issued g"]) (auto simp: trust_abs_def)
          with Inr rule signer \<open>SignGrant _ _ _ = Inr g\<close> p show ?thesis by (simp add: issue_grant_def)
        qed (use rule signer Inr p s2 only in \<open>simp add: issue_grant_def\<close>)
      qed (use rule signer assms(3) only in \<open>simp add: issue_grant_def\<close>)
    qed (use rule assms(3) only in \<open>simp add: issue_grant_def\<close>)
  qed (use assms(3) only in \<open>simp add: issue_grant_def\<close>)
qed

lemma refines_authorize: "refines P r s (authorizeDevice P w r s)"
proof -
  have "refines P r s (case authorize_record s (AQ_DeviceID req) of
       (Inl (status, err), s) \<Rightarrow> trust_refuse status err s
     | (Inr rec, s) \<Rightarrow> handle (authorize_stored s (W_clock w 0) (AQ_DeviceID req) rec) (trust_refuse 403) (\<lambda>rec s. issue_grant P w req rec s))"
    (is "refines P r s ?out") if adm: "trust_adminAuthorized s r" for req
  proof (cases "authorize_record s (AQ_DeviceID req)")
    case (Pair res s1)
    show ?thesis
    proof (cases res)
      case (Inl e)
      then show ?thesis using Pair authorize_record_denied[of s "AQ_DeviceID req" e s1] by (cases e) (simp add: refines_same)
    next
      case (Inr rec)
      from Pair Inr obtain rec0 s0 where a: "rec = authorized_record rec0" "admissible (trust_abs s) (AQ_DeviceID req) rec0"
        "trust_abs s0 = trust_abs s" "s1 = s0\<lparr>Tru_devices := (Tru_devices s)(AQ_DeviceID req \<mapsto> rec)\<rparr>"
        by (metis authorize_record_admissible)
      have a1: "trust_abs s1 = (trust_abs s)\<lparr>Sp_devices := (Tru_devices s)(AQ_DeviceID req \<mapsto> authorized_record rec0)\<rparr>"
        using a by (simp add: trust_abs_def)
      obtain res2 s2 where st: "authorize_stored s1 (W_clock w 0) (AQ_DeviceID req) rec = (res2, s2)" by force
      have s2: "trust_abs s2 = trust_abs s1" using abs_authorize_stored[of s1 "W_clock w 0" "AQ_DeviceID req" rec] st by simp
      show ?thesis
      proof (cases res2)
        case Inl
        then show ?thesis using Pair Inr st s2 a1 spec_authorize[OF a(2), of P] adm
          by (auto simp: trust_abs_def intro!: refines_event[where ev = "Authorized (AQ_DeviceID req)"])
      next
        case (Inr rec2)
        have "Rec_RevocationEpoch rec2 = Rec_RevocationEpoch rec0" if "Tru_repo s = None"
        proof -
          have "Tru_repo s1 = None" using that a1 by (simp add: trust_abs_def)
          then show ?thesis using st Inr a(1) by (auto simp: authorize_stored_def authorized_record_def)
        qed
        from refines_issue[OF adm a(2) _ this] s2 a1 Pair \<open>res = Inr rec\<close> Inr st show ?thesis by simp
      qed
    qed
  qed
  then show ?thesis
    unfolding authorizeDevice_def by (intro refines_method refines_admin refines_handle) (auto simp: refines_same)
qed

lemma refines_verify: "refines P r s (verifyGrant P w r s)"
  unfolding verifyGrant_def by (intro refines_method refines_handle) (auto simp: abs_calls refines_same)

lemma refines_deviceStatus: "refines P r s (deviceStatus r s)"
  unfolding deviceStatus_def Let_def
  by (intro refines_method refines_handle) (auto simp: abs_calls refines_same split: option.split)

lemma refines_grantStatus: "refines P r s (grantStatus w r s)"
proof -
  have "refines P r s (handle (q, s') (trust_refuse 500) (\<lambda>raw s. trust_answer 200 (f raw s) s))" if "trust_abs s' = trust_abs s" for q s' f
    using that by (cases q) (simp_all add: refines_same)
  then show ?thesis
    unfolding grantStatus_def Let_def
    by (intro refines_method refines_handle) (auto simp: abs_calls refines_same split: option.split)
qed

lemma refines_revokeGrant: "refines P r s (revokeGrant w r s)"
proof -
  have step: "refines P r s (handle (q, s1\<lparr>Tru_revokedGrants := insert gid (Tru_revokedGrants s1), Tru_revocationLog := Tru_revocationLog s1 @ [item], Tru_audit := u\<rparr>)
      (trust_refuse 500) (\<lambda>raw. trust_answer 200 (f raw)))"
    if "trust_adminAuthorized s r" "trust_abs s1 = trust_abs s" "Tru_grants s gid = None \<longrightarrow> (\<exists>d. Tru_repo s = Some d)"
      "RI_DeviceID item = []" "RI_GrantID item = gid" for gid item s1 u q f
  proof -
    have a: "trust_abs (s1\<lparr>Tru_revokedGrants := insert gid (Tru_revokedGrants s1), Tru_revocationLog := Tru_revocationLog s1 @ [item], Tru_audit := u\<rparr>) =
        (trust_abs s)\<lparr>Sp_revoked := insert gid (Sp_revoked (trust_abs s)), Sp_log := Sp_log (trust_abs s) @ [item]\<rparr>"
      using that(2) by (simp add: trust_abs_def)
    have "spec_step P (GrantRevoked gid) (trust_abs s) ((trust_abs s)\<lparr>Sp_revoked := insert gid (Sp_revoked (trust_abs s)), Sp_log := Sp_log (trust_abs s) @ [item]\<rparr>)"
      using that(3-5) by (intro spec_revoke_grant) (auto simp: trust_abs_def)
    with a that(1) show ?thesis
      by (cases q) (auto intro!: refines_event[where ev = "GrantRevoked gid"])
  qed
  have after: "refines P r s (handle (case Tru_repo s of None \<Rightarrow> (Inr (), s) | Some d \<Rightarrow> with_trust_db d g s)
      (\<lambda>err s. if err = ErrNoRows then trust_refuse 404 e s else trust_refuse 500 err s)
      (\<lambda>_ s. handle (q, s\<lparr>Tru_revokedGrants := insert gid (Tru_revokedGrants s), Tru_revocationLog := Tru_revocationLog s @ [item s], Tru_audit := u s\<rparr>)
         (trust_refuse 500) (\<lambda>raw. trust_answer 200 (f raw))))"
    if "trust_adminAuthorized s r" "Tru_grants s gid = None \<longrightarrow> (\<exists>d. Tru_repo s = Some d)" "\<And>s. RI_DeviceID (item s) = []" "\<And>s. RI_GrantID (item s) = gid"
    for gid item u q f g e
    by (rule refines_handle) (simp split: option.split, simp add: refines_same, rule step, use that in auto)
  show ?thesis
  proof (cases "DecodeJSON (revoke_table ''grant_id'') no_revoke (Req_Body r)")
    case (Inr req)
    note req = this
    show ?thesis
    proof (cases "NewUUIDv7Like (W_clock w 0) (W_uuid w 0)")
      case (Inr uuid)
      show ?thesis
        unfolding revokeGrant_def Let_def req Inr handle_simps
        by (intro refines_method refines_admin refines_if, simp add: refines_same, rule after) auto
    qed (simp add: revokeGrant_def Let_def req refines_same trust_method_def trust_requireAdmin_def)
  qed (simp add: revokeGrant_def refines_same trust_method_def trust_requireAdmin_def)
qed

lemma refines_revokeDevice: "refines P r s (revokeDevice w r s)"
proof -
  have after: "refines P r s (let
         rec = rec0\<lparr>Rec_Status := ''revoked'', Rec_DeviceRecordVersion := Rec_DeviceRecordVersion rec0 + 1,
                     Rec_RevocationEpoch := Rec_RevocationEpoch rec0 + 1\<rparr>;
         s = s\<lparr>Tru_devices := (Tru_devices s)(dv \<mapsto> rec), Tru_revocationLog := Tru_revocationLog s @ [item], Tru_audit := u\<rparr>
       in case Tru_repo s of
            None \<Rightarrow> trust_answer 200 (Trust_Device rec) s
          | Some d \<Rightarrow>
              handle (with_trust_db d (f s) s) (trust_refuse 500) (\<lambda>_ s.
              case Tru_repo s of
                None \<Rightarrow> trust_answer 200 (Trust_Device rec) s
              | Some d \<Rightarrow>
                  handle (with_trust_db d (g s) s) (\<lambda>_. trust_answer 200 (Trust_Device rec)) (\<lambda>dbDevice. trust_answer 200 (k dbDevice))))"
    (is "refines P r s ?out")
    if "trust_adminAuthorized s r" "rec0 = record_or_zero (Tru_devices s dv)" "\<not> (ID_DeviceID (Rec_Identity rec0) = [] \<and> Tru_repo s = None)"
      "RI_DeviceID item = dv" "RI_GrantID item = []" for rec0 dv item u k g and f :: "TrustServer \<Rightarrow> trust_db \<Rightarrow> unit result \<times> trust_db"
  proof -
    let ?s = "s\<lparr>Tru_devices := (Tru_devices s)(dv \<mapsto> revoked_record rec0), Tru_revocationLog := Tru_revocationLog s @ [item], Tru_audit := u\<rparr>"
    have "trust_abs (snd ?out) = trust_abs ?s"
      unfolding Let_def revoked_record_def[symmetric]
      by (cases "Tru_repo ?s") (simp_all, auto intro!: abs_handle split: option.split)
    moreover have "spec_step P (DeviceRevoked dv) (trust_abs s) (trust_abs ?s)"
      using spec_revoke_device[of rec0 "trust_abs s" dv item P] that(2-) by (auto simp: trust_abs_def)
    ultimately show ?thesis using that(1) by (intro refines_event[where ev = "DeviceRevoked dv"]) auto
  qed
  show ?thesis
  proof (cases "DecodeJSON (revoke_table ''device_id'') no_revoke (Req_Body r)")
    case (Inr req)
    note req = this
    show ?thesis
    proof (cases "NewUUIDv7Like (W_clock w 0) (W_uuid w 0)")
      case (Inr uuid)
      have "refines P r s (handle (NewUUIDv7Like (W_clock w 0) (W_uuid w 0), s) bad (\<lambda>uuid s.
        let dv = VK_ID req; rec = record_or_zero (Tru_devices s dv) in
         if ID_DeviceID (Rec_Identity rec) = [] \<and> Tru_repo s = None then trust_refuse 404 e s else good uuid s dv rec))"
        if "\<not> (ID_DeviceID (Rec_Identity (record_or_zero (Tru_devices s (VK_ID req)))) = [] \<and> Tru_repo s = None) \<Longrightarrow>
            refines P r s (good uuid s (VK_ID req) (record_or_zero (Tru_devices s (VK_ID req))))" for bad e good
        using that by (auto simp: Inr Let_def intro: refines_same)
      note start = this
      show ?thesis
        unfolding revokeDevice_def req handle_simps Let_def[of "W_clock w 0"]
        by (intro refines_method refines_admin start, rule after) simp_all
    qed (simp add: revokeDevice_def Let_def req refines_same trust_method_def trust_requireAdmin_def)
  qed (simp add: revokeDevice_def refines_same trust_method_def trust_requireAdmin_def)
qed

lemma refines_revocations: "refines P r s (revocations r s)"
proof -
  have "refines P r s (case Tru_repo s of
       Some d \<Rightarrow> handle (with_trust_db d f s) (trust_refuse 500) (\<lambda>x. trust_answer 200 (g x))
     | None \<Rightarrow> trust_answer 200 y s)" for f :: "trust_db \<Rightarrow> TrustRevocation list result \<times> trust_db" and g y
    by (cases "Tru_repo s") (auto simp: refines_same intro!: refines_handle)
  then show ?thesis
    unfolding revocations_def Let_def by (intro refines_method refines_if) (auto simp: refines_same split: sum.split)
qed

lemma refines_rotate: "refines P r s (rotateKeys P w r s)"
proof (cases "fst (GenerateIdentityKey P (W_token w 0))")
  case (Inr keys)
  obtain priv pub where k: "keys = (priv, pub)" by force
  let ?kid = "Thumbprint P ''Ed25519'' (pub_key pub)"
  let ?key = "\<lparr>Key_ID = ?kid, Key_State = StateNext, Key_Private = priv, Key_Public = pub\<rparr>"
  obtain ring where ring: "Rotate (Ring_Add (Tru_keys s) ?key) ?kid = (Inr (), ring)"
    by (simp add: Rotate_def Ring_Add_def)
  have "spec_step P (Rotated ?kid) (trust_abs s) ((trust_abs s)\<lparr>Sp_keys := ring\<rparr>)"
    by (rule spec_rotate[OF _ refl]) (use Inr k ring in \<open>simp_all add: trust_abs_def\<close>)
  then have "refines P r s (x, s\<lparr>Tru_keys := ring, Tru_signer := d\<rparr>)" if "trust_adminAuthorized s r" for x d
    using that by (intro refines_event[where ev = "Rotated ?kid"]) (auto simp: trust_abs_def)
  then show ?thesis unfolding rotateKeys_def Inr k handle_simps
    by (intro refines_method refines_admin) (simp add: ring Let_def)
qed (simp add: rotateKeys_def refines_same trust_method_def trust_requireAdmin_def)

lemma refines_wellKnown: "refines P r s (trust_wellKnown P w s)"
  unfolding trust_wellKnown_def Let_def by (intro refines_handle) (auto simp: refines_same)

lemma refines_simple:
  "refines P r s (trust_health s)" "refines P r s (trust_metrics s)" "refines P r s (trust_version s)" "refines P r s (adminAudit r s)"
  by (simp_all add: trust_health_def trust_metrics_def trust_version_def adminAudit_def trust_method_def trust_requireAdmin_def refines_same)

lemma refines_route: "refines P r s (trust_route P w r s)"
  unfolding trust_route_def Let_def
  by (intro refines_if refines_simple refines_wellKnown refines_submit refines_authorize refines_revokeDevice refines_deviceStatus
      refines_verify refines_grantStatus refines_revokeGrant refines_revocations refines_rotate) (simp add: refines_same)

lemma refines_Handler: "refines P r s (trust_Handler P w arrival r s)"
proof -
  obtain ok l where a: "Allow (Tru_limiter s) (clientKey r) arrival = (ok, l)" by force
  have "refines P r s out" if "refines P r (s\<lparr>Tru_limiter := l\<rparr>) out" for out
    using that by (simp add: refines_def trust_adminAuthorized_def)
  then show ?thesis using refines_route by (simp add: trust_Handler_def a Let_def refines_same)
qed

section \<open>Runs\<close>

text \<open>A sequence of requests, with the event of each.\<close>

inductive trust_run :: "prims \<Rightarrow> TrustServer \<Rightarrow> trust_event list \<Rightarrow> TrustServer \<Rightarrow> bool" for P s where
  trust_start: "trust_run P s [] s"
| trust_request: "trust_run P s evs s' \<Longrightarrow> spec_step P ev (trust_abs s') (trust_abs (snd (trust_Handler P w arrival r s'))) \<Longrightarrow>
    trust_run P s (evs @ [ev]) (snd (trust_Handler P w arrival r s'))"

lemma trust_run_extends: "trust_run P s evs s' \<Longrightarrow> \<exists>ev. trust_run P s (evs @ [ev]) (snd (trust_Handler P w arrival r s'))"
  using refines_Handler[of P r s' w arrival] by (auto simp: refines_def intro: trust_request)

lemma trust_run_keeps:
  assumes "trust_run P s evs s'" "I (trust_abs s)"
    and "\<And>ev a a'. spec_step P ev a a' \<Longrightarrow> ev \<in> set evs \<Longrightarrow> I a \<Longrightarrow> I a'"
  shows "I (trust_abs s')"
  using assms by (induction rule: trust_run.induct) auto

end
