(* ===== verification/Trust_Codec.thy ===== *)
theory Trust_Codec
  imports Trust_Server
begin

text \<open>
  Reading back what the trust root writes: the 64-bit counters through their decimal texts and the
  database's signed integers, and grants, alone and in a request to verify one, through JSON.
\<close>

section \<open>Counters\<close>

lemma ParseUint_show: "ParseUint (show_int (uint v)) = Inr v"
proof -
  have "show_int (uint v) = show_nat (nat (uint v))" by (simp add: show_int_def)
  moreover have "uint v < 2 ^ 64" using uint_lt2p[of v] by simp
  ultimately show ?thesis by (simp add: ParseUint_def show_nat_digits show_nat_Nil digits_value_show)
qed

lemma uint64ToInt64_iff: "uint64ToInt64 v = Inr i \<longleftrightarrow> i = uint v \<and> uint v \<le> 9223372036854775807"
proof (cases "uint v \<le> 9223372036854775807")
  case True
  then have "int64_ok (uint v)" by (simp add: int64_ok_def order_trans[OF _ uint_ge_0])
  then show ?thesis using True by (auto simp: uint64ToInt64_def ParseInt_show_int)
next
  case False
  then have "\<not> int64_ok (uint v)" by (simp add: int64_ok_def)
  moreover have "show_int (uint v) = show_nat (nat (uint v))" by (simp add: show_int_def)
  ultimately have "\<exists>e. ParseInt (show_int (uint v)) = Inl e"
    using show_nat_digits[of "nat (uint v)"] show_nat_Nil[of "nat (uint v)"] digits_value_show[of "nat (uint v)"] show_nat_not_minus[of "nat (uint v)"]
    by (auto simp: ParseInt_def Let_def split: list.splits)
  then show ?thesis using False by (auto simp: uint64ToInt64_def)
qed

lemma stored_counter: "uint64ToInt64 v = Inr i \<Longrightarrow> int64ToUint64 i = Some v"
  by (simp add: uint64ToInt64_iff int64ToUint64_def ParseUint_show)

lemma set_uint_doc [simp]: "set_uint upd (DInt (uint v)) r = Inr (upd v r)"
  by (simp add: set_uint_def DInt_def ParseUint_show)

section \<open>Grants\<close>

definition grant_valid :: "Grant \<Rightarrow> bool" where
  "grant_valid g \<longleftrightarrow> grant_strings_valid g \<and> year_ok (Gr_NotBefore g) \<and> year_ok (Gr_ExpiresAt g) \<and> valid_utf8 (Sig_Alg (Gr_Signature g)) \<and>
     valid_utf8 (Sig_KID (Gr_Signature g)) \<and> valid_utf8 (Sig_Value (Gr_Signature g))"

definition grant_docs :: "Grant \<Rightarrow> (string \<times> jdoc) list" where
  "grant_docs g =
     [(''type'', DStr (Gr_Type g)), (''grant_id'', DStr (Gr_GrantID g)), (''issuer'', DStr (Gr_Issuer g)),
      (''subject_device_id'', DStr (Gr_SubjectDeviceID g)), (''audience'', DStr (Gr_Audience g)),
      (''confirmation_thumbprint'', DStr (Gr_ConfirmationThumbprint g)), (''permissions'', slice_doc (Gr_Permissions g))] @
     (if Gr_RelayConstraints g = [] then [] else [(''relay_constraints'', DStrs (Gr_RelayConstraints g))]) @
     [(''not_before'', DStr (rfc3339 (Gr_NotBefore g))), (''expires_at'', DStr (rfc3339 (Gr_ExpiresAt g))),
      (''revocation_epoch'', DInt (uint (Gr_RevocationEpoch g))), (''signature'', signature_doc (Gr_Signature g))]"

lemma grant_fields_docs: "grant_valid g \<Longrightarrow> json_object (grant_fields g) = Inr (DObj (grant_docs g))"
proof -
  assume "grant_valid g"
  then have "grant_fields g = map (\<lambda>(k, d). (k, Inr d)) (grant_docs g)"
    by (simp add: grant_valid_def grant_fields_def grant_docs_def omit_if_def time_doc_ok)
  then show ?thesis by (simp only: json_object_map)
qed

lemma valid_DStrs: "list_all valid_utf8 ss \<Longrightarrow> valid_doc (DStrs ss) = DArr (map DStr ss)"
  by (simp add: DStrs_def comp_def list_all_iff)

lemma set_strings_slice:
  "list_all valid_utf8 (elems s) \<Longrightarrow> set_strings upd (valid_doc (slice_doc s)) r = Inr (upd s r)"
  by (cases s) (simp_all add: slice_doc_def set_strings_def valid_DStrs collect_strings elems_def del: map_map)

lemma set_strings_strs:
  "list_all valid_utf8 ss \<Longrightarrow> set_strings upd (valid_doc (DStrs ss)) r = Inr (upd (Some ss) r)"
  by (simp add: set_strings_def valid_DStrs collect_strings del: map_map)

lemma decode_grant:
  assumes "grant_valid g"
  shows "set_members grant_table (map (\<lambda>(k, d). (to_valid k, valid_doc d)) (grant_docs g)) no_grant = Inr g"
proof -
  note v = assms[unfolded grant_valid_def grant_strings_valid_def]
  have t: "to_valid (rfc3339 (Gr_NotBefore g)) = rfc3339 (Gr_NotBefore g)" "to_valid (rfc3339 (Gr_ExpiresAt g)) = rfc3339 (Gr_ExpiresAt g)"
    using v by (simp_all add: rfc3339_ascii)
  have i: "valid_doc (DInt i) = DInt i" for i by (simp add: DInt_def)
  have p: "set_strings upd (valid_doc (slice_doc (Gr_Permissions g))) r = Inr (upd (Gr_Permissions g) r)" for upd and r :: Grant
    by (rule set_strings_slice) (use v in simp)
  have c: "set_strings upd (valid_doc (DStrs (Gr_RelayConstraints g))) r = Inr (upd (Some (Gr_RelayConstraints g)) r)" for upd and r :: Grant
    by (rule set_strings_strs) (use v in simp)
  have sg: "set_struct signature_table Gr_Signature upd (valid_doc (signature_doc (Gr_Signature g))) r = Inr (upd (Gr_Signature g) r)" for upd and r :: Grant
    using v by (simp add: set_struct_def decode_signature)
  have y: "year_ok (Gr_NotBefore g)" "year_ok (Gr_ExpiresAt g)" using v by simp_all
  have sv: "to_valid (Gr_Type g) = Gr_Type g" "to_valid (Gr_GrantID g) = Gr_GrantID g" "to_valid (Gr_Issuer g) = Gr_Issuer g"
    "to_valid (Gr_SubjectDeviceID g) = Gr_SubjectDeviceID g" "to_valid (Gr_Audience g) = Gr_Audience g"
    "to_valid (Gr_ConfirmationThumbprint g) = Gr_ConfirmationThumbprint g" using v by simp_all
  have k: "map (\<lambda>(k, d). (to_valid k, valid_doc d)) (grant_docs g) = map (\<lambda>(k, d). (k, valid_doc d)) (grant_docs g)"
    by (simp add: grant_docs_def to_valid_ascii del: to_valid.simps(2) valid_doc.simps)
  show ?thesis
    unfolding k
    by (cases "Gr_RelayConstraints g = []")
      (simp_all add: grant_docs_def find_setter_exact grant_table_def no_grant_def t i p c sg y sv elems_def del: to_valid.simps(2))
qed

lemma grant_docs_ok: "doc_ok (DObj (grant_docs g))"
  by (auto simp: grant_docs_def slice_doc_def signature_doc_def split: option.split)

lemma depth_DStrs: "doc_depth (DStrs ss) \<le> 1"
  by (induction ss) (auto simp: DStrs_def)

lemma grant_docs_depth: "doc_depth (DObj (grant_docs g)) \<le> 2"
  using depth_DStrs[of "Gr_RelayConstraints g"] depth_DStrs[of "elems (Gr_Permissions g)"]
  by (auto simp: grant_docs_def slice_doc_def signature_doc_def elems_def DInt_def split: option.split)

lemma MarshalGrant_decodes:
  assumes "grant_valid g"
  shows "and_then (MarshalGrant g) (Unmarshal_struct grant_table no_grant) = Inr g"
proof -
  have "doc_depth (DObj (grant_docs g)) \<le> maxNestingDepth" using grant_docs_depth[of g] by (simp add: maxNestingDepth_def)
  with grant_docs_ok show ?thesis
    using decode_grant[OF assms] by (simp add: MarshalGrant_def grant_fields_docs[OF assms] json_Marshal_def Unmarshal_struct_encode
        del: encode.simps doc_ok.simps doc_depth.simps)
qed

section \<open>A request to verify a grant\<close>

definition verify_docs :: "verifyRequest \<Rightarrow> (string \<times> jdoc) list" where
  "verify_docs q =
     [(''grant'', DObj (grant_docs (VQ_Grant q))), (''audience'', DStr (VQ_Audience q)), (''subject_device_id'', DStr (VQ_SubjectDeviceID q)),
      (''confirmation_thumbprint'', DStr (VQ_ConfirmationThumbprint q)), (''permission'', DStr (VQ_Permission q)),
      (''relay_id'', DStr (VQ_RelayID q))]"

lemma verify_request_decodes:
  assumes "grant_valid (VQ_Grant q)" "valid_utf8 (VQ_Audience q)" "valid_utf8 (VQ_SubjectDeviceID q)"
    "valid_utf8 (VQ_ConfirmationThumbprint q)" "valid_utf8 (VQ_Permission q)" "valid_utf8 (VQ_RelayID q)"
  shows "DecodeJSON verify_table no_verify (encode (DObj (verify_docs q))) = Inr q"
proof -
  have "doc_ok (DObj (verify_docs q))" using grant_docs_ok[of "VQ_Grant q"] by (simp add: verify_docs_def)
  moreover have "doc_depth (DObj (verify_docs q)) \<le> maxNestingDepth"
    using grant_docs_depth[of "VQ_Grant q"] by (simp add: verify_docs_def maxNestingDepth_def)
  ultimately have "DecodeJSON verify_table no_verify (encode (DObj (verify_docs q)) @ []) =
      set_members verify_table (map (\<lambda>(k, d). (to_valid k, valid_doc d)) (verify_docs q)) no_verify"
    by (intro DecodeJSON_encode) simp_all
  moreover have "map (\<lambda>(k, d). (to_valid k, valid_doc d)) (verify_docs q) = map (\<lambda>(k, d). (k, valid_doc d)) (verify_docs q)"
    by (simp add: verify_docs_def to_valid_ascii del: to_valid.simps(2) valid_doc.simps)
  moreover have "decode_struct grant_table (valid_doc (DObj (grant_docs (VQ_Grant q)))) no_grant = Inr (VQ_Grant q)"
    using decode_grant[OF assms(1)] by (simp add: decode_struct_def)
  then have "set_struct grant_table VQ_Grant upd (valid_doc (DObj (grant_docs (VQ_Grant q)))) no_verify = Inr (upd (VQ_Grant q) no_verify)" for upd
    by (simp add: set_struct_def no_verify_def del: valid_doc.simps)
  moreover have "to_valid (VQ_Audience q) = VQ_Audience q" "to_valid (VQ_SubjectDeviceID q) = VQ_SubjectDeviceID q"
    "to_valid (VQ_ConfirmationThumbprint q) = VQ_ConfirmationThumbprint q" "to_valid (VQ_Permission q) = VQ_Permission q"
    "to_valid (VQ_RelayID q) = VQ_RelayID q" using assms by (simp_all add: to_valid_id)
  ultimately show ?thesis
    by (simp add: verify_docs_def verify_table_def find_setter_exact no_verify_def del: to_valid.simps(2) encode.simps valid_doc.simps(3))
qed

end
