(* ===== verification/Trust_Properties.thy ===== *)
theory Trust_Properties
  imports Trust_Spec Trust_Codec
begin

text \<open>
  Invariants of the trust root, proved on its specification and carried to the server by the runs: the
  keys stay pairs under their thumbprints and are never lost, the epoch of a device changes only by
  a revocation, a revoked device stays revoked. And what a successful authorization returned.
\<close>

section \<open>Keys\<close>

definition key_pair :: "prims \<Rightarrow> Key \<Rightarrow> bool" where
  "key_pair P key \<longleftrightarrow> length (priv_key (Key_Private key)) = 64 \<and>
     drop 32 (priv_key (Key_Private key)) = ed_public P (take 32 (priv_key (Key_Private key))) \<and>
     pub_key (Key_Public key) = drop 32 (priv_key (Key_Private key)) \<and> Key_ID key = Thumbprint P ''Ed25519'' (pub_key (Key_Public key))"

definition keys_ok :: "prims \<Rightarrow> Ring \<Rightarrow> bool" where
  "keys_ok P ring \<longleftrightarrow> ring_ok ring \<and> (\<forall>key\<in>snd ` set (Ring_keys ring). key_pair P key \<and> Key_State key \<noteq> StateRevoked)"

lemma key_pair_state [simp]: "key_pair P (key\<lparr>Key_State := st\<rparr>) = key_pair P key"
  by (simp add: key_pair_def)

lemma key_pair_retire [simp]: "key_pair P (retire key) = key_pair P key"
  by (simp add: retire_def)

lemma retire_revoked [simp]: "Key_State (retire key) = StateRevoked \<longleftrightarrow> Key_State key = StateRevoked"
  by (simp add: retire_def)

lemma key_pair_signer:
  "key_pair P key \<Longrightarrow> device_ok P \<lparr>Dev_Identity = signer_identity cfg (Key_ID key) (Key_Public key) now, Dev_Private = Key_Private key\<rparr>"
  by (simp add: key_pair_def device_ok_def signer_identity_def Let_def)

lemma generated_pair:
  assumes "sig_correct P" "fst (GenerateIdentityKey P draw) = Inr (priv, pub)"
  shows "key_pair P \<lparr>Key_ID = Thumbprint P ''Ed25519'' (pub_key pub), Key_State = st, Key_Private = priv, Key_Public = pub\<rparr>"
proof -
  obtain seed where "length seed = 32" "priv = Ed25519PrivateKey (seed @ ed_public P seed)" "pub = Ed25519PublicKey (ed_public P seed)"
    using GenerateIdentityKey_Inr[of P draw priv pub] assms(2) by (metis prod.collapse)
  with assms(1) show ?thesis by (simp add: key_pair_def sig_correct_def)
qed

lemma keys_ok_add: "keys_ok P ring \<Longrightarrow> key_pair P key \<Longrightarrow> Key_State key \<noteq> StateRevoked \<Longrightarrow> keys_ok P (Ring_Add ring key)"
  using Add_ok[of ring key] by (auto simp: keys_ok_def Ring_Add_def ring_ok_def set_al_put)

lemma keys_ok_rotate:
  assumes "keys_ok P ring" "Rotate ring kid = (Inr (), ring')"
  shows "keys_ok P ring'"
proof -
  obtain nxt where n: "map_of (Ring_keys ring) kid = Some nxt"
    "Ring_keys ring' = al_put kid (nxt\<lparr>Key_State := StateActive\<rparr>) (map (\<lambda>(ident, key). (ident, retire key)) (Ring_keys ring))"
    using assms(2) by (auto simp: Rotate_def split: option.splits if_splits)
  have d: "distinct (map fst (map (\<lambda>(ident, key). (ident, retire key)) (Ring_keys ring)))"
    using assms(1) by (simp only: retire_fst keys_ok_def ring_ok_def)
  have "ring_ok ring'" using Rotate_ok[of ring kid] assms by (simp add: keys_ok_def)
  moreover have "key_pair P nxt" using assms(1) n(1) by (force simp: keys_ok_def dest: map_of_SomeD)
  ultimately show ?thesis using assms(1) unfolding keys_ok_def n(2) set_al_put[OF d] by force
qed

lemma NewTrustRoot_state:
  assumes "sig_correct P" "NewTrustRoot P rd cfg now = Inr s"
  shows "keys_ok P (Tru_keys s)" "Tru_repo s = TCfg_DB cfg" "Tru_devices s = Map.empty" "Tru_revocationLog s = []"
proof -
  obtain signer where d: "fst (NewDevice P rd (TCfg_DomainID cfg) (TCfg_TrustRootID cfg @ ''-signer'') now) = Inr signer"
    and s: "Tru_keys s = Ring_Add NewRing \<lparr>Key_ID = PK_KID (ID_PublicKey (Dev_Identity signer)), Key_State = StateActive,
        Key_Private = Dev_Private signer, Key_Public = PrivateKey_Public (Dev_Private signer)\<rparr>" (is "_ = Ring_Add _ ?key")
      "Tru_repo s = TCfg_DB cfg" "Tru_devices s = Map.empty" "Tru_revocationLog s = []"
    using assms(2) by (auto simp: NewTrustRoot_def Let_def and_then_Inr_iff split: if_splits)
  have "device_ok P signer" using NewDevice_ok(1)[OF assms(1)] d by (metis prod.collapse)
  then have "key_pair P ?key" by (simp add: key_pair_def device_ok_def Let_def PrivateKey_Public_def)
  then show "keys_ok P (Tru_keys s)" unfolding s(1) by (intro keys_ok_add) (simp_all add: keys_ok_def ring_ok_def NewRing_def)
  show "Tru_repo s = TCfg_DB cfg" "Tru_devices s = Map.empty" "Tru_revocationLog s = []" by fact+
qed

lemma keys_ok_step:
  assumes "spec_step P ev a a'" "sig_correct P" "keys_ok P (Sp_keys a)"
  shows "keys_ok P (Sp_keys a')"
  using assms(1)
proof (cases rule: spec_step.cases)
  case (spec_rotate draw priv pub kid ring)
  have "keys_ok P (Ring_Add (Sp_keys a) \<lparr>Key_ID = kid, Key_State = StateNext, Key_Private = priv, Key_Public = pub\<rparr>)"
    using generated_pair[OF assms(2) spec_rotate(3)] spec_rotate(4) assms(3) by (intro keys_ok_add) simp_all
  with keys_ok_rotate[OF _ spec_rotate(5)] spec_rotate(2) show ?thesis by simp
qed (use assms(3) in simp_all)

text \<open>A key stays available for verification unless another one is drawn under its identifier.\<close>

definition has_key :: "string \<Rightarrow> Ed25519PublicKey \<Rightarrow> TrustSpec \<Rightarrow> bool" where
  "has_key kid pub a \<longleftrightarrow> (\<exists>key. map_of (Ring_keys (Sp_keys a)) kid = Some key \<and> Key_ID key = kid \<and> Key_Public key = pub \<and> Key_State key \<noteq> StateRevoked)"

lemma has_key_step:
  assumes "spec_step P ev a a'" "ev \<noteq> Rotated kid" "has_key kid pub a"
  shows "has_key kid pub a'"
  using assms(1)
proof (cases rule: spec_step.cases)
  case (spec_rotate draw priv pub' kid' ring)
  let ?r = "Ring_Add (Sp_keys a) \<lparr>Key_ID = kid', Key_State = StateNext, Key_Private = priv, Key_Public = pub'\<rparr>"
  obtain key where key: "map_of (Ring_keys (Sp_keys a)) kid = Some key" "Key_ID key = kid" "Key_Public key = pub" "Key_State key \<noteq> StateRevoked"
    using assms(3) by (auto simp: has_key_def)
  have ne: "kid \<noteq> kid'" using assms(2) spec_rotate(1) by auto
  obtain nxt where "map_of (Ring_keys ring) = (map_option retire \<circ> map_of (Ring_keys ?r))(kid' \<mapsto> nxt\<lparr>Key_State := StateActive\<rparr>)"
    using Rotate_keys[OF spec_rotate(5)] by metis
  then have "map_of (Ring_keys ring) kid = Some (retire key)" using key(1) ne by (simp add: Ring_Add_def)
  then show ?thesis using key spec_rotate(2) by (auto simp: has_key_def retire_def)
qed (use assms(3) in \<open>simp_all add: has_key_def\<close>)

lemma active_key:
  assumes "keys_ok P (Tru_keys s)" "Active (Tru_keys s) = Inr key"
  shows "key_pair P key" "has_key (Key_ID key) (Key_Public key) (trust_abs s)"
proof -
  have r: "ring_ok (Tru_keys s)" using assms(1) by (simp add: keys_ok_def)
  have m: "map_of (Ring_keys (Tru_keys s)) (Key_ID key) = Some key" by (rule Active_Inr(2)[OF r assms(2)])
  then have "key \<in> snd ` set (Ring_keys (Tru_keys s))" by (force dest: map_of_SomeD)
  with assms(1) m show "key_pair P key" "has_key (Key_ID key) (Key_Public key) (trust_abs s)"
    by (auto simp: keys_ok_def has_key_def trust_abs_def)
qed

lemma trust_run_keys:
  assumes "sig_correct P" "NewTrustRoot P rd cfg now = Inr s0" "trust_run P s0 evs s"
  shows "keys_ok P (Tru_keys s)"
proof -
  have "keys_ok P (Sp_keys (trust_abs s))"
    by (rule trust_run_keeps[OF assms(3)]) (use NewTrustRoot_state(1)[OF assms(1,2)] keys_ok_step assms(1) in \<open>auto simp: trust_abs_def\<close>)
  then show ?thesis by (simp add: trust_abs_def)
qed

section \<open>Devices\<close>

definition epoch_is :: "string \<Rightarrow> 64 word \<Rightarrow> TrustSpec \<Rightarrow> bool" where
  "epoch_is dv e a \<longleftrightarrow> (\<exists>rec. Sp_devices a dv = Some rec \<and> Rec_RevocationEpoch rec = e)"

lemma submitted_keeps [simp]: "Rec_RevocationEpoch (submitted_record ident (Some rec)) = Rec_RevocationEpoch rec"
  "Rec_Status rec \<noteq> [] \<Longrightarrow> Rec_Status (submitted_record ident (Some rec)) = Rec_Status rec"
  "Rec_Identity (submitted_record ident old) = ident"
  by (simp_all add: submitted_record_def Let_def record_or_zero_def)

lemma authorized_keeps [simp]: "Rec_RevocationEpoch (authorized_record rec) = Rec_RevocationEpoch rec"
  by (simp add: authorized_record_def)

lemma epoch_step:
  assumes "spec_step P ev a a'" "ev \<noteq> DeviceRevoked dv" "epoch_is dv e a"
  shows "epoch_is dv e a'"
proof -
  obtain rec where rec: "Sp_devices a dv = Some rec" "Rec_RevocationEpoch rec = e" using assms(3) by (auto simp: epoch_is_def)
  show ?thesis
    using assms(1,2) rec by (cases rule: spec_step.cases) (auto simp: epoch_is_def admissible_def)
qed

text \<open>A revoked device: its status and epoch, after at most \<open>n\<close> further revocations.\<close>

definition stays_revoked :: "string \<Rightarrow> int \<Rightarrow> int \<Rightarrow> TrustSpec \<Rightarrow> bool" where
  "stays_revoked dv e n a \<longleftrightarrow>
     (\<exists>rec. Sp_devices a dv = Some rec \<and> Rec_Status rec = ''revoked'' \<and> ID_DeviceID (Rec_Identity rec) \<noteq> [] \<and>
        e < uint (Rec_RevocationEpoch rec) \<and> uint (Rec_RevocationEpoch rec) \<le> e + 1 + n)"

lemma revoked_epoch: "uint (e :: 64 word) + 1 < 2 ^ 64 \<Longrightarrow> uint (e + 1) = uint e + 1"
  by (simp add: uint_plus_if_size word_size)

lemma revoked_step:
  assumes "spec_step P ev a a'" "stays_revoked dv e n a" "e + 1 + (n + 1) < 2 ^ 64" "dv \<noteq> []"
  shows "stays_revoked dv e (n + 1) a'"
proof -
  obtain rec where rec: "Sp_devices a dv = Some rec" "Rec_Status rec = ''revoked''" "ID_DeviceID (Rec_Identity rec) \<noteq> []"
    "e < uint (Rec_RevocationEpoch rec)" "uint (Rec_RevocationEpoch rec) \<le> e + 1 + n"
    using assms(2) by (auto simp: stays_revoked_def)
  have "uint (Rec_RevocationEpoch rec + 1) = uint (Rec_RevocationEpoch rec) + 1" using rec(5) assms(3) by (intro revoked_epoch) simp
  then have r: "stays_revoked dv e (n + 1) (a\<lparr>Sp_devices := (Sp_devices a)(dv \<mapsto> revoked_record rec), Sp_log := l\<rparr>)" for l
    using rec by (simp add: stays_revoked_def revoked_record_def)
  show ?thesis
    using assms(1)
  proof (cases rule: spec_step.cases)
    case (spec_revoke_device rec' dv' item)
    then show ?thesis
    proof (cases "dv' = dv")
      case True
      then have "rec' = rec" using spec_revoke_device(3) rec(1) by (simp add: record_or_zero_def)
      with r True spec_revoke_device show ?thesis by simp
    qed (use rec in \<open>auto simp: stays_revoked_def\<close>)
  qed (use rec assms(4) in \<open>auto simp: stays_revoked_def admissible_def\<close>)
qed

lemma trust_run_revoked:
  assumes "trust_run P s evs s'" "stays_revoked dv e 0 (trust_abs s)" "e + 1 + int (length evs) < 2 ^ 64" "dv \<noteq> []"
  shows "stays_revoked dv e (int (length evs)) (trust_abs s')"
  using assms
proof (induction rule: trust_run.induct)
  case (trust_request evs s' ev w arrival r)
  have "stays_revoked dv e (int (length evs)) (trust_abs s')" using trust_request by simp
  from revoked_step[OF trust_request.hyps(2) this] trust_request.prems show ?case by (simp add: add.commute)
qed simp

section \<open>Authorization\<close>

lemma authorize_issued:
  assumes "authorizeDevice P w r s = ((200, Trust_Issued rec g), s')" "Tru_repo s = None"
  obtains key now g0 where "Active (Tru_keys s) = Inr key"
    "SignGrant P \<lparr>Dev_Identity = signer_identity (Tru_cfg s) (Key_ID key) (Key_Public key) now, Dev_Private = Key_Private key\<rparr> g0 = Inr g"
    "Tru_keys s' = Tru_keys s" "Tru_cfg s' = Tru_cfg s" "Tru_repo s' = None" "Rec_RevocationEpoch rec = Gr_RevocationEpoch g"
    "epoch_is (Gr_SubjectDeviceID g) (Gr_RevocationEpoch g) (trust_abs s')"
proof -
  from assms obtain req rec0 where req: "Tru_devices s (AQ_DeviceID req) = Some rec0" and rec: "rec = authorized_record rec0"
    and out: "issue_grant P w req rec (s\<lparr>Tru_devices := (Tru_devices s)(AQ_DeviceID req \<mapsto> rec)\<rparr>) = ((200, Trust_Issued rec g), s')"
    by (auto simp: authorizeDevice_def trust_method_def trust_requireAdmin_def handle_def authorize_record_def find_record_def Let_def
        authorize_stored_def authorized_record_def WriteError_def WriteJSON_def issue_grant_def split: if_splits sum.splits prod.splits option.splits)
  let ?s = "s\<lparr>Tru_devices := (Tru_devices s)(AQ_DeviceID req \<mapsto> rec)\<rparr>"
  from out assms(2) obtain rule signer where sig: "activeSigner ?s (W_clock w 2) = Inr signer"
      "SignGrant P signer (new_grant P req rec rule (W_clock w 1)) = Inr g"
    and s': "s' = ?s\<lparr>Tru_grants := (Tru_grants s)(Gr_GrantID g \<mapsto> g), Tru_audit := Tru_audit s @ [audit_entry ''device.authorize'' (AQ_DeviceID req) (W_clock w 1)]\<rparr>"
    by (auto simp: issue_grant_def handle_def persistGrant_def WriteError_def WriteJSON_def Let_def split: sum.splits)
  from sig(1) obtain key where key: "Active (Tru_keys s) = Inr key"
    "signer = \<lparr>Dev_Identity = signer_identity (Tru_cfg s) (Key_ID key) (Key_Public key) (W_clock w 2), Dev_Private = Key_Private key\<rparr>"
    by (auto simp: activeSigner_def and_then_Inr_iff)
  note f = SignGrant_fields(3)[OF sig(2)]
  have "Gr_SubjectDeviceID g = AQ_DeviceID req" "Gr_RevocationEpoch g = Rec_RevocationEpoch rec"
    using arg_cong[OF f, of Gr_SubjectDeviceID] arg_cong[OF f, of Gr_RevocationEpoch] by (simp_all add: new_grant_def)
  with that[OF key(1) sig(2)[unfolded key(2)]] assms(2) show thesis by (simp add: s' epoch_is_def trust_abs_def)
qed

section \<open>Verification\<close>

lemma b64_not_space: "b64_text c \<Longrightarrow> \<not> ascii_space c \<and> \<not> space2 c b \<and> \<not> space2 b c \<and> \<not> space3 c b d \<and> \<not> space3 d b c"
  by (auto simp: b64_text_def b64_value_def Let_def ascii_space_def space2_def space3_def split: if_splits)

lemma Base64URL_not_blank: "b \<noteq> [] \<Longrightarrow> \<not> blank (Base64URL b)"
proof -
  assume "b \<noteq> []"
  have t: "trim_left x = x" if "\<forall>c\<in>set x. b64_text c" for x
    using that by (cases x) (auto simp: b64_not_space split: list.split)
  have r: "trim_rev x = x" if "\<forall>c\<in>set x. b64_text c" for x
    using that by (cases x) (auto simp: b64_not_space split: list.split)
  have "TrimSpace (Base64URL b) = Base64URL b" using t r b64_text_Base64URL by (auto simp: TrimSpace_def)
  then show ?thesis using Base64URL_nonempty[OF \<open>b \<noteq> []\<close>] by (simp add: blank_def)
qed

lemma issuer_found:
  assumes "has_key kid pub (trust_abs s)" "Sig_KID (Gr_Signature g) = kid" "\<not> blank kid"
  shows "issuerForGrant s g now = Inr (signer_identity (Tru_cfg s) kid pub now)"
  using assms by (auto simp: issuerForGrant_def has_key_def trust_abs_def Ring_Get_def)

lemma verify_in_memory:
  assumes "Req_Method r = ''POST''" "DecodeJSON verify_table no_verify (Req_Body r) = Inr req"
    and "Tru_devices s (VQ_SubjectDeviceID req) = Some rec" "Tru_repo s = None \<or> ID_DeviceID (Rec_Identity rec) \<noteq> []"
  shows "verifyGrant P w r s =
     handle (issuerForGrant s (VQ_Grant req) (W_clock w 0), s) (trust_refuse 403) (\<lambda>issuer s.
     handle (VerifyGrant P (VQ_Grant req) issuer (verify_options req rec (W_clock w 1)), s) (trust_refuse 403) (\<lambda>_.
       trust_answer 200 (Trust_Map [(''status'', ''valid'')])))"
  using assms by (auto simp: verifyGrant_def trust_method_def subject_record_def record_or_zero_def Let_def split: option.split)

lemma signature_of_signer:
  "SignGrant P \<lparr>Dev_Identity = signer_identity cfg kid pub now, Dev_Private = priv\<rparr> g0 = Inr g \<Longrightarrow> Sig_KID (Gr_Signature g) = kid"
  by (auto simp: SignGrant_def Let_def and_then_Inr_iff make_signature_def signer_identity_def)

text \<open>Only the public key of the issuer matters to a verification.\<close>

lemma VerifyGrant_issuer_time:
  "VerifyGrant P g (signer_identity cfg kid pub t) opts = VerifyGrant P g (signer_identity cfg kid pub t') opts"
  by (simp add: VerifyGrant_def check_signature_def signer_identity_def)

end
