(* ===== verification/Trust_Samples.thy ===== *)
theory Trust_Samples
  imports Trust_Properties
begin

text \<open>
  A small trust root for the worked instances of its properties: it starts, a device submits itself
  over HTTP with a possession proof, and the administrator authorizes it.
\<close>

definition sample_trust_config :: TrustConfig where
  "sample_trust_config = \<lparr>TCfg_DomainID = ''dom'', TCfg_TrustRootID = ''root'', TCfg_BaseURL = ''https://root'',
     TCfg_ProfileGate = DefaultGate ProfileLocalLab, TCfg_DB = None, TCfg_AdminToken = []\<rparr>"

definition trust_world :: "time \<Rightarrow> World" where
  "trust_world t = \<lparr>W_clock = (\<lambda>_. t), W_token = (\<lambda>_. replicate 32 (CHR ''r'')), W_uuid = (\<lambda>_. Inr (replicate 10 NUL))\<rparr>"

definition trust_request :: "string \<Rightarrow> string \<Rightarrow> bytes \<Rightarrow> Request" where
  "trust_request method path body =
     \<lparr>Req_Method = method, Req_Path = path, Req_Header = (\<lambda>_. []), Req_Query = (\<lambda>_. []), Req_RemoteAddr = ''10.0.0.1:80'', Req_Body = body\<rparr>"

lemma sample_trust_root:
  obtains s where "NewTrustRoot model_prims (replicate 32 (CHR ''s'')) sample_trust_config 0 = Inr s" "Tru_cfg s = sample_trust_config"
    "Tru_repo s = None" "Tru_limiter s = NewLimiter 120 Minute" "Tru_replay s = NewCache" "Tru_policy s = NewDefault" "Tru_devices s = Map.empty"
    "\<exists>key. Active (Tru_keys s) = Inr key"
proof -
  obtain d where d: "NewDevice model_prims (replicate 32 (CHR ''s'')) (TCfg_DomainID sample_trust_config) (TCfg_TrustRootID sample_trust_config @ ''-signer'') 0 = (Inr d, [])"
    using model_device by blast
  have g: "ValidateGate (DefaultGate ProfileLocalLab) = Inr ()" "ProfileLocalLab \<noteq> []" "ProfileLocalLab \<noteq> ProfileProduction"
    by (simp_all add: ValidateGate_def DefaultGate_def ProfileLocalLab_def ProfileProduction_def ProfileStaging_def)
  have c: "TCfg_ProfileGate sample_trust_config = DefaultGate ProfileLocalLab" "TCfg_DB sample_trust_config = None"
    "G_Profile (DefaultGate ProfileLocalLab) = ProfileLocalLab" by (simp_all add: sample_trust_config_def DefaultGate_def)
  show thesis
    by (rule that[of "\<lparr>Tru_cfg = sample_trust_config, Tru_signer = d, Tru_limiter = NewLimiter 120 Minute, Tru_replay = NewCache,
        Tru_policy = NewDefault, Tru_keys = Ring_Add NewRing \<lparr>Key_ID = PK_KID (ID_PublicKey (Dev_Identity d)), Key_State = StateActive,
          Key_Private = Dev_Private d, Key_Public = PrivateKey_Public (Dev_Private d)\<rparr>, Tru_repo = None, Tru_devices = Map.empty,
        Tru_grants = Map.empty, Tru_revokedGrants = {}, Tru_revocationLog = [], Tru_audit = []\<rparr>"])
      (simp_all add: NewTrustRoot_def Let_def d c g Active_def Ring_Add_def NewRing_def)
qed

lemma trust_admin_open: "Tru_cfg s = sample_trust_config \<Longrightarrow> trust_adminAuthorized s r"
proof -
  have "TrimSpace [] = []" by code_simp
  then show "Tru_cfg s = sample_trust_config \<Longrightarrow> trust_adminAuthorized s r"
    by (simp add: trust_adminAuthorized_def admin_authorized_iff sample_trust_config_def)
qed

text \<open>The submission of a device.\<close>

definition submit_body :: "DeviceIdentity \<Rightarrow> DeviceProof \<Rightarrow> bytes" where
  "submit_body i p = encode (DObj [(''identity'', DObj (identity_docs i)), (''proof'', DObj (proof_docs p))])"

lemma submit_body_decodes:
  assumes "identity_valid i" "proof_valid p"
  shows "DecodeJSON submit_table no_submit (submit_body i p) = Inr \<lparr>SQ_Identity = i, SQ_Proof = p, SQ_Context = []\<rparr>"
proof -
  let ?ms = "[(''identity'', DObj (identity_docs i)), (''proof'', DObj (proof_docs p))]"
  have "doc_ok (DObj ?ms)" using identity_docs_ok[of i] proof_docs_ok[of p] by simp
  moreover have "doc_depth (DObj ?ms) \<le> maxNestingDepth"
    using identity_docs_depth[of i] proof_docs_depth[of p] by (simp add: maxNestingDepth_def)
  ultimately have "DecodeJSON submit_table no_submit (encode (DObj ?ms) @ []) =
      set_members submit_table (map (\<lambda>(k, d). (to_valid k, valid_doc d)) ?ms) no_submit"
    by (intro DecodeJSON_encode) simp_all
  moreover have "to_valid ''identity'' = ''identity''" "to_valid ''proof'' = ''proof''" by (simp_all add: to_valid_ascii del: to_valid.simps(2))
  moreover have "decode_struct identity_table (valid_doc (DObj (identity_docs i))) no_identity = Inr i"
    "decode_struct proof_table (valid_doc (DObj (proof_docs p))) no_proof = Inr p"
    using decode_identity[OF assms(1)] decode_proof[OF assms(2)] by (simp_all add: decode_struct_def)
  ultimately show ?thesis
    by (simp add: submit_body_def submit_table_def find_setter_exact no_submit_def set_struct_def del: to_valid.simps(2) encode.simps valid_doc.simps(3))
qed

lemma sample_submission:
  obtains d p where "NewDevice model_prims (replicate 32 (CHR ''s'')) ''dom'' ''watch'' 0 = (Inr d, [])" "device_ok model_prims d"
    "ID_DeviceID (Dev_Identity d) = ''watch''" "DP_Nonce p = ''n''" "DP_IssuedAt p = 0"
    "VerifyProof model_prims (Dev_Identity d) p ''root'' (DP_Challenge p) 1 (5 * Minute) = Inr ()"
    "DecodeJSON submit_table no_submit (submit_body (Dev_Identity d) p) = Inr \<lparr>SQ_Identity = Dev_Identity d, SQ_Proof = p, SQ_Context = []\<rparr>"
proof -
  obtain d where d: "NewDevice model_prims (replicate 32 (CHR ''s'')) ''dom'' ''watch'' 0 = (Inr d, [])"
    using model_device by blast
  note D = NewDevice_ok[OF model_sig d]
  have y: "year_ok 0" by code_simp
  then obtain p where p: "CreateProof model_prims d ''root'' ''c'' ''n'' 0 = Inr p" using CreateProof_ok by blast
  have f: "DP_Type p = TypeDeviceProof" "DP_DomainID p = ''dom''" "DP_DeviceID p = ''watch''" "DP_Audience p = ''root''"
    "DP_Challenge p = ''c''" "DP_Nonce p = ''n''" "DP_IssuedAt p = 0" "Sig_Alg (DP_Signature p) = ''Ed25519''"
    "\<exists>x. Sig_KID (DP_Signature p) = Base64URL x" "\<exists>x. Sig_Value (DP_Signature p) = Base64URL x"
    using p d by (auto simp: CreateProof_def Let_def and_then_Inr_iff D(2,3) make_signature_def NewDevice_def
        Thumbprint_def split: prod.splits sum.splits)
  have pv: "proof_valid p"
    using f y valid_Base64URL by (auto simp: proof_valid_def proof_strings_valid_def TypeDeviceProof_def valid_ascii simp del: valid_utf8.simps(2))
  have iv: "identity_valid (Dev_Identity d)"
    using d y valid_Base64URL by (auto simp: NewDevice_def Let_def identity_valid_def public_key_valid_def TypeDeviceIdentity_def Thumbprint_def
        valid_ascii simp del: valid_utf8.simps(2) split: prod.splits sum.splits)
  have "VerifyProof model_prims (Dev_Identity d) p ''root'' ''c'' 1 (5 * Minute) = Inr ()"
    by (rule CreateProof_verifies[OF model_sig D(1) p]) (simp_all add: Minute_def Second_def)
  with that[OF d D(1,3) f(6,7) _ submit_body_decodes[OF iv pv]] f(5) show thesis by simp
qed

text \<open>The trust root after the submission.\<close>

lemma sample_submitted:
  obtains s0 s evs d where "NewTrustRoot model_prims (replicate 32 (CHR ''s'')) sample_trust_config 0 = Inr s0" "trust_run model_prims s0 evs s"
    "NewDevice model_prims (replicate 32 (CHR ''s'')) ''dom'' ''watch'' 0 = (Inr d, [])" "device_ok model_prims d" "ID_DeviceID (Dev_Identity d) = ''watch''"
    "Tru_cfg s = sample_trust_config" "Tru_repo s = None" "Tru_policy s = NewDefault" "\<exists>key. Active (Tru_keys s) = Inr key"
    "Tru_devices s = [''watch'' \<mapsto> \<lparr>Rec_Identity = Dev_Identity d, Rec_Status = ''submitted'', Rec_DeviceRecordVersion = 1, Rec_RevocationEpoch = 0\<rparr>]"
proof -
  obtain s0 where s0: "NewTrustRoot model_prims (replicate 32 (CHR ''s'')) sample_trust_config 0 = Inr s0" "Tru_cfg s0 = sample_trust_config"
    "Tru_repo s0 = None" "Tru_limiter s0 = NewLimiter 120 Minute" "Tru_replay s0 = NewCache" "Tru_policy s0 = NewDefault" "Tru_devices s0 = Map.empty"
    "\<exists>key. Active (Tru_keys s0) = Inr key" by (rule sample_trust_root)
  obtain d p where d: "NewDevice model_prims (replicate 32 (CHR ''s'')) ''dom'' ''watch'' 0 = (Inr d, [])" "device_ok model_prims d"
    "ID_DeviceID (Dev_Identity d) = ''watch''" and p: "DP_Nonce p = ''n''" "DP_IssuedAt p = 0"
    "VerifyProof model_prims (Dev_Identity d) p ''root'' (DP_Challenge p) 1 (5 * Minute) = Inr ()"
    "DecodeJSON submit_table no_submit (submit_body (Dev_Identity d) p) = Inr \<lparr>SQ_Identity = Dev_Identity d, SQ_Proof = p, SQ_Context = []\<rparr>"
    by (rule sample_submission)
  let ?r = "trust_request ''POST'' ''/v2/trust/devices/submit'' (submit_body (Dev_Identity d) p)"
  define s where "s = snd (trust_Handler model_prims (trust_world 1) 1 ?r s0)"
  obtain ev where run: "trust_run model_prims s0 ([] @ [ev]) s"
    using trust_run_extends[OF trust_run.trust_start] unfolding s_def by metis
  have "fst (Allow (Tru_limiter s0) (clientKey ?r) 1)" by (simp add: s0(4) Allow_def NewLimiter_def Let_def IsZero_def)
  then obtain l where l: "Allow (Tru_limiter s0) (clientKey ?r) 1 = (True, l)" by (cases "Allow (Tru_limiter s0) (clientKey ?r) 1") simp
  have "\<not> blank ''n''" by code_simp
  then have v: "\<exists>c. trust_verifyProof model_prims (s0\<lparr>Tru_limiter := l\<rparr>) 1 (Dev_Identity d) p ''root'' (DP_Challenge p) (5 * Minute) =
      (Inr (), s0\<lparr>Tru_limiter := l, Tru_replay := c\<rparr>)"
    unfolding trust_verifyProof_def Let_def using s0(3,5) p(1-3) by (simp add: Use_def NewCache_def expire_items_def) (rule exI, rule refl)
  have h: "trust_Handler model_prims (trust_world 1) 1 ?r s0 = submitDevice model_prims (trust_world 1) ?r (s0\<lparr>Tru_limiter := l\<rparr>)"
    unfolding trust_Handler_def l prod.case Let_def by (simp add: trust_route_def trust_request_def)
  obtain c where c: "s = s0\<lparr>Tru_limiter := l, Tru_replay := c,
      Tru_devices := [''watch'' \<mapsto> \<lparr>Rec_Identity = Dev_Identity d, Rec_Status = ''submitted'', Rec_DeviceRecordVersion = 1, Rec_RevocationEpoch = 0\<rparr>],
      Tru_audit := Tru_audit s0 @ [audit_entry ''device.submit'' ''watch'' 1]\<rparr>"
  proof -
    from v obtain c where "trust_verifyProof model_prims (s0\<lparr>Tru_limiter := l\<rparr>) 1 (Dev_Identity d) p ''root'' (DP_Challenge p) (5 * Minute) =
      (Inr (), s0\<lparr>Tru_limiter := l, Tru_replay := c\<rparr>)" ..
    then show thesis
      using that[of c] s0 p(4) d(3) unfolding s_def h
      by (simp add: submitDevice_def trust_method_def trust_request_def trust_world_def sample_trust_config_def persistSubmittedDevice_def Let_def
          record_or_zero_def no_record_def)
  qed
  show thesis by (rule that[OF s0(1) run d]) (use s0 in \<open>simp_all add: c\<close>)
qed

text \<open>The administrator authorizes the device, an hour after the first instant.\<close>

definition authorize_body :: bytes where
  "authorize_body = encode (DObj [(''device_id'', DStr ''watch''), (''audience'', DStr ''phone''), (''relay_id'', DStr ''relay'')])"

definition sample_authorize :: authorizeRequest where
  "sample_authorize = \<lparr>AQ_DeviceID = ''watch'', AQ_Audience = ''phone'', AQ_Permissions = None, AQ_RelayID = ''relay'', AQ_TTLSeconds = 0\<rparr>"

lemma authorize_body_decodes: "DecodeJSON authorize_table no_authorize authorize_body = Inr sample_authorize"
proof -
  let ?ms = "[(''device_id'', DStr ''watch''), (''audience'', DStr ''phone''), (''relay_id'', DStr ''relay'')]"
  have "DecodeJSON authorize_table no_authorize (encode (DObj ?ms) @ []) = Inr sample_authorize"
    by (subst DecodeJSON_encode) (simp_all add: maxNestingDepth_def authorize_table_def no_authorize_def sample_authorize_def find_setter_exact
        to_valid_ascii del: to_valid.simps(2))
  then show ?thesis by (simp only: authorize_body_def append_Nil2)
qed

lemma valid_b64_take: "valid_utf8 (take n (Base64URL b))"
  by (rule valid_ascii) (auto dest!: in_set_takeD b64_text_Base64URL simp: b64_text_def b64_value_def Let_def split: if_splits)

definition sample_verify :: "Grant \<Rightarrow> verifyRequest" where
  "sample_verify g = \<lparr>VQ_Grant = g, VQ_Audience = ''phone'', VQ_SubjectDeviceID = ''watch'',
     VQ_ConfirmationThumbprint = Gr_ConfirmationThumbprint g, VQ_Permission = ''text'', VQ_RelayID = ''relay''\<rparr>"

lemma sample_authorized:
  assumes "Tru_cfg s = sample_trust_config" "Tru_repo s = None" "Tru_policy s = NewDefault" "\<exists>key. Active (Tru_keys s) = Inr key"
    and "Tru_devices s ''watch'' = Some rec" "Rec_Status rec \<noteq> ''revoked''" "int64_ok (uint (Rec_RevocationEpoch rec))" "device_ok P d" "Rec_Identity rec = Dev_Identity d"
    and "keys_ok P (Tru_keys s)"
  obtains g s1 where
    "authorizeDevice P (trust_world Hour) (trust_request ''POST'' path authorize_body) s = ((200, Trust_Issued (authorized_record rec) g), s1)"
    "Gr_SubjectDeviceID g = ''watch''" "Gr_RevocationEpoch g = Rec_RevocationEpoch rec" "Tru_repo s1 = None" "Tru_cfg s1 = sample_trust_config"
    "Tru_grants s1 (Gr_GrantID g) = Some g" "Tru_devices s1 = (Tru_devices s)(''watch'' \<mapsto> authorized_record rec)"
    "Tru_revocationLog s1 = Tru_revocationLog s"
    "grant_admits g (verify_options (sample_verify g) (authorized_record rec) Hour)" "grant_valid g"
    "DecodeJSON verify_table no_verify (encode (DObj (verify_docs (sample_verify g)))) = Inr (sample_verify g)"
proof -
  obtain key where key: "Active (Tru_keys s) = Inr key" using assms(4) ..
  define signer where "signer = \<lparr>Dev_Identity = signer_identity (Tru_cfg s) (Key_ID key) (Key_Public key) Hour, Dev_Private = Key_Private key\<rparr>"
  obtain rule where rule: "Engine_Rule NewDefault ''text'' = Inr rule" "Rule_MaxTTL rule = Hour"
    by (simp add: Engine_Rule_def NewDefault_def)
  define g0 where "g0 = new_grant P sample_authorize (authorized_record rec) rule Hour"
  have ttl: "grant_ttl sample_authorize rule = Hour"
    by (simp add: grant_ttl_def sample_authorize_def rule(2) seconds_def Let_def wrap_int64_def)
  have y: "year_ok (Add Hour (- Second))" "year_ok (Add Hour Hour)" by code_simp+
  have f0: "Gr_NotBefore g0 = Add Hour (- Second)" "Gr_ExpiresAt g0 = Add Hour Hour" "Gr_RevocationEpoch g0 = Rec_RevocationEpoch rec"
    "Gr_SubjectDeviceID g0 = ''watch''" "Gr_Audience g0 = ''phone''" "Gr_Permissions g0 = Some [''text'']" "Gr_RelayConstraints g0 = [''relay'']"
    by (simp_all add: g0_def new_grant_def ttl authorized_record_def) (simp_all add: sample_authorize_def requested_permissions_def elems_def)
  have "\<exists>g. SignGrant P signer g0 = Inr g" by (rule SignGrant_ok) (use y f0 assms(7) in simp_all)
  then obtain g where g: "SignGrant P signer g0 = Inr g" ..
  note fs = SignGrant_fields[OF g]
  have f: "Gr_NotBefore g = Add Hour (- Second)" "Gr_ExpiresAt g = Add Hour Hour" "Gr_RevocationEpoch g = Rec_RevocationEpoch rec"
    "Gr_SubjectDeviceID g = ''watch''" "Gr_Audience g = ''phone''" "Gr_Permissions g = Some [''text'']" "Gr_RelayConstraints g = [''relay'']"
    "Gr_GrantID g = Gr_GrantID g0" "Gr_ConfirmationThumbprint g = Gr_ConfirmationThumbprint g0"
    using f0 arg_cong[OF fs(3), of Gr_NotBefore] arg_cong[OF fs(3), of Gr_ExpiresAt] arg_cong[OF fs(3), of Gr_RevocationEpoch]
      arg_cong[OF fs(3), of Gr_SubjectDeviceID] arg_cong[OF fs(3), of Gr_Audience] arg_cong[OF fs(3), of Gr_Permissions]
      arg_cong[OF fs(3), of Gr_RelayConstraints] arg_cong[OF fs(3), of Gr_GrantID] arg_cong[OF fs(3), of Gr_ConfirmationThumbprint] by simp_all
  have sg: "\<exists>x. Sig_Value (Gr_Signature g) = Base64URL x" "Sig_Alg (Gr_Signature g) = ''Ed25519''" "Sig_KID (Gr_Signature g) = Key_ID key"
    using g by (auto simp: SignGrant_def Let_def and_then_Inr_iff make_signature_def signer_def signer_identity_def)
  have ids: "\<exists>x. Gr_GrantID g = ''grant-'' @ take 16 (Base64URL x)" "\<exists>x. Gr_ConfirmationThumbprint g = Base64URL x"
    using f(8,9) assms(8,9) unfolding g0_def new_grant_def
    by (auto simp: identity_Thumbprint_def authorized_record_def device_ok_def Let_def Thumbprint_def)
  have kid: "\<exists>x. Key_ID key = Base64URL x" using active_key(1)[OF assms(10) key] by (auto simp: key_pair_def Thumbprint_def)
  have valid: "grant_valid g"
    using fs(1,2) f sg ids kid y valid_Base64URL valid_b64_take
    by (auto simp: grant_valid_def grant_strings_valid_def elems_def TypeTrustGrant_def signer_def signer_identity_def sample_trust_config_def
        assms(1) valid_ascii valid_utf8_ascii simp del: valid_utf8.simps(2))
  define s1 where "s1 = s\<lparr>Tru_devices := (Tru_devices s)(''watch'' \<mapsto> authorized_record rec), Tru_grants := (Tru_grants s)(Gr_GrantID g \<mapsto> g),
    Tru_audit := Tru_audit s @ [audit_entry ''device.authorize'' ''watch'' Hour]\<rparr>"
  have ar: "authorize_record s ''watch'' = (Inr (authorized_record rec), s\<lparr>Tru_devices := (Tru_devices s)(''watch'' \<mapsto> authorized_record rec)\<rparr>)"
    using assms(5,6) by (simp add: authorize_record_def find_record_def authorized_record_def Let_def)
  have ig: "issue_grant P (trust_world Hour) sample_authorize (authorized_record rec) (s\<lparr>Tru_devices := (Tru_devices s)(''watch'' \<mapsto> authorized_record rec)\<rparr>) =
      ((200, Trust_Issued (authorized_record rec) g), s1)"
  proof -
    have "requested_permissions sample_authorize = [''text'']" by (simp add: requested_permissions_def sample_authorize_def elems_def)
    then show ?thesis
      using assms(2,3) rule key g
      by (simp add: issue_grant_def trust_world_def activeSigner_def signer_def g0_def persistGrant_def WriteJSON_def s1_def Let_def)
        (simp add: sample_authorize_def)
  qed
  have out: "authorizeDevice P (trust_world Hour) (trust_request ''POST'' path authorize_body) s = ((200, Trust_Issued (authorized_record rec) g), s1)"
    using ar ig assms(2) trust_admin_open[OF assms(1)]
    by (simp add: authorizeDevice_def trust_method_def trust_requireAdmin_def trust_request_def authorize_body_decodes)
      (simp add: sample_authorize_def authorize_stored_def)
  have adm: "grant_admits g (verify_options (sample_verify g) (authorized_record rec) Hour)"
    using f by (simp add: grant_admits_def verify_options_def sample_verify_def elems_def Add_def Hour_def Minute_def Second_def)
  have dec: "DecodeJSON verify_table no_verify (encode (DObj (verify_docs (sample_verify g)))) = Inr (sample_verify g)"
    by (rule verify_request_decodes) (use valid in \<open>simp_all add: sample_verify_def grant_valid_def grant_strings_valid_def valid_ascii del: valid_utf8.simps(2)\<close>)
  show thesis by (rule that[OF out f(4,3) _ _ _ _ _ adm valid dec]) (use assms(1,2) in \<open>simp_all add: s1_def\<close>)
qed

end
