(* ===== verification/Revocation_Feed.thy ===== *)
theory Revocation_Feed
  imports Trust_Server
begin

text \<open>
  The revocation feed as a client reads it: page after page, each with the cursor of the one before,
  until a page has none. The locale \<open>paged_feed\<close> is the contract of a paged source; a client of it
  reads every entry once, in order, and stops. Both sources of the trust root meet it: the log in
  memory (\<open>log_page\<close>) and the table (\<open>select_revocations\<close> and \<open>stored_page\<close>).
\<close>

section \<open>The contract\<close>

definition cursor_at :: "revocationItem list \<Rightarrow> nat \<Rightarrow> string" where
  "cursor_at all i = (if i = 0 then [] else RI_RevocationID (all ! (i - 1)))"

text \<open>A client with at most \<open>n\<close> pages to read.\<close>

fun read_pages :: "(string \<Rightarrow> revocationsResponse) \<Rightarrow> nat \<Rightarrow> string \<Rightarrow> revocationItem list option" where
  "read_pages page 0 cursor = None"
| "read_pages page (Suc n) cursor =
     (let resp = page cursor in
      if RVR_NextCursor resp = [] then Some (RVR_Items resp)
      else map_option (\<lambda>rest. RVR_Items resp @ rest) (read_pages page n (RVR_NextCursor resp)))"

definition ids_ok :: "revocationItem list \<Rightarrow> bool" where
  "ids_ok all \<longleftrightarrow> distinct (map RI_RevocationID all) \<and> [] \<notin> RI_RevocationID ` set all"

locale paged_feed =
  fixes page :: "'f \<Rightarrow> int \<Rightarrow> string \<Rightarrow> revocationsResponse" and contents :: "'f \<Rightarrow> revocationItem list" and feed_ok :: "'f \<Rightarrow> bool"
  assumes items: "feed_ok f \<Longrightarrow> 0 < limit \<Longrightarrow> i \<le> length (contents f) \<Longrightarrow>
      RVR_Items (page f limit (cursor_at (contents f) i)) = take (nat limit) (drop i (contents f))"
    and next_none: "feed_ok f \<Longrightarrow> 0 < limit \<Longrightarrow> i \<le> length (contents f) \<Longrightarrow>
      RVR_NextCursor (page f limit (cursor_at (contents f) i)) = [] \<Longrightarrow> length (contents f) \<le> i + nat limit"
    and next_some: "feed_ok f \<Longrightarrow> 0 < limit \<Longrightarrow> i \<le> length (contents f) \<Longrightarrow>
      RVR_NextCursor (page f limit (cursor_at (contents f) i)) \<noteq> [] \<Longrightarrow>
      i + nat limit \<le> length (contents f) \<and> RVR_NextCursor (page f limit (cursor_at (contents f) i)) = cursor_at (contents f) (i + nat limit)"
begin

lemma reads_from:
  assumes "feed_ok f" "0 < limit" "i \<le> length (contents f)" "length (contents f) - i < n"
  shows "read_pages (page f limit) n (cursor_at (contents f) i) = Some (drop i (contents f))"
  using assms(3,4)
proof (induction n arbitrary: i)
  case (Suc n)
  show ?case
  proof (cases "RVR_NextCursor (page f limit (cursor_at (contents f) i)) = []")
    case True
    with Suc.prems next_none[OF assms(1,2), of i] items[OF assms(1,2), of i] show ?thesis by simp
  next
    case False
    note nx = next_some[OF assms(1,2) Suc.prems(1) False]
    have "read_pages (page f limit) n (cursor_at (contents f) (i + nat limit)) = Some (drop (i + nat limit) (contents f))"
      using Suc nx assms(2) by (intro Suc.IH) auto
    then show ?thesis using False nx items[OF assms(1,2) Suc.prems(1)]
      by (simp add: Let_def) (metis add.commute append_take_drop_id drop_drop)
  qed
qed simp

lemma reads_all: "feed_ok f \<Longrightarrow> 0 < limit \<Longrightarrow> length (contents f) < n \<Longrightarrow> read_pages (page f limit) n [] = Some (contents f)"
  using reads_from[of f limit 0 n] by (simp add: cursor_at_def)

end

section \<open>The log in memory\<close>

lemma cursor_start_found:
  assumes "j < length log" "distinct (map RI_RevocationID log)"
  shows "cursor_start (RI_RevocationID (log ! j)) log k = k + j + 1"
  using assms
proof (induction log arbitrary: j k)
  case (Cons item log)
  show ?case
  proof (cases j)
    case (Suc j')
    then have "RI_RevocationID item \<noteq> RI_RevocationID (log ! j')" using Cons.prems by auto
    with Suc Cons show ?thesis by auto
  qed simp
qed simp

lemma log_start:
  assumes "ids_ok log" "i \<le> length log"
  shows "(if cursor_at log i \<noteq> [] then cursor_start (cursor_at log i) log 0 else 0) = i"
proof (cases "i = 0")
  case False
  then have "RI_RevocationID (log ! (i - 1)) \<noteq> []" using assms by (auto simp: ids_ok_def image_iff) (metis Suc_pred less_eq_Suc_le nth_mem)
  with False cursor_start_found[of "i - 1" log 0] assms show ?thesis by (simp add: cursor_at_def ids_ok_def)
qed (simp add: cursor_at_def)

lemma log_page_at:
  assumes "ids_ok log" "i \<le> length log"
  shows "RVR_Items (log_page limit (cursor_at log i) log) = take (nat limit) (drop i log)"
    and "0 < limit \<Longrightarrow> RVR_NextCursor (log_page limit (cursor_at log i) log) =
      (if i + nat limit < length log then cursor_at log (i + nat limit) else [])"
proof -
  let ?items = "take (nat limit) (drop i log)"
  show "RVR_Items (log_page limit (cursor_at log i) log) = ?items"
    unfolding log_page_def log_start[OF assms] Let_def by simp
  assume l: "0 < limit"
  have "last ?items = log ! (i + nat limit - 1)" if "i + nat limit < length log"
    using that l by (simp add: last_conv_nth)
  then show "RVR_NextCursor (log_page limit (cursor_at log i) log) =
      (if i + nat limit < length log then cursor_at log (i + nat limit) else [])"
    using l unfolding log_page_def log_start[OF assms] Let_def by (auto simp: cursor_at_def min_def)
qed

lemma cursor_nonempty: "ids_ok all \<Longrightarrow> 0 < i \<Longrightarrow> i \<le> length all \<Longrightarrow> cursor_at all i \<noteq> []"
  by (auto simp: cursor_at_def ids_ok_def image_iff) (metis Suc_pred less_eq_Suc_le nth_mem)

interpretation memory_feed: paged_feed "\<lambda>log limit cursor. log_page limit cursor log" "\<lambda>log. log" ids_ok
  using cursor_nonempty by unfold_locales (auto simp: log_page_at split: if_splits)

section \<open>The table\<close>

definition stored_feed :: "string \<Rightarrow> TrustRevocation list \<Rightarrow> revocationItem list" where
  "stored_feed domainID rows = map revocation_item (sort_key TRev_ID (filter (\<lambda>r. TRev_DomainID r = domainID) rows))"

lemma revocation_item_id [simp]: "RI_RevocationID (revocation_item r) = TRev_ID r"
  by (simp add: revocation_item_def)

lemma sorted_after:
  assumes "sorted (map f xs)" "distinct (map f xs)" "0 < i" "i \<le> length xs"
  shows "filter (\<lambda>x. f (xs ! (i - 1)) < f x) xs = drop i xs"
proof -
  have less: "f (xs ! j) < f (xs ! k)" if "j < k" "k < length xs" for j k
  proof -
    have "sorted_wrt (<) (map f xs)" using assms(1,2) by (simp only: strict_sorted_iff)
    from sorted_wrt_nth_less[OF this that(1)] that show ?thesis by simp
  qed
  have "filter (\<lambda>x. f (xs ! (i - 1)) < f x) (take i xs) = []"
  proof (clarsimp simp: filter_empty_conv in_set_conv_nth)
    fix j assume j: "j < length xs" "j < i" "f (xs ! (i - Suc 0)) < f (xs ! j)"
    then have "j = i - 1 \<or> j < i - 1" by auto
    moreover have "i - 1 < length xs" using assms(3,4) by simp
    ultimately show False using j(3) less[of j "i - 1"] less_asym[of "f (xs ! (i - 1))" "f (xs ! j)"] by auto
  qed
  moreover have "filter (\<lambda>x. f (xs ! (i - 1)) < f x) (drop i xs) = drop i xs"
    using assms(3,4) by (auto simp: filter_id_conv in_set_conv_nth intro!: less)
  ultimately show ?thesis by (metis append_Nil append_take_drop_id filter_append)
qed

lemma select_at:
  assumes "ids_ok (stored_feed domainID rows)" "i \<le> length (stored_feed domainID rows)"
  shows "map revocation_item (select_revocations domainID (cursor_at (stored_feed domainID rows) i) limit rows) =
    take (nat limit) (drop i (stored_feed domainID rows))"
proof -
  let ?xs = "sort_key TRev_ID (filter (\<lambda>r. TRev_DomainID r = domainID) rows)"
  have d: "distinct (map TRev_ID ?xs)" using assms(1) by (simp add: ids_ok_def stored_feed_def comp_def)
  have l: "i \<le> length ?xs" using assms(2) by (simp add: stored_feed_def)
  have f: "sort_key TRev_ID (filter (\<lambda>r. TRev_DomainID r = domainID \<and> Q r) rows) = filter Q ?xs" for Q
    by (simp add: filter_sort)
  have "filter (\<lambda>r. cursor_at (stored_feed domainID rows) i = [] \<or> cursor_at (stored_feed domainID rows) i < TRev_ID r) ?xs = drop i ?xs"
  proof (cases "i = 0")
    case False
    have c: "cursor_at (stored_feed domainID rows) i = TRev_ID (?xs ! (i - 1))" using False l by (simp add: cursor_at_def stored_feed_def)
    have "TRev_ID (?xs ! (i - 1)) \<noteq> []" using cursor_nonempty[OF assms(1) _ assms(2)] False c by simp
    with sorted_after[of TRev_ID ?xs i] d l False show ?thesis unfolding c by simp
  qed (simp add: cursor_at_def)
  then show ?thesis unfolding select_revocations_def f by (simp add: stored_feed_def take_map drop_map)
qed

lemma stored_page_at:
  assumes "ids_ok (stored_feed domainID rows)" "i \<le> length (stored_feed domainID rows)" "0 < limit"
  defines "resp \<equiv> stored_page limit (select_revocations domainID (cursor_at (stored_feed domainID rows) i) limit rows)"
  shows "RVR_Items resp = take (nat limit) (drop i (stored_feed domainID rows))"
    and "RVR_NextCursor resp = (if i + nat limit \<le> length (stored_feed domainID rows) then cursor_at (stored_feed domainID rows) (i + nat limit) else [])"
proof -
  let ?all = "stored_feed domainID rows"
  let ?items = "take (nat limit) (drop i ?all)"
  show "RVR_Items resp = ?items" unfolding resp_def stored_page_def Let_def select_at[OF assms(1,2)] by simp
  have "last ?items = ?all ! (i + nat limit - 1)" if "i + nat limit \<le> length ?all"
    using that assms(3) by (simp add: last_conv_nth)
  then show "RVR_NextCursor resp = (if i + nat limit \<le> length ?all then cursor_at ?all (i + nat limit) else [])"
    using assms(2,3) unfolding resp_def stored_page_def Let_def select_at[OF assms(1,2)] by (auto simp: cursor_at_def min_def)
qed

interpretation table_feed: paged_feed
  "\<lambda>(domainID, rows) limit cursor. stored_page limit (select_revocations domainID cursor limit rows)"
  "\<lambda>(domainID, rows). stored_feed domainID rows" "\<lambda>(domainID, rows). ids_ok (stored_feed domainID rows)"
  using cursor_nonempty by unfold_locales (auto simp: stored_page_at split: if_splits)

end
