(* ===== verification/Trust_Guarantees.thy ===== *)
theory Trust_Guarantees
  imports Trust_Samples Revocation_Feed
begin

text \<open>
  The guarantees of the trust root over sequences of requests: it refines its specification, the
  grants it issues verify until they expire or their device is revoked, a revoked device is locked
  out, and its revocation feed can be read to the end. Also what it does not do: the revocation of a
  single grant is not seen by the verification of grants.
\<close>

section \<open>Requests of the worked instances\<close>

definition revoke_body :: bytes where
  "revoke_body = encode (DObj [(''device_id'', DStr ''watch''), (''reason'', DStr ''lost'')])"

definition revoke_grant_body :: "string \<Rightarrow> bytes" where
  "revoke_grant_body gid = encode (DObj [(''grant_id'', DStr gid)])"

section \<open>Lemmas\<close>

lemma stored_step: "spec_step P ev a a' \<Longrightarrow> Sp_stored a' = Sp_stored a \<and> Sp_cfg a' = Sp_cfg a"
  by (induction rule: spec_step.induct) simp_all

lemma trust_run_stored: "trust_run P s evs s' \<Longrightarrow> (Tru_repo s' = None) = (Tru_repo s = None) \<and> Tru_cfg s' = Tru_cfg s"
  using trust_run_keeps[of P s evs s' "\<lambda>a. Sp_stored a = (Tru_repo s \<noteq> None) \<and> Sp_cfg a = Tru_cfg s"] stored_step
  by (fastforce simp: trust_abs_def)

lemma kid_not_blank: "sha256_size P \<Longrightarrow> key_pair P key \<Longrightarrow> \<not> blank (Key_ID key)"
  unfolding key_pair_def Thumbprint_def sha256_size_def using Base64URL_not_blank by (metis length_0_conv numeral_eq_iff semiring_norm(84) zero_neq_numeral)

lemma VerifyGrant_subject: "Gr_SubjectDeviceID g \<noteq> VO_SubjectDeviceID opts \<Longrightarrow> VerifyGrant P g issuer opts \<noteq> Inr ()"
  by (auto simp: VerifyGrant_Inr grant_admits_def)

lemma verify_ok:
  assumes "verifyGrant P w r s = ((200, reply), s')" "DecodeJSON verify_table no_verify (Req_Body r) = Inr req"
  obtains rec issuer s1 where "subject_record s (VQ_SubjectDeviceID req) = (Inr rec, s1)"
    "VerifyGrant P (VQ_Grant req) issuer (verify_options req rec (W_clock w 1)) = Inr ()"
  using assms by (auto simp: verifyGrant_def trust_method_def handle_def WriteError_def WriteJSON_def split: if_splits sum.splits prod.splits)

lemma revoke_effect:
  assumes "revokeDevice w r s = ((200, reply), s')" "DecodeJSON (revoke_table ''device_id'') no_revoke (Req_Body r) = Inr q"
  shows "Tru_devices s' = (Tru_devices s)(VK_ID q \<mapsto> revoked_record (record_or_zero (Tru_devices s (VK_ID q))))"
  using assms
  by (auto simp: revokeDevice_def trust_method_def trust_requireAdmin_def handle_def Let_def WriteError_def WriteJSON_def
      revoked_record_def with_trust_db_def split: if_splits sum.splits prod.splits option.splits)

lemma revoke_body_decodes:
  "DecodeJSON (revoke_table ''device_id'') no_revoke revoke_body = Inr \<lparr>VK_ID = ''watch'', VK_Reason = ''lost''\<rparr>"
proof -
  let ?ms = "[(''device_id'', DStr ''watch''), (''reason'', DStr ''lost'')]"
  have "DecodeJSON (revoke_table ''device_id'') no_revoke (encode (DObj ?ms) @ []) = Inr \<lparr>VK_ID = ''watch'', VK_Reason = ''lost''\<rparr>"
    by (subst DecodeJSON_encode) (simp_all add: maxNestingDepth_def revoke_table_def no_revoke_def find_setter_exact to_valid_ascii del: to_valid.simps(2))
  then show ?thesis by (simp only: revoke_body_def append_Nil2)
qed

lemma revoke_grant_body_decodes:
  assumes "valid_utf8 gid"
  shows "DecodeJSON (revoke_table ''grant_id'') no_revoke (revoke_grant_body gid) = Inr \<lparr>VK_ID = gid, VK_Reason = []\<rparr>"
proof -
  have "DecodeJSON (revoke_table ''grant_id'') no_revoke (encode (DObj [(''grant_id'', DStr gid)]) @ []) = Inr \<lparr>VK_ID = gid, VK_Reason = []\<rparr>"
    by (subst DecodeJSON_encode) (simp_all add: assms to_valid_id maxNestingDepth_def revoke_table_def no_revoke_def find_setter_exact to_valid_ascii del: to_valid.simps(2))
  then show ?thesis by (simp only: revoke_grant_body_def append_Nil2)
qed

lemma sample_uuid: "\<exists>uuid. NewUUIDv7Like t (W_uuid (trust_world t') i) = Inr uuid"
  by (simp add: NewUUIDv7Like_def trust_world_def Let_def)

lemma sample_revoked:
  assumes "Tru_cfg s = sample_trust_config" "Tru_repo s = None" "Tru_devices s ''watch'' = Some rec" "ID_DeviceID (Rec_Identity rec) \<noteq> []"
  shows "fst (fst (revokeDevice (trust_world 1) (trust_request ''POST'' [] revoke_body) s)) = 200"
proof -
  obtain uuid where "NewUUIDv7Like (W_clock (trust_world 1) 0) (W_uuid (trust_world 1) 0) = Inr uuid" using sample_uuid by blast
  then show ?thesis using assms trust_admin_open[OF assms(1)]
    by (simp add: revokeDevice_def trust_method_def trust_requireAdmin_def trust_request_def revoke_body_decodes record_or_zero_def Let_def WriteJSON_def)
qed

lemma sample_grant_revoked:
  assumes "Tru_cfg s = sample_trust_config" "Tru_repo s = None" "Tru_grants s (Gr_GrantID g) = Some g" "grant_valid g"
  shows "\<exists>reply s1. revokeGrant (trust_world Hour) (trust_request ''POST'' [] (revoke_grant_body (Gr_GrantID g))) s = ((200, reply), s1) \<and>
    Gr_GrantID g \<in> Tru_revokedGrants s1"
proof -
  obtain uuid where u: "NewUUIDv7Like (W_clock (trust_world Hour) 0) (W_uuid (trust_world Hour) 0) = Inr uuid" using sample_uuid by blast
  have m: "MarshalGrant g = Inr (encode (DObj (grant_docs g)))" by (simp only: MarshalGrant_def grant_fields_docs[OF assms(4)] json_Marshal_def and_then_simps)
  have "valid_utf8 (Gr_GrantID g)" using assms(4) by (simp add: grant_valid_def grant_strings_valid_def)
  from revoke_grant_body_decodes[OF this] u m assms trust_admin_open[OF assms(1)] show ?thesis
    by (simp add: revokeGrant_def trust_method_def trust_requireAdmin_def trust_request_def Let_def WriteJSON_def del: encode.simps)
qed

section \<open>Properties\<close>

text \<open>
  C1. The trust root refines its specification: whatever the request, the clock, the random draws and the
  faults of the database, a call of the handler is one event of the specification (a submission with a
  valid proof, an authorization, an issued grant, a revocation of a device or a grant, a key rotation)
  or changes nothing of it, and the events of the administrator happen only for a request with the
  administrator's credential.
\<close>

theorem trust_root_refines:
  "\<exists>ev. spec_step P ev (trust_abs s) (trust_abs (snd (trust_Handler P w arrival r s))) \<and>
     (admin_event ev \<longrightarrow> trust_adminAuthorized s r)"
  using refines_Handler unfolding refines_def .

theorem trust_root_refines_witness:
  "\<exists>s ev. trust_adminAuthorized s (trust_request ''POST'' ''/v2/trust/keys/rotate'' []) = False \<and>
     Active (Tru_keys s) \<noteq> Active NewRing \<and> \<not> admin_event ev \<and>
     spec_step model_prims ev (trust_abs s)
       (trust_abs (snd (trust_Handler model_prims (trust_world 1) 1 (trust_request ''POST'' ''/v2/trust/keys/rotate'' []) s)))"
proof -
  obtain s0 :: TrustServer where s0: "\<exists>key. Active (Tru_keys s0) = Inr key" by (rule sample_trust_root, rule that)
  define s where "s = s0\<lparr>Tru_cfg := sample_trust_config\<lparr>TCfg_AdminToken := ''t''\<rparr>\<rparr>"
  let ?r = "trust_request ''POST'' ''/v2/trust/keys/rotate'' []"
  have "TrimSpace [] = []" "TrimSpace ''t'' = ''t''" by code_simp+
  then have a: "\<not> trust_adminAuthorized s ?r"
    by (simp add: s_def trust_adminAuthorized_def admin_authorized_iff trust_request_def bearerToken_def)
  have "Active (Tru_keys s) \<noteq> Active NewRing" using s0 by (auto simp: s_def Active_def NewRing_def)
  with a trust_root_refines[of model_prims s "trust_world 1" 1 ?r] show ?thesis by blast
qed

text \<open>
  C3. Issued grants verify: a grant that a trust root without a database issued is accepted, after every
  sequence of requests, key rotations included, in which its device is not revoked and no key is drawn
  under the thumbprint of its signer, exactly for the requests it admits: now within its validity, its
  audience, subject and confirmation key, one of its permissions, its relay.
\<close>

theorem issued_grant_verifies:
  assumes "sig_correct P" "sha256_size P" "NewTrustRoot P rd cfg t0 = Inr s0" "TCfg_DB cfg = None" "trust_run P s0 evs0 s"
    and "authorizeDevice P w r s = ((200, Trust_Issued rec g), s1)"
    and "trust_run P s1 evs s2" "DeviceRevoked (Gr_SubjectDeviceID g) \<notin> set evs" "Rotated (Sig_KID (Gr_Signature g)) \<notin> set evs"
    and "Req_Method r' = ''POST''" "DecodeJSON verify_table no_verify (Req_Body r') = Inr req" "VQ_Grant req = g"
  shows "fst (verifyGrant P w' r' s2) = (200, Trust_Map [(''status'', ''valid'')]) \<longleftrightarrow> grant_admits g (verify_options req rec (W_clock w' 1))"
proof -
  have repo: "Tru_repo s = None" using trust_run_stored[OF assms(5)] NewTrustRoot_state(2)[OF assms(1,3)] assms(4) by simp
  from authorize_issued[OF assms(6) repo] obtain key now g0 where a: "Active (Tru_keys s) = Inr key"
    "SignGrant P \<lparr>Dev_Identity = signer_identity (Tru_cfg s) (Key_ID key) (Key_Public key) now, Dev_Private = Key_Private key\<rparr> g0 = Inr g"
    "Tru_keys s1 = Tru_keys s" "Tru_cfg s1 = Tru_cfg s" "Tru_repo s1 = None" "Rec_RevocationEpoch rec = Gr_RevocationEpoch g"
    "epoch_is (Gr_SubjectDeviceID g) (Gr_RevocationEpoch g) (trust_abs s1)" .
  let ?signer = "\<lparr>Dev_Identity = signer_identity (Tru_cfg s) (Key_ID key) (Key_Public key) now, Dev_Private = Key_Private key\<rparr>"
  note key = active_key[OF trust_run_keys[OF assms(1,3,5)] a(1)]
  have kid: "Sig_KID (Gr_Signature g) = Key_ID key" by (rule signature_of_signer[OF a(2)])
  have "has_key (Key_ID key) (Key_Public key) (trust_abs s1)" using key(2) a(3) by (simp add: has_key_def trust_abs_def)
  then have "has_key (Key_ID key) (Key_Public key) (trust_abs s2)"
    by (rule trust_run_keeps[OF assms(7)]) (metis has_key_step assms(9) kid)
  then have issuer: "issuerForGrant s2 g t = Inr (signer_identity (Tru_cfg s) (Key_ID key) (Key_Public key) t)" for t
    using issuer_found[OF _ kid kid_not_blank[OF assms(2) key(1)]] trust_run_stored[OF assms(7)] a(4) by simp
  have st: "Tru_repo s2 = None" using trust_run_stored[OF assms(7)] a(5) by simp
  have checks: "VerifyGrant P g (signer_identity (Tru_cfg s) (Key_ID key) (Key_Public key) t) opts = Inr () \<longleftrightarrow> grant_admits g opts" for t opts
    using SignGrant_checks[OF assms(1) key_pair_signer[OF key(1)] a(2)] SignGrant_fields(1)[OF a(2)]
    unfolding VerifyGrant_issuer_time[of P g "Tru_cfg s" "Key_ID key" "Key_Public key" t opts now] by (simp add: VerifyGrant_Inr)
  have out: "fst (verifyGrant P w' r' s2) = (200, Trust_Map [(''status'', ''valid'')]) \<longleftrightarrow>
      grant_admits g (verify_options req (record_or_zero (Tru_devices s2 (VQ_SubjectDeviceID req))) (W_clock w' 1))" (is "_ \<longleftrightarrow> ?adm")
    using checks[of "W_clock w' 0", symmetric]
    by (cases "VerifyGrant P g (signer_identity (Tru_cfg s) (Key_ID key) (Key_Public key) (W_clock w' 0))
        (verify_options req (record_or_zero (Tru_devices s2 (VQ_SubjectDeviceID req))) (W_clock w' 1))")
      (simp_all add: assms(10-12) st issuer verifyGrant_def trust_method_def subject_record_def Let_def WriteJSON_def WriteError_def)
  have "epoch_is (Gr_SubjectDeviceID g) (Gr_RevocationEpoch g) (trust_abs s2)"
    by (rule trust_run_keeps[OF assms(7)]) (use a(7) epoch_step assms(8) in metis)+
  then show ?thesis unfolding out using a(6)
    by (auto simp: epoch_is_def trust_abs_def grant_admits_def verify_options_def record_or_zero_def)
qed

theorem issued_grant_verifies_witness:
  "\<exists>s rec g s1. authorizeDevice model_prims (trust_world Hour) (trust_request ''POST'' [] authorize_body) s =
       ((200, Trust_Issued rec g), s1) \<and>
     fst (verifyGrant model_prims (trust_world Hour) (trust_request ''POST'' [] (encode (DObj (verify_docs (sample_verify g))))) s1) =
       (200, Trust_Map [(''status'', ''valid'')])"
proof -
  obtain s0 s evs d where r: "NewTrustRoot model_prims (replicate 32 (CHR ''s'')) sample_trust_config 0 = Inr s0" "trust_run model_prims s0 evs s"
    and d: "device_ok model_prims d" and s: "Tru_cfg s = sample_trust_config" "Tru_repo s = None" "Tru_policy s = NewDefault" "\<exists>key. Active (Tru_keys s) = Inr key"
    "Tru_devices s = [''watch'' \<mapsto> \<lparr>Rec_Identity = Dev_Identity d, Rec_Status = ''submitted'', Rec_DeviceRecordVersion = 1, Rec_RevocationEpoch = 0\<rparr>]"
    by (rule sample_submitted, rule that)
  define rec where "rec = \<lparr>Rec_Identity = Dev_Identity d, Rec_Status = ''submitted'', Rec_DeviceRecordVersion = 1, Rec_RevocationEpoch = 0\<rparr>"
  have rec: "Tru_devices s ''watch'' = Some rec" "Rec_Status rec \<noteq> ''revoked''" "int64_ok (uint (Rec_RevocationEpoch rec))" "Rec_Identity rec = Dev_Identity d"
    using s(5) by (simp_all add: rec_def int64_ok_def)
  obtain g s1 where g: "authorizeDevice model_prims (trust_world Hour) (trust_request ''POST'' [] authorize_body) s = ((200, Trust_Issued (authorized_record rec) g), s1)"
    and adm: "grant_admits g (verify_options (sample_verify g) (authorized_record rec) Hour)"
    and dec: "DecodeJSON verify_table no_verify (encode (DObj (verify_docs (sample_verify g)))) = Inr (sample_verify g)"
    by (rule sample_authorized[OF s(1-4) rec(1-3) d rec(4) trust_run_keys[OF model_sig r]], rule that)
  let ?r = "trust_request ''POST'' [] (encode (DObj (verify_docs (sample_verify g))))"
  have "fst (verifyGrant model_prims (trust_world Hour) ?r s1) = (200, Trust_Map [(''status'', ''valid'')])"
    using issued_grant_verifies[OF model_sig model_sha256 r(1) _ r(2) g trust_run.trust_start, of ?r "sample_verify g" "trust_world Hour"] adm dec
    by (simp add: trust_request_def sample_trust_config_def trust_world_def sample_verify_def del: encode.simps)
  with g show ?thesis by blast
qed

text \<open>
  C2. A revoked device is locked out of the trust root: once a device that it has on record is revoked, then
  after every sequence of requests (the epoch, a 64-bit counter, does not wrap), resubmission of the
  device included and whichever database statements fail, no grant issued to it up to the
  revocation verifies, and no grant is issued to it.
\<close>

theorem revoked_device_untrusted:
  assumes "DecodeJSON (revoke_table ''device_id'') no_revoke (Req_Body r) = Inr q" "revokeDevice w r s = ((200, reply), s1)"
    and "Tru_devices s (VK_ID q) = Some rec" "VK_ID q \<noteq> []" "ID_DeviceID (Rec_Identity rec) \<noteq> []"
    and "trust_run P s1 evs s2" "uint (Rec_RevocationEpoch rec) + 1 + int (length evs) < 2 ^ 64"
  shows "(\<forall>w' r' req. DecodeJSON verify_table no_verify (Req_Body r') = Inr req \<longrightarrow> Gr_SubjectDeviceID (VQ_Grant req) = VK_ID q \<longrightarrow>
        Gr_RevocationEpoch (VQ_Grant req) \<le> Rec_RevocationEpoch rec \<longrightarrow> fst (fst (verifyGrant P w' r' s2)) \<noteq> 200) \<and>
     (\<forall>w' r' req. DecodeJSON authorize_table no_authorize (Req_Body r') = Inr req \<longrightarrow> AQ_DeviceID req = VK_ID q \<longrightarrow>
        fst (fst (authorizeDevice P w' r' s2)) \<noteq> 200)"
proof -
  let ?e = "uint (Rec_RevocationEpoch rec)"
  have "uint (Rec_RevocationEpoch rec + 1) = ?e + 1" using assms(7) by (intro revoked_epoch) simp
  then have "stays_revoked (VK_ID q) ?e 0 (trust_abs s1)"
    using revoke_effect[OF assms(2,1)] assms(3,5) by (simp add: stays_revoked_def trust_abs_def revoked_record_def record_or_zero_def)
  from trust_run_revoked[OF assms(6) this assms(7,4)] obtain rec2 where rec2: "Tru_devices s2 (VK_ID q) = Some rec2" "Rec_Status rec2 = ''revoked''"
    "ID_DeviceID (Rec_Identity rec2) \<noteq> []" "?e < uint (Rec_RevocationEpoch rec2)" by (auto simp: stays_revoked_def trust_abs_def)
  have "fst (fst (verifyGrant P w' r' s2)) \<noteq> 200"
    if v: "DecodeJSON verify_table no_verify (Req_Body r') = Inr req" "Gr_SubjectDeviceID (VQ_Grant req) = VK_ID q"
      "Gr_RevocationEpoch (VQ_Grant req) \<le> Rec_RevocationEpoch rec" for w' r' req
  proof
    assume "fst (fst (verifyGrant P w' r' s2)) = 200"
    then obtain x y where "verifyGrant P w' r' s2 = ((200, x), y)" by (metis prod.collapse)
    then obtain rec3 issuer u where r3: "subject_record s2 (VQ_SubjectDeviceID req) = (Inr rec3, u)"
      "VerifyGrant P (VQ_Grant req) issuer (verify_options req rec3 (W_clock w' 1)) = Inr ()" using v(1) by (rule verify_ok)
    have subj: "VQ_SubjectDeviceID req = VK_ID q" and e: "Rec_RevocationEpoch rec3 \<le> Gr_RevocationEpoch (VQ_Grant req)"
      using r3(2) v(2) by (auto simp: VerifyGrant_Inr grant_admits_def verify_options_def)
    have "rec3 = rec2" using r3(1) rec2(1,3) unfolding subj by (auto simp: subject_record_def record_or_zero_def Let_def split: option.splits)
    with e v(3) rec2(4) show False by (simp add: word_le_def)
  qed
  moreover have "fst (fst (authorizeDevice P w' r' s2)) \<noteq> 200"
    if "DecodeJSON authorize_table no_authorize (Req_Body r') = Inr req" "AQ_DeviceID req = VK_ID q" for w' r' req
    using that rec2(1,2) by (simp add: authorizeDevice_def trust_method_def trust_requireAdmin_def authorize_record_def find_record_def
        Let_def WriteError_def WriteJSON_def split: option.split)
  ultimately show ?thesis by blast
qed

theorem revoked_device_untrusted_witness:
  "\<exists>s rec. Tru_devices s ''watch'' = Some rec \<and> Rec_Status rec = ''submitted'' \<and>
     fst (fst (authorizeDevice model_prims (trust_world Hour) (trust_request ''POST'' [] authorize_body) s)) = 200 \<and>
     fst (fst (revokeDevice (trust_world 1) (trust_request ''POST'' [] revoke_body) s)) = 200 \<and>
     fst (fst (authorizeDevice model_prims (trust_world Hour) (trust_request ''POST'' [] authorize_body)
       (snd (revokeDevice (trust_world 1) (trust_request ''POST'' [] revoke_body) s)))) \<noteq> 200"
proof -
  obtain s0 s evs d where r: "NewTrustRoot model_prims (replicate 32 (CHR ''s'')) sample_trust_config 0 = Inr s0" "trust_run model_prims s0 evs s"
    and d: "device_ok model_prims d" "ID_DeviceID (Dev_Identity d) = ''watch''"
    and s: "Tru_cfg s = sample_trust_config" "Tru_repo s = None" "Tru_policy s = NewDefault" "\<exists>key. Active (Tru_keys s) = Inr key"
    "Tru_devices s = [''watch'' \<mapsto> \<lparr>Rec_Identity = Dev_Identity d, Rec_Status = ''submitted'', Rec_DeviceRecordVersion = 1, Rec_RevocationEpoch = 0\<rparr>]"
    by (rule sample_submitted, rule that)
  define rec where "rec = \<lparr>Rec_Identity = Dev_Identity d, Rec_Status = ''submitted'', Rec_DeviceRecordVersion = 1, Rec_RevocationEpoch = 0\<rparr>"
  have rec: "Tru_devices s ''watch'' = Some rec" "Rec_Status rec \<noteq> ''revoked''" "int64_ok (uint (Rec_RevocationEpoch rec))" "Rec_Identity rec = Dev_Identity d"
    using s(5) by (simp_all add: rec_def int64_ok_def)
  have ok: "fst (fst (authorizeDevice model_prims (trust_world Hour) (trust_request ''POST'' [] authorize_body) s)) = 200"
    by (rule sample_authorized[OF s(1-4) rec(1-3) d(1) rec(4) trust_run_keys[OF model_sig r], of "[]"]) simp
  let ?r = "trust_request ''POST'' [] revoke_body"
  obtain reply s1 where rv: "revokeDevice (trust_world 1) ?r s = ((200, reply), s1)"
  proof (cases "revokeDevice (trust_world 1) ?r s" rule: prod.exhaust)
    case (Pair a s1)
    obtain st reply where "a = (st, reply)" by force
    with Pair sample_revoked[OF s(1,2) rec(1)] d(2) rec(4) that show thesis by simp
  qed
  have "fst (fst (authorizeDevice model_prims (trust_world Hour) (trust_request ''POST'' [] authorize_body) s1)) \<noteq> 200"
    using revoked_device_untrusted[OF _ rv _ _ _ trust_run.trust_start, of "\<lparr>VK_ID = ''watch'', VK_Reason = ''lost''\<rparr>" rec model_prims] rec d(2)
      revoke_body_decodes authorize_body_decodes
    by (simp add: trust_request_def rec_def sample_authorize_def)
  moreover have "Rec_Status rec = ''submitted''" by (simp add: rec_def)
  ultimately show ?thesis using rec(1) ok rv by (intro exI[of _ s] exI[of _ rec]) simp
qed

text \<open>A page of the feed, as the handler answers a request for it.\<close>

definition feed_query :: "Request \<Rightarrow> string \<Rightarrow> string \<Rightarrow> Request" where
  "feed_query r raw cursor = r\<lparr>Req_Query := (\<lambda>k. if k = ''limit'' then raw else if k = ''cursor'' then cursor else [])\<rparr>"

definition feed_page :: "TrustServer \<Rightarrow> Request \<Rightarrow> string \<Rightarrow> string \<Rightarrow> revocationsResponse" where
  "feed_page s r raw cursor =
     (case snd (fst (revocations (feed_query r raw cursor) s)) of
        Trust_Revocations resp \<Rightarrow> resp
      | _ \<Rightarrow> \<lparr>RVR_Type = [], RVR_Items = [], RVR_NextCursor = []\<rparr>)"

definition feed_of :: "TrustServer \<Rightarrow> revocationItem list" where
  "feed_of s = (case Tru_repo s of
     None \<Rightarrow> Tru_revocationLog s
   | Some d \<Rightarrow> stored_feed (TCfg_DomainID (Tru_cfg s)) (TT_revocations (Db_tables d)))"

definition feed_limit :: "string \<Rightarrow> int \<Rightarrow> bool" where
  "feed_limit raw limit \<longleftrightarrow> raw = [] \<and> limit = 100 \<or> raw \<noteq> [] \<and> ParseInt raw = Inr limit \<and> 0 < limit \<and> limit \<le> 200"

lemma feed_limit_range: "feed_limit raw limit \<Longrightarrow> 0 < limit \<and> limit \<le> 200"
  by (auto simp: feed_limit_def)

lemma feed_page_memory:
  assumes "Tru_repo s = None" "Req_Method r = ''GET''" "feed_limit raw limit"
  shows "feed_page s r raw = (\<lambda>cursor. log_page limit cursor (Tru_revocationLog s))"
  using assms by (auto simp: fun_eq_iff feed_page_def feed_query_def revocations_def trust_method_def domainScopeMismatch_def feed_limit_def
      Let_def WriteJSON_def)

lemma feed_page_table:
  assumes "Tru_repo s = Some d" "Db_faults d = []" "TCfg_DomainID (Tru_cfg s) \<noteq> []" "Req_Method r = ''GET''" "feed_limit raw limit"
  shows "feed_page s r raw =
    (\<lambda>cursor. stored_page limit (select_revocations (TCfg_DomainID (Tru_cfg s)) cursor limit (TT_revocations (Db_tables d))))"
proof
  fix cursor
  have l: "page_limit limit = limit" using feed_limit_range[OF assms(5)] by (simp add: page_limit_def)
  have "ListRevocations d (TCfg_DomainID (Tru_cfg s)) cursor limit =
      (Inr (select_revocations (TCfg_DomainID (Tru_cfg s)) cursor limit (TT_revocations (Db_tables d))), d)"
    using assms(2,3) by (simp add: ListRevocations_def RequireDomain_def Exec_def on_table_def l)
  then have "with_trust_db d (\<lambda>d. ListRevocations d (TCfg_DomainID (Tru_cfg s)) cursor limit) s =
      (Inr (select_revocations (TCfg_DomainID (Tru_cfg s)) cursor limit (TT_revocations (Db_tables d))), s\<lparr>Tru_repo := Some d\<rparr>)"
    by (simp add: with_trust_db_def)
  then show "feed_page s r raw cursor =
      stored_page limit (select_revocations (TCfg_DomainID (Tru_cfg s)) cursor limit (TT_revocations (Db_tables d)))"
    using assms(1,4,5) by (auto simp: feed_page_def feed_query_def revocations_def trust_method_def domainScopeMismatch_def feed_limit_def
        Let_def WriteJSON_def)
qed

text \<open>
  C23. The revocation feed can be read to its end: a client that follows the cursors of the pages, with any
  admissible limit, stops after at most one page more than there are revocations, and has then read
  every revocation exactly once and in the order of the feed (of the log in memory, or of the
  identifiers in the table), provided their identifiers are distinct.
\<close>

theorem revocation_feed_terminates:
  assumes "Req_Method r = ''GET''" "feed_limit raw limit" "ids_ok (feed_of s)"
    and "\<forall>d. Tru_repo s = Some d \<longrightarrow> Db_faults d = [] \<and> TCfg_DomainID (Tru_cfg s) \<noteq> []"
  shows "read_pages (feed_page s r raw) (Suc (length (feed_of s))) [] = Some (feed_of s)"
proof (cases "Tru_repo s")
  case None
  with assms feed_limit_range[OF assms(2)] memory_feed.reads_all[of "Tru_revocationLog s" limit] show ?thesis
    by (simp only: feed_page_memory[OF None assms(1,2)] feed_of_def option.case)
next
  case (Some d)
  have page: "feed_page s r raw =
      (\<lambda>cursor. stored_page limit (select_revocations (TCfg_DomainID (Tru_cfg s)) cursor limit (TT_revocations (Db_tables d))))"
    using feed_page_table[OF Some _ _ assms(1,2)] assms(4) Some by blast
  have "feed_of s = stored_feed (TCfg_DomainID (Tru_cfg s)) (TT_revocations (Db_tables d))" using Some by (simp add: feed_of_def)
  with assms(3) feed_limit_range[OF assms(2)] table_feed.reads_all[of "(TCfg_DomainID (Tru_cfg s), TT_revocations (Db_tables d))" limit] page
  show ?thesis by (simp only: prod.case lessI)
qed

definition sample_item :: "string \<Rightarrow> revocationItem" where
  "sample_item ident = \<lparr>RI_RevocationID = ident, RI_DomainID = ''dom'', RI_DeviceID = ''watch'', RI_GrantID = [], RI_ReasonCode = ''lost'', RI_EffectiveAt = 1\<rparr>"

theorem revocation_feed_terminates_witness:
  "\<exists>s. Tru_revocationLog s = map sample_item [''a'', ''b'', ''c''] \<and>
     read_pages (feed_page s (trust_request ''GET'' [] []) ''2'') 4 [] = Some (map sample_item [''a'', ''b'', ''c''])"
proof -
  obtain s0 :: TrustServer where s0: "Tru_repo s0 = None" by (rule sample_trust_root, rule that)
  define s where "s = s0\<lparr>Tru_revocationLog := map sample_item [''a'', ''b'', ''c'']\<rparr>"
  have f: "feed_of s = map sample_item [''a'', ''b'', ''c'']" using s0 by (simp add: s_def feed_of_def)
  have "ParseInt ''2'' = Inr 2" by code_simp
  then have l: "feed_limit ''2'' 2" by (simp add: feed_limit_def)
  have ids: "ids_ok (feed_of s)" unfolding f by (simp add: ids_ok_def sample_item_def)
  have "Req_Method (trust_request ''GET'' [] []) = ''GET''" "\<forall>d. Tru_repo s = Some d \<longrightarrow> Db_faults d = [] \<and> TCfg_DomainID (Tru_cfg s) \<noteq> []"
    using s0 by (simp_all add: trust_request_def s_def)
  from revocation_feed_terminates[OF this(1) l ids this(2)] show ?thesis unfolding f
    by (intro exI[of _ s]) (simp add: s_def eval_nat_numeral)
qed

text \<open>
  C35. The revocation of a grant does not reach its verification: after a grant is revoked its status is
  reported as revoked, but the verification handler answers every request as it did before.
\<close>

theorem grant_revocation_unseen:
  assumes "Tru_repo s = None" "DecodeJSON (revoke_table ''grant_id'') no_revoke (Req_Body r) = Inr q" "Tru_grants s (VK_ID q) = Some g"
    and "revokeGrant w r s = ((200, reply), s1)"
  shows "(\<forall>w' r'. fst (verifyGrant P w' r' s1) = fst (verifyGrant P w' r' s)) \<and>
     (\<forall>w' r'. Req_Method r' = ''GET'' \<longrightarrow> Req_Query r' ''grant_id'' = VK_ID q \<longrightarrow> \<not> domainScopeMismatch s r' \<longrightarrow>
        (\<exists>raw. MarshalGrant g = Inr raw \<and> fst (grantStatus w' r' s1) = (200, Trust_GrantStatus \<lparr>GSR_Type = TypeGrantStatus, GSR_Status = ''revoked'', GSR_Grant = raw\<rparr>)))"
proof -
  from assms obtain raw item u where raw: "MarshalGrant g = Inr raw"
    and s1: "s1 = s\<lparr>Tru_revokedGrants := insert (VK_ID q) (Tru_revokedGrants s), Tru_revocationLog := Tru_revocationLog s @ [item], Tru_audit := u\<rparr>"
    by (auto simp: revokeGrant_def trust_method_def trust_requireAdmin_def handle_def Let_def WriteError_def WriteJSON_def
        split: if_splits sum.splits prod.splits)
  have "fst (verifyGrant P w' r' s1) = fst (verifyGrant P w' r' s)" for w' r'
    using assms(1) by (simp add: s1 verifyGrant_def trust_method_def handle_def subject_record_def issuerForGrant_def Let_def split: sum.split)
  moreover have "fst (grantStatus w' r' s1) = (200, Trust_GrantStatus \<lparr>GSR_Type = TypeGrantStatus, GSR_Status = ''revoked'', GSR_Grant = raw\<rparr>)"
    if "Req_Method r' = ''GET''" "Req_Query r' ''grant_id'' = VK_ID q" "\<not> domainScopeMismatch s r'" for w' r'
    using that raw assms(3) by (auto simp: s1 grantStatus_def trust_method_def find_grant_def domainScopeMismatch_def Let_def WriteJSON_def grant_status_text_def)
  ultimately show ?thesis using raw by blast
qed

theorem grant_revocation_unseen_witness:
  "\<exists>s g s1. Tru_grants s (Gr_GrantID g) = Some g \<and>
     s1 = snd (revokeGrant (trust_world Hour) (trust_request ''POST'' [] (revoke_grant_body (Gr_GrantID g))) s) \<and> Gr_GrantID g \<in> Tru_revokedGrants s1 \<and>
     fst (verifyGrant model_prims (trust_world Hour) (trust_request ''POST'' [] (encode (DObj (verify_docs (sample_verify g))))) s1) =
     fst (verifyGrant model_prims (trust_world Hour) (trust_request ''POST'' [] (encode (DObj (verify_docs (sample_verify g))))) s)"
proof -
  obtain s0 s evs d where r: "NewTrustRoot model_prims (replicate 32 (CHR ''s'')) sample_trust_config 0 = Inr s0" "trust_run model_prims s0 evs s"
    and d: "device_ok model_prims d" and s: "Tru_cfg s = sample_trust_config" "Tru_repo s = None" "Tru_policy s = NewDefault" "\<exists>key. Active (Tru_keys s) = Inr key"
    "Tru_devices s = [''watch'' \<mapsto> \<lparr>Rec_Identity = Dev_Identity d, Rec_Status = ''submitted'', Rec_DeviceRecordVersion = 1, Rec_RevocationEpoch = 0\<rparr>]"
    by (rule sample_submitted, rule that)
  define rec where "rec = \<lparr>Rec_Identity = Dev_Identity d, Rec_Status = ''submitted'', Rec_DeviceRecordVersion = 1, Rec_RevocationEpoch = 0\<rparr>"
  have rec: "Tru_devices s ''watch'' = Some rec" "Rec_Status rec \<noteq> ''revoked''" "int64_ok (uint (Rec_RevocationEpoch rec))" "Rec_Identity rec = Dev_Identity d"
    using s(5) by (simp_all add: rec_def int64_ok_def)
  obtain g and s1 :: TrustServer where g: "Tru_repo s1 = None" "Tru_cfg s1 = sample_trust_config" "Tru_grants s1 (Gr_GrantID g) = Some g" "grant_valid g"
    by (rule sample_authorized[OF s(1-4) rec(1-3) d rec(4) trust_run_keys[OF model_sig r]], rule that)
  let ?r = "trust_request ''POST'' [] (revoke_grant_body (Gr_GrantID g))"
  have dec: "DecodeJSON (revoke_table ''grant_id'') no_revoke (Req_Body ?r) = Inr \<lparr>VK_ID = Gr_GrantID g, VK_Reason = []\<rparr>"
    using revoke_grant_body_decodes g(4) by (simp add: grant_valid_def grant_strings_valid_def trust_request_def)
  obtain reply s2 where rv: "revokeGrant (trust_world Hour) ?r s1 = ((200, reply), s2)" "Gr_GrantID g \<in> Tru_revokedGrants s2"
    using sample_grant_revoked[OF g(2,1,3,4)] by blast
  from grant_revocation_unseen[OF g(1) dec _ rv(1), of g] g(3) rv show ?thesis by (intro exI[of _ s1] exI[of _ g] exI[of _ s2]) simp
qed

end
