(* ===== verification/Scenario.thy ===== *)
theory Scenario
  imports Identity_Codec Session_Control Envelope Payload Provisioning Recovery Descriptor Trust_Grant
begin

text \<open>
  Programs that drive the library: the conformance cases, the command line tool and the simulator
  are sequences of library calls, each with its early return. A step takes a state and gives an
  error or a value with the next state; here the state is the random source every
  \<^verbatim>\<open>crypto.NewProvider()\<close> draws from. \<open>achieves\<close> is total correctness of such a program: from every
  source with enough bytes it returns a value, having drawn exactly that many, and the value
  satisfies the postcondition. The lemmas give the rule of every library call under the laws of the
  primitives, so that a program's proof follows its text.
\<close>

section \<open>Steps\<close>

type_synonym ('s, 'e, 'a) step = "'s \<Rightarrow> ('e + 'a) \<times> 's"

definition then_do :: "('s, 'e, 'a) step \<Rightarrow> ('a \<Rightarrow> ('s, 'e, 'b) step) \<Rightarrow> ('s, 'e, 'b) step" where
  "then_do m k s = (case m s of (Inl err, s') \<Rightarrow> (Inl err, s') | (Inr x, s') \<Rightarrow> k x s')"

definition give :: "'e + 'a \<Rightarrow> ('s, 'e, 'a) step" where
  "give res s = (res, s)"

type_synonym 'a draws = "(reader, go_error, 'a) step"

definition errorf :: "string \<Rightarrow> 'a result" where
  "errorf message = Inl (StdError message)"

section \<open>Library calls on the random source\<close>

definition new_device :: "prims \<Rightarrow> string \<Rightarrow> string \<Rightarrow> time \<Rightarrow> Device draws" where
  "new_device P domainID deviceID now = (\<lambda>r. NewDevice P r domainID deviceID now)"

definition create_hello :: "prims \<Rightarrow> Device \<Rightarrow> string \<Rightarrow> string \<Rightarrow> string \<Rightarrow> time \<Rightarrow> LocalHello draws" where
  "create_hello P dev sessionID peer grantID now = (\<lambda>r. CreateHello P r dev sessionID peer grantID now)"

definition local_channel :: "prims \<Rightarrow> bytes \<Rightarrow> LocalChannel draws" where
  "local_channel P oob = (\<lambda>r. EstablishLocalChannel P r oob)"

definition session_key :: "prims \<Rightarrow> (X25519PrivateKey \<times> X25519PublicKey) draws" where
  "session_key P = (\<lambda>r. GenerateSessionKey P r)"

text \<open>\<^verbatim>\<open>RandomBytes\<close> panics when the source fails, which ends the program with an error.\<close>

definition random_bytes :: "nat \<Rightarrow> bytes draws" where
  "random_bytes n r = (case RandomBytes n r of None \<Rightarrow> (errorf ''panic: unexpected EOF'', []) | Some (b, r') \<Rightarrow> (Inr b, r'))"

text \<open>\<^verbatim>\<open>Seal\<close> draws its key pair, and the nonce once the key is derived: a source that ends before the
  nonce panics there, whatever the nonce would have been.\<close>

definition seal :: "prims \<Rightarrow> string \<Rightarrow> bytes \<Rightarrow> bytes \<Rightarrow> WrappedCredentials draws" where
  "seal P wrapPublicKey transcript plaintext = (\<lambda>r.
     case Seal P r (take 12 (drop 32 r @ replicate 12 NUL)) wrapPublicKey transcript plaintext of
       (Inr w, r') \<Rightarrow> then_do (random_bytes 12) (\<lambda>_. give (Inr w)) r'
     | (Inl err, r') \<Rightarrow> (Inl err, r'))"

definition create_reopen :: "prims \<Rightarrow> Device \<Rightarrow> string \<Rightarrow> string \<Rightarrow> string \<Rightarrow> string \<Rightarrow> time \<Rightarrow> Reopen draws" where
  "create_reopen P dev requestID peer relayID cause now =
     (if \<not> validCause cause then give (CreateReopen P [] dev requestID peer relayID cause now)
      else then_do (random_bytes 16) (\<lambda>draw. give (CreateReopen P draw dev requestID peer relayID cause now)))"

section \<open>Total correctness\<close>

definition achieves :: "'a draws \<Rightarrow> nat \<Rightarrow> ('a \<Rightarrow> bool) \<Rightarrow> bool" where
  "achieves m n Q \<longleftrightarrow> (\<forall>r. n \<le> length r \<longrightarrow> (\<exists>x. m r = (Inr x, drop n r) \<and> Q x))"

lemma achieves_then:
  assumes "achieves m k Q" "k \<le> n" "\<And>x. Q x \<Longrightarrow> achieves (f x) (n - k) R"
  shows "achieves (then_do m f) n R"
  unfolding achieves_def
proof (intro allI impI)
  fix r :: reader
  assume n: "n \<le> length r"
  obtain x where x: "m r = (Inr x, drop k r)" "Q x" using assms(1,2) n unfolding achieves_def by (meson order_trans)
  obtain y where "f x (drop k r) = (Inr y, drop (n - k) (drop k r))" "R y"
    using assms(3)[OF x(2)] n assms(2) unfolding achieves_def by (metis diff_le_mono length_drop)
  with x(1) assms(2) show "\<exists>x. then_do m f r = (Inr x, drop n r) \<and> R x" by (simp add: then_do_def)
qed

lemma achieves_give: "res = Inr x \<Longrightarrow> n = 0 \<Longrightarrow> Q x \<Longrightarrow> achieves (give res) n Q"
  by (simp add: achieves_def give_def)

lemma achieves_then_give: "res = Inr x \<Longrightarrow> achieves (f x) n R \<Longrightarrow> achieves (then_do (give res) f) n R"
  by (simp add: achieves_def then_do_def give_def)

lemma achieves_weaken: "achieves m n Q \<Longrightarrow> (\<And>x. Q x \<Longrightarrow> R x) \<Longrightarrow> achieves m n R"
  unfolding achieves_def by blast

section \<open>Laws of the primitives\<close>

text \<open>
  X25519 never fails between honest keys: a clamped scalar times the base point, or times such a
  point, is not the point at infinity.
\<close>

definition dh_total :: "prims \<Rightarrow> bool" where
  "dh_total P \<longleftrightarrow>
     (\<forall>a. length a = 32 \<longrightarrow> x25519 P (clamp a) (x25519_base P) \<noteq> None) \<and>
     (\<forall>a b p. length a = 32 \<longrightarrow> length b = 32 \<longrightarrow> x25519 P (clamp b) (x25519_base P) = Some p \<longrightarrow>
        x25519 P (clamp a) p \<noteq> None)"

definition sdk_laws :: "prims \<Rightarrow> bool" where
  "sdk_laws P \<longleftrightarrow> sig_correct P \<and> signs_nonempty P \<and> dh_agrees P \<and> dh_total P \<and> aead_correct P \<and> hkdf_total P"

lemma model_dh_total: "dh_total model_prims"
  by (auto simp: dh_total_def model_prims_def)

lemma model_sdk_laws: "sdk_laws model_prims"
  by (simp add: sdk_laws_def model_laws model_signs model_dh_total)

lemma sdk_lawsD:
  assumes "sdk_laws P"
  shows "sig_correct P" "signs_nonempty P" "dh_agrees P" "dh_total P" "aead_correct P" "hkdf_total P"
  using assms by (simp_all add: sdk_laws_def)

section \<open>Rules of the library calls\<close>

definition device_as :: "prims \<Rightarrow> string \<Rightarrow> string \<Rightarrow> Device \<Rightarrow> bool" where
  "device_as P domainID deviceID d \<longleftrightarrow> device_ok P d \<and> ID_DomainID (Dev_Identity d) = domainID \<and> ID_DeviceID (Dev_Identity d) = deviceID"

lemma new_device:
  assumes "sdk_laws P"
  shows "achieves (new_device P domainID deviceID now) 32 (device_as P domainID deviceID)"
  unfolding achieves_def
proof (intro allI impI)
  fix r :: reader
  assume "32 \<le> length r"
  then obtain d where d: "NewDevice P r domainID deviceID now = (Inr d, drop 32 r)"
    by (simp add: NewDevice_def GenerateIdentityKey_def ReadFull_def Let_def)
  with NewDevice_ok[OF sdk_lawsD(1)[OF assms] d]
  show "\<exists>x. new_device P domainID deviceID now r = (Inr x, drop 32 r) \<and> device_as P domainID deviceID x"
    by (simp add: new_device_def device_as_def)
qed

lemma device_thumbprint: "device_as P dm i d \<Longrightarrow> \<exists>tp. identity_Thumbprint P (Dev_Identity d) = Inr tp"
  by (simp add: device_as_def device_ok_def identity_Thumbprint_def Let_def)

lemma random_bytes: "achieves (random_bytes n) n (\<lambda>b. length b = n)"
  by (simp add: achieves_def random_bytes_def RandomBytes_def ReadFull_def)

lemma session_key:
  assumes "sdk_laws P"
  shows "achieves (session_key P) 32 (\<lambda>(priv, pub). (\<exists>r r'. GenerateSessionKey P r = (Inr (priv, pub), r')) \<and>
    (\<exists>a. length a = 32 \<and> xpriv_key priv = clamp a) \<and> length (xpub_key pub) = 32)"
  unfolding achieves_def
proof (intro allI impI)
  fix r :: reader
  assume r: "32 \<le> length r"
  then obtain p where p: "x25519 P (clamp (take 32 r)) (x25519_base P) = Some p"
    using sdk_lawsD(4)[OF assms] unfolding dh_total_def by fastforce
  have k: "GenerateSessionKey P r = (Inr (X25519PrivateKey (clamp (take 32 r)), X25519PublicKey p), drop 32 r)"
    using r p by (simp add: GenerateSessionKey_def ReadFull_def Let_def)
  moreover have "length p = 32" using sdk_lawsD(3)[OF assms] p unfolding dh_agrees_def by blast
  moreover have "\<exists>a. length a = 32 \<and> clamp (take 32 r) = clamp a" using r by (intro exI[of _ "take 32 r"]) simp
  ultimately show "\<exists>x. session_key P r = (Inr x, drop 32 r) \<and> (case x of (priv, pub) \<Rightarrow>
      (\<exists>r r'. GenerateSessionKey P r = (Inr (priv, pub), r')) \<and> (\<exists>a. length a = 32 \<and> xpriv_key priv = clamp a) \<and> length (xpub_key pub) = 32)"
    unfolding session_key_def by auto
qed

lemma draws_key:
  assumes "sdk_laws P" "32 \<le> length r"
  obtains a A where "GenerateSessionKey P r = (Inr (a, A), drop 32 r)"
proof -
  obtain k where "GenerateSessionKey P r = (Inr k, drop 32 r)"
    using session_key[OF assms(1)] assms(2) unfolding achieves_def session_key_def by blast
  with that show thesis by (cases k) simp
qed

lemma key_pair:
  assumes "sdk_laws P" "GenerateSessionKey P r = (Inr (priv, pub), r')"
  obtains a where "length a = 32" "xpriv_key priv = clamp a" "x25519 P (clamp a) (x25519_base P) = Some (xpub_key pub)"
    "length (xpub_key pub) = 32" "r' = drop 32 r"
proof -
  have "32 \<le> length r" using assms(2) by (auto simp: GenerateSessionKey_def ReadFull_def split: if_splits)
  moreover note GenerateSessionKey_pair[OF assms(2)]
  moreover have "length (xpub_key pub) = 32"
    using sdk_lawsD(3)[OF assms(1)] GenerateSessionKey_pair[OF assms(2)] unfolding dh_agrees_def by blast
  ultimately show thesis
    using assms(2) by (intro that[of "take 32 r"]) (auto simp: GenerateSessionKey_def ReadFull_def Let_def split: option.splits)
qed

lemma shared_secret:
  assumes "sdk_laws P" "GenerateSessionKey P r = (Inr (a, A), ra)" "GenerateSessionKey P s = (Inr (b, B), sb)"
  shows "\<exists>secret. SharedSecret P a B = Inr secret"
proof -
  obtain x where x: "length x = 32" "xpriv_key a = clamp x" using key_pair[OF assms(1,2)] by metis
  obtain y where y: "length y = 32" "x25519 P (clamp y) (x25519_base P) = Some (xpub_key B)" using key_pair[OF assms(1,3)] by metis
  have "x25519 P (clamp x) (xpub_key B) \<noteq> None" using sdk_lawsD(4)[OF assms(1)] x(1) y unfolding dh_total_def by blast
  then show ?thesis by (auto simp: SharedSecret_def x(2))
qed

definition hello_as :: "prims \<Rightarrow> Device \<Rightarrow> string \<Rightarrow> string \<Rightarrow> string \<Rightarrow> time \<Rightarrow> LocalHello \<Rightarrow> bool" where
  "hello_as P dev sessionID peer grantID now l \<longleftrightarrow> (\<exists>r r'. CreateHello P r dev sessionID peer grantID now = (Inr l, r'))"

lemma create_hello:
  assumes "sdk_laws P" "year_ok now"
  shows "achieves (create_hello P dev sessionID peer grantID now) 32 (hello_as P dev sessionID peer grantID now)"
  unfolding achieves_def
proof (intro allI impI)
  fix r :: reader
  assume "32 \<le> length r"
  then obtain k where k: "GenerateSessionKey P r = (Inr k, drop 32 r)"
    using session_key[OF assms(1)] unfolding achieves_def session_key_def by blast
  obtain priv pub where kk: "k = (priv, pub)" by force
  obtain m where "hello_input \<lparr>H_Type = TypeHello, H_SessionID = sessionID,
                 H_DomainID = ID_DomainID (Dev_Identity dev), H_DeviceID = ID_DeviceID (Dev_Identity dev),
                 H_PeerDeviceID = peer, H_Ciphersuite = CiphersuiteV2,
                 H_EphemeralPublicKey = Base64URL (xpub_key pub), H_GrantID = grantID, H_IssuedAt = now,
                 H_Signature = no_signature\<rparr> = Inr m"
    using hello_input_ok[of "\<lparr>H_Type = TypeHello, H_SessionID = sessionID,
                 H_DomainID = ID_DomainID (Dev_Identity dev), H_DeviceID = ID_DeviceID (Dev_Identity dev),
                 H_PeerDeviceID = peer, H_Ciphersuite = CiphersuiteV2,
                 H_EphemeralPublicKey = Base64URL (xpub_key pub), H_GrantID = grantID, H_IssuedAt = now,
                 H_Signature = no_signature\<rparr>"] assms(2) by auto
  with k kk obtain l where "CreateHello P r dev sessionID peer grantID now = (Inr l, drop 32 r)"
    by (simp add: CreateHello_def Let_def)
  then show "\<exists>x. create_hello P dev sessionID peer grantID now r = (Inr x, drop 32 r) \<and> hello_as P dev sessionID peer grantID now x"
    unfolding create_hello_def hello_as_def by blast
qed

text \<open>Two greeted devices reach ready sessions with one another's keys.\<close>

definition ready_pair :: "State \<Rightarrow> State \<Rightarrow> bool" where
  "ready_pair a b \<longleftrightarrow> paired a b \<and> St_ready a \<and> St_ready b \<and> St_sendSeq a = 0 \<and> St_seenSeq b = {} \<and> length (St_SendKey a) = 32"

lemma open_session:
  assumes laws: "sdk_laws P" and dev: "device_as P dm i A" "device_as P dm j B" "i \<noteq> j"
    and la: "hello_as P A sid j g t la" and lb: "hello_as P B sid i g' t' lb"
  obtains sa sb ra rb where "Establish P la (LH_Hello lb) (Dev_Identity A) (Dev_Identity B) = Inr sa"
    "Establish P lb (LH_Hello la) (Dev_Identity B) (Dev_Identity A) = Inr sb" "St_SessionID sa = sid" "fresh_state sa"
    "CreateReady P sa A = Inr ra" "CreateReady P sb B = Inr rb"
    "VerifyReady P sa rb (Dev_Identity B) = Inr (sa\<lparr>St_ready := True\<rparr>)" "VerifyReady P sb ra (Dev_Identity A) = Inr (sb\<lparr>St_ready := True\<rparr>)"
    "ready_pair (sa\<lparr>St_ready := True\<rparr>) (sb\<lparr>St_ready := True\<rparr>)"
proof -
  note l = sdk_lawsD[OF laws]
  have D: "device_ok P A" "device_ok P B" "ID_DeviceID (Dev_Identity A) = i" "ID_DeviceID (Dev_Identity B) = j"
    "ID_DomainID (Dev_Identity A) = ID_DomainID (Dev_Identity B)" using dev by (simp_all add: device_as_def)
  obtain r r' where ha: "CreateHello P r A sid j g t = (Inr la, r')" using la unfolding hello_as_def by blast
  obtain s s' where hb: "CreateHello P s B sid i g' t' = (Inr lb, s')" using lb unfolding hello_as_def by blast
  obtain a pubA where ka: "GenerateSessionKey P r = (Inr (a, pubA), r')" "LH_privateKey la = a" "H_SessionID (LH_Hello la) = sid"
    using ha by (rule CreateHello_Inr)
  obtain b pubB where kb: "GenerateSessionKey P s = (Inr (b, pubB), s')" "H_EphemeralPublicKey (LH_Hello lb) = Base64URL (xpub_key pubB)"
    using hb by (rule CreateHello_Inr)
  have ok: "is_ok (SharedSecret P (LH_privateKey la) (X25519PublicKey (xpub_key pubB)))"
    using shared_secret[OF laws ka(1) kb(1)] ka(2) by (auto simp: is_ok_iff)
  have dec: "DecodeBase64URL (H_EphemeralPublicKey (LH_Hello lb)) = Inr (xpub_key pubB)" using kb(2) by simp
  obtain sa sb where S: "Establish P la (LH_Hello lb) (Dev_Identity A) (Dev_Identity B) = Inr sa"
    "Establish P lb (LH_Hello la) (Dev_Identity B) (Dev_Identity A) = Inr sb" "paired sa sb" "fresh_state sa" "fresh_state sb"
    by (rule sessions_agree[OF l(1,3,6) D(1,2) _ D(5), of r sid g t la r' s g' t' lb s', OF _ _ _ dec ok]) (use dev(3) ha hb D in simp_all)
  have sid: "St_SessionID sa = sid"
    using S(1) ka(3) by (auto simp: Establish_def Let_def and_then_Inr_iff split_beta split: if_splits)
  have p: "paired sb sa" using S(3) by (simp add: paired_def)
  obtain ra where ra: "CreateReady P sa A = Inr ra" "VerifyReady P sb ra (Dev_Identity A) = Inr (sb\<lparr>St_ready := True\<rparr>)"
    using ready_accepted[OF l(1) D(1) S(3)] by blast
  obtain rb where rb: "CreateReady P sb B = Inr rb" "VerifyReady P sa rb (Dev_Identity B) = Inr (sa\<lparr>St_ready := True\<rparr>)"
    using ready_accepted[OF l(1) D(2) p] by blast
  show thesis
    by (rule that[OF S(1,2) sid S(4) ra(1) rb(1) rb(2) ra(2)]) (use S(3-5) in \<open>simp add: ready_pair_def paired_def fresh_state_def\<close>)
qed

text \<open>One payload over a ready pair.\<close>

lemma send_payload:
  assumes "sdk_laws P" "ready_pair a b" "route_ok route"
  obtains e a' b' where "Encrypt P (Some a) mid ty route p = (Inr e, a')" "Env_MessageID e = mid" "Env_Route e = route"
    "\<exists>ct. Env_Ciphertext e = Base64URL ct" "Decrypt P (Some b) e = (Inr p, Some b')"
    "Decrypt P (Some b') e = (reject CodeReplayDetected ''duplicate envelope sequence'', Some b')"
proof -
  have f: "paired a b" "St_ready a" "St_ready b" "length (St_SendKey a) = 32" "St_seenSeq b = {}"
    using assms(2) by (simp_all add: ready_pair_def)
  have "int64_ok (uint (St_sendSeq a))" using assms(2) by (simp add: ready_pair_def int64_ok_def)
  then obtain e where e: "Encrypt P (Some a) mid ty route p = (Inr e, Some (a\<lparr>St_sendSeq := St_sendSeq a + 1\<rparr>))"
    using Encrypt_ok[OF f(2,4)] assms(3) by blast
  note E = Encrypt_Inr[OF e]
  let ?b = "b\<lparr>St_seenSeq := insert (Env_Sequence e) (St_seenSeq b)\<rparr>"
  have d: "Decrypt P (Some b) e = (Inr p, Some ?b)"
    using Decrypt_sealed[OF sdk_lawsD(5)[OF assms(1)] f(1,3,4) E(4)] f(5) by simp
  have "paired a ?b" "St_ready ?b" using f(1,3) by (simp_all add: paired_def)
  then have d': "Decrypt P (Some ?b) e = (reject CodeReplayDetected ''duplicate envelope sequence'', Some ?b)"
    using Decrypt_sealed[OF sdk_lawsD(5)[OF assms(1)] _ _ f(4) E(4), of ?b] by simp
  have "\<exists>ct. Env_Ciphertext e = Base64URL ct" using E(4) unfolding sealed_def by blast
  from that[OF e E(5,7) this d d'] show thesis .
qed

lemma local_channel:
  assumes "sdk_laws P"
  shows "achieves (local_channel P oob) 64 LC_Ready"
  unfolding achieves_def
proof (intro allI impI)
  fix r :: reader
  assume r: "64 \<le> length r"
  obtain a A where a: "GenerateSessionKey P r = (Inr (a, A), drop 32 r)" by (rule draws_key[OF assms, of r]) (use r in simp)
  obtain b B where b: "GenerateSessionKey P (drop 32 r) = (Inr (b, B), drop 64 r)"
    by (rule draws_key[OF assms, of "drop 32 r"]) (use r in simp_all)
  obtain s where s: "SharedSecret P a B = Inr s" using shared_secret[OF assms a b] by blast
  obtain ch where "EstablishLocalChannel P r oob = (Inr ch, drop 64 r)"
    using EstablishLocalChannel_ok[OF sdk_lawsD(3,6)[OF assms] a b s] by blast
  with EstablishLocalChannel_Inr[OF this] show "\<exists>x. local_channel P oob r = (Inr x, drop 64 r) \<and> LC_Ready x"
    by (simp add: local_channel_def)
qed

lemma seal:
  assumes "sdk_laws P" "GenerateSessionKey P rc = (Inr (priv, pub), rc')"
  shows "achieves (seal P (Base64URL (xpub_key pub)) transcript plaintext) 44
    (\<lambda>w. \<exists>rs rs' draw. Seal P rs draw (Base64URL (xpub_key pub)) transcript plaintext = (Inr w, rs'))"
  unfolding achieves_def
proof (intro allI impI)
  fix r :: reader
  assume r: "44 \<le> length r"
  obtain a A where a: "GenerateSessionKey P r = (Inr (a, A), drop 32 r)" by (rule draws_key[OF assms(1), of r]) (use r in simp)
  obtain s where s: "SharedSecret P a pub = Inr s" using shared_secret[OF assms(1) a assms(2)] by blast
  have l: "length (xpub_key pub) = 32" using key_pair[OF assms] by metis
  obtain w where w: "Seal P r (take 12 (drop 32 r @ replicate 12 NUL)) (Base64URL (xpub_key pub)) transcript plaintext = (Inr w, drop 32 r)"
    using Seal_ok[OF sdk_lawsD(6)[OF assms(1)] _ l a, of "take 12 (drop 32 r @ replicate 12 NUL)" s] s r by fastforce
  then show "\<exists>x. seal P (Base64URL (xpub_key pub)) transcript plaintext r = (Inr x, drop 44 r) \<and>
      (\<exists>rs rs' draw. Seal P rs draw (Base64URL (xpub_key pub)) transcript plaintext = (Inr x, rs'))"
    using r by (auto simp: seal_def then_do_def give_def random_bytes_def RandomBytes_def ReadFull_def)
qed

lemma create_reopen:
  assumes "validCause cause" "year_ok (Truncate now Second)" "year_ok (Add (Truncate now Second) ControlFrameMaxTTL)"
  shows "achieves (create_reopen P dev requestID peer relayID cause now) 16
    (\<lambda>f. \<exists>draw. CreateReopen P draw dev requestID peer relayID cause now = Inr f)"
proof -
  have "achieves (give (CreateReopen P draw dev requestID peer relayID cause now)) 0
      (\<lambda>f. \<exists>draw. CreateReopen P draw dev requestID peer relayID cause now = Inr f)" for draw
  proof -
    obtain f where f: "CreateReopen P draw dev requestID peer relayID cause now = Inr f" using CreateReopen_ok[OF assms] by blast
    then show ?thesis by (intro achieves_give[OF f]) blast+
  qed
  then show ?thesis
    using assms(1) unfolding create_reopen_def by (simp add: achieves_then[OF random_bytes])
qed

section \<open>Signing bundles\<close>

lemma bundle_signs:
  assumes "year_ok (Bu_IssuedAt b)" "year_ok (Bu_ExpiresAt b)"
    and "\<forall>m\<in>{Bu_RelayDescriptor b, Bu_TrustRootDescriptor b, Bu_AccessCredential b, Bu_TrustGrant b}.
      \<exists>d. raw_doc m = Inr d \<and> doc_ok d \<and> is_ok (doc_value d)"
  shows "\<exists>b'. SignBundle P issuer b = Inr b' \<and> Bu_BundleID b' = Bu_BundleID b"
proof -
  have "\<exists>x. bundle_input (b\<lparr>Bu_Type := TypeBundle, Bu_Signature := no_signature\<rparr>) = Inr x"
    unfolding bundle_input_def
    by (rule signature_input_ok) (use assms in \<open>auto simp: fields_fine_def bundle_fields_def time_doc_ok\<close>)
  then show ?thesis by (auto simp: SignBundle_def Let_def)
qed

end
