(* ===== verification/Conformance_Cases.thy ===== *)
theory Conformance_Cases
  imports Scenario Logging Audit_Log Queue
begin

text \<open>
  The conformance cases of \<^verbatim>\<open>conformance/runner.go\<close> and \<^verbatim>\<open>conformance/runner_v02.go\<close> that drive the library itself (the
  suites P0 core, P0 security negative and P1 feature), with their fixtures. A case gives its evidence or
  an error; the options reach it through their instant. The lemmas show that the library passes
  them: every positive case returns its evidence, every negative case finds the rejection it
  expects, whatever the random draws.
\<close>

text \<open>The evidence of a case is a map of strings, here a list sorted by its keys.\<close>

type_synonym evidence = "(string \<times> string) list"

section \<open>Fixtures\<close>

definition fixture_grant :: "DeviceIdentity \<Rightarrow> string \<Rightarrow> time \<Rightarrow> Grant" where
  "fixture_grant subject tp now =
     \<lparr>Gr_Type = [], Gr_GrantID = ''grant-a'', Gr_Issuer = [], Gr_SubjectDeviceID = ID_DeviceID subject,
      Gr_Audience = ''device-b'', Gr_ConfirmationThumbprint = tp, Gr_Permissions = Some [''text''],
      Gr_RelayConstraints = [''relay-a''], Gr_NotBefore = Add now (- Minute), Gr_ExpiresAt = Add now Hour,
      Gr_RevocationEpoch = 1, Gr_Signature = no_signature\<rparr>"

definition fixture_options :: "DeviceIdentity \<Rightarrow> string \<Rightarrow> time \<Rightarrow> VerifyOptions" where
  "fixture_options subject tp now =
     \<lparr>VO_Audience = ''device-b'', VO_SubjectDeviceID = ID_DeviceID subject, VO_ConfirmationThumbprint = tp,
      VO_Permission = ''text'', VO_RelayID = ''relay-a'', VO_CurrentRevocationEpoch = 1, VO_Now = now\<rparr>"

definition validGrantFixture :: "prims \<Rightarrow> time \<Rightarrow> (Device \<times> Device \<times> Grant \<times> VerifyOptions) draws" where
  "validGrantFixture P now =
     then_do (new_device P ''domain-a'' ''trust-root-a'' now) (\<lambda>issuer.
     then_do (new_device P ''domain-a'' ''device-a'' now) (\<lambda>subject.
     then_do (give (identity_Thumbprint P (Dev_Identity subject))) (\<lambda>tp.
     then_do (give (SignGrant P issuer (fixture_grant (Dev_Identity subject) tp now))) (\<lambda>grant.
       give (Inr (issuer, subject, grant, fixture_options (Dev_Identity subject) tp now))))))"

definition helloPair :: "prims \<Rightarrow> time \<Rightarrow> (Device \<times> Device \<times> LocalHello \<times> LocalHello) draws" where
  "helloPair P now =
     then_do (new_device P ''domain-a'' ''device-a'' now) (\<lambda>a.
     then_do (new_device P ''domain-a'' ''device-b'' now) (\<lambda>b.
     then_do (create_hello P a ''session-a'' (ID_DeviceID (Dev_Identity b)) ''grant-a'' now) (\<lambda>ha.
     then_do (create_hello P b ''session-a'' (ID_DeviceID (Dev_Identity a)) ''grant-a'' now) (\<lambda>hb.
       give (Inr (a, b, ha, hb))))))"

definition readySessionFixture :: "prims \<Rightarrow> time \<Rightarrow> (Device \<times> Device \<times> State \<times> State) draws" where
  "readySessionFixture P now =
     then_do (helloPair P now) (\<lambda>(a, b, ha, hb).
     then_do (give (Establish P ha (LH_Hello hb) (Dev_Identity a) (Dev_Identity b))) (\<lambda>sa.
     then_do (give (Establish P hb (LH_Hello ha) (Dev_Identity b) (Dev_Identity a))) (\<lambda>sb.
     then_do (give (CreateReady P sa a)) (\<lambda>ra.
     then_do (give (CreateReady P sb b)) (\<lambda>rb.
     then_do (give (VerifyReady P sa rb (Dev_Identity b))) (\<lambda>sa'.
     then_do (give (VerifyReady P sb ra (Dev_Identity a))) (\<lambda>sb'.
       give (Inr (a, b, sa', sb')))))))))"

definition metadata_only :: raw where
  "metadata_only = Some (CHR ''{'' # CHR 0x22 # ''metadata_only'' @ CHR 0x22 # '':true}'')"

definition fixture_bundle :: "DeviceIdentity \<Rightarrow> string \<Rightarrow> time \<Rightarrow> Bundle" where
  "fixture_bundle watch tp now =
     \<lparr>Bu_Type = [], Bu_BundleID = ''bundle-a'', Bu_IssuedToDeviceID = ID_DeviceID watch, Bu_IssuedToPublicKeyThumbprint = tp,
      Bu_RelayDescriptor = metadata_only, Bu_TrustRootDescriptor = metadata_only, Bu_AccessCredential = metadata_only,
      Bu_RefreshCredentialWrapped = Base64URL ''wrapped-refresh'', Bu_TrustGrant = metadata_only,
      Bu_IssuedAt = now, Bu_ExpiresAt = Add now Minute, Bu_Signature = no_signature\<rparr>"

definition bundleFixture :: "prims \<Rightarrow> time \<Rightarrow> (LocalChannel \<times> Device \<times> Device \<times> Device \<times> Bundle) draws" where
  "bundleFixture P now =
     then_do (new_device P ''domain-a'' ''phone-a'' now) (\<lambda>issuer.
     then_do (new_device P ''domain-a'' ''watch-a'' now) (\<lambda>watch.
     then_do (new_device P ''domain-a'' ''watch-b'' now) (\<lambda>other.
     then_do (local_channel P ''oob-secret'') (\<lambda>channel.
     then_do (give (identity_Thumbprint P (Dev_Identity watch))) (\<lambda>tp.
     then_do (give (SignBundle P issuer (fixture_bundle (Dev_Identity watch) tp now))) (\<lambda>bundle.
       give (Inr (channel, issuer, watch, other, bundle))))))))"

section \<open>P0 core\<close>

definition caseIdentityProofValid :: "prims \<Rightarrow> time \<Rightarrow> evidence draws" where
  "caseIdentityProofValid P now =
     then_do (new_device P ''domain-a'' ''device-a'' now) (\<lambda>dev.
     then_do (give (CreateProof P dev ''relay-a'' ''challenge-a'' ''nonce-a'' now)) (\<lambda>prf.
     then_do (give (VerifyProof P (Dev_Identity dev) prf ''relay-a'' ''challenge-a'' now Minute)) (\<lambda>_.
       give (Inr [(''device_id'', ID_DeviceID (Dev_Identity dev))]))))"

definition case_descriptor :: "DeviceIdentity \<Rightarrow> time \<Rightarrow> RelayDescriptor" where
  "case_descriptor signer now =
     \<lparr>RD_Type = ''iscp.relay.descriptor.v2'', RD_RelayID = ''relay-a'', RD_DomainID = ''domain-a'',
      RD_BaseURL = ''https://relay-a.example.invalid'', RD_WebSocketURL = ''wss://relay-a.example.invalid/v2/relay/connect'',
      RD_SigningKeys = Some [\<lparr>DK_KTY = ''Ed25519'', DK_Use = ''descriptor-signature'', DK_KID = PK_KID (ID_PublicKey signer),
        DK_Public = PK_Public (ID_PublicKey signer), DK_State = []\<rparr>],
      RD_IssuedAt = now, RD_ExpiresAt = Add now Hour, RD_Metadata = []\<rparr>"

definition caseDescriptorValid :: "prims \<Rightarrow> time \<Rightarrow> evidence draws" where
  "caseDescriptorValid P now =
     then_do (new_device P ''domain-a'' ''relay-a-signer'' now) (\<lambda>signer.
     let relayDesc = case_descriptor (Dev_Identity signer) now in
     then_do (give (Sign P signer (RD_Type relayDesc) (json_object (relay_fields relayDesc)) now)) (\<lambda>signed.
     then_do (give (Verify P signed (Dev_Identity signer) (DefaultGate ProfileProduction) now)) (\<lambda>_.
     then_do (give (Pin P signed)) (\<lambda>pin.
       give (Inr [(''descriptor_type'', SD_DescriptorType signed), (''pin_len'', show_int (int (length pin)))])))))"

definition caseTrustGrantValid :: "prims \<Rightarrow> time \<Rightarrow> evidence draws" where
  "caseTrustGrantValid P now =
     then_do (validGrantFixture P now) (\<lambda>(issuer, subject, grant, verifyOpts).
     then_do (give (VerifyGrant P grant (Dev_Identity issuer) verifyOpts)) (\<lambda>_.
       give (Inr [(''grant_id'', Gr_GrantID grant), (''subject_device_id'', ID_DeviceID (Dev_Identity subject))])))"

definition caseSessionReadyValid :: "prims \<Rightarrow> time \<Rightarrow> evidence draws" where
  "caseSessionReadyValid P now =
     then_do (readySessionFixture P now) (\<lambda>(a, b, sa, sb).
       give (if \<not> Ready_method (Some sa) \<or> \<not> Ready_method (Some sb) then errorf ''session not ready''
             else Inr [(''session_id'', St_SessionID sa)]))"

definition caseEnvelopeE2EValid :: "prims \<Rightarrow> time \<Rightarrow> evidence draws" where
  "caseEnvelopeE2EValid P now =
     then_do (readySessionFixture P now) (\<lambda>(a, b, sa, sb).
     then_do (give (EncodeText ''conformance payload'')) (\<lambda>body.
     then_do (give (fst (Encrypt P (Some sa) ''msg-e2e'' TypeText
        \<lparr>Rt_RelayID = ''relay-a'', Rt_TTLSeconds = 60, Rt_Priority = 1\<rparr> body))) (\<lambda>env.
     if contains_sub ''conformance payload'' (Env_Ciphertext env) then give (errorf ''ciphertext contains plaintext payload'')
     else then_do (give (fst (Decrypt P (Some sb) env))) (\<lambda>plain.
     then_do (give (DecodeText plain)) (\<lambda>decoded.
       give (if Text_Text decoded \<noteq> ''conformance payload'' then errorf ''unexpected decoded payload''
             else Inr [(''message_id'', Env_MessageID env), (''payload_redacted'', ''true'')]))))))"

definition case_ticket :: "string \<Rightarrow> time \<Rightarrow> time \<Rightarrow> PairingTicket" where
  "case_ticket ticketID issued expires =
     \<lparr>PT_Type = [], PT_TicketID = ticketID, PT_DomainID = ''domain-a'', PT_RelayID = ''relay-a'', PT_TrustRootID = ''trust-a'',
      PT_MaxUses = 1, PT_IssuedAt = issued, PT_ExpiresAt = expires, PT_Signature = no_signature\<rparr>"

definition caseProvisioningValid :: "prims \<Rightarrow> time \<Rightarrow> evidence draws" where
  "caseProvisioningValid P now =
     then_do (new_device P ''domain-a'' ''phone-a'' now) (\<lambda>phone.
     then_do (new_device P ''domain-a'' ''watch-a'' now) (\<lambda>watch.
     then_do (give (SignTicket P phone (case_ticket ''ticket-a'' now (Add now Minute)))) (\<lambda>ticket.
     then_do (give (VerifyTicket P ticket (Dev_Identity phone) now)) (\<lambda>_.
     then_do (give (fst (Consume NewTicketStore ticket))) (\<lambda>_.
     then_do (local_channel P ''oob-secret'') (\<lambda>channel.
     then_do (give (identity_Thumbprint P (Dev_Identity watch))) (\<lambda>tp.
     then_do (give (SignBundle P phone (fixture_bundle (Dev_Identity watch) tp now))) (\<lambda>bundle.
     then_do (give (ApplyBundle P channel (Dev_Identity watch) bundle (Dev_Identity phone) now)) (\<lambda>_.
       give (Inr [(''bundle_id'', Bu_BundleID bundle), (''ticket_id'', PT_TicketID ticket)]))))))))))"

definition case_ticket3 :: "string \<Rightarrow> int \<Rightarrow> time \<Rightarrow> time \<Rightarrow> PairingTicketV3" where
  "case_ticket3 audience maxUses issued expires =
     \<lparr>T3_Type = [], T3_TicketID = ''ticket-1'', T3_DomainID = ''domain-a'', T3_RelayID = ''relay-a'', T3_TrustRootID = ''trust-a'',
      T3_Purpose = PurposeInvite, T3_ConsumerRole = ''service_agent'', T3_GrantAudience = audience,
      T3_GrantPermissions = Some [''text''], T3_GrantTTLSeconds = 0, T3_MaxUses = maxUses, T3_IssuedAt = issued,
      T3_ExpiresAt = expires, T3_Signature = no_signature\<rparr>"

definition caseTicketV3Valid :: "prims \<Rightarrow> time \<Rightarrow> evidence draws" where
  "caseTicketV3Valid P now =
     then_do (new_device P ''domain-a'' ''trust-signer'' now) (\<lambda>issuer.
     then_do (new_device P ''domain-a'' ''phone-1'' now) (\<lambda>controller.
     then_do (new_device P ''domain-a'' ''agent-1'' now) (\<lambda>agent.
     then_do (give (SignTicketV3 P issuer (case_ticket3 (ID_DeviceID (Dev_Identity controller)) 1 now (Add now (10 * Minute))))) (\<lambda>ticket.
     then_do (give (VerifyTicketV3 P ticket (Dev_Identity issuer) (Add now Minute))) (\<lambda>_.
     then_do (give (BindGrantRoles P ticket (Dev_Identity agent))) (\<lambda>bindings.
       give (Inr [(''grant_audience'', GB_Audience bindings), (''grant_subject'', GB_SubjectDeviceID bindings)])))))))"

definition caseSessionReopenValid :: "prims \<Rightarrow> time \<Rightarrow> evidence draws" where
  "caseSessionReopenValid P now =
     then_do (new_device P ''domain-a'' ''phone-1'' now) (\<lambda>phone.
     then_do (new_device P ''domain-a'' ''agent-1'' now) (\<lambda>agent.
     then_do (create_reopen P phone ''reopen-1'' (ID_DeviceID (Dev_Identity agent)) ''relay-a'' CauseRuntimeStarted now) (\<lambda>reopen.
     then_do (give (VerifyReopen P reopen (Dev_Identity phone)
        \<lparr>RV_LocalDeviceID = ID_DeviceID (Dev_Identity agent), RV_DomainID = ''domain-a'', RV_RelayID = ''relay-a'',
         RV_Now = Add now (2 * Second)\<rparr>)) (\<lambda>_.
       give (Inr [(''request_id'', Ro_RequestID reopen)])))))"

definition credential_text :: bytes where
  "credential_text =
     (let q = [CHR 0x22]; member = (\<lambda>k v. q @ k @ q @ '':{'' @ q @ ''token'' @ q @ '':'' @ q @ v @ q @ ''}'')
      in ''{'' @ member ''access'' ''a'' @ '','' @ member ''refresh'' ''r'' @ ''}'')"

definition caseRecoverySealValid :: "prims \<Rightarrow> evidence draws" where
  "caseRecoverySealValid P =
     then_do (session_key P) (\<lambda>(wrapPriv, wrapPub).
     let wrapPublic = Base64URL (xpub_key wrapPub); transcript = Transcript ''domain-a'' ''device-a'' ''thumbprint-a'' in
     then_do (seal P wrapPublic transcript credential_text) (\<lambda>wrapped.
     then_do (give (Open P wrapped wrapPriv wrapPublic transcript)) (\<lambda>out.
       give (if out \<noteq> credential_text then errorf ''sealed credential plaintext mismatch was accepted''
             else Inr [(''ciphersuite'', WC_Ciphersuite wrapped)]))))"

section \<open>P0 security negative\<close>

text \<open>The end of a negative case: acceptance is the error.\<close>

definition expect_rejected :: "'a result \<Rightarrow> string \<Rightarrow> string \<Rightarrow> evidence draws" where
  "expect_rejected res message reason =
     give (case res of Inr _ \<Rightarrow> errorf message | Inl _ \<Rightarrow> Inr [(''rejected'', reason)])"

definition caseProductionProfileRejectsUnsafe :: "evidence draws" where
  "caseProductionProfileRejectsUnsafe =
     expect_rejected (ValidateGate \<lparr>G_Profile = ProfileProduction, G_AllowUnsignedDescriptor = True, G_AllowBearerOnlyAccess = True,
        G_AllowPlaintextDebug = True, G_AllowDebugSecrets = True, G_RequireSignedDescriptors = False,
        G_RequireProofOfPossession = False, G_RequireSessionReadyBefore = False\<rparr>) ''unsafe production gate accepted'' ''true''"

definition caseUnsignedDescriptorRejected :: "prims \<Rightarrow> time \<Rightarrow> evidence draws" where
  "caseUnsignedDescriptorRejected P now =
     then_do (new_device P ''domain-a'' ''signer-a'' now) (\<lambda>signer.
     let relayDesc = \<lparr>RD_Type = ''iscp.relay.descriptor.v2'', RD_RelayID = ''relay-a'', RD_DomainID = ''domain-a'',
           RD_BaseURL = ''https://relay-a.example.invalid'', RD_WebSocketURL = [], RD_SigningKeys = None, RD_IssuedAt = now,
           RD_ExpiresAt = Add now Hour, RD_Metadata = []\<rparr> in
     then_do (give (json_Marshal (json_object (relay_fields relayDesc)))) (\<lambda>raw.
       expect_rejected (Verify P \<lparr>SD_Type = TypeSignedDescriptor, SD_DescriptorType = RD_Type relayDesc, SD_Descriptor = Some raw,
           SD_SignedBy = ID_DeviceID (Dev_Identity signer), SD_SignedAt = now, SD_Signature = no_signature\<rparr>
         (Dev_Identity signer) (DefaultGate ProfileProduction) now) ''unsigned descriptor accepted in production'' ''true''))"

definition caseProofWrongChallengeRejected :: "prims \<Rightarrow> time \<Rightarrow> evidence draws" where
  "caseProofWrongChallengeRejected P now =
     then_do (new_device P ''domain-a'' ''device-a'' now) (\<lambda>dev.
     then_do (give (CreateProof P dev ''relay-a'' ''challenge-a'' ''nonce-a'' now)) (\<lambda>prf.
       expect_rejected (VerifyProof P (Dev_Identity dev) prf ''relay-a'' ''challenge-b'' now Minute) ''wrong challenge proof accepted'' ''true''))"

definition expectGrantReject :: "prims \<Rightarrow> time \<Rightarrow> (VerifyOptions \<Rightarrow> VerifyOptions) \<Rightarrow> string \<Rightarrow> evidence draws" where
  "expectGrantReject P now mutate message =
     then_do (validGrantFixture P now) (\<lambda>(issuer, subject, grant, opts).
       expect_rejected (VerifyGrant P grant (Dev_Identity issuer) (mutate opts)) message ''true'')"

definition caseGrantWrongAudienceRejected :: "prims \<Rightarrow> time \<Rightarrow> evidence draws" where
  "caseGrantWrongAudienceRejected P now = expectGrantReject P now (\<lambda>o'. o'\<lparr>VO_Audience := ''wrong-audience''\<rparr>) ''wrong audience grant accepted''"

definition caseGrantWrongCNFRejected :: "prims \<Rightarrow> time \<Rightarrow> evidence draws" where
  "caseGrantWrongCNFRejected P now = expectGrantReject P now (\<lambda>o'. o'\<lparr>VO_ConfirmationThumbprint := ''wrong-cnf''\<rparr>) ''wrong cnf grant accepted''"

definition caseGrantWrongPermissionRejected :: "prims \<Rightarrow> time \<Rightarrow> evidence draws" where
  "caseGrantWrongPermissionRejected P now = expectGrantReject P now (\<lambda>o'. o'\<lparr>VO_Permission := ''admin''\<rparr>) ''wrong permission grant accepted''"

definition caseGrantWrongRelayRejected :: "prims \<Rightarrow> time \<Rightarrow> evidence draws" where
  "caseGrantWrongRelayRejected P now = expectGrantReject P now (\<lambda>o'. o'\<lparr>VO_RelayID := ''relay-b''\<rparr>) ''wrong relay grant accepted''"

definition caseGrantRevokedEpochRejected :: "prims \<Rightarrow> time \<Rightarrow> evidence draws" where
  "caseGrantRevokedEpochRejected P now = expectGrantReject P now (\<lambda>o'. o'\<lparr>VO_CurrentRevocationEpoch := 2\<rparr>) ''revoked epoch grant accepted''"

definition caseGrantExpiredRejected :: "prims \<Rightarrow> time \<Rightarrow> evidence draws" where
  "caseGrantExpiredRejected P now = expectGrantReject P now (\<lambda>o'. o'\<lparr>VO_Now := Add now (2 * Hour)\<rparr>) ''expired grant accepted''"

definition casePayloadBeforeReadyRejected :: "prims \<Rightarrow> time \<Rightarrow> evidence draws" where
  "casePayloadBeforeReadyRejected P now =
     then_do (helloPair P now) (\<lambda>(a, b, ha, hb).
     then_do (give (Establish P ha (LH_Hello hb) (Dev_Identity a) (Dev_Identity b))) (\<lambda>sa.
       expect_rejected (fst (Encrypt P (Some sa) ''msg-early'' TypeText
          \<lparr>Rt_RelayID = ''relay-a'', Rt_TTLSeconds = 60, Rt_Priority = 0\<rparr> ''early'')) ''payload accepted before session.ready'' ''true''))"

definition caseEnvelopeAADTamperRejected :: "prims \<Rightarrow> time \<Rightarrow> evidence draws" where
  "caseEnvelopeAADTamperRejected P now =
     then_do (readySessionFixture P now) (\<lambda>(a, b, sa, sb).
     then_do (give (EncodeText ''tamper payload'')) (\<lambda>body.
     then_do (give (fst (Encrypt P (Some sa) ''msg-tamper'' TypeText
        \<lparr>Rt_RelayID = ''relay-a'', Rt_TTLSeconds = 60, Rt_Priority = 1\<rparr> body))) (\<lambda>env.
       expect_rejected (fst (Decrypt P (Some sb) (env\<lparr>Env_Route := (Env_Route env)\<lparr>Rt_Priority := 9\<rparr>\<rparr>)))
         ''AAD-tampered envelope accepted'' ''true'')))"

definition caseEnvelopeReplayRejected :: "prims \<Rightarrow> time \<Rightarrow> evidence draws" where
  "caseEnvelopeReplayRejected P now =
     then_do (readySessionFixture P now) (\<lambda>(a, b, sa, sb).
     then_do (give (EncodeText ''replay payload'')) (\<lambda>body.
     then_do (give (fst (Encrypt P (Some sa) ''msg-replay'' TypeText
        \<lparr>Rt_RelayID = ''relay-a'', Rt_TTLSeconds = 60, Rt_Priority = 1\<rparr> body))) (\<lambda>env.
     let (first, sb') = Decrypt P (Some sb) env in
     then_do (give first) (\<lambda>_.
       expect_rejected (fst (Decrypt P sb' env)) ''replayed envelope accepted'' ''true''))))"

definition caseExpiredTicketRejected :: "prims \<Rightarrow> time \<Rightarrow> evidence draws" where
  "caseExpiredTicketRejected P now =
     then_do (new_device P ''domain-a'' ''phone-a'' now) (\<lambda>issuer.
     then_do (give (SignTicket P issuer (case_ticket ''ticket-expired'' (Add now (- 2 * Minute)) (Add now (- Minute))))) (\<lambda>ticket.
       expect_rejected (VerifyTicket P ticket (Dev_Identity issuer) now) ''expired ticket accepted'' ''true''))"

definition caseBundleBindingRejected :: "prims \<Rightarrow> time \<Rightarrow> evidence draws" where
  "caseBundleBindingRejected P now =
     then_do (bundleFixture P now) (\<lambda>(channel, issuer, watch, other, bundle).
       expect_rejected (ApplyBundle P channel (Dev_Identity other) bundle (Dev_Identity issuer) now)
         ''mismatched provisioning bundle accepted'' ''true'')"

definition caseBundleNotReadyRejected :: "prims \<Rightarrow> time \<Rightarrow> evidence draws" where
  "caseBundleNotReadyRejected P now =
     then_do (bundleFixture P now) (\<lambda>(channel, issuer, watch, other, bundle).
       expect_rejected (ApplyBundle P (channel\<lparr>LC_Ready := False\<rparr>) (Dev_Identity watch) bundle (Dev_Identity issuer) now)
         ''bundle accepted before local channel readiness'' ''true'')"

text \<open>The map is ranged over in some order: the error names the first key found, which no claim depends on.\<close>

definition secret_fields :: "string list" where
  "secret_fields = [''private_key'', ''access_token'', ''refresh_credential'', ''session_key'', ''payload_plaintext'']"

definition caseSecretRedaction :: "evidence draws" where
  "caseSecretRedaction =
     give (case filter (\<lambda>key. RedactKeyValue key (LogString ''secret-value'' :: unit log_value) \<noteq> LogString ''[REDACTED]'') secret_fields of
             key # _ \<Rightarrow> errorf (key @ '' was not redacted'')
           | [] \<Rightarrow> Inr [(''redacted'', ''true'')])"

definition caseForgedKIDRejected :: "prims \<Rightarrow> time \<Rightarrow> evidence draws" where
  "caseForgedKIDRejected P now =
     then_do (new_device P ''domain-a'' ''device-a'' now) (\<lambda>victim.
     then_do (new_device P ''domain-a'' ''device-a'' now) (\<lambda>attacker.
     let kid = PK_KID (ID_PublicKey (Dev_Identity victim));
         forged = (Dev_Identity attacker)\<lparr>ID_PublicKey := (ID_PublicKey (Dev_Identity attacker))\<lparr>PK_KID := kid\<rparr>\<rparr> in
     then_do (give (CreateProof P attacker ''relay-a'' ''challenge'' ''nonce'' now)) (\<lambda>prf.
       expect_rejected (VerifyProof P forged (prf\<lparr>DP_Signature := (DP_Signature prf)\<lparr>Sig_KID := kid\<rparr>\<rparr>) ''relay-a'' ''challenge'' now Minute)
         ''identity with forged kid was accepted'' ''kid_thumbprint_mismatch'')))"

definition caseTicketAudienceReversalRejected :: "prims \<Rightarrow> time \<Rightarrow> evidence draws" where
  "caseTicketAudienceReversalRejected P now =
     then_do (new_device P ''domain-a'' ''phone-1'' now) (\<lambda>controller.
       expect_rejected (BindGrantRoles P (case_ticket3 (ID_DeviceID (Dev_Identity controller)) 0 0 0) (Dev_Identity controller))
         ''ticket consumed by its grant audience was accepted'' ''grant_audience_consumer'')"

definition caseReopenWindowRejected :: "prims \<Rightarrow> time \<Rightarrow> evidence draws" where
  "caseReopenWindowRejected P now =
     then_do (new_device P ''domain-a'' ''phone-1'' now) (\<lambda>phone.
     then_do (create_reopen P phone ''reopen-1'' ''agent-1'' ''relay-a'' CauseForegroundRecovery now) (\<lambda>reopen.
       expect_rejected (VerifyReopen P reopen (Dev_Identity phone)
          \<lparr>RV_LocalDeviceID = ''agent-1'', RV_DomainID = ''domain-a'', RV_RelayID = ''relay-a'', RV_Now = Add now (31 * Second)\<rparr>)
         ''session reopen outside its window was accepted'' ''control_window''))"

definition caseRecoveryTranscriptRejected :: "prims \<Rightarrow> evidence draws" where
  "caseRecoveryTranscriptRejected P =
     then_do (session_key P) (\<lambda>(wrapPriv, wrapPub).
     let wrapPublic = Base64URL (xpub_key wrapPub) in
     then_do (seal P wrapPublic (Transcript ''domain-a'' ''device-a'' ''thumbprint-a'') ''secret'') (\<lambda>wrapped.
       expect_rejected (Open P wrapped wrapPriv wrapPublic (Transcript ''domain-a'' ''device-b'' ''thumbprint-b''))
         ''recovery blob replayed against another identity was accepted'' ''transcript_binding''))"

section \<open>P1 feature\<close>

definition caseAuditHashChain :: "prims \<Rightarrow> time \<Rightarrow> evidence draws" where
  "caseAuditHashChain P now =
     (let entry = \<lparr>Ent_DomainID = ''domain-a'', Ent_EventType = ''device.submit'', Ent_ActorID = [], Ent_SubjectID = ''device-a'',
            Ent_Metadata = [], Ent_PreviousHash = [], Ent_CreatedAt = now\<rparr> in
      then_do (give (HashEntry P entry)) (\<lambda>first.
      then_do (give (HashEntry P (entry\<lparr>Ent_PreviousHash := Base64URL first\<rparr>))) (\<lambda>second.
        give (if first = second then errorf ''audit hash did not include previous hash'' else Inr [(''hash_chain'', ''true'')]))))"

definition case_message :: "string \<Rightarrow> bytes \<Rightarrow> int \<Rightarrow> time \<Rightarrow> Message" where
  "case_message messageID body priority expires =
     \<lparr>Msg_DomainID = ''domain-a'', Msg_MessageID = messageID, Msg_SenderDeviceID = [], Msg_RecipientDeviceID = ''device-b'',
      Msg_Envelope = body, Msg_Priority = priority, Msg_ExpiresAt = expires, Msg_QueuedAt = 0\<rparr>"

definition id_text :: "string \<Rightarrow> bytes" where
  "id_text i = CHR ''{'' # CHR 0x22 # ''id'' @ CHR 0x22 # CHR '':'' # CHR 0x22 # i @ CHR 0x22 # ''}''"

definition caseQueueTTLAndPriority :: "Message sorter \<Rightarrow> time \<Rightarrow> evidence draws" where
  "caseQueueTTLAndPriority srt now =
     give (let (ok1, q1) = Enqueue (NewQueue 1024) (case_message ''low'' (id_text ''low'') 1 (Add now Minute)) now in
       if \<not> ok1 then errorf ''low priority enqueue failed'' else
       let (ok2, q2) = Enqueue q1 (case_message ''high'' (id_text ''high'') 9 (Add now Minute)) now in
       if \<not> ok2 then errorf ''high priority enqueue failed'' else
       let (ok3, q3) = Enqueue q2 (case_message ''expired'' (id_text ''expired'') 10 (Add now (- Second))) now in
       if \<not> ok3 then errorf ''expired enqueue failed'' else
       let (out, q4) = DequeueFor srt q3 ''domain-a'' ''device-b'' now 10 in
       if length out \<noteq> 2 then errorf (''expected 2 unexpired messages, got '' @ show_int (int (length out))) else
       if Msg_MessageID (out ! 0) \<noteq> ''high'' \<or> Msg_MessageID (out ! 1) \<noteq> ''low'' then errorf ''queue priority order mismatch'' else
       let (ok5, p1) = Enqueue (NewQueue 20) (case_message ''q1'' ''1234567890'' 0 (Add now Minute)) now in
       if \<not> ok5 then errorf ''quota fixture enqueue failed'' else
       let (ok6, p2) = Enqueue p1 (case_message ''q2'' ''abcdefghij'' 0 (Add now Minute)) now in
       if \<not> ok6 then errorf ''quota fixture second enqueue failed'' else
       let (ok7, p3) = Enqueue p2 (case_message ''overflow'' ''overflow'' 0 (Add now Minute)) now in
       if ok7 then errorf ''queue accepted message beyond aggregate quota''
       else Inr [(''delivered'', ''2''), (''expired_dropped'', ''true''), (''quota_backpressure'', ''true'')])"

end
