(* ===== verification/Service_Client.thy ===== *)
theory Service_Client
  imports Conformance_Cases Trust_State
begin

text \<open>
  Clients of the services: the HTTP calls of \<^verbatim>\<open>conformance/runner.go\<close> and of the cases that drive a running relay or trust
  root. What lies outside (the network with the services behind it, where a malformed address is one more
  failure; the text of a clock reading, which carries the monotonic clock; the text of a number that went
  through a \<^verbatim>\<open>float64\<close>, if it is in its range) is a record of functions, a parameter; the state of a client is its
  random source, the readings of the clock, and the state of the network. A case fails with an error or is
  skipped with a reason.
\<close>

section \<open>The state of a client\<close>

record 'w bench =
  B_rand :: reader
  B_clock :: "nat \<Rightarrow> time"
  B_ticks :: nat
  B_net :: 'w

record ClientRequest =
  CR_Method :: string
  CR_URL :: string
  CR_Header :: "(string \<times> string) list"
  CR_Body :: bytes

record 'w outside =
  Out_do :: "ClientRequest \<Rightarrow> 'w \<Rightarrow> (nat \<times> bytes) result \<times> 'w"
  Out_time_text :: "time \<Rightarrow> string"
  Out_number :: "string \<Rightarrow> string option"

datatype case_error = SkipError string | CaseError go_error

type_synonym ('w, 'a) trial = "('w bench, case_error, 'a) step"

definition on_random :: "'a draws \<Rightarrow> ('w, 'a) trial" where
  "on_random m b =
     (case m (B_rand b) of
        (Inl err, r) \<Rightarrow> (Inl (CaseError err), b\<lparr>B_rand := r\<rparr>)
      | (Inr x, r) \<Rightarrow> (Inr x, b\<lparr>B_rand := r\<rparr>))"

definition settle :: "'a result \<Rightarrow> ('w, 'a) trial" where
  "settle res = give (case res of Inl err \<Rightarrow> Inl (CaseError err) | Inr x \<Rightarrow> Inr x)"

definition skip :: "string \<Rightarrow> ('w, 'a) trial" where
  "skip reason = give (Inl (SkipError reason))"

definition time_Now :: "('w, time) trial" where
  "time_Now b = (Inr (B_clock b (B_ticks b)), b\<lparr>B_ticks := Suc (B_ticks b)\<rparr>)"

definition client_Do :: "'w outside \<Rightarrow> ClientRequest \<Rightarrow> ('w, nat \<times> bytes) trial" where
  "client_Do env req b =
     (let (res, net) = Out_do env req (B_net b) in settle res (b\<lparr>B_net := net\<rparr>))"

definition randomID :: "prims \<Rightarrow> 'w outside \<Rightarrow> time \<Rightarrow> string" where
  "randomID P env t = take 8 (Base64URL (sha256 P (Out_time_text env t)))"

definition TrimRight_slash :: "string \<Rightarrow> string" where
  "TrimRight_slash s = rev (dropWhile (\<lambda>c. c = CHR ''/'') (rev s))"

section \<open>Requests\<close>

text \<open>
  \<^verbatim>\<open>json.NewDecoder(resp.Body).Decode(out)\<close> reads the first document of the response; \<open>read\<close> is what the
  type of \<^verbatim>\<open>out\<close> makes of the body, a nil \<^verbatim>\<open>out\<close> reads nothing.
\<close>

definition postServiceJSONWithHeaders ::
  "'w outside \<Rightarrow> string \<Rightarrow> jdoc result \<Rightarrow> (bytes \<Rightarrow> 'a result) \<Rightarrow> nat \<Rightarrow> (string \<times> string) list \<Rightarrow> ('w, 'a) trial" where
  "postServiceJSONWithHeaders env url input read want headers =
     then_do (settle (json_Marshal input)) (\<lambda>body.
     then_do (client_Do env \<lparr>CR_Method = ''POST'', CR_URL = url,
         CR_Header = (''Content-Type'', ''application/json'') # filter (\<lambda>(key, v). \<not> blank v) headers, CR_Body = body\<rparr>) (\<lambda>(status, reply).
       if status \<noteq> want then
         settle (errorf (''POST '' @ url @ '' returned '' @ show_int (int status) @ '', want '' @ show_int (int want) @ '': '' @
                   TrimSpace (take 4096 reply)))
       else settle (read reply)))"

definition postServiceJSON :: "'w outside \<Rightarrow> string \<Rightarrow> jdoc result \<Rightarrow> (bytes \<Rightarrow> 'a result) \<Rightarrow> nat \<Rightarrow> ('w, 'a) trial" where
  "postServiceJSON env url input read want = postServiceJSONWithHeaders env url input read want []"

definition postServiceJSONWithBearer ::
  "'w outside \<Rightarrow> string \<Rightarrow> string \<Rightarrow> jdoc result \<Rightarrow> (bytes \<Rightarrow> 'a result) \<Rightarrow> nat \<Rightarrow> ('w, 'a) trial" where
  "postServiceJSONWithBearer env url bearer input read want =
     postServiceJSONWithHeaders env url input read want (if bearer \<noteq> [] then [(''Authorization'', ''Bearer '' @ bearer)] else [])"

definition postServiceJSONWithAdmin ::
  "'w outside \<Rightarrow> string \<Rightarrow> string \<Rightarrow> jdoc result \<Rightarrow> (bytes \<Rightarrow> 'a result) \<Rightarrow> nat \<Rightarrow> ('w, 'a) trial" where
  "postServiceJSONWithAdmin env url adminToken input read want =
     postServiceJSONWithHeaders env url input read want (if \<not> blank adminToken then [(''X-ISCP-Admin-Token'', adminToken)] else [])"

definition read_nothing :: "bytes \<Rightarrow> unit result" where
  "read_nothing reply = Inr ()"

section \<open>Replies\<close>

text \<open>A \<^verbatim>\<open>[]byte\<close> member: padded standard base64, line breaks ignored.\<close>

definition DecodeBase64Std :: "string \<Rightarrow> bytes option" where
  "DecodeBase64Std s =
     (let t = filter (\<lambda>c. c \<noteq> CHR 0x0A \<and> c \<noteq> CHR 0x0D) s;
          pads = min 2 (length (takeWhile (\<lambda>c. c = CHR ''='') (rev t)));
          body = take (length t - pads) t in
      if length t mod 4 \<noteq> 0 \<or> CHR ''-'' \<in> set body \<or> CHR ''_'' \<in> set body then None
      else case DecodeBase64URL (map (\<lambda>c. if c = CHR ''+'' then CHR ''-'' else if c = CHR ''/'' then CHR ''_'' else c) body) of
             Inl _ \<Rightarrow> None
           | Inr b \<Rightarrow> Some b)"

definition set_bytes :: "(bytes \<Rightarrow> 'r \<Rightarrow> 'r) \<Rightarrow> 'r setter" where
  "set_bytes upd d r =
     (case d of
        DStr s \<Rightarrow> (case DecodeBase64Std s of Some b \<Rightarrow> Inr (upd b r) | None \<Rightarrow> Inl (StdError ''illegal base64 data''))
      | DNull \<Rightarrow> Inr (upd [] r)
      | _ \<Rightarrow> Inl type_error)"

definition set_bool :: "(bool \<Rightarrow> 'r \<Rightarrow> 'r) \<Rightarrow> 'r setter" where
  "set_bool upd d r = (case d of DBool v \<Rightarrow> Inr (upd v r) | DNull \<Rightarrow> Inr r | _ \<Rightarrow> Inl type_error)"

record serviceCredential =
  SC_DomainID :: string
  SC_DeviceID :: string
  SC_Token :: string
  SC_Hash :: bytes
  SC_ExpiresAt :: time
  SC_Revoked :: bool

definition no_credential :: serviceCredential where
  "no_credential = \<lparr>SC_DomainID = [], SC_DeviceID = [], SC_Token = [], SC_Hash = [], SC_ExpiresAt = 0, SC_Revoked = False\<rparr>"

definition credential_table :: "(string \<times> serviceCredential setter) list" where
  "credential_table =
     [(''domain_id'', set_string (\<lambda>s c. c\<lparr>SC_DomainID := s\<rparr>)), (''device_id'', set_string (\<lambda>s c. c\<lparr>SC_DeviceID := s\<rparr>)),
      (''token'', set_string (\<lambda>s c. c\<lparr>SC_Token := s\<rparr>)), (''hash'', set_bytes (\<lambda>s c. c\<lparr>SC_Hash := s\<rparr>)),
      (''expires_at'', set_time (\<lambda>s c. c\<lparr>SC_ExpiresAt := s\<rparr>)), (''revoked'', set_bool (\<lambda>s c. c\<lparr>SC_Revoked := s\<rparr>))]"

definition pair_table :: "(string \<times> (serviceCredential \<times> serviceCredential) setter) list" where
  "pair_table =
     [(''access'', set_struct credential_table fst (\<lambda>c p. (c, snd p))), (''refresh'', set_struct credential_table snd (\<lambda>c p. (fst p, c)))]"

definition read_credentials :: "bytes \<Rightarrow> (serviceCredential \<times> serviceCredential) result" where
  "read_credentials reply = DecodeJSON pair_table (no_credential, no_credential) reply"

definition read_grant :: "bytes \<Rightarrow> Grant result" where
  "read_grant reply = DecodeJSON [(''grant'', set_struct grant_table (\<lambda>g. g) (\<lambda>g _. g))] no_grant reply"

text \<open>
  A \<^verbatim>\<open>map[string]any\<close>: members overwrite earlier ones of their name, numbers become a \<^verbatim>\<open>float64\<close>, and the
  map marshals with its keys sorted.
\<close>

fun any_doc :: "(string \<Rightarrow> string option) \<Rightarrow> jdoc \<Rightarrow> jdoc result" where
  "any_doc number (DNum s) = (case number s of None \<Rightarrow> Inl type_error | Some t \<Rightarrow> Inr (DNum t))"
| "any_doc number (DArr ds) = and_then (collect (map (any_doc number) ds)) (\<lambda>vs. Inr (DArr vs))"
| "any_doc number (DObj ms) =
     and_then (collect (map (\<lambda>(k, d). and_then (any_doc number d) (\<lambda>v. Inr (k, v))) ms)) (\<lambda>vs.
       Inr (DObj (sort_key fst (fold (\<lambda>(k, v) m. al_put k v m) vs []))))"
| "any_doc number d = Inr d"

definition read_map :: "'w outside \<Rightarrow> bytes \<Rightarrow> (string \<times> jdoc) list result" where
  "read_map env reply =
     (case Decode reply of
        Some (Inr (d, _)) \<Rightarrow>
          and_then (any_doc (Out_number env) d) (\<lambda>v.
            case v of DObj m \<Rightarrow> Inr m | DNull \<Rightarrow> Inr [] | _ \<Rightarrow> Inl type_error)
      | Some (Inl err) \<Rightarrow> Inl err
      | None \<Rightarrow> Inl (StdError ''json: unfinished''))"

section \<open>Service cases\<close>

definition text_map :: "(string \<times> string) list \<Rightarrow> jdoc result" where
  "text_map ms = Inr (str_map_doc ms)"

definition probeEndpoint :: "'w outside \<Rightarrow> string \<Rightarrow> string \<Rightarrow> ('w, evidence) trial" where
  "probeEndpoint env endpoint0 name =
     (let endpoint = TrimRight_slash (TrimSpace endpoint0);
          probe = (\<lambda>path. then_do (client_Do env \<lparr>CR_Method = ''GET'', CR_URL = endpoint @ path, CR_Header = [], CR_Body = []\<rparr>)
            (\<lambda>(status, _). if status < 200 \<or> 300 \<le> status then settle (errorf (name @ path @ '' returned '' @ show_int (int status)))
                           else settle (Inr ()))) in
      if endpoint = [] then skip (name @ '' endpoint was not configured'')
      else then_do (probe ''/healthz'') (\<lambda>_. then_do (probe ''/version'') (\<lambda>_.
        settle (Inr [(''endpoint'', endpoint), (''health'', ''ok'')]))))"

definition no_ready :: Ready where
  "no_ready = \<lparr>R_Type = [], R_SessionID = [], R_DeviceID = [], R_TranscriptHash = [], R_ReadyMAC = [], R_Signature = no_signature\<rparr>"

text \<open>\<^verbatim>\<open>r, _ := s.CreateReady(...)\<close>: on an error the zero value is used.\<close>

definition ready_or_zero :: "Ready result \<Rightarrow> Ready" where
  "ready_or_zero res = (case res of Inl _ \<Rightarrow> no_ready | Inr r \<Rightarrow> r)"

definition serviceEnvelope :: "prims \<Rightarrow> 'w outside \<Rightarrow> time \<Rightarrow> Device \<Rightarrow> SecureEnvelope draws" where
  "serviceEnvelope P env now a =
     then_do (new_device P ''local'' (''svc-recipient-'' @ randomID P env now) now) (\<lambda>b.
     then_do (create_hello P a (''svc-session-'' @ randomID P env now) (ID_DeviceID (Dev_Identity b)) ''grant-local'' now) (\<lambda>ha.
     then_do (create_hello P b (H_SessionID (LH_Hello ha)) (ID_DeviceID (Dev_Identity a)) ''grant-local'' now) (\<lambda>hb.
     then_do (give (Establish P ha (LH_Hello hb) (Dev_Identity a) (Dev_Identity b))) (\<lambda>sa.
     then_do (give (Establish P hb (LH_Hello ha) (Dev_Identity b) (Dev_Identity a))) (\<lambda>sb.
     let ra = ready_or_zero (CreateReady P sa a); rb = ready_or_zero (CreateReady P sb b) in
     then_do (give (VerifyReady P sa rb (Dev_Identity b))) (\<lambda>sa'.
     then_do (give (VerifyReady P sb ra (Dev_Identity a))) (\<lambda>sb'.
     then_do (give (EncodeText ''service payload'')) (\<lambda>body.
       give (fst (Encrypt P (Some sa') (''svc-msg-'' @ randomID P env now) TypeText
         \<lparr>Rt_RelayID = ''relay-local'', Rt_TTLSeconds = 60, Rt_Priority = 1\<rparr> body))))))))))"

definition bind_doc :: "DeviceIdentity \<Rightarrow> DeviceProof \<Rightarrow> jdoc result" where
  "bind_doc i p = json_object [(''identity'', json_object (identity_fields i)), (''proof'', json_object (proof_fields p))]"

definition caseRelayServiceWorkflow :: "prims \<Rightarrow> 'w outside \<Rightarrow> string \<Rightarrow> ('w, evidence) trial" where
  "caseRelayServiceWorkflow P env relayEndpoint =
     (let endpoint = TrimRight_slash (TrimSpace relayEndpoint) in
      if endpoint = [] then skip ''relay endpoint was not configured''
      else then_do time_Now (\<lambda>now.
      then_do (on_random (new_device P ''local'' (''conf-relay-'' @ randomID P env now) now)) (\<lambda>dev.
      then_do (settle (CreateProof P dev ''relay-local'' (''challenge-'' @ randomID P env now) (''nonce-'' @ randomID P env (Add now 1)) now)) (\<lambda>prf.
      then_do (postServiceJSON env (endpoint @ ''/v2/relay/devices/bind-self'') (bind_doc (Dev_Identity dev) prf) read_credentials 200) (\<lambda>bound.
      if SC_Token (snd bound) = [] \<or> length (SC_Hash (snd bound)) \<noteq> 0 then settle (errorf ''relay refresh credential serialization is invalid'')
      else then_do (postServiceJSON env (endpoint @ ''/v2/relay/devices/refresh-access'') (text_map [(''refresh'', SC_Token (snd bound))])
             read_credentials 200) (\<lambda>refreshed.
      then_do (on_random (serviceEnvelope P env now dev)) (\<lambda>envel.
      then_do (postServiceJSONWithBearer env (endpoint @ ''/v2/relay/envelopes'') (SC_Token (fst bound)) (json_object (envelope_fields envel))
             (read_map env) 202) (\<lambda>receipt.
      if map_of receipt ''status'' \<noteq> Some (DStr ''queued'') then settle (errorf ''relay receipt status mismatch'')
      else if contains_sub ''service payload'' (encode (DObj receipt)) \<or> contains_sub ''session_key'' (encode (DObj receipt))
        then settle (errorf ''relay receipt leaked plaintext or key material'')
      else then_do (postServiceJSONWithBearer env (endpoint @ ''/v2/relay/devices/revoke-access'') (SC_Token (fst refreshed))
             (text_map [(''device_id'', ID_DeviceID (Dev_Identity dev))]) read_nothing 200) (\<lambda>_.
      then_do (postServiceJSON env (endpoint @ ''/v2/relay/devices/refresh-access'') (text_map [(''refresh'', SC_Token (snd refreshed))])
             read_nothing 401) (\<lambda>_.
        settle (Inr [(''device_id'', ID_DeviceID (Dev_Identity dev)), (''receipt_status'', ''queued''), (''revocation'', ''enforced'')])))))))))))"

definition caseTrustServiceWorkflow :: "prims \<Rightarrow> 'w outside \<Rightarrow> string \<Rightarrow> string \<Rightarrow> ('w, evidence) trial" where
  "caseTrustServiceWorkflow P env trustEndpoint adminToken =
     (let endpoint = TrimRight_slash (TrimSpace trustEndpoint) in
      if endpoint = [] then skip ''trust root endpoint was not configured''
      else then_do time_Now (\<lambda>now.
      then_do (on_random (new_device P ''local'' (''conf-trust-'' @ randomID P env now) now)) (\<lambda>dev.
      then_do (settle (CreateProof P dev ''trust-local'' (''challenge-'' @ randomID P env now) (''nonce-'' @ randomID P env (Add now 1)) now)) (\<lambda>prf.
      then_do (postServiceJSON env (endpoint @ ''/v2/trust/devices/submit'') (bind_doc (Dev_Identity dev) prf) read_nothing 200) (\<lambda>_.
      then_do (postServiceJSONWithAdmin env (endpoint @ ''/v2/trust/devices/authorize'') adminToken
             (json_object [(''audience'', Inr (DStr ''peer-local'')), (''device_id'', Inr (DStr (ID_DeviceID (Dev_Identity dev)))),
                (''permissions'', Inr (DStrs [''text''])), (''relay_id'', Inr (DStr ''relay-local'')), (''ttl_seconds'', Inr (DInt 60))])
             read_grant 200) (\<lambda>grant.
      then_do (settle (identity_Thumbprint P (Dev_Identity dev))) (\<lambda>tp.
      let verifyReq = json_object [(''audience'', Inr (DStr ''peer-local'')), (''confirmation_thumbprint'', Inr (DStr tp)),
            (''grant'', json_object (grant_fields grant)), (''permission'', Inr (DStr ''text'')), (''relay_id'', Inr (DStr ''relay-local'')),
            (''subject_device_id'', Inr (DStr (ID_DeviceID (Dev_Identity dev))))] in
      then_do (postServiceJSON env (endpoint @ ''/v2/trust/grants/verify'') verifyReq read_nothing 200) (\<lambda>_.
      then_do (postServiceJSONWithAdmin env (endpoint @ ''/v2/trust/devices/revoke'') adminToken
             (text_map [(''device_id'', ID_DeviceID (Dev_Identity dev)), (''reason'', ''conformance'')]) read_nothing 200) (\<lambda>_.
      then_do (postServiceJSON env (endpoint @ ''/v2/trust/grants/verify'') verifyReq read_nothing 403) (\<lambda>_.
        settle (Inr [(''device_id'', ID_DeviceID (Dev_Identity dev)), (''grant_id'', Gr_GrantID grant), (''revocation'', ''enforced'')])))))))))))"

end
