(* ===== verification/Conformance_Report.thy ===== *)
theory Conformance_Report
  imports Service_Client Json_Indent
begin

text \<open>
  The rest of \<^verbatim>\<open>conformance/runner.go\<close>: the options and the report, the cases on the command line tool, the case lists,
  running them (\<^verbatim>\<open>Run\<close>, \<^verbatim>\<open>runSuite\<close>, \<^verbatim>\<open>runCase\<close>, \<^verbatim>\<open>summarize\<close>), reading a report back and judging it
  (\<^verbatim>\<open>ValidateP0\<close>, \<^verbatim>\<open>ValidateRelease\<close>). The pass rate is a \<^verbatim>\<open>float64\<close> and is modelled as one. Contexts, with the
  deadlines they carry, are part of the runners the options provide.
\<close>

section \<open>Types\<close>

definition ReportType :: string where "ReportType = ''iscp.conformance.report.v2''"
definition StatusPass :: string where "StatusPass = ''pass''"
definition StatusFail :: string where "StatusFail = ''fail''"
definition StatusSkip :: string where "StatusSkip = ''skip''"
definition PriorityP0 :: string where "PriorityP0 = ''P0''"
definition PriorityP1 :: string where "PriorityP1 = ''P1''"

type_synonym ('w, 'a) runner = "'w bench \<Rightarrow> 'a result \<times> 'w bench"

record 'w Options =
  Op_Version :: string
  Op_RelayEndpoint :: string
  Op_TrustEndpoint :: string
  Op_AdminToken :: string
  Op_CLIRunner :: "('w, string) runner option"
  Op_CLIWorkflows :: "('w, (string \<times> string) list) runner option"
  Op_Now :: time

record CaseReport =
  CRep_ID :: string
  CRep_Name :: string
  CRep_Status :: string
  CRep_DurationMS :: int
  CRep_Error :: string
  CRep_SkipReason :: string
  CRep_Evidence :: "(string \<times> string) list"

record SuiteReport =
  SRep_ID :: string
  SRep_Name :: string
  SRep_Priority :: string
  SRep_Required :: bool
  SRep_CaseCount :: int
  SRep_Passed :: int
  SRep_Failed :: int
  SRep_Skipped :: int
  SRep_DurationMS :: int
  SRep_Cases :: "CaseReport list option"

record Summary =
  Sum_SuiteCount :: int
  Sum_CaseCount :: int
  Sum_Passed :: int
  Sum_Failed :: int
  Sum_Skipped :: int

record Report =
  Rep_Type :: string
  Rep_Version :: string
  Rep_Protocol :: string
  Rep_GeneratedAt :: time
  Rep_DurationMS :: int
  Rep_Result :: string
  Rep_ReleaseDecision :: string
  Rep_Summary :: Summary
  Rep_Endpoints :: "(string \<times> string) list"
  Rep_ResidualRisks :: "string slice"
  Rep_Suites :: "SuiteReport list option"

record 'w caseDef =
  Case_id :: string
  Case_name :: string
  Case_run :: "('w, evidence) trial"

section \<open>Cases on the command line tool\<close>

definition trial_of :: "('w, 'a) runner \<Rightarrow> (go_error \<Rightarrow> go_error) \<Rightarrow> ('w, 'a) trial" where
  "trial_of m wrap b = (case m b of (Inl err, b') \<Rightarrow> (Inl (CaseError (wrap err)), b') | (Inr x, b') \<Rightarrow> (Inr x, b'))"

text \<open>\<^verbatim>\<open>%q\<close>: characters beyond ASCII are taken as printable.\<close>

definition quoted_char :: "char \<Rightarrow> string" where
  "quoted_char c =
     (let b = CHR 0x5C in
      if c = CHR 0x22 \<or> c = b then [b, c]
      else case map_of (zip (map char_of [7, 8, 9, 10, 11, 12, 13 :: nat]) ''abtnvfr'') c of
             Some e \<Rightarrow> [b, e]
           | None \<Rightarrow>
               if byte_val c < 32 \<or> byte_val c = 127 then [b, CHR ''x'', Json_Text.hex_digit (byte_val c div 16), Json_Text.hex_digit (byte_val c mod 16)]
               else [c])"

definition quoted :: "string \<Rightarrow> string" where
  "quoted s = CHR 0x22 # concat (map quoted_char s) @ [CHR 0x22]"

definition forbidden_output :: "string list" where
  "forbidden_output = [''hello from iscp'', ''private key'', ''session_key='', ''access_token='', ''refresh_credential='']"

definition caseCLILocalE2E :: "'w Options \<Rightarrow> ('w, evidence) trial" where
  "caseCLILocalE2E opts =
     (case Op_CLIRunner opts of
        None \<Rightarrow> skip ''CLI workflow runner was not provided''
      | Some runner \<Rightarrow>
          then_do (trial_of runner (\<lambda>err. StdError (''CLI demo failed: '' @ error_text err))) (\<lambda>out.
            if \<not> contains_sub ''local-e2e ok'' out then settle (errorf ''CLI demo did not report success'')
            else case filter (\<lambda>forbidden. contains_sub (lower_text forbidden) (lower_text out)) forbidden_output of
                   forbidden # _ \<Rightarrow> settle (errorf (''CLI output leaked forbidden content '' @ quoted forbidden))
                 | [] \<Rightarrow> settle (Inr [(''command'', ''demo local-e2e''), (''plaintext_redacted'', ''true'')])))"

definition forbidden_workflow_output :: "string list" where
  "forbidden_workflow_output =
     [''hello from iscp'', ''cli payload'', ''private key'', ''session_key'', ''access_token'', ''refresh_credential'']"

text \<open>The map of results is ranged over in some order, here that of its list; only the text of an error depends on it.\<close>

definition caseCLICommandSet :: "'w Options \<Rightarrow> ('w, evidence) trial" where
  "caseCLICommandSet opts =
     (case Op_CLIWorkflows opts of
        None \<Rightarrow> skip ''CLI command workflow runner was not provided''
      | Some runner \<Rightarrow>
          then_do (trial_of runner (\<lambda>err. err)) (\<lambda>results.
            if length results = 0 then settle (errorf ''CLI workflow runner returned no commands'')
            else case concat (map (\<lambda>(name, out). map (\<lambda>forbidden. (name, forbidden))
                   (filter (\<lambda>forbidden. contains_sub (lower_text forbidden) (lower_text out)) forbidden_workflow_output)) results) of
                   (name, forbidden) # _ \<Rightarrow> settle (errorf (''CLI workflow '' @ name @ '' leaked forbidden content '' @ quoted forbidden))
                 | [] \<Rightarrow> settle (Inr [(''commands'', show_int (int (length results))), (''secret_redaction'', ''true'')])))"

section \<open>Case lists\<close>

definition sdk_case :: "string \<Rightarrow> string \<Rightarrow> evidence draws \<Rightarrow> 'w caseDef" where
  "sdk_case i name run = \<lparr>Case_id = i, Case_name = name, Case_run = on_random run\<rparr>"

definition outer_case :: "string \<Rightarrow> string \<Rightarrow> ('w, evidence) trial \<Rightarrow> 'w caseDef" where
  "outer_case i name run = \<lparr>Case_id = i, Case_name = name, Case_run = run\<rparr>"

definition p0CoreCases :: "prims \<Rightarrow> time \<Rightarrow> 'w caseDef list" where
  "p0CoreCases P now =
     [sdk_case ''P0-CORE-001'' ''device proof verifies with audience and challenge'' (caseIdentityProofValid P now),
      sdk_case ''P0-CORE-002'' ''signed relay descriptor verifies and pins'' (caseDescriptorValid P now),
      sdk_case ''P0-CORE-003'' ''trust grant verifies all required bindings'' (caseTrustGrantValid P now),
      sdk_case ''P0-CORE-004'' ''session ready confirms transcript and keys'' (caseSessionReadyValid P now),
      sdk_case ''P0-CORE-005'' ''secure envelope round trips after ready'' (caseEnvelopeE2EValid P now),
      sdk_case ''P0-CORE-006'' ''provisioning ticket and bundle verify'' (caseProvisioningValid P now),
      sdk_case ''P0-CORE-007'' ''pairing ticket v3 binds purpose and grant roles'' (caseTicketV3Valid P now),
      sdk_case ''P0-CORE-008'' ''session reopen control frame verifies'' (caseSessionReopenValid P now),
      sdk_case ''P0-CORE-009'' ''credential recovery sealed blob round trips'' (caseRecoverySealValid P)]"

definition p0SecurityCases :: "prims \<Rightarrow> time \<Rightarrow> 'w caseDef list" where
  "p0SecurityCases P now =
     [sdk_case ''P0-SEC-001'' ''production profile rejects unsafe toggles'' caseProductionProfileRejectsUnsafe,
      sdk_case ''P0-SEC-002'' ''production profile rejects unsigned descriptor'' (caseUnsignedDescriptorRejected P now),
      sdk_case ''P0-SEC-003'' ''proof with wrong challenge is rejected'' (caseProofWrongChallengeRejected P now),
      sdk_case ''P0-SEC-004'' ''grant wrong audience is rejected'' (caseGrantWrongAudienceRejected P now),
      sdk_case ''P0-SEC-005'' ''grant wrong confirmation thumbprint is rejected'' (caseGrantWrongCNFRejected P now),
      sdk_case ''P0-SEC-006'' ''grant missing permission is rejected'' (caseGrantWrongPermissionRejected P now),
      sdk_case ''P0-SEC-007'' ''grant wrong relay is rejected'' (caseGrantWrongRelayRejected P now),
      sdk_case ''P0-SEC-008'' ''grant below revocation epoch is rejected'' (caseGrantRevokedEpochRejected P now),
      sdk_case ''P0-SEC-009'' ''expired grant is rejected'' (caseGrantExpiredRejected P now),
      sdk_case ''P0-SEC-010'' ''payload before session.ready is rejected'' (casePayloadBeforeReadyRejected P now),
      sdk_case ''P0-SEC-011'' ''envelope AAD tamper is rejected'' (caseEnvelopeAADTamperRejected P now),
      sdk_case ''P0-SEC-012'' ''envelope replay is rejected'' (caseEnvelopeReplayRejected P now),
      sdk_case ''P0-SEC-013'' ''expired pairing ticket is rejected'' (caseExpiredTicketRejected P now),
      sdk_case ''P0-SEC-014'' ''bundle binding mismatch is rejected'' (caseBundleBindingRejected P now),
      sdk_case ''P0-SEC-015'' ''bundle before local channel ready is rejected'' (caseBundleNotReadyRejected P now),
      sdk_case ''P0-SEC-016'' ''logs redact secret-bearing fields'' caseSecretRedaction,
      sdk_case ''P0-SEC-017'' ''identity with forged kid is rejected'' (caseForgedKIDRejected P now),
      sdk_case ''P0-SEC-018'' ''ticket consumed by its grant audience is rejected'' (caseTicketAudienceReversalRejected P now),
      sdk_case ''P0-SEC-019'' ''session reopen outside window is rejected'' (caseReopenWindowRejected P now),
      sdk_case ''P0-SEC-020'' ''recovery blob bound to another identity fails to open'' (caseRecoveryTranscriptRejected P)]"

definition p1FeatureCases :: "prims \<Rightarrow> Message sorter \<Rightarrow> time \<Rightarrow> 'w caseDef list" where
  "p1FeatureCases P srt now =
     [sdk_case ''P1-FEAT-001'' ''audit hash-chain changes with previous hash'' (caseAuditHashChain P now),
      sdk_case ''P1-FEAT-002'' ''offline queue honors TTL and priority metadata'' (caseQueueTTLAndPriority srt now)]"

definition serviceInteropCases :: "prims \<Rightarrow> 'w outside \<Rightarrow> 'w Options \<Rightarrow> 'w caseDef list" where
  "serviceInteropCases P env opts =
     [outer_case ''P1-SVC-001'' ''relay endpoint exposes health and version'' (probeEndpoint env (Op_RelayEndpoint opts) ''relay''),
      outer_case ''P1-SVC-002'' ''trust root endpoint exposes health and version'' (probeEndpoint env (Op_TrustEndpoint opts) ''trust_root''),
      outer_case ''P1-SVC-003'' ''relay bind refresh revoke and opaque envelope receipt'' (caseRelayServiceWorkflow P env (Op_RelayEndpoint opts)),
      outer_case ''P1-SVC-004'' ''trust submit authorize verify and revoke workflow''
        (caseTrustServiceWorkflow P env (Op_TrustEndpoint opts) (Op_AdminToken opts))]"

definition cliWorkflowCases :: "'w Options \<Rightarrow> 'w caseDef list" where
  "cliWorkflowCases opts =
     [outer_case ''P1-CLI-001'' ''CLI local E2E demo completes without plaintext output'' (caseCLILocalE2E opts),
      outer_case ''P1-CLI-002'' ''CLI local workflow commands perform real SDK operations'' (caseCLICommandSet opts)]"

section \<open>Running\<close>

text \<open>\<^verbatim>\<open>time.Now()\<close> as a plain reading, and \<^verbatim>\<open>time.Since(start).Milliseconds()\<close>.\<close>

definition tick :: "'w bench \<Rightarrow> time \<times> 'w bench" where
  "tick b = (B_clock b (B_ticks b), b\<lparr>B_ticks := Suc (B_ticks b)\<rparr>)"

definition Milliseconds :: "duration \<Rightarrow> int" where
  "Milliseconds d = (if 0 \<le> d then d div 1000000 else - (- d div 1000000))"

definition runCase :: "'w caseDef \<Rightarrow> 'w bench \<Rightarrow> CaseReport \<times> 'w bench" where
  "runCase c b =
     (let (start, b1) = tick b; (res, b2) = Case_run c b1; (stop, b3) = tick b2;
          out = \<lparr>CRep_ID = Case_id c, CRep_Name = Case_name c, CRep_Status = StatusPass,
                 CRep_DurationMS = Milliseconds (Sub stop start), CRep_Error = [], CRep_SkipReason = [],
                 CRep_Evidence = (case res of Inr evidence \<Rightarrow> evidence | Inl _ \<Rightarrow> [])\<rparr> in
      (case res of
         Inr _ \<Rightarrow> out
       | Inl (SkipError reason) \<Rightarrow> out\<lparr>CRep_Status := StatusSkip, CRep_SkipReason := reason\<rparr>
       | Inl (CaseError err) \<Rightarrow> out\<lparr>CRep_Status := StatusFail, CRep_Error := RedactString (error_text err)\<rparr>, b3))"

fun run_cases :: "'w caseDef list \<Rightarrow> 'w bench \<Rightarrow> CaseReport list \<times> 'w bench" where
  "run_cases [] b = ([], b)"
| "run_cases (c # cs) b = (let (r, b1) = runCase c b; (rs, b2) = run_cases cs b1 in (r # rs, b2))"

definition status_count :: "string \<Rightarrow> CaseReport list \<Rightarrow> int" where
  "status_count status cs = int (length (filter (\<lambda>c. CRep_Status c = status) cs))"

definition runSuite :: "string \<Rightarrow> string \<Rightarrow> string \<Rightarrow> bool \<Rightarrow> 'w caseDef list \<Rightarrow> 'w bench \<Rightarrow> SuiteReport \<times> 'w bench" where
  "runSuite i name priority required cases b =
     (let (start, b1) = tick b; (cs, b2) = run_cases cases b1; (stop, b3) = tick b2 in
      (\<lparr>SRep_ID = i, SRep_Name = name, SRep_Priority = priority, SRep_Required = required, SRep_CaseCount = int (length cs),
        SRep_Passed = status_count StatusPass cs, SRep_Failed = status_count StatusFail cs, SRep_Skipped = status_count StatusSkip cs,
        SRep_DurationMS = Milliseconds (Sub stop start), SRep_Cases = Some cs\<rparr>, b3))"

definition summarize :: "SuiteReport list \<Rightarrow> Summary" where
  "summarize suites =
     fold (\<lambda>suite out. out\<lparr>Sum_CaseCount := Sum_CaseCount out + SRep_CaseCount suite, Sum_Passed := Sum_Passed out + SRep_Passed suite,
         Sum_Failed := Sum_Failed out + SRep_Failed suite, Sum_Skipped := Sum_Skipped out + SRep_Skipped suite\<rparr>)
       suites \<lparr>Sum_SuiteCount = int (length suites), Sum_CaseCount = 0, Sum_Passed = 0, Sum_Failed = 0, Sum_Skipped = 0\<rparr>"

definition add_risk :: "string \<Rightarrow> Report \<Rightarrow> Report" where
  "add_risk risk report = report\<lparr>Rep_ResidualRisks := Some (elems (Rep_ResidualRisks report) @ [risk])\<rparr>"

definition fail_report :: "Report \<Rightarrow> Report" where
  "fail_report report = report\<lparr>Rep_Result := StatusFail, Rep_ReleaseDecision := ''no-go''\<rparr>"

definition judge_suite :: "SuiteReport \<Rightarrow> Report \<Rightarrow> Report" where
  "judge_suite suite report =
     (if SRep_CaseCount suite = 0 then add_risk (SRep_ID suite @ '' has no cases'') (fail_report report)
      else
        let r1 = (if SRep_Failed suite > 0 then fail_report report else report);
            r2 = (if SRep_Priority suite = PriorityP0 \<and> SRep_Skipped suite > 0
                  then add_risk (SRep_ID suite @ '' skipped required P0 cases'') (fail_report r1) else r1)
        in if SRep_Priority suite = PriorityP1 \<and> SRep_Skipped suite > 0
           then add_risk (SRep_ID suite @ '' has skipped P1 cases'') (r2\<lparr>Rep_ReleaseDecision := ''no-go''\<rparr>) else r2)"

definition run_suites :: "prims \<Rightarrow> Message sorter \<Rightarrow> 'w outside \<Rightarrow> 'w Options \<Rightarrow> 'w bench \<Rightarrow> SuiteReport list \<times> 'w bench" where
  "run_suites P srt env opts b0 =
     (let (s1, b1) = runSuite ''p0_core'' ''P0 Core'' PriorityP0 True (p0CoreCases P (Op_Now opts)) b0;
          (s2, b2) = runSuite ''p0_security_negative'' ''P0 Security Negative'' PriorityP0 True (p0SecurityCases P (Op_Now opts)) b1;
          (s3, b3) = runSuite ''p1_feature'' ''P1 Feature'' PriorityP1 False (p1FeatureCases P srt (Op_Now opts)) b2;
          (s4, b4) = runSuite ''service_interop'' ''Service Interoperability'' PriorityP1 False (serviceInteropCases P env opts) b3;
          (s5, b5) = runSuite ''cli_workflow'' ''CLI Workflow'' PriorityP1 False (cliWorkflowCases opts) b4
      in ([s1, s2, s3, s4, s5], b5))"

definition default_options :: "'w Options \<Rightarrow> 'w bench \<Rightarrow> 'w Options \<times> 'w bench" where
  "default_options opts0 b =
     (let opts = (if Op_Version opts0 = [] then opts0\<lparr>Op_Version := ''0.1.0-dev''\<rparr> else opts0) in
      if IsZero (Op_Now opts) then (let (now, b') = tick b in (opts\<lparr>Op_Now := now\<rparr>, b')) else (opts, b))"

definition Run :: "prims \<Rightarrow> Message sorter \<Rightarrow> 'w outside \<Rightarrow> 'w Options \<Rightarrow> 'w bench \<Rightarrow> Report \<times> 'w bench" where
  "Run P srt env opts0 b0 =
     (let (opts, b1) = default_options opts0 b0;
          (start, b2) = tick b1;
          (suites, b3) = run_suites P srt env opts b2;
          (stop, b4) = tick b3;
          report = \<lparr>Rep_Type = ReportType, Rep_Version = Op_Version opts, Rep_Protocol = ''v2'', Rep_GeneratedAt = Op_Now opts,
             Rep_DurationMS = Milliseconds (Sub stop start), Rep_Result = StatusPass, Rep_ReleaseDecision = ''go'',
             Rep_Summary = summarize suites,
             Rep_Endpoints = [(''relay'', Op_RelayEndpoint opts), (''trust_root'', Op_TrustEndpoint opts)],
             Rep_ResidualRisks = None, Rep_Suites = Some suites\<rparr>;
          judged = fold judge_suite suites report
      in (if Sum_CaseCount (Rep_Summary judged) = 0
          then add_risk ''no conformance cases executed'' (fail_report judged) else judged, b4))"

section \<open>Judging a report\<close>

definition ValidateP0_suite :: "SuiteReport \<Rightarrow> unit result" where
  "ValidateP0_suite suite =
     (if SRep_CaseCount suite = 0 then errorf (SRep_ID suite @ '' has no cases'')
      else if SRep_Failed suite > 0 then errorf (SRep_ID suite @ '' has failed cases'')
      else if SRep_Skipped suite > 0 then errorf (SRep_ID suite @ '' has skipped P0 cases'')
      else Inr ())"

text \<open>The loop over the suites, with the required ones seen so far.\<close>

fun check_required :: "SuiteReport list \<Rightarrow> (string \<times> bool) list \<Rightarrow> (string \<times> bool) list result" where
  "check_required [] required = Inr required"
| "check_required (suite # suites) required =
     (if map_of required (SRep_ID suite) = None then check_required suites required
      else and_then (ValidateP0_suite suite) (\<lambda>_. check_required suites (al_put (SRep_ID suite) True required)))"

definition ValidateP0 :: "Report \<Rightarrow> unit result" where
  "ValidateP0 report =
     (if Rep_Type report \<noteq> ReportType then errorf (''unexpected conformance report type '' @ quoted (Rep_Type report))
      else if Sum_CaseCount (Rep_Summary report) = 0 then errorf ''conformance report has no executed cases''
      else and_then (check_required (elems (Rep_Suites report)) [(''p0_core'', False), (''p0_security_negative'', False)]) (\<lambda>required.
        case filter (\<lambda>(i, seen). \<not> seen) required of
          (i, _) # _ \<Rightarrow> errorf (''missing required suite '' @ i)
        | [] \<Rightarrow> Inr ()))"

text \<open>
  The quotient of two counts as a \<^verbatim>\<open>float64\<close>: sign, 53-bit significand and binary exponent, the nearest one with
  ties to even. The counts themselves convert exactly below \<open>2 ^ 53\<close>.
\<close>

function scale64 :: "nat \<Rightarrow> nat \<Rightarrow> nat \<Rightarrow> nat" where
  "scale64 p c n = (if p = 0 \<or> c * 2 ^ 52 \<le> p * 2 ^ n then n else scale64 p c (Suc n))"
  by auto
termination
  by (relation "measure (\<lambda>(p, c, n). c * 2 ^ 52 - p * 2 ^ n)") (auto intro!: diff_less_mono2)

definition div_even :: "nat \<Rightarrow> nat \<Rightarrow> nat" where
  "div_even a b =
     (let q = a div b; r = a mod b in
      if 2 * r < b then q else if b < 2 * r then Suc q else if even q then q else Suc q)"

record float64 =
  F_negative :: bool
  F_significand :: nat
  F_exponent :: nat
    \<comment> \<open>the value is the significand divided by two to this power\<close>

definition quotient64 :: "int \<Rightarrow> int \<Rightarrow> float64" where
  "quotient64 x y =
     (let p = nat \<bar>x\<bar>; c = nat \<bar>y\<bar>; n = scale64 p c 0 in
      \<lparr>F_negative = (x < 0) \<noteq> (y < 0), F_significand = div_even (p * 2 ^ n) c, F_exponent = n\<rparr>)"

text \<open>The constant 0.95 is the double with significand \<open>8556839292003942\<close> and exponent 53.\<close>

definition below_95 :: "float64 \<Rightarrow> bool" where
  "below_95 f \<longleftrightarrow> F_negative f \<or> F_significand f * 2 ^ 53 < 8556839292003942 * 2 ^ F_exponent f"

definition percent_text :: "float64 \<Rightarrow> string" where
  "percent_text f =
     (let h = div_even (F_significand f * 100) (2 ^ F_exponent f) in
      (if F_negative f then ''-'' else []) @ show_nat (h div 100) @ ''.'' @ show_nat (h div 10 mod 10) @ show_nat (h mod 10))"

definition ValidateRelease_suite :: "SuiteReport \<Rightarrow> unit result" where
  "ValidateRelease_suite suite =
     (if SRep_CaseCount suite = 0 then errorf (SRep_ID suite @ '' has no cases'')
      else if SRep_Failed suite > 0 then errorf (SRep_ID suite @ '' has failed cases'')
      else if SRep_Priority suite = PriorityP1 then
        let rate = quotient64 (SRep_Passed suite) (SRep_CaseCount suite) in
        if SRep_Skipped suite > 0 \<or> below_95 rate
          then errorf (SRep_ID suite @ '' P1 pass rate '' @ percent_text rate @ '' with '' @ show_int (SRep_Skipped suite) @ '' skipped'')
        else Inr ()
      else Inr ())"

fun check_release :: "SuiteReport list \<Rightarrow> unit result" where
  "check_release [] = Inr ()"
| "check_release (suite # suites) = and_then (ValidateRelease_suite suite) (\<lambda>_. check_release suites)"

definition ValidateRelease :: "Report \<Rightarrow> unit result" where
  "ValidateRelease report =
     and_then (ValidateP0 report) (\<lambda>_.
     if Rep_ReleaseDecision report \<noteq> ''go'' \<or> Rep_Result report \<noteq> StatusPass
       then errorf (''release decision is '' @ Rep_ReleaseDecision report @ '' with result '' @ Rep_Result report)
     else check_release (elems (Rep_Suites report)))"

section \<open>The report as JSON\<close>

definition case_report_fields :: "CaseReport \<Rightarrow> (string \<times> jdoc result) list" where
  "case_report_fields c =
     [(''id'', Inr (DStr (CRep_ID c))), (''name'', Inr (DStr (CRep_Name c))), (''status'', Inr (DStr (CRep_Status c))),
      (''duration_ms'', Inr (DInt (CRep_DurationMS c)))] @
     omit_if (CRep_Error c = []) (''error'', Inr (DStr (CRep_Error c))) @
     omit_if (CRep_SkipReason c = []) (''skip_reason'', Inr (DStr (CRep_SkipReason c))) @
     omit_if (CRep_Evidence c = []) (''evidence'', Inr (str_map_doc (CRep_Evidence c)))"

definition list_doc :: "('a \<Rightarrow> jdoc result) \<Rightarrow> 'a list option \<Rightarrow> jdoc result" where
  "list_doc f xs = (case xs of None \<Rightarrow> Inr DNull | Some l \<Rightarrow> and_then (collect (map f l)) (\<lambda>ds. Inr (DArr ds)))"

definition suite_report_fields :: "SuiteReport \<Rightarrow> (string \<times> jdoc result) list" where
  "suite_report_fields s =
     [(''id'', Inr (DStr (SRep_ID s))), (''name'', Inr (DStr (SRep_Name s))), (''priority'', Inr (DStr (SRep_Priority s))),
      (''required'', Inr (DBool (SRep_Required s))), (''case_count'', Inr (DInt (SRep_CaseCount s))),
      (''passed'', Inr (DInt (SRep_Passed s))), (''failed'', Inr (DInt (SRep_Failed s))), (''skipped'', Inr (DInt (SRep_Skipped s))),
      (''duration_ms'', Inr (DInt (SRep_DurationMS s))), (''cases'', list_doc (json_object \<circ> case_report_fields) (SRep_Cases s))]"

definition summary_fields :: "Summary \<Rightarrow> (string \<times> jdoc result) list" where
  "summary_fields s =
     [(''suite_count'', Inr (DInt (Sum_SuiteCount s))), (''case_count'', Inr (DInt (Sum_CaseCount s))), (''passed'', Inr (DInt (Sum_Passed s))),
      (''failed'', Inr (DInt (Sum_Failed s))), (''skipped'', Inr (DInt (Sum_Skipped s)))]"

definition report_fields :: "Report \<Rightarrow> (string \<times> jdoc result) list" where
  "report_fields r =
     [(''type'', Inr (DStr (Rep_Type r))), (''version'', Inr (DStr (Rep_Version r))), (''protocol'', Inr (DStr (Rep_Protocol r))),
      (''generated_at'', time_doc (Rep_GeneratedAt r)), (''duration_ms'', Inr (DInt (Rep_DurationMS r))),
      (''result'', Inr (DStr (Rep_Result r))), (''release_decision'', Inr (DStr (Rep_ReleaseDecision r))),
      (''summary'', json_object (summary_fields (Rep_Summary r)))] @
     omit_if (Rep_Endpoints r = []) (''endpoints'', Inr (str_map_doc (Rep_Endpoints r))) @
     omit_if (elems (Rep_ResidualRisks r) = []) (''residual_risks'', Inr (slice_doc (Rep_ResidualRisks r))) @
     [(''suites'', list_doc (json_object \<circ> suite_report_fields) (Rep_Suites r))]"

definition MarshalReport :: "Report \<Rightarrow> bytes result" where
  "MarshalReport report = and_then (json_object (report_fields report)) (\<lambda>d. Inr (indent_doc 0 d))"

definition case_report_table :: "(string \<times> CaseReport setter) list" where
  "case_report_table =
     [(''id'', set_string (\<lambda>s c. c\<lparr>CRep_ID := s\<rparr>)), (''name'', set_string (\<lambda>s c. c\<lparr>CRep_Name := s\<rparr>)),
      (''status'', set_string (\<lambda>s c. c\<lparr>CRep_Status := s\<rparr>)), (''duration_ms'', set_int (\<lambda>n c. c\<lparr>CRep_DurationMS := n\<rparr>)),
      (''error'', set_string (\<lambda>s c. c\<lparr>CRep_Error := s\<rparr>)), (''skip_reason'', set_string (\<lambda>s c. c\<lparr>CRep_SkipReason := s\<rparr>)),
      (''evidence'', set_str_map CRep_Evidence (\<lambda>m c. c\<lparr>CRep_Evidence := m\<rparr>))]"

definition no_case_report :: CaseReport where
  "no_case_report = \<lparr>CRep_ID = [], CRep_Name = [], CRep_Status = [], CRep_DurationMS = 0, CRep_Error = [], CRep_SkipReason = [],
     CRep_Evidence = []\<rparr>"

definition suite_report_table :: "(string \<times> SuiteReport setter) list" where
  "suite_report_table =
     [(''id'', set_string (\<lambda>x s. s\<lparr>SRep_ID := x\<rparr>)), (''name'', set_string (\<lambda>x s. s\<lparr>SRep_Name := x\<rparr>)),
      (''priority'', set_string (\<lambda>x s. s\<lparr>SRep_Priority := x\<rparr>)), (''required'', set_bool (\<lambda>x s. s\<lparr>SRep_Required := x\<rparr>)),
      (''case_count'', set_int (\<lambda>x s. s\<lparr>SRep_CaseCount := x\<rparr>)), (''passed'', set_int (\<lambda>x s. s\<lparr>SRep_Passed := x\<rparr>)),
      (''failed'', set_int (\<lambda>x s. s\<lparr>SRep_Failed := x\<rparr>)), (''skipped'', set_int (\<lambda>x s. s\<lparr>SRep_Skipped := x\<rparr>)),
      (''duration_ms'', set_int (\<lambda>x s. s\<lparr>SRep_DurationMS := x\<rparr>)),
      (''cases'', set_structs case_report_table no_case_report (\<lambda>x s. s\<lparr>SRep_Cases := x\<rparr>))]"

definition no_suite_report :: SuiteReport where
  "no_suite_report = \<lparr>SRep_ID = [], SRep_Name = [], SRep_Priority = [], SRep_Required = False, SRep_CaseCount = 0, SRep_Passed = 0,
     SRep_Failed = 0, SRep_Skipped = 0, SRep_DurationMS = 0, SRep_Cases = None\<rparr>"

definition summary_table :: "(string \<times> Summary setter) list" where
  "summary_table =
     [(''suite_count'', set_int (\<lambda>x s. s\<lparr>Sum_SuiteCount := x\<rparr>)), (''case_count'', set_int (\<lambda>x s. s\<lparr>Sum_CaseCount := x\<rparr>)),
      (''passed'', set_int (\<lambda>x s. s\<lparr>Sum_Passed := x\<rparr>)), (''failed'', set_int (\<lambda>x s. s\<lparr>Sum_Failed := x\<rparr>)),
      (''skipped'', set_int (\<lambda>x s. s\<lparr>Sum_Skipped := x\<rparr>))]"

definition report_table :: "(string \<times> Report setter) list" where
  "report_table =
     [(''type'', set_string (\<lambda>x r. r\<lparr>Rep_Type := x\<rparr>)), (''version'', set_string (\<lambda>x r. r\<lparr>Rep_Version := x\<rparr>)),
      (''protocol'', set_string (\<lambda>x r. r\<lparr>Rep_Protocol := x\<rparr>)), (''generated_at'', set_time (\<lambda>x r. r\<lparr>Rep_GeneratedAt := x\<rparr>)),
      (''duration_ms'', set_int (\<lambda>x r. r\<lparr>Rep_DurationMS := x\<rparr>)), (''result'', set_string (\<lambda>x r. r\<lparr>Rep_Result := x\<rparr>)),
      (''release_decision'', set_string (\<lambda>x r. r\<lparr>Rep_ReleaseDecision := x\<rparr>)),
      (''summary'', set_struct summary_table Rep_Summary (\<lambda>x r. r\<lparr>Rep_Summary := x\<rparr>)),
      (''endpoints'', set_str_map Rep_Endpoints (\<lambda>x r. r\<lparr>Rep_Endpoints := x\<rparr>)),
      (''residual_risks'', set_strings (\<lambda>x r. r\<lparr>Rep_ResidualRisks := x\<rparr>)),
      (''suites'', set_structs suite_report_table no_suite_report (\<lambda>x r. r\<lparr>Rep_Suites := x\<rparr>))]"

definition no_report :: Report where
  "no_report = \<lparr>Rep_Type = [], Rep_Version = [], Rep_Protocol = [], Rep_GeneratedAt = 0, Rep_DurationMS = 0, Rep_Result = [],
     Rep_ReleaseDecision = [], Rep_Summary = \<lparr>Sum_SuiteCount = 0, Sum_CaseCount = 0, Sum_Passed = 0, Sum_Failed = 0, Sum_Skipped = 0\<rparr>,
     Rep_Endpoints = [], Rep_ResidualRisks = None, Rep_Suites = None\<rparr>"

definition UnmarshalReport :: "bytes \<Rightarrow> Report result" where
  "UnmarshalReport data = Unmarshal_struct report_table no_report data"

end
