(* ===== verification/Conformance_Laws.thy ===== *)
theory Conformance_Laws
  imports Conformance_Cases
begin

text \<open>
  The library passes its conformance cases: each case returns evidence from every random source with
  enough bytes, under the functional laws of the primitives, at every instant whose neighbourhood
  can be written in JSON.
\<close>

definition case_instants :: "time \<Rightarrow> bool" where
  "case_instants now \<longleftrightarrow> list_all year_ok
     [now, now - 2 * Minute, now - Minute, now + Minute, now + 10 * Minute, now + Hour, Truncate now Second,
      Truncate now Second + ControlFrameMaxTTL]"

lemma case_instantsD:
  assumes "case_instants now"
  shows "year_ok now" "year_ok (Add now (- 2 * Minute))" "year_ok (Add now (- Minute))" "year_ok (Add now Minute)"
    "year_ok (Add now (10 * Minute))" "year_ok (Add now Hour)" "year_ok (Truncate now Second)"
    "year_ok (Add (Truncate now Second) ControlFrameMaxTTL)"
  using assms by (simp_all add: case_instants_def Add_def)

abbreviation passes :: "evidence draws \<Rightarrow> nat \<Rightarrow> bool" where
  "passes c n \<equiv> achieves c n (\<lambda>_. True)"

lemma rejected_passes: "res = Inl e \<Longrightarrow> n = 0 \<Longrightarrow> passes (expect_rejected res message reason) n"
  by (simp add: expect_rejected_def achieves_give)

lemma refused_passes: "res \<noteq> Inr () \<Longrightarrow> n = 0 \<Longrightarrow> passes (expect_rejected res message reason) n"
  by (cases res) (auto intro: rejected_passes)

section \<open>Fixtures\<close>

definition grant_fixture :: "prims \<Rightarrow> time \<Rightarrow> Device \<times> Device \<times> Grant \<times> VerifyOptions \<Rightarrow> bool" where
  "grant_fixture P now = (\<lambda>(issuer, subject, grant, opts). \<exists>x. opts = fixture_options (Dev_Identity subject) (Base64URL x) now \<and>
     (\<forall>o'. VerifyGrant P grant (Dev_Identity issuer) o' = Inr () \<longleftrightarrow> grant_admits (fixture_grant (Dev_Identity subject) (Base64URL x) now) o'))"

lemma validGrantFixture:
  assumes "sdk_laws P" "case_instants now"
  shows "achieves (validGrantFixture P now) 64 (grant_fixture P now)"
  unfolding validGrantFixture_def
  apply (rule achieves_then[OF new_device[OF assms(1)]], simp, rule achieves_then[OF new_device[OF assms(1)]], simp)
  subgoal premises prems for issuer subject
  proof -
    have d: "device_ok P issuer" using prems(1) by (simp add: device_as_def)
    obtain x where tp: "identity_Thumbprint P (Dev_Identity subject) = Inr (Base64URL x)"
      using prems(2) by (simp add: device_as_def device_ok_def identity_Thumbprint_def Let_def Thumbprint_def)
    let ?g = "fixture_grant (Dev_Identity subject) (Base64URL x) now"
    obtain g where g: "SignGrant P issuer ?g = Inr g"
      using SignGrant_ok[of ?g] case_instantsD[OF assms(2)] by (auto simp: int64_ok_def fixture_grant_def)
    have "VerifyGrant P g (Dev_Identity issuer) o' = Inr () \<longleftrightarrow> grant_admits g o'" for o'
      using SignGrant_checks[OF sdk_lawsD(1)[OF assms(1)] d g] SignGrant_fields(1)[OF g] by (simp add: VerifyGrant_Inr)
    moreover have "grant_admits g o' \<longleftrightarrow> grant_admits ?g o'" for o'
      using g by (auto simp: SignGrant_def Let_def and_then_Inr_iff grant_admits_def)
    ultimately have q: "grant_fixture P now (issuer, subject, g, fixture_options (Dev_Identity subject) (Base64URL x) now)"
      unfolding grant_fixture_def by blast
    show ?thesis
      by (rule achieves_then_give[OF tp], rule achieves_then_give[OF g], rule achieves_give[OF refl]) (simp_all add: q)
  qed
  done

definition hello_fixture :: "prims \<Rightarrow> time \<Rightarrow> Device \<times> Device \<times> LocalHello \<times> LocalHello \<Rightarrow> bool" where
  "hello_fixture P now = (\<lambda>(a, b, ha, hb). device_as P ''domain-a'' ''device-a'' a \<and> device_as P ''domain-a'' ''device-b'' b \<and>
     hello_as P a ''session-a'' ''device-b'' ''grant-a'' now ha \<and> hello_as P b ''session-a'' ''device-a'' ''grant-a'' now hb)"

lemma helloPair:
  assumes "sdk_laws P" "year_ok now"
  shows "achieves (helloPair P now) 128 (hello_fixture P now)"
  unfolding helloPair_def
  apply (rule achieves_then[OF new_device[OF assms(1)]], simp, rule achieves_then[OF new_device[OF assms(1)]], simp)
  apply (rule achieves_then[OF create_hello[OF assms]], simp, rule achieves_then[OF create_hello[OF assms]], simp)
  by (rule achieves_give[OF refl]) (simp_all add: hello_fixture_def device_as_def)

definition ready_fixture :: "Device \<times> Device \<times> State \<times> State \<Rightarrow> bool" where
  "ready_fixture = (\<lambda>(a, b, sa, sb). ready_pair sa sb)"

lemma readySessionFixture:
  assumes "sdk_laws P" "year_ok now"
  shows "achieves (readySessionFixture P now) 128 ready_fixture"
  unfolding readySessionFixture_def
  apply (rule achieves_then[OF helloPair[OF assms]], simp)
  subgoal premises prems for h
  proof -
    obtain a b ha hb where h: "h = (a, b, ha, hb)" by (cases h) auto
    have f: "device_as P ''domain-a'' ''device-a'' a" "device_as P ''domain-a'' ''device-b'' b" "''device-a'' \<noteq> ''device-b''"
      "hello_as P a ''session-a'' ''device-b'' ''grant-a'' now ha" "hello_as P b ''session-a'' ''device-a'' ''grant-a'' now hb"
      using prems by (simp_all add: h hello_fixture_def)
    obtain sa sb ra rb where s: "Establish P ha (LH_Hello hb) (Dev_Identity a) (Dev_Identity b) = Inr sa"
      "Establish P hb (LH_Hello ha) (Dev_Identity b) (Dev_Identity a) = Inr sb"
      "CreateReady P sa a = Inr ra" "CreateReady P sb b = Inr rb"
      "VerifyReady P sa rb (Dev_Identity b) = Inr (sa\<lparr>St_ready := True\<rparr>)" "VerifyReady P sb ra (Dev_Identity a) = Inr (sb\<lparr>St_ready := True\<rparr>)"
      "ready_pair (sa\<lparr>St_ready := True\<rparr>) (sb\<lparr>St_ready := True\<rparr>)"
      by (rule open_session[OF assms(1) f], rule that)
    show ?thesis
      unfolding h prod.case
      by (rule achieves_then_give[OF s(1)], rule achieves_then_give[OF s(2)], rule achieves_then_give[OF s(3)], rule achieves_then_give[OF s(4)],
          rule achieves_then_give[OF s(5)], rule achieves_then_give[OF s(6)], rule achieves_give[OF refl])
        (simp_all add: ready_fixture_def s(7))
  qed
  done

lemma metadata_only_fine: "\<exists>d. raw_doc metadata_only = Inr d \<and> doc_ok d \<and> is_ok (doc_value d)"
proof -
  let ?d = "DObj [(''metadata_only'', DBool True)]"
  have e: "metadata_only = Some (encode ?d)" by code_simp
  have "doc_ok ?d" "doc_depth ?d \<le> maxNestingDepth" by (simp_all add: maxNestingDepth_def)
  then have "raw_doc metadata_only = Inr (valid_doc ?d)" unfolding e by (rule raw_encode)
  then show ?thesis by simp
qed

lemma fixture_bundle_signs:
  assumes "case_instants now"
  shows "\<exists>b. SignBundle P issuer (fixture_bundle watch tp now) = Inr b"
  using bundle_signs[of "fixture_bundle watch tp now"] case_instantsD[OF assms] metadata_only_fine
  by (auto simp: fixture_bundle_def)

definition bundle_fixture :: "prims \<Rightarrow> time \<Rightarrow> LocalChannel \<times> Device \<times> Device \<times> Device \<times> Bundle \<Rightarrow> bool" where
  "bundle_fixture P now = (\<lambda>(channel, issuer, watch, other, bundle). ID_DeviceID (Dev_Identity other) = ''watch-b'' \<and>
     (\<forall>ch loc. ApplyBundle P ch loc bundle (Dev_Identity issuer) now = Inr () \<longrightarrow> LC_Ready ch \<and> ID_DeviceID loc = ''watch-a''))"

lemma bundleFixture:
  assumes "sdk_laws P" "case_instants now"
  shows "achieves (bundleFixture P now) 160 (bundle_fixture P now)"
  unfolding bundleFixture_def
  apply (rule achieves_then[OF new_device[OF assms(1)]], simp, rule achieves_then[OF new_device[OF assms(1)]], simp)
  apply (rule achieves_then[OF new_device[OF assms(1)]], simp, rule achieves_then[OF local_channel[OF assms(1)]], simp)
  subgoal premises prems for issuer watch other channel
  proof -
    obtain tp where tp: "identity_Thumbprint P (Dev_Identity watch) = Inr tp" using device_thumbprint[OF prems(2)] by blast
    obtain b where b: "SignBundle P issuer (fixture_bundle (Dev_Identity watch) tp now) = Inr b"
      using fixture_bundle_signs[OF assms(2)] by blast
    have d: "device_ok P issuer" "ID_DeviceID (Dev_Identity watch) = ''watch-a''" "ID_DeviceID (Dev_Identity other) = ''watch-b''"
      using prems(1-3) by (simp_all add: device_as_def)
    have q: "bundle_fixture P now (channel, issuer, watch, other, b)"
      unfolding bundle_fixture_def prod.case SignBundle_apply[OF sdk_lawsD(1)[OF assms(1)] d(1) b]
      using d(2,3) by (simp add: fixture_bundle_def)
    show ?thesis
      by (rule achieves_then_give[OF tp], rule achieves_then_give[OF b], rule achieves_give[OF refl]) (simp_all add: q)
  qed
  done

section \<open>P0 core\<close>

lemma identity_proof_passes:
  assumes "sdk_laws P" "case_instants now"
  shows "passes (caseIdentityProofValid P now) 32"
  unfolding caseIdentityProofValid_def
  apply (rule achieves_then[OF new_device[OF assms(1)]], simp)
  subgoal premises prems for dev
  proof -
    obtain p where p: "CreateProof P dev ''relay-a'' ''challenge-a'' ''nonce-a'' now = Inr p"
      using CreateProof_ok[OF case_instantsD(1)[OF assms(2)]] by blast
    have v: "VerifyProof P (Dev_Identity dev) p ''relay-a'' ''challenge-a'' now Minute = Inr ()"
      by (rule CreateProof_verifies[OF sdk_lawsD(1)[OF assms(1)] _ p]) (use prems in \<open>simp_all add: device_as_def Minute_def Second_def\<close>)
    show ?thesis by (rule achieves_then_give[OF p], rule achieves_then_give[OF v], rule achieves_give[OF refl]) simp_all
  qed
  done

lemma case_descriptor_valid:
  assumes "device_as P dm i signer" "case_instants now"
  shows "relay_valid (case_descriptor (Dev_Identity signer) now)"
proof -
  have "\<exists>x. PK_KID (ID_PublicKey (Dev_Identity signer)) = Base64URL x" "\<exists>x. PK_Public (ID_PublicKey (Dev_Identity signer)) = Base64URL x"
    using assms(1) by (auto simp: device_as_def device_ok_def Let_def Thumbprint_def)
  then show ?thesis
    using case_instantsD[OF assms(2)] valid_Base64URL by (auto simp: relay_valid_def case_descriptor_def key_valid_def metadata_valid_def)
qed

lemma descriptor_passes:
  assumes "sdk_laws P" "case_instants now"
  shows "passes (caseDescriptorValid P now) 32"
  unfolding caseDescriptorValid_def
  apply (rule achieves_then[OF new_device[OF assms(1)]], simp)
  subgoal premises prems for signer
  proof -
    let ?r = "case_descriptor (Dev_Identity signer) now"
    note v = case_descriptor_valid[OF prems assms(2)]
    have t: "RD_Type ?r = relay_type" "RD_Metadata ?r = []" "now \<le> RD_ExpiresAt ?r"
      by (simp_all add: case_descriptor_def relay_type_def Add_def Hour_def Minute_def Second_def)
    obtain sd pin where sd: "Sign P signer relay_type (json_object (relay_fields ?r)) now = Inr sd" "Pin P sd = Inr pin"
      using relay_signs[OF v t(2) case_instantsD(1)[OF assms(2)]] by blast
    have "device_ok P signer" "ValidateGate (DefaultGate ProfileProduction) = Inr ()"
      using prems by (simp_all add: device_as_def DefaultGate_valid)
    then have ver: "Verify P sd (Dev_Identity signer) (DefaultGate ProfileProduction) now = Inr ()"
      using Sign_Verify_relay[OF sdk_lawsD(1,2)[OF assms(1)] _ v sd(1)] t(3) by simp
    show ?thesis
      unfolding Let_def t(1)
      by (rule achieves_then_give[OF sd(1)], rule achieves_then_give[OF ver], rule achieves_then_give[OF sd(2)], rule achieves_give[OF refl]) simp_all
  qed
  done

lemma fixture_admits:
  "grant_admits (fixture_grant subject tp now) o' \<longleftrightarrow> now - Minute \<le> VO_Now o' \<and> VO_Now o' < now + Hour \<and>
     VO_Audience o' = ''device-b'' \<and> VO_SubjectDeviceID o' = ID_DeviceID subject \<and> VO_ConfirmationThumbprint o' = tp \<and>
     VO_Permission o' = ''text'' \<and> VO_RelayID o' = ''relay-a'' \<and> VO_CurrentRevocationEpoch o' \<le> 1"
  by (auto simp: grant_admits_def fixture_grant_def Add_def)

lemma grant_fixtureE:
  assumes "grant_fixture P now f"
  obtains issuer subject grant tp where "f = (issuer, subject, grant, fixture_options (Dev_Identity subject) (Base64URL tp) now)"
    "\<And>o'. VerifyGrant P grant (Dev_Identity issuer) o' = Inr () \<longleftrightarrow> grant_admits (fixture_grant (Dev_Identity subject) (Base64URL tp) now) o'"
  using assms by (cases f) (auto simp: grant_fixture_def)

lemma trust_grant_passes:
  assumes "sdk_laws P" "case_instants now"
  shows "passes (caseTrustGrantValid P now) 64"
  unfolding caseTrustGrantValid_def
  apply (rule achieves_then[OF validGrantFixture[OF assms]], simp)
  subgoal premises prems for f
  proof -
    obtain issuer subject grant tp where f: "f = (issuer, subject, grant, fixture_options (Dev_Identity subject) (Base64URL tp) now)"
      "\<And>o'. VerifyGrant P grant (Dev_Identity issuer) o' = Inr () \<longleftrightarrow> grant_admits (fixture_grant (Dev_Identity subject) (Base64URL tp) now) o'"
      by (rule grant_fixtureE[OF prems], rule that)
    have v: "VerifyGrant P grant (Dev_Identity issuer) (fixture_options (Dev_Identity subject) (Base64URL tp) now) = Inr ()"
      unfolding f(2) fixture_admits by (simp add: fixture_options_def Hour_def Minute_def Second_def)
    show ?thesis unfolding f(1) prod.case by (rule achieves_then_give[OF v], rule achieves_give[OF refl]) simp_all
  qed
  done

lemma session_ready_passes:
  assumes "sdk_laws P" "case_instants now"
  shows "passes (caseSessionReadyValid P now) 128"
  unfolding caseSessionReadyValid_def
  by (rule achieves_then[OF readySessionFixture[OF assms(1) case_instantsD(1)[OF assms(2)]]])
     (auto simp: ready_fixture_def ready_pair_def Ready_method_def intro!: achieves_give)

text \<open>The ciphertext is base64url text, in which no blank occurs.\<close>

lemma no_blank_base64: "\<not> contains_sub (p @ CHR '' '' # q) (Base64URL b)"
proof
  have s: "starts_with p s \<Longrightarrow> set p \<subseteq> set s" for p s by (induction p s rule: starts_with.induct) auto
  have c: "contains_sub p s \<Longrightarrow> set p \<subseteq> set s" for p s
    using s by (induction p s rule: contains_sub.induct) fastforce+
  assume "contains_sub (p @ CHR '' '' # q) (Base64URL b)"
  then have "CHR '' '' \<in> set (Base64URL b)" by (auto dest!: c)
  then have "b64_text (CHR '' '')" by (rule b64_text_Base64URL)
  then show False by code_simp
qed

lemma envelope_passes:
  assumes "sdk_laws P" "case_instants now"
  shows "passes (caseEnvelopeE2EValid P now) 128"
  unfolding caseEnvelopeE2EValid_def
  apply (rule achieves_then[OF readySessionFixture[OF assms(1) case_instantsD(1)[OF assms(2)]]], simp)
  subgoal premises prems for f
  proof -
    obtain a b sa sb where f: "f = (a, b, sa, sb)" by (cases f) auto
    let ?route = "\<lparr>Rt_RelayID = ''relay-a'', Rt_TTLSeconds = 60, Rt_Priority = 1\<rparr>"
    have r: "ready_pair sa sb" "route_ok ?route" using prems by (simp_all add: f ready_fixture_def route_ok_def int64_ok_def)
    obtain body where body: "EncodeText ''conformance payload'' = Inr body" using EncodeText_ok by blast
    obtain e a' b' where e: "Encrypt P (Some sa) ''msg-e2e'' TypeText ?route body = (Inr e, a')" "\<exists>ct. Env_Ciphertext e = Base64URL ct"
      "Decrypt P (Some sb) e = (Inr body, Some b')"
      by (rule send_payload[OF assms(1) r], rule that)
    have nb: "\<not> contains_sub ''conformance payload'' (Env_Ciphertext e)"
      using no_blank_base64[of "''conformance''" "''payload''"] e(2) by auto
    have e': "fst (Encrypt P (Some sa) ''msg-e2e'' TypeText ?route body) = Inr e" "fst (Decrypt P (Some sb) e) = Inr body"
      by (simp_all add: e)
    have t: "DecodeText body = Inr \<lparr>Text_Text = ''conformance payload''\<rparr>" using text_roundtrip[OF body] by (simp add: to_valid_ascii)
    show ?thesis
      unfolding f prod.case
      by (rule achieves_then_give[OF body], rule achieves_then_give[OF e'(1)], subst if_not_P[OF nb], rule achieves_then_give[OF e'(2)],
          rule achieves_then_give[OF t], rule achieves_give) simp_all
  qed
  done

lemma provisioning_passes:
  assumes "sdk_laws P" "case_instants now"
  shows "passes (caseProvisioningValid P now) 128"
  unfolding caseProvisioningValid_def
  apply (rule achieves_then[OF new_device[OF assms(1)]], simp, rule achieves_then[OF new_device[OF assms(1)]], simp)
  subgoal premises prems for phone watch
  proof -
    have d: "device_ok P phone" "ID_DeviceID (Dev_Identity watch) = ''watch-a''" using prems by (simp_all add: device_as_def)
    note sig = sdk_lawsD(1)[OF assms(1)] and y = case_instantsD[OF assms(2)]
    obtain t where t: "SignTicket P phone (case_ticket ''ticket-a'' now (Add now Minute)) = Inr t"
      using SignTicket_ok[of "case_ticket ''ticket-a'' now (Add now Minute)"] y by (auto simp: case_ticket_def int64_ok_def)
    have v: "VerifyTicket P t (Dev_Identity phone) now = Inr ()"
      unfolding SignTicket_verify[OF sig d(1) t] by (simp add: case_ticket_def Add_def Minute_def Second_def)
    have c: "fst (Consume NewTicketStore t) = Inr ()"
      using t by (auto simp: SignTicket_def Let_def and_then_Inr_iff case_ticket_def Consume_def consume_def NewTicketStore_def map_int_def)
    obtain tp where tp: "identity_Thumbprint P (Dev_Identity watch) = Inr tp" using device_thumbprint[OF prems(2)] by blast
    obtain b where b: "SignBundle P phone (fixture_bundle (Dev_Identity watch) tp now) = Inr b"
      using fixture_bundle_signs[OF assms(2)] by blast
    have ap: "ApplyBundle P ch (Dev_Identity watch) b (Dev_Identity phone) now = Inr ()" if "LC_Ready ch" for ch
      unfolding SignBundle_apply[OF sig d(1) b] using that tp by (simp add: fixture_bundle_def Add_def Minute_def Second_def)
    show ?thesis
      apply (rule achieves_then_give[OF t], rule achieves_then_give[OF v], rule achieves_then_give[OF c])
      apply (rule achieves_then[OF local_channel[OF assms(1)]], simp)
      by (rule achieves_then_give[OF tp], rule achieves_then_give[OF b], rule achieves_then_give[OF ap], assumption, rule achieves_give[OF refl]) simp_all
  qed
  done

lemma ticket3_passes:
  assumes "sdk_laws P" "case_instants now"
  shows "passes (caseTicketV3Valid P now) 96"
  unfolding caseTicketV3Valid_def
  apply (rule achieves_then[OF new_device[OF assms(1)]], simp, rule achieves_then[OF new_device[OF assms(1)]], simp)
  apply (rule achieves_then[OF new_device[OF assms(1)]], simp)
  subgoal premises prems for issuer controller agent
  proof -
    let ?t = "case_ticket3 (ID_DeviceID (Dev_Identity controller)) 1 now (Add now (10 * Minute))"
    have d: "device_ok P issuer" "ID_DeviceID (Dev_Identity controller) = ''phone-1''" "ID_DomainID (Dev_Identity agent) = ''domain-a''"
      "ID_DeviceID (Dev_Identity agent) = ''agent-1''" using prems by (simp_all add: device_as_def)
    note sig = sdk_lawsD(1)[OF assms(1)] and y = case_instantsD[OF assms(2)]
    obtain t where t: "SignTicketV3 P issuer ?t = Inr t" using SignTicketV3_ok[of ?t] y by (auto simp: case_ticket3_def int64_ok_def)
    have v: "VerifyTicketV3 P t (Dev_Identity issuer) (Add now Minute) = Inr ()"
      unfolding SignTicketV3_verify[OF sig d(1) t]
      using d(2) by (simp add: ticket3_admits_def case_ticket3_def Add_def Minute_def Second_def)
    obtain tp where tp: "identity_Thumbprint P (Dev_Identity agent) = Inr tp" using device_thumbprint[OF prems(3)] by blast
    have f: "T3_DomainID t = ''domain-a''" "T3_GrantAudience t = ''phone-1''"
      using t d(2) by (auto simp: SignTicketV3_def Let_def and_then_Inr_iff case_ticket3_def)
    obtain b where b: "BindGrantRoles P t (Dev_Identity agent) = Inr b" using tp f d(3,4) by (simp add: BindGrantRoles_def)
    show ?thesis
      by (rule achieves_then_give[OF t], rule achieves_then_give[OF v], rule achieves_then_give[OF b], rule achieves_give[OF refl]) simp_all
  qed
  done

lemma truncate_bounds: "now - Second < Truncate now Second" "Truncate now Second \<le> now"
  by (auto simp: Truncate_def Second_def minus_mod_eq_div_mult [symmetric])

lemma reopen_passes:
  assumes "sdk_laws P" "case_instants now"
  shows "passes (caseSessionReopenValid P now) 80"
  unfolding caseSessionReopenValid_def
  apply (rule achieves_then[OF new_device[OF assms(1)]], simp, rule achieves_then[OF new_device[OF assms(1)]], simp)
  apply (rule achieves_then[OF create_reopen[OF _ case_instantsD(7,8)[OF assms(2)]]], simp add: validCause_def, simp)
  subgoal premises prems for phone agent reopen
  proof -
    have d: "device_ok P phone" "ID_DomainID (Dev_Identity phone) = ''domain-a''" using prems by (simp_all add: device_as_def)
    obtain draw where c: "CreateReopen P draw phone ''reopen-1'' (ID_DeviceID (Dev_Identity agent)) ''relay-a'' CauseRuntimeStarted now = Inr reopen"
      using prems(3) by blast
    have v: "VerifyReopen P reopen (Dev_Identity phone)
        \<lparr>RV_LocalDeviceID = ID_DeviceID (Dev_Identity agent), RV_DomainID = ''domain-a'', RV_RelayID = ''relay-a'', RV_Now = Add now (2 * Second)\<rparr> = Inr ()"
      unfolding CreateReopen_verify[OF sdk_lawsD(1)[OF assms(1)] d(1) c] using d(2) truncate_bounds[of now]
      by (simp add: frame_admits_def in_control_window_def Add_def ControlFrameClockSkew_def ControlFrameMaxTTL_def Second_def)
    show ?thesis by (rule achieves_then_give[OF v], rule achieves_give[OF refl]) simp_all
  qed
  done

lemma recovery_passes:
  assumes "sdk_laws P"
  shows "passes (caseRecoverySealValid P) 76"
  unfolding caseRecoverySealValid_def
  apply (rule achieves_then[OF session_key[OF assms]], simp)
  subgoal premises prems for k
  proof -
    obtain priv pub where k: "k = (priv, pub)" by force
    obtain r r' where g: "GenerateSessionKey P r = (Inr (priv, pub), r')" using prems by (auto simp: k)
    show ?thesis
      unfolding k prod.case Let_def
      apply (rule achieves_then[OF seal[OF assms g]], simp)
      subgoal premises w for wrapped
      proof -
        have o: "Open P wrapped priv (Base64URL (xpub_key pub)) (Transcript ''domain-a'' ''device-a'' ''thumbprint-a'') = Inr credential_text"
          using w Open_Seal[OF sdk_lawsD(3,5)[OF assms] g] by blast
        show ?thesis by (rule achieves_then_give[OF o], rule achieves_give) simp_all
      qed
      done
  qed
  done

section \<open>P0 security negative\<close>

lemma unsafe_profile_passes: "passes caseProductionProfileRejectsUnsafe 0"
  unfolding caseProductionProfileRejectsUnsafe_def by (rule refused_passes) (simp_all add: ValidateGate_def)

lemma unsigned_descriptor_passes:
  assumes "sdk_laws P" "case_instants now"
  shows "passes (caseUnsignedDescriptorRejected P now) 32"
  unfolding caseUnsignedDescriptorRejected_def Let_def
  apply (rule achieves_then[OF new_device[OF assms(1)]], simp)
  subgoal premises prems for signer
  proof -
    let ?r = "\<lparr>RD_Type = ''iscp.relay.descriptor.v2'', RD_RelayID = ''relay-a'', RD_DomainID = ''domain-a'',
           RD_BaseURL = ''https://relay-a.example.invalid'', RD_WebSocketURL = [], RD_SigningKeys = None, RD_IssuedAt = now,
           RD_ExpiresAt = Add now Hour, RD_Metadata = []\<rparr>"
    have "relay_valid ?r" using case_instantsD[OF assms(2)] by (simp add: relay_valid_def metadata_valid_def)
    then have m: "json_Marshal (json_object (relay_fields ?r)) = Inr (encode (relay_doc ?r))"
      by (simp add: relay_doc_marshal json_Marshal_def)
    show ?thesis
      by (rule achieves_then_give[OF m], rule refused_passes) (simp_all add: Verify_def no_signature_def DefaultGate_def and_then_Inr_iff)
  qed
  done

lemma wrong_challenge_passes:
  assumes "sdk_laws P" "case_instants now"
  shows "passes (caseProofWrongChallengeRejected P now) 32"
  unfolding caseProofWrongChallengeRejected_def
  apply (rule achieves_then[OF new_device[OF assms(1)]], simp)
  subgoal premises prems for dev
  proof -
    obtain p where p: "CreateProof P dev ''relay-a'' ''challenge-a'' ''nonce-a'' now = Inr p"
      using CreateProof_ok[OF case_instantsD(1)[OF assms(2)]] by blast
    then have "DP_Challenge p = ''challenge-a''" by (auto simp: CreateProof_def Let_def and_then_Inr_iff)
    then have "VerifyProof P (Dev_Identity dev) p ''relay-a'' ''challenge-b'' now Minute \<noteq> Inr ()" by (simp add: VerifyProof_def)
    then show ?thesis by (intro achieves_then_give[OF p] refused_passes) simp_all
  qed
  done

text \<open>A grant checked under options that its fields do not admit.\<close>

lemma grant_reject_passes:
  assumes "sdk_laws P" "case_instants now"
    and "\<And>subject tp. \<not> grant_admits (fixture_grant subject (Base64URL tp) now) (mutate (fixture_options subject (Base64URL tp) now))"
  shows "passes (expectGrantReject P now mutate message) 64"
  unfolding expectGrantReject_def
  apply (rule achieves_then[OF validGrantFixture[OF assms(1,2)]], simp)
  subgoal premises prems for f
  proof -
    obtain issuer subject grant tp where f: "f = (issuer, subject, grant, fixture_options (Dev_Identity subject) (Base64URL tp) now)"
      "\<And>o'. VerifyGrant P grant (Dev_Identity issuer) o' = Inr () \<longleftrightarrow> grant_admits (fixture_grant (Dev_Identity subject) (Base64URL tp) now) o'"
      by (rule grant_fixtureE[OF prems], rule that)
    show ?thesis unfolding f(1) prod.case by (rule refused_passes) (simp_all add: f(2) assms(3))
  qed
  done

lemma not_base64: "''wrong-cnf'' \<noteq> Base64URL b"
proof
  assume "''wrong-cnf'' = Base64URL b"
  from arg_cong[OF this, of length] have "(4 * length b + 2) div 3 = 9" by (simp add: length_Base64URL)
  then show False by presburger
qed

lemma grant_cases_pass:
  assumes "sdk_laws P" "case_instants now"
  shows "passes (caseGrantWrongAudienceRejected P now) 64" "passes (caseGrantWrongCNFRejected P now) 64"
    "passes (caseGrantWrongPermissionRejected P now) 64" "passes (caseGrantWrongRelayRejected P now) 64"
    "passes (caseGrantRevokedEpochRejected P now) 64" "passes (caseGrantExpiredRejected P now) 64"
  unfolding caseGrantWrongAudienceRejected_def caseGrantWrongCNFRejected_def caseGrantWrongPermissionRejected_def
    caseGrantWrongRelayRejected_def caseGrantRevokedEpochRejected_def caseGrantExpiredRejected_def
  by (rule grant_reject_passes[OF assms], unfold fixture_admits,
      simp add: fixture_options_def not_base64 word_le_nat_alt Add_def Hour_def Minute_def Second_def)+

lemma early_payload_passes:
  assumes "sdk_laws P" "case_instants now"
  shows "passes (casePayloadBeforeReadyRejected P now) 128"
  unfolding casePayloadBeforeReadyRejected_def
  apply (rule achieves_then[OF helloPair[OF assms(1) case_instantsD(1)[OF assms(2)]]], simp)
  subgoal premises prems for h
  proof -
    obtain a b ha hb where h: "h = (a, b, ha, hb)" by (cases h) auto
    have f: "device_as P ''domain-a'' ''device-a'' a" "device_as P ''domain-a'' ''device-b'' b" "''device-a'' \<noteq> ''device-b''"
      "hello_as P a ''session-a'' ''device-b'' ''grant-a'' now ha" "hello_as P b ''session-a'' ''device-a'' ''grant-a'' now hb"
      using prems by (simp_all add: h hello_fixture_def)
    obtain sa where s: "Establish P ha (LH_Hello hb) (Dev_Identity a) (Dev_Identity b) = Inr sa" "fresh_state sa"
      by (rule open_session[OF assms(1) f], rule that)
    show ?thesis
      unfolding h prod.case
      by (rule achieves_then_give[OF s(1)], rule rejected_passes) (use s(2) in \<open>simp_all add: Encrypt_def Ready_method_def fresh_state_def\<close>)
  qed
  done

lemma replay_passes:
  assumes "sdk_laws P" "case_instants now"
  shows "passes (caseEnvelopeReplayRejected P now) 128"
  unfolding caseEnvelopeReplayRejected_def
  apply (rule achieves_then[OF readySessionFixture[OF assms(1) case_instantsD(1)[OF assms(2)]]], simp)
  subgoal premises prems for f
  proof -
    obtain a b sa sb where f: "f = (a, b, sa, sb)" by (cases f) auto
    let ?route = "\<lparr>Rt_RelayID = ''relay-a'', Rt_TTLSeconds = 60, Rt_Priority = 1\<rparr>"
    have r: "ready_pair sa sb" "route_ok ?route" using prems by (simp_all add: f ready_fixture_def route_ok_def int64_ok_def)
    obtain body where body: "EncodeText ''replay payload'' = Inr body" using EncodeText_ok by blast
    obtain e a' b' where e: "Encrypt P (Some sa) ''msg-replay'' TypeText ?route body = (Inr e, a')"
      "Decrypt P (Some sb) e = (Inr body, Some b')" "Decrypt P (Some b') e = (reject CodeReplayDetected ''duplicate envelope sequence'', Some b')"
      by (rule send_payload[OF assms(1) r], rule that)
    have e': "fst (Encrypt P (Some sa) ''msg-replay'' TypeText ?route body) = Inr e" by (simp add: e(1))
    show ?thesis
      unfolding f prod.case
      by (rule achieves_then_give[OF body], rule achieves_then_give[OF e'], unfold Let_def e(2) prod.case, rule achieves_then_give[OF refl],
          rule rejected_passes) (simp_all add: e(3))
  qed
  done

lemma expired_ticket_passes:
  assumes "sdk_laws P" "case_instants now"
  shows "passes (caseExpiredTicketRejected P now) 32"
  unfolding caseExpiredTicketRejected_def
  apply (rule achieves_then[OF new_device[OF assms(1)]], simp)
  subgoal premises prems for issuer
  proof -
    let ?t = "case_ticket ''ticket-expired'' (Add now (- 2 * Minute)) (Add now (- Minute))"
    obtain t where t: "SignTicket P issuer ?t = Inr t"
      using SignTicket_ok[of ?t] case_instantsD[OF assms(2)] by (auto simp: case_ticket_def int64_ok_def)
    have d: "device_ok P issuer" using prems by (simp add: device_as_def)
    have "VerifyTicket P t (Dev_Identity issuer) now \<noteq> Inr ()"
      unfolding SignTicket_verify[OF sdk_lawsD(1)[OF assms(1)] d t] by (simp add: case_ticket_def Add_def Minute_def Second_def)
    then show ?thesis by (intro achieves_then_give[OF t] refused_passes) simp_all
  qed
  done

lemma bundle_fixtureE:
  assumes "bundle_fixture P now f"
  obtains channel issuer watch other bun where "f = (channel, issuer, watch, other, bun)" "ID_DeviceID (Dev_Identity other) = ''watch-b''"
    "\<And>ch loc. ApplyBundle P ch loc bun (Dev_Identity issuer) now = Inr () \<Longrightarrow> LC_Ready ch \<and> ID_DeviceID loc = ''watch-a''"
proof -
  obtain channel issuer watch other bun where f: "f = (channel, issuer, watch, other, bun)" by (cases f) auto
  show thesis by (rule that[OF f]) (use assms in \<open>simp_all add: f bundle_fixture_def\<close>)
qed

lemma bundle_binding_passes:
  assumes "sdk_laws P" "case_instants now"
  shows "passes (caseBundleBindingRejected P now) 160"
  unfolding caseBundleBindingRejected_def
  apply (rule achieves_then[OF bundleFixture[OF assms]], simp)
  subgoal premises prems for f
  proof -
    obtain channel issuer watch other bun where f: "f = (channel, issuer, watch, other, bun)" "ID_DeviceID (Dev_Identity other) = ''watch-b''"
      "\<And>ch loc. ApplyBundle P ch loc bun (Dev_Identity issuer) now = Inr () \<Longrightarrow> LC_Ready ch \<and> ID_DeviceID loc = ''watch-a''"
      by (rule bundle_fixtureE[OF prems], rule that)
    show ?thesis unfolding f(1) prod.case by (rule refused_passes) (use f(2) f(3)[of channel "Dev_Identity other"] in auto)
  qed
  done

lemma bundle_not_ready_passes:
  assumes "sdk_laws P" "case_instants now"
  shows "passes (caseBundleNotReadyRejected P now) 160"
  unfolding caseBundleNotReadyRejected_def
  apply (rule achieves_then[OF bundleFixture[OF assms]], simp)
  subgoal premises prems for f
  proof -
    obtain channel issuer watch other bun where f: "f = (channel, issuer, watch, other, bun)" by (cases f) auto
    show ?thesis unfolding f prod.case by (rule rejected_passes) (simp_all add: ApplyBundle_def)
  qed
  done

lemma contains_self: "contains_sub s s"
proof -
  have "starts_with s s" by (induction s) auto
  then show ?thesis by (cases s) auto
qed

lemma secret_field:
  assumes "list_all (\<lambda>c. byte_val c < 128) key" "to_upper key \<in> set secretKeyPattern"
  shows "RedactKeyValue key v = LogString redacted"
  using assms contains_self[of "to_upper key"] by (auto simp: RedactKeyValue_def matches_secret_def fold_name_ascii list_ex_iff)

lemma secret_redaction_passes: "passes caseSecretRedaction 0"
proof -
  have "list_all (list_all (\<lambda>c. byte_val c < 128)) secret_fields" by code_simp
  moreover have u: "map to_upper secret_fields = [''PRIVATE_KEY'', ''ACCESS_TOKEN'', ''REFRESH_CREDENTIAL'', ''SESSION_KEY'', ''PAYLOAD_PLAINTEXT'']"
    by code_simp
  have "set (map to_upper secret_fields) \<subseteq> set secretKeyPattern"
    unfolding u by (simp add: secretKeyPattern_def optional_separator_def)
  ultimately have "RedactKeyValue key v = LogString redacted" if "key \<in> set secret_fields" for key and v :: "unit log_value"
    using that by (intro secret_field) (auto simp: list_all_iff)
  then have "filter (\<lambda>key. RedactKeyValue key (LogString ''secret-value'' :: unit log_value) \<noteq> LogString ''[REDACTED]'') secret_fields = []"
    by (simp add: filter_empty_conv redacted_def)
  then show ?thesis unfolding caseSecretRedaction_def by (intro achieves_give) simp_all
qed

lemma drawn_device:
  assumes "32 \<le> length r"
  obtains d where "NewDevice P r dm i now = (Inr d, drop 32 r)"
    "PK_KID (ID_PublicKey (Dev_Identity d)) = Thumbprint P ''Ed25519'' (ed_public P (take 32 r))"
    "PK_Public (ID_PublicKey (Dev_Identity d)) = Base64URL (ed_public P (take 32 r))" "PK_KTY (ID_PublicKey (Dev_Identity d)) = ''Ed25519''"
  using assms by (simp add: NewDevice_def GenerateIdentityKey_def ReadFull_def Let_def)

lemma forged_kid_refused:
  assumes "DecodeBase64URL (PK_Public (ID_PublicKey i)) = Inr pub" "PK_KID (ID_PublicKey i) \<noteq> Thumbprint P (PK_KTY (ID_PublicKey i)) pub"
  shows "\<exists>err. VerifyProof P i p audience challenge now ttl = Inl err"
  using assms by (simp add: VerifyProof_def)

text \<open>The forged key id is refused as soon as the two drawn keys have different thumbprints.\<close>

lemma forged_kid_passes:
  assumes "sdk_laws P" "case_instants now" "64 \<le> length r"
    and "Thumbprint P ''Ed25519'' (ed_public P (take 32 r)) \<noteq> Thumbprint P ''Ed25519'' (ed_public P (take 32 (drop 32 r)))"
  shows "caseForgedKIDRejected P now r = (Inr [(''rejected'', ''kid_thumbprint_mismatch'')], drop 64 r)"
proof -
  obtain d where d: "NewDevice P r ''domain-a'' ''device-a'' now = (Inr d, drop 32 r)"
    "PK_KID (ID_PublicKey (Dev_Identity d)) = Thumbprint P ''Ed25519'' (ed_public P (take 32 r))"
    by (rule drawn_device[of r]) (use assms(3) in auto)
  have "32 \<le> length (drop 32 r)" using assms(3) by simp
  then obtain e where "NewDevice P (drop 32 r) ''domain-a'' ''device-a'' now = (Inr e, drop 32 (drop 32 r))"
    and e: "PK_Public (ID_PublicKey (Dev_Identity e)) = Base64URL (ed_public P (take 32 (drop 32 r)))" "PK_KTY (ID_PublicKey (Dev_Identity e)) = ''Ed25519''"
    by (rule drawn_device)
  then have e0: "NewDevice P (drop 32 r) ''domain-a'' ''device-a'' now = (Inr e, drop 64 r)" by simp
  obtain p where p: "CreateProof P e ''relay-a'' ''challenge'' ''nonce'' now = Inr p"
    using CreateProof_ok[OF case_instantsD(1)[OF assms(2)]] by blast
  let ?kid = "PK_KID (ID_PublicKey (Dev_Identity d))"
  let ?forged = "(Dev_Identity e)\<lparr>ID_PublicKey := (ID_PublicKey (Dev_Identity e))\<lparr>PK_KID := ?kid\<rparr>\<rparr>"
  have f: "DecodeBase64URL (PK_Public (ID_PublicKey ?forged)) = Inr (ed_public P (take 32 (drop 32 r)))"
    "PK_KID (ID_PublicKey ?forged) \<noteq> Thumbprint P (PK_KTY (ID_PublicKey ?forged)) (ed_public P (take 32 (drop 32 r)))"
    using assms(4) by (simp_all add: e d(2))
  obtain err where "VerifyProof P ?forged (p\<lparr>DP_Signature := (DP_Signature p)\<lparr>Sig_KID := ?kid\<rparr>\<rparr>) ''relay-a'' ''challenge'' now Minute = Inl err"
    using forged_kid_refused[OF f] by blast
  with d(1) e0 p show ?thesis
    by (simp add: caseForgedKIDRejected_def then_do_def new_device_def give_def Let_def expect_rejected_def)
qed

lemma audience_reversal_passes:
  assumes "sdk_laws P"
  shows "passes (caseTicketAudienceReversalRejected P now) 32"
  unfolding caseTicketAudienceReversalRejected_def
  by (rule achieves_then[OF new_device[OF assms]], simp, rule rejected_passes) (simp_all add: BindGrantRoles_def case_ticket3_def device_as_def)

lemma reopen_window_passes:
  assumes "sdk_laws P" "case_instants now"
  shows "passes (caseReopenWindowRejected P now) 48"
  unfolding caseReopenWindowRejected_def
  apply (rule achieves_then[OF new_device[OF assms(1)]], simp)
  apply (rule achieves_then[OF create_reopen[OF _ case_instantsD(7,8)[OF assms(2)]]], simp add: validCause_def, simp)
  subgoal premises prems for phone reopen
  proof -
    have d: "device_ok P phone" using prems by (simp add: device_as_def)
    obtain draw where c: "CreateReopen P draw phone ''reopen-1'' ''agent-1'' ''relay-a'' CauseForegroundRecovery now = Inr reopen"
      using prems(2) by blast
    show ?thesis
      by (rule refused_passes, unfold CreateReopen_verify[OF sdk_lawsD(1)[OF assms(1)] d c]) (use truncate_bounds[of now] in
        \<open>simp_all add: frame_admits_def in_control_window_def Add_def ControlFrameClockSkew_def ControlFrameMaxTTL_def Second_def\<close>)
  qed
  done

section \<open>P1 feature\<close>

lemma sort_pair:
  assumes "sorts srt" "weak_order lt" "lt y x"
  shows "srt lt [x, y] = [y, x]"
proof -
  note s = sortsD[OF assms(1,2), of "[x, y]"]
  obtain a b where ab: "srt lt [x, y] = [a, b]" using s(3) by (auto simp: length_Suc_conv)
  have "{#a, b#} = {#x, y#}" "\<not> lt b a" using s(1,4) by (simp_all add: ab)
  then have "(a = x \<and> b = y) \<or> (a = y \<and> b = x)" by (auto simp: add_eq_conv_ex)
  with \<open>\<not> lt b a\<close> assms(3) ab show ?thesis by auto
qed

lemma dequeue_pair:
  assumes "live now (Q_messages q) = [x, y]" "matches_for domainID rcpt x" "matches_for domainID rcpt y" "srt message_less [x, y] = [y, x]"
  shows "fst (DequeueFor srt q domainID rcpt now 10) = [y, x]"
  using assms by (simp add: DequeueFor_def Let_def)

lemma queue_passes:
  assumes "sorts srt" "now \<noteq> 0"
  shows "passes (caseQueueTTLAndPriority srt now) 0"
proof -
  let ?low = "(case_message ''low'' (id_text ''low'') 1 (Add now Minute))\<lparr>Msg_QueuedAt := now\<rparr>"
  let ?high = "(case_message ''high'' (id_text ''high'') 9 (Add now Minute))\<lparr>Msg_QueuedAt := now\<rparr>"
  have "message_less ?high ?low" by (simp add: message_less_def queue_less_def case_message_def)
  then have s: "srt message_less [?low, ?high] = [?high, ?low]" by (rule sort_pair[OF assms(1) weak_order_message])
  let ?gone = "(case_message ''expired'' (id_text ''expired'') 10 (Add now (- Second)))\<lparr>Msg_QueuedAt := now\<rparr>"
  note d = Enqueue_def dropExpiredLocked_def recalculateBytesLocked_def live_def NewQueue_def Let_def case_message_def id_text_def After_def
    IsZero_def Add_def Minute_def Second_def
  have l: "live now [?low, ?high, ?gone] = [?low, ?high]" by (simp add: d)
  have q: "Enqueue (NewQueue 1024) (case_message ''low'' (id_text ''low'') 1 (Add now Minute)) now = (True, \<lparr>Q_messages = [?low], Q_maxBytes = 1024, Q_currentBytes = 12\<rparr>)"
    "Enqueue \<lparr>Q_messages = [?low], Q_maxBytes = 1024, Q_currentBytes = 12\<rparr> (case_message ''high'' (id_text ''high'') 9 (Add now Minute)) now =
       (True, \<lparr>Q_messages = [?low, ?high], Q_maxBytes = 1024, Q_currentBytes = 25\<rparr>)"
    "Enqueue \<lparr>Q_messages = [?low, ?high], Q_maxBytes = 1024, Q_currentBytes = 25\<rparr> (case_message ''expired'' (id_text ''expired'') 10 (Add now (- Second))) now =
       (True, \<lparr>Q_messages = [?low, ?high, ?gone], Q_maxBytes = 1024, Q_currentBytes = 41\<rparr>)"
    by (simp_all add: d)
  have o: "fst (DequeueFor srt \<lparr>Q_messages = [?low, ?high, ?gone], Q_maxBytes = 1024, Q_currentBytes = 41\<rparr> ''domain-a'' ''device-b'' now 10) = [?high, ?low]"
  proof (rule dequeue_pair)
    show "live now (Q_messages \<lparr>Q_messages = [?low, ?high, ?gone], Q_maxBytes = 1024, Q_currentBytes = 41\<rparr>) = [?low, ?high]"
      by (simp add: l)
    show "matches_for ''domain-a'' ''device-b'' ?low" "matches_for ''domain-a'' ''device-b'' ?high" by (simp_all add: matches_for_def case_message_def)
    show "srt message_less [?low, ?high] = [?high, ?low]" by (rule s)
  qed
  let ?q1 = "(case_message ''q1'' ''1234567890'' 0 (Add now Minute))\<lparr>Msg_QueuedAt := now\<rparr>"
  let ?q2 = "(case_message ''q2'' ''abcdefghij'' 0 (Add now Minute))\<lparr>Msg_QueuedAt := now\<rparr>"
  have p: "Enqueue (NewQueue 20) (case_message ''q1'' ''1234567890'' 0 (Add now Minute)) now = (True, \<lparr>Q_messages = [?q1], Q_maxBytes = 20, Q_currentBytes = 10\<rparr>)"
    "Enqueue \<lparr>Q_messages = [?q1], Q_maxBytes = 20, Q_currentBytes = 10\<rparr> (case_message ''q2'' ''abcdefghij'' 0 (Add now Minute)) now =
       (True, \<lparr>Q_messages = [?q1, ?q2], Q_maxBytes = 20, Q_currentBytes = 20\<rparr>)"
    "fst (Enqueue \<lparr>Q_messages = [?q1, ?q2], Q_maxBytes = 20, Q_currentBytes = 20\<rparr> (case_message ''overflow'' ''overflow'' 0 (Add now Minute)) now) = False"
    by (simp_all add: d)
  have i: "Msg_MessageID ?high = ''high''" "Msg_MessageID ?low = ''low''" by (simp_all add: case_message_def)
  show ?thesis
    unfolding caseQueueTTLAndPriority_def Let_def q p split_beta fst_conv snd_conv o
    by (rule achieves_give) (simp_all add: i del: Message.update_convs)
qed

end
