(* ===== verification/Conformance_Guarantees.thy ===== *)
theory Conformance_Guarantees
  imports Conformance_Report Conformance_Laws
begin

text \<open>
  What a conformance report says: a run's report is accepted for release exactly when every case
  passed, and the library passes its P0 suites.
\<close>

section \<open>Counting\<close>

definition counted :: "SuiteReport \<Rightarrow> CaseReport list \<Rightarrow> bool" where
  "counted s cs \<longleftrightarrow> cs \<noteq> [] \<and> SRep_Cases s = Some cs \<and> SRep_CaseCount s = int (length cs) \<and> SRep_Passed s = status_count StatusPass cs \<and>
     SRep_Failed s = status_count StatusFail cs \<and> SRep_Skipped s = status_count StatusSkip cs \<and>
     (\<forall>c\<in>set cs. CRep_Status c \<in> {StatusPass, StatusFail, StatusSkip})"

definition all_pass :: "CaseReport list \<Rightarrow> bool" where
  "all_pass cs \<longleftrightarrow> (\<forall>c\<in>set cs. CRep_Status c = StatusPass)"

lemma status_distinct: "StatusPass \<noteq> StatusFail" "StatusPass \<noteq> StatusSkip" "StatusFail \<noteq> StatusSkip"
  by (simp_all add: StatusPass_def StatusFail_def StatusSkip_def)

lemma count_zero: "status_count st cs > 0 \<longleftrightarrow> (\<exists>c\<in>set cs. CRep_Status c = st)"
  by (auto simp: status_count_def filter_empty_conv)

lemma counted_all_pass:
  assumes "counted s cs"
  shows "all_pass cs \<longleftrightarrow> \<not> SRep_Failed s > 0 \<and> \<not> SRep_Skipped s > 0" "SRep_CaseCount s \<noteq> 0" "SRep_CaseCount s > 0"
proof -
  show "all_pass cs \<longleftrightarrow> \<not> SRep_Failed s > 0 \<and> \<not> SRep_Skipped s > 0"
    using assms status_distinct unfolding counted_def all_pass_def by (auto simp: count_zero)
  show "SRep_CaseCount s \<noteq> 0" "SRep_CaseCount s > 0" using assms by (simp_all add: counted_def)
qed

lemma counted_cases: "counted s cs \<Longrightarrow> the (SRep_Cases s) = cs"
  by (simp add: counted_def)

lemma counted_passed: "counted s cs \<Longrightarrow> all_pass cs \<Longrightarrow> SRep_Passed s = SRep_CaseCount s"
  by (auto simp: counted_def all_pass_def status_count_def)

lemma run_cases_status:
  "set (map CRep_Status (fst (run_cases cs b))) \<subseteq> {StatusPass, StatusFail, StatusSkip} \<and> length (fst (run_cases cs b)) = length cs"
proof (induction cs arbitrary: b)
  case (Cons c cs)
  obtain r b1 where r: "runCase c b = (r, b1)" by force
  obtain rs b2 where rs: "run_cases cs b1 = (rs, b2)" by force
  have "CRep_Status r \<in> {StatusPass, StatusFail, StatusSkip}"
    using r by (auto simp: runCase_def Let_def split: prod.splits sum.splits case_error.splits)
  with Cons[of b1] r rs show ?case by simp
qed simp

lemma runSuite_counted:
  assumes "runSuite i name pr req cases b = (s, b')" "cases \<noteq> []"
  shows "\<exists>cs. counted s cs" "SRep_ID s = i" "SRep_Priority s = pr"
proof -
  obtain cs b2 where c: "run_cases cases (snd (tick b)) = (cs, b2)" by force
  have "set (map CRep_Status cs) \<subseteq> {StatusPass, StatusFail, StatusSkip}" "length cs = length cases"
    using run_cases_status[of cases "snd (tick b)"] c by simp_all
  then have "counted s cs" using assms c by (auto simp: runSuite_def Let_def counted_def split_beta)
  then show "\<exists>cs. counted s cs" by blast
  show "SRep_ID s = i" "SRep_Priority s = pr" using assms(1) by (auto simp: runSuite_def Let_def split_beta)
qed

section \<open>The pass rate\<close>

lemma scale64_least:
  assumes "0 < p" "n \<le> m" "c * 2 ^ 52 \<le> p * 2 ^ m" "\<forall>k. n \<le> k \<and> k < m \<longrightarrow> \<not> c * 2 ^ 52 \<le> p * 2 ^ k"
  shows "scale64 p c n = m"
  using assms
proof (induction p c n rule: scale64.induct)
  case (1 p c n)
  show ?case
  proof (cases "n = m")
    case True
    then show ?thesis using 1 by (subst scale64.simps) simp
  next
    case False
    then have "\<not> c * 2 ^ 52 \<le> p * 2 ^ n" "Suc n \<le> m" using 1(3,5) by auto
    with 1 show ?thesis by (subst scale64.simps) auto
  qed
qed

lemma full_rate: "0 < n \<Longrightarrow> \<not> below_95 (quotient64 n n)"
proof -
  assume n: "0 < n"
  have "scale64 (nat n) (nat n) 0 = 52"
    by (rule scale64_least) (use n power_strict_increasing[of _ 52 "2 :: nat"] in \<open>auto simp: not_le\<close>)
  moreover have "div_even (nat n * 2 ^ 52) (nat n) = 2 ^ 52" using n by (simp add: div_even_def)
  ultimately show ?thesis using n by (simp add: quotient64_def below_95_def Let_def)
qed

section \<open>Validation of a counted report\<close>

lemma P0_suite_ok: "counted s cs \<Longrightarrow> ValidateP0_suite s = Inr () \<longleftrightarrow> all_pass cs"
  using counted_all_pass[of s cs] by (simp add: ValidateP0_suite_def errorf_def)

lemma release_suite_ok:
  assumes "counted s cs" "SRep_Priority s = PriorityP1"
  shows "ValidateRelease_suite s = Inr () \<longleftrightarrow> all_pass cs"
proof
  assume "ValidateRelease_suite s = Inr ()"
  then show "all_pass cs"
    using counted_all_pass[OF assms(1)] assms(2) by (auto simp: ValidateRelease_suite_def errorf_def Let_def split: if_splits)
next
  assume "all_pass cs"
  then show "ValidateRelease_suite s = Inr ()"
    using counted_all_pass[OF assms(1)] counted_passed[OF assms(1)] full_rate assms(2) by (simp add: ValidateRelease_suite_def Let_def)
qed

lemma release_P0_suite:
  assumes "counted s cs" "SRep_Priority s = PriorityP0" "all_pass cs"
  shows "ValidateRelease_suite s = Inr ()"
  using counted_all_pass[OF assms(1)] assms(2,3) by (simp add: ValidateRelease_suite_def PriorityP0_def PriorityP1_def)

lemma judge_good: "counted s cs \<Longrightarrow> all_pass cs \<Longrightarrow> judge_suite s r = r"
  using counted_all_pass[of s cs] by (simp add: judge_suite_def)

lemma judge_keeps [simp]:
  "Rep_Suites (judge_suite s r) = Rep_Suites r" "Rep_Type (judge_suite s r) = Rep_Type r" "Rep_Summary (judge_suite s r) = Rep_Summary r"
  by (simp_all add: judge_suite_def add_risk_def fail_report_def Let_def)

lemma add_fail_keeps [simp]:
  "Rep_Suites (add_risk x r) = Rep_Suites r" "Rep_Type (add_risk x r) = Rep_Type r" "Rep_Summary (add_risk x r) = Rep_Summary r"
  "Rep_Suites (fail_report r) = Rep_Suites r" "Rep_Type (fail_report r) = Rep_Type r" "Rep_Summary (fail_report r) = Rep_Summary r"
  by (simp_all add: add_risk_def fail_report_def)

text \<open>The shape of the report of a run.\<close>

definition run_shape :: "Report \<Rightarrow> SuiteReport list \<Rightarrow> bool" where
  "run_shape report suites \<longleftrightarrow> Rep_Type report = ReportType \<and> Rep_Suites report = Some suites \<and> Rep_Summary report = summarize suites \<and>
     map SRep_ID suites = [''p0_core'', ''p0_security_negative'', ''p1_feature'', ''service_interop'', ''cli_workflow''] \<and>
     map SRep_Priority suites = [PriorityP0, PriorityP0, PriorityP1, PriorityP1, PriorityP1] \<and>
     (\<forall>s\<in>set suites. \<exists>cs. counted s cs) \<and>
     ((\<forall>s\<in>set suites. \<forall>cs. counted s cs \<longrightarrow> all_pass cs) \<longrightarrow> Rep_Result report = StatusPass \<and> Rep_ReleaseDecision report = ''go'')"

lemma summarize_count:
  "Sum_CaseCount (summarize suites) = sum_list (map SRep_CaseCount suites)"
proof -
  have "Sum_CaseCount (fold (\<lambda>suite out. out\<lparr>Sum_CaseCount := Sum_CaseCount out + SRep_CaseCount suite, Sum_Passed := Sum_Passed out + SRep_Passed suite,
         Sum_Failed := Sum_Failed out + SRep_Failed suite, Sum_Skipped := Sum_Skipped out + SRep_Skipped suite\<rparr>) suites out) =
      Sum_CaseCount out + sum_list (map SRep_CaseCount suites)" for out :: Summary by (induction suites arbitrary: out) simp_all
  then show ?thesis by (simp add: summarize_def)
qed

lemma counted_count: "\<forall>s\<in>set suites. \<exists>cs. counted s cs \<Longrightarrow> suites \<noteq> [] \<Longrightarrow> sum_list (map SRep_CaseCount suites) > 0"
proof (induction suites)
  case (Cons s suites)
  then have "SRep_CaseCount s > 0" using counted_all_pass(3) by auto
  moreover have "0 \<le> sum_list (map SRep_CaseCount suites)" using Cons by (cases "suites = []") auto
  ultimately show ?case by simp
qed simp

lemma run_suites_shape:
  assumes "run_suites P srt env opts b = (suites, b')"
  shows "map SRep_ID suites = [''p0_core'', ''p0_security_negative'', ''p1_feature'', ''service_interop'', ''cli_workflow'']"
    "map SRep_Priority suites = [PriorityP0, PriorityP0, PriorityP1, PriorityP1, PriorityP1]" "\<forall>s\<in>set suites. \<exists>cs. counted s cs"
proof -
  obtain s1 b1 where s1: "runSuite ''p0_core'' ''P0 Core'' PriorityP0 True (p0CoreCases P (Op_Now opts)) b = (s1, b1)" by force
  obtain s2 b2 where s2: "runSuite ''p0_security_negative'' ''P0 Security Negative'' PriorityP0 True (p0SecurityCases P (Op_Now opts)) b1 = (s2, b2)" by force
  obtain s3 b3 where s3: "runSuite ''p1_feature'' ''P1 Feature'' PriorityP1 False (p1FeatureCases P srt (Op_Now opts)) b2 = (s3, b3)" by force
  obtain s4 b4 where s4: "runSuite ''service_interop'' ''Service Interoperability'' PriorityP1 False (serviceInteropCases P env opts) b3 = (s4, b4)" by force
  obtain s5 b5 where s5: "runSuite ''cli_workflow'' ''CLI Workflow'' PriorityP1 False (cliWorkflowCases opts) b4 = (s5, b5)" by force
  have s: "suites = [s1, s2, s3, s4, s5]" using assms by (simp add: run_suites_def s1 s2 s3 s4 s5)
  have ne: "p0CoreCases P t \<noteq> []" "p0SecurityCases P t \<noteq> []" "p1FeatureCases P srt t \<noteq> []" "serviceInteropCases P env opts \<noteq> []" "cliWorkflowCases opts \<noteq> []" for t
    by (simp_all add: p0CoreCases_def p0SecurityCases_def p1FeatureCases_def serviceInteropCases_def cliWorkflowCases_def)
  note c = runSuite_counted[OF s1 ne(1)] runSuite_counted[OF s2 ne(2)] runSuite_counted[OF s3 ne(3)] runSuite_counted[OF s4 ne(4)] runSuite_counted[OF s5 ne(5)]
  show "map SRep_ID suites = [''p0_core'', ''p0_security_negative'', ''p1_feature'', ''service_interop'', ''cli_workflow'']"
    "map SRep_Priority suites = [PriorityP0, PriorityP0, PriorityP1, PriorityP1, PriorityP1]" by (simp_all add: s c(2,3,5,6,8,9,11,12,14,15))
  show "\<forall>s\<in>set suites. \<exists>cs. counted s cs" using c(1,4,7,10,13) by (auto simp: s)
qed

lemma fold_judge_good:
  "\<forall>s\<in>set suites. \<exists>cs. counted s cs \<and> all_pass cs \<Longrightarrow> fold judge_suite suites r = r"
  by (induction suites arbitrary: r) (auto simp: judge_good)

lemma fold_judge_keeps:
  "Rep_Suites (fold judge_suite suites r) = Rep_Suites r" "Rep_Type (fold judge_suite suites r) = Rep_Type r"
  "Rep_Summary (fold judge_suite suites r) = Rep_Summary r"
  by (induction suites arbitrary: r) simp_all

lemma Run_shape:
  assumes "Run P srt env opts b = (report, b')"
  obtains suites o' b1 b2 where "default_options opts b = (o', b1)" "run_suites P srt env o' (snd (tick b1)) = (suites, b2)" "run_shape report suites"
proof -
  obtain o' b1 where o: "default_options opts b = (o', b1)" by force
  obtain start b2 where t: "tick b1 = (start, b2)" by force
  obtain suites b3 where s: "run_suites P srt env o' b2 = (suites, b3)" by force
  obtain stop b4 where t': "tick b3 = (stop, b4)" by force
  note sh = run_suites_shape[OF s]
  let ?r = "\<lparr>Rep_Type = ReportType, Rep_Version = Op_Version o', Rep_Protocol = ''v2'', Rep_GeneratedAt = Op_Now o',
     Rep_DurationMS = Milliseconds (Sub stop start), Rep_Result = StatusPass, Rep_ReleaseDecision = ''go'', Rep_Summary = summarize suites,
     Rep_Endpoints = [(''relay'', Op_RelayEndpoint o'), (''trust_root'', Op_TrustEndpoint o')], Rep_ResidualRisks = None, Rep_Suites = Some suites\<rparr>"
  have "suites \<noteq> []" using sh(1) by auto
  then have "Sum_CaseCount (summarize suites) \<noteq> 0" using counted_count[OF sh(3)] by (simp add: summarize_count)
  then have r: "report = fold judge_suite suites ?r"
    using assms by (simp add: Run_def o t s t' fold_judge_keeps)
  have go: "report = ?r" if "\<forall>s\<in>set suites. \<forall>cs. counted s cs \<longrightarrow> all_pass cs"
    unfolding r by (rule fold_judge_good) (use that sh(3) in blast)
  have k: "Rep_Type report = ReportType" "Rep_Suites report = Some suites" "Rep_Summary report = summarize suites"
    by (simp_all add: r fold_judge_keeps)
  have "(\<forall>s\<in>set suites. \<forall>cs. counted s cs \<longrightarrow> all_pass cs) \<longrightarrow> Rep_Result report = StatusPass \<and> Rep_ReleaseDecision report = ''go''"
    using go by simp
  with k sh have "run_shape report suites" unfolding run_shape_def by blast
  with that[OF o] t s show thesis by simp
qed

lemma five:
  assumes "map f xs = [a, b, c, d, e]"
  obtains x1 x2 x3 x4 x5 where "xs = [x1, x2, x3, x4, x5]"
  using assms by (auto simp: map_eq_Cons_conv)

lemma shape_valid:
  assumes "run_shape report suites"
  shows "ValidateRelease report = Inr () \<longleftrightarrow> (\<forall>s\<in>set suites. all_pass (the (SRep_Cases s)))"
    "ValidateP0 report = Inr () \<longleftrightarrow> (\<forall>s\<in>set suites. SRep_Priority s = PriorityP0 \<longrightarrow> all_pass (the (SRep_Cases s)))"
proof -
  have ids: "map SRep_ID suites = [''p0_core'', ''p0_security_negative'', ''p1_feature'', ''service_interop'', ''cli_workflow'']"
    and prs: "map SRep_Priority suites = [PriorityP0, PriorityP0, PriorityP1, PriorityP1, PriorityP1]"
    and cnt: "\<forall>s\<in>set suites. \<exists>cs. counted s cs" and rep: "Rep_Type report = ReportType" "Rep_Suites report = Some suites" "Rep_Summary report = summarize suites"
    and go: "(\<forall>s\<in>set suites. \<forall>cs. counted s cs \<longrightarrow> all_pass cs) \<Longrightarrow> Rep_Result report = StatusPass \<and> Rep_ReleaseDecision report = ''go''"
    using assms unfolding run_shape_def by blast+
  obtain s1 s2 s3 s4 s5 where s: "suites = [s1, s2, s3, s4, s5]" using ids by (rule five)
  have the_cs: "counted t (the (SRep_Cases t))" if "t \<in> set suites" for t
    using cnt that counted_cases by metis
  have q: "PriorityP0 \<noteq> PriorityP1" by (simp add: PriorityP0_def PriorityP1_def)
  have "suites \<noteq> []" by (simp add: s)
  then have "Sum_CaseCount (Rep_Summary report) \<noteq> 0" using counted_count[OF cnt] by (simp add: rep summarize_count)
  then have p0: "ValidateP0 report = Inr () \<longleftrightarrow> ValidateP0_suite s1 = Inr () \<and> ValidateP0_suite s2 = Inr ()"
    using ids by (auto simp: ValidateP0_def rep s and_then_Inr_iff)
  show v: "ValidateP0 report = Inr () \<longleftrightarrow> (\<forall>s\<in>set suites. SRep_Priority s = PriorityP0 \<longrightarrow> all_pass (the (SRep_Cases s)))"
    unfolding p0 using P0_suite_ok[OF the_cs[of s1]] P0_suite_ok[OF the_cs[of s2]] prs q by (simp add: s)
  have p1: "ValidateRelease_suite t = Inr () \<longleftrightarrow> all_pass (the (SRep_Cases t))" if "t \<in> {s3, s4, s5}" for t
    using that release_suite_ok[OF the_cs[of t]] prs by (auto simp: s)
  have p0': "ValidateRelease_suite t = Inr ()" if "t \<in> {s1, s2}" "all_pass (the (SRep_Cases t))" for t
    using that release_P0_suite[OF the_cs[of t]] prs by (auto simp: s)
  have cr: "check_release suites = Inr () \<longleftrightarrow> (\<forall>t\<in>set suites. ValidateRelease_suite t = Inr ())"
    by (simp add: s and_then_Inr_iff)
  show "ValidateRelease report = Inr () \<longleftrightarrow> (\<forall>s\<in>set suites. all_pass (the (SRep_Cases s)))" (is "?l \<longleftrightarrow> ?r")
  proof
    assume ?l
    then have "ValidateP0 report = Inr ()" "check_release suites = Inr ()"
      by (auto simp: ValidateRelease_def and_then_Inr_iff rep errorf_def split: if_splits)
    then show ?r using v p1 prs cr by (simp add: s)
  next
    assume r: ?r
    have "Rep_Result report = StatusPass \<and> Rep_ReleaseDecision report = ''go''"
      by (rule go) (use r counted_cases in metis)
    moreover have "check_release suites = Inr ()" unfolding cr using r p0' p1 by (auto simp: s)
    moreover have "ValidateP0 report = Inr ()" using v r by blast
    ultimately show ?l by (simp add: ValidateRelease_def rep)
  qed
qed

section \<open>Cases of the library within a run\<close>

text \<open>A case that draws a fixed number of bytes, whether or not it passes.\<close>

definition steady :: "'a draws \<Rightarrow> nat \<Rightarrow> bool" where
  "steady m n \<longleftrightarrow> (\<forall>r. n \<le> length r \<longrightarrow> snd (m r) = drop n r)"

lemma achieves_steady: "achieves m n Q \<Longrightarrow> steady m n"
  unfolding achieves_def steady_def by (metis snd_conv)

lemma steady_then:
  assumes "achieves m k Q" "k \<le> n" "\<And>x. Q x \<Longrightarrow> steady (f x) (n - k)"
  shows "steady (then_do m f) n"
  unfolding steady_def
proof (intro allI impI)
  fix r :: reader
  assume n: "n \<le> length r"
  obtain x where x: "m r = (Inr x, drop k r)" "Q x" using assms(1,2) n unfolding achieves_def by (meson order_trans)
  have "snd (f x (drop k r)) = drop (n - k) (drop k r)"
    using assms(3)[OF x(2)] n assms(2) unfolding steady_def by (metis diff_le_mono length_drop)
  with x(1) assms(2) show "snd (then_do m f r) = drop n r" by (simp add: then_do_def)
qed

lemma steady_then_give: "res = Inr x \<Longrightarrow> steady (f x) n \<Longrightarrow> steady (then_do (give res) f) n"
  by (simp add: steady_def then_do_def give_def)

lemma steady_rejected: "n = 0 \<Longrightarrow> steady (expect_rejected res message reason) n"
  by (simp add: steady_def expect_rejected_def give_def)

lemma aad_tamper_steady:
  assumes "sdk_laws P" "case_instants now"
  shows "steady (caseEnvelopeAADTamperRejected P now) 128"
  unfolding caseEnvelopeAADTamperRejected_def
  apply (rule steady_then[OF readySessionFixture[OF assms(1) case_instantsD(1)[OF assms(2)]]], simp)
  subgoal premises prems for f
  proof -
    obtain a b sa sb where f: "f = (a, b, sa, sb)" by (cases f) auto
    let ?route = "\<lparr>Rt_RelayID = ''relay-a'', Rt_TTLSeconds = 60, Rt_Priority = 1\<rparr>"
    have r: "ready_pair sa sb" "route_ok ?route" using prems by (simp_all add: f ready_fixture_def route_ok_def int64_ok_def)
    obtain body where body: "EncodeText ''tamper payload'' = Inr body" using EncodeText_ok by blast
    obtain e a' where e: "Encrypt P (Some sa) ''msg-tamper'' TypeText ?route body = (Inr e, a')"
      by (rule send_payload[OF assms(1) r], rule that)
    have e': "fst (Encrypt P (Some sa) ''msg-tamper'' TypeText ?route body) = Inr e" by (simp add: e)
    show ?thesis unfolding f prod.case by (rule steady_then_give[OF body], rule steady_then_give[OF e'], rule steady_rejected) simp
  qed
  done

lemma forged_kid_steady:
  assumes "sdk_laws P" "case_instants now"
  shows "steady (caseForgedKIDRejected P now) 64"
  unfolding caseForgedKIDRejected_def
  apply (rule steady_then[OF new_device[OF assms(1)]], simp, rule steady_then[OF new_device[OF assms(1)]], simp)
  subgoal for victim attacker
    using CreateProof_ok[OF case_instantsD(1)[OF assms(2)], of P attacker "''relay-a''" "''challenge''" "''nonce''"]
    by (auto simp: Let_def intro!: steady_then_give steady_rejected)
  done

lemma recovery_transcript_steady:
  assumes "sdk_laws P"
  shows "steady (caseRecoveryTranscriptRejected P) 76"
  unfolding caseRecoveryTranscriptRejected_def
  apply (rule steady_then[OF session_key[OF assms]], simp)
  subgoal premises prems for k
  proof -
    obtain priv pub where k: "k = (priv, pub)" by force
    obtain r r' where g: "GenerateSessionKey P r = (Inr (priv, pub), r')" using prems by (auto simp: k)
    show ?thesis unfolding k prod.case Let_def by (rule steady_then[OF seal[OF assms g]], simp, rule steady_rejected) simp
  qed
  done

text \<open>A list of cases with the bytes each draws, and whether it is bound to pass.\<close>

record 'w planned =
  Pl_case :: "'w caseDef"
  Pl_bytes :: nat
  Pl_passes :: bool

definition sound_plan :: "'w planned \<Rightarrow> bool" where
  "sound_plan p \<longleftrightarrow> (\<exists>i name run. Pl_case p = sdk_case i name run \<and> steady run (Pl_bytes p) \<and> (Pl_passes p \<longrightarrow> passes run (Pl_bytes p)))"

lemma tick_rand [simp]: "B_rand (snd (tick b)) = B_rand b"
  by (simp add: tick_def)

lemma run_planned_case:
  assumes "sound_plan p" "Pl_bytes p \<le> length (B_rand b)"
  shows "CRep_ID (fst (runCase (Pl_case p) b)) = Case_id (Pl_case p)"
    "Pl_passes p \<Longrightarrow> CRep_Status (fst (runCase (Pl_case p) b)) = StatusPass"
    "B_rand (snd (runCase (Pl_case p) b)) = drop (Pl_bytes p) (B_rand b)"
proof -
  obtain i name run where p: "Pl_case p = sdk_case i name run" "steady run (Pl_bytes p)" "Pl_passes p \<longrightarrow> passes run (Pl_bytes p)"
    using assms(1) unfolding sound_plan_def by blast
  obtain start b1 where t: "tick b = (start, b1)" by force
  then have b1: "B_rand b1 = B_rand b" using tick_rand[of b] by simp
  obtain res r where m: "run (B_rand b1) = (res, r)" by force
  have r: "r = drop (Pl_bytes p) (B_rand b)" using p(2) assms(2) m b1 unfolding steady_def by (metis snd_conv)
  have d: "Case_run (Pl_case p) b1 = ((case res of Inl err \<Rightarrow> Inl (CaseError err) | Inr x \<Rightarrow> Inr x), b1\<lparr>B_rand := r\<rparr>)"
    by (simp add: p(1) sdk_case_def on_random_def m split: sum.split)
  have ok: "Pl_passes p \<Longrightarrow> \<exists>x. res = Inr x"
    using p(3) assms(2) m b1 unfolding achieves_def by (metis Pair_inject)
  obtain stop b3 where t': "tick (b1\<lparr>B_rand := r\<rparr>) = (stop, b3)" by force
  then have b3: "B_rand b3 = r" using tick_rand[of "b1\<lparr>B_rand := r\<rparr>"] by simp
  show "CRep_ID (fst (runCase (Pl_case p) b)) = Case_id (Pl_case p)"
    "Pl_passes p \<Longrightarrow> CRep_Status (fst (runCase (Pl_case p) b)) = StatusPass"
    "B_rand (snd (runCase (Pl_case p) b)) = drop (Pl_bytes p) (B_rand b)"
    unfolding runCase_def t d prod.case Let_def t' r[symmetric] using ok by (auto simp: b3 split: sum.split)
qed

lemma run_planned:
  assumes "list_all sound_plan plan" "sum_list (map Pl_bytes plan) \<le> length (B_rand b)" "run_cases (map Pl_case plan) b = (cs, b')"
  shows "map CRep_ID cs = map (Case_id \<circ> Pl_case) plan \<and> list_all2 (\<lambda>c p. Pl_passes p \<longrightarrow> CRep_Status c = StatusPass) cs plan \<and>
    B_rand b' = drop (sum_list (map Pl_bytes plan)) (B_rand b)"
  using assms
proof (induction plan arbitrary: b cs)
  case (Cons p plan)
  obtain c b1 where c: "runCase (Pl_case p) b = (c, b1)" by force
  obtain cs' where cs: "run_cases (map Pl_case plan) b1 = (cs', b')" "cs = c # cs'" using Cons.prems(3) c by (auto split: prod.splits)
  note r = run_planned_case[of p b]
  have "Pl_bytes p \<le> length (B_rand b)" "sound_plan p" using Cons.prems by simp_all
  note r = r[OF this(2,1), unfolded c fst_conv snd_conv]
  have "sum_list (map Pl_bytes plan) \<le> length (B_rand b1)" using Cons.prems(2) r(3) by simp
  with Cons.IH[OF _ this cs(1)] Cons.prems(1) r show ?case by (simp add: cs(2) add.commute)
qed simp

text \<open>The cases of the two P0 suites.\<close>

definition plan :: "string \<Rightarrow> string \<Rightarrow> evidence draws \<Rightarrow> nat \<Rightarrow> bool \<Rightarrow> 'w planned" where
  "plan i name run n ok = \<lparr>Pl_case = sdk_case i name run, Pl_bytes = n, Pl_passes = ok\<rparr>"

lemma plan_simps [simp]:
  "Pl_case (plan i name run n ok) = sdk_case i name run" "Pl_bytes (plan i name run n ok) = n" "Pl_passes (plan i name run n ok) = ok"
  by (simp_all add: plan_def)

lemma sound_pass: "passes run n \<Longrightarrow> sound_plan (plan i name run n True)"
  by (auto simp: sound_plan_def intro: achieves_steady)

lemma sound_steady: "steady run n \<Longrightarrow> sound_plan (plan i name run n False)"
  by (auto simp: sound_plan_def)

lemma core_plan:
  assumes "sdk_laws P" "case_instants now"
  obtains ps where "p0CoreCases P now = map Pl_case ps" "list_all sound_plan ps" "sum_list (map Pl_bytes ps) = 764" "list_all Pl_passes ps"
proof
  let ?ps = "[plan ''P0-CORE-001'' ''device proof verifies with audience and challenge'' (caseIdentityProofValid P now) 32 True,
      plan ''P0-CORE-002'' ''signed relay descriptor verifies and pins'' (caseDescriptorValid P now) 32 True,
      plan ''P0-CORE-003'' ''trust grant verifies all required bindings'' (caseTrustGrantValid P now) 64 True,
      plan ''P0-CORE-004'' ''session ready confirms transcript and keys'' (caseSessionReadyValid P now) 128 True,
      plan ''P0-CORE-005'' ''secure envelope round trips after ready'' (caseEnvelopeE2EValid P now) 128 True,
      plan ''P0-CORE-006'' ''provisioning ticket and bundle verify'' (caseProvisioningValid P now) 128 True,
      plan ''P0-CORE-007'' ''pairing ticket v3 binds purpose and grant roles'' (caseTicketV3Valid P now) 96 True,
      plan ''P0-CORE-008'' ''session reopen control frame verifies'' (caseSessionReopenValid P now) 80 True,
      plan ''P0-CORE-009'' ''credential recovery sealed blob round trips'' (caseRecoverySealValid P) 76 True]"
  show "p0CoreCases P now = map Pl_case ?ps" by (simp add: p0CoreCases_def)
  show "list_all sound_plan ?ps"
    using identity_proof_passes descriptor_passes trust_grant_passes session_ready_passes envelope_passes provisioning_passes ticket3_passes
      reopen_passes recovery_passes assms by (simp add: sound_pass)
  show "sum_list (map Pl_bytes ?ps) = 764" "list_all Pl_passes ?ps" by simp_all
qed

definition unsettled :: "string list" where
  "unsettled = [''P0-SEC-011'', ''P0-SEC-017'', ''P0-SEC-020'']"

lemma security_plan:
  assumes "sdk_laws P" "case_instants now"
  obtains ps where "p0SecurityCases P now = map Pl_case ps" "list_all sound_plan ps" "sum_list (map Pl_bytes ps) = 1404"
    "list_all (\<lambda>p. Pl_passes p \<or> Case_id (Pl_case p) \<in> set unsettled) ps"
proof
  let ?ps = "[plan ''P0-SEC-001'' ''production profile rejects unsafe toggles'' caseProductionProfileRejectsUnsafe 0 True,
      plan ''P0-SEC-002'' ''production profile rejects unsigned descriptor'' (caseUnsignedDescriptorRejected P now) 32 True,
      plan ''P0-SEC-003'' ''proof with wrong challenge is rejected'' (caseProofWrongChallengeRejected P now) 32 True,
      plan ''P0-SEC-004'' ''grant wrong audience is rejected'' (caseGrantWrongAudienceRejected P now) 64 True,
      plan ''P0-SEC-005'' ''grant wrong confirmation thumbprint is rejected'' (caseGrantWrongCNFRejected P now) 64 True,
      plan ''P0-SEC-006'' ''grant missing permission is rejected'' (caseGrantWrongPermissionRejected P now) 64 True,
      plan ''P0-SEC-007'' ''grant wrong relay is rejected'' (caseGrantWrongRelayRejected P now) 64 True,
      plan ''P0-SEC-008'' ''grant below revocation epoch is rejected'' (caseGrantRevokedEpochRejected P now) 64 True,
      plan ''P0-SEC-009'' ''expired grant is rejected'' (caseGrantExpiredRejected P now) 64 True,
      plan ''P0-SEC-010'' ''payload before session.ready is rejected'' (casePayloadBeforeReadyRejected P now) 128 True,
      plan ''P0-SEC-011'' ''envelope AAD tamper is rejected'' (caseEnvelopeAADTamperRejected P now) 128 False,
      plan ''P0-SEC-012'' ''envelope replay is rejected'' (caseEnvelopeReplayRejected P now) 128 True,
      plan ''P0-SEC-013'' ''expired pairing ticket is rejected'' (caseExpiredTicketRejected P now) 32 True,
      plan ''P0-SEC-014'' ''bundle binding mismatch is rejected'' (caseBundleBindingRejected P now) 160 True,
      plan ''P0-SEC-015'' ''bundle before local channel ready is rejected'' (caseBundleNotReadyRejected P now) 160 True,
      plan ''P0-SEC-016'' ''logs redact secret-bearing fields'' caseSecretRedaction 0 True,
      plan ''P0-SEC-017'' ''identity with forged kid is rejected'' (caseForgedKIDRejected P now) 64 False,
      plan ''P0-SEC-018'' ''ticket consumed by its grant audience is rejected'' (caseTicketAudienceReversalRejected P now) 32 True,
      plan ''P0-SEC-019'' ''session reopen outside window is rejected'' (caseReopenWindowRejected P now) 48 True,
      plan ''P0-SEC-020'' ''recovery blob bound to another identity fails to open'' (caseRecoveryTranscriptRejected P) 76 False]"
  show "p0SecurityCases P now = map Pl_case ?ps" by (simp add: p0SecurityCases_def)
  show "list_all sound_plan ?ps"
    using unsafe_profile_passes unsigned_descriptor_passes wrong_challenge_passes grant_cases_pass early_payload_passes replay_passes
      expired_ticket_passes bundle_binding_passes bundle_not_ready_passes secret_redaction_passes audience_reversal_passes reopen_window_passes
      aad_tamper_steady forged_kid_steady recovery_transcript_steady assms by (simp add: sound_pass sound_steady)
  show "sum_list (map Pl_bytes ?ps) = 1404" by simp
  show "list_all (\<lambda>p. Pl_passes p \<or> Case_id (Pl_case p) \<in> set unsettled) ?ps" by (simp add: sdk_case_def unsettled_def)
qed

lemma runSuite_planned:
  assumes "runSuite i name pr req (map Pl_case ps) b = (s, b')" "list_all sound_plan ps" "sum_list (map Pl_bytes ps) \<le> length (B_rand b)"
  obtains cs where "SRep_Cases s = Some cs" "SRep_ID s = i" "SRep_CaseCount s = int (length cs)" "SRep_Passed s = status_count StatusPass cs"
    "map CRep_ID cs = map (Case_id \<circ> Pl_case) ps" "list_all2 (\<lambda>c p. Pl_passes p \<longrightarrow> CRep_Status c = StatusPass) cs ps"
    "B_rand b' = drop (sum_list (map Pl_bytes ps)) (B_rand b)"
proof -
  obtain start b1 where t: "tick b = (start, b1)" by force
  then have b1: "B_rand b1 = B_rand b" using tick_rand[of b] by simp
  obtain cs b2 where c: "run_cases (map Pl_case ps) b1 = (cs, b2)" by force
  obtain stop b3 where t': "tick b2 = (stop, b3)" by force
  then have b3: "B_rand b3 = B_rand b2" using tick_rand[of b2] by simp
  note r = run_planned[OF assms(2) _ c, unfolded b1, OF assms(3)]
  from assms(1) have "s = fst (runSuite i name pr req (map Pl_case ps) b)" "b' = b3" by (simp_all add: runSuite_def t c t')
  with r b3 show thesis by (intro that[of cs]) (simp_all add: runSuite_def t c t')
qed

lemma run_suites_P0:
  assumes "run_suites P srt env opts b = (suites, b')"
  obtains core sec rest b1 b2 where "suites = core # sec # rest"
    "runSuite ''p0_core'' ''P0 Core'' PriorityP0 True (p0CoreCases P (Op_Now opts)) b = (core, b1)"
    "runSuite ''p0_security_negative'' ''P0 Security Negative'' PriorityP0 True (p0SecurityCases P (Op_Now opts)) b1 = (sec, b2)"
  using assms by (auto simp: run_suites_def Let_def split: prod.splits)

lemma all_pass_planned:
  assumes "list_all2 (\<lambda>c p. Pl_passes p \<longrightarrow> CRep_Status c = StatusPass) cs ps" "map CRep_ID cs = map (Case_id \<circ> Pl_case) ps"
    and "list_all (\<lambda>p. Pl_passes p \<or> Case_id (Pl_case p) \<in> A) ps"
  shows "list_all (\<lambda>c. CRep_Status c = StatusPass \<or> CRep_ID c \<in> A) cs"
  using assms by (induction cs ps rule: list_all2_induct) auto

section \<open>Properties\<close>

text \<open>C18. The release gate of the conformance runner is exact: whatever the suites find, a report produced by \<^verbatim>\<open>Run\<close> passes
  \<^verbatim>\<open>ValidateRelease\<close> if and only if every case of every suite passed (none failed and none was skipped), and passes
  \<^verbatim>\<open>ValidateP0\<close> if and only if every case of the P0 suites did.\<close>

theorem release_gate_exact:
  "(ValidateRelease (fst (Run P srt env opts b)) = Inr () \<longleftrightarrow>
      list_all (\<lambda>s. list_all (\<lambda>c. CRep_Status c = StatusPass) (elems (SRep_Cases s))) (elems (Rep_Suites (fst (Run P srt env opts b))))) \<and>
   (ValidateP0 (fst (Run P srt env opts b)) = Inr () \<longleftrightarrow>
      list_all (\<lambda>s. list_all (\<lambda>c. CRep_Status c = StatusPass) (elems (SRep_Cases s)))
        (filter (\<lambda>s. SRep_Priority s = PriorityP0) (elems (Rep_Suites (fst (Run P srt env opts b))))))"
proof -
  obtain report b' where r: "Run P srt env opts b = (report, b')" by force
  obtain suites where s: "run_shape report suites" by (rule Run_shape[OF r])
  have c: "elems (SRep_Cases t) = the (SRep_Cases t)" if "t \<in> set suites" for t
  proof -
    obtain cs where "counted t cs" using s \<open>t \<in> set suites\<close> unfolding run_shape_def by blast
    then show ?thesis by (simp add: counted_def)
  qed
  have e: "elems (Rep_Suites report) = suites" using s by (simp add: run_shape_def)
  show ?thesis unfolding r fst_conv e shape_valid[OF s] all_pass_def by (auto simp: list_all_iff c)
qed

text \<open>C17. The library passes its own conformance suites: with primitives that obey their laws, a clock within the years JSON can write
  and 2168 random bytes, a run reports all nine P0 core cases as passed, and of the twenty P0 security cases each one passes but
  possibly three, whose outcome rests on the strength of the primitives (a tampered authentication tag, two keys with one
  thumbprint, a sealed blob opened with other associated data).\<close>

theorem p0_suites_pass:
  fixes b :: "'w bench"
  assumes "sdk_laws P" "case_instants (Op_Now opts)" "Op_Now opts \<noteq> 0" "2168 \<le> length (B_rand b)"
    and "Run P srt env opts b = (report, b')"
  shows "\<exists>core sec rest. Rep_Suites report = Some (core # sec # rest) \<and> SRep_ID core = ''p0_core'' \<and> SRep_CaseCount core = 9 \<and> SRep_Passed core = 9 \<and>
    SRep_ID sec = ''p0_security_negative'' \<and> SRep_CaseCount sec = 20 \<and>
    list_all (\<lambda>c. CRep_Status c = StatusPass \<or> CRep_ID c \<in> {''P0-SEC-011'', ''P0-SEC-017'', ''P0-SEC-020''}) (elems (SRep_Cases sec))"
proof -
  obtain suites o' b1 b2 where o: "default_options opts b = (o', b1)" and rs: "run_suites P srt env o' (snd (tick b1)) = (suites, b2)"
    and sh: "run_shape report suites" by (rule Run_shape[OF assms(5)])
  have now: "Op_Now o' = Op_Now opts" "b1 = b" using o assms(3) by (auto simp: default_options_def IsZero_def Let_def split: if_splits)
  obtain core sec rest c1 c2 where s: "suites = core # sec # rest"
    and core: "runSuite ''p0_core'' ''P0 Core'' PriorityP0 True (p0CoreCases P (Op_Now opts)) (snd (tick b)) = (core, c1)"
    and sec: "runSuite ''p0_security_negative'' ''P0 Security Negative'' PriorityP0 True (p0SecurityCases P (Op_Now opts)) c1 = (sec, c2)"
    using run_suites_P0[OF rs] unfolding now by metis
  obtain ps :: "'w planned list" where ps: "p0CoreCases P (Op_Now opts) = map Pl_case ps" "list_all sound_plan ps" "sum_list (map Pl_bytes ps) = 764" "list_all Pl_passes ps"
    by (rule core_plan[OF assms(1,2)])
  obtain qs :: "'w planned list" where qs: "p0SecurityCases P (Op_Now opts) = map Pl_case qs" "list_all sound_plan qs" "sum_list (map Pl_bytes qs) = 1404"
    "list_all (\<lambda>p. Pl_passes p \<or> Case_id (Pl_case p) \<in> set unsettled) qs" by (rule security_plan[OF assms(1,2)])
  obtain cs where cs: "SRep_ID core = ''p0_core''" "SRep_CaseCount core = int (length cs)" "SRep_Passed core = status_count StatusPass cs"
    "map CRep_ID cs = map (Case_id \<circ> Pl_case) ps" "list_all2 (\<lambda>c p. Pl_passes p \<longrightarrow> CRep_Status c = StatusPass) cs ps" "B_rand c1 = drop 764 (B_rand b)"
    by (rule runSuite_planned[OF core[unfolded ps(1)] ps(2)]) (use ps(3) assms(4) in simp_all)
  obtain ds where ds: "SRep_Cases sec = Some ds" "SRep_ID sec = ''p0_security_negative''" "SRep_CaseCount sec = int (length ds)"
    "map CRep_ID ds = map (Case_id \<circ> Pl_case) qs" "list_all2 (\<lambda>c p. Pl_passes p \<longrightarrow> CRep_Status c = StatusPass) ds qs"
    by (rule runSuite_planned[OF sec[unfolded qs(1)] qs(2)]) (use qs(3) cs(6) assms(4) in simp_all)
  have len: "length cs = 9" "length ds = 20"
    using arg_cong[OF cs(4), of length] arg_cong[OF ps(1), of length] arg_cong[OF ds(4), of length] arg_cong[OF qs(1), of length]
    by (simp_all add: p0CoreCases_def p0SecurityCases_def)
  have "list_all (\<lambda>c. CRep_Status c = StatusPass \<or> CRep_ID c \<in> {}) cs" by (rule all_pass_planned[OF cs(5,4)]) (use ps(4) in simp)
  then have "filter (\<lambda>c. CRep_Status c = StatusPass) cs = cs" by (simp add: list_all_iff filter_id_conv)
  moreover have "list_all (\<lambda>c. CRep_Status c = StatusPass \<or> CRep_ID c \<in> set unsettled) ds" by (rule all_pass_planned[OF ds(5,4) qs(4)])
  moreover have "Rep_Suites report = Some (core # sec # rest)" using sh s by (simp add: run_shape_def)
  ultimately show ?thesis using cs(1-3) ds(1-3) len by (simp add: status_count_def unsettled_def)
qed

theorem p0_suites_pass_witness:
  "\<exists>core sec rest. Rep_Suites (fst (Run model_prims insertion_sort
      \<lparr>Out_do = (\<lambda>_ w. (Inl (StdError ''refused''), w)), Out_time_text = (\<lambda>_. ''now''), Out_number = Some\<rparr>
      \<lparr>Op_Version = [], Op_RelayEndpoint = [], Op_TrustEndpoint = [], Op_AdminToken = [], Op_CLIRunner = None, Op_CLIWorkflows = None,
        Op_Now = 3600000000000\<rparr>
      \<lparr>B_rand = replicate 2168 CHR ''r'', B_clock = (\<lambda>_. 3600000000000), B_ticks = 0, B_net = ()\<rparr>)) = Some (core # sec # rest) \<and>
    SRep_CaseCount core = 9 \<and> SRep_Passed core = 9 \<and> SRep_CaseCount sec = 20"
proof -
  let ?opts = "\<lparr>Op_Version = [], Op_RelayEndpoint = [], Op_TrustEndpoint = [], Op_AdminToken = [], Op_CLIRunner = None, Op_CLIWorkflows = None,
        Op_Now = 3600000000000\<rparr> :: unit Options"
  have i: "case_instants (Op_Now ?opts)" by code_simp
  show ?thesis
    using p0_suites_pass[OF model_sdk_laws i, of "\<lparr>B_rand = replicate 2168 CHR ''r'', B_clock = (\<lambda>_. 3600000000000), B_ticks = 0, B_net = ()\<rparr>",
      OF _ _ prod.collapse[symmetric]] by (simp del: replicate.simps) blast
qed

end
