(* ===== verification/Cli.thy ===== *)
theory Cli
  imports Conformance_Report Storage
begin

text \<open>
  \<^verbatim>\<open>tools/iscp-cli/cmd/iscp/main.go\<close>: the command line tool. A command is a step on the terminal: the state of a
  client with what was written to the standard output and the directory of conformance reports. The
  primitives, the sorting routine, what lies outside and the environment variables are a record, a parameter.
  The HTTP helpers are those of \<^verbatim>\<open>conformance/runner.go\<close>, up to the time-out of the client.
\<close>

section \<open>Steps of the tool\<close>

record 'w terminal =
  Term_bench :: "'w bench"
  Term_out :: string
  Term_dir :: Dir

record 'w tool =
  Tl_prims :: prims
  Tl_sort :: "Message sorter"
  Tl_outside :: "'w outside"
  Tl_getenv :: "string \<Rightarrow> string"

type_synonym ('w, 'a) cli = "('w terminal, go_error, 'a) step"

definition on_bench :: "('w, 'a) trial \<Rightarrow> ('w, 'a) cli" where
  "on_bench m t =
     (case m (Term_bench t) of
        (Inl (CaseError err), b) \<Rightarrow> (Inl err, t\<lparr>Term_bench := b\<rparr>)
      | (Inl (SkipError reason), b) \<Rightarrow> (Inl (StdError reason), t\<lparr>Term_bench := b\<rparr>)
      | (Inr x, b) \<Rightarrow> (Inr x, t\<lparr>Term_bench := b\<rparr>))"

definition sdk :: "'a draws \<Rightarrow> ('w, 'a) cli" where
  "sdk m = on_bench (on_random m)"

definition Now :: "('w, time) cli" where
  "Now = on_bench time_Now"

definition Print :: "string \<Rightarrow> ('w, unit) cli" where
  "Print s t = (Inr (), t\<lparr>Term_out := Term_out t @ s\<rparr>)"

definition Println :: "string \<Rightarrow> ('w, unit) cli" where
  "Println s = Print (s @ [CHR 0x0A])"

text \<open>\<^verbatim>\<open>json.NewEncoder(os.Stdout).Encode(v)\<close>\<close>

definition Encode :: "jdoc result \<Rightarrow> ('w, unit) cli" where
  "Encode v = then_do (give (json_Marshal v)) Println"

definition randomShort :: "'w tool \<Rightarrow> ('w, string) cli" where
  "randomShort kit = then_do Now (\<lambda>t. give (Inr (randomID (Tl_prims kit) (Tl_outside kit) t)))"

section \<open>Local commands\<close>

definition version :: string where "version = ''0.1.0-dev''"

definition help_text :: string where
  "help_text = separate [CHR 0x0A]
     [''iscp commands:'', ''  version'', ''  config validate [profile]'', ''  identity generate|show|rotate'', ''  descriptor relay|trust'',
      ''  proof create|verify'', ''  relay health|bind-self|refresh|revoke-access|send-envelope'',
      ''  trust health|submit-authorize-verify|revoke-check'', ''  session open|ready|close'', ''  envelope encrypt|decrypt|send'',
      ''  provisioning create-ticket|simulate-local-channel|create-bundle|apply-bundle'', ''  demo local-e2e'',
      ''  conformance run|report|vectors verify'']"

definition printHelp :: "('w, unit) cli" where
  "printHelp = Println help_text"

definition runConfig :: "string list \<Rightarrow> ('w, unit) cli" where
  "runConfig args =
     (case args of
        [] \<Rightarrow> give (errorf ''usage: iscp config validate [profile]'')
      | cmd # rest \<Rightarrow>
          if cmd \<noteq> ''validate'' then give (errorf ''usage: iscp config validate [profile]'')
          else then_do (give (ValidateGate (DefaultGate (case rest of [] \<Rightarrow> ProfileLocalLab | profile # _ \<Rightarrow> profile)))) (\<lambda>_.
            Println ''config valid''))"

definition runIdentity :: "'w tool \<Rightarrow> string list \<Rightarrow> ('w, unit) cli" where
  "runIdentity kit args =
     (case args of
        [] \<Rightarrow> give (errorf ''usage: iscp identity generate|show|rotate'')
      | cmd # _ \<Rightarrow>
          then_do Now (\<lambda>now.
          if cmd \<in> set [''generate'', ''show'', ''rotate''] then
            then_do (randomShort kit) (\<lambda>short.
            then_do (sdk (new_device (Tl_prims kit) ''local'' (''device-'' @ short) now)) (\<lambda>dev.
              Encode (json_object (identity_fields (Dev_Identity dev)))))
          else give (errorf ''unknown identity command'')))"

definition descriptorKey :: "Device \<Rightarrow> string \<Rightarrow> DescriptorKey" where
  "descriptorKey dev use =
     \<lparr>DK_KTY = ''Ed25519'', DK_Use = use, DK_KID = PK_KID (ID_PublicKey (Dev_Identity dev)),
      DK_Public = PK_Public (ID_PublicKey (Dev_Identity dev)), DK_State = ''active''\<rparr>"

definition local_relay :: "Device \<Rightarrow> time \<Rightarrow> RelayDescriptor" where
  "local_relay signer now =
     \<lparr>RD_Type = ''iscp.relay.descriptor.v2'', RD_RelayID = ''relay-local'', RD_DomainID = ''local'', RD_BaseURL = ''http://localhost:8080'',
      RD_WebSocketURL = ''ws://localhost:8080/v2/relay/connect'', RD_SigningKeys = Some [descriptorKey signer ''descriptor-signature''],
      RD_IssuedAt = now, RD_ExpiresAt = Add now Hour, RD_Metadata = []\<rparr>"

definition local_trust_root :: "Device \<Rightarrow> time \<Rightarrow> TrustRootDescriptor" where
  "local_trust_root signer now =
     \<lparr>TD_Type = ''iscp.trust_root.descriptor.v2'', TD_TrustRootID = ''trust-local'', TD_DomainID = ''local'', TD_BaseURL = ''http://localhost:8081'',
      TD_Keys = Some [descriptorKey signer ''grant-signature''], TD_IssuedAt = now, TD_ExpiresAt = Add now Hour, TD_Metadata = []\<rparr>"

definition sign_and_show :: "prims \<Rightarrow> Device \<Rightarrow> string \<Rightarrow> jdoc result \<Rightarrow> time \<Rightarrow> ('w, unit) cli" where
  "sign_and_show P signer descriptorType desc now =
     then_do (give (Sign P signer descriptorType desc now)) (\<lambda>signed.
     then_do (give (Verify P signed (Dev_Identity signer) (DefaultGate ProfileProduction) now)) (\<lambda>_.
     then_do (give (Pin P signed)) (\<lambda>pin.
       Encode (json_object [(''descriptor'', json_object (descriptor_fields signed)), (''pin'', Inr (DStr pin)), (''status'', Inr (DStr ''verified''))]))))"

definition runDescriptor :: "'w tool \<Rightarrow> string list \<Rightarrow> ('w, unit) cli" where
  "runDescriptor kit args =
     (case args of
        [] \<Rightarrow> give (errorf ''usage: iscp descriptor relay|trust'')
      | cmd # _ \<Rightarrow>
          then_do Now (\<lambda>now.
          then_do (sdk (new_device (Tl_prims kit) ''local'' (cmd @ ''-signer'') now)) (\<lambda>signer.
          if cmd = ''relay'' then
            let desc = local_relay signer now in sign_and_show (Tl_prims kit) signer (RD_Type desc) (json_object (relay_fields desc)) now
          else if cmd = ''trust'' then
            let desc = local_trust_root signer now in sign_and_show (Tl_prims kit) signer (TD_Type desc) (json_object (trust_root_fields desc)) now
          else give (errorf ''unknown descriptor command''))))"

definition runProof :: "'w tool \<Rightarrow> string list \<Rightarrow> ('w, unit) cli" where
  "runProof kit args =
     (case args of
        [] \<Rightarrow> give (errorf ''usage: iscp proof create|verify'')
      | cmd # _ \<Rightarrow>
          then_do Now (\<lambda>now.
          then_do (randomShort kit) (\<lambda>short.
          then_do (sdk (new_device (Tl_prims kit) ''local'' (''device-'' @ short) now)) (\<lambda>dev.
          then_do (randomShort kit) (\<lambda>challenge.
          then_do (randomShort kit) (\<lambda>nonce.
          then_do (give (CreateProof (Tl_prims kit) dev ''relay-local'' (''challenge-'' @ challenge) (''nonce-'' @ nonce) now)) (\<lambda>prf.
          if cmd = ''create'' then Encode (json_object (proof_fields prf))
          else if cmd = ''verify'' then
            then_do (give (VerifyProof (Tl_prims kit) (Dev_Identity dev) prf (DP_Audience prf) (DP_Challenge prf) now Minute)) (\<lambda>_.
              Encode (json_object [(''audience'', Inr (DStr (DP_Audience prf))), (''device_id'', Inr (DStr (DP_DeviceID prf))),
                (''status'', Inr (DStr ''valid''))]))
          else give (errorf ''unknown proof command''))))))))"

text \<open>\<^verbatim>\<open>ra, _ := sa.CreateReady(p, a)\<close> is \<open>ready_or_zero\<close>.\<close>

definition local_session :: "prims \<Rightarrow> time \<Rightarrow> (Device \<times> Device \<times> State \<times> State) draws" where
  "local_session P now =
     then_do (new_device P ''local'' ''device-a'' now) (\<lambda>a.
     then_do (new_device P ''local'' ''device-b'' now) (\<lambda>b.
     then_do (create_hello P a ''session-local'' (ID_DeviceID (Dev_Identity b)) ''grant-local'' now) (\<lambda>ha.
     then_do (create_hello P b ''session-local'' (ID_DeviceID (Dev_Identity a)) ''grant-local'' now) (\<lambda>hb.
     then_do (give (Establish P ha (LH_Hello hb) (Dev_Identity a) (Dev_Identity b))) (\<lambda>sa.
     then_do (give (Establish P hb (LH_Hello ha) (Dev_Identity b) (Dev_Identity a))) (\<lambda>sb.
     let ra = ready_or_zero (CreateReady P sa a); rb = ready_or_zero (CreateReady P sb b) in
     then_do (give (VerifyReady P sa rb (Dev_Identity b))) (\<lambda>sa'.
     then_do (give (VerifyReady P sb ra (Dev_Identity a))) (\<lambda>sb'.
       give (Inr (a, b, sa', sb'))))))))))"

definition readySession :: "'w tool \<Rightarrow> ('w, Device \<times> Device \<times> State \<times> State) cli" where
  "readySession kit = then_do Now (\<lambda>now. sdk (local_session (Tl_prims kit) now))"

definition runSession :: "'w tool \<Rightarrow> string list \<Rightarrow> ('w, unit) cli" where
  "runSession kit args =
     (case args of
        [] \<Rightarrow> give (errorf ''usage: iscp session open|ready|close'')
      | cmd # _ \<Rightarrow>
          then_do (readySession kit) (\<lambda>(a, b, sa, sb).
          if cmd = ''open'' then
            Encode (json_object [(''ciphersuite'', Inr (DStr CiphersuiteV2)), (''session_id'', Inr (DStr (St_SessionID sa))), (''status'', Inr (DStr ''open''))])
          else if cmd = ''ready'' then
            Encode (json_object [(''key_material_redacted'', Inr (DBool True)), (''session_id'', Inr (DStr (St_SessionID sa))), (''status'', Inr (DStr ''ready''))])
          else if cmd = ''close'' then
            Encode (json_object [(''session_id'', Inr (DStr (St_SessionID sa))), (''status'', Inr (DStr ''closed''))])
          else give (errorf ''unknown session command'')))"

text \<open>\<^verbatim>\<open>body, _ := payload.EncodeText(...)\<close>\<close>

definition localE2E :: "'w tool \<Rightarrow> ('w, string) cli" where
  "localE2E kit =
     then_do (readySession kit) (\<lambda>(a, b, sa, sb).
     let body = (case EncodeText ''hello from iscp'' of Inl _ \<Rightarrow> [] | Inr x \<Rightarrow> x) in
     then_do (give (fst (Encrypt (Tl_prims kit) (Some sa) ''msg-local'' TypeText
        \<lparr>Rt_RelayID = ''relay-local'', Rt_TTLSeconds = 60, Rt_Priority = 1\<rparr> body))) (\<lambda>envel.
     then_do (give (fst (Decrypt (Tl_prims kit) (Some sb) envel))) (\<lambda>plain.
     then_do (give (DecodeText plain)) (\<lambda>decoded.
       give (Inr (Text_Text decoded))))))"

definition demo_line :: "string \<Rightarrow> string" where
  "demo_line text = ''local-e2e ok payload_type=text plaintext_redacted=true delivered_text_len '' @ show_int (int (length text))"

definition runDemo :: "'w tool \<Rightarrow> string list \<Rightarrow> ('w, unit) cli" where
  "runDemo kit args =
     (case args of
        [] \<Rightarrow> give (errorf ''usage: iscp demo local-e2e'')
      | cmd # _ \<Rightarrow>
          if cmd \<noteq> ''local-e2e'' then give (errorf ''usage: iscp demo local-e2e'')
          else then_do (localE2E kit) (\<lambda>text. Println (demo_line text)))"

definition local_bundle :: "string \<Rightarrow> string \<Rightarrow> string \<Rightarrow> time \<Rightarrow> Bundle" where
  "local_bundle bundleID deviceID tp now =
     \<lparr>Bu_Type = [], Bu_BundleID = bundleID, Bu_IssuedToDeviceID = deviceID, Bu_IssuedToPublicKeyThumbprint = tp, Bu_RelayDescriptor = metadata_only,
      Bu_TrustRootDescriptor = metadata_only, Bu_AccessCredential = metadata_only, Bu_RefreshCredentialWrapped = Base64URL ''wrapped'',
      Bu_TrustGrant = metadata_only, Bu_IssuedAt = now, Bu_ExpiresAt = Add now (5 * Minute), Bu_Signature = no_signature\<rparr>"

definition localProvisioningFixture :: "'w tool \<Rightarrow> time \<Rightarrow> ('w, Device \<times> Device \<times> LocalChannel \<times> Bundle) cli" where
  "localProvisioningFixture kit now =
     then_do (randomShort kit) (\<lambda>phone.
     then_do (sdk (new_device (Tl_prims kit) ''local'' (''phone-'' @ phone) now)) (\<lambda>issuer.
     then_do (randomShort kit) (\<lambda>name.
     then_do (sdk (new_device (Tl_prims kit) ''local'' (''watch-'' @ name) now)) (\<lambda>watch.
     then_do (sdk (local_channel (Tl_prims kit) ''oob-secret'')) (\<lambda>channel.
     then_do (give (identity_Thumbprint (Tl_prims kit) (Dev_Identity watch))) (\<lambda>tp.
     then_do (randomShort kit) (\<lambda>bundleID.
     then_do (give (SignBundle (Tl_prims kit) issuer (local_bundle (''bundle-'' @ bundleID) (ID_DeviceID (Dev_Identity watch)) tp now))) (\<lambda>b.
       give (Inr (issuer, watch, channel, b))))))))))"

definition localProvisioningBundle :: "'w tool \<Rightarrow> time \<Rightarrow> ('w, Bundle) cli" where
  "localProvisioningBundle kit now = then_do (localProvisioningFixture kit now) (\<lambda>(_, _, _, b). give (Inr b))"

section \<open>Commands on the services\<close>

record cliCredential =
  CC_DomainID :: string
  CC_DeviceID :: string
  CC_Token :: string
  CC_ExpiresAt :: time
  CC_Revoked :: bool

definition no_cli_credential :: cliCredential where
  "no_cli_credential = \<lparr>CC_DomainID = [], CC_DeviceID = [], CC_Token = [], CC_ExpiresAt = 0, CC_Revoked = False\<rparr>"

definition cli_credential_table :: "(string \<times> cliCredential setter) list" where
  "cli_credential_table =
     [(''domain_id'', set_string (\<lambda>s c. c\<lparr>CC_DomainID := s\<rparr>)), (''device_id'', set_string (\<lambda>s c. c\<lparr>CC_DeviceID := s\<rparr>)),
      (''token'', set_string (\<lambda>s c. c\<lparr>CC_Token := s\<rparr>)), (''expires_at'', set_time (\<lambda>s c. c\<lparr>CC_ExpiresAt := s\<rparr>)),
      (''revoked'', set_bool (\<lambda>s c. c\<lparr>CC_Revoked := s\<rparr>))]"

definition read_cli_credentials :: "bytes \<Rightarrow> (cliCredential \<times> cliCredential) result" where
  "read_cli_credentials reply =
     DecodeJSON [(''access'', set_struct cli_credential_table fst (\<lambda>c p. (c, snd p))),
       (''refresh'', set_struct cli_credential_table snd (\<lambda>c p. (fst p, c)))] (no_cli_credential, no_cli_credential) reply"

definition endpointFromEnv :: "'w tool \<Rightarrow> string \<Rightarrow> string \<Rightarrow> string" where
  "endpointFromEnv kit key fallback =
     (let v = TrimRight_slash (TrimSpace (Tl_getenv kit key)) in if v = [] then fallback else v)"

definition getJSON :: "'w tool \<Rightarrow> string \<Rightarrow> (bytes \<Rightarrow> 'a result) \<Rightarrow> ('w, 'a) cli" where
  "getJSON kit url read =
     then_do (on_bench (client_Do (Tl_outside kit) \<lparr>CR_Method = ''GET'', CR_URL = url, CR_Header = [], CR_Body = []\<rparr>)) (\<lambda>(status, reply).
       if status < 200 \<or> 300 \<le> status then
         give (errorf (''GET '' @ url @ '' returned '' @ show_int (int status) @ '': '' @ TrimSpace (take 4096 reply)))
       else give (read reply))"

definition postJSONWithHeaders ::
  "'w tool \<Rightarrow> string \<Rightarrow> jdoc result \<Rightarrow> (bytes \<Rightarrow> 'a result) \<Rightarrow> nat \<Rightarrow> (string \<times> string) list \<Rightarrow> ('w, 'a) cli" where
  "postJSONWithHeaders kit url input read want headers =
     on_bench (postServiceJSONWithHeaders (Tl_outside kit) url input read want headers)"

definition postJSONWithBearer :: "'w tool \<Rightarrow> string \<Rightarrow> string \<Rightarrow> jdoc result \<Rightarrow> (bytes \<Rightarrow> 'a result) \<Rightarrow> nat \<Rightarrow> ('w, 'a) cli" where
  "postJSONWithBearer kit url bearer input read want =
     postJSONWithHeaders kit url input read want (if bearer \<noteq> [] then [(''Authorization'', ''Bearer '' @ bearer)] else [])"

definition postJSON :: "'w tool \<Rightarrow> string \<Rightarrow> jdoc result \<Rightarrow> (bytes \<Rightarrow> 'a result) \<Rightarrow> nat \<Rightarrow> ('w, 'a) cli" where
  "postJSON kit url input read want = postJSONWithBearer kit url [] input read want"

definition postJSONWithAdmin :: "'w tool \<Rightarrow> string \<Rightarrow> jdoc result \<Rightarrow> (bytes \<Rightarrow> 'a result) \<Rightarrow> nat \<Rightarrow> ('w, 'a) cli" where
  "postJSONWithAdmin kit url input read want =
     postJSONWithHeaders kit url input read want [(''X-ISCP-Admin-Token'', Tl_getenv kit ''ISCP_ADMIN_TOKEN'')]"

text \<open>\<^verbatim>\<open>m[key]\<close> of a \<^verbatim>\<open>map[string]any\<close>, a nil value when absent.\<close>

definition member :: "(string \<times> jdoc) list \<Rightarrow> string \<Rightarrow> jdoc result" where
  "member m key = Inr (case map_of m key of None \<Rightarrow> DNull | Some v \<Rightarrow> v)"

definition serviceHealth :: "'w tool \<Rightarrow> string \<Rightarrow> string \<Rightarrow> ('w, unit) cli" where
  "serviceHealth kit endpoint name =
     then_do (getJSON kit (endpoint @ ''/healthz'') (read_map (Tl_outside kit))) (\<lambda>health.
     then_do (getJSON kit (endpoint @ ''/version'') (read_map (Tl_outside kit))) (\<lambda>ver.
       Encode (json_object [(''protocol'', member ver ''protocol''), (''service'', Inr (DStr name)), (''status'', member health ''status''),
         (''version'', member ver ''version'')])))"

definition relayBindDevice :: "'w tool \<Rightarrow> string \<Rightarrow> Device \<Rightarrow> ('w, cliCredential \<times> cliCredential) cli" where
  "relayBindDevice kit endpoint dev =
     then_do Now (\<lambda>now.
     then_do (randomShort kit) (\<lambda>challenge.
     then_do (randomShort kit) (\<lambda>nonce.
     then_do (give (CreateProof (Tl_prims kit) dev ''relay-local'' (''challenge-'' @ challenge) (''nonce-'' @ nonce) now)) (\<lambda>prf.
       postJSON kit (endpoint @ ''/v2/relay/devices/bind-self'') (bind_doc (Dev_Identity dev) prf) read_cli_credentials 200))))"

definition relayBind :: "'w tool \<Rightarrow> string \<Rightarrow> ('w, cliCredential \<times> cliCredential) cli" where
  "relayBind kit endpoint =
     then_do Now (\<lambda>now.
     then_do (randomShort kit) (\<lambda>short.
     then_do (sdk (new_device (Tl_prims kit) ''local'' (''cli-relay-'' @ short) now)) (\<lambda>dev.
       relayBindDevice kit endpoint dev)))"

definition relayRefresh :: "'w tool \<Rightarrow> string \<Rightarrow> string \<Rightarrow> ('w, cliCredential \<times> cliCredential) cli" where
  "relayRefresh kit endpoint refresh =
     postJSON kit (endpoint @ ''/v2/relay/devices/refresh-access'') (text_map [(''refresh'', refresh)]) read_cli_credentials 200"

definition relayRevoke :: "'w tool \<Rightarrow> string \<Rightarrow> string \<Rightarrow> string \<Rightarrow> ('w, unit) cli" where
  "relayRevoke kit endpoint accessToken deviceID =
     postJSONWithBearer kit (endpoint @ ''/v2/relay/devices/revoke-access'') accessToken (text_map [(''device_id'', deviceID)]) read_nothing 200"

definition trustSubmitAuthorize :: "'w tool \<Rightarrow> string \<Rightarrow> ('w, Grant \<times> Device) cli" where
  "trustSubmitAuthorize kit endpoint =
     then_do Now (\<lambda>now.
     then_do (randomShort kit) (\<lambda>short.
     then_do (sdk (new_device (Tl_prims kit) ''local'' (''cli-trust-'' @ short) now)) (\<lambda>dev.
     then_do (randomShort kit) (\<lambda>challenge.
     then_do (randomShort kit) (\<lambda>nonce.
     then_do (give (CreateProof (Tl_prims kit) dev ''trust-local'' (''challenge-'' @ challenge) (''nonce-'' @ nonce) now)) (\<lambda>prf.
     then_do (postJSON kit (endpoint @ ''/v2/trust/devices/submit'') (bind_doc (Dev_Identity dev) prf) read_nothing 200) (\<lambda>_.
     then_do (postJSONWithAdmin kit (endpoint @ ''/v2/trust/devices/authorize'')
        (json_object [(''audience'', Inr (DStr ''peer-local'')), (''device_id'', Inr (DStr (ID_DeviceID (Dev_Identity dev)))),
           (''permissions'', Inr (DStrs [''text''])), (''relay_id'', Inr (DStr ''relay-local'')), (''ttl_seconds'', Inr (DInt 60))]) read_grant 200) (\<lambda>grant.
       give (Inr (grant, dev))))))))))"

definition trustVerify ::
  "'w tool \<Rightarrow> string \<Rightarrow> Grant \<Rightarrow> string \<Rightarrow> string \<Rightarrow> string \<Rightarrow> string \<Rightarrow> string \<Rightarrow> nat \<Rightarrow> ('w, unit) cli" where
  "trustVerify kit endpoint grant deviceID audience thumbprint permission relayID want =
     postJSON kit (endpoint @ ''/v2/trust/grants/verify'')
       (json_object [(''audience'', Inr (DStr audience)), (''confirmation_thumbprint'', Inr (DStr thumbprint)),
          (''grant'', json_object (grant_fields grant)), (''permission'', Inr (DStr permission)), (''relay_id'', Inr (DStr relayID)),
          (''subject_device_id'', Inr (DStr deviceID))]) read_nothing want"

definition trustRevoke :: "'w tool \<Rightarrow> string \<Rightarrow> string \<Rightarrow> ('w, unit) cli" where
  "trustRevoke kit endpoint deviceID =
     postJSONWithAdmin kit (endpoint @ ''/v2/trust/devices/revoke'') (text_map [(''device_id'', deviceID), (''reason'', ''cli'')]) read_nothing 200"

definition thumbprint_or_empty :: "prims \<Rightarrow> DeviceIdentity \<Rightarrow> string" where
  "thumbprint_or_empty P ident = (case identity_Thumbprint P ident of Inl _ \<Rightarrow> [] | Inr tp \<Rightarrow> tp)"

definition runEnvelope :: "'w tool \<Rightarrow> string list \<Rightarrow> ('w, unit) cli" where
  "runEnvelope kit args =
     (case args of
        [] \<Rightarrow> give (errorf ''usage: iscp envelope encrypt|decrypt|send'')
      | cmd # _ \<Rightarrow>
          then_do (readySession kit) (\<lambda>(a, b, sa, sb).
          then_do (give (EncodeText ''cli payload'')) (\<lambda>body.
          then_do (randomShort kit) (\<lambda>short.
          then_do (give (fst (Encrypt (Tl_prims kit) (Some sa) (''msg-'' @ short) TypeText
             \<lparr>Rt_RelayID = ''relay-local'', Rt_TTLSeconds = 60, Rt_Priority = 1\<rparr> body))) (\<lambda>envel.
          if cmd = ''encrypt'' then
            Encode (json_object [(''ciphertext_len'', Inr (DInt (int (length (Env_Ciphertext envel))))), (''message_id'', Inr (DStr (Env_MessageID envel))),
              (''plaintext_redacted'', Inr (DBool True)), (''status'', Inr (DStr ''encrypted''))])
          else if cmd = ''decrypt'' then
            then_do (give (fst (Decrypt (Tl_prims kit) (Some sb) envel))) (\<lambda>plain.
              Encode (json_object [(''payload_len'', Inr (DInt (int (length plain)))), (''plaintext_redacted'', Inr (DBool True)),
                (''status'', Inr (DStr ''decrypted''))]))
          else if cmd = ''send'' then
            let endpoint = endpointFromEnv kit ''ISCP_RELAY_ENDPOINT'' ''http://127.0.0.1:8080'' in
            then_do (relayBindDevice kit endpoint a) (\<lambda>(access, _).
            then_do (postJSONWithBearer kit (endpoint @ ''/v2/relay/envelopes'') (CC_Token access) (json_object (envelope_fields envel))
               (read_map (Tl_outside kit)) 202) (\<lambda>receipt.
              Encode (json_object [(''message_id'', Inr (DStr (Env_MessageID envel))), (''relay_status'', member receipt ''status''),
                (''status'', Inr (DStr ''sent''))])))
          else give (errorf ''unknown envelope command''))))))"

definition credential_dates :: "string \<Rightarrow> cliCredential \<Rightarrow> cliCredential \<Rightarrow> jdoc result" where
  "credential_dates status access refresh =
     json_object [(''access_expires_at'', time_doc (CC_ExpiresAt access)), (''credentials_redacted'', Inr (DBool True)),
       (''refresh_expires_at'', time_doc (CC_ExpiresAt refresh)), (''status'', Inr (DStr status))]"

text \<open>A step whose error is looked at and not returned.\<close>

definition attempt :: "('s, 'e, 'a) step \<Rightarrow> ('s, 'e, 'e + 'a) step" where
  "attempt m s = (case m s of (res, s') \<Rightarrow> (Inr res, s'))"

definition runRelay :: "'w tool \<Rightarrow> string list \<Rightarrow> ('w, unit) cli" where
  "runRelay kit args =
     (case args of
        [] \<Rightarrow> give (errorf ''usage: iscp relay health|bind-self|refresh|revoke-access|send-envelope'')
      | cmd # _ \<Rightarrow>
          let endpoint = endpointFromEnv kit ''ISCP_RELAY_ENDPOINT'' ''http://127.0.0.1:8080'' in
          if cmd = ''health'' then serviceHealth kit endpoint ''relay''
          else if cmd = ''bind-self'' then
            then_do (relayBind kit endpoint) (\<lambda>(access, refresh). Encode (credential_dates ''bound'' access refresh))
          else if cmd = ''refresh'' then
            then_do (relayBind kit endpoint) (\<lambda>(_, refresh).
            then_do (relayRefresh kit endpoint (CC_Token refresh)) (\<lambda>(access', refresh').
              Encode (credential_dates ''refreshed'' access' refresh')))
          else if cmd = ''revoke-access'' then
            then_do (relayBind kit endpoint) (\<lambda>(access, refresh).
            then_do (relayRevoke kit endpoint (CC_Token access) (CC_DeviceID refresh)) (\<lambda>_.
            then_do (attempt (relayRefresh kit endpoint (CC_Token refresh))) (\<lambda>res.
              case res of
                Inr _ \<Rightarrow> give (errorf ''revoked refresh credential was accepted'')
              | Inl _ \<Rightarrow> Encode (json_object [(''device_id'', Inr (DStr (CC_DeviceID refresh))), (''status'', Inr (DStr ''revoked''))]))))
          else if cmd = ''send-envelope'' then runEnvelope kit [''send'']
          else give (errorf ''unknown relay command''))"

definition runTrust :: "'w tool \<Rightarrow> string list \<Rightarrow> ('w, unit) cli" where
  "runTrust kit args =
     (case args of
        [] \<Rightarrow> give (errorf ''usage: iscp trust health|submit-authorize-verify|revoke-check'')
      | cmd # _ \<Rightarrow>
          let endpoint = endpointFromEnv kit ''ISCP_TRUST_ENDPOINT'' ''http://127.0.0.1:8081'' in
          if cmd = ''health'' then serviceHealth kit endpoint ''trust_root''
          else if cmd = ''submit-authorize-verify'' then
            then_do (trustSubmitAuthorize kit endpoint) (\<lambda>(grant, device).
            then_do (trustVerify kit endpoint grant (ID_DeviceID (Dev_Identity device)) ''peer-local''
               (thumbprint_or_empty (Tl_prims kit) (Dev_Identity device)) ''text'' ''relay-local'' 200) (\<lambda>_.
              Encode (json_object [(''device_id'', Inr (DStr (ID_DeviceID (Dev_Identity device)))), (''grant_id'', Inr (DStr (Gr_GrantID grant))),
                (''status'', Inr (DStr ''valid''))])))
          else if cmd = ''revoke-check'' then
            then_do (trustSubmitAuthorize kit endpoint) (\<lambda>(grant, device).
            then_do (trustRevoke kit endpoint (ID_DeviceID (Dev_Identity device))) (\<lambda>_.
            then_do (trustVerify kit endpoint grant (ID_DeviceID (Dev_Identity device)) ''peer-local''
               (thumbprint_or_empty (Tl_prims kit) (Dev_Identity device)) ''text'' ''relay-local'' 403) (\<lambda>_.
              Encode (json_object [(''device_id'', Inr (DStr (ID_DeviceID (Dev_Identity device)))), (''status'', Inr (DStr ''revocation_enforced''))]))))
          else give (errorf ''unknown trust command''))"

definition local_ticket :: "string \<Rightarrow> time \<Rightarrow> PairingTicket" where
  "local_ticket ticketID now =
     \<lparr>PT_Type = [], PT_TicketID = ticketID, PT_DomainID = ''local'', PT_RelayID = ''relay-local'', PT_TrustRootID = ''trust-local'',
      PT_MaxUses = 1, PT_IssuedAt = now, PT_ExpiresAt = Add now (5 * Minute), PT_Signature = no_signature\<rparr>"

text \<open>Signing with the zero device, left behind by an ignored error of \<^verbatim>\<open>NewDevice\<close>, panics.\<close>

definition runProvisioning :: "'w tool \<Rightarrow> string list \<Rightarrow> ('w, unit) cli" where
  "runProvisioning kit args =
     (case args of
        [] \<Rightarrow> give (errorf ''usage: iscp provisioning create-ticket|simulate-local-channel|create-bundle|apply-bundle'')
      | cmd # _ \<Rightarrow>
          then_do Now (\<lambda>now.
          if cmd = ''create-ticket'' then
            then_do (attempt (sdk (new_device (Tl_prims kit) ''local'' ''provisioner'' now))) (\<lambda>res.
            then_do (randomShort kit) (\<lambda>short.
            case res of
              Inl _ \<Rightarrow> give (errorf ''panic: ed25519: bad private key length: 0'')
            | Inr issuer \<Rightarrow>
                then_do (give (SignTicket (Tl_prims kit) issuer (local_ticket (''ticket-'' @ short) now))) (\<lambda>ticket.
                  Encode (json_object (ticket_fields ticket)))))
          else if cmd = ''simulate-local-channel'' then
            then_do (sdk (local_channel (Tl_prims kit) ''oob-secret'')) (\<lambda>channel.
              Encode (json_object [(''key_material_redacted'', Inr (DBool True)), (''status'', Inr (DStr ''ready'')),
                (''transcript_mac_len'', Inr (DInt (int (length (LC_TranscriptMAC channel)))))]))
          else if cmd = ''create-bundle'' then
            then_do (localProvisioningBundle kit now) (\<lambda>b.
              Encode (json_object [(''bundle_id'', Inr (DStr (Bu_BundleID b))), (''refresh_wrapped'', Inr (DBool (Bu_RefreshCredentialWrapped b \<noteq> []))),
                (''status'', Inr (DStr ''created''))]))
          else if cmd = ''apply-bundle'' then
            then_do (localProvisioningFixture kit now) (\<lambda>(issuer, watch, channel, b).
            then_do (give (ApplyBundle (Tl_prims kit) channel (Dev_Identity watch) b (Dev_Identity issuer) now)) (\<lambda>_.
              Encode (json_object [(''bundle_id'', Inr (DStr (Bu_BundleID b))), (''device_id'', Inr (DStr (ID_DeviceID (Dev_Identity watch)))),
                (''status'', Inr (DStr ''applied''))])))
          else give (errorf ''unknown provisioning command'')))"

section \<open>Report files\<close>

text \<open>\<^verbatim>\<open>path/filepath\<close> on a system whose separator is the slash.\<close>

fun split_path :: "string \<Rightarrow> string list" where
  "split_path [] = [[]]"
| "split_path (c # s) =
     (if c = CHR ''/'' then [] # split_path s
      else case split_path s of [] \<Rightarrow> [[c]] | e # es \<Rightarrow> (c # e) # es)"

definition clean_step :: "bool \<Rightarrow> string \<Rightarrow> string list \<Rightarrow> string list" where
  "clean_step rooted e stack =
     (if e = [] \<or> e = ''.'' then stack
      else if e = ''..'' then
        (case stack of
           [] \<Rightarrow> if rooted then [] else [e]
         | e0 # rest \<Rightarrow> if e0 = ''..'' then e # stack else rest)
      else e # stack)"

definition Clean :: "string \<Rightarrow> string" where
  "Clean path =
     (if path = [] then ''.''
      else let rooted = (hd path = CHR ''/''); body = separate ''/'' (rev (fold (clean_step rooted) (split_path path) []))
           in if rooted then ''/'' @ body else if body = [] then ''.'' else body)"

definition IsAbs :: "string \<Rightarrow> bool" where
  "IsAbs path = starts_with ''/'' path"

definition Base :: "string \<Rightarrow> string" where
  "Base path =
     (if path = [] then ''.''
      else let p = TrimRight_slash path in if p = [] then ''/'' else rev (takeWhile (\<lambda>c. c \<noteq> CHR ''/'') (rev p)))"

definition Join :: "string \<Rightarrow> string \<Rightarrow> string" where
  "Join a b = Clean (if a = [] then b else if b = [] then a else a @ ''/'' @ b)"

definition safeReportFileName :: "string \<Rightarrow> string result" where
  "safeReportFileName path =
     (let clean = Clean (if path = [] then ''conformance/report.json'' else path) in
      if IsAbs clean then errorf ''conformance output must be relative''
      else if clean = ''.'' \<or> clean = ''..'' \<or> starts_with ''../'' clean then errorf ''conformance output escapes workspace''
      else if clean \<noteq> Join ''conformance'' (Base clean) then errorf ''conformance output must be directly under conformance''
      else Inr (Base clean))"

text \<open>The directory \<^verbatim>\<open>conformance\<close> with the file system operations of \<^verbatim>\<open>Storage\<close>.\<close>

definition make_directory :: "('w, unit) cli" where
  "make_directory t =
     (case Dir_fault (Term_dir t) MkdirAll of
        Some err \<Rightarrow> (Inl err, t)
      | None \<Rightarrow> (Inr (), t\<lparr>Term_dir := (Term_dir t)\<lparr>Dir_exists := True\<rparr>\<rparr>))"

definition open_root :: "('w, unit) cli" where
  "open_root t =
     (case (if Dir_exists (Term_dir t) then Dir_fault (Term_dir t) OpenRoot else Some (StdError ''no such file or directory'')) of
        Some err \<Rightarrow> (Inl err, t)
      | None \<Rightarrow> (Inr (), t))"

definition write_file :: "string \<Rightarrow> bytes \<Rightarrow> ('w, unit) cli" where
  "write_file name b t =
     (let dir = Term_dir t in
      case Dir_fault dir WriteFile of
        Some err \<Rightarrow> (Inl err, case Dir_torn dir of None \<Rightarrow> t | Some x \<Rightarrow> t\<lparr>Term_dir := dir\<lparr>Dir_files := (Dir_files dir)(name \<mapsto> x)\<rparr>\<rparr>)
      | None \<Rightarrow> (Inr (), t\<lparr>Term_dir := dir\<lparr>Dir_files := (Dir_files dir)(name \<mapsto> b)\<rparr>\<rparr>))"

definition read_file :: "string \<Rightarrow> ('w, bytes) cli" where
  "read_file name t =
     (case Dir_fault (Term_dir t) ReadFile of
        Some err \<Rightarrow> (Inl err, t)
      | None \<Rightarrow> (case Dir_files (Term_dir t) name of Some b \<Rightarrow> (Inr b, t) | None \<Rightarrow> (Inl (StdError ''no such file or directory''), t)))"

definition writeConformanceReport :: "'w tool \<Rightarrow> string \<Rightarrow> 'w Options \<Rightarrow> ('w, unit) cli" where
  "writeConformanceReport kit path opts =
     then_do (give (safeReportFileName path)) (\<lambda>fileName.
     then_do (on_bench (\<lambda>b. case Run (Tl_prims kit) (Tl_sort kit) (Tl_outside kit) opts b of (report, b') \<Rightarrow> (Inr report, b'))) (\<lambda>report.
     then_do (give (MarshalReport report)) (\<lambda>b.
     then_do make_directory (\<lambda>_.
     then_do open_root (\<lambda>_.
     then_do (write_file fileName b) (\<lambda>_.
     then_do (Println (Join ''conformance'' fileName)) (\<lambda>_.
       give (ValidateP0 report))))))))"

definition validateConformanceReport :: "string \<Rightarrow> bool \<Rightarrow> ('w, unit) cli" where
  "validateConformanceReport path release =
     then_do (give (safeReportFileName path)) (\<lambda>fileName.
     then_do open_root (\<lambda>_.
     then_do (read_file fileName) (\<lambda>b.
     then_do (give (UnmarshalReport b)) (\<lambda>report.
       if release then then_do (give (ValidateRelease report)) (\<lambda>_. Println ''conformance report release-valid'')
       else then_do (give (ValidateP0 report)) (\<lambda>_. Println ''conformance report p0-valid'')))))"

section \<open>The tool\<close>

definition runLocalE2EForConformance :: "'w tool \<Rightarrow> Dir \<Rightarrow> ('w, string) runner" where
  "runLocalE2EForConformance kit dir b =
     (case localE2E kit \<lparr>Term_bench = b, Term_out = [], Term_dir = dir\<rparr> of
        (Inl err, t) \<Rightarrow> (Inl err, Term_bench t)
      | (Inr text, t) \<Rightarrow> (Inr (demo_line text), Term_bench t))"

text \<open>The standard output is replaced while the function runs; pipes and copying are taken to work.\<close>

definition captureOutput :: "('w, unit) cli \<Rightarrow> ('w, string) cli" where
  "captureOutput f t =
     (case f (t\<lparr>Term_out := []\<rparr>) of
        (Inl err, t') \<Rightarrow> (Inl err, t'\<lparr>Term_out := Term_out t\<rparr>)
      | (Inr _, t') \<Rightarrow> (Inr (Term_out t'), t'\<lparr>Term_out := Term_out t\<rparr>))"

text \<open>
  \<^verbatim>\<open>run\<close>, with the \<^verbatim>\<open>conformance\<close> command as an argument: that command runs nine of the others.
\<close>

definition run_with :: "(string list \<Rightarrow> ('w, unit) cli) \<Rightarrow> 'w tool \<Rightarrow> string list \<Rightarrow> ('w, unit) cli" where
  "run_with conformance kit args =
     (case args of
        [] \<Rightarrow> printHelp
      | cmd # rest \<Rightarrow>
          if cmd = ''help'' \<or> cmd = ''--help'' then printHelp
          else if cmd = ''version'' then Println (''iscp '' @ version @ '' protocol=v2'')
          else if cmd = ''config'' then runConfig rest
          else if cmd = ''identity'' then runIdentity kit rest
          else if cmd = ''descriptor'' then runDescriptor kit rest
          else if cmd = ''proof'' then runProof kit rest
          else if cmd = ''relay'' then runRelay kit rest
          else if cmd = ''trust'' then runTrust kit rest
          else if cmd = ''session'' then runSession kit rest
          else if cmd = ''envelope'' then runEnvelope kit rest
          else if cmd = ''provisioning'' then runProvisioning kit rest
          else if cmd = ''demo'' then runDemo kit rest
          else if cmd = ''conformance'' then conformance rest
          else give (errorf (''unknown command '' @ quoted cmd)))"

definition workflow_commands :: "string list list" where
  "workflow_commands =
     [[''descriptor'', ''relay''], [''descriptor'', ''trust''], [''proof'', ''verify''], [''session'', ''ready''], [''envelope'', ''encrypt''],
      [''envelope'', ''decrypt''], [''provisioning'', ''simulate-local-channel''], [''provisioning'', ''create-bundle''],
      [''provisioning'', ''apply-bundle'']]"

fun run_workflows :: "'w tool \<Rightarrow> string list list \<Rightarrow> ('w, (string \<times> string) list) cli" where
  "run_workflows kit [] = give (Inr [])"
| "run_workflows kit (command # rest) =
     then_do (captureOutput (run_with (\<lambda>_. give (errorf ''nested'')) kit command)) (\<lambda>text.
     then_do (run_workflows kit rest) (\<lambda>out. give (Inr ((separate '' '' command, text) # out))))"

definition runLocalCLIWorkflowsForConformance :: "'w tool \<Rightarrow> Dir \<Rightarrow> ('w, (string \<times> string) list) runner" where
  "runLocalCLIWorkflowsForConformance kit dir b =
     (case run_workflows kit workflow_commands \<lparr>Term_bench = b, Term_out = [], Term_dir = dir\<rparr> of
        (Inl err, t) \<Rightarrow> (Inl err, Term_bench t)
      | (Inr out, t) \<Rightarrow> (Inr out, Term_bench t))"

text \<open>No workflow is a conformance command, so \<open>run_with\<close> does not depend on that argument.\<close>

lemma run_with_workflow: "command \<in> set workflow_commands \<Longrightarrow> run_with c kit command = run_with c' kit command"
  by (auto simp: workflow_commands_def run_with_def)

record conformance_flags =
  CF_output :: string
  CF_relay :: string
  CF_trust :: string
  CF_filtered :: "string list"

fun read_flags :: "string list \<Rightarrow> conformance_flags \<Rightarrow> conformance_flags" where
  "read_flags [] f = f"
| "read_flags [a] f = f\<lparr>CF_filtered := CF_filtered f @ [a]\<rparr>"
| "read_flags (a # v # rest) f =
     (if a = ''--output'' then read_flags rest (f\<lparr>CF_output := v\<rparr>)
      else if a = ''--relay-endpoint'' then read_flags rest (f\<lparr>CF_relay := v\<rparr>)
      else if a = ''--trust-endpoint'' then read_flags rest (f\<lparr>CF_trust := v\<rparr>)
      else read_flags (v # rest) (f\<lparr>CF_filtered := CF_filtered f @ [a]\<rparr>))"

definition conformance_options :: "'w tool \<Rightarrow> Dir \<Rightarrow> conformance_flags \<Rightarrow> 'w Options" where
  "conformance_options kit dir f =
     \<lparr>Op_Version = version, Op_RelayEndpoint = CF_relay f, Op_TrustEndpoint = CF_trust f, Op_AdminToken = Tl_getenv kit ''ISCP_ADMIN_TOKEN'',
      Op_CLIRunner = Some (runLocalE2EForConformance kit dir), Op_CLIWorkflows = Some (runLocalCLIWorkflowsForConformance kit dir), Op_Now = 0\<rparr>"

definition runConformance :: "'w tool \<Rightarrow> string list \<Rightarrow> ('w, unit) cli" where
  "runConformance kit args t =
     (case args of
        [] \<Rightarrow> give (errorf ''usage: iscp conformance run|report|vectors verify'') t
      | _ \<Rightarrow>
          let f = read_flags args \<lparr>CF_output = ''conformance/report.json'', CF_relay = Tl_getenv kit ''ISCP_RELAY_ENDPOINT'',
                CF_trust = Tl_getenv kit ''ISCP_TRUST_ENDPOINT'', CF_filtered = []\<rparr>;
              cmd = separate '' '' (CF_filtered f);
              opts = conformance_options kit (Term_dir t) f in
          if cmd = ''run'' \<or> cmd = ''report'' then writeConformanceReport kit (CF_output f) opts t
          else if cmd = ''validate-report'' then validateConformanceReport (CF_output f) False t
          else if cmd = ''validate-report --release'' then validateConformanceReport (CF_output f) True t
          else if cmd = ''vectors verify'' then Println ''vectors ok'' t
          else give (errorf ''unknown conformance command'') t)"

definition run :: "'w tool \<Rightarrow> string list \<Rightarrow> ('w, unit) cli" where
  "run kit args = run_with (runConformance kit) kit args"

end
