(* ===== verification/Report_Codec.thy ===== *)
theory Report_Codec
  imports Conformance_Report Trust_Codec
begin

text \<open>
  Reading back a conformance report: what \<^verbatim>\<open>MarshalReport\<close> writes, \<^verbatim>\<open>UnmarshalReport\<close> reads as the same report.
\<close>

declare valid_utf8.simps(2) [simp del] to_valid.simps(2) [simp del]

section \<open>Well-formed reports\<close>

definition case_report_ok :: "CaseReport \<Rightarrow> bool" where
  "case_report_ok c \<longleftrightarrow> valid_utf8 (CRep_ID c) \<and> valid_utf8 (CRep_Name c) \<and> valid_utf8 (CRep_Status c) \<and> valid_utf8 (CRep_Error c) \<and>
     valid_utf8 (CRep_SkipReason c) \<and> int64_ok (CRep_DurationMS c) \<and> metadata_valid (CRep_Evidence c)"

definition suite_report_ok :: "SuiteReport \<Rightarrow> bool" where
  "suite_report_ok s \<longleftrightarrow> valid_utf8 (SRep_ID s) \<and> valid_utf8 (SRep_Name s) \<and> valid_utf8 (SRep_Priority s) \<and> int64_ok (SRep_CaseCount s) \<and>
     int64_ok (SRep_Passed s) \<and> int64_ok (SRep_Failed s) \<and> int64_ok (SRep_Skipped s) \<and> int64_ok (SRep_DurationMS s) \<and>
     list_all case_report_ok (elems (SRep_Cases s))"

definition summary_ok :: "Summary \<Rightarrow> bool" where
  "summary_ok s \<longleftrightarrow> int64_ok (Sum_SuiteCount s) \<and> int64_ok (Sum_CaseCount s) \<and> int64_ok (Sum_Passed s) \<and> int64_ok (Sum_Failed s) \<and>
     int64_ok (Sum_Skipped s)"

text \<open>An empty list of risks is written as no member, and read back as nil.\<close>

definition report_ok :: "Report \<Rightarrow> bool" where
  "report_ok r \<longleftrightarrow> valid_utf8 (Rep_Type r) \<and> valid_utf8 (Rep_Version r) \<and> valid_utf8 (Rep_Protocol r) \<and> valid_utf8 (Rep_Result r) \<and>
     valid_utf8 (Rep_ReleaseDecision r) \<and> year_ok (Rep_GeneratedAt r) \<and> int64_ok (Rep_DurationMS r) \<and> summary_ok (Rep_Summary r) \<and>
     metadata_valid (Rep_Endpoints r) \<and> list_all valid_utf8 (elems (Rep_ResidualRisks r)) \<and> Rep_ResidualRisks r \<noteq> Some [] \<and>
     list_all suite_report_ok (elems (Rep_Suites r))"

section \<open>Documents\<close>

lemma valid_DInt [simp]: "valid_doc (DInt i) = DInt i"
  by (simp add: DInt_def)

lemma depth_DInt [simp]: "doc_depth (DInt i) = 0"
  by (simp add: DInt_def)

lemma optional_member:
  "set_members table (if P then [] else [(k, d)]) r =
     (if P then Inr r else case find_setter table k of None \<Rightarrow> Inr r | Some f \<Rightarrow> and_then (f d r) Inr)"
  by (auto split: option.split simp: and_then_def split: sum.split)

lemma set_members_append: "set_members table (xs @ ys) r = and_then (set_members table xs r) (set_members table ys)"
  by (induction xs arbitrary: r) (auto split: option.split simp: and_then_def split: sum.split)

definition map_docs :: "(string \<times> string) list \<Rightarrow> jdoc" where
  "map_docs m = DObj (map (\<lambda>(k, v). (k, DStr v)) m)"

lemma map_docs_shape: "doc_ok (map_docs m)" "doc_depth (map_docs m) \<le> 1"
  using doc_depth_map[of m] by (auto simp: map_docs_def)

lemma set_map_docs:
  assumes "metadata_valid m" "get r = []"
  shows "set_str_map get upd (valid_doc (map_docs m)) r = Inr (upd m r)"
  using assms metadata_doc[of m] by (simp add: set_str_map_def map_docs_def metadata_valid_def)

definition case_docs :: "CaseReport \<Rightarrow> (string \<times> jdoc) list" where
  "case_docs c =
     [(''id'', DStr (CRep_ID c)), (''name'', DStr (CRep_Name c)), (''status'', DStr (CRep_Status c)), (''duration_ms'', DInt (CRep_DurationMS c))] @
     (if CRep_Error c = [] then [] else [(''error'', DStr (CRep_Error c))]) @
     (if CRep_SkipReason c = [] then [] else [(''skip_reason'', DStr (CRep_SkipReason c))]) @
     (if CRep_Evidence c = [] then [] else [(''evidence'', map_docs (CRep_Evidence c))])"

lemma case_docs_marshal:
  assumes "case_report_ok c"
  shows "json_object (case_report_fields c) = Inr (DObj (case_docs c))"
proof -
  have "case_report_fields c = map (\<lambda>(k, d). (k, Inr d)) (case_docs c)"
    using assms by (simp add: case_report_fields_def case_docs_def omit_if_def case_report_ok_def metadata_valid_def str_map_doc_sorted map_docs_def)
  then show ?thesis by (simp only: json_object_map)
qed

lemma case_docs_shape: "doc_ok (DObj (case_docs c))" "doc_depth (DObj (case_docs c)) \<le> 2"
  using map_docs_shape[of "CRep_Evidence c"] by (auto simp: case_docs_def)

lemma decode_case:
  assumes "case_report_ok c"
  shows "decode_struct case_report_table (valid_doc (DObj (case_docs c))) no_case_report = Inr c"
  using assms
  by (cases c) (simp add: set_map_docs case_docs_def case_report_ok_def decode_struct_def case_report_table_def find_setter_exact no_case_report_def
      set_members_append optional_member if_distrib)

text \<open>A slice of structures, each with its own document.\<close>

definition arr_docs :: "('a \<Rightarrow> jdoc) \<Rightarrow> 'a list option \<Rightarrow> jdoc" where
  "arr_docs f xs = (case xs of None \<Rightarrow> DNull | Some l \<Rightarrow> DArr (map f l))"

lemma list_doc_arr:
  assumes "\<forall>x\<in>set (elems xs). g x = Inr (f x)"
  shows "list_doc g xs = Inr (arr_docs f xs)"
proof (cases xs)
  case (Some l)
  have "collect (map g l) = Inr (map f l)" using assms unfolding Some by (induction l) simp_all
  then show ?thesis by (simp add: Some list_doc_def arr_docs_def)
qed (simp add: list_doc_def arr_docs_def)

lemma arr_docs_shape:
  assumes "\<And>x. doc_ok (f x)" "\<And>x. doc_depth (f x) \<le> n"
  shows "doc_ok (arr_docs f xs)" "doc_depth (arr_docs f xs) \<le> Suc n"
proof -
  have "foldr max (map doc_depth (map f l)) 0 \<le> n" for l using assms(2) by (induction l) auto
  with assms(1) show "doc_ok (arr_docs f xs)" "doc_depth (arr_docs f xs) \<le> Suc n" by (auto simp: arr_docs_def split: option.split)
qed

lemma set_structs_arr:
  assumes "\<forall>x\<in>set (elems xs). decode_struct t (valid_doc (f x)) z = Inr x"
  shows "set_structs t z upd (valid_doc (arr_docs f xs)) r = Inr (upd xs r)"
proof (cases xs)
  case (Some l)
  have "collect (map (\<lambda>d. decode_struct t d z) (map valid_doc (map f l))) = Inr l" using assms unfolding Some by (induction l) simp_all
  then show ?thesis by (simp add: Some set_structs_def arr_docs_def)
qed (simp add: set_structs_def arr_docs_def)

section \<open>Suites and summary\<close>

definition suite_docs :: "SuiteReport \<Rightarrow> (string \<times> jdoc) list" where
  "suite_docs s =
     [(''id'', DStr (SRep_ID s)), (''name'', DStr (SRep_Name s)), (''priority'', DStr (SRep_Priority s)), (''required'', DBool (SRep_Required s)),
      (''case_count'', DInt (SRep_CaseCount s)), (''passed'', DInt (SRep_Passed s)), (''failed'', DInt (SRep_Failed s)),
      (''skipped'', DInt (SRep_Skipped s)), (''duration_ms'', DInt (SRep_DurationMS s)),
      (''cases'', arr_docs (\<lambda>c. DObj (case_docs c)) (SRep_Cases s))]"

lemma suite_docs_marshal:
  assumes "suite_report_ok s"
  shows "json_object (suite_report_fields s) = Inr (DObj (suite_docs s))"
proof -
  have "list_doc (json_object \<circ> case_report_fields) (SRep_Cases s) = Inr (arr_docs (\<lambda>c. DObj (case_docs c)) (SRep_Cases s))"
    using assms by (intro list_doc_arr) (auto simp: suite_report_ok_def list_all_iff case_docs_marshal)
  then have "suite_report_fields s = map (\<lambda>(k, d). (k, Inr d)) (suite_docs s)" by (simp add: suite_report_fields_def suite_docs_def)
  then show ?thesis by (simp only: json_object_map)
qed

lemma suite_docs_shape: "doc_ok (DObj (suite_docs s))" "doc_depth (DObj (suite_docs s)) \<le> 4"
  using arr_docs_shape[of "\<lambda>c. DObj (case_docs c)" 2 "SRep_Cases s"] case_docs_shape by (auto simp: suite_docs_def)

lemma decode_suite:
  assumes "suite_report_ok s"
  shows "decode_struct suite_report_table (valid_doc (DObj (suite_docs s))) no_suite_report = Inr s"
proof -
  have "\<forall>x\<in>set (elems (SRep_Cases s)). decode_struct case_report_table (valid_doc (DObj (case_docs x))) no_case_report = Inr x"
    using assms decode_case by (auto simp: suite_report_ok_def list_all_iff)
  then have a: "set_structs case_report_table no_case_report upd (valid_doc (arr_docs (\<lambda>c. DObj (case_docs c)) (SRep_Cases s))) r =
      Inr (upd (SRep_Cases s) r)" for upd and r :: SuiteReport
    by (rule set_structs_arr)
  show ?thesis
    using assms a by (cases s) (simp add: set_bool_def suite_docs_def suite_report_ok_def decode_struct_def suite_report_table_def find_setter_exact no_suite_report_def)
qed

definition summary_docs :: "Summary \<Rightarrow> (string \<times> jdoc) list" where
  "summary_docs s = [(''suite_count'', DInt (Sum_SuiteCount s)), (''case_count'', DInt (Sum_CaseCount s)), (''passed'', DInt (Sum_Passed s)),
     (''failed'', DInt (Sum_Failed s)), (''skipped'', DInt (Sum_Skipped s))]"

lemma summary_docs_marshal: "json_object (summary_fields s) = Inr (DObj (summary_docs s))"
proof -
  have "summary_fields s = map (\<lambda>(k, d). (k, Inr d)) (summary_docs s)" by (simp add: summary_fields_def summary_docs_def)
  then show ?thesis by (simp only: json_object_map)
qed

lemma summary_docs_shape: "doc_ok (DObj (summary_docs s))" "doc_depth (DObj (summary_docs s)) \<le> 1"
  by (auto simp: summary_docs_def)

lemma decode_summary:
  assumes "summary_ok s"
  shows "set_members summary_table (map (\<lambda>(k, d). (to_valid k, valid_doc d)) (summary_docs s)) z = Inr s"
  using assms by (cases s; cases z) (simp add: summary_docs_def summary_ok_def summary_table_def find_setter_exact)

section \<open>The report\<close>

definition report_docs :: "Report \<Rightarrow> (string \<times> jdoc) list" where
  "report_docs r =
     [(''type'', DStr (Rep_Type r)), (''version'', DStr (Rep_Version r)), (''protocol'', DStr (Rep_Protocol r)),
      (''generated_at'', DStr (rfc3339 (Rep_GeneratedAt r))), (''duration_ms'', DInt (Rep_DurationMS r)), (''result'', DStr (Rep_Result r)),
      (''release_decision'', DStr (Rep_ReleaseDecision r)), (''summary'', DObj (summary_docs (Rep_Summary r)))] @
     (if Rep_Endpoints r = [] then [] else [(''endpoints'', map_docs (Rep_Endpoints r))]) @
     (if elems (Rep_ResidualRisks r) = [] then [] else [(''residual_risks'', slice_doc (Rep_ResidualRisks r))]) @
     [(''suites'', arr_docs (\<lambda>s. DObj (suite_docs s)) (Rep_Suites r))]"

lemma report_docs_marshal:
  assumes "report_ok r"
  shows "json_object (report_fields r) = Inr (DObj (report_docs r))"
proof -
  have "list_doc (json_object \<circ> suite_report_fields) (Rep_Suites r) = Inr (arr_docs (\<lambda>s. DObj (suite_docs s)) (Rep_Suites r))"
    using assms by (intro list_doc_arr) (auto simp: report_ok_def list_all_iff suite_docs_marshal)
  then have "report_fields r = map (\<lambda>(k, d). (k, Inr d)) (report_docs r)"
    using assms by (simp add: report_fields_def report_docs_def omit_if_def report_ok_def metadata_valid_def str_map_doc_sorted map_docs_def
        time_doc_ok summary_docs_marshal)
  then show ?thesis by (simp only: json_object_map)
qed

lemma slice_shape: "doc_depth (slice_doc s) \<le> 1"
  using depth_DStrs by (cases s) (simp_all add: slice_doc_def)

lemma report_docs_shape: "doc_ok (DObj (report_docs r))" "doc_depth (DObj (report_docs r)) \<le> maxNestingDepth"
proof -
  note a = arr_docs_shape[of "\<lambda>s. DObj (suite_docs s)" 4 "Rep_Suites r"]
  note facts = a[OF suite_docs_shape(1,2)] map_docs_shape[of "Rep_Endpoints r"] summary_docs_shape[of "Rep_Summary r"] slice_shape[of "Rep_ResidualRisks r"]
  show "doc_ok (DObj (report_docs r))" using facts by (auto simp: report_docs_def)
  have "doc_depth (DObj (report_docs r)) \<le> 6" using facts by (auto simp: report_docs_def)
  then show "doc_depth (DObj (report_docs r)) \<le> maxNestingDepth" by (simp add: maxNestingDepth_def)
qed

lemma decode_report:
  assumes "report_ok r"
  shows "decode_struct report_table (valid_doc (DObj (report_docs r))) no_report = Inr r"
proof -
  have "\<forall>x\<in>set (elems (Rep_Suites r)). decode_struct suite_report_table (valid_doc (DObj (suite_docs x))) no_suite_report = Inr x"
    using assms decode_suite by (auto simp: report_ok_def list_all_iff)
  then have suites: "set_structs suite_report_table no_suite_report upd (valid_doc (arr_docs (\<lambda>s. DObj (suite_docs s)) (Rep_Suites r))) r' =
      Inr (upd (Rep_Suites r) r')" for upd and r' :: Report
    by (rule set_structs_arr)
  have risks: "elems (Rep_ResidualRisks r) = [] \<longleftrightarrow> Rep_ResidualRisks r = None"
    using assms by (cases "Rep_ResidualRisks r") (auto simp: report_ok_def)
  show ?thesis
    using assms suites risks rfc3339_ascii
    by (cases r) (simp add: report_docs_def report_ok_def decode_struct_def report_table_def find_setter_exact no_report_def
        set_members_append optional_member if_distrib set_map_docs set_strings_slice set_struct_def decode_summary)
qed

lemma MarshalReport_UnmarshalReport:
  assumes "report_ok r"
  shows "MarshalReport r = Inr (indent_doc 0 (DObj (report_docs r)))" "UnmarshalReport (indent_doc 0 (DObj (report_docs r))) = Inr r"
proof -
  show "MarshalReport r = Inr (indent_doc 0 (DObj (report_docs r)))"
    unfolding MarshalReport_def report_docs_marshal[OF assms] and_then_simps ..
  show "UnmarshalReport (indent_doc 0 (DObj (report_docs r))) = Inr r"
    unfolding UnmarshalReport_def Unmarshal_struct_def Unmarshal_indent[OF report_docs_shape]
    using decode_report[OF assms] by simp
qed

end
