(* ===== verification/Cli_Guarantees.thy ===== *)
theory Cli_Guarantees
  imports Cli Conformance_Laws Report_Codec
begin

text \<open>
  What the command line tool guarantees: its local commands succeed, the demonstration run for the conformance
  suite passes the case that inspects it, and a report file never lies outside the report directory.
\<close>

declare valid_utf8.simps(2) [simp del] to_valid.simps(2) [simp del] lower_text.simps(2) [simp del]

section \<open>Total correctness of commands\<close>

definition moment :: "time \<Rightarrow> bool" where
  "moment now \<longleftrightarrow> year_ok now \<and> year_ok (Add now Hour) \<and> year_ok (Add now (5 * Minute))"

definition clock_fine :: "'w terminal \<Rightarrow> bool" where
  "clock_fine t \<longleftrightarrow> (\<forall>i. moment (B_clock (Term_bench t) i))"

text \<open>The terminal after drawing bytes, reading the clock and writing.\<close>

definition after :: "'w terminal \<Rightarrow> nat \<Rightarrow> nat \<Rightarrow> string \<Rightarrow> 'w terminal" where
  "after t n k out =
     t\<lparr>Term_bench := (Term_bench t)\<lparr>B_rand := drop n (B_rand (Term_bench t)), B_ticks := k\<rparr>, Term_out := Term_out t @ out\<rparr>"

text \<open>
  From every terminal with a sound clock and enough random bytes the command returns a value, having drawn
  exactly so many bytes, read the clock, written some text, and changed nothing else.
\<close>

definition completes :: "('w, 'a) cli \<Rightarrow> nat \<Rightarrow> ('a \<Rightarrow> string \<Rightarrow> bool) \<Rightarrow> bool" where
  "completes m n Q \<longleftrightarrow> (\<forall>t. clock_fine t \<longrightarrow> n \<le> length (B_rand (Term_bench t)) \<longrightarrow> (\<exists>x out k. m t = (Inr x, after t n k out) \<and> Q x out))"

lemma after_simps [simp]:
  "after t 0 (B_ticks (Term_bench t)) [] = t" "after (after t a k out) b k' out' = after t (a + b) k' (out @ out')"
  "clock_fine (after t n k out) = clock_fine t" "B_rand (Term_bench (after t n k out)) = drop n (B_rand (Term_bench t))"
  by (simp_all add: after_def clock_fine_def add.commute)

lemma completesI:
  "(\<And>t. clock_fine t \<Longrightarrow> n \<le> length (B_rand (Term_bench t)) \<Longrightarrow> m t = (Inr (x t), after t n (k t) (out t)) \<and> Q (x t) (out t)) \<Longrightarrow> completes m n Q"
  unfolding completes_def by blast

lemma completes_then:
  fixes m :: "('w, 'a) cli"
  assumes "completes m k (\<lambda>x out. out = [] \<and> Q x)" "k \<le> n" "\<And>x. Q x \<Longrightarrow> completes (f x) (n - k) R"
  shows "completes (then_do m f) n R"
  unfolding completes_def
proof (intro allI impI)
  fix t :: "'w terminal"
  assume c: "clock_fine t" and n: "n \<le> length (B_rand (Term_bench t))"
  then have "k \<le> length (B_rand (Term_bench t))" using assms(2) by simp
  then obtain x i where x: "m t = (Inr x, after t k i [])" "Q x" using assms(1) c unfolding completes_def by blast
  have "clock_fine (after t k i [])" "n - k \<le> length (B_rand (Term_bench (after t k i [])))" using c n by simp_all
  then obtain y out j where "f x (after t k i []) = (Inr y, after (after t k i []) (n - k) j out)" "R y out"
    using assms(3)[OF x(2)] unfolding completes_def by blast
  with x(1) assms(2) show "\<exists>x out k. then_do m f t = (Inr x, after t n k out) \<and> R x out" by (auto simp: then_do_def)
qed

lemma completes_give: "res = Inr x \<Longrightarrow> n = 0 \<Longrightarrow> Q x [] \<Longrightarrow> completes (give res) n Q"
  by (rule completesI[where x = "\<lambda>_. x" and k = "\<lambda>t. B_ticks (Term_bench t)" and out = "\<lambda>_. []"]) (simp add: give_def)

lemma completes_then_give: "res = Inr x \<Longrightarrow> completes (f x) n R \<Longrightarrow> completes (then_do (give res) f) n R"
  by (simp add: completes_def then_do_def give_def)

lemma completes_sdk:
  assumes "achieves m n Q"
  shows "completes (sdk m) n (\<lambda>x out. out = [] \<and> Q x)"
  unfolding completes_def
proof (intro allI impI)
  fix t :: "'b terminal"
  assume "n \<le> length (B_rand (Term_bench t))"
  then obtain x where "m (B_rand (Term_bench t)) = (Inr x, drop n (B_rand (Term_bench t)))" "Q x" using assms unfolding achieves_def by blast
  then show "\<exists>x out k. sdk m t = (Inr x, after t n k out) \<and> out = [] \<and> Q x"
    by (intro exI[of _ x] exI[of _ "[]"] exI[of _ "B_ticks (Term_bench t)"]) (simp add: sdk_def on_bench_def on_random_def after_def)
qed

lemma completes_Now: "completes Now 0 (\<lambda>now out. out = [] \<and> moment now)"
  by (rule completesI[where k = "\<lambda>t. Suc (B_ticks (Term_bench t))"]) (auto simp: Now_def on_bench_def time_Now_def clock_fine_def after_def)

lemma completes_short: "completes (randomShort kit) 0 (\<lambda>s out. out = [] \<and> True)"
  unfolding randomShort_def by (rule completes_then[OF completes_Now]) (auto intro: completes_give)

lemma completes_Println: "n = 0 \<Longrightarrow> completes (Println s) n (\<lambda>_ out. out = s @ [CHR 0x0A])"
  by (rule completesI[where k = "\<lambda>t. B_ticks (Term_bench t)"]) (auto simp: Println_def Print_def after_def)

lemma completes_weaken: "completes m n Q \<Longrightarrow> (\<And>x out. Q x out \<Longrightarrow> R x out) \<Longrightarrow> completes m n R"
  unfolding completes_def by blast

text \<open>A command that writes one line.\<close>

abbreviation writes_line :: "('w, unit) cli \<Rightarrow> nat \<Rightarrow> bool" where
  "writes_line m n \<equiv> completes m n (\<lambda>_ out. \<exists>line. out = line @ [CHR 0x0A])"

lemma writes_Encode: "v = Inr d \<Longrightarrow> n = 0 \<Longrightarrow> writes_line (Encode v) n"
  unfolding Encode_def by (rule completes_then_give[of _ "encode d"]) (auto simp: json_Marshal_def intro: completes_weaken[OF completes_Println])

section \<open>Local commands\<close>

lemma local_session:
  assumes "sdk_laws P" "year_ok now"
  shows "achieves (local_session P now) 128 ready_fixture"
  unfolding local_session_def
  apply (rule achieves_then[OF new_device[OF assms(1)]], simp, rule achieves_then[OF new_device[OF assms(1)]], simp)
  apply (rule achieves_then[OF create_hello[OF assms]], simp, rule achieves_then[OF create_hello[OF assms]], simp)
  subgoal premises prems for a b ha hb
  proof -
    have f: "device_as P ''local'' ''device-a'' a" "device_as P ''local'' ''device-b'' b" "''device-a'' \<noteq> ''device-b''"
      "hello_as P a ''session-local'' ''device-b'' ''grant-local'' now ha" "hello_as P b ''session-local'' ''device-a'' ''grant-local'' now hb"
      using prems by (simp_all add: device_as_def)
    obtain sa sb ra rb where s: "Establish P ha (LH_Hello hb) (Dev_Identity a) (Dev_Identity b) = Inr sa"
      "Establish P hb (LH_Hello ha) (Dev_Identity b) (Dev_Identity a) = Inr sb"
      "CreateReady P sa a = Inr ra" "CreateReady P sb b = Inr rb"
      "VerifyReady P sa rb (Dev_Identity b) = Inr (sa\<lparr>St_ready := True\<rparr>)" "VerifyReady P sb ra (Dev_Identity a) = Inr (sb\<lparr>St_ready := True\<rparr>)"
      "ready_pair (sa\<lparr>St_ready := True\<rparr>) (sb\<lparr>St_ready := True\<rparr>)"
      by (rule open_session[OF assms(1) f], rule that)
    show ?thesis
      by (rule achieves_then_give[OF s(1)], rule achieves_then_give[OF s(2)], unfold Let_def ready_or_zero_def s(3,4) sum.case,
          rule achieves_then_give[OF s(5)], rule achieves_then_give[OF s(6)], rule achieves_give[OF refl])
        (simp_all add: ready_fixture_def s(7))
  qed
  done

lemma readySession:
  assumes "sdk_laws (Tl_prims kit)"
  shows "completes (readySession kit) 128 (\<lambda>f out. out = [] \<and> ready_fixture f)"
  unfolding readySession_def
  by (rule completes_then[OF completes_Now]) (auto simp: moment_def intro: completes_sdk[OF local_session[OF assms]])

lemma localE2E:
  assumes "sdk_laws (Tl_prims kit)"
  shows "completes (localE2E kit) 128 (\<lambda>text out. out = [] \<and> text = ''hello from iscp'')"
  unfolding localE2E_def
  apply (rule completes_then[OF readySession[OF assms]], simp)
  subgoal premises prems for f
  proof -
    obtain a b sa sb where f: "f = (a, b, sa, sb)" by (cases f) auto
    let ?route = "\<lparr>Rt_RelayID = ''relay-local'', Rt_TTLSeconds = 60, Rt_Priority = 1\<rparr>"
    have r: "ready_pair sa sb" "route_ok ?route" using prems by (simp_all add: f ready_fixture_def route_ok_def int64_ok_def)
    obtain body where body: "EncodeText ''hello from iscp'' = Inr body" using EncodeText_ok by blast
    obtain e a' b' where e: "Encrypt (Tl_prims kit) (Some sa) ''msg-local'' TypeText ?route body = (Inr e, a')"
      "Decrypt (Tl_prims kit) (Some sb) e = (Inr body, Some b')"
      by (rule send_payload[OF assms r], rule that)
    have e': "fst (Encrypt (Tl_prims kit) (Some sa) ''msg-local'' TypeText ?route body) = Inr e" "fst (Decrypt (Tl_prims kit) (Some sb) e) = Inr body"
      by (simp_all add: e)
    have t: "DecodeText body = Inr \<lparr>Text_Text = ''hello from iscp''\<rparr>" using text_roundtrip[OF body] by (simp add: to_valid_ascii)
    show ?thesis
      unfolding f prod.case Let_def body sum.case
      by (rule completes_then_give[OF e'(1)], rule completes_then_give[OF e'(2)], rule completes_then_give[OF t], rule completes_give[OF refl]) simp_all
  qed
  done

lemma device_keys_valid:
  assumes "device_as P dm i signer"
  shows "key_valid (descriptorKey signer ''descriptor-signature'')" "key_valid (descriptorKey signer ''grant-signature'')"
proof -
  have "\<exists>x. PK_KID (ID_PublicKey (Dev_Identity signer)) = Base64URL x" "\<exists>x. PK_Public (ID_PublicKey (Dev_Identity signer)) = Base64URL x"
    using assms by (auto simp: device_as_def device_ok_def Let_def Thumbprint_def)
  then show "key_valid (descriptorKey signer ''descriptor-signature'')" "key_valid (descriptorKey signer ''grant-signature'')"
    using valid_Base64URL by (auto simp: key_valid_def descriptorKey_def)
qed

lemma signed_shows:
  assumes "Sign P signer ty desc now = Inr sd"
  shows "\<exists>d. json_object (descriptor_fields sd) = Inr d"
  using assms by (auto simp: Sign_def Let_def and_then_Inr_iff descriptor_input_def signature_input_def json_Marshal_def json_object_def
      descriptor_fields_def)

lemma writes_signed:
  assumes "Sign P signer ty desc now = Inr sd" "Verify P sd (Dev_Identity signer) (DefaultGate ProfileProduction) now = Inr ()"
    and "Pin P sd = Inr pin" "n = 0"
  shows "writes_line (sign_and_show P signer ty desc now) n"
proof -
  obtain d where d: "json_object (descriptor_fields sd) = Inr d" using signed_shows[OF assms(1)] by blast
  show ?thesis
    unfolding sign_and_show_def
    by (rule completes_then_give[OF assms(1)], rule completes_then_give[OF assms(2)], rule completes_then_give[OF assms(3)], rule writes_Encode)
       (simp_all add: json_object_def[of "[_, _, _]"] d assms(4))
qed

lemma later: "now \<le> Add now Hour" "now < Add now (5 * Minute)"
  by (simp_all add: Add_def Hour_def Minute_def Second_def)

lemma runDescriptor_shows:
  assumes "sdk_laws (Tl_prims kit)" "cmd \<in> {''relay'', ''trust''}"
  shows "writes_line (runDescriptor kit [cmd]) 32"
  unfolding runDescriptor_def list.case
  apply (rule completes_then[OF completes_Now], simp, rule completes_then[OF completes_sdk[OF new_device[OF assms(1)]]], simp)
  subgoal premises prems for now signer
  proof -
    let ?r = "local_relay signer now" and ?t = "local_trust_root signer now"
    note y = prems(1)[unfolded moment_def] and laws = sdk_lawsD(1,2)[OF assms(1)]
    have d: "device_ok (Tl_prims kit) signer" using prems(2) by (simp add: device_as_def)
    have gate: "ValidateGate (DefaultGate ProfileProduction) = Inr ()" by (simp add: DefaultGate_valid)
    have v: "relay_valid ?r" "RD_Metadata ?r = []" "RD_Type ?r = relay_type" "now \<le> RD_ExpiresAt ?r"
      "trust_root_valid ?t" "TD_Metadata ?t = []" "TD_Type ?t = trust_root_type" "now \<le> TD_ExpiresAt ?t"
      using y device_keys_valid[OF prems(2)] later
      by (simp_all add: relay_valid_def local_relay_def trust_root_valid_def local_trust_root_def metadata_valid_def relay_type_def trust_root_type_def)
    obtain sd pin where sd: "Sign (Tl_prims kit) signer relay_type (json_object (relay_fields ?r)) now = Inr sd" "Pin (Tl_prims kit) sd = Inr pin"
      using relay_signs[OF v(1,2)] y by blast
    obtain st pin' where st: "Sign (Tl_prims kit) signer trust_root_type (json_object (trust_root_fields ?t)) now = Inr st" "Pin (Tl_prims kit) st = Inr pin'"
      using trust_root_signs[OF v(5,6)] y by blast
    have "writes_line (sign_and_show (Tl_prims kit) signer relay_type (json_object (relay_fields ?r)) now) 0"
      by (rule writes_signed[OF sd(1) _ sd(2) refl]) (use Sign_Verify_relay[OF laws d v(1) sd(1)] gate v(4) in blast)
    moreover have "writes_line (sign_and_show (Tl_prims kit) signer trust_root_type (json_object (trust_root_fields ?t)) now) 0"
      by (rule writes_signed[OF st(1) _ st(2) refl]) (use Sign_Verify_trust_root[OF laws d v(5) st(1)] gate v(8) in blast)
    ultimately show ?thesis using assms(2) by (auto simp: Let_def v(3,7))
  qed
  done

lemma runProof_verify:
  assumes "sdk_laws (Tl_prims kit)"
  shows "writes_line (runProof kit [''verify'']) 32"
  unfolding runProof_def list.case
  apply (rule completes_then[OF completes_Now], simp, rule completes_then[OF completes_short], simp)
  apply (rule completes_then[OF completes_sdk[OF new_device[OF assms]]], simp)
  apply (rule completes_then[OF completes_short], simp, rule completes_then[OF completes_short], simp)
  subgoal premises prems for now short dev challenge nonce
  proof -
    obtain p where p: "CreateProof (Tl_prims kit) dev ''relay-local'' (''challenge-'' @ challenge) (''nonce-'' @ nonce) now = Inr p"
      using CreateProof_ok[OF prems(1)[unfolded moment_def, THEN conjunct1]] by blast
    have f: "DP_Audience p = ''relay-local''" "DP_Challenge p = ''challenge-'' @ challenge"
      using p by (auto simp: CreateProof_def Let_def and_then_Inr_iff)
    have v: "VerifyProof (Tl_prims kit) (Dev_Identity dev) p (DP_Audience p) (DP_Challenge p) now Minute = Inr ()"
      unfolding f by (rule CreateProof_verifies[OF sdk_lawsD(1)[OF assms] _ p]) (use prems in \<open>simp_all add: device_as_def Minute_def Second_def\<close>)
    show ?thesis by (rule completes_then_give[OF p], simp, rule completes_then_give[OF v], rule writes_Encode) (simp_all add: json_object_def)
  qed
  done

lemma runSession_ready:
  assumes "sdk_laws (Tl_prims kit)"
  shows "writes_line (runSession kit [''ready'']) 128"
  unfolding runSession_def list.case
  by (rule completes_then[OF readySession[OF assms]], simp, auto simp: json_object_def intro!: writes_Encode)

lemma runEnvelope_local:
  assumes "sdk_laws (Tl_prims kit)" "cmd \<in> {''encrypt'', ''decrypt''}"
  shows "writes_line (runEnvelope kit [cmd]) 128"
  unfolding runEnvelope_def list.case
  apply (rule completes_then[OF readySession[OF assms(1)]], simp)
  subgoal premises prems for f
  proof -
    obtain a b sa sb where f: "f = (a, b, sa, sb)" by (cases f) auto
    let ?route = "\<lparr>Rt_RelayID = ''relay-local'', Rt_TTLSeconds = 60, Rt_Priority = 1\<rparr>"
    have r: "ready_pair sa sb" "route_ok ?route" using prems by (simp_all add: f ready_fixture_def route_ok_def int64_ok_def)
    obtain body where body: "EncodeText ''cli payload'' = Inr body" using EncodeText_ok by blast
    show ?thesis
      unfolding f prod.case
      apply (rule completes_then_give[OF body], rule completes_then[OF completes_short], simp)
      subgoal premises _ for short
      proof -
        obtain e a' b' where e: "Encrypt (Tl_prims kit) (Some sa) (''msg-'' @ short) TypeText ?route body = (Inr e, a')"
          "Decrypt (Tl_prims kit) (Some sb) e = (Inr body, Some b')"
          by (rule send_payload[OF assms(1) r], rule that)
        have e': "fst (Encrypt (Tl_prims kit) (Some sa) (''msg-'' @ short) TypeText ?route body) = Inr e" "fst (Decrypt (Tl_prims kit) (Some sb) e) = Inr body"
          unfolding e by (rule fst_conv)+
        show ?thesis
          using assms(2) e'(2)
          by (intro completes_then_give[OF e'(1)]) (auto simp: json_object_def intro!: writes_Encode completes_then_give)
      qed
      done
  qed
  done

lemma local_bundle_signs:
  assumes "moment now"
  shows "\<exists>b. SignBundle P issuer (local_bundle i d tp now) = Inr b"
  using bundle_signs[of "local_bundle i d tp now"] assms metadata_only_fine by (auto simp: local_bundle_def moment_def)

lemma localProvisioningFixture:
  assumes "sdk_laws (Tl_prims kit)" "moment now"
  shows "completes (localProvisioningFixture kit now) 128 (\<lambda>f out. out = [] \<and> (case f of (issuer, watch, channel, b) \<Rightarrow>
    ApplyBundle (Tl_prims kit) channel (Dev_Identity watch) b (Dev_Identity issuer) now = Inr ()))"
  unfolding localProvisioningFixture_def
  apply (rule completes_then[OF completes_short], simp, rule completes_then[OF completes_sdk[OF new_device[OF assms(1)]]], simp)
  apply (rule completes_then[OF completes_short], simp, rule completes_then[OF completes_sdk[OF new_device[OF assms(1)]]], simp)
  apply (rule completes_then[OF completes_sdk[OF local_channel[OF assms(1)]]], simp)
  subgoal premises prems for phone issuer name watch channel
  proof -
    obtain tp where tp: "identity_Thumbprint (Tl_prims kit) (Dev_Identity watch) = Inr tp" using device_thumbprint[OF prems(4)] by blast
    have d: "device_ok (Tl_prims kit) issuer" using prems(2) by (simp add: device_as_def)
    have "completes (then_do (give (SignBundle (Tl_prims kit) issuer (local_bundle i (ID_DeviceID (Dev_Identity watch)) tp now))) (\<lambda>b.
       give (Inr (issuer, watch, channel, b)))) 0 (\<lambda>f out. out = [] \<and> (case f of (issuer, watch, channel, b) \<Rightarrow>
       ApplyBundle (Tl_prims kit) channel (Dev_Identity watch) b (Dev_Identity issuer) now = Inr ()))" for i
    proof -
      obtain b where b: "SignBundle (Tl_prims kit) issuer (local_bundle i (ID_DeviceID (Dev_Identity watch)) tp now) = Inr b"
        using local_bundle_signs[OF assms(2)] by blast
      have ap: "ApplyBundle (Tl_prims kit) channel (Dev_Identity watch) b (Dev_Identity issuer) now = Inr ()"
        unfolding SignBundle_apply[OF sdk_lawsD(1)[OF assms(1)] d b] using prems(5) tp later by (simp add: local_bundle_def)
      show ?thesis by (rule completes_then_give[OF b], rule completes_give[OF refl]) (simp_all add: ap)
    qed
    then show ?thesis by (intro completes_then_give[OF tp] completes_then[OF completes_short]) simp_all
  qed
  done

lemma runProvisioning_channel:
  assumes "sdk_laws (Tl_prims kit)"
  shows "writes_line (runProvisioning kit [''simulate-local-channel'']) 64"
  unfolding runProvisioning_def list.case
  by (rule completes_then[OF completes_Now], simp, simp, rule completes_then[OF completes_sdk[OF local_channel[OF assms]]])
     (auto simp: json_object_def intro!: writes_Encode)

lemma runProvisioning_create:
  assumes "sdk_laws (Tl_prims kit)"
  shows "writes_line (runProvisioning kit [''create-bundle'']) 128"
  unfolding runProvisioning_def list.case
  apply (rule completes_then[OF completes_Now], simp)
  subgoal premises prems for now
  proof -
    have "completes (localProvisioningBundle kit now) 128 (\<lambda>b out. out = [] \<and> True)"
      unfolding localProvisioningBundle_def
      by (rule completes_then[OF localProvisioningFixture[OF assms prems]]) (auto intro: completes_give)
    then show ?thesis by (simp, rule completes_then) (auto simp: json_object_def intro!: writes_Encode)
  qed
  done

lemma runProvisioning_apply:
  assumes "sdk_laws (Tl_prims kit)"
  shows "writes_line (runProvisioning kit [''apply-bundle'']) 128"
  unfolding runProvisioning_def list.case
  apply (rule completes_then[OF completes_Now], simp)
  subgoal premises prems for now
    by (simp, rule completes_then[OF localProvisioningFixture[OF assms prems]])
       (auto simp: json_object_def intro!: writes_Encode completes_then_give)
  done

section \<open>Workflows of the conformance run\<close>

lemma captures:
  assumes "writes_line m n"
  shows "completes (captureOutput m) n (\<lambda>text out. out = [] \<and> True)"
  unfolding completes_def
proof (intro allI impI)
  fix t :: "'a terminal"
  let ?t = "t\<lparr>Term_out := []\<rparr>"
  assume "clock_fine t" "n \<le> length (B_rand (Term_bench t))"
  then have "clock_fine ?t" "n \<le> length (B_rand (Term_bench ?t))" by (simp_all add: clock_fine_def)
  then obtain x out k where "m ?t = (Inr x, after ?t n k out)" using assms unfolding completes_def by blast
  moreover have "(after ?t n k out)\<lparr>Term_out := Term_out t\<rparr> = after t n k []" by (simp add: after_def)
  ultimately show "\<exists>x out k. captureOutput m t = (Inr x, after t n k out) \<and> out = [] \<and> True" by (auto simp: captureOutput_def)
qed

lemma workflows_complete:
  assumes "list_all2 (\<lambda>command n. writes_line (run_with (\<lambda>_. give (errorf ''nested'')) kit command) n) commands ns"
  shows "completes (run_workflows kit commands) (sum_list ns) (\<lambda>results out. out = [] \<and> map fst results = map (separate '' '') commands)"
  using assms
proof (induction commands ns rule: list_all2_induct)
  case Nil
  show ?case by (simp add: completes_give)
next
  case (Cons command commands n ns)
  show ?case
    unfolding run_workflows.simps
    apply (rule completes_then[OF captures[OF Cons(1)]], simp)
    apply (rule completes_then[OF Cons(3)], simp)
    by (rule completes_give[OF refl]) simp_all
qed

lemma workflow_sizes:
  assumes "sdk_laws (Tl_prims kit)"
  shows "list_all2 (\<lambda>command n. writes_line (run_with c kit command) n) workflow_commands [32, 32, 32, 128, 128, 128, 64, 128, 128]"
  using runDescriptor_shows[OF assms] runProof_verify[OF assms] runSession_ready[OF assms] runEnvelope_local[OF assms]
    runProvisioning_channel[OF assms] runProvisioning_create[OF assms] runProvisioning_apply[OF assms]
  by (simp add: workflow_commands_def run_with_def)

lemma workflows_run:
  assumes "sdk_laws (Tl_prims kit)" "\<forall>i. moment (B_clock b i)" "800 \<le> length (B_rand b)"
  obtains out b' where "runLocalCLIWorkflowsForConformance kit dir b = (Inr out, b')" "map fst out = map (separate '' '') workflow_commands"
proof -
  let ?t = "\<lparr>Term_bench = b, Term_out = [], Term_dir = dir\<rparr>"
  have "completes (run_workflows kit workflow_commands) 800 (\<lambda>results out. out = [] \<and> map fst results = map (separate '' '') workflow_commands)"
    using workflows_complete[OF workflow_sizes[OF assms(1)]] by simp
  moreover have "clock_fine ?t" "800 \<le> length (B_rand (Term_bench ?t))" using assms(2,3) by (simp_all add: clock_fine_def)
  ultimately obtain x k where "run_workflows kit workflow_commands ?t = (Inr x, after ?t 800 k [])" "map fst x = map (separate '' '') workflow_commands"
    unfolding completes_def by blast
  then show thesis by (intro that) (auto simp: runLocalCLIWorkflowsForConformance_def)
qed

lemma demo_run:
  assumes "sdk_laws (Tl_prims kit)" "\<forall>i. moment (B_clock b i)" "128 \<le> length (B_rand b)"
  obtains b' where "runLocalE2EForConformance kit dir b = (Inr (demo_line ''hello from iscp''), b')"
proof -
  let ?t = "\<lparr>Term_bench = b, Term_out = [], Term_dir = dir\<rparr>"
  have "clock_fine ?t" "128 \<le> length (B_rand (Term_bench ?t))" using assms(2,3) by (simp_all add: clock_fine_def)
  then obtain k where "localE2E kit ?t = (Inr ''hello from iscp'', after ?t 128 k [])"
    using localE2E[OF assms(1)] unfolding completes_def by blast
  then show thesis by (intro that) (simp add: runLocalE2EForConformance_def)
qed

section \<open>The output of the demonstration\<close>

lemma demo_text: "demo_line ''hello from iscp'' = ''local-e2e ok payload_type=text plaintext_redacted=true delivered_text_len 15''"
proof -
  have "show_int 15 = ''15''" by code_simp
  then show ?thesis by (simp add: demo_line_def)
qed

lemma lower_text_lower:
  "list_all (\<lambda>c. c \<noteq> CHR 0xE2 \<and> c \<noteq> CHR 0xC4 \<and> lower_char c = c) s \<Longrightarrow> lower_text s = s"
proof (induction s)
  case (Cons a s)
  then have "lower_text s = s" "a \<noteq> CHR 0xE2" "a \<noteq> CHR 0xC4" "lower_char a = a" by simp_all
  then show ?case by (subst lower_text.simps) (auto split: list.split)
qed simp

lemma demo_lower: "lower_text ''local-e2e ok payload_type=text plaintext_redacted=true delivered_text_len 15'' =
   ''local-e2e ok payload_type=text plaintext_redacted=true delivered_text_len 15''"
  by (rule lower_text_lower) code_simp

lemma forbidden_lower: "\<forall>x\<in>set forbidden_output. lower_text x = x"
proof
  fix x assume "x \<in> set forbidden_output"
  moreover have "list_all (list_all (\<lambda>c. c \<noteq> CHR 0xE2 \<and> c \<noteq> CHR 0xC4 \<and> lower_char c = c)) forbidden_output" by code_simp
  ultimately show "lower_text x = x" unfolding list_all_iff[of _ forbidden_output] by (intro lower_text_lower) (rule bspec)
qed

lemma demo_line_clean:
  "contains_sub ''local-e2e ok'' (demo_line ''hello from iscp'')"
  "filter (\<lambda>forbidden. contains_sub (lower_text forbidden) (lower_text (demo_line ''hello from iscp''))) forbidden_output = []"
proof -
  show "contains_sub ''local-e2e ok'' (demo_line ''hello from iscp'')" unfolding demo_text by simp
  have "\<forall>x\<in>set forbidden_output. \<not> contains_sub x ''local-e2e ok payload_type=text plaintext_redacted=true delivered_text_len 15''"
    by (simp add: forbidden_output_def)
  then show "filter (\<lambda>forbidden. contains_sub (lower_text forbidden) (lower_text (demo_line ''hello from iscp''))) forbidden_output = []"
   unfolding demo_text demo_lower using forbidden_lower by (auto intro!: filter_False simp del: contains_sub.simps)
qed
section \<open>Report paths\<close>

definition plain_name :: "string \<Rightarrow> bool" where
  "plain_name s \<longleftrightarrow> s \<noteq> [] \<and> CHR ''/'' \<notin> set s \<and> s \<noteq> ''.'' \<and> s \<noteq> ''..''"

text \<open>What remains of a path when it has been cleaned: names, and the parent directory.\<close>

abbreviation step_name :: "string \<Rightarrow> bool" where
  "step_name s \<equiv> plain_name s \<or> s = ''..''"

lemma split_no_slash: "\<forall>e\<in>set (split_path s). CHR ''/'' \<notin> set e"
  by (induction s) (auto split: list.splits)

lemma split_plain: "CHR ''/'' \<notin> set s \<Longrightarrow> split_path s = [s]"
  by (induction s) auto

lemma clean_stack:
  "list_all step_name stack \<Longrightarrow> \<forall>e\<in>set es. CHR ''/'' \<notin> set e \<Longrightarrow> list_all step_name (fold (clean_step rooted) es stack)"
proof (induction es arbitrary: stack)
  case (Cons e es)
  have "list_all step_name (clean_step rooted e stack)"
    using Cons.prems by (auto simp: clean_step_def plain_name_def split: list.splits)
  with Cons show ?case by simp
qed simp

lemma step_name_shape: "step_name s \<Longrightarrow> s \<noteq> [] \<and> CHR ''/'' \<notin> set s \<and> s \<noteq> ''.''"
  by (auto simp: plain_name_def)

lemma separate_snoc: "separate sep (xs @ [y]) = (if xs = [] then y else separate sep xs @ sep @ y)"
  by (induction sep xs rule: separate.induct) auto

lemma Clean_relative:
  assumes "\<not> IsAbs (Clean path)" "Clean path \<noteq> ''.''"
  obtains es e where "Clean path = separate ''/'' (es @ [e])" "step_name e"
proof -
  define es where "es = rev (fold (clean_step (hd path = CHR ''/'')) (split_path path) [])"
  have path: "path \<noteq> []" using assms(2) by (auto simp: Clean_def)
  have all: "list_all step_name es"
    unfolding es_def using clean_stack[of "[]" "split_path path"] split_no_slash[of path] by simp
  have rel: "hd path \<noteq> CHR ''/''" using assms(1) path by (auto simp: Clean_def IsAbs_def Let_def)
  then have c: "Clean path = (if separate ''/'' es = [] then ''.'' else separate ''/'' es)"
    using path by (simp add: Clean_def es_def Let_def)
  then have "es \<noteq> []" using assms(2) by auto
  then obtain es' e where es: "es = es' @ [e]" by (cases es rule: rev_cases) auto
  have "Clean path = separate ''/'' (es' @ [e])" using c assms(2) by (auto simp: es split: if_splits)
  moreover have "step_name e" using all by (auto simp: es list_all_iff)
  ultimately show thesis by (rule that)
qed

lemma Base_separate:
  assumes "step_name e"
  shows "Base (separate ''/'' (es @ [e])) = e"
proof -
  note e = step_name_shape[OF assms]
  obtain p where p: "separate ''/'' (es @ [e]) = p @ e" "p = [] \<or> last p = CHR ''/''"
    by (cases "es = []") (simp_all add: separate_snoc)
  have "last e \<noteq> CHR ''/''" using e by (metis last_in_set)
  then have t: "TrimRight_slash (p @ e) = p @ e"
    using e by (cases e rule: rev_cases) (auto simp: TrimRight_slash_def)
  have "takeWhile (\<lambda>c. c \<noteq> CHR ''/'') (rev (p @ e)) = rev e"
    using e p(2) by (cases p rule: rev_cases) (auto simp: takeWhile_append)
  then show ?thesis using e by (simp add: Base_def p(1) t Let_def)
qed

lemma split_conformance: "CHR ''/'' \<notin> set y \<Longrightarrow> split_path (''conformance/'' @ y) = [''conformance'', y]"
  by (simp add: split_plain)

lemma Join_conformance:
  assumes "step_name y"
  shows "Join ''conformance'' y = (if y = ''..'' then ''.'' else ''conformance/'' @ y)"
proof -
  note y = step_name_shape[OF assms]
  have "Join ''conformance'' y = Clean (''conformance/'' @ y)" using y by (simp add: Join_def)
  also have "\<dots> = (if y = ''..'' then ''.'' else ''conformance/'' @ y)"
    using y split_conformance[of y] by (auto simp: Clean_def clean_step_def Let_def)
  finally show ?thesis .
qed

lemma guarded_Inr:
  "(if A then Inl x else if B then Inl y else if C then Inl z else Inr b) = Inr name \<longleftrightarrow> \<not> A \<and> \<not> B \<and> \<not> C \<and> name = b"
  by auto

lemma report_path:
  "safeReportFileName path = Inr name \<longleftrightarrow>
     plain_name name \<and> Clean (if path = [] then ''conformance/report.json'' else path) = ''conformance/'' @ name"
proof -
  define c where "c = Clean (if path = [] then ''conformance/report.json'' else path)"
  have s: "safeReportFileName path = Inr name \<longleftrightarrow> \<not> IsAbs c \<and> c \<noteq> ''.'' \<and> c \<noteq> ''..'' \<and> \<not> starts_with ''../'' c \<and>
      c = Join ''conformance'' (Base c) \<and> name = Base c"
    unfolding safeReportFileName_def c_def[symmetric] Let_def errorf_def guarded_Inr by blast
  show ?thesis
    unfolding c_def[symmetric]
  proof
    assume "safeReportFileName path = Inr name"
    note n = this[unfolded s]
    have "\<not> IsAbs c" "c \<noteq> ''.''" using n by blast+
    then obtain es e where c: "c = separate ''/'' (es @ [e])" and e: "step_name e" unfolding c_def by (rule Clean_relative)
    have b: "Base c = e" unfolding c by (rule Base_separate[OF e])
    have "e \<noteq> ''..''" using n Join_conformance[OF e] unfolding b by metis
    with n e Join_conformance[OF e] show "plain_name name \<and> c = ''conformance/'' @ name" unfolding b by metis
  next
    assume n: "plain_name name \<and> c = ''conformance/'' @ name"
    then have "c = separate ''/'' ([''conformance''] @ [name])" by simp
    then have b: "Base c = name" using Base_separate[of name "[''conformance'']"] n by simp
    have "name \<noteq> ''..''" using n by (simp add: plain_name_def)
    then show "safeReportFileName path = Inr name"
      unfolding s b using n Join_conformance[of name] by (simp add: IsAbs_def)
  qed
qed

section \<open>Properties\<close>

text \<open>C19. The conformance cases on the command line tool: with primitives that obey their laws, clock readings JSON can write and 800 random
  bytes, the local end-to-end demonstration that \<^verbatim>\<open>iscp conformance run\<close> hands to the suite passes case \<^verbatim>\<open>P1-CLI-001\<close> (it succeeds, and its
  output shows neither the plaintext nor any key material), and all nine local workflow commands succeed.\<close>

theorem cli_cases_run:
  assumes "sdk_laws (Tl_prims kit)" "\<forall>i. moment (B_clock b i)" "800 \<le> length (B_rand b)"
  shows "fst (caseCLILocalE2E (conformance_options kit dir f) b) = Inr [(''command'', ''demo local-e2e''), (''plaintext_redacted'', ''true'')] \<and>
    (\<exists>out b'. runLocalCLIWorkflowsForConformance kit dir b = (Inr out, b') \<and>
       map fst out = [''descriptor relay'', ''descriptor trust'', ''proof verify'', ''session ready'', ''envelope encrypt'', ''envelope decrypt'',
         ''provisioning simulate-local-channel'', ''provisioning create-bundle'', ''provisioning apply-bundle''])"
proof
  obtain b' where "runLocalE2EForConformance kit dir b = (Inr (demo_line ''hello from iscp''), b')"
    by (rule demo_run[OF assms(1,2)]) (use assms(3) in simp)
  then show "fst (caseCLILocalE2E (conformance_options kit dir f) b) = Inr [(''command'', ''demo local-e2e''), (''plaintext_redacted'', ''true'')]"
    by (simp add: caseCLILocalE2E_def conformance_options_def then_do_def trial_of_def demo_line_clean settle_def give_def)
  obtain out b'' where "runLocalCLIWorkflowsForConformance kit dir b = (Inr out, b'')" "map fst out = map (separate '' '') workflow_commands"
    by (rule workflows_run[OF assms])
  then show "\<exists>out b'. runLocalCLIWorkflowsForConformance kit dir b = (Inr out, b') \<and>
       map fst out = [''descriptor relay'', ''descriptor trust'', ''proof verify'', ''session ready'', ''envelope encrypt'', ''envelope decrypt'',
         ''provisioning simulate-local-channel'', ''provisioning create-bundle'', ''provisioning apply-bundle'']"
    by (auto simp: workflow_commands_def)
qed

theorem cli_cases_run_witness:
  "fst (caseCLILocalE2E (conformance_options
      \<lparr>Tl_prims = model_prims, Tl_sort = insertion_sort, Tl_outside = \<lparr>Out_do = (\<lambda>_ w. (Inl (StdError ''refused''), w)), Out_time_text = (\<lambda>_. ''now''),
         Out_number = Some\<rparr>, Tl_getenv = (\<lambda>_. [])\<rparr>
      \<lparr>Dir_exists = False, Dir_files = Map.empty, Dir_fault = (\<lambda>_. None), Dir_torn = None\<rparr>
      \<lparr>CF_output = [], CF_relay = [], CF_trust = [], CF_filtered = []\<rparr>)
      \<lparr>B_rand = replicate 800 CHR ''r'', B_clock = (\<lambda>_. 3600000000000), B_ticks = 0, B_net = ()\<rparr>) =
     Inr [(''command'', ''demo local-e2e''), (''plaintext_redacted'', ''true'')]"
proof -
  have "moment 3600000000000" by code_simp
  then show ?thesis
    using cli_cases_run[of "\<lparr>Tl_prims = model_prims, Tl_sort = insertion_sort, Tl_outside = \<lparr>Out_do = (\<lambda>_ w. (Inl (StdError ''refused''), w)),
        Out_time_text = (\<lambda>_. ''now''), Out_number = Some\<rparr>, Tl_getenv = (\<lambda>_. [])\<rparr>"
        "\<lparr>B_rand = replicate 800 CHR ''r'', B_clock = (\<lambda>_. 3600000000000), B_ticks = 0, B_net = ()\<rparr>"] model_sdk_laws
    by (simp del: replicate.simps)
qed

text \<open>C22. A conformance report stays in its directory: \<^verbatim>\<open>safeReportFileName\<close> accepts a path exactly when its lexical cleaning is
  \<^verbatim>\<open>conformance/\<close> followed by one plain name, and returns that name, which has no separator and is neither \<^verbatim>\<open>.\<close> nor \<^verbatim>\<open>..\<close>; the empty path
  stands for \<^verbatim>\<open>conformance/report.json\<close>.\<close>

theorem report_path_confined:
  "safeReportFileName path = Inr name \<longleftrightarrow>
     plain_name name \<and> Clean (if path = [] then ''conformance/report.json'' else path) = ''conformance/'' @ name"
  by (rule report_path)

text \<open>C20. A report survives the report file: written by \<^verbatim>\<open>MarshalReport\<close> into the report directory of a file system without faults, it is read
  back as the same report, so that \<^verbatim>\<open>iscp conformance validate-report\<close> returns the verdict of \<^verbatim>\<open>ValidateP0\<close> on the original report, and with
  \<^verbatim>\<open>--release\<close> that of \<^verbatim>\<open>ValidateRelease\<close>, whatever the directory held before.\<close>

theorem report_file_roundtrip:
  assumes "report_ok r" "safeReportFileName path = Inr name" "\<forall>op. Dir_fault (Term_dir t) op = None"
  shows "\<exists>data t'. MarshalReport r = Inr data \<and> UnmarshalReport data = Inr r \<and>
    then_do make_directory (\<lambda>_. then_do open_root (\<lambda>_. write_file name data)) t = (Inr (), t') \<and>
    fst (validateConformanceReport path release t') = (if release then ValidateRelease r else ValidateP0 r)"
proof -
  let ?data = "indent_doc 0 (DObj (report_docs r))"
  let ?t = "t\<lparr>Term_dir := (Term_dir t)\<lparr>Dir_exists := True, Dir_files := (Dir_files (Term_dir t))(name \<mapsto> ?data)\<rparr>\<rparr>"
  note codec = MarshalReport_UnmarshalReport[OF assms(1)]
  have w: "then_do make_directory (\<lambda>_. then_do open_root (\<lambda>_. write_file name ?data)) t = (Inr (), ?t)"
    using assms(3) by (simp add: then_do_def make_directory_def open_root_def write_file_def Let_def)
  have "fst (validateConformanceReport path release ?t) = (if release then ValidateRelease r else ValidateP0 r)"
    using assms(2,3) codec(2)
    by (simp add: validateConformanceReport_def then_do_def give_def open_root_def read_file_def Println_def Print_def split: sum.split)
  with codec w show ?thesis by blast
qed

theorem report_file_roundtrip_witness:
  "\<exists>data t'. then_do make_directory (\<lambda>_. then_do open_root (\<lambda>_. write_file ''report.json'' data))
      \<lparr>Term_bench = \<lparr>B_rand = [], B_clock = (\<lambda>_. 0), B_ticks = 0, B_net = ()\<rparr>, Term_out = [],
       Term_dir = \<lparr>Dir_exists = False, Dir_files = Map.empty, Dir_fault = (\<lambda>_. None), Dir_torn = None\<rparr>\<rparr> = (Inr (), t') \<and>
    fst (validateConformanceReport ''conformance/./report.json'' False t') = errorf ''conformance report has no executed cases''"
proof -
  let ?r = "no_report\<lparr>Rep_Type := ReportType, Rep_Endpoints := [(''relay'', ''http://r'')], Rep_ResidualRisks := Some [''none''],
    Rep_Suites := Some [no_suite_report\<lparr>SRep_ID := ''p0_core'', SRep_Cases := Some [no_case_report\<lparr>CRep_Evidence := [(''a'', ''b'')]\<rparr>]\<rparr>]\<rparr>"
  have "year_ok 0" by code_simp
  then have r: "report_ok ?r"
    by (simp add: report_ok_def no_report_def suite_report_ok_def no_suite_report_def case_report_ok_def no_case_report_def summary_ok_def
        metadata_valid_def int64_ok_def ReportType_def valid_utf8_ascii)
  have p: "safeReportFileName ''conformance/./report.json'' = Inr ''report.json''" by code_simp
  have "ValidateP0 ?r = errorf ''conformance report has no executed cases''" by (simp add: ValidateP0_def no_report_def)
  then show ?thesis
    using report_file_roundtrip[OF r p, of "\<lparr>Term_bench = \<lparr>B_rand = [], B_clock = (\<lambda>_. 0), B_ticks = 0, B_net = ()\<rparr>, Term_out = [],
       Term_dir = \<lparr>Dir_exists = False, Dir_files = Map.empty, Dir_fault = (\<lambda>_. None), Dir_torn = None\<rparr>\<rparr>" False]
    by (simp only: terminal.simps Dir.simps if_False simp_thms) blast
qed

end
