(* ===== verification/Simulator.thy ===== *)
theory Simulator
  imports Cli_Guarantees
begin

text \<open>
  The phone and watch example of \<^verbatim>\<open>src/examples/phone-watch-simulator/main.go\<close>: a phone provisions a watch over a
  local channel, both open a session, and the watch sends an audio frame. The example discards the errors of the
  handshake; it then goes on with zero values, and a session that is nil ends it with a run-time panic.
\<close>

declare valid_utf8.simps(2) [simp del] to_valid.simps(2) [simp del]

section \<open>The example\<close>

definition no_local_hello :: LocalHello where
  "no_local_hello =
     \<lparr>LH_Hello = \<lparr>H_Type = [], H_SessionID = [], H_DomainID = [], H_DeviceID = [], H_PeerDeviceID = [], H_Ciphersuite = [], H_EphemeralPublicKey = [],
        H_GrantID = [], H_IssuedAt = 0, H_Signature = no_signature\<rparr>,
      LH_privateKey = X25519PrivateKey (replicate 32 NUL)\<rparr>"

definition or_zero :: "'a \<Rightarrow> 'a result \<Rightarrow> 'a" where
  "or_zero zero res = (case res of Inl _ \<Rightarrow> zero | Inr x \<Rightarrow> x)"

text \<open>\<^verbatim>\<open>[]byte(`{"type":"relay"}`)\<close>\<close>

definition typed_raw :: "string \<Rightarrow> raw" where
  "typed_raw ty = Some (CHR ''{'' # CHR 0x22 # ''type'' @ [CHR 0x22, CHR '':'', CHR 0x22] @ ty @ [CHR 0x22, CHR ''}''])"

definition watch_bundle :: "Device \<Rightarrow> string \<Rightarrow> time \<Rightarrow> Bundle" where
  "watch_bundle watch tp now =
     \<lparr>Bu_Type = [], Bu_BundleID = ''bundle-watch'', Bu_IssuedToDeviceID = ID_DeviceID (Dev_Identity watch), Bu_IssuedToPublicKeyThumbprint = tp,
      Bu_RelayDescriptor = typed_raw ''relay'', Bu_TrustRootDescriptor = typed_raw ''trust'', Bu_AccessCredential = typed_raw ''access'',
      Bu_RefreshCredentialWrapped = Base64URL ''wrapped-refresh'', Bu_TrustGrant = typed_raw ''grant'', Bu_IssuedAt = now,
      Bu_ExpiresAt = Add now Hour, Bu_Signature = no_signature\<rparr>"

definition nil_panic :: "'a result" where
  "nil_panic = errorf ''runtime error: invalid memory address or nil pointer dereference''"

text \<open>Lines 57 to 64: \<^verbatim>\<open>Establish\<close>, the ready messages and their verification, with every error discarded.\<close>

definition settle_session :: "prims \<Rightarrow> Device \<Rightarrow> Device \<Rightarrow> LocalHello \<Rightarrow> LocalHello \<Rightarrow> (State \<times> State) result" where
  "settle_session P phone watch hp hw =
     (case (Establish P hp (LH_Hello hw) (Dev_Identity phone) (Dev_Identity watch), Establish P hw (LH_Hello hp) (Dev_Identity watch) (Dev_Identity phone)) of
        (Inr sp, Inr sw) \<Rightarrow>
          let rp = ready_or_zero (CreateReady P sp phone); rw = ready_or_zero (CreateReady P sw watch) in
          Inr (or_zero sp (VerifyReady P sp rw (Dev_Identity watch)), or_zero sw (VerifyReady P sw rp (Dev_Identity phone)))
      | _ \<Rightarrow> nil_panic)"

definition audio_frame :: bytes where
  "audio_frame =
     (let q = [CHR 0x22] in
      ''{'' @ q @ ''codec'' @ q @ '':'' @ q @ ''pcm16'' @ q @ '','' @ q @ ''duration_ms'' @ q @ '':20,'' @ q @ ''data'' @ q @ '':'' @ q @ ''redacted'' @ q @ ''}'')"

definition simulate :: "prims \<Rightarrow> ('w, unit) cli" where
  "simulate P =
     then_do Now (\<lambda>now.
     then_do (sdk (new_device P ''local'' ''phone'' now)) (\<lambda>phone.
     then_do (sdk (new_device P ''local'' ''watch'' now)) (\<lambda>watch.
     then_do (sdk (local_channel P ''oob-123456'')) (\<lambda>channel.
     then_do (give (SignBundle P phone (watch_bundle watch (or_zero [] (identity_Thumbprint P (Dev_Identity watch))) now))) (\<lambda>b.
     then_do (give (ApplyBundle P channel (Dev_Identity watch) b (Dev_Identity phone) now)) (\<lambda>_.
     then_do (attempt (sdk (create_hello P phone ''hot-audio-session'' (ID_DeviceID (Dev_Identity watch)) ''grant-audio'' now))) (\<lambda>hp.
     then_do (attempt (sdk (create_hello P watch ''hot-audio-session'' (ID_DeviceID (Dev_Identity phone)) ''grant-audio'' now))) (\<lambda>hw.
     then_do (give (settle_session P phone watch (or_zero no_local_hello hp) (or_zero no_local_hello hw))) (\<lambda>(sp, sw).
     then_do (give (fst (Encrypt P (Some sw) ''audio-1'' TypeAudioFrame
        \<lparr>Rt_RelayID = ''relay-local'', Rt_TTLSeconds = 10, Rt_Priority = 5\<rparr> audio_frame))) (\<lambda>envel.
     then_do (give (fst (Decrypt P (Some sp) envel))) (\<lambda>plain.
       Println (''phone-watch-simulator ok audio.frame bytes '' @ show_int (int (length plain))))))))))))))"

section \<open>It succeeds\<close>

lemma typed_raw_fine:
  assumes "typed_raw ty = Some (encode (DObj [(''type'', DStr ty)]))"
  shows "\<exists>d. raw_doc (typed_raw ty) = Inr d \<and> doc_ok d \<and> is_ok (doc_value d)"
proof -
  let ?d = "DObj [(''type'', DStr ty)]"
  have "doc_ok ?d" "doc_depth ?d \<le> maxNestingDepth" by (simp_all add: maxNestingDepth_def)
  then have "raw_doc (typed_raw ty) = Inr (valid_doc ?d)" unfolding assms by (rule raw_encode)
  then show ?thesis by simp
qed

lemma watch_bundle_signs:
  assumes "moment now"
  shows "\<exists>b. SignBundle P phone (watch_bundle watch tp now) = Inr b"
proof -
  have e: "typed_raw ty = Some (encode (DObj [(''type'', DStr ty)]))" if "ty \<in> {''relay'', ''trust'', ''access'', ''grant''}" for ty
  proof -
    have "list_all (\<lambda>ty. typed_raw ty = Some (encode (DObj [(''type'', DStr ty)]))) [''relay'', ''trust'', ''access'', ''grant'']" by code_simp
    then show ?thesis unfolding list_all_iff by (rule bspec) (use that in simp)
  qed
  show ?thesis
    using bundle_signs[of "watch_bundle watch tp now" P phone] assms typed_raw_fine[OF e] by (auto simp: watch_bundle_def moment_def)
qed

lemma completes_attempt:
  assumes "completes m n (\<lambda>x out. out = [] \<and> Q x)"
  shows "completes (attempt m) n (\<lambda>res out. out = [] \<and> (\<exists>x. res = Inr x \<and> Q x))"
  using assms unfolding completes_def attempt_def by fastforce

lemma settle_session_ready:
  assumes "sdk_laws P" "device_as P ''local'' ''phone'' phone" "device_as P ''local'' ''watch'' watch"
    and "hello_as P phone sid ''watch'' g now hp" "hello_as P watch sid ''phone'' g now hw"
  shows "\<exists>sp sw. settle_session P phone watch hp hw = Inr (sp, sw) \<and> ready_pair sw sp"
proof -
  have d: "''watch'' \<noteq> ''phone''" by simp
  obtain sw sp rw rp where s: "Establish P hw (LH_Hello hp) (Dev_Identity watch) (Dev_Identity phone) = Inr sw"
    "Establish P hp (LH_Hello hw) (Dev_Identity phone) (Dev_Identity watch) = Inr sp"
    "CreateReady P sw watch = Inr rw" "CreateReady P sp phone = Inr rp"
    "VerifyReady P sw rp (Dev_Identity phone) = Inr (sw\<lparr>St_ready := True\<rparr>)" "VerifyReady P sp rw (Dev_Identity watch) = Inr (sp\<lparr>St_ready := True\<rparr>)"
    "ready_pair (sw\<lparr>St_ready := True\<rparr>) (sp\<lparr>St_ready := True\<rparr>)"
    by (rule open_session[OF assms(1,3,2) d assms(5,4)], rule that)
  then show ?thesis by (auto simp: settle_session_def Let_def ready_or_zero_def or_zero_def)
qed

lemma simulate_completes:
  assumes "sdk_laws P"
  shows "completes (simulate P) 192 (\<lambda>_ out. out = ''phone-watch-simulator ok audio.frame bytes 52'' @ [CHR 0x0A])"
  unfolding simulate_def
  apply (rule completes_then[OF completes_Now], simp)
  apply (rule completes_then[OF completes_sdk[OF new_device[OF assms]]], simp, rule completes_then[OF completes_sdk[OF new_device[OF assms]]], simp)
  apply (rule completes_then[OF completes_sdk[OF local_channel[OF assms]]], simp)
  subgoal premises prems for now phone watch channel
  proof -
    let ?route = "\<lparr>Rt_RelayID = ''relay-local'', Rt_TTLSeconds = 10, Rt_Priority = 5\<rparr>"
    have y: "year_ok now" and ids: "ID_DeviceID (Dev_Identity phone) = ''phone''" "ID_DeviceID (Dev_Identity watch) = ''watch''"
      using prems by (simp_all add: moment_def device_as_def)
    obtain tp where tp: "identity_Thumbprint P (Dev_Identity watch) = Inr tp" using device_thumbprint[OF prems(3)] by blast
    obtain b where b: "SignBundle P phone (watch_bundle watch tp now) = Inr b" using watch_bundle_signs[OF prems(1)] by blast
    have d: "device_ok P phone" using prems(2) by (simp add: device_as_def)
    have ap: "ApplyBundle P channel (Dev_Identity watch) b (Dev_Identity phone) now = Inr ()"
      unfolding SignBundle_apply[OF sdk_lawsD(1)[OF assms] d b] using prems(4) tp
      by (simp add: watch_bundle_def Add_def Hour_def Minute_def Second_def)
    have len: "show_int (int (length audio_frame)) = ''52''" by code_simp
    show ?thesis
      unfolding tp or_zero_def[of "[]"] sum.case ids
      apply (rule completes_then_give[OF b], rule completes_then_give[OF ap])
      apply (rule completes_then[OF completes_attempt[OF completes_sdk[OF create_hello[OF assms y]]]], simp)
      apply (rule completes_then[OF completes_attempt[OF completes_sdk[OF create_hello[OF assms y]]]], simp)
      subgoal premises hellos for rp rw
      proof -
        obtain hp hw where h: "rp = Inr hp" "hello_as P phone ''hot-audio-session'' ''watch'' ''grant-audio'' now hp"
          "rw = Inr hw" "hello_as P watch ''hot-audio-session'' ''phone'' ''grant-audio'' now hw" using hellos by blast
        obtain sp sw where s: "settle_session P phone watch hp hw = Inr (sp, sw)" "ready_pair sw sp"
          using settle_session_ready[OF assms prems(2,3) h(2,4)] by blast
        have r: "route_ok ?route" by (simp add: route_ok_def int64_ok_def)
        obtain e a' b' where e: "Encrypt P (Some sw) ''audio-1'' TypeAudioFrame ?route audio_frame = (Inr e, a')"
          "Decrypt P (Some sp) e = (Inr audio_frame, Some b')"
          by (rule send_payload[OF assms s(2) r], rule that)
        have e': "fst (Encrypt P (Some sw) ''audio-1'' TypeAudioFrame ?route audio_frame) = Inr e" "fst (Decrypt P (Some sp) e) = Inr audio_frame"
          unfolding e by (rule fst_conv)+
        show ?thesis
          unfolding h(1,3) or_zero_def sum.case
          by (rule completes_then_give[OF s(1)], unfold prod.case, rule completes_then_give[OF e'(1)], rule completes_then_give[OF e'(2)],
              rule completes_weaken[OF completes_Println]) (simp_all add: len)
      qed
      done
  qed
  done

end
