(* ===== verification/Database_Check.thy ===== *)
theory Database_Check
  imports Relay_Repository Trust_Repository Uuid Conformance_Report
begin

text \<open>
  The database check of the build tool (\<^verbatim>\<open>src/tools/iscp-ci/cmd/iscp-ci/main.go\<close>, \<^verbatim>\<open>validatePostgres\<close>): it looks for the tables,
  uses a proof nonce twice in each replay table and takes one message through the persistent queue. The pool
  serves the relay tables and the trust tables, here two databases; whether a table exists is the argument
  \<open>regclass\<close>, and a failing connection the argument \<open>connect\<close>. The summary is the value the tool writes to its file.
\<close>

declare valid_utf8.simps(2) [simp del] to_valid.simps(2) [simp del]

section \<open>The checks\<close>

text \<open>\<^verbatim>\<open>UnixNano\<close>, for the years 1678 to 2262.\<close>

definition UnixNano :: "time \<Rightarrow> int" where
  "UnixNano t = t - unix_epoch"

definition assertReplayNonce :: "string \<Rightarrow> ('d \<Rightarrow> bool result \<times> 'd) \<Rightarrow> 'd \<Rightarrow> unit result \<times> 'd" where
  "assertReplayNonce name use d =
     (case use d of
        (Inl err, d) \<Rightarrow> (errorf (name @ '' replay nonce first use failed: '' @ error_text err), d)
      | (Inr first, d) \<Rightarrow>
          if \<not> first then (errorf (name @ '' replay nonce first use was rejected''), d)
          else case use d of
                 (Inl err, d) \<Rightarrow> (errorf (name @ '' replay nonce second use failed: '' @ error_text err), d)
               | (Inr second, d) \<Rightarrow> if second then (errorf (name @ '' replay nonce accepted duplicate''), d) else (Inr (), d))"

text \<open>\<^verbatim>\<open>fmt.Errorf("...: %w", err)\<close>\<close>

definition explain :: "string \<Rightarrow> 'a result \<times> 'd \<Rightarrow> 'a result \<times> 'd" where
  "explain what p = (case p of (Inl err, d) \<Rightarrow> (errorf (what @ '': '' @ error_text err), d) | (Inr x, d) \<Rightarrow> (Inr x, d))"

lemma explain_Inr: "explain what (Inr x, d) = (Inr x, d)"
  by (simp add: explain_def)

definition check_message_id :: "time \<Rightarrow> string" where
  "check_message_id now = ''postgres-check-msg-'' @ show_int (UnixNano now)"

definition check_recipient :: "time \<Rightarrow> string" where
  "check_recipient now = ''postgres-check-recipient-'' @ show_int (UnixNano now)"

definition check_envelope :: "time \<Rightarrow> bytes" where
  "check_envelope now =
     (let q = [CHR 0x22] in
      ''{'' @ q @ ''type'' @ q @ '':'' @ q @ ''iscp.secure_envelope.v2'' @ q @ '','' @ q @ ''message_id'' @ q @ '':'' @ quoted (check_message_id now) @ ''}'')"

definition check_message :: "bytes \<Rightarrow> time \<Rightarrow> RelayMessage" where
  "check_message uuid now =
     (let q = [CHR 0x22] in
      \<lparr>RMsg_ID = UUIDString uuid, RMsg_DomainID = ''local'', RMsg_MessageID = check_message_id now, RMsg_SenderDeviceID = ''postgres-check-sender'',
       RMsg_RecipientDeviceID = check_recipient now, RMsg_SessionID = ''postgres-check-session'', RMsg_PayloadType = ''text'',
       RMsg_RouteMetadata = ''{'' @ q @ ''ttl_seconds'' @ q @ '':60,'' @ q @ ''priority'' @ q @ '':1}'',
       RMsg_EnvelopeRaw = check_envelope now, RMsg_EnvelopeCanonical = check_envelope now, RMsg_Priority = 1, RMsg_QueuedAt = now,
       RMsg_ExpiresAt = Add now (10 * Minute)\<rparr>)"

definition queue_check_texts :: "string list" where
  "queue_check_texts =
     [''relay persistent queue claimed stored message'', ''relay persistent queue rejected duplicate active lease'',
      ''relay persistent queue retried after lease expiry'', ''relay persistent queue suppressed delivered message'']"

definition assertRelayPersistentQueue ::
  "MessageRow sorter \<Rightarrow> (MessageRow list \<Rightarrow> MessageRow list) \<Rightarrow> bytes result \<Rightarrow> relay_db \<Rightarrow> time \<Rightarrow> string list result \<times> relay_db" where
  "assertRelayPersistentQueue srt returned draw d now =
     (let claim = (\<lambda>d instant. ClaimPendingMessagesFor srt returned d ''local'' (check_recipient now) instant Minute 1);
          retryAt = Add now (2 * Minute) in
      then_db (explain ''relay queue uuid generation failed'' (NewUUIDv7Like now draw, d)) (\<lambda>uuid d.
      then_db (explain ''relay queue store failed'' (StoreMessage d (check_message uuid now))) (\<lambda>_ d.
      then_db (explain ''relay queue first claim failed'' (claim d now)) (\<lambda>first d.
      if length first \<noteq> 1 \<or> RMsg_MessageID (first ! 0) \<noteq> check_message_id now \<or> RMsg_EnvelopeRaw (first ! 0) \<noteq> check_envelope now
        then (errorf ''relay queue first claim returned unexpected messages'', d)
      else then_db (explain ''relay queue duplicate claim failed'' (claim d now)) (\<lambda>second d.
      if length second \<noteq> 0 then (errorf ''relay queue duplicate claim returned leased message'', d)
      else then_db (explain ''relay queue retry claim failed'' (claim d retryAt)) (\<lambda>retry d.
      if length retry \<noteq> 1 \<or> RMsg_MessageID (retry ! 0) \<noteq> check_message_id now
        then (errorf ''relay queue retry claim did not return leased message after expiry'', d)
      else then_db (explain ''relay queue delivery mark failed'' (MarkMessageDelivered d ''local'' (check_message_id now) retryAt)) (\<lambda>_ d.
      then_db (explain ''relay queue post-delivery claim failed'' (claim d (Add retryAt Minute))) (\<lambda>afterDelivered d.
      if length afterDelivered \<noteq> 0 then (errorf ''relay queue returned delivered message'', d)
      else (Inr queue_check_texts, d)))))))))"

record postgresSummary =
  PS_Type :: string
  PS_GeneratedAt :: string
  PS_Status :: string
  PS_DSNConfigured :: bool
  PS_CheckedTables :: "string list"
  PS_ReplayChecks :: "string list"
  PS_QueueChecks :: "string list"
  PS_Errors :: "string list"

definition checkedTables :: "string list" where
  "checkedTables =
     [''iscp_relay.devices'', ''iscp_relay.access_tokens'', ''iscp_relay.refresh_tokens'', ''iscp_relay.pop_replay_cache'', ''iscp_relay.messages'',
      ''iscp_relay.delivery_receipts'', ''iscp_trust.devices'', ''iscp_trust.grants'', ''iscp_trust.revocations'', ''iscp_trust.pop_replay_cache'',
      ''iscp_trust.signing_keys'']"

definition table_errors :: "(string \<Rightarrow> bool result) \<Rightarrow> string \<Rightarrow> string list" where
  "table_errors regclass table =
     (case regclass table of
        Inl err \<Rightarrow> [table @ '' check failed: '' @ error_text err]
      | Inr True \<Rightarrow> []
      | Inr False \<Rightarrow> [table @ '' is missing''])"

definition outcome_error :: "'a result \<Rightarrow> string list" where
  "outcome_error res = (case res of Inl err \<Rightarrow> [error_text err] | Inr _ \<Rightarrow> [])"

definition outcome_checks :: "string list \<Rightarrow> 'a result \<Rightarrow> string list" where
  "outcome_checks texts res = (case res of Inl _ \<Rightarrow> [] | Inr _ \<Rightarrow> texts)"

text \<open>The file is written by \<^verbatim>\<open>writeJSON\<close>; its failure is not modelled. The result is the summary and the verdict.\<close>

definition validatePostgres ::
  "prims \<Rightarrow> MessageRow sorter \<Rightarrow> (MessageRow list \<Rightarrow> MessageRow list) \<Rightarrow> string \<Rightarrow> go_error option \<Rightarrow> (string \<Rightarrow> bool result) \<Rightarrow> bytes result \<Rightarrow>
    string \<Rightarrow> time \<Rightarrow> relay_db \<Rightarrow> trust_db \<Rightarrow> (postgresSummary \<times> unit result) \<times> relay_db \<times> trust_db" where
  "validatePostgres P srt returned env connect regclass draw stamp now rd td =
     (let dsn = TrimSpace env;
          nonce = ''postgres-check-'' @ show_int (UnixNano now);
          (errs, replay, queue, rd', td') =
            (if dsn = [] then ([''ISCP_DATABASE_URL is required''], [], [], rd, td)
             else case connect of
               Some err \<Rightarrow> ([''connect failed: '' @ error_text err], [], [], rd, td)
             | None \<Rightarrow>
                 let (r1, rd1) = assertReplayNonce ''relay'' (\<lambda>d. Relay_UseProofNonce P d ''local'' ''postgres-check-device'' ''relay-local'' nonce
                       (Add now Minute) now) rd;
                     (r2, td1) = assertReplayNonce ''trust'' (\<lambda>d. Trust_UseProofNonce P d ''local'' ''postgres-check-device'' ''trust-local'' nonce
                       (Add now Minute) now) td;
                     (r3, rd2) = assertRelayPersistentQueue srt returned draw rd1 now in
                 (concat (map (table_errors regclass) checkedTables) @ outcome_error r1 @ outcome_error r2 @ outcome_error r3,
                  outcome_checks [''relay proof nonce replay rejected''] r1 @ outcome_checks [''trust proof nonce replay rejected''] r2,
                  (case r3 of Inl _ \<Rightarrow> [] | Inr checks \<Rightarrow> checks), rd2, td1));
          summary = \<lparr>PS_Type = ''iscp.postgres.validation.v2'', PS_GeneratedAt = stamp, PS_Status = (if errs \<noteq> [] then ''fail'' else ''pass''),
            PS_DSNConfigured = (dsn \<noteq> []), PS_CheckedTables = checkedTables, PS_ReplayChecks = replay, PS_QueueChecks = queue, PS_Errors = errs\<rparr> in
      ((summary, if errs \<noteq> [] then errorf ''PostgreSQL validation failed; see dist/postgres-check.json'' else Inr ()), rd', td'))"

section \<open>A working database passes\<close>

lemma claim_one:
  assumes "sorts srt" "permutes_rows returned" "claimable dm rc now m" "\<forall>r\<in>set R. \<not> claimable dm rc now r \<and> RMsg_ID r \<noteq> RMsg_ID m"
  shows "claim_messages srt returned dm rc now til 1 (R @ [m]) =
    (Inr [m\<lparr>MR_DeliveryClaimedUntil := Some til, MR_DeliveryAttempts := MR_DeliveryAttempts m + 1\<rparr>],
     R @ [m\<lparr>MR_DeliveryClaimedUntil := Some til, MR_DeliveryAttempts := MR_DeliveryAttempts m + 1\<rparr>])"
proof -
  have f: "filter (claimable dm rc now) (R @ [m]) = [m]" using assms(3,4) by simp
  have "mset (srt row_less [m]) = {#m#}" using assms(1) weak_order_row by (simp add: sorts_def)
  then have srt: "srt row_less [m] = [m]" by simp
  have ret: "returned [x] = [x]" for x using assms(2) unfolding permutes_rows_def by (metis mset_single_iff mset.simps)
  have R: "map (\<lambda>r. if RMsg_ID r \<in> set (map RMsg_ID [m]) then g r else r) R = R" for g using assms(4) by (intro map_idI) simp
  have R': "filter (\<lambda>r. RMsg_ID r \<in> set (map RMsg_ID [m])) R = []" using assms(4) by simp
  show ?thesis unfolding claim_messages_def f srt Let_def using R R' by (simp add: ret)
qed

lemma claim_none:
  assumes "sorts srt" "permutes_rows returned" "\<forall>r\<in>set rows. \<not> claimable dm rc now r"
  shows "claim_messages srt returned dm rc now til n rows = (Inr [], rows)"
proof -
  have f: "filter (claimable dm rc now) rows = []" using assms(3) by simp
  have "mset (srt row_less []) = {#}" "mset (returned []) = {#}" using assms(1,2) weak_order_row by (simp_all add: sorts_def permutes_rows_def)
  then have "srt row_less [] = []" "returned [] = []" by simp_all
  then show ?thesis unfolding claim_messages_def f by simp
qed

lemma nonce_check_passes:
  assumes "table_lens get put" "Db_faults d = []" "dm \<noteq> []" "\<not> blank dv" "\<not> blank aud" "\<not> blank n" "pg_time now < pg_time e"
    and "\<forall>r\<in>set (get (Db_tables d)). NR_Nonce r \<noteq> proofNonceStorageKey P aud n"
  obtains a b c where "assertReplayNonce name (\<lambda>d. useProofNonce P get put d dm dv aud n e now) d =
    (Inr (), d\<lparr>Db_tables := put c (put c (put b (put a (Db_tables d))))\<rparr>)"
proof -
  let ?row = "\<lparr>NR_DomainID = dm, NR_DeviceID = dv, NR_Nonce = proofNonceStorageKey P aud n, NR_ExpiresAt = pg_time e\<rparr>"
  let ?keep = "filter (\<lambda>r. \<not> (NR_DomainID r = dm \<and> NR_ExpiresAt r \<le> pg_time now))"
  let ?a = "?keep (get (Db_tables d))"
  have lens: "get (put rows t) = rows" for rows t using assms(1) by (simp add: table_lens_def)
  have f: "\<not> list_ex (same_nonce ?row) ?a" using assms(8) by (auto simp: list_ex_iff same_nonce_def)
  have k: "?keep (?a @ [?row]) = ?a @ [?row]" using assms(7) by simp
  have l: "list_ex (same_nonce ?row) (?a @ [?row])" by (simp add: same_nonce_def)
  have one: "useProofNonce P get put d dm dv aud n e now = (Inr True, d\<lparr>Db_tables := put (?a @ [?row]) (put ?a (Db_tables d))\<rparr>)"
    using assms(2-6) f by (simp add: useProofNonce_def RequireDomain_def on_table_def delete_expired_nonces_def insert_nonce_def lens)
  have two: "useProofNonce P get put (d\<lparr>Db_tables := put (?a @ [?row]) (put ?a (Db_tables d))\<rparr>) dm dv aud n e now =
      (Inr False, d\<lparr>Db_tables := put (?a @ [?row]) (put (?a @ [?row]) (put (?a @ [?row]) (put ?a (Db_tables d))))\<rparr>)"
    unfolding useProofNonce_def RequireDomain_def on_table_def delete_expired_nonces_def insert_nonce_def
    using assms(2-6) l k by (simp add: lens same_nonce_def)
  show thesis by (rule that, unfold assertReplayNonce_def one prod.case sum.case two) simp
qed

text \<open>A text that starts with two letters is not blank.\<close>

definition letter :: "char \<Rightarrow> bool" where
  "letter c \<longleftrightarrow> c \<in> set ''abcdefghijklmnopqrstuvwxyz''"

lemma letter_not_space:
  assumes "letter p"
  shows "\<not> ascii_space p" "\<not> space2 p b" "\<not> space2 b p" "\<not> space3 p b c" "\<not> space3 b p c" "\<not> space3 b c p"
  using assms by (auto simp: letter_def ascii_space_def space2_def space3_def)

lemma trim_rev_keeps:
  assumes "letter p"
  shows "p \<in> set s \<Longrightarrow> p \<in> set (trim_rev s)"
proof (induction s rule: length_induct)
  case (1 s)
  have IH: "p \<in> set u \<Longrightarrow> p \<in> set (trim_rev u)" if "length u < length s" for u using 1(1) that by blast
  consider "s = []" | c where "s = [c]" | c b where "s = [c, b]" | c b a t where "s = c # b # a # t"
    by (metis list.exhaust)
  then show ?case
  proof cases
    case 4
    then show ?thesis
      using 1(2) IH[of "b # a # t"] IH[of "a # t"] IH[of t] letter_not_space[OF assms]
      by (subst 4, subst trim_rev.simps) (auto simp del: trim_rev.simps(2))
  qed (use 1(2) letter_not_space[OF assms] in auto)
qed

lemma letters_not_blank:
  assumes "letter p"
  shows "\<not> blank (p # q # x)"
proof -
  have "trim_left (p # q # x) = p # q # x"
    by (subst trim_left.simps) (auto simp: letter_not_space[OF assms] split: list.split)
  then have "p \<in> set (TrimSpace (p # q # x))" using trim_rev_keeps[OF assms] by (simp add: TrimSpace_def del: trim_left.simps(2))
  then show ?thesis unfolding blank_def by fastforce
qed

definition fresh_for_check :: "bytes \<Rightarrow> time \<Rightarrow> MessageRow \<Rightarrow> bool" where
  "fresh_for_check uuid now r \<longleftrightarrow> RMsg_ID r \<noteq> UUIDString uuid \<and> RMsg_MessageID r \<noteq> check_message_id now \<and> RMsg_RecipientDeviceID r \<noteq> check_recipient now"

text \<open>The row of the message in the states the check takes it through.\<close>

definition check_row :: "bytes \<Rightarrow> time \<Rightarrow> time option \<Rightarrow> time option \<Rightarrow> int \<Rightarrow> MessageRow" where
  "check_row uuid now delivered claimed attempts =
     (message_row (check_message uuid now))\<lparr>MR_DeliveredAt := delivered, MR_DeliveryClaimedUntil := claimed, MR_DeliveryAttempts := attempts\<rparr>"

lemma check_row_simps [simp]:
  "RMsg_ID (check_row uuid now a b n) = UUIDString uuid" "RMsg_DomainID (check_row uuid now a b n) = ''local''"
  "RMsg_MessageID (check_row uuid now a b n) = check_message_id now" "RMsg_RecipientDeviceID (check_row uuid now a b n) = check_recipient now"
  "RMsg_EnvelopeRaw (check_row uuid now a b n) = check_envelope now" "RMsg_ExpiresAt (check_row uuid now a b n) = pg_time (Add now (10 * Minute))"
  "MR_DeliveredAt (check_row uuid now a b n) = a" "MR_DeliveryClaimedUntil (check_row uuid now a b n) = b" "MR_DeliveryAttempts (check_row uuid now a b n) = n"
  "check_row uuid now a b n\<lparr>MR_DeliveryClaimedUntil := b', MR_DeliveryAttempts := n'\<rparr> = check_row uuid now a b' n'"
  "check_row uuid now a b n\<lparr>MR_DeliveredAt := a', MR_DeliveryClaimedUntil := b'\<rparr> = check_row uuid now a' b' n"
  "message_row (check_message uuid now) = check_row uuid now None None 0"
  by (simp_all add: check_row_def message_row_def check_message_def Let_def RelayMessage.defs MessageRow.defs)

lemma scanned_row:
  "RMsg_MessageID (RelayMessage.truncate (check_row uuid now a b n)) = check_message_id now"
  "RMsg_EnvelopeRaw (RelayMessage.truncate (check_row uuid now a b n)) = check_envelope now"
  by (simp_all add: RelayMessage.defs)

lemma check_message_simps:
  "RMsg_DomainID (check_message uuid now) = ''local''" "RMsg_Priority (check_message uuid now) = 1"
  by (simp_all add: check_message_def Let_def)

lemma pg_minutes: "n < k \<Longrightarrow> pg_time (Add now (n * Minute)) < pg_time (Add now (k * Minute))"
  by (simp add: pg_time_def Add_def Minute_def Second_def minus_mod_eq_mult_div)

abbreviation with_messages :: "relay_db \<Rightarrow> MessageRow list \<Rightarrow> relay_db" where
  "with_messages d rows \<equiv> d\<lparr>Db_tables := (Db_tables d)\<lparr>RT_messages := rows\<rparr>\<rparr>"

lemma recipient_named: "\<not> blank (check_recipient now)"
  unfolding check_recipient_def append.simps by (rule letters_not_blank) (simp add: letter_def)

lemma claim_db:
  assumes "Db_faults d = []"
    and "claim_messages srt returned ''local'' (check_recipient now) (pg_time t) (pg_time (Add t Minute)) 1 (RT_messages (Db_tables d)) = (Inr xs, rows)"
  shows "ClaimPendingMessagesFor srt returned d ''local'' (check_recipient now) t Minute 1 = (Inr (scanRelayMessages xs), with_messages d rows)"
  using assms recipient_named by (simp add: ClaimPendingMessagesFor_def RequireDomain_def on_table_def Minute_def Second_def)

lemma queue_check_passes:
  assumes "sorts srt" "permutes_rows returned" "NewUUIDv7Like now draw = Inr uuid" "Db_faults d = []"
    and "\<forall>r\<in>set (RT_messages (Db_tables d)). fresh_for_check uuid now r"
  shows "fst (assertRelayPersistentQueue srt returned draw d now) = Inr queue_check_texts"
proof -
  define R where "R = RT_messages (Db_tables d)"
  let ?row = "check_row uuid now" and ?u = "pg_time (Add now Minute)" and ?retry = "Add now (2 * Minute)" and ?last = "Add now (3 * Minute)"
  have R: "\<forall>r\<in>set R. \<not> claimable ''local'' (check_recipient now) t r \<and> RMsg_ID r \<noteq> UUIDString uuid \<and> RMsg_MessageID r \<noteq> check_message_id now" for t
    using assms(5) by (auto simp: R_def fresh_for_check_def claimable_def)
  have order: "pg_time now < ?u" "?u < pg_time ?retry" "pg_time now < pg_time (Add now (10 * Minute))" "pg_time ?retry < pg_time (Add now (10 * Minute))"
    using pg_minutes[of 0 1 now] pg_minutes[of 1 2 now] pg_minutes[of 0 10 now] pg_minutes[of 2 10 now] by (simp_all add: Add_def)
  have store: "StoreMessage d (check_message uuid now) = (Inr (), with_messages d (R @ [?row None None 0]))"
    using R assms(4) by (auto simp: StoreMessage_def RequireDomain_def on_table_def upsert_def R_def[symmetric] list_ex_iff check_message_simps)
  have claim: "ClaimPendingMessagesFor srt returned (with_messages d (R @ [?row None c n])) ''local'' (check_recipient now) t Minute 1 =
      (Inr (scanRelayMessages [?row None (Some (pg_time (Add t Minute))) (n + 1)]), with_messages d (R @ [?row None (Some (pg_time (Add t Minute))) (n + 1)]))"
    if "claimable ''local'' (check_recipient now) (pg_time t) (?row None c n)" for c n t
    by (subst claim_db) (use assms(4) claim_one[OF assms(1,2) that] R in \<open>simp_all\<close>)
  have none: "ClaimPendingMessagesFor srt returned d' ''local'' (check_recipient now) t Minute 1 = (Inr [], d')"
    if "\<not> claimable ''local'' (check_recipient now) (pg_time t) m" "Db_faults d' = []" "RT_messages (Db_tables d') = R @ [m]" for m t d'
    by (subst claim_db) (use claim_none[OF assms(1,2)] R that in \<open>auto simp: scanRelayMessages_def\<close>)
  have mark: "\<exists>d'. MarkMessageDelivered (with_messages d (R @ [?row None c n])) ''local'' (check_message_id now) t = (Inr (), d') \<and> Db_faults d' = [] \<and>
      RT_messages (Db_tables d') = R @ [?row (Some (pg_time t)) None n]" for c n t
    using assms(4) R by (simp add: MarkMessageDelivered_def RequireDomain_def on_table_def update_rows_def map_idI)
  have first: "claimable ''local'' (check_recipient now) (pg_time now) (?row None None 0)" using order by (simp add: claimable_def)
  have held: "\<not> claimable ''local'' (check_recipient now) (pg_time now) (?row None (Some ?u) 1)" using order by (simp add: claimable_def)
  have again: "claimable ''local'' (check_recipient now) (pg_time ?retry) (?row None (Some ?u) 1)" using order by (simp add: claimable_def)
  obtain d' where d': "MarkMessageDelivered (with_messages d (R @ [?row None (Some (pg_time (Add ?retry Minute))) 2])) ''local'' (check_message_id now) ?retry =
      (Inr (), d')" "Db_faults d' = []" "RT_messages (Db_tables d') = R @ [?row (Some (pg_time ?retry)) None 2]" using mark by blast
  have finished: "\<not> claimable ''local'' (check_recipient now) (pg_time t) (?row (Some (pg_time ?retry)) None 2)" for t by (simp add: claimable_def)
  let ?d1 = "with_messages d (R @ [?row None (Some ?u) 1])"
  have e: "ClaimPendingMessagesFor srt returned (with_messages d (R @ [?row None None 0])) ''local'' (check_recipient now) now Minute 1 =
      (Inr (scanRelayMessages [?row None (Some ?u) 1]), ?d1)"
    "ClaimPendingMessagesFor srt returned ?d1 ''local'' (check_recipient now) now Minute 1 = (Inr [], ?d1)"
    "ClaimPendingMessagesFor srt returned ?d1 ''local'' (check_recipient now) ?retry Minute 1 =
      (Inr (scanRelayMessages [?row None (Some (pg_time (Add ?retry Minute))) 2]), with_messages d (R @ [?row None (Some (pg_time (Add ?retry Minute))) 2]))"
    using claim[OF first] none[OF held] claim[OF again] assms(4) by simp_all
  show ?thesis
    unfolding assertRelayPersistentQueue_def Let_def assms(3) explain_Inr then_db_simps store e(1)
    by (simp add: scanRelayMessages_def scanned_row explain_Inr e(2,3) d'(1) none[OF finished d'(2,3)])
qed

section \<open>Properties\<close>

text \<open>C21. The database check of the build tool passes on a working database: with a connection string, every table present, no database
  faults and no earlier rows under the names of the check, it reports both replay tables as rejecting a nonce on its second use, and
  the persistent queue as delivering a stored message once per lease, again when the lease has run out, and never after it was marked as
  delivered. This holds for every order in which the database returns rows.\<close>

theorem database_check_passes:
  assumes "\<not> blank env" "\<forall>table\<in>set checkedTables. regclass table = Inr True" "sorts srt" "permutes_rows returned"
    and "NewUUIDv7Like now draw = Inr uuid" "Db_faults rd = []" "Db_faults td = []"
    and "\<forall>r\<in>set (RT_messages (Db_tables rd)). fresh_for_check uuid now r"
    and "\<forall>r\<in>set (RT_pop_replay_cache (Db_tables rd)).
      NR_Nonce r \<noteq> proofNonceStorageKey P ''relay-local'' (''postgres-check-'' @ show_int (UnixNano now))"
    and "\<forall>r\<in>set (TT_pop_replay_cache (Db_tables td)).
      NR_Nonce r \<noteq> proofNonceStorageKey P ''trust-local'' (''postgres-check-'' @ show_int (UnixNano now))"
  shows "fst (validatePostgres P srt returned env None regclass draw stamp now rd td) =
    (\<lparr>PS_Type = ''iscp.postgres.validation.v2'', PS_GeneratedAt = stamp, PS_Status = ''pass'', PS_DSNConfigured = True, PS_CheckedTables = checkedTables,
      PS_ReplayChecks = [''relay proof nonce replay rejected'', ''trust proof nonce replay rejected''], PS_QueueChecks = queue_check_texts,
      PS_Errors = []\<rparr>, Inr ())"
proof -
  let ?nonce = "''postgres-check-'' @ show_int (UnixNano now)"
  have n: "\<not> blank ?nonce" "\<not> blank ''postgres-check-device''" unfolding append.simps by (rule letters_not_blank, simp add: letter_def)+
  have aud: "\<not> blank ''relay-local''" "\<not> blank ''trust-local''" by (rule letters_not_blank, simp add: letter_def)+
  have time: "pg_time now < pg_time (Add now Minute)" using pg_minutes[of 0 1 now] by (simp add: Add_def)
  obtain a b c where r1: "assertReplayNonce ''relay'' (\<lambda>d. Relay_UseProofNonce P d ''local'' ''postgres-check-device'' ''relay-local'' ?nonce (Add now Minute) now) rd =
      (Inr (), rd\<lparr>Db_tables := nonces_put c (nonces_put c (nonces_put b (nonces_put a (Db_tables rd))))\<rparr>)"
    unfolding Relay_UseProofNonce_def
    by (rule nonce_check_passes[OF nonces_lens assms(6) _ n(2) aud(1) n(1) time assms(9), of "''local''" "''relay''"]) simp_all
  obtain a' b' c' where r2: "assertReplayNonce ''trust'' (\<lambda>d. Trust_UseProofNonce P d ''local'' ''postgres-check-device'' ''trust-local'' ?nonce (Add now Minute) now) td =
      (Inr (), td\<lparr>Db_tables := trust_nonces_put c' (trust_nonces_put c' (trust_nonces_put b' (trust_nonces_put a' (Db_tables td))))\<rparr>)"
    unfolding Trust_UseProofNonce_def
    by (rule nonce_check_passes[OF trust_nonces_lens assms(7) _ n(2) aud(2) n(1) time assms(10), of "''local''" "''trust''"]) simp_all
  let ?rd = "rd\<lparr>Db_tables := nonces_put c (nonces_put c (nonces_put b (nonces_put a (Db_tables rd))))\<rparr>"
  have "fst (assertRelayPersistentQueue srt returned draw ?rd now) = Inr queue_check_texts"
    by (rule queue_check_passes[OF assms(3-5)]) (use assms(6,8) in simp_all)
  then obtain rd2 where r3: "assertRelayPersistentQueue srt returned draw ?rd now = (Inr queue_check_texts, rd2)" by (metis prod.collapse)
  have tables: "concat (map (table_errors regclass) checkedTables) = []" using assms(2) by (simp add: table_errors_def)
  have dsn: "TrimSpace env \<noteq> []" using assms(1) by (simp add: blank_def)
  show ?thesis
    unfolding validatePostgres_def Let_def r1 r2 r3 prod.case tables
    using dsn by (simp add: outcome_error_def outcome_checks_def)
qed

theorem database_check_passes_witness:
  "PS_Status (fst (fst (validatePostgres model_prims insertion_sort (\<lambda>rows. rows) ''postgres://localhost'' None (\<lambda>_. Inr True) (Inr (replicate 10 CHR ''r''))
     ''now'' 3600000000000 \<lparr>Db_tables = no_tables, Db_faults = []\<rparr> \<lparr>Db_tables = no_trust_tables, Db_faults = []\<rparr>))) = ''pass''"
proof -
  obtain uuid where u: "NewUUIDv7Like 3600000000000 (Inr (replicate 10 CHR ''r'')) = Inr uuid" by (simp add: NewUUIDv7Like_def Let_def)
  have env: "\<not> blank ''postgres://localhost''" by (rule letters_not_blank) (simp add: letter_def)
  have "permutes_rows (\<lambda>rows. rows)" by (simp add: permutes_rows_def)
  from database_check_passes[OF env _ insertion_sort_sorts this u, of "\<lambda>_. Inr True" "\<lparr>Db_tables = no_tables, Db_faults = []\<rparr>"
      "\<lparr>Db_tables = no_trust_tables, Db_faults = []\<rparr>" model_prims "''now''"]
  show ?thesis by (simp add: no_tables_def no_trust_tables_def)
qed

end
