(* ===== verification/Spec2Isabelle.thy ===== *)
theory Spec2Isabelle
  imports Config Trust_Grant Session_Control Envelope Recovery Provisioning Descriptor Storage Queue Replay Ratelimit Keyring
    Payload Logging Policy Audit_Log Relay_Guarantees Trust_Guarantees Conformance_Guarantees Cli_Guarantees Simulator Database_Check
begin

text \<open>
  A verification library for ISCP, the secure communication protocol of this repository: the protocol library
  (\<^verbatim>\<open>src/pkg/iscp\<close>), the server packages (\<^verbatim>\<open>src/pkg/server\<close>), the reference relay and trust root (\<^verbatim>\<open>src/services\<close>),
  the conformance runner (\<^verbatim>\<open>src/conformance\<close>), the command line tool and the database check of the build tool
  (\<^verbatim>\<open>src/tools\<close>), and the phone and watch example (\<^verbatim>\<open>src/examples\<close>).

  \<^bold>\<open>The program.\<close> Devices have a signing key and prove possession of it (\<^verbatim>\<open>identity\<close>). A trust root registers devices,
  issues signed grants to them and revokes them. A relay registers devices, issues access credentials to them and
  keeps encrypted envelopes for them until they connect. Two devices open a session with signed hello and
  ready messages (\<^verbatim>\<open>session\<close>) and exchange envelopes under its keys (\<^verbatim>\<open>envelope\<close>); control frames reopen and close it.
  A device is provisioned with tickets and bundles over a local channel (\<^verbatim>\<open>provisioning\<close>), and its refresh credential
  is recovered through a wrapping key (\<^verbatim>\<open>recovery\<close>). Every signed object is signed over canonical JSON (\<^verbatim>\<open>canonical\<close>).

  \<^bold>\<open>Conventions.\<close> Go strings and byte slices are lists of bytes (\<open>bytes\<close>); a nil slice that JSON distinguishes from an
  empty one is an option. A result is an error or a value (\<open>result\<close>), with one branch per early return of the source.
  A struct is a record, named as in the source with the fields prefixed. Time is an integer of nanoseconds, cut to
  microseconds by the database. Sequence numbers, epochs and versions that the source keeps in 64 bits are words or
  integers with their range written out. The clock, the random source, sorting functions of the library, the order of
  rows the database returns, and the network are arguments. A mutex is not modelled: what the source does under one
  lock is one step, and a handler that releases its lock between two steps is modelled as these two steps where a
  property depends on it (\<open>refresh_check\<close>, \<open>refresh_exchange\<close>).

  \<^bold>\<open>Foundations.\<close> \<open>ISCP_Prelude\<close> has the types, the sequencing of results and the part of the \<^verbatim>\<open>strings\<close> package in use;
  \<open>Errors\<close> the error type of \<^verbatim>\<open>errors.go\<close>; \<open>Go_Time\<close> and \<open>Time_Parse\<close> calendar, formatting and reading of time stamps;
  \<open>Base64\<close>, \<open>Utf8\<close>, \<open>Json_Text\<close>, \<open>Json_Decoder\<close>, \<open>Json_Struct\<close>, \<open>Json_Unmarshal\<close>, \<open>Json_Decode\<close>, \<open>Json_Indent\<close> and
  \<open>Json_Compact\<close> the standard library below the program: the token automaton of the JSON decoder, \<^verbatim>\<open>json.Marshal\<close>,
  \<^verbatim>\<open>json.MarshalIndent\<close>, \<^verbatim>\<open>json.Unmarshal\<close> into structs through field tables, and how the encoder compacts and escapes a
  \<^verbatim>\<open>json.RawMessage\<close>. Their lemmas are the round trips the components use, and that compaction keeps the document.
  \<open>Crypto\<close> is \<^verbatim>\<open>crypto.go\<close> over the record \<open>prims\<close> of primitives, which are code outside the repository; properties that
  need them assume their functional laws by name (\<open>sig_correct\<close>, \<open>dh_agrees\<close>, \<open>aead_correct\<close>, \<open>sdk_laws\<close> and others),
  never secrecy or unforgeability. \<open>Model_Prims\<close> is an executable instance that satisfies all of them.

  \<^bold>\<open>Protocol library.\<close> \<open>Canonical\<close> is the strict parser and the canonical writer of \<^verbatim>\<open>canonical.go\<close>; \<open>Canonical_Laws\<close> shows
  that it reads back what \<^verbatim>\<open>json.Marshal\<close> writes, that canonical bytes identify values up to member order, that a
  signature input binds every member, and where the parser accepts trailing text. \<open>Identity\<close> and \<open>Identity_Codec\<close>,
  \<open>Trust_Grant\<close>, \<open>Descriptor\<close>, \<open>Provisioning\<close>, \<open>Session\<close>, \<open>Session_Control\<close>, \<open>Envelope\<close>, \<open>Recovery\<close>, \<open>Config\<close>, \<open>Payload\<close>
  (with hot session tickets), \<open>Logging\<close> and \<open>Storage\<close> are the packages of these names. Each verifier has a lemma that states
  exactly which objects it accepts; the locale \<open>signed_object\<close> (\<open>Identity\<close>) carries the part they share and is
  interpreted for proofs, grants, hello and ready messages, control frames, tickets, bundles and descriptors.
  \<open>Session\<close> has the handshake, the step relation of a session and its invariant over every interleaving; \<open>Envelope\<close> that a
  channel delivers in any order and once. The locale \<open>key_store\<close> (\<open>Storage\<close>) is interpreted for the memory store
  and the file store, whose file system may fail. The locale \<open>ticket_counter\<close> (\<open>Provisioning\<close>) counts the uses of a ticket, for the
  ticket store and for the relay; \<open>strict_counter\<close> extends it for the store, which refuses uses without a positive limit.

  \<^bold>\<open>Server packages.\<close> \<open>Queue\<close>, \<open>Replay\<close>, \<open>Ratelimit\<close>, \<open>Keyring\<close>, \<open>Policy\<close>, \<open>Uuid\<close>, \<open>Httpx\<close> and \<open>Audit_Log\<close> are the packages
  of these names; the limiter refines a contract of windows without counters (\<open>window_answers\<close>). \<open>Repository\<close>, \<open>Relay_Repository\<close> and \<open>Trust_Repository\<close> are the SQL statements of \<^verbatim>\<open>repository\<close> as functions
  on tables, run by a database that may fail before or after a statement. The locale \<open>replay_guard\<close> (\<open>Replay\<close>) is
  interpreted for the memory cache and for both nonce tables.

  \<^bold>\<open>Services.\<close> \<open>Relay_State\<close> and \<open>Relay_Server\<close> are all handlers of the relay, with \<open>Handler\<close> as the router and limiter in front
  of them and the WebSocket handler \<open>connect\<close>; \<open>Relay_Invariants\<close> has the locale \<open>relay_invariant\<close> for properties of the
  credential state over every request, interpreted for a used proof and for a revoked device; \<open>Relay_Delivery\<close> has all that a
  request does to the in-memory queue and that no unexpired message is lost over runs whose socket writes succeed;
  \<open>Relay_Properties\<close> and \<open>Relay_Guarantees\<close> draw the consequences over sequences of requests. \<open>Trust_State\<close> and \<open>Trust_Server\<close> are the trust root;
  \<open>Trust_Spec\<close> is its abstract specification as an event system, which the handlers refine; \<open>Trust_Codec\<close>,
  \<open>Trust_Properties\<close>, \<open>Revocation_Feed\<close> (locale \<open>paged_feed\<close>, interpreted for the memory log and the table) and
  \<open>Trust_Guarantees\<close> have what follows for grants, revocations and the feed. \<open>Relay_Samples\<close> and \<open>Trust_Samples\<close> are the small
  servers of the worked instances.

  \<^bold>\<open>Programs on the library.\<close> \<open>Scenario\<close> has sequences of library calls with early returns and rules for their total
  correctness. \<open>Conformance_Cases\<close> and \<open>Conformance_Laws\<close> are the cases of \<^verbatim>\<open>runner.go\<close> and \<^verbatim>\<open>runner_v02.go\<close> and that they
  pass; \<open>Service_Client\<close> the cases against running services; \<open>Conformance_Report\<close> the runner, the verdicts and the report as
  JSON; \<open>Report_Codec\<close> that a report is read back; \<open>Conformance_Guarantees\<close> that the release gate is exact and that the
  library passes its P0 suites. \<open>Cli\<close> is every command of the \<^verbatim>\<open>iscp\<close> tool on a terminal with its output and report
  directory, \<open>Cli_Guarantees\<close> that its local commands succeed and that reports stay in their directory and survive it.
  \<open>Simulator\<close> is the phone and watch example and that it succeeds. \<open>Database_Check\<close> is \<^verbatim>\<open>validatePostgres\<close> of the build tool
  on the repository models and that it passes on a working database.

  \<^bold>\<open>Bounds.\<close> The recursive JSON parsers take fuel. The fuel is twice the length of the input and one, every call consumes a
  byte or ends a bracket, and \<open>parseValue_total\<close>, \<open>Decode_total\<close> and \<open>Unmarshal_doc_total\<close> show that it never runs out.
  The loops that page through the revocation feed end by \<open>revocation_feed_terminates\<close>. Byte counts in the properties on
  programs (800 random bytes for the workflows of the tool, 2168 for the P0 suites) are what the programs draw. The
  nesting bound of \<^verbatim>\<open>encoding/json\<close> and the 64-bit range of canonical integers are those of the source.

  \<^bold>\<open>Not modelled.\<close> Secrecy and unforgeability: no property rests on a computational assumption. Concurrency within one
  critical section, the memory model, contexts and deadlines. The process start of \<^verbatim>\<open>relayd\<close> and \<^verbatim>\<open>trustd\<close>, which copies
  environment variables into the configuration and serves the handler, and \<^verbatim>\<open>migrate.go\<close>, which runs the embedded SQL files
  through the driver: their effects are in the database driver and in \<^verbatim>\<open>net/http\<close>. The other checks of \<^verbatim>\<open>iscp-ci\<close>, which
  compare repository files (schemas, OpenAPI text, traceability table, Helm chart) with lists at build time. WebSocket
  framing, TLS and HTTP parsing are those of the libraries: a request is its method, path, headers and body, and a path
  that \<^verbatim>\<open>ServeMux\<close> would redirect to its cleaned form is answered 404. Delivery (\<open>accepted_envelope_delivered\<close>) is shown for the
  relay without a database; with one, the lease of a claim and the single delivery are shown on the repository. The zone of
  a parsed time stamp is not kept. Log lines
  and metrics are not state; the redaction of log attributes is modelled. Characters of \<^verbatim>\<open>%q\<close> beyond ASCII are taken as
  printable, and numbers read into an untyped JSON value are texts with a parameter for their rendering.
\<close>

end
